(* ===== verification/Prelude.thy ===== *)
theory Prelude
  imports Main "HOL-Library.Word"
begin

text \<open>
  What every component of the model shares: the machine types of the code, the
  Rust \<open>Result\<close> with its \<open>?\<close> operator, little-endian integers
  (\<open>to_le_bytes\<close>, \<open>from_le_bytes\<close>), ranges of log indices, time, and the generic
  lemmas about them. Nothing here models a file of the repository by itself.
\<close>

section \<open>Machine types and time\<close>

type_synonym u8 = "8 word"
type_synonym u32 = "32 word"
type_synonym u64 = "64 word"
type_synonym bytes = "8 word list"

text \<open>
  A \<open>Duration\<close> is a number of nanoseconds. An \<open>Instant\<close> is a reading of the monotonic
  clock, also in nanoseconds; it is an integer because the clock's origin is arbitrary
  and the code subtracts durations from it.
\<close>

type_synonym duration = nat
type_synonym instant = int

definition from_secs :: "nat \<Rightarrow> duration" where
  "from_secs s = s * 1000000000"

definition from_millis :: "nat \<Rightarrow> duration" where
  "from_millis ms = ms * 1000000"

definition as_millis :: "duration \<Rightarrow> nat" where
  "as_millis d = d div 1000000"

definition as_micros :: "duration \<Rightarrow> nat" where
  "as_micros d = d div 1000"

text \<open>\<open>now.duration_since(t)\<close> and \<open>t.elapsed()\<close> saturate at zero.\<close>

definition duration_since :: "instant \<Rightarrow> instant \<Rightarrow> duration" where
  "duration_since now t = nat (now - t)"

lemma duration_since_less_iff [simp]: "duration_since now t < d \<longleftrightarrow> d > 0 \<and> now - t < int d"
  by (auto simp: duration_since_def)

lemma less_duration_since_iff [simp]: "d < duration_since now t \<longleftrightarrow> int d < now - t"
  by (auto simp: duration_since_def)

lemma as_millis_from_millis [simp]: "as_millis (from_millis ms) = ms"
  by (simp add: as_millis_def from_millis_def)

lemma as_millis_mono: "d \<le> d' \<Longrightarrow> as_millis d \<le> as_millis d'"
  by (simp add: as_millis_def div_le_mono)

lemma from_millis_le_iff [simp]: "from_millis a \<le> from_millis b \<longleftrightarrow> a \<le> b"
  by (simp add: from_millis_def)

section \<open>Results\<close>

text \<open>
  A Rust \<open>Result<T, E>\<close> is \<open>'e + 't\<close> with the error on the left. \<open>and_then r f\<close> is
  \<open>r?\<close> followed by the rest \<open>f\<close> of the function: the first error returns.
\<close>

definition and_then :: "'e + 'a \<Rightarrow> ('a \<Rightarrow> 'e + 'b) \<Rightarrow> 'e + 'b" where
  "and_then r f = (case r of Inl e \<Rightarrow> Inl e | Inr a \<Rightarrow> f a)"

definition map_err :: "('e \<Rightarrow> 'f) \<Rightarrow> 'e + 'a \<Rightarrow> 'f + 'a" where
  "map_err f r = (case r of Inl e \<Rightarrow> Inl (f e) | Inr a \<Rightarrow> Inr a)"

definition is_ok :: "'e + 'a \<Rightarrow> bool" where
  "is_ok r \<longleftrightarrow> (case r of Inl _ \<Rightarrow> False | Inr _ \<Rightarrow> True)"

lemma and_then_simps [simp]:
  "and_then (Inl e) f = Inl e"
  "and_then (Inr a) f = f a"
  by (simp_all add: and_then_def)

lemma map_err_simps [simp]:
  "map_err g (Inl e) = Inl (g e)"
  "map_err g (Inr a) = Inr a"
  by (simp_all add: map_err_def)

lemma is_ok_simps [simp]: "is_ok (Inr a)" "\<not> is_ok (Inl e)"
  by (simp_all add: is_ok_def)

lemma is_ok_iff: "is_ok r \<longleftrightarrow> (\<exists>a. r = Inr a)"
  by (cases r) auto

lemma and_then_Inr_iff: "and_then r f = Inr b \<longleftrightarrow> (\<exists>a. r = Inr a \<and> f a = Inr b)"
  by (cases r) auto

lemma and_then_Inl_iff: "and_then r f = Inl e \<longleftrightarrow> r = Inl e \<or> (\<exists>a. r = Inr a \<and> f a = Inl e)"
  by (cases r) auto

lemma map_err_Inr_iff [simp]: "map_err g r = Inr a \<longleftrightarrow> r = Inr a"
  by (cases r) auto

text \<open>\<open>iter.collect::<Result<Vec<_>>>()\<close>: all the values, or the first error.\<close>

fun collect_results :: "('e + 'a) list \<Rightarrow> 'e + 'a list" where
  "collect_results [] = Inr []"
| "collect_results (r # rs) = and_then r (\<lambda>a. and_then (collect_results rs) (\<lambda>as. Inr (a # as)))"

lemma collect_results_Inr_iff: "collect_results rs = Inr as \<longleftrightarrow> rs = map Inr as"
  by (induction rs arbitrary: as) (auto simp: and_then_Inr_iff Cons_eq_map_conv)

text \<open>A \<open>for\<close> loop whose body may leave the function with \<open>?\<close>.\<close>

fun for_each :: "('s \<Rightarrow> 'a \<Rightarrow> 'e + 's) \<Rightarrow> 's \<Rightarrow> 'a list \<Rightarrow> 'e + 's" where
  "for_each f s [] = Inr s"
| "for_each f s (x # xs) = and_then (f s x) (\<lambda>s'. for_each f s' xs)"

lemma for_each_total: "(\<And>s x. is_ok (f s x)) \<Longrightarrow> is_ok (for_each f s xs)"
proof (induction xs arbitrary: s)
  case (Cons x xs)
  obtain t where "f s x = Inr t" using Cons.prems[of s x] by (auto simp: is_ok_iff)
  with Cons show ?case by simp
qed simp

lemma map_fst_okD:
  "map (\<lambda>r. and_then (map_err f r) (\<lambda>(k, _). Inr k)) items = map Inr ks \<Longrightarrow>
   \<exists>kvs. items = map Inr kvs \<and> ks = map fst kvs"
proof (induction items arbitrary: ks)
  case Nil
  then show ?case by simp
next
  case (Cons r items)
  from Cons.prems obtain k ks' v where "ks = k # ks'" "r = Inr (k, v)"
    and "map (\<lambda>r. and_then (map_err f r) (\<lambda>(k, _). Inr k)) items = map Inr ks'"
    by (cases r) (auto simp: Cons_eq_map_conv)
  with Cons.IH[of ks'] obtain kvs where "items = map Inr kvs" "ks' = map fst kvs" by blast
  with \<open>ks = k # ks'\<close> \<open>r = Inr (k, v)\<close> show ?case
    by (intro exI[of _ "(k, v) # kvs"]) simp
qed

lemma for_each_append: "for_each f s (xs @ ys) = and_then (for_each f s xs) (\<lambda>s'. for_each f s' ys)"
  by (induction xs arbitrary: s) (auto simp: and_then_def split: sum.splits)

lemma for_each_simulates:
  assumes "\<And>s x s'. P s \<Longrightarrow> f s x = Inr s' \<Longrightarrow> P s' \<and> v s' = g (v s) x"
    and "P s" and "for_each f s xs = Inr s'"
  shows "P s' \<and> v s' = foldl g (v s) xs"
  using assms(2,3)
proof (induction xs arbitrary: s)
  case Nil
  then show ?case by simp
next
  case (Cons x xs)
  then obtain t where t: "f s x = Inr t" "for_each f t xs = Inr s'"
    by (auto simp: and_then_Inr_iff)
  with assms(1)[OF Cons.prems(1)] have "P t" "v t = g (v s) x" by auto
  with Cons.IH[OF \<open>P t\<close> t(2)] show ?case by simp
qed

section \<open>Little-endian integers\<close>

fun le_bytes :: "nat \<Rightarrow> nat \<Rightarrow> bytes" where
  "le_bytes 0 x = []"
| "le_bytes (Suc n) x = of_nat (x mod 256) # le_bytes n (x div 256)"

fun le_val :: "bytes \<Rightarrow> nat" where
  "le_val [] = 0"
| "le_val (b # bs) = unat b + 256 * le_val bs"

lemma length_le_bytes [simp]: "length (le_bytes n x) = n"
  by (induction n arbitrary: x) auto

lemma unat_byte_of_mod [simp]: "unat (of_nat (x mod 256) :: u8) = x mod 256"
  by (simp add: unat_of_nat take_bit_eq_mod)

lemma byte_less: "unat (b :: u8) < 256"
  using unsigned_less[of b] by simp

lemma u64_less: "unat (w :: u64) < 2 ^ 64"
  using unsigned_less[of w] by simp

lemma u32_less: "unat (w :: u32) < 2 ^ 32"
  using unsigned_less[of w] by simp

lemma le_val_le_bytes: "le_val (le_bytes n x) = x mod 256 ^ n"
proof (induction n arbitrary: x)
  case 0
  then show ?case by simp
next
  case (Suc n)
  have "x mod 256 ^ Suc n = x mod 256 + 256 * (x div 256 mod 256 ^ n)"
    using mod_mult2_eq[of x 256 "256 ^ n"] by simp
  with Suc show ?case by simp
qed

lemma le_val_less: "le_val bs < 256 ^ length bs"
proof (induction bs)
  case Nil
  then show ?case by simp
next
  case (Cons b bs)
  then have "256 * le_val bs + 256 \<le> 256 * 256 ^ length bs" by simp
  with byte_less[of b] show ?case by simp
qed

lemma le_bytes_le_val: "le_bytes (length bs) (le_val bs) = bs"
proof (induction bs)
  case Nil
  then show ?case by simp
next
  case (Cons b bs)
  have "unat b mod 256 = unat b" using byte_less[of b] by simp
  moreover have "(unat b + 256 * le_val bs) div 256 = le_val bs"
    using byte_less[of b] by simp
  moreover have "(unat b + 256 * le_val bs) mod 256 = unat b"
    using byte_less[of b] by simp
  ultimately show ?case using Cons by simp
qed

definition u64_le :: "u64 \<Rightarrow> bytes" where
  "u64_le w = le_bytes 8 (unat w)"

definition u32_le :: "u32 \<Rightarrow> bytes" where
  "u32_le w = le_bytes 4 (unat w)"

definition u64_from_le :: "bytes \<Rightarrow> u64" where
  "u64_from_le bs = of_nat (le_val bs)"

definition u32_from_le :: "bytes \<Rightarrow> u32" where
  "u32_from_le bs = of_nat (le_val bs)"

lemma length_word_le [simp]: "length (u64_le w) = 8" "length (u32_le v) = 4"
  by (simp_all add: u64_le_def u32_le_def)

lemma u64_from_le_le [simp]: "u64_from_le (u64_le w) = w"
  using u64_less[of w] by (simp add: u64_from_le_def u64_le_def le_val_le_bytes)

lemma u32_from_le_le [simp]: "u32_from_le (u32_le w) = w"
  using u32_less[of w] by (simp add: u32_from_le_def u32_le_def le_val_le_bytes)

lemma u64_le_from_le: "length bs = 8 \<Longrightarrow> u64_le (u64_from_le bs) = bs"
  using le_val_less[of bs] le_bytes_le_val[of bs]
  by (simp add: u64_from_le_def u64_le_def unat_of_nat take_bit_eq_mod)

lemma u32_le_from_le: "length bs = 4 \<Longrightarrow> u32_le (u32_from_le bs) = bs"
  using le_val_less[of bs] le_bytes_le_val[of bs]
  by (simp add: u32_from_le_def u32_le_def unat_of_nat take_bit_eq_mod)

lemma unat_of_nat_u32: "n < 2 ^ 32 \<Longrightarrow> unat (of_nat n :: u32) = n"
  by (simp add: unat_of_nat take_bit_eq_mod)

lemma unat_of_nat_u64: "n < 2 ^ 64 \<Longrightarrow> unat (of_nat n :: u64) = n"
  by (simp add: unat_of_nat take_bit_eq_mod)

section \<open>Ranges of log indices\<close>

text \<open>The Rust range \<open>lo..hi\<close> over \<open>u64\<close>, in order.\<close>

definition u64_range :: "u64 \<Rightarrow> u64 \<Rightarrow> u64 list" where
  "u64_range lo hi = map of_nat [unat lo..<unat hi]"

lemma u64_range_empty [simp]: "hi \<le> lo \<Longrightarrow> u64_range lo hi = []"
  by (simp add: u64_range_def word_le_nat_alt)

lemma length_u64_range [simp]: "length (u64_range lo hi) = unat hi - unat lo"
  by (simp add: u64_range_def)

lemma nth_u64_range: "n < unat hi - unat lo \<Longrightarrow> u64_range lo hi ! n = lo + of_nat n"
  by (simp add: u64_range_def)

lemma set_u64_range: "set (u64_range lo hi) = {i. lo \<le> i \<and> i < hi}"
proof (intro set_eqI iffI)
  fix i assume "i \<in> set (u64_range lo hi)"
  then obtain n where "unat lo \<le> n" "n < unat hi" "i = of_nat n"
    by (auto simp: u64_range_def)
  with u64_less[of hi] show "i \<in> {i. lo \<le> i \<and> i < hi}"
    by (simp add: word_le_nat_alt word_less_nat_alt unat_of_nat_u64)
next
  fix i assume "i \<in> {i. lo \<le> i \<and> i < hi}"
  then have "unat i \<in> {unat lo..<unat hi}" and "i = of_nat (unat i)"
    by (simp_all add: word_le_nat_alt word_less_nat_alt)
  then have "i \<in> of_nat ` {unat lo..<unat hi}" by (rule rev_image_eqI)
  then show "i \<in> set (u64_range lo hi)" by (simp add: u64_range_def)
qed

lemma distinct_u64_range [simp]: "distinct (u64_range lo hi)"
proof -
  have "inj_on (of_nat :: nat \<Rightarrow> u64) {unat lo..<unat hi}"
  proof (rule inj_onI)
    fix x y assume "x \<in> {unat lo..<unat hi}" "y \<in> {unat lo..<unat hi}" "(of_nat x :: u64) = of_nat y"
    moreover have "unat hi < 2 ^ 64" using u64_less[of hi] by simp
    ultimately show "x = y"
      by (metis atLeastLessThan_iff order.strict_trans unat_of_nat_u64)
  qed
  then show ?thesis by (simp add: u64_range_def distinct_map)
qed

section \<open>Slices\<close>

text \<open>The Rust slice \<open>data[a..a + n]\<close> of a list known to be long enough.\<close>

definition sub_slice :: "nat \<Rightarrow> nat \<Rightarrow> 'a list \<Rightarrow> 'a list" where
  "sub_slice a n xs = take n (drop a xs)"

lemma length_sub_slice: "a + n \<le> length xs \<Longrightarrow> length (sub_slice a n xs) = n"
  by (simp add: sub_slice_def)

lemma sub_slice_skip: "length xs \<le> a \<Longrightarrow> sub_slice a n (xs @ ys) = sub_slice (a - length xs) n ys"
  by (simp add: sub_slice_def)

lemma sub_slice_Cons: "0 < a \<Longrightarrow> sub_slice a n (x # xs) = sub_slice (a - 1) n xs"
  by (cases a) (simp_all add: sub_slice_def)

lemma sub_slice_hit: "length xs = n \<Longrightarrow> sub_slice 0 n (xs @ ys) = xs"
  by (simp add: sub_slice_def)

lemma sub_slice_all: "length xs = n \<Longrightarrow> sub_slice 0 n xs = xs"
  by (simp add: sub_slice_def)

lemma sub_slice_split: "a + n \<le> length xs \<Longrightarrow> drop a xs = sub_slice a n xs @ drop (a + n) xs"
  by (simp add: sub_slice_def) (metis add.commute append_take_drop_id drop_drop)

lemma sub_slice_append_exact: "length xs = a \<Longrightarrow> length ys = n \<Longrightarrow> sub_slice a n (xs @ ys @ zs) = ys"
  by (simp add: sub_slice_def)

lemma sub_slice_append_left: "a + n \<le> length xs \<Longrightarrow> sub_slice a n (xs @ ys) = sub_slice a n xs"
  by (simp add: sub_slice_def)

lemma sub_slice_take: "a + n \<le> m \<Longrightarrow> sub_slice a n (take m xs) = sub_slice a n xs"
  by (simp add: sub_slice_def drop_take min_def)

section \<open>Decimal numbers in messages\<close>

fun show_nat :: "nat \<Rightarrow> string" where
  "show_nat n = (if n < 10 then [char_of (48 + n)] else show_nat (n div 10) @ [char_of (48 + n mod 10)])"

declare show_nat.simps [simp del]

end
