(* ===== verification/Errors.thy ===== *)
theory Errors
  imports Prelude
begin

text \<open>
  \<open>src/src/error.rs\<close>: the error type of the library, its classification
  (\<open>is_transient\<close>, \<open>should_step_down\<close>, \<open>category\<close>), the constructors with context and
  the conversions from other error types. A boxed third-party error is carried as the
  text it displays; the captured backtraces are left out, since nothing reads them.
\<close>

type_synonym error_text = string

record DatabaseError =
  db_operation :: string
  db_source :: error_text

record StorageError =
  st_operation :: string
  st_source :: error_text

record TransportError =
  tr_details :: string

record ConsensusError =
  co_operation :: string
  co_source :: error_text

datatype (plugins only: code size) RaftError =
    NotLeader string "u64 option"
  | NodeNotFound u64
  | Consensus ConsensusError
  | Database DatabaseError
  | Storage StorageError
  | Transport TransportError
  | NotReady u64 string string
  | ProposalRejected string string
  | ConfigurationChange string string
  | Snapshot string string
  | Timeout string duration
  | CircuitBreakerOpen string
  | Backpressure string string
  | ResourceExhausted string string
  | Transaction string string
  | StorageCorruption string string
  | InsufficientSpace string u64 u64
  | ConnectionFailed string string
  | NetworkPartition string
  | Serialization string error_text
  | ProtocolMismatch string string string
  | NetworkTimeout string string duration
  | InvalidConfiguration string string
  | MissingConfiguration string string
  | ConfigurationValidation string string
  | ServiceUnavailable string string
  | AuthenticationFailed string string
  | AuthorizationDenied string string
  | Cryptographic string string
  | InvariantViolation string
  | NotImplemented string
  | InvalidState string string string
  | LockPoisoned string string
  | InvalidInput string string
  | Validation string string
  | ConstraintViolation string string string
  | Io string error_text
  | System string string
  | Internal string
  | ClusterError string
  | Multiple string "RaftError list"

section \<open>Classification\<close>

fun is_transient :: "RaftError \<Rightarrow> bool" where
  "is_transient err = (case err of
     NetworkTimeout _ _ _ \<Rightarrow> True
   | ConnectionFailed _ _ \<Rightarrow> True
   | Transport _ \<Rightarrow> True
   | ServiceUnavailable _ _ \<Rightarrow> True
   | ResourceExhausted _ _ \<Rightarrow> True
   | NotReady _ _ _ \<Rightarrow> True
   | Multiple _ errors \<Rightarrow> list_all is_transient errors
   | _ \<Rightarrow> False)"

fun should_step_down :: "RaftError \<Rightarrow> bool" where
  "should_step_down err = (case err of
     NetworkPartition _ \<Rightarrow> True
   | StorageCorruption _ _ \<Rightarrow> True
   | InsufficientSpace _ _ _ \<Rightarrow> True
   | Multiple _ errors \<Rightarrow> list_ex should_step_down errors
   | _ \<Rightarrow> False)"

definition category :: "RaftError \<Rightarrow> string" where
  "category e = (case e of
     NotLeader _ _ \<Rightarrow> ''raft'' | Consensus _ \<Rightarrow> ''raft'' | NotReady _ _ _ \<Rightarrow> ''raft''
   | NodeNotFound _ \<Rightarrow> ''raft'' | ProposalRejected _ _ \<Rightarrow> ''raft''
   | ConfigurationChange _ _ \<Rightarrow> ''raft'' | Snapshot _ _ \<Rightarrow> ''raft''
   | Storage _ \<Rightarrow> ''storage'' | Database _ \<Rightarrow> ''storage'' | Transaction _ _ \<Rightarrow> ''storage''
   | StorageCorruption _ _ \<Rightarrow> ''storage'' | InsufficientSpace _ _ _ \<Rightarrow> ''storage''
   | Transport _ \<Rightarrow> ''transport'' | ConnectionFailed _ _ \<Rightarrow> ''transport''
   | NetworkPartition _ \<Rightarrow> ''transport'' | Serialization _ _ \<Rightarrow> ''transport''
   | ProtocolMismatch _ _ _ \<Rightarrow> ''transport'' | NetworkTimeout _ _ _ \<Rightarrow> ''transport''
   | InvalidConfiguration _ _ \<Rightarrow> ''configuration''
   | MissingConfiguration _ _ \<Rightarrow> ''configuration''
   | ConfigurationValidation _ _ \<Rightarrow> ''configuration''
   | AuthenticationFailed _ _ \<Rightarrow> ''security'' | AuthorizationDenied _ _ \<Rightarrow> ''security''
   | Cryptographic _ _ \<Rightarrow> ''security''
   | InvariantViolation _ \<Rightarrow> ''internal'' | NotImplemented _ \<Rightarrow> ''internal''
   | InvalidState _ _ _ \<Rightarrow> ''internal'' | LockPoisoned _ _ \<Rightarrow> ''internal''
   | InvalidInput _ _ \<Rightarrow> ''validation'' | Validation _ _ \<Rightarrow> ''validation''
   | ConstraintViolation _ _ _ \<Rightarrow> ''validation''
   | ResourceExhausted _ _ \<Rightarrow> ''system'' | Timeout _ _ \<Rightarrow> ''system''
   | ServiceUnavailable _ _ \<Rightarrow> ''system'' | Io _ _ \<Rightarrow> ''system'' | System _ _ \<Rightarrow> ''system''
   | Internal _ \<Rightarrow> ''internal''
   | ClusterError _ \<Rightarrow> ''cluster''
   | Multiple _ _ \<Rightarrow> ''multiple''
   | CircuitBreakerOpen _ \<Rightarrow> ''circuit_breaker''
   | Backpressure _ _ \<Rightarrow> ''backpressure'')"

section \<open>Constructors with context and conversions\<close>

definition storage_error :: "string \<Rightarrow> error_text \<Rightarrow> RaftError" where
  "storage_error operation src = Storage \<lparr>st_operation = operation, st_source = src\<rparr>"

definition transport_error :: "string \<Rightarrow> RaftError" where
  "transport_error details = Transport \<lparr>tr_details = details\<rparr>"

definition consensus_error :: "string \<Rightarrow> error_text \<Rightarrow> RaftError" where
  "consensus_error operation src = Consensus \<lparr>co_operation = operation, co_source = src\<rparr>"

definition database_error :: "string \<Rightarrow> error_text \<Rightarrow> RaftError" where
  "database_error operation src = Database \<lparr>db_operation = operation, db_source = src\<rparr>"

definition from_io_error :: "error_text \<Rightarrow> RaftError" where
  "from_io_error err = Io ''unknown'' err"

definition from_redb_error :: "error_text \<Rightarrow> RaftError" where
  "from_redb_error err = database_error ''unknown'' err"

definition from_raft_error :: "error_text \<Rightarrow> RaftError" where
  "from_raft_error err = consensus_error ''unknown'' err"

definition from_json_error :: "error_text \<Rightarrow> RaftError" where
  "from_json_error err = Serialization ''json'' err"

definition from_bincode_error :: "error_text \<Rightarrow> RaftError" where
  "from_bincode_error err = Serialization ''binary'' err"

definition from_postcard_error :: "error_text \<Rightarrow> RaftError" where
  "from_postcard_error err = Serialization ''postcard'' err"

definition from_config_error :: "error_text \<Rightarrow> RaftError" where
  "from_config_error err = InvalidConfiguration ''config'' err"

lemmas conversion_defs =
  storage_error_def transport_error_def consensus_error_def database_error_def
  from_io_error_def from_redb_error_def from_raft_error_def from_json_error_def
  from_bincode_error_def from_postcard_error_def from_config_error_def

section \<open>Properties\<close>

text \<open>Retry and step-down advice never contradict each other, at any nesting.\<close>

lemma transient_not_step_down: "is_transient e \<Longrightarrow> \<not> should_step_down e"
proof (induction e)
  case (Multiple c es)
  then show ?case by (auto simp: list_all_iff list_ex_iff)
qed auto

lemma all_transient_none_step_down:
  "list_all is_transient es \<Longrightarrow> \<not> list_ex should_step_down es"
  using transient_not_step_down by (auto simp: list_all_iff list_ex_iff)

text \<open>
  The leaves of an error: what \<open>Multiple\<close> aggregates. The classification of an
  aggregate is determined by its leaves.
\<close>

fun leaves :: "RaftError \<Rightarrow> RaftError list" where
  "leaves err = (case err of
     Multiple _ errors \<Rightarrow> concat (map leaves errors)
   | _ \<Rightarrow> [err])"

lemma is_transient_leaves: "is_transient e \<longleftrightarrow> list_all is_transient (leaves e)"
proof (induction e)
  case (Multiple c es)
  then show ?case by (auto simp: list_all_iff)
qed auto

lemma should_step_down_leaves: "should_step_down e \<longleftrightarrow> list_ex should_step_down (leaves e)"
proof (induction e)
  case (Multiple c es)
  then show ?case by (auto simp: list_ex_iff)
qed auto

text \<open>
  The advice of an error is decided by its leaves: an error is transient exactly
  when every leaf is, it asks for a step-down exactly when some leaf does, and no error
  does both.
\<close>

theorem error_advice_consistent:
  "is_transient e = list_all is_transient (leaves e)
   \<and> should_step_down e = list_ex should_step_down (leaves e)
   \<and> \<not> (is_transient e \<and> should_step_down e)"
  using is_transient_leaves should_step_down_leaves transient_not_step_down by blast

end
