(* ===== verification/Actions.thy ===== *)
theory Actions
  imports Errors
begin

text \<open>
  Fallible steps on a state, with which the methods of the Raft manager, the transport and the
  services around them are written. Nothing here models a file by itself.
\<close>

section \<open>Actions\<close>

text \<open>
  A method with a mutable receiver returns a result and the state afterwards, in which everything done
  before an error is kept. \<open>let a = f()?; g(a)\<close> of the code is \<open>act_then f (\<lambda>a. g)\<close>.
\<close>

type_synonym ('m, 'a) action = "'m \<Rightarrow> (RaftError + 'a) \<times> 'm"

definition act_return :: "'a \<Rightarrow> ('m, 'a) action" where
  "act_return a = (\<lambda>m. (Inr a, m))"

definition act_fail :: "RaftError \<Rightarrow> ('m, 'a) action" where
  "act_fail e = (\<lambda>m. (Inl e, m))"

definition act_update :: "('m \<Rightarrow> 'm) \<Rightarrow> ('m, unit) action" where
  "act_update f = (\<lambda>m. (Inr (), f m))"

definition act_then :: "('m, 'a) action \<Rightarrow> ('a \<Rightarrow> ('m, 'b) action) \<Rightarrow> ('m, 'b) action" where
  "act_then f g = (\<lambda>m. case f m of (r, m') \<Rightarrow> (case r of Inl e \<Rightarrow> (Inl e, m') | Inr a \<Rightarrow> g a m'))"

text \<open>A step that looks at the state first.\<close>

definition act_with :: "('m \<Rightarrow> 'a) \<Rightarrow> ('a \<Rightarrow> ('m, 'b) action) \<Rightarrow> ('m, 'b) action" where
  "act_with f g = (\<lambda>m. g (f m) m)"

fun act_each :: "('a \<Rightarrow> ('m, unit) action) \<Rightarrow> 'a list \<Rightarrow> ('m, unit) action" where
  "act_each f [] = act_return ()"
| "act_each f (x # xs) = act_then (f x) (\<lambda>_. act_each f xs)"

section \<open>Reasoning about actions\<close>

lemma act_return_apply [simp]: "act_return a m = (Inr a, m)"
  by (simp add: act_return_def)

lemma act_fail_apply [simp]: "act_fail e m = (Inl e, m)"
  by (simp add: act_fail_def)

lemma act_update_apply [simp]: "act_update f m = (Inr (), f m)"
  by (simp add: act_update_def)

lemma act_with_apply [simp]: "act_with f g m = g (f m) m"
  by (simp add: act_with_def)

lemma act_then_apply: "act_then f g m = (case f m of (r, m') \<Rightarrow> (case r of Inl e \<Rightarrow> (Inl e, m') | Inr a \<Rightarrow> g a m'))"
  by (simp add: act_then_def)

lemma act_then_ok: "f m = (Inr a, m') \<Longrightarrow> act_then f g m = g a m'"
  by (simp add: act_then_def)

lemma act_then_fail: "f m = (Inl e, m') \<Longrightarrow> act_then f g m = (Inl e, m')"
  by (simp add: act_then_def)

lemma act_then_return [simp]: "act_then (act_return a) g m = g a m"
  by (simp add: act_then_def)

lemma act_then_failed [simp]: "act_then (act_fail e) g m = (Inl e, m)"
  by (simp add: act_then_def)

lemma act_then_update [simp]: "act_then (act_update f) g m = g () (f m)"
  by (simp add: act_then_def)

lemma act_then_with [simp]: "act_then (act_with f h) g m = act_then (h (f m)) g m"
  by (simp add: act_then_def)

lemma act_then_assoc [simp]: "act_then (act_then f h) g m = act_then f (\<lambda>a. act_then (h a) g) m"
  by (simp add: act_then_def split: prod.split sum.split)

lemma act_then_if [simp]: "act_then (if b then f else h) g m = (if b then act_then f g m else act_then h g m)"
  by simp

lemma act_then_return_left: "act_then (act_return a) g = g a"
  by (simp add: fun_eq_iff)

lemma act_then_return_right: "act_then f (\<lambda>_. act_return ()) = f"
  by (auto simp: fun_eq_iff act_then_def split: prod.split sum.split)

lemma act_then_InrE:
  assumes "act_then f g m = (Inr b, m')"
  obtains a m1 where "f m = (Inr a, m1)" and "g a m1 = (Inr b, m')"
  using assms by (auto simp: act_then_def split: prod.splits sum.splits)

text \<open>\<open>keeps I f\<close>: the action keeps \<open>I\<close>, whether it succeeds or fails.\<close>

definition keeps :: "('m \<Rightarrow> bool) \<Rightarrow> ('m, 'a) action \<Rightarrow> bool" where
  "keeps I f \<longleftrightarrow> (\<forall>m. I m \<longrightarrow> I (snd (f m)))"

named_theorems keeps_rules

lemma keepsD: "keeps I f \<Longrightarrow> I m \<Longrightarrow> f m = (r, m') \<Longrightarrow> I m'"
  by (force simp: keeps_def)

lemma keeps_return [keeps_rules]: "keeps I (act_return a)"
  by (simp add: keeps_def)

lemma keeps_fail [keeps_rules]: "keeps I (act_fail e)"
  by (simp add: keeps_def)

lemma keeps_update: "(\<And>m. I m \<Longrightarrow> I (f m)) \<Longrightarrow> keeps I (act_update f)"
  by (simp add: keeps_def)

lemma keeps_then [keeps_rules]: "keeps I f \<Longrightarrow> (\<And>a. keeps I (g a)) \<Longrightarrow> keeps I (act_then f g)"
  by (force simp: keeps_def act_then_def split: prod.split sum.split)

lemma keeps_with [keeps_rules]: "(\<And>a. keeps I (g a)) \<Longrightarrow> keeps I (act_with f g)"
  unfolding keeps_def by (auto simp: act_with_def)

lemma keeps_each [keeps_rules]: "(\<And>x. keeps I (f x)) \<Longrightarrow> keeps I (act_each f xs)"
  by (induction xs) (auto intro: keeps_rules)

lemma keeps_if [keeps_rules]: "(b \<Longrightarrow> keeps I f) \<Longrightarrow> (\<not> b \<Longrightarrow> keeps I g) \<Longrightarrow> keeps I (if b then f else g)"
  by simp

lemma keeps_option [keeps_rules]:
  "(x = None \<Longrightarrow> keeps I f) \<Longrightarrow> (\<And>a. x = Some a \<Longrightarrow> keeps I (g a)) \<Longrightarrow> keeps I (case x of None \<Rightarrow> f | Some a \<Rightarrow> g a)"
  by (cases x) auto

lemma keeps_sum [keeps_rules]:
  "(\<And>e. x = Inl e \<Longrightarrow> keeps I (f e)) \<Longrightarrow> (\<And>a. x = Inr a \<Longrightarrow> keeps I (g a)) \<Longrightarrow>
   keeps I (case x of Inl e \<Rightarrow> f e | Inr a \<Rightarrow> g a)"
  by (cases x) auto

end
