(* ===== verification/Redb.thy ===== *)
theory Redb
  imports Errors "HOL-Library.RBT" "HOL-Library.List_Lexorder" "HOL-Library.Char_ord"
begin

text \<open>
  The database under the storage layer. redb is a third-party crate, so its operations
  are a parameter of the model: the record \<open>redb\<close> holds the calls the code makes, each of
  which may fail with an error text. \<open>redb_ok\<close> states what the code relies on: a
  transaction starts from the committed tables, reads see the transaction's own writes, a
  range is in key order, a successful commit publishes the transaction and a transaction
  that is dropped leaves no trace. What a failed commit leaves behind is left open.
  \<open>redb_total\<close> says that no call fails. Both hold of \<open>mem_redb\<close>, an in-memory instance
  that shows the hypotheses can be met.
\<close>

section \<open>The interface\<close>

record ('tx, 'k) table_ops =
  t_get :: "'tx \<Rightarrow> string \<Rightarrow> 'k \<Rightarrow> error_text + bytes option"
  t_insert :: "'tx \<Rightarrow> string \<Rightarrow> 'k \<Rightarrow> bytes \<Rightarrow> error_text + 'tx"
  t_remove :: "'tx \<Rightarrow> string \<Rightarrow> 'k \<Rightarrow> error_text + 'tx"
  t_range :: "'tx \<Rightarrow> string \<Rightarrow> ('k \<Rightarrow> bool) \<Rightarrow> error_text + (error_text + 'k \<times> bytes) list"

record ('db, 'tx) redb =
  begin_read :: "'db \<Rightarrow> error_text + 'tx"
  begin_write :: "'db \<Rightarrow> error_text + 'tx"
  open_table :: "'tx \<Rightarrow> string \<Rightarrow> error_text + 'tx"
  commit :: "'tx \<Rightarrow> 'db \<Rightarrow> (error_text + unit) \<times> 'db"
  ops64 :: "('tx, u64) table_ops"
  opsS :: "('tx, string) table_ops"
  opsB :: "('tx, bytes) table_ops"

text \<open>The contents of a database or a transaction, for stating the laws.\<close>

datatype key = K64 u64 | KS string | KB bytes

type_synonym tables = "string \<Rightarrow> key \<rightharpoonup> bytes"

definition put :: "string \<Rightarrow> key \<Rightarrow> bytes \<Rightarrow> tables \<Rightarrow> tables" where
  "put t k v m = m(t := (m t)(k \<mapsto> v))"

definition del :: "string \<Rightarrow> key \<Rightarrow> tables \<Rightarrow> tables" where
  "del t k m = m(t := (m t)(k := None))"

definition ops_ok :: "('k::linorder \<Rightarrow> key) \<Rightarrow> ('tx \<Rightarrow> tables) \<Rightarrow> ('tx, 'k) table_ops \<Rightarrow> bool" where
  "ops_ok mk view ops \<longleftrightarrow>
     (\<forall>tx t k r. t_get ops tx t k = Inr r \<longrightarrow> r = view tx t (mk k))
   \<and> (\<forall>tx t k v tx'. t_insert ops tx t k v = Inr tx' \<longrightarrow> view tx' = put t (mk k) v (view tx))
   \<and> (\<forall>tx t k tx'. t_remove ops tx t k = Inr tx' \<longrightarrow> view tx' = del t (mk k) (view tx))
   \<and> (\<forall>tx t P items. t_range ops tx t P = Inr (map Inr items) \<longrightarrow>
        sorted_wrt (<) (map fst items)
        \<and> (\<forall>k v. (k, v) \<in> set items \<longleftrightarrow> P k \<and> view tx t (mk k) = Some v))"

definition redb_ok :: "('db, 'tx) redb \<Rightarrow> ('db \<Rightarrow> tables) \<Rightarrow> ('tx \<Rightarrow> tables) \<Rightarrow> bool" where
  "redb_ok R dbv view \<longleftrightarrow>
     (\<forall>db tx. begin_read R db = Inr tx \<longrightarrow> view tx = dbv db)
   \<and> (\<forall>db tx. begin_write R db = Inr tx \<longrightarrow> view tx = dbv db)
   \<and> (\<forall>tx t tx'. open_table R tx t = Inr tx' \<longrightarrow> view tx' = view tx)
   \<and> (\<forall>tx db db'. commit R tx db = (Inr (), db') \<longrightarrow> dbv db' = view tx)
   \<and> ops_ok K64 view (ops64 R) \<and> ops_ok KS view (opsS R) \<and> ops_ok KB view (opsB R)"

definition ops_total :: "('tx, 'k) table_ops \<Rightarrow> bool" where
  "ops_total ops \<longleftrightarrow>
     (\<forall>tx t k. is_ok (t_get ops tx t k)) \<and> (\<forall>tx t k v. is_ok (t_insert ops tx t k v))
   \<and> (\<forall>tx t k. is_ok (t_remove ops tx t k))
   \<and> (\<forall>tx t P. \<exists>items. t_range ops tx t P = Inr (map Inr items))"

definition redb_total :: "('db, 'tx) redb \<Rightarrow> bool" where
  "redb_total R \<longleftrightarrow>
     (\<forall>db. is_ok (begin_read R db)) \<and> (\<forall>db. is_ok (begin_write R db))
   \<and> (\<forall>tx t. is_ok (open_table R tx t)) \<and> (\<forall>tx db. fst (commit R tx db) = Inr ())
   \<and> ops_total (ops64 R) \<and> ops_total (opsS R) \<and> ops_total (opsB R)"

text \<open>A database that keeps its laws and whose calls do not fail.\<close>

definition redb_reliable :: "('db, 'tx) redb \<Rightarrow> ('db \<Rightarrow> tables) \<Rightarrow> ('tx \<Rightarrow> tables) \<Rightarrow> bool" where
  "redb_reliable R dbv view \<longleftrightarrow> redb_ok R dbv view \<and> redb_total R"

section \<open>Using the laws\<close>

lemma put_same [simp]: "put t k v m t = (m t)(k \<mapsto> v)" by (simp add: put_def)
lemma put_other [simp]: "t \<noteq> u \<Longrightarrow> put t k v m u = m u" by (simp add: put_def)
lemma del_same [simp]: "del t k m t = (m t)(k := None)" by (simp add: del_def)
lemma del_other [simp]: "t \<noteq> u \<Longrightarrow> del t k m u = m u" by (simp add: del_def)

lemma ops_okD:
  assumes "ops_ok mk view ops"
  shows "t_get ops tx t k = Inr r \<Longrightarrow> r = view tx t (mk k)"
    and "t_insert ops tx t k v = Inr tx' \<Longrightarrow> view tx' = put t (mk k) v (view tx)"
    and "t_remove ops tx t k = Inr tx' \<Longrightarrow> view tx' = del t (mk k) (view tx)"
    and "t_range ops tx t P = Inr (map Inr items) \<Longrightarrow> sorted_wrt (<) (map fst items)"
    and "t_range ops tx t P = Inr (map Inr items) \<Longrightarrow>
      ((k, v) \<in> set items \<longleftrightarrow> P k \<and> view tx t (mk k) = Some v)"
  using assms by (simp_all add: ops_ok_def)

lemma redb_okD:
  assumes "redb_ok R dbv view"
  shows "begin_read R db = Inr tx \<Longrightarrow> view tx = dbv db"
    and "begin_write R db = Inr tx \<Longrightarrow> view tx = dbv db"
    and "open_table R tx t = Inr tx' \<Longrightarrow> view tx' = view tx"
    and "commit R tx db = (Inr (), db') \<Longrightarrow> dbv db' = view tx"
    and "ops_ok K64 view (ops64 R)" and "ops_ok KS view (opsS R)" and "ops_ok KB view (opsB R)"
  using assms by (simp_all add: redb_ok_def)

lemma redb_totalD:
  assumes "redb_total R"
  shows "\<exists>tx. begin_read R db = Inr tx" and "\<exists>tx. begin_write R db = Inr tx"
    and "\<exists>tx'. open_table R tx t = Inr tx'" and "fst (commit R tx db) = Inr ()"
    and "ops_total (ops64 R)" and "ops_total (opsS R)" and "ops_total (opsB R)"
  using assms by (simp_all add: redb_total_def is_ok_iff)

lemma ops_totalD:
  assumes "ops_total ops"
  shows "\<exists>r. t_get ops tx t k = Inr r" and "\<exists>tx'. t_insert ops tx t k v = Inr tx'"
    and "\<exists>tx'. t_remove ops tx t k = Inr tx'" and "\<exists>items. t_range ops tx t P = Inr (map Inr items)"
  using assms by (simp_all add: ops_total_def is_ok_iff)

section \<open>An in-memory instance\<close>

record mem_tx =
  mem64 :: "string \<Rightarrow> (u64, bytes) rbt"
  memS :: "string \<Rightarrow> (string, bytes) rbt"
  memB :: "string \<Rightarrow> (bytes, bytes) rbt"

definition mem_view :: "mem_tx \<Rightarrow> tables" where
  "mem_view m t k = (case k of K64 i \<Rightarrow> RBT.lookup (mem64 m t) i | KS s \<Rightarrow> RBT.lookup (memS m t) s
     | KB b \<Rightarrow> RBT.lookup (memB m t) b)"

definition mem_ops :: "(mem_tx \<Rightarrow> string \<Rightarrow> ('k::linorder, bytes) rbt)
    \<Rightarrow> (string \<Rightarrow> ('k, bytes) rbt \<Rightarrow> mem_tx \<Rightarrow> mem_tx) \<Rightarrow> (mem_tx, 'k) table_ops" where
  "mem_ops sel upd = \<lparr>
     t_get = (\<lambda>tx t k. Inr (RBT.lookup (sel tx t) k)),
     t_insert = (\<lambda>tx t k v. Inr (upd t (RBT.insert k v (sel tx t)) tx)),
     t_remove = (\<lambda>tx t k. Inr (upd t (RBT.delete k (sel tx t)) tx)),
     t_range = (\<lambda>tx t P. Inr (map Inr (filter (\<lambda>(k, v). P k) (RBT.entries (sel tx t)))))\<rparr>"

definition mem_redb :: "(mem_tx, mem_tx) redb" where
  "mem_redb = \<lparr>
     begin_read = Inr, begin_write = Inr, open_table = (\<lambda>tx t. Inr tx),
     commit = (\<lambda>tx db. (Inr (), tx)),
     ops64 = mem_ops mem64 (\<lambda>t r m. m\<lparr>mem64 := (mem64 m)(t := r)\<rparr>),
     opsS = mem_ops memS (\<lambda>t r m. m\<lparr>memS := (memS m)(t := r)\<rparr>),
     opsB = mem_ops memB (\<lambda>t r m. m\<lparr>memB := (memB m)(t := r)\<rparr>)\<rparr>"

definition mem_empty :: mem_tx where
  "mem_empty = \<lparr>mem64 = \<lambda>_. RBT.empty, memS = \<lambda>_. RBT.empty, memB = \<lambda>_. RBT.empty\<rparr>"

lemma mem_view_empty [simp]: "mem_view mem_empty = (\<lambda>_ _. None)"
  by (auto simp: mem_view_def mem_empty_def fun_eq_iff split: key.splits)

lemma rbt_entries_lookup: "(k, v) \<in> set (RBT.entries r) \<longleftrightarrow> RBT.lookup r k = Some v"
  using RBT.map_of_entries[of r] RBT.distinct_entries[of r] by (metis map_of_eq_Some_iff)

lemma rbt_entries_range:
  fixes r :: "('k::linorder, 'v) rbt"
  shows "sorted_wrt (<) (map fst (filter (\<lambda>(k, v). P k) (RBT.entries r)))"
    and "(k, v) \<in> set (filter (\<lambda>(k, v). P k) (RBT.entries r)) \<longleftrightarrow> P k \<and> RBT.lookup r k = Some v"
proof -
  have "sorted_wrt (<) (map fst (RBT.entries r))"
    using RBT.sorted_entries[of r] RBT.distinct_entries[of r] by (simp add: strict_sorted_iff)
  then show "sorted_wrt (<) (map fst (filter (\<lambda>(k, v). P k) (RBT.entries r)))"
    by (simp add: sorted_wrt_map sorted_wrt_filter)
  show "(k, v) \<in> set (filter (\<lambda>(k, v). P k) (RBT.entries r)) \<longleftrightarrow> P k \<and> RBT.lookup r k = Some v"
    by (auto simp: rbt_entries_lookup)
qed

lemma mem_redb_ok: "redb_ok mem_redb mem_view mem_view"
proof -
  have "ops_ok K64 mem_view (ops64 mem_redb)" "ops_ok KS mem_view (opsS mem_redb)"
    "ops_ok KB mem_view (opsB mem_redb)"
    unfolding ops_ok_def mem_redb_def mem_ops_def
    by (auto simp: mem_view_def put_def del_def fun_eq_iff rbt_entries_range(1) rbt_entries_lookup map_injective
        split: key.splits)
  then show ?thesis by (simp add: redb_ok_def) (simp add: mem_redb_def)
qed

lemma mem_redb_total: "redb_total mem_redb"
  by (auto simp: redb_total_def ops_total_def mem_redb_def mem_ops_def)

lemma mem_redb_reliable: "redb_reliable mem_redb mem_view mem_view"
  by (simp add: redb_reliable_def mem_redb_ok mem_redb_total)

text \<open>On a reliable database every call returns what the tables hold.\<close>

lemma reliable_reads:
  assumes "redb_reliable R dbv view"
  shows "\<exists>tx. begin_read R db = Inr tx \<and> view tx = dbv db"
    and "\<exists>tx'. open_table R tx t = Inr tx' \<and> view tx' = view tx"
    and "t_get (ops64 R) tx t i = Inr (view tx t (K64 i))"
    and "t_get (opsS R) tx t k = Inr (view tx t (KS k))"
proof -
  have ok: "redb_ok R dbv view" and tot: "redb_total R"
    using assms by (simp_all add: redb_reliable_def)
  show "\<exists>tx. begin_read R db = Inr tx \<and> view tx = dbv db"
    using redb_okD(1)[OF ok] redb_totalD(1)[OF tot] by blast
  show "\<exists>tx'. open_table R tx t = Inr tx' \<and> view tx' = view tx"
    using redb_okD(3)[OF ok] redb_totalD(3)[OF tot] by blast
  show "t_get (ops64 R) tx t i = Inr (view tx t (K64 i))"
    using ops_okD(1)[OF redb_okD(5)[OF ok]] ops_totalD(1)[OF redb_totalD(5)[OF tot]] by metis
  show "t_get (opsS R) tx t k = Inr (view tx t (KS k))"
    using ops_okD(1)[OF redb_okD(6)[OF ok]] ops_totalD(1)[OF redb_totalD(6)[OF tot]] by metis
qed

lemma reliable_range:
  assumes "redb_reliable R dbv view"
  obtains items where "t_range (ops64 R) tx t P = Inr (map Inr items)"
    and "sorted_wrt (<) (map fst items)"
    and "set (map fst items) = {k. P k \<and> view tx t (K64 k) \<noteq> None}"
proof -
  have ok: "redb_ok R dbv view" and tot: "redb_total R"
    using assms by (simp_all add: redb_reliable_def)
  obtain items where items: "t_range (ops64 R) tx t P = Inr (map Inr items)"
    using ops_totalD(4)[OF redb_totalD(5)[OF tot]] by blast
  have iff: "(k, v) \<in> set items \<longleftrightarrow> P k \<and> view tx t (K64 k) = Some v" for k v
    by (rule ops_okD(5)[OF redb_okD(5)[OF ok] items])
  have "set (map fst items) = {k. \<exists>v. (k, v) \<in> set items}" by force
  then have "set (map fst items) = {k. P k \<and> view tx t (K64 k) \<noteq> None}"
    by (simp only: iff) auto
  with that items ops_okD(4)[OF redb_okD(5)[OF ok] items] show thesis by blast
qed

lemma reliable_opsD:
  assumes "redb_reliable R dbv view"
  shows "ops_ok K64 view (ops64 R)" and "ops_ok KS view (opsS R)" and "ops_ok KB view (opsB R)"
    and "ops_total (ops64 R)" and "ops_total (opsS R)" and "ops_total (opsB R)"
  using assms redb_okD(5-7) redb_totalD(5-7) by (auto simp: redb_reliable_def)

section \<open>Whole tables\<close>

text \<open>The rows of a table under one type of key, in key order.\<close>

definition rows_of :: "('k::linorder \<Rightarrow> key) \<Rightarrow> tables \<Rightarrow> string \<Rightarrow> ('k \<times> bytes) list \<Rightarrow> bool" where
  "rows_of mk m t items \<longleftrightarrow> sorted_wrt (<) (map fst items) \<and> (\<forall>k v. (k, v) \<in> set items \<longleftrightarrow> m t (mk k) = Some v)"

lemma rows_of_map_of: "rows_of mk m t items \<Longrightarrow> map_of items k = m t (mk k)"
proof -
  assume rows: "rows_of mk m t items"
  then have "distinct (map fst items)" by (simp add: rows_of_def strict_sorted_iff)
  with rows show ?thesis
    by (cases "m t (mk k)") (auto simp: rows_of_def map_of_eq_None_iff)
qed

text \<open>Writing rows one after another, from an emptied table or on top of one.\<close>

definition wipe :: "('k \<Rightarrow> key) \<Rightarrow> string \<Rightarrow> tables \<Rightarrow> tables" where
  "wipe mk t m = m(t := (\<lambda>k. if k \<in> range mk then None else m t k))"

definition load_table :: "('k \<Rightarrow> key) \<Rightarrow> string \<Rightarrow> ('k \<times> bytes) list \<Rightarrow> tables \<Rightarrow> tables" where
  "load_table mk t data m = foldl (\<lambda>m (k, v). put t (mk k) v m) (wipe mk t m) data"

lemma foldl_put_rows:
  "u \<noteq> t \<Longrightarrow> foldl (\<lambda>m (k, v). put t (mk k) v m) m data u = m u"
  "x \<notin> range mk \<Longrightarrow> foldl (\<lambda>m (k, v). put t (mk k) v m) m data t x = m t x"
  by (induction data arbitrary: m) (auto simp: image_iff)

lemma foldl_put_rows_mk:
  "inj_on mk UNIV \<Longrightarrow> distinct (map fst data) \<Longrightarrow>
   foldl (\<lambda>m (k, v). put t (mk k) v m) m data t (mk a) = (case map_of data a of None \<Rightarrow> m t (mk a) | Some v \<Rightarrow> Some v)"
proof (induction data arbitrary: m)
  case Nil
  then show ?case by simp
next
  case (Cons r data)
  obtain k v where r: "r = (k, v)" by (cases r)
  show ?case
  proof (cases "k = a")
    case True
    with Cons r have "map_of data a = None" by (auto simp: map_of_eq_None_iff)
    with Cons r True show ?thesis by simp
  next
    case False
    with Cons.prems(1) have "mk k \<noteq> mk a" by (auto dest: injD)
    with Cons r False show ?thesis by (auto split: option.split)
  qed
qed

lemma load_table_simps:
  "u \<noteq> t \<Longrightarrow> load_table mk t data m u = m u"
  "x \<notin> range mk \<Longrightarrow> load_table mk t data m t x = m t x"
  "inj_on mk UNIV \<Longrightarrow> distinct (map fst data) \<Longrightarrow> load_table mk t data m t (mk a) = map_of data a"
  by (simp_all add: load_table_def foldl_put_rows foldl_put_rows_mk wipe_def split: option.split)

lemma inj_keys: "inj_on K64 UNIV" "inj_on KS UNIV" "inj_on KB UNIV"
  by (simp_all add: inj_on_def)

lemma foldl_del_rows:
  "foldl (\<lambda>m k. del t (mk k) m) m ks = m(t := (\<lambda>x. if x \<in> mk ` set ks then None else m t x))"
  by (induction ks arbitrary: m) (auto simp: del_def fun_eq_iff)

end
