(* ===== verification/Codec.thy ===== *)
theory Codec
  imports Errors
begin

text \<open>
  \<open>src/src/storage/codec.rs\<close>: the byte formats in which log entries, the hard state and
  the configuration state are stored. The Raft types are the records the code builds field
  by field; \<open>entry_type\<close> is the \<open>i32\<close> of the protobuf enum and is narrowed to one byte.
  A read at a cursor whose bounds the code checked is a slice; the conversions of a slice
  of fixed length to an array cannot fail and have no branch here. Cursors are \<open>usize\<close>
  values bounded by the length of a buffer plus \<open>2\<^sup>3\<^sup>2\<close>, far from wrapping.
\<close>

section \<open>The Raft data types\<close>

record Entry =
  entry_type :: "32 word"
  entry_term :: u64
  entry_index :: u64
  entry_data :: bytes
  entry_context :: bytes
  sync_log :: bool

record HardState =
  hs_term :: u64
  hs_vote :: u64
  hs_commit :: u64

record ConfState =
  voters :: "u64 list"
  learners :: "u64 list"
  voters_outgoing :: "u64 list"
  learners_next :: "u64 list"
  auto_leave :: bool

record SnapshotMetadata =
  sm_conf_state :: "ConfState option"
  sm_index :: u64
  sm_term :: u64

record RaftSnapshot =
  snap_data :: bytes
  snap_metadata :: "SnapshotMetadata option"

definition default_hard_state :: HardState where
  "default_hard_state = \<lparr>hs_term = 0, hs_vote = 0, hs_commit = 0\<rparr>"

definition default_conf_state :: ConfState where
  "default_conf_state = \<lparr>voters = [], learners = [], voters_outgoing = [],
     learners_next = [], auto_leave = False\<rparr>"

definition bool_byte :: "bool \<Rightarrow> u8" where
  "bool_byte b = (if b then 1 else 0)"

lemma bool_byte_nonzero [simp]: "bool_byte b \<noteq> 0 \<longleftrightarrow> b"
  by (simp add: bool_byte_def)

section \<open>Entries\<close>

definition serialize_entry :: "Entry \<Rightarrow> RaftError + bytes" where
  "serialize_entry entry = Inr (
     u64_le (entry_index entry)
     @ u64_le (entry_term entry)
     @ [ucast (entry_type entry)]
     @ u32_le (of_nat (length (entry_data entry)))
     @ entry_data entry
     @ u32_le (of_nat (length (entry_context entry)))
     @ entry_context entry
     @ [bool_byte (sync_log entry)])"

definition deserialize_entry :: "bytes \<Rightarrow> RaftError + Entry" where
  "deserialize_entry data =
    (if length data < 26 then Inl (Serialization ''Entry'' ''insufficient data'')
     else let cursor = 0;
              index = u64_from_le (sub_slice cursor 8 data); cursor = cursor + 8;
              trm = u64_from_le (sub_slice cursor 8 data); cursor = cursor + 8;
              ty = ucast (data ! cursor); cursor = cursor + 1
     in if cursor + 4 > length data
        then Inl (Serialization ''Entry'' ''insufficient data for data length'')
     else let data_len = unat (u32_from_le (sub_slice cursor 4 data)); cursor = cursor + 4
     in if cursor + data_len > length data
        then Inl (Serialization ''Entry'' (''insufficient data for entry data: need ''
               @ show_nat (cursor + data_len) @ '' bytes, have '' @ show_nat (length data)))
     else let entry_data = sub_slice cursor data_len data; cursor = cursor + data_len
     in if cursor + 4 > length data
        then Inl (Serialization ''Entry'' ''insufficient data for context length'')
     else let context_len = unat (u32_from_le (sub_slice cursor 4 data)); cursor = cursor + 4
     in if cursor + context_len > length data
        then Inl (Serialization ''Entry'' (''insufficient data for context: need ''
               @ show_nat (cursor + context_len) @ '' bytes, have '' @ show_nat (length data)))
     else let ctxt = sub_slice cursor context_len data; cursor = cursor + context_len
     in if cursor \<ge> length data
        then Inl (Serialization ''Entry'' ''insufficient data for sync_log'')
     else Inr \<lparr>entry_type = ty, entry_term = trm, entry_index = index,
               entry_data = entry_data, entry_context = ctxt, sync_log = (data ! cursor \<noteq> 0)\<rparr>)"

text \<open>
  The entries the format can carry: the type fits in a byte and both payloads have a
  length that fits in 32 bits.
\<close>

definition entry_fits :: "Entry \<Rightarrow> bool" where
  "entry_fits e \<longleftrightarrow> entry_type e < 256 \<and> length (entry_data e) < 2 ^ 32
     \<and> length (entry_context e) < 2 ^ 32"

section \<open>Hard state\<close>

definition serialize_hard_state :: "HardState \<Rightarrow> RaftError + bytes" where
  "serialize_hard_state hs =
     Inr (u64_le (hs_term hs) @ u64_le (hs_vote hs) @ u64_le (hs_commit hs))"

definition deserialize_hard_state :: "bytes \<Rightarrow> RaftError + HardState" where
  "deserialize_hard_state data =
    (if length data \<noteq> 24 then Inl (Serialization ''HardState'' ''invalid data length'')
     else Inr (default_hard_state
       \<lparr>hs_term := u64_from_le (sub_slice 0 8 data),
        hs_vote := u64_from_le (sub_slice 8 8 data),
        hs_commit := u64_from_le (sub_slice 16 8 data)\<rparr>))"

section \<open>Configuration state\<close>

definition write_ids :: "u64 list \<Rightarrow> bytes" where
  "write_ids ids = u32_le (of_nat (length ids)) @ concat (map u64_le ids)"

definition serialize_conf_state :: "ConfState \<Rightarrow> RaftError + bytes" where
  "serialize_conf_state cs = Inr (
     write_ids (voters cs) @ write_ids (learners cs) @ write_ids (voters_outgoing cs)
     @ write_ids (learners_next cs) @ [bool_byte (auto_leave cs)])"

text \<open>
  The loop \<open>for _ in 0..len\<close> that reads one id per turn, and the block of the function
  that reads a length and then runs the loop. The code has the block four times, with the
  name of the field in its messages.
\<close>

fun read_id_loop :: "string \<Rightarrow> nat \<Rightarrow> bytes \<Rightarrow> nat \<Rightarrow> RaftError + (u64 list \<times> nat)" where
  "read_id_loop item 0 data cursor = Inr ([], cursor)"
| "read_id_loop item (Suc n) data cursor =
    (if cursor + 8 > length data
     then Inl (Serialization ''ConfState'' (''insufficient data for '' @ item))
     else and_then (read_id_loop item n data (cursor + 8))
            (\<lambda>(ids, cursor'). Inr (u64_from_le (sub_slice cursor 8 data) # ids, cursor')))"

definition read_ids :: "string \<Rightarrow> string \<Rightarrow> bytes \<Rightarrow> nat \<Rightarrow> RaftError + (u64 list \<times> nat)" where
  "read_ids field item data cursor =
    (if cursor + 4 > length data
     then Inl (Serialization ''ConfState'' (''insufficient data for '' @ field @ '' length''))
     else read_id_loop item (unat (u32_from_le (sub_slice cursor 4 data))) data (cursor + 4))"

definition deserialize_conf_state :: "bytes \<Rightarrow> RaftError + ConfState" where
  "deserialize_conf_state data =
    (if length data < 16 then Inl (Serialization ''ConfState'' ''insufficient data'')
     else and_then (read_ids ''voters'' ''voter'' data 0) (\<lambda>(vs, cursor).
       and_then (read_ids ''learners'' ''learner'' data cursor) (\<lambda>(ls, cursor).
       and_then (read_ids ''voters_outgoing'' ''voter_outgoing'' data cursor) (\<lambda>(vo, cursor).
       and_then (read_ids ''learners_next'' ''learner_next'' data cursor) (\<lambda>(ln, cursor).
         Inr (default_conf_state
           \<lparr>voters := vs, learners := ls, voters_outgoing := vo, learners_next := ln,
            auto_leave := (if cursor < length data then data ! cursor \<noteq> 0 else False)\<rparr>))))))"

definition conf_fits :: "ConfState \<Rightarrow> bool" where
  "conf_fits cs \<longleftrightarrow> length (voters cs) < 2 ^ 32 \<and> length (learners cs) < 2 ^ 32
     \<and> length (voters_outgoing cs) < 2 ^ 32 \<and> length (learners_next cs) < 2 ^ 32"

lemmas codec_defs = serialize_entry_def serialize_hard_state_def serialize_conf_state_def

section \<open>Snapshots\<close>

text \<open>
  Snapshots and messages go through prost, a third-party codec: \<open>encode_to_vec\<close> and
  \<open>decode\<close> are parameters. \<open>prost_ok\<close> is what the code relies on of them.
\<close>

record 'a prost =
  encode_to_vec :: "'a \<Rightarrow> bytes"
  decode :: "bytes \<Rightarrow> error_text + 'a"

definition prost_ok :: "'a prost \<Rightarrow> bool" where
  "prost_ok P \<longleftrightarrow> (\<forall>a. decode P (encode_to_vec P a) = Inr a)"

definition serialize_message :: "'msg prost \<Rightarrow> 'msg \<Rightarrow> RaftError + bytes" where
  "serialize_message P msg = Inr (encode_to_vec P msg)"

definition deserialize_message :: "'msg prost \<Rightarrow> bytes \<Rightarrow> RaftError + 'msg" where
  "deserialize_message P data = map_err (Serialization ''Message'') (decode P data)"

definition serialize_snapshot :: "RaftSnapshot prost \<Rightarrow> RaftSnapshot \<Rightarrow> RaftError + bytes" where
  "serialize_snapshot P snapshot = Inr (encode_to_vec P snapshot)"

definition deserialize_snapshot :: "RaftSnapshot prost \<Rightarrow> bytes \<Rightarrow> RaftError + RaftSnapshot" where
  "deserialize_snapshot P data = map_err (Serialization ''Snapshot'') (decode P data)"

section \<open>The contract of a format\<close>

text \<open>
  What the storage layer needs of every format: serializing never fails, and what the format
  can carry is read back. A prefixed format is read back whatever follows it in the buffer; an
  exact one accepts nothing but its own output.
\<close>

locale codec =
  fixes enc :: "'a \<Rightarrow> 'e + bytes" and dec :: "bytes \<Rightarrow> 'e + 'a" and fits :: "'a \<Rightarrow> bool"
  assumes enc_total: "\<exists>bs. enc a = Inr bs"
    and dec_enc: "fits a \<Longrightarrow> enc a = Inr bs \<Longrightarrow> dec bs = Inr a"
begin

lemma stored_back: "fits a \<Longrightarrow> dec (projr (enc a)) = Inr a"
  using enc_total[of a] dec_enc by auto

lemma enc_injective: "fits a \<Longrightarrow> fits b \<Longrightarrow> enc a = enc b \<Longrightarrow> a = b"
  by (metis stored_back sum.inject(2))

lemma enc_collect: "collect_results (map enc as) = Inr (map (projr \<circ> enc) as)"
proof (induction "as")
  case (Cons a "as")
  then show ?case using enc_total[of a] by auto
qed simp

lemma stored_list_back:
  "(\<And>a. a \<in> set as \<Longrightarrow> fits a) \<Longrightarrow> and_then (collect_results (map enc as)) (\<lambda>bss. collect_results (map dec bss)) = Inr as"
  by (simp add: enc_collect collect_results_Inr_iff stored_back)

end

locale prefixed_codec =
  fixes enc :: "'a \<Rightarrow> 'e + bytes" and dec :: "bytes \<Rightarrow> 'e + 'a" and fits :: "'a \<Rightarrow> bool"
  assumes enc_returns: "\<exists>bs. enc a = Inr bs"
    and dec_prefix: "fits a \<Longrightarrow> enc a = Inr bs \<Longrightarrow> dec (bs @ rest) = Inr a"

sublocale prefixed_codec \<subseteq> codec enc dec fits
proof
  show "\<exists>bs. enc a = Inr bs" for a by (rule enc_returns)
  show "dec bs = Inr a" if "fits a" and "enc a = Inr bs" for a bs
    using dec_prefix[OF that, of "[]"] by simp
qed

context prefixed_codec
begin

lemma no_proper_extension:
  assumes "fits a" and "fits b" and "enc a = Inr as" and "enc b = Inr (as @ rest)"
  shows "rest = []"
proof -
  have "a = b" using dec_prefix[OF assms(1,3)] dec_prefix[OF assms(2,4), of "[]"] by simp
  with assms(3,4) show ?thesis by simp
qed

end

locale exact_codec = codec enc dec "\<lambda>_. True" for enc :: "'a \<Rightarrow> 'e + bytes" and dec :: "bytes \<Rightarrow> 'e + 'a" +
  assumes enc_dec: "dec bs = Inr a \<Longrightarrow> enc a = Inr bs"
begin

lemma dec_iff: "dec bs = Inr a \<longleftrightarrow> enc a = Inr bs"
  using dec_enc enc_dec by blast

lemma dec_injective: "dec bs = Inr a \<Longrightarrow> dec cs = Inr a \<Longrightarrow> bs = cs"
  by (simp add: dec_iff)

end

section \<open>Reading back what was written\<close>

lemmas slice_simps = sub_slice_skip sub_slice_Cons sub_slice_hit sub_slice_all nth_append nth_Cons'

text \<open>The bytes of an entry up to its last flag, with the type as the byte it is stored in.\<close>

definition entry_layout :: "u64 \<Rightarrow> u64 \<Rightarrow> u8 \<Rightarrow> bytes \<Rightarrow> bytes \<Rightarrow> bytes" where
  "entry_layout index trm ty d c = u64_le index @ u64_le trm @ [ty] @ u32_le (of_nat (length d)) @ d
     @ u32_le (of_nat (length c)) @ c"

lemma length_entry_layout [simp]: "length (entry_layout i t ty d c) = 25 + length d + length c"
  by (simp add: entry_layout_def)

lemma serialize_entry_layout:
  "serialize_entry e = Inr (entry_layout (entry_index e) (entry_term e) (ucast (entry_type e))
     (entry_data e) (entry_context e) @ [bool_byte (sync_log e)])"
  by (simp add: serialize_entry_def entry_layout_def)

lemma deserialize_entry_layout:
  assumes "length d < 2 ^ 32" and "length c < 2 ^ 32"
  shows "deserialize_entry (entry_layout i t ty d c @ s # rest) =
    Inr \<lparr>entry_type = ucast ty, entry_term = t, entry_index = i, entry_data = d,
         entry_context = c, sync_log = (s \<noteq> 0)\<rparr>"
  using assms
  by (simp add: deserialize_entry_def entry_layout_def Let_def slice_simps unat_of_nat_u32)

lemma deserialize_entry_InrD:
  assumes "deserialize_entry bs = Inr e"
  shows "\<exists>ty s rest. bs = entry_layout (entry_index e) (entry_term e) ty (entry_data e) (entry_context e) @ s # rest
    \<and> entry_type e = ucast ty \<and> sync_log e = (s \<noteq> 0)
    \<and> length (entry_data e) < 2 ^ 32 \<and> length (entry_context e) < 2 ^ 32"
proof -
  define dl where "dl = unat (u32_from_le (sub_slice 17 4 bs))"
  define cl where "cl = unat (u32_from_le (sub_slice (21 + dl) 4 bs))"
  have len: "25 + dl + cl < length bs"
    and e: "e = \<lparr>entry_type = ucast (bs ! 16), entry_term = u64_from_le (sub_slice 8 8 bs),
       entry_index = u64_from_le (sub_slice 0 8 bs), entry_data = sub_slice 21 dl bs,
       entry_context = sub_slice (25 + dl) cl bs, sync_log = (bs ! (25 + dl + cl) \<noteq> 0)\<rparr>"
    using assms
    by (auto simp: deserialize_entry_def Let_def dl_def cl_def add.commute add.left_commute
        split: if_splits)
  have dls: "u32_le (of_nat dl) = sub_slice 17 4 bs" "u32_le (of_nat cl) = sub_slice (21 + dl) 4 bs"
    using len by (simp_all add: dl_def cl_def u32_le_from_le length_sub_slice)
  have "bs = drop 0 bs" by simp
  also have "\<dots> = sub_slice 0 8 bs @ drop 8 bs" using len by (subst sub_slice_split[of 0 8]) simp_all
  also have "drop 8 bs = sub_slice 8 8 bs @ drop 16 bs" using len by (subst sub_slice_split[of 8 8]) simp_all
  also have "drop 16 bs = bs ! 16 # drop 17 bs" using len Cons_nth_drop_Suc[of 16 bs] by simp
  also have "drop 17 bs = sub_slice 17 4 bs @ drop 21 bs" using len by (subst sub_slice_split[of 17 4]) simp_all
  also have "drop 21 bs = sub_slice 21 dl bs @ drop (21 + dl) bs" using len by (intro sub_slice_split) simp
  also have "drop (21 + dl) bs = sub_slice (21 + dl) 4 bs @ drop (25 + dl) bs"
    using len sub_slice_split[of "21 + dl" 4 bs] by (simp add: algebra_simps)
  also have "drop (25 + dl) bs = sub_slice (25 + dl) cl bs @ drop (25 + dl + cl) bs"
    using len by (intro sub_slice_split) simp
  also have "drop (25 + dl + cl) bs = bs ! (25 + dl + cl) # drop (Suc (25 + dl + cl)) bs"
    using len by (rule Cons_nth_drop_Suc [symmetric])
  finally have "bs = entry_layout (entry_index e) (entry_term e) (bs ! 16) (entry_data e) (entry_context e)
      @ bs ! (25 + dl + cl) # drop (Suc (25 + dl + cl)) bs"
    using len by (simp add: e entry_layout_def u64_le_from_le length_sub_slice dls)
  moreover have "dl < 2 ^ 32" "cl < 2 ^ 32"
    using u32_less by (simp_all add: dl_def cl_def)
  ultimately show ?thesis
    using len by (auto simp: e length_sub_slice)
qed

lemma entry_read_back:
  assumes "entry_fits e"
  shows "\<exists>bs. serialize_entry e = Inr bs \<and> deserialize_entry (bs @ rest) = Inr e"
proof -
  have "ucast (ucast (entry_type e) :: u8) = entry_type e"
    using assms by (simp add: entry_fits_def word_less_nat_alt word_unat_eq_iff unsigned_ucast_eq take_bit_eq_mod unat_mod_distrib)
  with assms show ?thesis
    by (simp add: serialize_entry_layout deserialize_entry_layout entry_fits_def)
qed

interpretation entry_codec: prefixed_codec serialize_entry deserialize_entry entry_fits
proof
  show "\<exists>bs. serialize_entry e = Inr bs" for e by (simp add: serialize_entry_layout)
  show "deserialize_entry (bs @ rest) = Inr e" if "entry_fits e" and "serialize_entry e = Inr bs" for e bs rest
    using entry_read_back[OF that(1), of rest] that(2) by simp
qed

text \<open>
  C34: every entry the format can carry is read back unchanged, whatever follows it in the
  buffer.
\<close>

theorem entry_roundtrip:
  assumes "entry_fits e"
  shows "\<exists>bs. serialize_entry e = Inr bs \<and> deserialize_entry (bs @ rest) = Inr e"
  using entry_codec.enc_total[of e] entry_codec.dec_prefix[OF assms, of _ rest] by blast

theorem entry_roundtrip_witness:
  "\<exists>bs. serialize_entry \<lparr>entry_type = 1, entry_term = 3, entry_index = 7, entry_data = [1, 2],
       entry_context = [9], sync_log = True\<rparr> = Inr bs
     \<and> deserialize_entry (bs @ [0]) = Inr \<lparr>entry_type = 1, entry_term = 3, entry_index = 7,
       entry_data = [1, 2], entry_context = [9], sync_log = True\<rparr>"
  by (rule entry_roundtrip) (simp add: entry_fits_def)

text \<open>
  A stored entry that lost bytes at its end is always refused: no strict prefix of a
  serialized entry decodes.
\<close>

theorem entry_prefix_rejected:
  assumes "entry_fits e" and "serialize_entry e = Inr bs" and "n < length bs"
  shows "\<not> is_ok (deserialize_entry (take n bs))"
proof
  assume "is_ok (deserialize_entry (take n bs))"
  then obtain e' where ok: "deserialize_entry (take n bs) = Inr e'" by (auto simp: is_ok_iff)
  from deserialize_entry_InrD[OF this] obtain ty s rest where
    tk: "take n bs = entry_layout (entry_index e') (entry_term e') ty (entry_data e') (entry_context e') @ s # rest"
    and fits: "length (entry_data e') < 2 ^ 32" "length (entry_context e') < 2 ^ 32"
    and e': "entry_type e' = ucast ty" "sync_log e' = (s \<noteq> 0)"
    by blast
  have bs: "bs = entry_layout (entry_index e') (entry_term e') ty (entry_data e') (entry_context e')
      @ s # (rest @ drop n bs)"
    using append_take_drop_id[of n bs] unfolding tk by simp
  have "deserialize_entry bs = Inr e'"
    using e' by (subst bs, subst deserialize_entry_layout[OF fits]) simp
  moreover have "deserialize_entry bs = Inr e"
    using entry_read_back[OF assms(1), of "[]"] assms(2) by simp
  ultimately have "e' = e" by simp
  moreover have "length (take n bs) = n" using assms(3) by simp
  ultimately show False
    using tk assms(2,3) by (auto simp: serialize_entry_layout)
qed

theorem entry_prefix_rejected_witness:
  "\<not> is_ok (deserialize_entry (take 27 (u64_le 7 @ u64_le 3 @ [0] @ u32_le 2 @ [1, 2] @ u32_le 0 @ [] @ [1])))"
  by (rule entry_prefix_rejected [where e = "\<lparr>entry_type = 0, entry_term = 3, entry_index = 7,
        entry_data = [1, 2], entry_context = [], sync_log = True\<rparr>"])
    (simp_all add: entry_fits_def serialize_entry_def bool_byte_def)

section \<open>Hard state and configuration state\<close>

interpretation hard_state_codec: exact_codec serialize_hard_state deserialize_hard_state
proof
  show "\<exists>bs. serialize_hard_state hs = Inr bs" for hs by (simp add: serialize_hard_state_def)
  show "deserialize_hard_state bs = Inr hs" if "serialize_hard_state hs = Inr bs" for hs bs
    using that by (auto simp: serialize_hard_state_def deserialize_hard_state_def default_hard_state_def slice_simps)
next
  fix bs hs
  assume "deserialize_hard_state bs = Inr hs"
  then have len: "length bs = 24"
    and hs: "hs = \<lparr>hs_term = u64_from_le (sub_slice 0 8 bs), hs_vote = u64_from_le (sub_slice 8 8 bs),
       hs_commit = u64_from_le (sub_slice 16 8 bs)\<rparr>"
    by (auto simp: deserialize_hard_state_def default_hard_state_def split: if_splits)
  have "bs = sub_slice 0 8 bs @ sub_slice 8 8 bs @ sub_slice 16 8 bs"
    using len sub_slice_split[of 0 8 bs] sub_slice_split[of 8 8 bs] sub_slice_split[of 16 8 bs] by simp
  then show "serialize_hard_state hs = Inr bs"
    using len by (simp add: hs serialize_hard_state_def u64_le_from_le length_sub_slice)
qed

text \<open>
  The hard-state format is exact: a buffer decodes to \<open>hs\<close> if and only if it is the
  serialization of \<open>hs\<close>.
\<close>

theorem hard_state_exact:
  "deserialize_hard_state bs = Inr hs \<longleftrightarrow> serialize_hard_state hs = Inr bs"
  by (rule hard_state_codec.dec_iff)

lemma length_concat_u64_le [simp]: "length (concat (map u64_le ids)) = 8 * length ids"
  by (induction ids) simp_all

lemma length_write_ids [simp]: "length (write_ids ids) = 4 + 8 * length ids"
  by (simp add: write_ids_def)

lemma read_id_loop_written:
  "length pre = cursor \<Longrightarrow>
   read_id_loop item (length ids) (pre @ concat (map u64_le ids) @ rest) cursor
     = Inr (ids, cursor + 8 * length ids)"
proof (induction ids arbitrary: pre cursor)
  case Nil
  then show ?case by simp
next
  case (Cons i ids)
  then have "read_id_loop item (length ids) ((pre @ u64_le i) @ concat (map u64_le ids) @ rest) (cursor + 8)
     = Inr (ids, cursor + 8 + 8 * length ids)"
    by (intro Cons.IH) simp
  with Cons.prems show ?case by (simp add: slice_simps)
qed

lemma read_ids_written:
  assumes "length pre = cursor" and "length ids < 2 ^ 32"
  shows "read_ids field item (pre @ write_ids ids @ rest) cursor = Inr (ids, cursor + length (write_ids ids))"
  using assms read_id_loop_written[of "pre @ u32_le (of_nat (length ids))" "cursor + 4" item ids rest]
  by (simp add: read_ids_def write_ids_def slice_simps unat_of_nat_u32)

definition conf_layout :: "ConfState \<Rightarrow> bytes" where
  "conf_layout cs = write_ids (voters cs) @ write_ids (learners cs) @ write_ids (voters_outgoing cs)
     @ write_ids (learners_next cs)"

lemma serialize_conf_layout: "serialize_conf_state cs = Inr (conf_layout cs @ [bool_byte (auto_leave cs)])"
  by (simp add: serialize_conf_state_def conf_layout_def)

lemma deserialize_conf_layout:
  assumes "conf_fits cs"
  shows "deserialize_conf_state (conf_layout cs @ rest) =
    Inr (cs\<lparr>auto_leave := (case rest of [] \<Rightarrow> False | b # _ \<Rightarrow> b \<noteq> 0)\<rparr>)"
proof -
  let ?v = "write_ids (voters cs)" and ?l = "write_ids (learners cs)"
    and ?o = "write_ids (voters_outgoing cs)" and ?n = "write_ids (learners_next cs)"
  let ?d = "conf_layout cs @ rest"
  note fits = assms[unfolded conf_fits_def]
  have 1: "read_ids f i ?d 0 = Inr (voters cs, length ?v)" for f i
    using read_ids_written[of "[]" 0 "voters cs" f i "?l @ ?o @ ?n @ rest"] fits by (simp add: conf_layout_def)
  have 2: "read_ids f i ?d (length ?v) = Inr (learners cs, length ?v + length ?l)" for f i
    using read_ids_written[of ?v _ "learners cs" f i "?o @ ?n @ rest"] fits by (simp add: conf_layout_def)
  have 3: "read_ids f i ?d (length ?v + length ?l) = Inr (voters_outgoing cs, length ?v + length ?l + length ?o)" for f i
    using read_ids_written[of "?v @ ?l" _ "voters_outgoing cs" f i "?n @ rest"] fits by (simp add: conf_layout_def)
  have 4: "read_ids f i ?d (length ?v + length ?l + length ?o) = Inr (learners_next cs, length (conf_layout cs))" for f i
    using read_ids_written[of "?v @ ?l @ ?o" _ "learners_next cs" f i rest] fits by (simp add: conf_layout_def)
  show ?thesis
    by (simp only: deserialize_conf_state_def 1 2 3 4 and_then_simps prod.case)
      (simp add: conf_layout_def default_conf_state_def nth_append split: list.split)
qed

interpretation conf_state_codec: codec serialize_conf_state deserialize_conf_state conf_fits
proof
  show "\<exists>bs. serialize_conf_state cs = Inr bs" for cs by (simp add: serialize_conf_layout)
  show "deserialize_conf_state bs = Inr cs" if "conf_fits cs" and "serialize_conf_state cs = Inr bs" for cs bs
    using that deserialize_conf_layout[of cs "[bool_byte (auto_leave cs)]"] by (simp add: serialize_conf_layout)
qed

text \<open>The formats that go through prost keep the contract when prost does.\<close>

lemma snapshot_codec: "prost_ok P \<Longrightarrow> codec (serialize_snapshot P) (deserialize_snapshot P) (\<lambda>_. True)"
  by unfold_locales (auto simp: serialize_snapshot_def deserialize_snapshot_def prost_ok_def)

lemma message_codec: "prost_ok P \<Longrightarrow> codec (serialize_message P) (deserialize_message P) (\<lambda>_. True)"
  by unfold_locales (auto simp: serialize_message_def deserialize_message_def prost_ok_def)

text \<open>
  A configuration state with fewer than \<open>2\<^sup>3\<^sup>2\<close> ids in each set is read back unchanged.
\<close>

theorem conf_state_roundtrip:
  assumes "conf_fits cs"
  shows "\<exists>bs. serialize_conf_state cs = Inr bs \<and> deserialize_conf_state bs = Inr cs"
  using conf_state_codec.enc_total[of cs] conf_state_codec.dec_enc[OF assms] by blast

theorem conf_state_roundtrip_witness:
  "\<exists>bs. serialize_conf_state \<lparr>voters = [1, 2, 3], learners = [4], voters_outgoing = [],
       learners_next = [5], auto_leave = True\<rparr> = Inr bs
     \<and> deserialize_conf_state bs = Inr \<lparr>voters = [1, 2, 3], learners = [4], voters_outgoing = [],
       learners_next = [5], auto_leave = True\<rparr>"
  by (rule conf_state_roundtrip) (simp add: conf_fits_def)

text \<open>
  Unlike an entry, a configuration state that lost its last byte is accepted, and the
  decoder reads the missing \<open>auto_leave\<close> flag as false: a joint configuration meant to be
  left automatically comes back as one that is not.
\<close>

theorem conf_state_truncation_accepted:
  assumes "conf_fits cs" and "serialize_conf_state cs = Inr bs"
  shows "deserialize_conf_state (butlast bs) = Inr (cs\<lparr>auto_leave := False\<rparr>)"
  using deserialize_conf_layout[OF assms(1), of "[]"] assms(2)
  by (auto simp: serialize_conf_layout)

theorem conf_state_truncation_witness:
  "deserialize_conf_state (butlast (write_ids [1] @ write_ids [] @ write_ids [2] @ write_ids [] @ [1]))
     = Inr \<lparr>voters = [1], learners = [], voters_outgoing = [2], learners_next = [], auto_leave = False\<rparr>"
  using conf_state_truncation_accepted [of "\<lparr>voters = [1], learners = [], voters_outgoing = [2],
      learners_next = [], auto_leave = True\<rparr>"]
  by (simp add: conf_fits_def serialize_conf_state_def bool_byte_def)

section \<open>bincode\<close>

text \<open>
  The serde format bincode is a parameter for each type it is used at. \<open>bincode_ok\<close>: a value
  of the type is written without error and read back.
\<close>

record 'a bincode =
  bin_serialize :: "'a \<Rightarrow> error_text + bytes"
  bin_deserialize :: "bytes \<Rightarrow> error_text + 'a"

definition bincode_ok :: "'a bincode \<Rightarrow> bool" where
  "bincode_ok B \<longleftrightarrow> codec (bin_serialize B) (bin_deserialize B) (\<lambda>_. True)"

end
