(* ===== verification/Wire.thy ===== *)
theory Wire
  imports Codec
begin

text \<open>
  An instance of the prost parameter for snapshots: a small self-delimiting format that keeps
  the law \<open>prost_ok\<close>. It models no file; it shows that the law can be met and lets the
  statements about snapshots be applied to concrete ones.
\<close>

fun put_list :: "u64 list \<Rightarrow> bytes" where
  "put_list [] = [0]"
| "put_list (i # is) = 1 # u64_le i @ put_list is"

fun get_list :: "bytes \<Rightarrow> u64 list \<times> bytes" where
  "get_list [] = ([], [])"
| "get_list (b # bs) = (if b = 0 then ([], bs)
     else case get_list (drop 8 bs) of (is, r) \<Rightarrow> (u64_from_le (take 8 bs) # is, r))"

definition put_conf :: "ConfState \<Rightarrow> bytes" where
  "put_conf cs = put_list (voters cs) @ put_list (learners cs) @ put_list (voters_outgoing cs)
     @ put_list (learners_next cs) @ [bool_byte (auto_leave cs)]"

definition get_conf :: "bytes \<Rightarrow> ConfState \<times> bytes" where
  "get_conf bs = (case get_list bs of (v, r) \<Rightarrow> case get_list r of (l, r) \<Rightarrow>
     case get_list r of (vo, r) \<Rightarrow> case get_list r of (ln, r) \<Rightarrow>
       (\<lparr>voters = v, learners = l, voters_outgoing = vo, learners_next = ln,
          auto_leave = (hd r \<noteq> 0)\<rparr>, tl r))"

definition put_snapshot :: "RaftSnapshot \<Rightarrow> bytes" where
  "put_snapshot s = (case snap_metadata s of
     None \<Rightarrow> 0 # snap_data s
   | Some m \<Rightarrow> 1 # u64_le (sm_index m) @ u64_le (sm_term m) @ (case sm_conf_state m of
         None \<Rightarrow> 0 # snap_data s
       | Some cs \<Rightarrow> 1 # put_conf cs @ snap_data s))"

definition get_snapshot :: "bytes \<Rightarrow> error_text + RaftSnapshot" where
  "get_snapshot bs = (case bs of [] \<Rightarrow> Inl ''empty'' | b # bs \<Rightarrow>
     if b = 0 then Inr \<lparr>snap_data = bs, snap_metadata = None\<rparr>
     else let i = u64_from_le (take 8 bs); t = u64_from_le (take 8 (drop 8 bs)); r = drop 16 bs
       in if hd r = 0
          then Inr \<lparr>snap_data = tl r, snap_metadata = Some \<lparr>sm_conf_state = None, sm_index = i, sm_term = t\<rparr>\<rparr>
          else case get_conf (tl r) of (cs, d) \<Rightarrow>
            Inr \<lparr>snap_data = d, snap_metadata = Some \<lparr>sm_conf_state = Some cs, sm_index = i, sm_term = t\<rparr>\<rparr>)"

definition wire :: "RaftSnapshot prost" where
  "wire = \<lparr>encode_to_vec = put_snapshot, decode = get_snapshot\<rparr>"

lemma get_list_put: "get_list (put_list is @ rest) = (is, rest)"
  by (induction "is") simp_all

lemma get_conf_put: "get_conf (put_conf cs @ rest) = (cs, rest)"
  by (simp add: get_conf_def put_conf_def get_list_put)

lemma wire_ok: "prost_ok wire"
proof -
  have "get_snapshot (put_snapshot s) = Inr s" for s
    by (auto simp: get_snapshot_def put_snapshot_def get_conf_put Let_def split: option.split)
  then show ?thesis by (simp add: prost_ok_def wire_def)
qed

section \<open>Rows of tables\<close>

fun put_bytes :: "bytes \<Rightarrow> bytes" where
  "put_bytes [] = [0]"
| "put_bytes (b # bs) = 1 # b # put_bytes bs"

fun get_bytes :: "bytes \<Rightarrow> bytes \<times> bytes" where
  "get_bytes (x # b # bs) = (if x = 0 then ([], b # bs) else case get_bytes bs of (v, r) \<Rightarrow> (b # v, r))"
| "get_bytes bs = ([], [])"

lemma get_bytes_put: "get_bytes (put_bytes bs @ r # rest) = (bs, r # rest)"
  by (induction bs) simp_all

lemma length_get_bytes: "length (snd (get_bytes bs)) \<le> length bs"
  by (induction bs rule: get_bytes.induct) (auto split: prod.splits)

fun put_rows :: "('k \<Rightarrow> bytes) \<Rightarrow> ('k \<times> bytes) list \<Rightarrow> bytes" where
  "put_rows f [] = [0]"
| "put_rows f ((k, v) # rows) = 1 # put_bytes (f k) @ put_bytes v @ put_rows f rows"

function get_rows :: "(bytes \<Rightarrow> 'k) \<Rightarrow> bytes \<Rightarrow> ('k \<times> bytes) list \<times> bytes" where
  "get_rows g [] = ([], [])"
| "get_rows g (x # bs) = (if x = 0 then ([], bs)
     else case get_bytes bs of (k, r) \<Rightarrow> case get_bytes r of (v, r') \<Rightarrow>
       case get_rows g r' of (rows, rest) \<Rightarrow> ((g k, v) # rows, rest))"
  by pat_completeness auto
termination
  by (relation "measure (length \<circ> snd)") (auto dest!: arg_cong[of _ _ snd] simp: less_Suc_eq_le
      intro: order_trans[OF length_get_bytes length_get_bytes])

lemma put_rows_nonempty: "\<exists>r rest. put_rows f rows @ bs = r # rest"
  by (cases rows) auto

lemma put_bytes_nonempty: "\<exists>r rest. put_bytes v @ bs = r # rest"
  by (cases v) auto

lemma get_rows_put:
  assumes "\<And>k. g (f k) = k"
  shows "get_rows g (put_rows f rows @ rest) = (rows, rest)"
proof (induction rows)
  case Nil
  then show ?case by simp
next
  case (Cons row rows)
  obtain k v where row: "row = (k, v)" by (cases row)
  obtain a "as" where tail: "put_rows f rows @ rest = a # as" using put_rows_nonempty by blast
  obtain b bs where bs: "put_bytes v @ a # as = b # bs" using put_bytes_nonempty by blast
  have 1: "get_bytes (put_bytes (f k) @ b # bs) = (f k, b # bs)" and 2: "get_bytes (b # bs) = (v, a # as)"
    using get_bytes_put[of "f k" b bs] get_bytes_put[of v a "as"] by (auto simp: bs)
  show ?case
    using Cons.IH assms by (simp add: row tail bs 1 2)
qed

definition string_bytes :: "string \<Rightarrow> bytes" where
  "string_bytes s = map of_char s"

definition bytes_string :: "bytes \<Rightarrow> string" where
  "bytes_string bs = map (char_of \<circ> unat) bs"

lemma bytes_string_bytes: "bytes_string (string_bytes s) = s"
proof -
  have "char_of (unat (of_char c :: u8)) = c" for c
  proof -
    have "unat (of_char c :: u8) = (of_char c :: nat)"
      by (simp add: of_char_def)
    then show ?thesis by simp
  qed
  then show ?thesis by (simp add: bytes_string_def string_bytes_def comp_def)
qed

end
