(* ===== verification/SimpleStorage.thy ===== *)
theory SimpleStorage
  imports Redb Wire
begin

text \<open>
  \<open>src/src/storage/simple.rs\<close>: the storage backend of the library, over the redb
  parameter \<open>R\<close> and the prost parameter \<open>P\<close>. A method that writes takes the database and
  returns its result with the database afterwards: when the body of the transaction fails
  the transaction is dropped and the database is the one given. Methods of the
  \<open>raft::Storage\<close> trait return the trait's error type.
\<close>

section \<open>Tables and errors\<close>

definition RAFT_LOG_TABLE :: string where "RAFT_LOG_TABLE = ''raft_log''"
definition HARD_STATE_TABLE :: string where "HARD_STATE_TABLE = ''hard_state''"
definition CONF_STATE_TABLE :: string where "CONF_STATE_TABLE = ''conf_state''"
definition SNAPSHOT_TABLE :: string where "SNAPSHOT_TABLE = ''snapshot''"

definition HARD_STATE_KEY :: string where "HARD_STATE_KEY = ''hard_state''"
definition CONF_STATE_KEY :: string where "CONF_STATE_KEY = ''conf_state''"
definition SNAPSHOT_KEY :: string where "SNAPSHOT_KEY = ''snapshot''"

lemmas table_names = RAFT_LOG_TABLE_def HARD_STATE_TABLE_def CONF_STATE_TABLE_def SNAPSHOT_TABLE_def
  HARD_STATE_KEY_def CONF_STATE_KEY_def SNAPSHOT_KEY_def

text \<open>The \<open>raft::StorageError\<close> values the code builds; \<open>Other\<close> boxes a redb or a library error.\<close>

datatype StoreError = OtherDb error_text | OtherRaft RaftError | Unavailable | SnapshotTemporarilyUnavailable

section \<open>Writing\<close>

text \<open>
  The frame that every writing method repeats: begin, run the body, commit.
\<close>

definition with_write :: "('db, 'tx) redb \<Rightarrow> string \<Rightarrow> ('tx \<Rightarrow> RaftError + 'tx) \<Rightarrow> 'db
    \<Rightarrow> (RaftError + unit) \<times> 'db" where
  "with_write R commit_msg body db =
    (case begin_write R db of
       Inl e \<Rightarrow> (Inl (storage_error ''begin write transaction'' e), db)
     | Inr tx \<Rightarrow> (case body tx of
         Inl e \<Rightarrow> (Inl e, db)
       | Inr tx' \<Rightarrow> (case commit R tx' db of (r, db') \<Rightarrow> (map_err (storage_error commit_msg) r, db'))))"

text \<open>\<open>RaftStorage::new\<close>: the directory and the database file are created by the runtime and by redb.\<close>

definition init_tables :: "('db, 'tx) redb \<Rightarrow> 'tx \<Rightarrow> RaftError + 'tx" where
  "init_tables R tx =
     and_then (map_err (storage_error ''open raft_log table'') (open_table R tx RAFT_LOG_TABLE)) (\<lambda>tx.
     and_then (map_err (storage_error ''open hard_state table'') (open_table R tx HARD_STATE_TABLE)) (\<lambda>tx.
     and_then (map_err (storage_error ''open conf_state table'') (open_table R tx CONF_STATE_TABLE)) (\<lambda>tx.
       map_err (storage_error ''open snapshot table'') (open_table R tx SNAPSHOT_TABLE))))"

definition storage_new :: "('db, 'tx) redb \<Rightarrow> error_text + unit \<Rightarrow> error_text + 'db \<Rightarrow> RaftError + 'db" where
  "storage_new R created_dir created_db =
     and_then (map_err (Io ''create data directory'') created_dir) (\<lambda>_.
     and_then (map_err (storage_error ''create database'') created_db) (\<lambda>db.
       case with_write R ''commit table initialization'' (init_tables R) db of
         (r, db') \<Rightarrow> and_then r (\<lambda>_. Inr db')))"

definition save_hard_state :: "('db, 'tx) redb \<Rightarrow> HardState \<Rightarrow> 'db \<Rightarrow> (RaftError + unit) \<times> 'db" where
  "save_hard_state R hard_state = with_write R ''commit hard state'' (\<lambda>tx.
     and_then (map_err (storage_error ''open hard_state table'') (open_table R tx HARD_STATE_TABLE)) (\<lambda>tx.
     and_then (serialize_hard_state hard_state) (\<lambda>data.
       map_err (storage_error ''insert hard state'') (t_insert (opsS R) tx HARD_STATE_TABLE HARD_STATE_KEY data))))"

definition insert_entry :: "('db, 'tx) redb \<Rightarrow> 'tx \<Rightarrow> Entry \<Rightarrow> RaftError + 'tx" where
  "insert_entry R tx entry = and_then (serialize_entry entry) (\<lambda>data.
     map_err (storage_error ''insert log entry'')
       (t_insert (ops64 R) tx RAFT_LOG_TABLE (entry_index entry) data))"

definition append_entries :: "('db, 'tx) redb \<Rightarrow> Entry list \<Rightarrow> 'db \<Rightarrow> (RaftError + unit) \<times> 'db" where
  "append_entries R entries db =
    (if entries = [] then (Inr (), db)
     else with_write R ''commit entries'' (\<lambda>tx.
       and_then (map_err (storage_error ''open raft_log table'') (open_table R tx RAFT_LOG_TABLE)) (\<lambda>tx.
         for_each (insert_entry R) tx entries)) db)"

text \<open>
  Removing a range of the log, as \<open>apply_snapshot\<close> and \<open>compact\<close> both do: collect the keys of
  the range, then remove them one by one.
\<close>

definition remove_log_range :: "('db, 'tx) redb \<Rightarrow> (u64 \<Rightarrow> bool) \<Rightarrow> 'tx \<Rightarrow> RaftError + 'tx" where
  "remove_log_range R in_range tx =
     and_then (map_err (storage_error ''range log entries'') (t_range (ops64 R) tx RAFT_LOG_TABLE in_range)) (\<lambda>items.
     and_then (collect_results (map (\<lambda>r. and_then (map_err (storage_error ''read log key'') r) (\<lambda>(k, _). Inr k)) items)) (\<lambda>keys.
       for_each (\<lambda>tx index. map_err (storage_error ''remove log entry'')
         (t_remove (ops64 R) tx RAFT_LOG_TABLE index)) tx keys))"

definition apply_snapshot_txn :: "('db, 'tx) redb \<Rightarrow> RaftSnapshot prost \<Rightarrow> RaftSnapshot \<Rightarrow> 'tx \<Rightarrow> RaftError + 'tx" where
  "apply_snapshot_txn R P snapshot tx = (case snap_metadata snapshot of
     None \<Rightarrow> Inr tx
   | Some metadata \<Rightarrow>
     and_then (map_err (storage_error ''open raft_log table'') (open_table R tx RAFT_LOG_TABLE)) (\<lambda>tx.
     and_then (remove_log_range R (\<lambda>k. k \<le> sm_index metadata) tx) (\<lambda>tx.
     and_then (map_err (storage_error ''open snapshot table'') (open_table R tx SNAPSHOT_TABLE)) (\<lambda>tx.
     and_then (serialize_snapshot P snapshot) (\<lambda>data.
     and_then (map_err (storage_error ''insert snapshot'') (t_insert (opsS R) tx SNAPSHOT_TABLE SNAPSHOT_KEY data)) (\<lambda>tx.
       case sm_conf_state metadata of
         None \<Rightarrow> Inr tx
       | Some conf_state \<Rightarrow>
         and_then (map_err (storage_error ''open conf_state table'') (open_table R tx CONF_STATE_TABLE)) (\<lambda>tx.
         and_then (serialize_conf_state conf_state) (\<lambda>conf_data.
           map_err (storage_error ''insert conf state'')
             (t_insert (opsS R) tx CONF_STATE_TABLE CONF_STATE_KEY conf_data)))))))))"

definition apply_snapshot :: "('db, 'tx) redb \<Rightarrow> RaftSnapshot prost \<Rightarrow> RaftSnapshot \<Rightarrow> 'db \<Rightarrow> (RaftError + unit) \<times> 'db" where
  "apply_snapshot R P snapshot = with_write R ''commit snapshot'' (apply_snapshot_txn R P snapshot)"

definition compact :: "('db, 'tx) redb \<Rightarrow> u64 \<Rightarrow> 'db \<Rightarrow> (RaftError + unit) \<times> 'db" where
  "compact R compact_index = with_write R ''commit compaction'' (\<lambda>tx.
     and_then (map_err (storage_error ''open raft_log table'') (open_table R tx RAFT_LOG_TABLE))
       (remove_log_range R (\<lambda>k. k < compact_index)))"

section \<open>Reading\<close>

definition applied_index :: "('db, 'tx) redb \<Rightarrow> 'db \<Rightarrow> RaftError + u64" where
  "applied_index R db =
     and_then (map_err (storage_error ''begin read transaction'') (begin_read R db)) (\<lambda>tx.
     and_then (map_err (storage_error ''open hard_state table'') (open_table R tx HARD_STATE_TABLE)) (\<lambda>tx.
     and_then (map_err (storage_error ''get hard state'') (t_get (opsS R) tx HARD_STATE_TABLE HARD_STATE_KEY)) (\<lambda>r.
       case r of
         Some data \<Rightarrow> and_then (deserialize_hard_state data) (\<lambda>hs. Inr (hs_commit hs))
       | None \<Rightarrow> Inr 0)))"

text \<open>
  The steps the trait's methods share: a read transaction, an opened table, and an optional
  value under a key, each error boxed into \<open>StorageError::Other\<close>.
\<close>

definition open_read :: "('db, 'tx) redb \<Rightarrow> 'db \<Rightarrow> string \<Rightarrow> StoreError + 'tx" where
  "open_read R db t = and_then (map_err OtherDb (begin_read R db)) (\<lambda>tx. map_err OtherDb (open_table R tx t))"

definition read_value :: "('db, 'tx) redb \<Rightarrow> 'tx \<Rightarrow> string \<Rightarrow> string \<Rightarrow> (bytes \<Rightarrow> RaftError + 'a) \<Rightarrow> StoreError + 'a option" where
  "read_value R tx t k dec = and_then (map_err OtherDb (open_table R tx t)) (\<lambda>tx.
     and_then (map_err OtherDb (t_get (opsS R) tx t k)) (\<lambda>r. case r of
       None \<Rightarrow> Inr None
     | Some data \<Rightarrow> and_then (map_err OtherRaft (dec data)) (\<lambda>a. Inr (Some a))))"

definition initial_state :: "('db, 'tx) redb \<Rightarrow> 'db \<Rightarrow> StoreError + (HardState \<times> ConfState)" where
  "initial_state R db =
     and_then (map_err OtherDb (begin_read R db)) (\<lambda>tx.
     and_then (read_value R tx HARD_STATE_TABLE HARD_STATE_KEY deserialize_hard_state) (\<lambda>hs.
     and_then (read_value R tx CONF_STATE_TABLE CONF_STATE_KEY deserialize_conf_state) (\<lambda>cs.
       Inr (case hs of None \<Rightarrow> default_hard_state | Some hs \<Rightarrow> hs,
            case cs of None \<Rightarrow> default_conf_state | Some cs \<Rightarrow> cs))))"

fun entries_loop :: "('db, 'tx) redb \<Rightarrow> 'tx \<Rightarrow> u64 \<Rightarrow> u64 list \<Rightarrow> u64 \<Rightarrow> StoreError + Entry list" where
  "entries_loop R tx max_size [] total_size = Inr []"
| "entries_loop R tx max_size (index # indices) total_size =
     and_then (map_err OtherDb (t_get (ops64 R) tx RAFT_LOG_TABLE index)) (\<lambda>r. case r of
       None \<Rightarrow> Inl Unavailable
     | Some data \<Rightarrow>
         let entry_size = of_nat (length data)
         in if total_size + entry_size > max_size then Inr []
            else and_then (map_err OtherRaft (deserialize_entry data)) (\<lambda>entry.
                 and_then (entries_loop R tx max_size indices (total_size + entry_size)) (\<lambda>entries.
                   Inr (entry # entries))))"

definition storage_entries :: "('db, 'tx) redb \<Rightarrow> u64 \<Rightarrow> u64 \<Rightarrow> u64 option \<Rightarrow> 'db \<Rightarrow> StoreError + Entry list" where
  "storage_entries R low high max_size db =
     and_then (open_read R db RAFT_LOG_TABLE) (\<lambda>tx.
       entries_loop R tx (case max_size of None \<Rightarrow> - 1 | Some m \<Rightarrow> m) (u64_range low high) 0)"

definition log_term :: "('db, 'tx) redb \<Rightarrow> 'tx \<Rightarrow> u64 \<Rightarrow> StoreError + u64" where
  "log_term R tx index =
     and_then (map_err OtherDb (open_table R tx RAFT_LOG_TABLE)) (\<lambda>tx.
     and_then (map_err OtherDb (t_get (ops64 R) tx RAFT_LOG_TABLE index)) (\<lambda>r. case r of
       Some data \<Rightarrow> and_then (map_err OtherRaft (deserialize_entry data)) (\<lambda>entry. Inr (entry_term entry))
     | None \<Rightarrow> Inl Unavailable))"

text \<open>The metadata of the stored snapshot, if there is one.\<close>

definition stored_metadata :: "('db, 'tx) redb \<Rightarrow> RaftSnapshot prost \<Rightarrow> 'tx \<Rightarrow> StoreError + SnapshotMetadata option" where
  "stored_metadata R P tx =
     and_then (read_value R tx SNAPSHOT_TABLE SNAPSHOT_KEY (deserialize_snapshot P)) (\<lambda>snap.
       Inr (Option.bind snap snap_metadata))"

definition storage_term :: "('db, 'tx) redb \<Rightarrow> RaftSnapshot prost \<Rightarrow> u64 \<Rightarrow> 'db \<Rightarrow> StoreError + u64" where
  "storage_term R P index db =
    (if index = 0 then Inr 0
     else and_then (map_err OtherDb (begin_read R db)) (\<lambda>tx.
       and_then (stored_metadata R P tx) (\<lambda>meta. case meta of
         Some metadata \<Rightarrow> if index = sm_index metadata then Inr (sm_term metadata) else log_term R tx index
       | None \<Rightarrow> log_term R tx index)))"

definition first_index :: "('db, 'tx) redb \<Rightarrow> RaftSnapshot prost \<Rightarrow> 'db \<Rightarrow> StoreError + u64" where
  "first_index R P db =
     and_then (map_err OtherDb (begin_read R db)) (\<lambda>tx.
     and_then (stored_metadata R P tx) (\<lambda>meta. case meta of
       Some metadata \<Rightarrow> Inr (sm_index metadata + 1)
     | None \<Rightarrow>
         and_then (map_err OtherDb (open_table R tx RAFT_LOG_TABLE)) (\<lambda>tx.
         and_then (map_err OtherDb (t_range (ops64 R) tx RAFT_LOG_TABLE (\<lambda>_. True))) (\<lambda>items.
           case items of
             [] \<Rightarrow> Inr 1
           | first # _ \<Rightarrow> and_then (map_err OtherDb first) (\<lambda>(k, _). Inr k)))))"

definition last_index :: "('db, 'tx) redb \<Rightarrow> RaftSnapshot prost \<Rightarrow> 'db \<Rightarrow> StoreError + u64" where
  "last_index R P db =
     and_then (open_read R db RAFT_LOG_TABLE) (\<lambda>tx.
     and_then (map_err OtherDb (t_range (ops64 R) tx RAFT_LOG_TABLE (\<lambda>_. True))) (\<lambda>items.
       if items \<noteq> [] then and_then (map_err OtherDb (last items)) (\<lambda>(k, _). Inr k)
       else and_then (stored_metadata R P tx) (\<lambda>meta. case meta of
              Some metadata \<Rightarrow> Inr (sm_index metadata)
            | None \<Rightarrow> Inr 0)))"

definition storage_snapshot :: "('db, 'tx) redb \<Rightarrow> RaftSnapshot prost \<Rightarrow> u64 \<Rightarrow> 'db \<Rightarrow> StoreError + RaftSnapshot" where
  "storage_snapshot R P request_index db =
     and_then (map_err OtherDb (begin_read R db)) (\<lambda>tx.
     and_then (read_value R tx SNAPSHOT_TABLE SNAPSHOT_KEY (deserialize_snapshot P)) (\<lambda>snap. case snap of
       Some snapshot \<Rightarrow> (case snap_metadata snapshot of
           Some metadata \<Rightarrow> if sm_index metadata \<ge> request_index then Inr snapshot
                            else Inl SnapshotTemporarilyUnavailable
         | None \<Rightarrow> Inl SnapshotTemporarilyUnavailable)
     | None \<Rightarrow> Inl SnapshotTemporarilyUnavailable))"

section \<open>What the operations do to the tables\<close>

text \<open>
  The abstract effect of each operation on the contents of the database, independent of the
  database that holds them.
\<close>

definition entry_bytes :: "Entry \<Rightarrow> bytes" where
  "entry_bytes e = projr (serialize_entry e)"

definition put_entry :: "tables \<Rightarrow> Entry \<Rightarrow> tables" where
  "put_entry m e = put RAFT_LOG_TABLE (K64 (entry_index e)) (entry_bytes e) m"

definition drop_log :: "(u64 \<Rightarrow> bool) \<Rightarrow> tables \<Rightarrow> tables" where
  "drop_log P m = m(RAFT_LOG_TABLE := (\<lambda>k. case k of
     K64 i \<Rightarrow> if P i then None else m RAFT_LOG_TABLE k | _ \<Rightarrow> m RAFT_LOG_TABLE k))"

lemma serialize_entry_bytes: "serialize_entry e = Inr (entry_bytes e)"
  by (simp add: entry_bytes_def serialize_entry_def)

lemma with_write_InrD:
  assumes "redb_ok R dbv view" and "with_write R msg body db = (Inr (), db')"
  obtains tx tx' where "view tx = dbv db" and "body tx = Inr tx'" and "dbv db' = view tx'"
proof -
  obtain tx where tx: "begin_write R db = Inr tx"
    using assms(2) by (cases "begin_write R db") (auto simp: with_write_def)
  obtain tx' where tx': "body tx = Inr tx'"
    using assms(2) tx by (cases "body tx") (auto simp: with_write_def)
  have "commit R tx' db = (Inr (), db')"
    using assms(2) tx tx' by (auto simp: with_write_def map_err_def split: prod.splits sum.splits)
  with tx tx' show thesis
    using redb_okD[OF assms(1)] that by blast
qed

lemma with_write_total:
  assumes "redb_total R" and "\<And>tx. is_ok (body tx)"
  shows "\<exists>db'. with_write R msg body db = (Inr (), db')"
proof -
  obtain tx where tx: "begin_write R db = Inr tx" using redb_totalD(2)[OF assms(1)] by blast
  obtain tx' where tx': "body tx = Inr tx'" using assms(2)[of tx] by (auto simp: is_ok_iff)
  have "fst (commit R tx' db) = Inr ()" using redb_totalD(4)[OF assms(1)] by blast
  with tx tx' show ?thesis by (cases "commit R tx' db") (simp add: with_write_def)
qed

lemma with_write_InlD:
  assumes "\<And>tx db. fst (commit R tx db) = Inr ()" and "with_write R msg body db = (Inl e, db')"
  shows "db' = db"
  using assms(2) assms(1)[of "projr (body (projr (begin_write R db)))" db]
  by (auto simp: with_write_def split: sum.splits prod.splits)

lemma insert_entry_InrD:
  assumes "redb_ok R dbv view" and "insert_entry R tx e = Inr tx'"
  shows "view tx' = put_entry (view tx) e"
  using assms(2) ops_okD(2)[OF redb_okD(5)[OF assms(1)]]
  by (simp add: insert_entry_def serialize_entry_bytes put_entry_def)

lemma append_entries_InrD:
  assumes "redb_ok R dbv view" and "append_entries R es db = (Inr (), db')"
  shows "dbv db' = foldl put_entry (dbv db) es"
proof (cases "es = []")
  case True
  with assms(2) show ?thesis by (simp add: append_entries_def)
next
  case False
  then obtain tx t tx' where "view tx = dbv db" and "open_table R tx RAFT_LOG_TABLE = Inr t"
    and run: "for_each (insert_entry R) t es = Inr tx'" and "dbv db' = view tx'"
    using assms(2) with_write_InrD[OF assms(1)]
    by (auto simp: append_entries_def and_then_Inr_iff elim!: with_write_InrD[OF assms(1)])
  moreover have "view t = view tx" using calculation redb_okD(3)[OF assms(1)] by blast
  moreover have "view tx' = foldl put_entry (view t) es"
    using for_each_simulates[where P = "\<lambda>_. True" and v = view and g = put_entry, OF _ _ run]
      insert_entry_InrD[OF assms(1)] by blast
  ultimately show ?thesis by simp
qed

lemma foldl_del_log: "foldl (\<lambda>m i. del RAFT_LOG_TABLE (K64 i) m) m is = drop_log (\<lambda>i. i \<in> set is) m"
  by (induction "is" arbitrary: m) (auto simp: drop_log_def del_def fun_eq_iff split: key.splits)

lemma remove_log_range_InrD:
  assumes ok: "redb_ok R dbv view" and run: "remove_log_range R P tx = Inr tx'"
  shows "view tx' = drop_log P (view tx)"
proof -
  note ops = redb_okD(5)[OF ok]
  obtain kvs where items: "t_range (ops64 R) tx RAFT_LOG_TABLE P = Inr (map Inr kvs)"
    and loop: "for_each (\<lambda>tx i. map_err (storage_error ''remove log entry'') (t_remove (ops64 R) tx RAFT_LOG_TABLE i))
      tx (map fst kvs) = Inr tx'"
    using run by (auto simp: remove_log_range_def and_then_Inr_iff collect_results_Inr_iff dest!: map_fst_okD)
  have set_keys: "set (map fst kvs) = {k. P k \<and> view tx RAFT_LOG_TABLE (K64 k) \<noteq> None}"
  proof -
    have iff: "(k, v) \<in> set kvs \<longleftrightarrow> P k \<and> view tx RAFT_LOG_TABLE (K64 k) = Some v" for k v
      by (rule ops_okD(5)[OF ops items])
    have "set (map fst kvs) = {k. \<exists>v. (k, v) \<in> set kvs}" by force
    then show ?thesis by (simp only: iff) auto
  qed
  have "view tx' = foldl (\<lambda>m i. del RAFT_LOG_TABLE (K64 i) m) (view tx) (map fst kvs)"
    using for_each_simulates[where P = "\<lambda>_. True" and v = view
        and g = "\<lambda>m i. del RAFT_LOG_TABLE (K64 i) m", OF _ _ loop] ops_okD(3)[OF ops] by simp
  also have "\<dots> = drop_log P (view tx)"
    unfolding foldl_del_log set_keys by (auto simp: drop_log_def fun_eq_iff split: key.splits)
  finally show ?thesis .
qed

lemma save_hard_state_InrD:
  assumes "redb_ok R dbv view" and "save_hard_state R hs db = (Inr (), db')"
  shows "dbv db' = put HARD_STATE_TABLE (KS HARD_STATE_KEY) (projr (serialize_hard_state hs)) (dbv db)"
  using assms(2) redb_okD(3)[OF assms(1)] ops_okD(2)[OF redb_okD(6)[OF assms(1)]]
  unfolding save_hard_state_def
  by (elim with_write_InrD[OF assms(1)]) (auto simp: and_then_Inr_iff)

lemma compact_InrD:
  assumes "redb_ok R dbv view" and "compact R i db = (Inr (), db')"
  shows "dbv db' = drop_log (\<lambda>k. k < i) (dbv db)"
  using assms(2) redb_okD(3)[OF assms(1)] remove_log_range_InrD[OF assms(1)]
  unfolding compact_def
  by (elim with_write_InrD[OF assms(1)]) (auto simp: and_then_Inr_iff)

text \<open>The tables after a snapshot with metadata was applied.\<close>

definition install_snapshot :: "RaftSnapshot prost \<Rightarrow> RaftSnapshot \<Rightarrow> SnapshotMetadata \<Rightarrow> tables \<Rightarrow> tables" where
  "install_snapshot P snapshot metadata m =
    (let m = put SNAPSHOT_TABLE (KS SNAPSHOT_KEY) (encode_to_vec P snapshot)
               (drop_log (\<lambda>k. k \<le> sm_index metadata) m)
     in case sm_conf_state metadata of None \<Rightarrow> m
        | Some cs \<Rightarrow> put CONF_STATE_TABLE (KS CONF_STATE_KEY) (projr (serialize_conf_state cs)) m)"

lemma apply_snapshot_InrD:
  assumes "redb_ok R dbv view" and "apply_snapshot R P snapshot db = (Inr (), db')"
    and "snap_metadata snapshot = Some metadata"
  shows "dbv db' = install_snapshot P snapshot metadata (dbv db)"
proof -
  obtain tx tx' where tx: "view tx = dbv db" "apply_snapshot_txn R P snapshot tx = Inr tx'" "dbv db' = view tx'"
    using assms(2) unfolding apply_snapshot_def by (elim with_write_InrD[OF assms(1)])
  note step = redb_okD(3)[OF assms(1)] ops_okD(2)[OF redb_okD(6)[OF assms(1)]]
    remove_log_range_InrD[OF assms(1)]
  show ?thesis
  proof (cases "sm_conf_state metadata")
    case None
    with tx step show ?thesis
      by (auto simp: apply_snapshot_txn_def assms(3) and_then_Inr_iff serialize_snapshot_def install_snapshot_def)
  next
    case (Some cs)
    with tx step show ?thesis
      by (auto simp: apply_snapshot_txn_def assms(3) and_then_Inr_iff serialize_snapshot_def
          serialize_conf_state_def install_snapshot_def)
  qed
qed

section \<open>On a reliable database every write succeeds\<close>

lemma remove_log_range_total: "redb_total R \<Longrightarrow> is_ok (remove_log_range R P tx)"
proof -
  assume tot: "redb_total R"
  note ops = ops_totalD[OF redb_totalD(5)[OF tot]]
  obtain items where items: "t_range (ops64 R) tx RAFT_LOG_TABLE P = Inr (map Inr items)" using ops(4) by blast
  have "collect_results (map (\<lambda>r. and_then (map_err f r) (\<lambda>(k, _). Inr k)) (map Inr items)) = Inr (map fst items)"
    for f :: "error_text \<Rightarrow> RaftError"
    by (simp add: collect_results_Inr_iff split: prod.split)
  moreover have "is_ok (map_err f (t_remove (ops64 R) t RAFT_LOG_TABLE i))" for f :: "error_text \<Rightarrow> RaftError" and t i
    using ops(3)[of t RAFT_LOG_TABLE i] by (auto simp: is_ok_iff)
  ultimately show "is_ok (remove_log_range R P tx)"
    by (simp add: remove_log_range_def items for_each_total)
qed

lemma writes_total:
  assumes tot: "redb_total R"
  shows "\<exists>db'. save_hard_state R hs db = (Inr (), db')"
    and "\<exists>db'. append_entries R es db = (Inr (), db')"
    and "\<exists>db'. compact R i db = (Inr (), db')"
    and "\<exists>db'. apply_snapshot R P snapshot db = (Inr (), db')"
proof -
  note opens = redb_totalD(3)[OF tot] and ins64 = ops_totalD(2)[OF redb_totalD(5)[OF tot]]
    and insS = ops_totalD(2)[OF redb_totalD(6)[OF tot]]
  have ok_open: "is_ok (and_then (map_err f (open_table R tx t)) g)" if "\<And>tx. is_ok (g tx)"
    for f :: "error_text \<Rightarrow> RaftError" and tx t and g :: "_ \<Rightarrow> RaftError + 'c"
    using opens[of tx t] that by auto
  have ok_ins: "is_ok (map_err f (t_insert (opsS R) tx t k v))" for f :: "error_text \<Rightarrow> RaftError" and tx t k v
    using insS[of tx t k v] by auto
  have ok_ins_then: "is_ok (and_then (map_err f (t_insert (opsS R) tx t k v)) g)" if "\<And>tx. is_ok (g tx)"
    for f :: "error_text \<Rightarrow> RaftError" and tx t k v and g :: "_ \<Rightarrow> RaftError + 'c"
    using insS[of tx t k v] that by auto
  have ok_entry: "is_ok (insert_entry R tx e)" for tx e
    using ins64[of tx RAFT_LOG_TABLE "entry_index e" "entry_bytes e"]
    by (auto simp: insert_entry_def serialize_entry_bytes)
  have ok_remove: "is_ok (and_then (remove_log_range R Q tx) g)" if "\<And>tx. is_ok (g tx)"
    for Q tx and g :: "_ \<Rightarrow> RaftError + 'c"
    using remove_log_range_total[OF tot, of Q tx] that by (auto simp: is_ok_iff)
  show "\<exists>db'. save_hard_state R hs db = (Inr (), db')"
    unfolding save_hard_state_def
    by (rule with_write_total[OF tot]) (intro ok_open, simp add: serialize_hard_state_def ok_ins)
  show "\<exists>db'. append_entries R es db = (Inr (), db')"
    by (auto simp: append_entries_def intro!: with_write_total[OF tot] ok_open for_each_total ok_entry)
  show "\<exists>db'. compact R i db = (Inr (), db')"
    unfolding compact_def by (intro with_write_total[OF tot] ok_open remove_log_range_total[OF tot])
  show "\<exists>db'. apply_snapshot R P snapshot db = (Inr (), db')"
    by (auto simp: apply_snapshot_def apply_snapshot_txn_def serialize_snapshot_def serialize_conf_state_def
        intro!: with_write_total[OF tot] ok_open ok_remove ok_ins_then ok_ins split: option.split)
qed

section \<open>Reading from a reliable database\<close>

text \<open>\<open>log_holds m lo es\<close>: the log of \<open>m\<close> holds exactly the entries \<open>es\<close> from index \<open>lo\<close> on.\<close>

definition log_holds :: "tables \<Rightarrow> u64 \<Rightarrow> Entry list \<Rightarrow> bool" where
  "log_holds m lo es \<longleftrightarrow> (\<forall>k < length es.
     m RAFT_LOG_TABLE (K64 (lo + of_nat k)) = Some (entry_bytes (es ! k)) \<and> entry_fits (es ! k))"

fun indexed_from :: "u64 \<Rightarrow> Entry list \<Rightarrow> bool" where
  "indexed_from lo [] \<longleftrightarrow> True"
| "indexed_from lo (e # es) \<longleftrightarrow> entry_index e = lo \<and> indexed_from (lo + 1) es"

lemma indexed_from_nth: "indexed_from lo es \<Longrightarrow> k < length es \<Longrightarrow> entry_index (es ! k) = lo + of_nat k"
  by (induction lo es arbitrary: k rule: indexed_from.induct) (auto simp: nth_Cons' of_nat_diff)

definition consecutive :: "u64 \<Rightarrow> Entry list \<Rightarrow> bool" where
  "consecutive lo es \<longleftrightarrow> unat lo + length es < 2 ^ 64 \<and> indexed_from lo es"

definition log_bytes :: "Entry list \<Rightarrow> nat" where
  "log_bytes es = (\<Sum>e\<leftarrow>es. length (entry_bytes e))"

text \<open>The longest prefix whose serialized size stays within a budget.\<close>

fun fitting :: "nat \<Rightarrow> Entry list \<Rightarrow> Entry list" where
  "fitting budget [] = []"
| "fitting budget (e # es) =
    (if budget < length (entry_bytes e) then [] else e # fitting (budget - length (entry_bytes e)) es)"

lemma log_bytes_simps [simp]:
  "log_bytes [] = 0" "log_bytes (e # es) = length (entry_bytes e) + log_bytes es"
  by (simp_all add: log_bytes_def)

lemma fitting_all: "log_bytes es \<le> budget \<Longrightarrow> fitting budget es = es"
  by (induction es arbitrary: budget) auto

lemma fitting_maximal:
  "\<exists>n \<le> length es. fitting budget es = take n es \<and> log_bytes (take n es) \<le> budget
     \<and> (n < length es \<longrightarrow> budget < log_bytes (take (Suc n) es))"
proof (induction es arbitrary: budget)
  case Nil
  then show ?case by simp
next
  case (Cons e es)
  show ?case
  proof (cases "budget < length (entry_bytes e)")
    case True
    then show ?thesis by (intro exI[of _ 0]) simp
  next
    case False
    from Cons.IH[of "budget - length (entry_bytes e)"] obtain n where
      "n \<le> length es" "fitting (budget - length (entry_bytes e)) es = take n es"
      "log_bytes (take n es) \<le> budget - length (entry_bytes e)"
      "n < length es \<longrightarrow> budget - length (entry_bytes e) < log_bytes (take (Suc n) es)" by blast
    with False show ?thesis by (intro exI[of _ "Suc n"]) auto
  qed
qed

lemma decode_entry_bytes: "entry_fits e \<Longrightarrow> deserialize_entry (entry_bytes e) = Inr e"
  unfolding entry_bytes_def by (rule entry_codec.stored_back)

lemma entries_loop_stored:
  assumes rel: "redb_reliable R dbv view"
  shows "length indices = length es \<Longrightarrow>
    (\<And>k. k < length es \<Longrightarrow> view tx RAFT_LOG_TABLE (K64 (indices ! k)) = Some (entry_bytes (es ! k))
        \<and> entry_fits (es ! k)) \<Longrightarrow>
    unat used + log_bytes es < 2 ^ 64 \<Longrightarrow> used \<le> max_size \<Longrightarrow>
    entries_loop R tx max_size indices used = Inr (fitting (unat max_size - unat used) es)"
proof (induction es arbitrary: indices used)
  case Nil
  then show ?case by simp
next
  case (Cons e es)
  let ?n = "length (entry_bytes e)"
  from Cons.prems(1) obtain i "is" where "indices = i # is" and len: "length is = length es"
    by (cases indices) auto
  have i: "view tx RAFT_LOG_TABLE (K64 i) = Some (entry_bytes e)" and fits: "entry_fits e"
    using Cons.prems(2)[of 0] \<open>indices = i # is\<close> by auto
  have tot: "unat (used + of_nat ?n) = unat used + ?n"
    using Cons.prems(3) by (simp add: unat_word_ariths unat_of_nat_u64)
  have step: "entries_loop R tx max_size is (used + of_nat ?n) = Inr (fitting (unat max_size - unat (used + of_nat ?n)) es)"
    if "used + of_nat ?n \<le> max_size"
    using that Cons.prems(3) tot Cons.prems(2)[of "Suc k" for k] \<open>indices = i # is\<close>
    by (intro Cons.IH[OF len]) (force simp: nth_Cons')+
  show ?case
  proof (cases "used + of_nat ?n \<le> max_size")
    case True
    then have "\<not> unat max_size - unat used < ?n" "unat max_size - unat (used + of_nat ?n) = unat max_size - unat used - ?n"
      using tot by (simp_all add: word_le_nat_alt)
    with True show ?thesis
      using i fits step by (simp add: \<open>indices = i # is\<close> reliable_reads(3)[OF rel] decode_entry_bytes leD)
  next
    case False
    then have "unat max_size - unat used < ?n" using Cons.prems(4) tot by (simp add: word_le_nat_alt)
    with False show ?thesis
      using i by (simp add: \<open>indices = i # is\<close> reliable_reads(3)[OF rel] not_le)
  qed
qed

lemma storage_entries_stored:
  assumes rel: "redb_reliable R dbv view" and holds: "log_holds (dbv db) lo es"
    and range: "unat lo + length es < 2 ^ 64" and size: "log_bytes es < 2 ^ 64"
  shows "storage_entries R lo (lo + of_nat (length es)) max_size db =
    Inr (fitting (case max_size of None \<Rightarrow> 2 ^ 64 - 1 | Some m \<Rightarrow> unat m) es)"
proof -
  obtain tx0 where tx0: "begin_read R db = Inr tx0" "view tx0 = dbv db"
    using reliable_reads(1)[OF rel] by blast
  obtain tx where tx: "open_table R tx0 RAFT_LOG_TABLE = Inr tx" "view tx = view tx0"
    using reliable_reads(2)[OF rel] by blast
  have hi: "unat (lo + of_nat (length es)) = unat lo + length es"
    using range by (simp add: unat_word_ariths unat_of_nat_u64)
  let ?max = "case max_size of None \<Rightarrow> - 1 | Some m \<Rightarrow> m"
  have "entries_loop R tx ?max (u64_range lo (lo + of_nat (length es))) 0 = Inr (fitting (unat ?max - unat (0 :: u64)) es)"
    using holds hi size tx tx0
    by (intro entries_loop_stored[OF rel]) (auto simp: log_holds_def nth_u64_range)
  moreover have "unat ?max = (case max_size of None \<Rightarrow> 2 ^ 64 - 1 | Some m \<Rightarrow> unat m)"
    by (simp add: unsigned_minus_1_eq_mask mask_eq_exp_minus_1 split: option.split)
  ultimately show ?thesis
    using tx tx0 by (simp add: storage_entries_def open_read_def)
qed

definition log_keys :: "tables \<Rightarrow> u64 set" where
  "log_keys m = {i. m RAFT_LOG_TABLE (K64 i) \<noteq> None}"

lemma sorted_hd_last:
  fixes xs :: "'a::linorder list"
  assumes "sorted_wrt (<) xs" and "xs \<noteq> []"
  shows "hd xs = Min (set xs)" and "last xs = Max (set xs)"
proof -
  have s: "sorted xs" using assms(1) by (simp add: strict_sorted_iff)
  show "hd xs = Min (set xs)"
    using s assms(2) by (cases xs) (auto intro!: Min_eqI [symmetric])
  have "x \<le> last xs" if "x \<in> set xs" for x
    using s that by (cases xs rule: rev_cases) (auto simp: sorted_append)
  then show "last xs = Max (set xs)"
    using assms(2) by (intro Max_eqI [symmetric]) auto
qed

text \<open>What is stored through a format is read back, whatever the format.\<close>

lemma read_value_stored:
  assumes format: "codec enc dec fits" and rel: "redb_reliable R dbv view"
    and "view tx t (KS k) = map_option (projr \<circ> enc) a" and "\<And>x. a = Some x \<Longrightarrow> fits x"
  shows "read_value R tx t k dec = Inr a"
proof -
  obtain tx' where "open_table R tx t = Inr tx'" "view tx' = view tx"
    using reliable_reads(2)[OF rel] by blast
  with assms(3,4) show ?thesis
    by (cases a) (simp_all add: read_value_def reliable_reads(4)[OF rel] codec.stored_back[OF format])
qed

lemma stored_metadata_reliable:
  assumes rel: "redb_reliable R dbv view" and prost: "prost_ok P"
    and "view tx SNAPSHOT_TABLE (KS SNAPSHOT_KEY) = map_option (encode_to_vec P) snap"
  shows "stored_metadata R P tx = Inr (Option.bind snap snap_metadata)"
    and "read_value R tx SNAPSHOT_TABLE SNAPSHOT_KEY (deserialize_snapshot P) = Inr snap"
proof -
  have "projr \<circ> serialize_snapshot P = encode_to_vec P" by (simp add: fun_eq_iff serialize_snapshot_def)
  with assms(3) show "read_value R tx SNAPSHOT_TABLE SNAPSHOT_KEY (deserialize_snapshot P) = Inr snap"
    by (intro read_value_stored[OF snapshot_codec[OF prost] rel]) simp_all
  then show "stored_metadata R P tx = Inr (Option.bind snap snap_metadata)"
    by (simp add: stored_metadata_def)
qed

lemma log_range_reliable:
  assumes rel: "redb_reliable R dbv view"
  obtains items where "t_range (ops64 R) tx RAFT_LOG_TABLE (\<lambda>_. True) = Inr (map Inr items)"
    and "items = [] \<longleftrightarrow> log_keys (view tx) = {}"
    and "items \<noteq> [] \<Longrightarrow> fst (hd items) = Min (log_keys (view tx))"
    and "items \<noteq> [] \<Longrightarrow> fst (last items) = Max (log_keys (view tx))"
proof -
  obtain items where items: "t_range (ops64 R) tx RAFT_LOG_TABLE (\<lambda>_. True) = Inr (map Inr items)"
    and sorted: "sorted_wrt (<) (map fst items)"
    and keys: "set (map fst items) = log_keys (view tx)"
    using reliable_range[OF rel, of tx RAFT_LOG_TABLE "\<lambda>_. True"] by (auto simp: log_keys_def)
  have "items = [] \<longleftrightarrow> log_keys (view tx) = {}" using keys by auto
  moreover have "items \<noteq> [] \<Longrightarrow> fst (hd items) = Min (log_keys (view tx))"
    using sorted_hd_last(1)[OF sorted] keys by (simp add: hd_map)
  moreover have "items \<noteq> [] \<Longrightarrow> fst (last items) = Max (log_keys (view tx))"
    using sorted_hd_last(2)[OF sorted] keys by (simp add: last_map)
  ultimately show thesis using items that by blast
qed

text \<open>
  The snapshot a database holds: none, or one that was stored through the prost codec.
\<close>

definition stored_snapshot :: "RaftSnapshot prost \<Rightarrow> tables \<Rightarrow> RaftSnapshot option \<Rightarrow> bool" where
  "stored_snapshot P m snap \<longleftrightarrow> m SNAPSHOT_TABLE (KS SNAPSHOT_KEY) = map_option (encode_to_vec P) snap"

lemma first_index_reliable:
  assumes rel: "redb_reliable R dbv view" and prost: "prost_ok P" and snap: "stored_snapshot P (dbv db) snap"
  shows "first_index R P db = Inr (case Option.bind snap snap_metadata of
      Some metadata \<Rightarrow> sm_index metadata + 1
    | None \<Rightarrow> if log_keys (dbv db) = {} then 1 else Min (log_keys (dbv db)))"
proof -
  obtain tx where tx: "begin_read R db = Inr tx" "view tx = dbv db"
    using reliable_reads(1)[OF rel] by blast
  obtain tx' where tx': "open_table R tx RAFT_LOG_TABLE = Inr tx'" "view tx' = view tx"
    using reliable_reads(2)[OF rel] by blast
  have meta: "stored_metadata R P tx = Inr (Option.bind snap snap_metadata)"
    using stored_metadata_reliable(1)[OF rel prost] snap tx by (simp add: stored_snapshot_def)
  obtain items where items: "t_range (ops64 R) tx' RAFT_LOG_TABLE (\<lambda>_. True) = Inr (map Inr items)"
    and keys: "items = [] \<longleftrightarrow> log_keys (view tx') = {}"
      "items \<noteq> [] \<Longrightarrow> fst (hd items) = Min (log_keys (view tx'))"
    by (blast intro: log_range_reliable[OF rel, of tx'])
  show ?thesis
    using tx tx' meta items keys
    by (cases items) (auto simp: first_index_def split: option.split)
qed

lemma last_index_reliable:
  assumes rel: "redb_reliable R dbv view" and prost: "prost_ok P" and snap: "stored_snapshot P (dbv db) snap"
  shows "last_index R P db = Inr (
    if log_keys (dbv db) \<noteq> {} then Max (log_keys (dbv db))
    else case Option.bind snap snap_metadata of Some metadata \<Rightarrow> sm_index metadata | None \<Rightarrow> 0)"
proof -
  obtain tx where tx: "begin_read R db = Inr tx" "view tx = dbv db"
    using reliable_reads(1)[OF rel] by blast
  obtain tx' where tx': "open_table R tx RAFT_LOG_TABLE = Inr tx'" "view tx' = view tx"
    using reliable_reads(2)[OF rel] by blast
  have meta: "stored_metadata R P tx' = Inr (Option.bind snap snap_metadata)"
    using stored_metadata_reliable(1)[OF rel prost] snap tx tx' by (simp add: stored_snapshot_def)
  obtain items where items: "t_range (ops64 R) tx' RAFT_LOG_TABLE (\<lambda>_. True) = Inr (map Inr items)"
    and keys: "items = [] \<longleftrightarrow> log_keys (view tx') = {}"
      "items \<noteq> [] \<Longrightarrow> fst (last items) = Max (log_keys (view tx'))"
    by (blast intro: log_range_reliable[OF rel, of tx'])
  show ?thesis
    using tx tx' meta items keys
    by (cases "items = []")
      (auto simp: last_index_def open_read_def last_map split: option.split prod.split)
qed

lemma storage_term_reliable:
  assumes rel: "redb_reliable R dbv view" and prost: "prost_ok P" and snap: "stored_snapshot P (dbv db) snap"
    and "i \<noteq> 0"
  shows "storage_term R P i db = (
    let from_log = (case dbv db RAFT_LOG_TABLE (K64 i) of
        Some data \<Rightarrow> and_then (map_err OtherRaft (deserialize_entry data)) (\<lambda>entry. Inr (entry_term entry))
      | None \<Rightarrow> Inl Unavailable)
    in case Option.bind snap snap_metadata of
         Some metadata \<Rightarrow> if i = sm_index metadata then Inr (sm_term metadata) else from_log
       | None \<Rightarrow> from_log)"
proof -
  obtain tx where tx: "begin_read R db = Inr tx" "view tx = dbv db"
    using reliable_reads(1)[OF rel] by blast
  obtain tx' where tx': "open_table R tx RAFT_LOG_TABLE = Inr tx'" "view tx' = view tx"
    using reliable_reads(2)[OF rel] by blast
  have meta: "stored_metadata R P tx = Inr (Option.bind snap snap_metadata)"
    using stored_metadata_reliable(1)[OF rel prost] snap tx by (simp add: stored_snapshot_def)
  show ?thesis
    using tx tx' meta assms(4)
    by (simp add: storage_term_def log_term_def reliable_reads(3)[OF rel] Let_def split: option.split)
qed

lemma initial_state_reliable:
  assumes rel: "redb_reliable R dbv view"
    and hs: "dbv db HARD_STATE_TABLE (KS HARD_STATE_KEY) = map_option (projr \<circ> serialize_hard_state) hso"
    and cs: "dbv db CONF_STATE_TABLE (KS CONF_STATE_KEY) = map_option (projr \<circ> serialize_conf_state) cso"
    and fits: "\<And>c. cso = Some c \<Longrightarrow> conf_fits c"
  shows "initial_state R db = Inr (case hso of None \<Rightarrow> default_hard_state | Some h \<Rightarrow> h,
    case cso of None \<Rightarrow> default_conf_state | Some c \<Rightarrow> c)"
proof -
  obtain tx where tx: "begin_read R db = Inr tx" "view tx = dbv db"
    using reliable_reads(1)[OF rel] by blast
  have "read_value R tx HARD_STATE_TABLE HARD_STATE_KEY deserialize_hard_state = Inr hso"
    using tx hs by (intro read_value_stored[OF hard_state_codec.codec_axioms rel]) simp_all
  moreover have "read_value R tx CONF_STATE_TABLE CONF_STATE_KEY deserialize_conf_state = Inr cso"
    using tx cs fits by (intro read_value_stored[OF conf_state_codec.codec_axioms rel]) simp_all
  ultimately show ?thesis by (simp add: initial_state_def tx)
qed

section \<open>Appending and reading\<close>

lemma foldl_put_entry_other:
  "t \<noteq> RAFT_LOG_TABLE \<Longrightarrow> foldl put_entry m es t = m t"
  "k \<notin> K64 ` entry_index ` set es \<Longrightarrow> foldl put_entry m es RAFT_LOG_TABLE k = m RAFT_LOG_TABLE k"
  by (induction es arbitrary: m) (auto simp: put_entry_def)

lemma log_keys_append: "log_keys (foldl put_entry m es) = log_keys m \<union> entry_index ` set es"
proof (induction es arbitrary: m)
  case Nil
  then show ?case by simp
next
  case (Cons e es)
  have "log_keys (put_entry m e) = insert (entry_index e) (log_keys m)"
    by (auto simp: log_keys_def put_entry_def)
  with Cons show ?case by simp
qed

lemma consecutive_nth_index:
  assumes "consecutive lo es" and "j < length es" and "k < length es"
  shows "entry_index (es ! j) = entry_index (es ! k) \<longleftrightarrow> j = k"
proof
  assume "entry_index (es ! j) = entry_index (es ! k)"
  then have "unat (lo + of_nat j) = unat (lo + of_nat k)"
    using assms by (simp add: consecutive_def) (metis indexed_from_nth)
  with assms show "j = k"
    by (simp add: consecutive_def unat_word_ariths unat_of_nat_u64)
qed simp

lemma consecutive_distinct: "consecutive lo es \<Longrightarrow> distinct (map entry_index es)"
  by (simp add: distinct_conv_nth consecutive_nth_index)

lemma foldl_put_entry_nth:
  "distinct (map entry_index es) \<Longrightarrow> k < length es \<Longrightarrow>
   foldl put_entry m es RAFT_LOG_TABLE (K64 (entry_index (es ! k))) = Some (entry_bytes (es ! k))"
proof (induction es arbitrary: m k)
  case Nil
  then show ?case by simp
next
  case (Cons e es)
  show ?case
  proof (cases k)
    case 0
    then have "K64 (entry_index e) \<notin> K64 ` entry_index ` set es" using Cons.prems(1) by auto
    with 0 show ?thesis by (simp add: foldl_put_entry_other) (simp add: put_entry_def)
  next
    case (Suc j)
    with Cons show ?thesis by simp
  qed
qed

lemma log_holds_append:
  assumes "consecutive lo es" and "list_all entry_fits es"
  shows "log_holds (foldl put_entry m es) lo es"
proof -
  have "lo + of_nat k = entry_index (es ! k)" if "k < length es" for k
    using assms(1) indexed_from_nth[OF _ that, of lo] by (simp add: consecutive_def)
  then show ?thesis
    using assms(2) foldl_put_entry_nth[OF consecutive_distinct[OF assms(1)]]
    by (simp add: log_holds_def list_all_length)
qed

text \<open>
  C2: entries that were appended are what the log returns for their indices: the longest
  prefix of them whose serialized size stays within \<open>max_size\<close> (all of them when there is no
  limit), whatever the log held before.
\<close>

theorem append_then_entries:
  assumes "redb_reliable R dbv view"
    and "consecutive lo es" and "list_all entry_fits es" and "log_bytes es < 2 ^ 64"
  shows "\<exists>db'. append_entries R es db = (Inr (), db')
    \<and> storage_entries R lo (lo + of_nat (length es)) max_size db' =
        Inr (fitting (case max_size of None \<Rightarrow> 2 ^ 64 - 1 | Some m \<Rightarrow> unat m) es)"
proof -
  have ok: "redb_ok R dbv view" and tot: "redb_total R" using assms(1) by (simp_all add: redb_reliable_def)
  obtain db' where run: "append_entries R es db = (Inr (), db')" using writes_total(2)[OF tot] by blast
  moreover have "log_holds (dbv db') lo es"
    unfolding append_entries_InrD[OF ok run] using assms(2,3) by (rule log_holds_append)
  ultimately show ?thesis
    using storage_entries_stored[OF assms(1)] assms(2,4) unfolding consecutive_def by blast
qed

definition sample_entry :: "u64 \<Rightarrow> bytes \<Rightarrow> Entry" where
  "sample_entry i d = \<lparr>entry_type = 0, entry_term = 1, entry_index = i, entry_data = d, entry_context = [],
     sync_log = False\<rparr>"

lemma sample_entry_simps [simp]:
  "entry_fits (sample_entry i d) \<longleftrightarrow> length d < 2 ^ 32" "entry_index (sample_entry i d) = i"
  "entry_term (sample_entry i d) = 1" "length (entry_bytes (sample_entry i d)) = 26 + length d"
  by (simp_all add: sample_entry_def entry_fits_def entry_bytes_def serialize_entry_layout)

theorem append_then_entries_witness:
  "\<exists>db'. append_entries mem_redb [sample_entry 5 [1], sample_entry 6 [2, 3], sample_entry 7 [4]] mem_empty = (Inr (), db')
    \<and> storage_entries mem_redb 5 (5 + of_nat 3) (Some 55) db' = Inr [sample_entry 5 [1], sample_entry 6 [2, 3]]"
  using append_then_entries[OF mem_redb_reliable, of 5
      "[sample_entry 5 [1], sample_entry 6 [2, 3], sample_entry 7 [4]]" mem_empty "Some 55"]
  by (simp add: consecutive_def)

lemma entries_loop_sound:
  assumes ok: "redb_ok R dbv view"
  shows "entries_loop R tx max_size indices used = Inr es \<Longrightarrow>
    length es \<le> length indices \<and> (\<forall>k < length es. \<exists>data.
      view tx RAFT_LOG_TABLE (K64 (indices ! k)) = Some data \<and> deserialize_entry data = Inr (es ! k))"
proof (induction indices arbitrary: used es)
  case Nil
  then show ?case by simp
next
  case (Cons i "is")
  note get = ops_okD(1)[OF redb_okD(5)[OF ok]]
  obtain data where data: "view tx RAFT_LOG_TABLE (K64 i) = Some data"
    and rest: "(if used + of_nat (length data) > max_size then Inr []
      else and_then (map_err OtherRaft (deserialize_entry data)) (\<lambda>entry.
        and_then (entries_loop R tx max_size is (used + of_nat (length data))) (\<lambda>entries. Inr (entry # entries))))
      = Inr es"
  proof (cases "t_get (ops64 R) tx RAFT_LOG_TABLE i")
    case (Inr r)
    with Cons.prems get[OF Inr, symmetric] that show ?thesis by (cases r) (simp_all add: Let_def)
  qed (use Cons.prems in simp)
  show ?case
  proof (cases "used + of_nat (length data) > max_size")
    case False
    with rest obtain e es' where e: "es = e # es'" "deserialize_entry data = Inr e"
      and "entries_loop R tx max_size is (used + of_nat (length data)) = Inr es'"
      by (auto simp: and_then_Inr_iff)
    from Cons.IH[OF this(3)] e data show ?thesis by (auto simp: nth_Cons')
  qed (use rest in simp)
qed

text \<open>
  A range read of the log never skips a hole: what \<open>storage_entries\<close> returns are the
  entries stored under \<open>low\<close>, \<open>low + 1\<close>, and so on, without a gap, and no more than asked for.
\<close>

theorem storage_entries_gap_free:
  assumes "redb_ok R dbv view" and "storage_entries R low high max_size db = Inr es"
  shows "length es \<le> unat high - unat low \<and> (\<forall>k < length es. \<exists>data. dbv db RAFT_LOG_TABLE (K64 (low + of_nat k)) = Some data
      \<and> deserialize_entry data = Inr (es ! k))"
proof -
  obtain tx where tx: "view tx = dbv db"
    and run: "entries_loop R tx (case max_size of None \<Rightarrow> - 1 | Some m \<Rightarrow> m) (u64_range low high) 0 = Inr es"
    using assms(2) redb_okD(1,3)[OF assms(1)]
    unfolding storage_entries_def open_read_def and_then_Inr_iff map_err_Inr_iff by metis
  show ?thesis
    using entries_loop_sound[OF assms(1) run] by (auto simp: tx nth_u64_range simp del: unat_word_ariths)
qed

text \<open>
  Appending does not truncate. Entries appended below the end of the log overwrite their
  own indices only: the old entries above them stay, \<open>last_index\<close> still reports the old end,
  and the log now mixes the new entries with the suffix they conflict with. The contract of
  \<open>raft::Storage\<close> expects an append to drop what follows the overwritten entries.
\<close>

theorem append_keeps_stale_suffix:
  assumes "redb_reliable R dbv view" and "prost_ok P" and "stored_snapshot P (dbv db) snap"
    and "last_index R P db = Inr old" and "old \<in> log_keys (dbv db)"
    and "\<And>e. e \<in> set es \<Longrightarrow> entry_index e < old"
  shows "\<exists>db'. append_entries R es db = (Inr (), db') \<and> last_index R P db' = Inr old
    \<and> dbv db' RAFT_LOG_TABLE (K64 old) = dbv db RAFT_LOG_TABLE (K64 old)"
proof -
  have ok: "redb_ok R dbv view" and tot: "redb_total R" using assms(1) by (simp_all add: redb_reliable_def)
  obtain db' where run: "append_entries R es db = (Inr (), db')" using writes_total(2)[OF tot] by blast
  note tables = append_entries_InrD[OF ok run]
  have "log_keys (dbv db) \<noteq> {}" using assms(5) by blast
  then have max: "Max (log_keys (dbv db)) = old"
    using assms(4) last_index_reliable[OF assms(1-3)] by simp
  have keys: "log_keys (dbv db') = log_keys (dbv db) \<union> entry_index ` set es"
    by (simp add: tables log_keys_append)
  have "Max (log_keys (dbv db')) = old"
    unfolding keys using assms(5,6) max by (intro Max_eqI) (auto simp: less_imp_le)
  moreover have "stored_snapshot P (dbv db') snap"
    using assms(3) by (simp add: tables stored_snapshot_def foldl_put_entry_other table_names)
  ultimately have "last_index R P db' = Inr old"
    using last_index_reliable[OF assms(1,2)] keys assms(5) by auto
  moreover have "K64 old \<notin> K64 ` entry_index ` set es" using assms(6) by auto
  then have "dbv db' RAFT_LOG_TABLE (K64 old) = dbv db RAFT_LOG_TABLE (K64 old)"
    by (simp add: tables foldl_put_entry_other)
  ultimately show ?thesis using run by blast
qed

definition sample_log :: mem_tx where
  "sample_log = snd (append_entries mem_redb [sample_entry 1 [], sample_entry 2 [], sample_entry 3 []] mem_empty)"

lemma sample_log_view:
  "mem_view sample_log = foldl put_entry (\<lambda>_ _. None) [sample_entry 1 [], sample_entry 2 [], sample_entry 3 []]"
proof -
  obtain db' where run: "append_entries mem_redb [sample_entry 1 [], sample_entry 2 [], sample_entry 3 []] mem_empty
      = (Inr (), db')"
    using writes_total(2)[OF mem_redb_total] by blast
  show ?thesis
    using append_entries_InrD[OF mem_redb_ok run] run by (simp add: sample_log_def)
qed

lemma log_keys_empty [simp]: "log_keys (\<lambda>_ _. None) = {}"
  by (simp add: log_keys_def)

lemma sample_log_keys [simp]: "log_keys (mem_view sample_log) = {1, 2, 3}"
  by (simp only: sample_log_view log_keys_append log_keys_empty) auto

lemma sample_log_no_snapshot: "stored_snapshot P (mem_view sample_log) None"
  by (simp add: sample_log_view stored_snapshot_def put_entry_def table_names)

theorem append_keeps_stale_suffix_witness:
  "\<exists>db'. append_entries mem_redb [sample_entry 1 [7], sample_entry 2 [8]] sample_log = (Inr (), db')
    \<and> last_index mem_redb wire db' = Inr 3
    \<and> mem_view db' RAFT_LOG_TABLE (K64 3) = mem_view sample_log RAFT_LOG_TABLE (K64 3)"
proof (rule append_keeps_stale_suffix [OF mem_redb_reliable wire_ok sample_log_no_snapshot])
  show "last_index mem_redb wire sample_log = Inr 3"
    by (simp add: last_index_reliable [OF mem_redb_reliable wire_ok sample_log_no_snapshot])
qed auto

theorem storage_entries_gap_free_witness:
  "\<exists>es. storage_entries mem_redb 1 3 None sample_log = Inr es
    \<and> length es \<le> unat (3 :: u64) - unat (1 :: u64) \<and> (\<forall>k < length es. \<exists>data.
        mem_view sample_log RAFT_LOG_TABLE (K64 (1 + of_nat k)) = Some data \<and> deserialize_entry data = Inr (es ! k))"
proof -
  have "log_holds (mem_view sample_log) 1 [sample_entry 1 [], sample_entry 2 []]"
    by (auto simp: sample_log_view log_holds_def put_entry_def less_Suc_eq_0_disj)
  from storage_entries_stored [OF mem_redb_reliable this, of None]
  obtain es where "storage_entries mem_redb 1 3 None sample_log = Inr es" by auto
  with storage_entries_gap_free [OF mem_redb_ok this] show ?thesis by blast
qed

section \<open>The hard state\<close>

text \<open>
  The hard state that was saved is the one the node restarts from: \<open>initial_state\<close>
  returns it next to the configuration stored before, and \<open>applied_index\<close> is its commit index.
\<close>

theorem save_hard_state_restarts:
  assumes "redb_reliable R dbv view"
    and "dbv db CONF_STATE_TABLE (KS CONF_STATE_KEY) = map_option (projr \<circ> serialize_conf_state) cso"
    and "\<And>c. cso = Some c \<Longrightarrow> conf_fits c"
  shows "\<exists>db'. save_hard_state R hs db = (Inr (), db')
    \<and> initial_state R db' = Inr (hs, case cso of None \<Rightarrow> default_conf_state | Some c \<Rightarrow> c)
    \<and> applied_index R db' = Inr (hs_commit hs)"
proof -
  have ok: "redb_ok R dbv view" and tot: "redb_total R" using assms(1) by (simp_all add: redb_reliable_def)
  obtain db' where run: "save_hard_state R hs db = (Inr (), db')" using writes_total(1)[OF tot] by blast
  note tables = save_hard_state_InrD[OF ok run]
  have "initial_state R db' = Inr (hs, case cso of None \<Rightarrow> default_conf_state | Some c \<Rightarrow> c)"
    using initial_state_reliable[OF assms(1), of db' "Some hs" cso] assms(2,3)
    by (simp add: tables table_names)
  moreover have "applied_index R db' = Inr (hs_commit hs)"
  proof -
    obtain tx where tx: "begin_read R db' = Inr tx" "view tx = dbv db'"
      using reliable_reads(1)[OF assms(1)] by blast
    obtain tx' where tx': "open_table R tx HARD_STATE_TABLE = Inr tx'" "view tx' = view tx"
      using reliable_reads(2)[OF assms(1)] by blast
    show ?thesis
      by (simp add: applied_index_def tx tx' reliable_reads(4)[OF assms(1)] tables hard_state_codec.stored_back)
  qed
  ultimately show ?thesis using run by blast
qed

theorem save_hard_state_restarts_witness:
  "\<exists>db'. save_hard_state mem_redb \<lparr>hs_term = 4, hs_vote = 2, hs_commit = 9\<rparr> mem_empty = (Inr (), db')
    \<and> initial_state mem_redb db' = Inr (\<lparr>hs_term = 4, hs_vote = 2, hs_commit = 9\<rparr>, default_conf_state)
    \<and> applied_index mem_redb db' = Inr 9"
  using save_hard_state_restarts [OF mem_redb_reliable, of mem_empty None
      "\<lparr>hs_term = 4, hs_vote = 2, hs_commit = 9\<rparr>"] by simp

section \<open>Failed writes\<close>

lemma with_write_atomic:
  "with_write R msg body db = (Inl e, db') \<Longrightarrow> db' = db \<or> (\<exists>tx err. commit R tx db = (Inl err, db'))"
  by (auto simp: with_write_def map_err_def split: sum.splits prod.splits)

definition write_ops :: "('db, 'tx) redb \<Rightarrow> RaftSnapshot prost \<Rightarrow> ('db \<Rightarrow> (RaftError + unit) \<times> 'db) set" where
  "write_ops R P = range (save_hard_state R) \<union> range (append_entries R) \<union> range (apply_snapshot R P) \<union> range (compact R)"

text \<open>
  C37: the writing operations are atomic. When one of them reports an error, either the
  database is as it was, or the commit of its transaction is the call that failed.
\<close>

theorem writes_atomic:
  assumes "write \<in> write_ops R P" and "write db = (Inl e, db')"
  shows "db' = db \<or> (\<exists>tx err. commit R tx db = (Inl err, db'))"
  using assms
  by (auto simp: write_ops_def save_hard_state_def append_entries_def apply_snapshot_def compact_def
      dest!: with_write_atomic split: if_splits)

text \<open>An in-memory database that refuses the second of two entries.\<close>

definition full_redb :: "(mem_tx, mem_tx) redb" where
  "full_redb = mem_redb\<lparr>ops64 := (ops64 mem_redb)\<lparr>t_insert := (\<lambda>tx t k v.
     if k = 2 then Inl ''disk full'' else t_insert (ops64 mem_redb) tx t k v)\<rparr>\<rparr>"

theorem writes_atomic_witness:
  "append_entries full_redb [sample_entry 1 [], sample_entry 2 []] mem_empty
      = (Inl (storage_error ''insert log entry'' ''disk full''), mem_empty)
   \<and> (mem_empty = mem_empty \<or> (\<exists>tx err. commit full_redb tx mem_empty = (Inl err, mem_empty)))"
proof -
  have "append_entries full_redb [sample_entry 1 [], sample_entry 2 []] mem_empty
      = (Inl (storage_error ''insert log entry'' ''disk full''), mem_empty)"
    by (simp add: append_entries_def with_write_def insert_entry_def serialize_entry_bytes full_redb_def
        mem_redb_def mem_ops_def)
  moreover have "append_entries full_redb [sample_entry 1 [], sample_entry 2 []] \<in> write_ops full_redb wire"
    by (simp add: write_ops_def)
  ultimately show ?thesis using writes_atomic by blast
qed

section \<open>Snapshots and compaction\<close>

lemma log_keys_drop_log [simp]: "log_keys (drop_log Q m) = {i \<in> log_keys m. \<not> Q i}"
  by (auto simp: log_keys_def drop_log_def)

lemma drop_log_other [simp]: "t \<noteq> RAFT_LOG_TABLE \<Longrightarrow> drop_log Q m t = m t"
  by (simp add: drop_log_def)

lemma drop_log_entry: "drop_log Q m RAFT_LOG_TABLE (K64 i) = (if Q i then None else m RAFT_LOG_TABLE (K64 i))"
  by (simp add: drop_log_def)

lemma install_snapshot_views:
  "log_keys (install_snapshot P s meta m) = {i \<in> log_keys m. sm_index meta < i}"
  "install_snapshot P s meta m RAFT_LOG_TABLE (K64 i) = (if i \<le> sm_index meta then None else m RAFT_LOG_TABLE (K64 i))"
  "stored_snapshot P (install_snapshot P s meta m) (Some s)"
  "install_snapshot P s meta m HARD_STATE_TABLE k = m HARD_STATE_TABLE k"
  "sm_conf_state meta = Some cs \<Longrightarrow>
     install_snapshot P s meta m CONF_STATE_TABLE (KS CONF_STATE_KEY) = Some (projr (serialize_conf_state cs))"
  by (auto simp: install_snapshot_def Let_def log_keys_def drop_log_def stored_snapshot_def table_names not_le
      split: option.splits)

lemma storage_snapshot_reliable:
  assumes rel: "redb_reliable R dbv view" and prost: "prost_ok P" and snap: "stored_snapshot P (dbv db) (Some s)"
    and "snap_metadata s = Some meta"
  shows "storage_snapshot R P request db =
    (if request \<le> sm_index meta then Inr s else Inl SnapshotTemporarilyUnavailable)"
proof -
  obtain tx where tx: "begin_read R db = Inr tx" "view tx = dbv db"
    using reliable_reads(1)[OF rel] by blast
  have "read_value R tx SNAPSHOT_TABLE SNAPSHOT_KEY (deserialize_snapshot P) = Inr (Some s)"
    using stored_metadata_reliable(2)[OF rel prost] snap tx by (simp add: stored_snapshot_def)
  with tx assms(4) show ?thesis by (simp add: storage_snapshot_def)
qed

text \<open>
  C3: after a snapshot is applied the storage answers from it: the log starts right after
  the snapshot, the term at the snapshot's index is the snapshot's, entries it covers are gone
  while later ones are kept, a restart takes its configuration, and it can be sent on.
\<close>

theorem apply_snapshot_installs:
  assumes "redb_reliable R dbv view" and "prost_ok P"
    and "snap_metadata snapshot = Some meta" and "sm_index meta \<noteq> 0"
    and "sm_conf_state meta = Some cs" and "conf_fits cs"
    and "dbv db HARD_STATE_TABLE (KS HARD_STATE_KEY) = map_option (projr \<circ> serialize_hard_state) hso"
  shows "\<exists>db'. apply_snapshot R P snapshot db = (Inr (), db')
    \<and> first_index R P db' = Inr (sm_index meta + 1)
    \<and> storage_term R P (sm_index meta) db' = Inr (sm_term meta)
    \<and> log_keys (dbv db') = {i \<in> log_keys (dbv db). sm_index meta < i}
    \<and> initial_state R db' = Inr (case hso of None \<Rightarrow> default_hard_state | Some h \<Rightarrow> h, cs)
    \<and> storage_snapshot R P (sm_index meta) db' = Inr snapshot"
proof -
  have ok: "redb_ok R dbv view" and tot: "redb_total R" using assms(1) by (simp_all add: redb_reliable_def)
  obtain db' where run: "apply_snapshot R P snapshot db = (Inr (), db')" using writes_total(4)[OF tot] by blast
  note tables = apply_snapshot_InrD[OF ok run assms(3)]
  have stored: "stored_snapshot P (dbv db') (Some snapshot)"
    by (simp add: tables install_snapshot_views)
  have "initial_state R db' = Inr (case hso of None \<Rightarrow> default_hard_state | Some h \<Rightarrow> h, cs)"
    using initial_state_reliable[OF assms(1), of db' hso "Some cs"] assms(5-7)
    by (simp add: tables install_snapshot_views)
  then show ?thesis
    using run first_index_reliable[OF assms(1,2) stored] storage_term_reliable[OF assms(1,2) stored assms(4)]
      storage_snapshot_reliable[OF assms(1,2) stored assms(3)] assms(3)
    by (intro exI[of _ db']) (simp add: tables install_snapshot_views)
qed

definition sample_snapshot :: RaftSnapshot where
  "sample_snapshot = \<lparr>snap_data = [1, 2, 3], snap_metadata = Some \<lparr>
     sm_conf_state = Some \<lparr>voters = [1, 2], learners = [], voters_outgoing = [], learners_next = [], auto_leave = False\<rparr>,
     sm_index = 2, sm_term = 1\<rparr>\<rparr>"

theorem apply_snapshot_installs_witness:
  "\<exists>db'. apply_snapshot mem_redb wire sample_snapshot sample_log = (Inr (), db')
    \<and> first_index mem_redb wire db' = Inr 3 \<and> storage_term mem_redb wire 2 db' = Inr 1
    \<and> log_keys (mem_view db') = {i \<in> {1, 2, 3}. 2 < i}"
proof -
  have "mem_view sample_log HARD_STATE_TABLE (KS HARD_STATE_KEY) = map_option (projr \<circ> serialize_hard_state) None"
    by (simp add: sample_log_view put_entry_def table_names)
  from apply_snapshot_installs [OF mem_redb_reliable wire_ok _ _ _ _ this, of sample_snapshot]
  show ?thesis by (force simp: sample_snapshot_def conf_fits_def)
qed

text \<open>
  Compaction removes exactly the entries below its index, but it does not move the start
  of the log when a snapshot is stored: \<open>first_index\<close> keeps answering one past the snapshot,
  although the entry there may have been removed and asking for it gives \<open>Unavailable\<close>.
\<close>

theorem compact_keeps_first_index:
  assumes "redb_reliable R dbv view" and "prost_ok P"
    and "stored_snapshot P (dbv db) (Some snapshot)" and "snap_metadata snapshot = Some meta"
    and "sm_index meta + 1 < compact_index" and "0 < sm_index meta + 1"
  shows "\<exists>db'. compact R compact_index db = (Inr (), db')
    \<and> log_keys (dbv db') = {i \<in> log_keys (dbv db). compact_index \<le> i}
    \<and> first_index R P db' = Inr (sm_index meta + 1)
    \<and> storage_term R P (sm_index meta + 1) db' = Inl Unavailable"
proof -
  have ok: "redb_ok R dbv view" and tot: "redb_total R" using assms(1) by (simp_all add: redb_reliable_def)
  obtain db' where run: "compact R compact_index db = (Inr (), db')" using writes_total(3)[OF tot] by blast
  note tables = compact_InrD[OF ok run]
  have stored: "stored_snapshot P (dbv db') (Some snapshot)"
    using assms(3) by (simp add: tables stored_snapshot_def table_names)
  have "storage_term R P (sm_index meta + 1) db' = Inl Unavailable"
    using storage_term_reliable[OF assms(1,2) stored, of "sm_index meta + 1"] assms(4-6)
    by (simp add: tables drop_log_entry)
  then show ?thesis
    using run first_index_reliable[OF assms(1,2) stored] assms(4)
    by (intro exI[of _ db']) (auto simp: tables not_less)
qed

theorem compact_keeps_first_index_witness:
  "\<exists>db db'. compact mem_redb 4 db = (Inr (), db') \<and> log_keys (mem_view db) = {3}
    \<and> first_index mem_redb wire db' = Inr 3 \<and> storage_term mem_redb wire 3 db' = Inl Unavailable"
proof -
  obtain db where run: "apply_snapshot mem_redb wire sample_snapshot sample_log = (Inr (), db)"
    using writes_total(4)[OF mem_redb_total] by blast
  have meta: "snap_metadata sample_snapshot = Some (the (snap_metadata sample_snapshot))"
    by (simp add: sample_snapshot_def)
  note tables = apply_snapshot_InrD[OF mem_redb_ok run meta]
  have "stored_snapshot wire (mem_view db) (Some sample_snapshot)" "log_keys (mem_view db) = {3}"
    by (auto simp: tables install_snapshot_views) (simp_all add: sample_snapshot_def)
  with compact_keeps_first_index [OF mem_redb_reliable wire_ok this(1) meta, of 4] show ?thesis
    by (auto simp: sample_snapshot_def)
qed

end
