(* ===== verification/RedbStorage.thy ===== *)
theory RedbStorage
  imports SimpleStorage
begin

text \<open>
  \<open>src/src/storage/redb.rs\<close>: the storage of a node that also runs a replicated state machine
  in ten tables. Its parameters are the database \<open>R\<close>, the functions \<open>C\<close> of the module
  \<open>crate::raft_codec\<close>, which is not in the repository, and bincode. Methods that write return
  the database afterwards. Logging, metrics and fail points are left out. The log table is the
  one of the simple storage, under the same name.
\<close>

section \<open>The modules the code relies on\<close>

text \<open>
  The functions of \<open>crate::raft_codec\<close>, with the conversion of their error by \<open>?\<close> and its text.
\<close>

record 'e raft_codec =
  rc_serialize_entry :: "Entry \<Rightarrow> 'e + bytes"
  rc_deserialize_entry :: "bytes \<Rightarrow> 'e + Entry"
  rc_serialize_hard_state :: "HardState \<Rightarrow> 'e + bytes"
  rc_deserialize_hard_state :: "bytes \<Rightarrow> 'e + HardState"
  rc_serialize_conf_state :: "ConfState \<Rightarrow> 'e + bytes"
  rc_deserialize_conf_state :: "bytes \<Rightarrow> 'e + ConfState"
  rc_into :: "'e \<Rightarrow> RaftError"
  rc_text :: "'e \<Rightarrow> error_text"

definition raft_codec_ok :: "'e raft_codec \<Rightarrow> bool" where
  "raft_codec_ok C \<longleftrightarrow> codec (rc_serialize_entry C) (rc_deserialize_entry C) entry_fits
     \<and> codec (rc_serialize_hard_state C) (rc_deserialize_hard_state C) (\<lambda>_. True)
     \<and> codec (rc_serialize_conf_state C) (rc_deserialize_conf_state C) conf_fits"

text \<open>The formats of \<open>storage/codec.rs\<close>, which have these names, keep the contract.\<close>

definition storage_codec :: "RaftError raft_codec" where
  "storage_codec = \<lparr>rc_serialize_entry = serialize_entry, rc_deserialize_entry = deserialize_entry,
     rc_serialize_hard_state = serialize_hard_state, rc_deserialize_hard_state = deserialize_hard_state,
     rc_serialize_conf_state = serialize_conf_state, rc_deserialize_conf_state = deserialize_conf_state,
     rc_into = id, rc_text = category\<rparr>"

lemma storage_codec_ok: "raft_codec_ok storage_codec"
  by (simp add: raft_codec_ok_def storage_codec_def entry_codec.codec_axioms hard_state_codec.codec_axioms
      conf_state_codec.codec_axioms)

section \<open>Tables\<close>

definition VM_STATE_TABLE :: string where "VM_STATE_TABLE = ''vm_states''"
definition CLUSTER_STATE_TABLE :: string where "CLUSTER_STATE_TABLE = ''cluster_state''"
definition RAFT_HARD_STATE_TABLE :: string where "RAFT_HARD_STATE_TABLE = ''raft_hard_state''"
definition RAFT_CONF_STATE_TABLE :: string where "RAFT_CONF_STATE_TABLE = ''raft_conf_state''"
definition TASK_TABLE :: string where "TASK_TABLE = ''tasks''"
definition TASK_ASSIGNMENT_TABLE :: string where "TASK_ASSIGNMENT_TABLE = ''task_assignments''"
definition TASK_RESULT_TABLE :: string where "TASK_RESULT_TABLE = ''task_results''"
definition WORKER_TABLE :: string where "WORKER_TABLE = ''workers''"
definition WORKER_STATUS_TABLE :: string where "WORKER_STATUS_TABLE = ''worker_status''"
definition NODE_TOPOLOGY_TABLE :: string where "NODE_TOPOLOGY_TABLE = ''node_topology''"
definition TENANT_QUOTA_TABLE :: string where "TENANT_QUOTA_TABLE = ''tenant_quotas''"
definition TENANT_USAGE_TABLE :: string where "TENANT_USAGE_TABLE = ''tenant_usage''"
definition IP_POOL_TABLE :: string where "IP_POOL_TABLE = ''ip_pools''"
definition IP_ALLOCATION_TABLE :: string where "IP_ALLOCATION_TABLE = ''ip_allocations''"
definition VM_IP_MAPPING_TABLE :: string where "VM_IP_MAPPING_TABLE = ''vm_ip_mappings''"

lemmas redb_table_names = VM_STATE_TABLE_def CLUSTER_STATE_TABLE_def RAFT_HARD_STATE_TABLE_def
  RAFT_CONF_STATE_TABLE_def TASK_TABLE_def TASK_ASSIGNMENT_TABLE_def TASK_RESULT_TABLE_def
  WORKER_TABLE_def WORKER_STATUS_TABLE_def NODE_TOPOLOGY_TABLE_def TENANT_QUOTA_TABLE_def
  TENANT_USAGE_TABLE_def IP_POOL_TABLE_def IP_ALLOCATION_TABLE_def VM_IP_MAPPING_TABLE_def
  RAFT_LOG_TABLE_def

record SnapshotData =
  vm_states :: "(string \<times> bytes) list"
  cluster_state :: "(string \<times> bytes) list"
  sd_tasks :: "(string \<times> bytes) list"
  task_assignments :: "(string \<times> bytes) list"
  task_results :: "(string \<times> bytes) list"
  sd_workers :: "(bytes \<times> bytes) list"
  worker_status :: "(bytes \<times> bytes) list"
  ip_pools :: "(u64 \<times> bytes) list"
  ip_allocations :: "(string \<times> bytes) list"
  vm_ip_mappings :: "(string \<times> bytes) list"

section \<open>The raft storage trait\<close>

definition other_db :: "error_text + 'a \<Rightarrow> StoreError + 'a" where
  "other_db = map_err OtherDb"

text \<open>A value that is missing, cannot be read or does not decode is replaced by its default.\<close>

definition load_or_default :: "('db, 'tx) redb \<Rightarrow> 'tx \<Rightarrow> string \<Rightarrow> string \<Rightarrow> (bytes \<Rightarrow> 'e + 'a) \<Rightarrow> 'a \<Rightarrow> 'a" where
  "load_or_default R tx t k dec dflt = (case open_table R tx t of
     Inl _ \<Rightarrow> dflt
   | Inr tx \<Rightarrow> (case t_get (opsS R) tx t k of
       Inr (Some data) \<Rightarrow> (case dec data of Inr a \<Rightarrow> a | Inl _ \<Rightarrow> dflt)
     | Inr None \<Rightarrow> dflt
     | Inl _ \<Rightarrow> dflt))"

definition redb_initial_state :: "('db, 'tx) redb \<Rightarrow> 'e raft_codec \<Rightarrow> 'db \<Rightarrow> StoreError + (HardState \<times> ConfState)" where
  "redb_initial_state R C db = and_then (other_db (begin_read R db)) (\<lambda>tx. Inr (
     load_or_default R tx RAFT_HARD_STATE_TABLE ''hard_state'' (rc_deserialize_hard_state C) default_hard_state,
     load_or_default R tx RAFT_CONF_STATE_TABLE ''conf_state'' (rc_deserialize_conf_state C) default_conf_state))"

text \<open>
  The capacity estimate \<open>high - low\<close> of \<open>entries\<close> is left out: it only sizes the vector.
\<close>

fun redb_entries_loop :: "('db, 'tx) redb \<Rightarrow> 'e raft_codec \<Rightarrow> 'tx \<Rightarrow> u64 option \<Rightarrow> u64 list \<Rightarrow> u64
    \<Rightarrow> StoreError + Entry list" where
  "redb_entries_loop R C tx max_size [] used = Inr []"
| "redb_entries_loop R C tx max_size (idx # indices) used =
    (case t_get (ops64 R) tx RAFT_LOG_TABLE idx of
       Inr (Some data) \<Rightarrow>
         let entry_size = of_nat (length data)
         in if (case max_size of Some limit \<Rightarrow> used + entry_size > limit | None \<Rightarrow> False) then Inr []
            else and_then (map_err (OtherDb \<circ> rc_text C) (rc_deserialize_entry C data)) (\<lambda>entry.
              and_then (redb_entries_loop R C tx max_size indices (used + entry_size)) (\<lambda>entries.
                Inr (entry # entries)))
     | _ \<Rightarrow> redb_entries_loop R C tx max_size indices used)"

definition redb_entries :: "('db, 'tx) redb \<Rightarrow> 'e raft_codec \<Rightarrow> u64 \<Rightarrow> u64 \<Rightarrow> u64 option \<Rightarrow> 'db
    \<Rightarrow> StoreError + Entry list" where
  "redb_entries R C low high max_size db =
     and_then (other_db (begin_read R db)) (\<lambda>tx.
     and_then (other_db (open_table R tx RAFT_LOG_TABLE)) (\<lambda>tx.
       redb_entries_loop R C tx max_size (u64_range low high) 0))"

definition redb_term :: "('db, 'tx) redb \<Rightarrow> 'e raft_codec \<Rightarrow> u64 \<Rightarrow> 'db \<Rightarrow> StoreError + u64" where
  "redb_term R C idx db =
     and_then (other_db (begin_read R db)) (\<lambda>tx.
     and_then (other_db (open_table R tx RAFT_LOG_TABLE)) (\<lambda>tx.
       case t_get (ops64 R) tx RAFT_LOG_TABLE idx of
         Inr (Some data) \<Rightarrow> and_then (map_err (OtherDb \<circ> rc_text C) (rc_deserialize_entry C data)) (\<lambda>entry.
           Inr (entry_term entry))
       | _ \<Rightarrow> Inr 0))"

definition redb_first_index :: "('db, 'tx) redb \<Rightarrow> 'db \<Rightarrow> StoreError + u64" where
  "redb_first_index R db =
     and_then (other_db (begin_read R db)) (\<lambda>tx.
     and_then (other_db (open_table R tx RAFT_LOG_TABLE)) (\<lambda>tx.
       case t_range (ops64 R) tx RAFT_LOG_TABLE (\<lambda>_. True) of
         Inr (Inr (key, _) # _) \<Rightarrow> Inr key
       | _ \<Rightarrow> Inr 1))"

definition redb_last_index :: "('db, 'tx) redb \<Rightarrow> 'db \<Rightarrow> StoreError + u64" where
  "redb_last_index R db =
     and_then (other_db (begin_read R db)) (\<lambda>tx.
     and_then (other_db (open_table R tx RAFT_LOG_TABLE)) (\<lambda>tx.
       case t_range (ops64 R) tx RAFT_LOG_TABLE (\<lambda>_. True) of
         Inr items \<Rightarrow> (case rev items of Inr (key, _) # _ \<Rightarrow> Inr key | _ \<Rightarrow> Inr 0)
       | Inl _ \<Rightarrow> Inr 0))"

section \<open>Saving and loading\<close>

text \<open>Every redb error is converted by \<open>?\<close>.\<close>

definition db_try :: "error_text + 'a \<Rightarrow> RaftError + 'a" where
  "db_try = map_err from_redb_error"

definition redb_write :: "('db, 'tx) redb \<Rightarrow> ('tx \<Rightarrow> RaftError + 'tx) \<Rightarrow> 'db \<Rightarrow> (RaftError + unit) \<times> 'db" where
  "redb_write R body db = (case begin_write R db of
     Inl e \<Rightarrow> (Inl (from_redb_error e), db)
   | Inr tx \<Rightarrow> (case body tx of
       Inl e \<Rightarrow> (Inl e, db)
     | Inr tx' \<Rightarrow> (case commit R tx' db of (r, db') \<Rightarrow> (db_try r, db'))))"

definition redb_append :: "('db, 'tx) redb \<Rightarrow> 'e raft_codec \<Rightarrow> Entry list \<Rightarrow> 'db \<Rightarrow> (RaftError + unit) \<times> 'db" where
  "redb_append R C entries = redb_write R (\<lambda>tx.
     and_then (db_try (open_table R tx RAFT_LOG_TABLE)) (\<lambda>tx.
       for_each (\<lambda>tx entry. and_then (map_err (rc_into C) (rc_serialize_entry C entry)) (\<lambda>data.
         db_try (t_insert (ops64 R) tx RAFT_LOG_TABLE (entry_index entry) data))) tx entries))"

definition redb_save_hard_state :: "('db, 'tx) redb \<Rightarrow> 'e raft_codec \<Rightarrow> HardState \<Rightarrow> 'db \<Rightarrow> (RaftError + unit) \<times> 'db" where
  "redb_save_hard_state R C hard_state = redb_write R (\<lambda>tx.
     and_then (db_try (open_table R tx RAFT_HARD_STATE_TABLE)) (\<lambda>tx.
     and_then (map_err (rc_into C) (rc_serialize_hard_state C hard_state)) (\<lambda>data.
       db_try (t_insert (opsS R) tx RAFT_HARD_STATE_TABLE ''hard_state'' data))))"

definition redb_save_conf_state :: "('db, 'tx) redb \<Rightarrow> 'e raft_codec \<Rightarrow> ConfState \<Rightarrow> 'db \<Rightarrow> (RaftError + unit) \<times> 'db" where
  "redb_save_conf_state R C conf_state = redb_write R (\<lambda>tx.
     and_then (db_try (open_table R tx RAFT_CONF_STATE_TABLE)) (\<lambda>tx.
     and_then (map_err (rc_into C) (rc_serialize_conf_state C conf_state)) (\<lambda>data.
       db_try (t_insert (opsS R) tx RAFT_CONF_STATE_TABLE ''conf_state'' data))))"

text \<open>\<open>self.f()?; rest\<close> for methods that write.\<close>

definition then_write :: "(RaftError + unit) \<times> 'db \<Rightarrow> ('db \<Rightarrow> (RaftError + unit) \<times> 'db) \<Rightarrow> (RaftError + unit) \<times> 'db" where
  "then_write s f = (case s of (r, db) \<Rightarrow> (case r of Inl e \<Rightarrow> (Inl e, db) | Inr _ \<Rightarrow> f db))"

definition initialize_single_node :: "('db, 'tx) redb \<Rightarrow> 'e raft_codec \<Rightarrow> u64 \<Rightarrow> 'db \<Rightarrow> (RaftError + unit) \<times> 'db" where
  "initialize_single_node R C node_id db = (case begin_read R db of
     Inl e \<Rightarrow> (Inl (from_redb_error e), db)
   | Inr tx \<Rightarrow>
       if (case open_table R tx RAFT_CONF_STATE_TABLE of
             Inr tx \<Rightarrow> (case t_get (opsS R) tx RAFT_CONF_STATE_TABLE ''conf_state'' of
               Inr (Some _) \<Rightarrow> True | _ \<Rightarrow> False)
           | Inl _ \<Rightarrow> False)
       then (Inr (), db)
       else redb_save_conf_state R C (default_conf_state\<lparr>voters := [node_id]\<rparr>) db)"

definition initialize_joining_node :: "('db, 'tx) redb \<Rightarrow> 'e raft_codec \<Rightarrow> 'db \<Rightarrow> (RaftError + unit) \<times> 'db" where
  "initialize_joining_node R C db =
     then_write (redb_save_conf_state R C default_conf_state db) (\<lambda>db.
       redb_save_hard_state R C \<lparr>hs_term = 0, hs_vote = 0, hs_commit = 0\<rparr> db)"

definition load_conf_state :: "('db, 'tx) redb \<Rightarrow> 'e raft_codec \<Rightarrow> 'db \<Rightarrow> RaftError + ConfState" where
  "load_conf_state R C db = and_then (db_try (begin_read R db)) (\<lambda>tx.
     case open_table R tx RAFT_CONF_STATE_TABLE of
       Inr tx \<Rightarrow> (case t_get (opsS R) tx RAFT_CONF_STATE_TABLE ''conf_state'' of
           Inr (Some data) \<Rightarrow> map_err (Serialization ''deserialize conf state'' \<circ> rc_text C) (rc_deserialize_conf_state C data)
         | _ \<Rightarrow> Inr default_conf_state)
     | Inl _ \<Rightarrow> Inr default_conf_state)"

section \<open>Snapshots of the state machine\<close>

text \<open>All rows of a table, none when the table cannot be opened.\<close>

definition read_table :: "('db, 'tx) redb \<Rightarrow> ('tx, 'k) table_ops \<Rightarrow> 'tx \<Rightarrow> string \<Rightarrow> RaftError + ('k \<times> bytes) list" where
  "read_table R ops tx t = (case open_table R tx t of
     Inl _ \<Rightarrow> Inr []
   | Inr tx \<Rightarrow> and_then (db_try (t_range ops tx t (\<lambda>_. True))) (\<lambda>items. db_try (collect_results items)))"

definition create_snapshot_data :: "('db, 'tx) redb \<Rightarrow> 'db \<Rightarrow> RaftError + SnapshotData" where
  "create_snapshot_data R db = and_then (db_try (begin_read R db)) (\<lambda>tx.
     and_then (read_table R (opsS R) tx VM_STATE_TABLE) (\<lambda>vm_s.
     and_then (read_table R (opsS R) tx CLUSTER_STATE_TABLE) (\<lambda>cluster.
     and_then (read_table R (opsS R) tx TASK_TABLE) (\<lambda>tasks.
     and_then (read_table R (opsS R) tx TASK_ASSIGNMENT_TABLE) (\<lambda>assignments.
     and_then (read_table R (opsS R) tx TASK_RESULT_TABLE) (\<lambda>results.
     and_then (read_table R (opsB R) tx WORKER_TABLE) (\<lambda>workers.
     and_then (read_table R (opsB R) tx WORKER_STATUS_TABLE) (\<lambda>status.
     and_then (read_table R (ops64 R) tx IP_POOL_TABLE) (\<lambda>pools.
     and_then (read_table R (opsS R) tx IP_ALLOCATION_TABLE) (\<lambda>allocations.
     and_then (read_table R (opsS R) tx VM_IP_MAPPING_TABLE) (\<lambda>mappings.
       Inr \<lparr>vm_states = vm_s, cluster_state = cluster, sd_tasks = tasks, task_assignments = assignments,
         task_results = results, sd_workers = workers, worker_status = status, ip_pools = pools,
         ip_allocations = allocations, vm_ip_mappings = mappings\<rparr>)))))))))))"

text \<open>
  The three \<open>restore_*_table\<close> helpers, which differ in the type of the keys. A row that cannot
  be read is skipped when the table is cleared.
\<close>

definition restore_table :: "('db, 'tx) redb \<Rightarrow> ('tx, 'k) table_ops \<Rightarrow> string \<Rightarrow> ('k \<times> bytes) list \<Rightarrow> 'tx \<Rightarrow> RaftError + 'tx" where
  "restore_table R ops t data tx =
     and_then (db_try (open_table R tx t)) (\<lambda>tx.
     and_then (db_try (t_range ops tx t (\<lambda>_. True))) (\<lambda>items.
     and_then (for_each (\<lambda>tx key. db_try (t_remove ops tx t key)) tx
         (map (\<lambda>r. fst (projr r)) (filter is_ok items))) (\<lambda>tx.
       for_each (\<lambda>tx (key, v). db_try (t_insert ops tx t key v)) tx data)))"

definition restore_txn :: "('db, 'tx) redb \<Rightarrow> SnapshotData \<Rightarrow> 'tx \<Rightarrow> RaftError + 'tx" where
  "restore_txn R sd tx =
     and_then (restore_table R (opsS R) VM_STATE_TABLE (vm_states sd) tx) (\<lambda>tx.
     and_then (restore_table R (opsS R) CLUSTER_STATE_TABLE (cluster_state sd) tx) (\<lambda>tx.
     and_then (restore_table R (opsS R) TASK_TABLE (sd_tasks sd) tx) (\<lambda>tx.
     and_then (restore_table R (opsS R) TASK_ASSIGNMENT_TABLE (task_assignments sd) tx) (\<lambda>tx.
     and_then (restore_table R (opsS R) TASK_RESULT_TABLE (task_results sd) tx) (\<lambda>tx.
     and_then (restore_table R (opsB R) WORKER_TABLE (sd_workers sd) tx) (\<lambda>tx.
     and_then (restore_table R (opsB R) WORKER_STATUS_TABLE (worker_status sd) tx) (\<lambda>tx.
     and_then (restore_table R (ops64 R) IP_POOL_TABLE (ip_pools sd) tx) (\<lambda>tx.
     and_then (restore_table R (opsS R) IP_ALLOCATION_TABLE (ip_allocations sd) tx) (\<lambda>tx.
       restore_table R (opsS R) VM_IP_MAPPING_TABLE (vm_ip_mappings sd) tx)))))))))"

definition restore_from_snapshot :: "('db, 'tx) redb \<Rightarrow> SnapshotData bincode \<Rightarrow> bytes \<Rightarrow> 'db \<Rightarrow> (RaftError + unit) \<times> 'db" where
  "restore_from_snapshot R B data db = (case bin_deserialize B data of
     Inl e \<Rightarrow> (Inl (Serialization ''deserialize snapshot data'' e), db)
   | Inr sd \<Rightarrow> redb_write R (restore_txn R sd) db)"

definition compact_log_before :: "('db, 'tx) redb \<Rightarrow> u64 \<Rightarrow> 'db \<Rightarrow> (RaftError + unit) \<times> 'db" where
  "compact_log_before R index db = (if index = 0 then (Inr (), db)
     else redb_write R (\<lambda>tx.
       and_then (db_try (open_table R tx RAFT_LOG_TABLE)) (\<lambda>tx.
       and_then (db_try (t_range (ops64 R) tx RAFT_LOG_TABLE (\<lambda>_. True))) (\<lambda>items.
         for_each (\<lambda>tx key. db_try (t_remove (ops64 R) tx RAFT_LOG_TABLE key)) tx
           (filter (\<lambda>key. key < index) (map (\<lambda>r. fst (projr r)) (filter is_ok items)))))) db)"

text \<open>The trait's \<open>snapshot\<close>; errors of the two helper methods are boxed with their text.\<close>

definition redb_snapshot :: "('db, 'tx) redb \<Rightarrow> 'e raft_codec \<Rightarrow> SnapshotData bincode \<Rightarrow> u64 \<Rightarrow> 'db
    \<Rightarrow> StoreError + RaftSnapshot" where
  "redb_snapshot R C B request_index db =
     and_then (map_err OtherRaft (load_conf_state R C db)) (\<lambda>conf_state.
     and_then (redb_last_index R db) (\<lambda>last_index.
     and_then (if last_index > 0 then redb_term R C last_index db else Inr 0) (\<lambda>trm.
     and_then (map_err OtherRaft (create_snapshot_data R db)) (\<lambda>snapshot_data.
     and_then (other_db (bin_serialize B snapshot_data)) (\<lambda>data.
       Inr \<lparr>snap_data = data, snap_metadata = Some \<lparr>sm_conf_state = Some conf_state,
         sm_index = min request_index last_index, sm_term = trm\<rparr>\<rparr>)))))"

text \<open>Protobuf getters return the default of a field that is not set.\<close>

definition get_metadata :: "RaftSnapshot \<Rightarrow> SnapshotMetadata" where
  "get_metadata s = (case snap_metadata s of Some m \<Rightarrow> m
     | None \<Rightarrow> \<lparr>sm_conf_state = None, sm_index = 0, sm_term = 0\<rparr>)"

definition get_conf_state :: "SnapshotMetadata \<Rightarrow> ConfState" where
  "get_conf_state m = (case sm_conf_state m of Some c \<Rightarrow> c | None \<Rightarrow> default_conf_state)"

definition redb_apply_snapshot :: "('db, 'tx) redb \<Rightarrow> 'e raft_codec \<Rightarrow> SnapshotData bincode \<Rightarrow> RaftSnapshot
    \<Rightarrow> 'db \<Rightarrow> (RaftError + unit) \<times> 'db" where
  "redb_apply_snapshot R C B snapshot db =
    (let metadata = get_metadata snapshot in
     then_write (redb_save_conf_state R C (get_conf_state metadata) db) (\<lambda>db.
     then_write (redb_save_hard_state R C
         (default_hard_state\<lparr>hs_term := sm_term metadata, hs_commit := sm_index metadata\<rparr>) db) (\<lambda>db.
     then_write (if snap_data snapshot \<noteq> [] then restore_from_snapshot R B (snap_data snapshot) db else (Inr (), db)) (\<lambda>db.
       compact_log_before R (sm_index metadata) db))))"

section \<open>Quotas and topology\<close>

text \<open>
  \<open>TenantQuota\<close> is a type of a module that is not in the repository: the code reads its
  \<open>tenant_id\<close>, which is the parameter \<open>tenant_id\<close>.
\<close>

definition save_tenant_quota :: "('db, 'tx) redb \<Rightarrow> 'q bincode \<Rightarrow> ('q \<Rightarrow> string) \<Rightarrow> 'q \<Rightarrow> 'db \<Rightarrow> (RaftError + unit) \<times> 'db" where
  "save_tenant_quota R B tenant_id quota = redb_write R (\<lambda>tx.
     and_then (db_try (open_table R tx TENANT_QUOTA_TABLE)) (\<lambda>tx.
     and_then (map_err (Serialization ''serialize tenant quota'') (bin_serialize B quota)) (\<lambda>serialized.
       db_try (t_insert (opsS R) tx TENANT_QUOTA_TABLE (tenant_id quota) serialized))))"

definition get_tenant_quota :: "('db, 'tx) redb \<Rightarrow> 'q bincode \<Rightarrow> string \<Rightarrow> 'db \<Rightarrow> RaftError + 'q option" where
  "get_tenant_quota R B tenant db = and_then (db_try (begin_read R db)) (\<lambda>tx.
     case open_table R tx TENANT_QUOTA_TABLE of
       Inl _ \<Rightarrow> Inr None
     | Inr tx \<Rightarrow> (case t_get (opsS R) tx TENANT_QUOTA_TABLE tenant of
         Inr (Some data) \<Rightarrow> and_then (map_err (Serialization ''deserialize tenant quota'') (bin_deserialize B data)) (\<lambda>q.
           Inr (Some q))
       | _ \<Rightarrow> Inr None))"

text \<open>Rows that cannot be read and values that do not decode are skipped.\<close>

definition get_all_quotas :: "('db, 'tx) redb \<Rightarrow> 'q bincode \<Rightarrow> 'db \<Rightarrow> RaftError + 'q list" where
  "get_all_quotas R B db = and_then (db_try (begin_read R db)) (\<lambda>tx.
     case open_table R tx TENANT_QUOTA_TABLE of
       Inl _ \<Rightarrow> Inr []
     | Inr tx \<Rightarrow> and_then (db_try (t_range (opsS R) tx TENANT_QUOTA_TABLE (\<lambda>_. True))) (\<lambda>items.
         Inr (map projr (filter is_ok (map (\<lambda>r. bin_deserialize B (snd (projr r))) (filter is_ok items))))))"

definition delete_tenant_quota :: "('db, 'tx) redb \<Rightarrow> string \<Rightarrow> 'db \<Rightarrow> (RaftError + unit) \<times> 'db" where
  "delete_tenant_quota R tenant = redb_write R (\<lambda>tx.
     and_then (db_try (open_table R tx TENANT_QUOTA_TABLE)) (\<lambda>tx.
       db_try (t_remove (opsS R) tx TENANT_QUOTA_TABLE tenant)))"

definition save_node_topology :: "('db, 'tx) redb \<Rightarrow> 't bincode \<Rightarrow> u64 \<Rightarrow> 't \<Rightarrow> 'db \<Rightarrow> (RaftError + unit) \<times> 'db" where
  "save_node_topology R B node_id topology = redb_write R (\<lambda>tx.
     and_then (db_try (open_table R tx NODE_TOPOLOGY_TABLE)) (\<lambda>tx.
     and_then (map_err (Serialization ''serialize node topology'') (bin_serialize B topology)) (\<lambda>serialized.
       db_try (t_insert (opsB R) tx NODE_TOPOLOGY_TABLE (u64_le node_id) serialized))))"

definition get_node_topology :: "('db, 'tx) redb \<Rightarrow> 't bincode \<Rightarrow> u64 \<Rightarrow> 'db \<Rightarrow> RaftError + 't option" where
  "get_node_topology R B node_id db = and_then (db_try (begin_read R db)) (\<lambda>tx.
     case open_table R tx NODE_TOPOLOGY_TABLE of
       Inl _ \<Rightarrow> Inr None
     | Inr tx \<Rightarrow> (case t_get (opsB R) tx NODE_TOPOLOGY_TABLE (u64_le node_id) of
         Inr (Some data) \<Rightarrow> and_then (map_err (Serialization ''deserialize node topology'') (bin_deserialize B data)) (\<lambda>t.
           Inr (Some t))
       | _ \<Rightarrow> Inr None))"

definition init_database_tables :: "('db, 'tx) redb \<Rightarrow> 'db \<Rightarrow> (RaftError + unit) \<times> 'db" where
  "init_database_tables R = redb_write R (\<lambda>tx. for_each (\<lambda>tx t. db_try (open_table R tx t)) tx
     [VM_STATE_TABLE, CLUSTER_STATE_TABLE, RAFT_LOG_TABLE, RAFT_HARD_STATE_TABLE, RAFT_CONF_STATE_TABLE,
      TASK_TABLE, TASK_ASSIGNMENT_TABLE, TASK_RESULT_TABLE, WORKER_TABLE, WORKER_STATUS_TABLE,
      NODE_TOPOLOGY_TABLE, TENANT_QUOTA_TABLE, TENANT_USAGE_TABLE])"

section \<open>What the operations do to the tables\<close>

text \<open>
  \<open>yields view r m\<close>: the step succeeds and leaves a transaction that reads as \<open>m\<close>; \<open>writes\<close> is
  the same for a method and the database.
\<close>

definition yields :: "('tx \<Rightarrow> tables) \<Rightarrow> RaftError + 'tx \<Rightarrow> tables \<Rightarrow> bool" where
  "yields view r m \<longleftrightarrow> (\<exists>tx. r = Inr tx \<and> view tx = m)"

definition writes :: "('db \<Rightarrow> tables) \<Rightarrow> (RaftError + unit) \<times> 'db \<Rightarrow> tables \<Rightarrow> bool" where
  "writes dbv r m \<longleftrightarrow> (\<exists>db'. r = (Inr (), db') \<and> dbv db' = m)"

lemma yields_bind:
  "yields view r m \<Longrightarrow> (\<And>tx. view tx = m \<Longrightarrow> yields view (f tx) m') \<Longrightarrow> yields view (and_then r f) m'"
  by (auto simp: yields_def)

lemma yields_result: "r = Inr a \<Longrightarrow> yields view (f a) m \<Longrightarrow> yields view (and_then r f) m"
  by simp

lemma map_err_ok: "r = Inr a \<Longrightarrow> map_err f r = Inr a"
  by simp

lemma yields_open: "redb_reliable R dbv view \<Longrightarrow> yields view (db_try (open_table R tx t)) (view tx)"
  using reliable_reads(2)[of R dbv view tx t] by (auto simp: yields_def db_try_def)

lemma yields_insert:
  "ops_ok mk view ops \<Longrightarrow> ops_total ops \<Longrightarrow> yields view (db_try (t_insert ops tx t k v)) (put t (mk k) v (view tx))"
  using ops_okD(2)[of mk view ops tx t k v] ops_totalD(2)[of ops tx t k v] by (auto simp: yields_def db_try_def)

lemma yields_insert_at:
  "ops_ok mk view ops \<Longrightarrow> ops_total ops \<Longrightarrow> view tx = m \<Longrightarrow>
   yields view (db_try (t_insert ops tx t k v)) (put t (mk k) v m)"
  by (drule (1) yields_insert) blast

lemma yields_remove:
  "ops_ok mk view ops \<Longrightarrow> ops_total ops \<Longrightarrow> yields view (db_try (t_remove ops tx t k)) (del t (mk k) (view tx))"
  using ops_okD(3)[of mk view ops tx t k] ops_totalD(3)[of ops tx t k] by (auto simp: yields_def db_try_def)

lemma yields_for_each:
  "(\<And>tx x. yields view (f tx x) (g (view tx) x)) \<Longrightarrow> yields view (for_each f tx xs) (foldl g (view tx) xs)"
proof (induction xs arbitrary: tx)
  case Nil
  then show ?case by (simp add: yields_def)
next
  case (Cons x xs)
  obtain tx' where "f tx x = Inr tx'" "view tx' = g (view tx) x"
    using Cons.prems[of tx x] by (auto simp: yields_def)
  with Cons.IH[OF Cons.prems, of tx'] show ?case by simp
qed

lemma redb_write_writes:
  assumes "redb_reliable R dbv view" and "\<And>tx. view tx = dbv db \<Longrightarrow> yields view (body tx) m"
  shows "writes dbv (redb_write R body db) m"
proof -
  have ok: "redb_ok R dbv view" and tot: "redb_total R" using assms(1) by (simp_all add: redb_reliable_def)
  obtain tx where tx: "begin_write R db = Inr tx" "view tx = dbv db"
    using redb_totalD(2)[OF tot] redb_okD(2)[OF ok] by blast
  obtain tx' where tx': "body tx = Inr tx'" "view tx' = m"
    using assms(2)[OF tx(2)] by (auto simp: yields_def)
  obtain db' where "commit R tx' db = (Inr (), db')"
    using redb_totalD(4)[OF tot, of tx' db] by (cases "commit R tx' db") auto
  with tx tx' redb_okD(4)[OF ok this] show ?thesis
    by (simp add: writes_def redb_write_def db_try_def)
qed

lemma writes_then:
  assumes "writes dbv s m" and "\<And>db. dbv db = m \<Longrightarrow> writes dbv (f db) m'"
  shows "writes dbv (then_write s f) m'"
proof -
  obtain db where "s = (Inr (), db)" "dbv db = m" using assms(1) unfolding writes_def by blast
  with assms(2)[of db] show ?thesis by (simp add: then_write_def)
qed

lemma table_items:
  assumes "ops_ok mk view ops" and "ops_total ops"
  obtains rows where "t_range ops tx t (\<lambda>_. True) = Inr (map Inr rows)" and "rows_of mk (view tx) t rows"
proof -
  obtain rows where rows: "t_range ops tx t (\<lambda>_. True) = Inr (map Inr rows)"
    using ops_totalD(4)[OF assms(2)] by blast
  moreover have "rows_of mk (view tx) t rows"
    using ops_okD(4,5)[OF assms(1) rows] by (simp add: rows_of_def)
  ultimately show thesis using that by blast
qed

lemma kept_rows [simp]:
  "map (\<lambda>r. fst (projr r)) (filter is_ok (map Inr rows)) = map fst rows"
  "collect_results (map Inr rows) = Inr rows"
  by (induction rows) simp_all

lemma read_table_rows:
  assumes "redb_reliable R dbv view" and "ops_ok mk view ops" and "ops_total ops"
  shows "\<exists>rows. read_table R ops tx t = Inr rows \<and> rows_of mk (view tx) t rows"
proof -
  obtain tx' where tx': "open_table R tx t = Inr tx'" "view tx' = view tx"
    using reliable_reads(2)[OF assms(1)] by blast
  obtain rows where "t_range ops tx' t (\<lambda>_. True) = Inr (map Inr rows)" "rows_of mk (view tx') t rows"
    using table_items[OF assms(2,3)] by blast
  with tx' show ?thesis by (simp add: read_table_def db_try_def)
qed

lemma restore_table_yields:
  assumes rel: "redb_reliable R dbv view" and ops: "ops_ok mk view ops" "ops_total ops"
  shows "yields view (restore_table R ops t data tx) (load_table mk t data (view tx))"
  unfolding restore_table_def
proof (rule yields_bind[OF yields_open[OF rel]])
  fix tx' assume tx': "view tx' = view tx"
  obtain rows where items: "t_range ops tx' t (\<lambda>_. True) = Inr (map Inr rows)" and rows: "rows_of mk (view tx') t rows"
    using table_items[OF ops] by blast
  have clear: "foldl (\<lambda>m k. del t (mk k) m) (view tx') (map fst rows) = wipe mk t (view tx)"
  proof -
    have "view tx t (mk a) = None" if "a \<notin> set (map fst rows)" for a
      using rows that rows_of_map_of[of mk "view tx" t rows a] by (simp add: tx' map_of_eq_None_iff[symmetric])
    then show ?thesis by (auto simp: foldl_del_rows wipe_def tx' fun_eq_iff)
  qed
  have "yields view (and_then (for_each (\<lambda>tx key. db_try (t_remove ops tx t key)) tx' (map fst rows))
      (\<lambda>tx. for_each (\<lambda>tx (key, v). db_try (t_insert ops tx t key v)) tx data)) (load_table mk t data (view tx))"
  proof (rule yields_bind)
    show "yields view (for_each (\<lambda>tx key. db_try (t_remove ops tx t key)) tx' (map fst rows)) (wipe mk t (view tx))"
      unfolding clear[symmetric] by (rule yields_for_each) (rule yields_remove[OF ops])
    show "yields view (for_each (\<lambda>tx (key, v). db_try (t_insert ops tx t key v)) tx2 data) (load_table mk t data (view tx))"
      if "view tx2 = wipe mk t (view tx)" for tx2
      unfolding load_table_def that[symmetric]
      by (rule yields_for_each) (auto intro: yields_insert[OF ops])
  qed
  then show "yields view (and_then (db_try (t_range ops tx' t (\<lambda>_. True))) (\<lambda>items.
      and_then (for_each (\<lambda>tx key. db_try (t_remove ops tx t key)) tx' (map (\<lambda>r. fst (projr r)) (filter is_ok items)))
        (\<lambda>tx. for_each (\<lambda>tx (key, v). db_try (t_insert ops tx t key v)) tx data))) (load_table mk t data (view tx))"
    by (simp add: items db_try_def comp_def)
qed

text \<open>The effect of each writing method on the tables.\<close>

definition rc_entry_bytes :: "'e raft_codec \<Rightarrow> Entry \<Rightarrow> bytes" where
  "rc_entry_bytes C e = projr (rc_serialize_entry C e)"

lemma rc_serialize:
  assumes "raft_codec_ok C"
  shows "rc_serialize_entry C e = Inr (rc_entry_bytes C e)"
    and "rc_serialize_hard_state C hs = Inr (projr (rc_serialize_hard_state C hs))"
    and "rc_serialize_conf_state C cs = Inr (projr (rc_serialize_conf_state C cs))"
    and "entry_fits e \<Longrightarrow> rc_deserialize_entry C (rc_entry_bytes C e) = Inr e"
    and "rc_deserialize_hard_state C (projr (rc_serialize_hard_state C hs)) = Inr hs"
    and "conf_fits cs \<Longrightarrow> rc_deserialize_conf_state C (projr (rc_serialize_conf_state C cs)) = Inr cs"
proof -
  have formats: "codec (rc_serialize_entry C) (rc_deserialize_entry C) entry_fits"
    "codec (rc_serialize_hard_state C) (rc_deserialize_hard_state C) (\<lambda>_. True)"
    "codec (rc_serialize_conf_state C) (rc_deserialize_conf_state C) conf_fits"
    using assms by (simp_all add: raft_codec_ok_def)
  show "rc_serialize_entry C e = Inr (rc_entry_bytes C e)"
    "rc_serialize_hard_state C hs = Inr (projr (rc_serialize_hard_state C hs))"
    "rc_serialize_conf_state C cs = Inr (projr (rc_serialize_conf_state C cs))"
    using codec.enc_total[OF formats(1), of e] codec.enc_total[OF formats(2), of hs]
      codec.enc_total[OF formats(3), of cs] by (auto simp: rc_entry_bytes_def)
  show "entry_fits e \<Longrightarrow> rc_deserialize_entry C (rc_entry_bytes C e) = Inr e"
    unfolding rc_entry_bytes_def by (rule codec.stored_back[OF formats(1)])
  show "rc_deserialize_hard_state C (projr (rc_serialize_hard_state C hs)) = Inr hs"
    by (rule codec.stored_back[OF formats(2)]) simp
  show "conf_fits cs \<Longrightarrow> rc_deserialize_conf_state C (projr (rc_serialize_conf_state C cs)) = Inr cs"
    by (rule codec.stored_back[OF formats(3)])
qed

definition rc_put_entry :: "'e raft_codec \<Rightarrow> tables \<Rightarrow> Entry \<Rightarrow> tables" where
  "rc_put_entry C m e = put RAFT_LOG_TABLE (K64 (entry_index e)) (rc_entry_bytes C e) m"

lemma redb_append_writes:
  assumes rel: "redb_reliable R dbv view" and "raft_codec_ok C"
  shows "writes dbv (redb_append R C es db) (foldl (rc_put_entry C) (dbv db) es)"
  unfolding redb_append_def
proof (rule redb_write_writes[OF rel], rule yields_bind[OF yields_open[OF rel]])
  fix tx tx' assume "view tx = dbv db" "view tx' = view tx"
  then have view: "view tx' = dbv db" by simp
  show "yields view (for_each (\<lambda>tx entry. and_then (map_err (rc_into C) (rc_serialize_entry C entry)) (\<lambda>data.
      db_try (t_insert (ops64 R) tx RAFT_LOG_TABLE (entry_index entry) data))) tx' es) (foldl (rc_put_entry C) (dbv db) es)"
    unfolding view[symmetric]
    by (rule yields_for_each)
      (simp add: rc_serialize(1)[OF assms(2)] rc_put_entry_def yields_insert[OF reliable_opsD(1,4)[OF rel]])
qed

lemma redb_save_state_writes:
  assumes rel: "redb_reliable R dbv view" and "raft_codec_ok C"
  shows "writes dbv (redb_save_hard_state R C hs db)
      (put RAFT_HARD_STATE_TABLE (KS ''hard_state'') (projr (rc_serialize_hard_state C hs)) (dbv db))"
    and "writes dbv (redb_save_conf_state R C cs db)
      (put RAFT_CONF_STATE_TABLE (KS ''conf_state'') (projr (rc_serialize_conf_state C cs)) (dbv db))"
  unfolding redb_save_hard_state_def redb_save_conf_state_def
  by (auto intro!: yields_insert_at[OF reliable_opsD(2,5)[OF rel]] redb_write_writes[OF rel] yields_bind[OF yields_open[OF rel]]
      yields_result[OF rc_serialize(2)[OF assms(2), THEN map_err_ok]]
      yields_result[OF rc_serialize(3)[OF assms(2), THEN map_err_ok]])

lemma compact_log_before_writes:
  assumes rel: "redb_reliable R dbv view"
  shows "writes dbv (compact_log_before R i db) (drop_log (\<lambda>k. k < i) (dbv db))"
proof (cases "i = 0")
  case True
  then have "drop_log (\<lambda>k. k < i) (dbv db) = dbv db"
    by (auto simp: drop_log_def fun_eq_iff split: key.split)
  with True show ?thesis by (simp add: compact_log_before_def writes_def)
next
  case False
  note ops = reliable_opsD(1,4)[OF rel]
  show ?thesis
    unfolding compact_log_before_def if_not_P[OF False]
  proof (rule redb_write_writes[OF rel], rule yields_bind[OF yields_open[OF rel]])
    fix tx tx' assume "view tx = dbv db" "view tx' = view tx"
    then have view: "view tx' = dbv db" by simp
    obtain rows where items: "t_range (ops64 R) tx' RAFT_LOG_TABLE (\<lambda>_. True) = Inr (map Inr rows)"
      and rows: "rows_of K64 (view tx') RAFT_LOG_TABLE rows"
      using table_items[OF ops] by blast
    let ?keys = "filter (\<lambda>key. key < i) (map fst rows)"
    have "dbv db RAFT_LOG_TABLE (K64 a) = None" if "a \<notin> set (map fst rows)" for a
      using rows that rows_of_map_of[of K64 "dbv db" RAFT_LOG_TABLE rows a]
      by (simp add: view map_of_eq_None_iff[symmetric])
    then have "foldl (\<lambda>m k. del RAFT_LOG_TABLE (K64 k) m) (view tx') ?keys = drop_log (\<lambda>k. k < i) (dbv db)"
      by (auto simp: foldl_del_rows drop_log_def view fun_eq_iff split: key.split)
    moreover have "yields view (for_each (\<lambda>tx key. db_try (t_remove (ops64 R) tx RAFT_LOG_TABLE key)) tx' ?keys)
        (foldl (\<lambda>m k. del RAFT_LOG_TABLE (K64 k) m) (view tx') ?keys)"
      by (rule yields_for_each) (rule yields_remove[OF ops])
    ultimately show "yields view (and_then (db_try (t_range (ops64 R) tx' RAFT_LOG_TABLE (\<lambda>_. True))) (\<lambda>items.
        for_each (\<lambda>tx key. db_try (t_remove (ops64 R) tx RAFT_LOG_TABLE key)) tx'
          (filter (\<lambda>key. key < i) (map (\<lambda>r. fst (projr r)) (filter is_ok items))))) (drop_log (\<lambda>k. k < i) (dbv db))"
      by (simp add: items db_try_def comp_def)
  qed
qed

text \<open>The tables after a snapshot was restored: each of the ten is replaced.\<close>

definition load_all :: "SnapshotData \<Rightarrow> tables \<Rightarrow> tables" where
  "load_all sd m =
     load_table KS VM_IP_MAPPING_TABLE (vm_ip_mappings sd) (load_table KS IP_ALLOCATION_TABLE (ip_allocations sd)
     (load_table K64 IP_POOL_TABLE (ip_pools sd) (load_table KB WORKER_STATUS_TABLE (worker_status sd)
     (load_table KB WORKER_TABLE (sd_workers sd) (load_table KS TASK_RESULT_TABLE (task_results sd)
     (load_table KS TASK_ASSIGNMENT_TABLE (task_assignments sd) (load_table KS TASK_TABLE (sd_tasks sd)
     (load_table KS CLUSTER_STATE_TABLE (cluster_state sd) (load_table KS VM_STATE_TABLE (vm_states sd) m)))))))))"

lemma restore_txn_yields:
  assumes rel: "redb_reliable R dbv view"
  shows "yields view (restore_txn R sd tx) (load_all sd (view tx))"
proof -
  note steps = restore_table_yields[OF rel reliable_opsD(2,5)[OF rel]]
    restore_table_yields[OF rel reliable_opsD(3,6)[OF rel]] restore_table_yields[OF rel reliable_opsD(1,4)[OF rel]]
  have step: "yields view (and_then (restore_table R ops t data tx) f) m'"
    if "yields view (restore_table R ops t data tx) (load_table mk t data (view tx))"
      and "\<And>tx'. view tx' = load_table mk t data (view tx) \<Longrightarrow> yields view (f tx') m'"
    for ops :: "('b, 'k) table_ops" and mk t data tx f m'
    using that by (rule yields_bind)
  show ?thesis
    unfolding restore_txn_def load_all_def
    by (rule step[OF steps(1)], rule step[OF steps(1)], rule step[OF steps(1)], rule step[OF steps(1)],
        rule step[OF steps(1)], rule step[OF steps(2)], rule step[OF steps(2)], rule step[OF steps(3)],
        rule step[OF steps(1)]) (metis steps(1))
qed

text \<open>The rows that a snapshot of tables \<open>m\<close> carries.\<close>

definition snapshot_of :: "tables \<Rightarrow> SnapshotData \<Rightarrow> bool" where
  "snapshot_of m sd \<longleftrightarrow>
     rows_of KS m VM_STATE_TABLE (vm_states sd) \<and> rows_of KS m CLUSTER_STATE_TABLE (cluster_state sd)
   \<and> rows_of KS m TASK_TABLE (sd_tasks sd) \<and> rows_of KS m TASK_ASSIGNMENT_TABLE (task_assignments sd)
   \<and> rows_of KS m TASK_RESULT_TABLE (task_results sd) \<and> rows_of KB m WORKER_TABLE (sd_workers sd)
   \<and> rows_of KB m WORKER_STATUS_TABLE (worker_status sd) \<and> rows_of K64 m IP_POOL_TABLE (ip_pools sd)
   \<and> rows_of KS m IP_ALLOCATION_TABLE (ip_allocations sd) \<and> rows_of KS m VM_IP_MAPPING_TABLE (vm_ip_mappings sd)"

lemma create_snapshot_data_rows:
  assumes rel: "redb_reliable R dbv view"
  shows "\<exists>sd. create_snapshot_data R db = Inr sd \<and> snapshot_of (dbv db) sd"
proof -
  obtain tx where tx: "begin_read R db = Inr tx" "view tx = dbv db"
    using reliable_reads(1)[OF rel] by blast
  note S = read_table_rows[OF rel reliable_opsD(2,5)[OF rel], of tx]
    and B = read_table_rows[OF rel reliable_opsD(3,6)[OF rel], of tx]
    and U = read_table_rows[OF rel reliable_opsD(1,4)[OF rel], of tx]
  from S[of VM_STATE_TABLE] S[of CLUSTER_STATE_TABLE] S[of TASK_TABLE] S[of TASK_ASSIGNMENT_TABLE]
    S[of TASK_RESULT_TABLE] B[of WORKER_TABLE] B[of WORKER_STATUS_TABLE] U[of IP_POOL_TABLE]
    S[of IP_ALLOCATION_TABLE] S[of VM_IP_MAPPING_TABLE]
  show ?thesis
    by (elim exE conjE) (simp add: create_snapshot_data_def db_try_def tx snapshot_of_def)
qed

definition state_tables :: "string list" where
  "state_tables = [VM_STATE_TABLE, CLUSTER_STATE_TABLE, TASK_TABLE, TASK_ASSIGNMENT_TABLE, TASK_RESULT_TABLE,
     WORKER_TABLE, WORKER_STATUS_TABLE, IP_POOL_TABLE, IP_ALLOCATION_TABLE, VM_IP_MAPPING_TABLE]"

text \<open>The keys a table is declared with.\<close>

definition table_keys :: "string \<Rightarrow> key set" where
  "table_keys t = (if t = WORKER_TABLE \<or> t = WORKER_STATUS_TABLE then range KB
     else if t = IP_POOL_TABLE then range K64 else range KS)"

lemma load_table_rows:
  assumes "inj_on mk UNIV" and "rows_of mk m t data"
  shows "load_table mk t data m' t (mk a) = m t (mk a)"
proof -
  have "distinct (map fst data)" using assms(2) by (simp add: rows_of_def strict_sorted_iff)
  with assms show ?thesis by (simp add: load_table_simps rows_of_map_of)
qed

lemma load_all_rows:
  assumes "snapshot_of m sd" and "t \<in> set state_tables" and "k \<in> table_keys t"
  shows "load_all sd m' t k = m t k"
proof -
  note rows = assms(1)[unfolded snapshot_of_def]
  note load = load_table_rows[OF inj_keys(1)] load_table_rows[OF inj_keys(2)] load_table_rows[OF inj_keys(3)]
  from assms(2) consider "t = VM_STATE_TABLE" | "t = CLUSTER_STATE_TABLE" | "t = TASK_TABLE"
    | "t = TASK_ASSIGNMENT_TABLE" | "t = TASK_RESULT_TABLE" | "t = WORKER_TABLE" | "t = WORKER_STATUS_TABLE"
    | "t = IP_POOL_TABLE" | "t = IP_ALLOCATION_TABLE" | "t = VM_IP_MAPPING_TABLE"
    unfolding state_tables_def by auto
  then show ?thesis
    using assms(3) rows by cases
      (auto simp: load_all_def table_keys_def redb_table_names load_table_simps load)
qed

lemma load_all_other: "t \<notin> set state_tables \<Longrightarrow> load_all sd m t = m t"
  by (simp add: load_all_def state_tables_def load_table_simps)

lemma restore_from_snapshot_writes:
  assumes "redb_reliable R dbv view" and "bin_deserialize B bs = Inr sd"
  shows "writes dbv (restore_from_snapshot R B bs db) (load_all sd (dbv db))"
proof -
  have "writes dbv (redb_write R (restore_txn R sd) db) (load_all sd (dbv db))"
  proof (rule redb_write_writes[OF assms(1)])
    show "yields view (restore_txn R sd tx) (load_all sd (dbv db))" if "view tx = dbv db" for tx
      using restore_txn_yields[OF assms(1), of sd tx] that by simp
  qed
  then show ?thesis by (simp add: restore_from_snapshot_def assms(2))
qed

text \<open>
  C20: a snapshot carries the state machine completely. Restoring on one node what
  \<open>create_snapshot_data\<close> read on another makes the ten state tables equal, whatever the
  target held, and leaves every other table, the log included, alone.
\<close>

theorem snapshot_transfer:
  assumes "redb_reliable R dbv view" and "bincode_ok B"
  shows "\<exists>sd bs db2'. create_snapshot_data R db1 = Inr sd \<and> bin_serialize B sd = Inr bs
    \<and> restore_from_snapshot R B bs db2 = (Inr (), db2')
    \<and> (\<forall>t \<in> set state_tables. \<forall>k \<in> table_keys t. dbv db2' t k = dbv db1 t k)
    \<and> (\<forall>t. t \<notin> set state_tables \<longrightarrow> dbv db2' t = dbv db2 t)"
proof -
  obtain sd where sd: "create_snapshot_data R db1 = Inr sd" "snapshot_of (dbv db1) sd"
    using create_snapshot_data_rows[OF assms(1)] by blast
  obtain bs where bs: "bin_serialize B sd = Inr bs" "bin_deserialize B bs = Inr sd"
    using codec.enc_total[OF assms(2)[unfolded bincode_ok_def]] codec.dec_enc[OF assms(2)[unfolded bincode_ok_def]] by blast
  obtain db2' where "restore_from_snapshot R B bs db2 = (Inr (), db2')" "dbv db2' = load_all sd (dbv db2)"
    using restore_from_snapshot_writes[OF assms(1) bs(2)] by (auto simp: writes_def)
  with sd bs show ?thesis
    by (intro exI conjI) (auto simp: load_all_rows load_all_other)
qed

section \<open>An instance of bincode for the snapshot data\<close>

definition put_data :: "SnapshotData \<Rightarrow> bytes" where
  "put_data sd = put_rows string_bytes (vm_states sd) @ put_rows string_bytes (cluster_state sd)
     @ put_rows string_bytes (sd_tasks sd) @ put_rows string_bytes (task_assignments sd)
     @ put_rows string_bytes (task_results sd) @ put_rows id (sd_workers sd) @ put_rows id (worker_status sd)
     @ put_rows u64_le (ip_pools sd) @ put_rows string_bytes (ip_allocations sd)
     @ put_rows string_bytes (vm_ip_mappings sd)"

definition get_data :: "bytes \<Rightarrow> SnapshotData" where
  "get_data bs =
    (case get_rows bytes_string bs of (r1, bs) \<Rightarrow> case get_rows bytes_string bs of (r2, bs) \<Rightarrow>
     case get_rows bytes_string bs of (r3, bs) \<Rightarrow> case get_rows bytes_string bs of (r4, bs) \<Rightarrow>
     case get_rows bytes_string bs of (r5, bs) \<Rightarrow> case get_rows id bs of (r6, bs) \<Rightarrow>
     case get_rows id bs of (r7, bs) \<Rightarrow> case get_rows u64_from_le bs of (r8, bs) \<Rightarrow>
     case get_rows bytes_string bs of (r9, bs) \<Rightarrow> case get_rows bytes_string bs of (r10, bs) \<Rightarrow>
       \<lparr>vm_states = r1, cluster_state = r2, sd_tasks = r3, task_assignments = r4, task_results = r5,
         sd_workers = r6, worker_status = r7, ip_pools = r8, ip_allocations = r9, vm_ip_mappings = r10\<rparr>)"

definition data_wire :: "SnapshotData bincode" where
  "data_wire = \<lparr>bin_serialize = (\<lambda>sd. Inr (put_data sd)), bin_deserialize = (\<lambda>bs. Inr (get_data bs))\<rparr>"

lemma id_comp_id: "id (id x) = x"
  by simp

lemma get_data_put: "get_data (put_data sd) = sd"
proof -
  note rows = get_rows_put[of bytes_string string_bytes, OF bytes_string_bytes]
    get_rows_put[of u64_from_le u64_le, OF u64_from_le_le] get_rows_put[of id id, OF id_comp_id]
  have "get_rows bytes_string (put_rows string_bytes (vm_ip_mappings sd)) = (vm_ip_mappings sd, [])"
    using rows(1)[of "vm_ip_mappings sd" "[]"] by simp
  with rows show ?thesis by (simp add: get_data_def put_data_def)
qed

lemma data_wire_ok: "bincode_ok data_wire"
  unfolding bincode_ok_def by unfold_locales (auto simp: data_wire_def get_data_put)

theorem snapshot_transfer_witness:
  "\<exists>sd bs db2'. create_snapshot_data mem_redb sample_log = Inr sd \<and> bin_serialize data_wire sd = Inr bs
    \<and> restore_from_snapshot mem_redb data_wire bs mem_empty = (Inr (), db2')
    \<and> (\<forall>t \<in> set state_tables. \<forall>k \<in> table_keys t. mem_view db2' t k = mem_view sample_log t k)
    \<and> (\<forall>t. t \<notin> set state_tables \<longrightarrow> mem_view db2' t = mem_view mem_empty t)"
  by (rule snapshot_transfer [OF mem_redb_reliable data_wire_ok])

section \<open>What the raft trait reads\<close>

lemma redb_index_reliable:
  assumes rel: "redb_reliable R dbv view"
  shows "redb_first_index R db = Inr (if log_keys (dbv db) = {} then 1 else Min (log_keys (dbv db)))"
    and "redb_last_index R db = Inr (if log_keys (dbv db) = {} then 0 else Max (log_keys (dbv db)))"
proof -
  obtain tx where tx: "begin_read R db = Inr tx" "view tx = dbv db"
    using reliable_reads(1)[OF rel] by blast
  obtain tx' where tx': "open_table R tx RAFT_LOG_TABLE = Inr tx'" "view tx' = view tx"
    using reliable_reads(2)[OF rel] by blast
  obtain items where items: "t_range (ops64 R) tx' RAFT_LOG_TABLE (\<lambda>_. True) = Inr (map Inr items)"
    and keys: "items = [] \<longleftrightarrow> log_keys (view tx') = {}"
      "items \<noteq> [] \<Longrightarrow> fst (hd items) = Min (log_keys (view tx'))"
      "items \<noteq> [] \<Longrightarrow> fst (last items) = Max (log_keys (view tx'))"
    by (blast intro: log_range_reliable[OF rel, of tx'])
  show "redb_first_index R db = Inr (if log_keys (dbv db) = {} then 1 else Min (log_keys (dbv db)))"
    using tx tx' items keys by (cases items) (auto simp: redb_first_index_def other_db_def split: prod.split)
  show "redb_last_index R db = Inr (if log_keys (dbv db) = {} then 0 else Max (log_keys (dbv db)))"
    using tx tx' items keys
    by (cases items rule: rev_cases) (auto simp: redb_last_index_def other_db_def rev_map split: prod.split)
qed

lemma redb_term_reliable:
  assumes rel: "redb_reliable R dbv view"
  shows "redb_term R C i db = (case dbv db RAFT_LOG_TABLE (K64 i) of None \<Rightarrow> Inr 0
    | Some data \<Rightarrow> and_then (map_err (OtherDb \<circ> rc_text C) (rc_deserialize_entry C data)) (\<lambda>e. Inr (entry_term e)))"
proof -
  obtain tx where tx: "begin_read R db = Inr tx" "view tx = dbv db"
    using reliable_reads(1)[OF rel] by blast
  obtain tx' where tx': "open_table R tx RAFT_LOG_TABLE = Inr tx'" "view tx' = view tx"
    using reliable_reads(2)[OF rel] by blast
  from tx tx' show ?thesis
    by (simp add: redb_term_def other_db_def reliable_reads(3)[OF rel] split: option.split)
qed

lemma load_or_default_reliable:
  assumes rel: "redb_reliable R dbv view"
  shows "load_or_default R tx t k dec dflt = (case view tx t (KS k) of None \<Rightarrow> dflt
    | Some data \<Rightarrow> (case dec data of Inr a \<Rightarrow> a | Inl _ \<Rightarrow> dflt))"
proof -
  obtain tx' where "open_table R tx t = Inr tx'" "view tx' = view tx"
    using reliable_reads(2)[OF rel] by blast
  then show ?thesis
    by (simp add: load_or_default_def reliable_reads(4)[OF rel] split: option.split)
qed

lemma redb_initial_state_reliable:
  assumes rel: "redb_reliable R dbv view"
  shows "redb_initial_state R C db = Inr (
    case dbv db RAFT_HARD_STATE_TABLE (KS ''hard_state'') of None \<Rightarrow> default_hard_state
      | Some data \<Rightarrow> (case rc_deserialize_hard_state C data of Inr a \<Rightarrow> a | Inl _ \<Rightarrow> default_hard_state),
    case dbv db RAFT_CONF_STATE_TABLE (KS ''conf_state'') of None \<Rightarrow> default_conf_state
      | Some data \<Rightarrow> (case rc_deserialize_conf_state C data of Inr a \<Rightarrow> a | Inl _ \<Rightarrow> default_conf_state))"
proof -
  obtain tx where "begin_read R db = Inr tx" "view tx = dbv db"
    using reliable_reads(1)[OF rel] by blast
  then show ?thesis
    by (simp add: redb_initial_state_def other_db_def load_or_default_reliable[OF rel])
qed

text \<open>\<open>held_log C m log\<close>: the log table of \<open>m\<close> holds exactly the entries of \<open>log\<close>.\<close>

definition held_log :: "'e raft_codec \<Rightarrow> tables \<Rightarrow> (u64 \<rightharpoonup> Entry) \<Rightarrow> bool" where
  "held_log C m log \<longleftrightarrow> (\<forall>i. m RAFT_LOG_TABLE (K64 i) = map_option (rc_entry_bytes C) (log i))
     \<and> (\<forall>i e. log i = Some e \<longrightarrow> entry_fits e)"

lemma redb_term_held:
  assumes "redb_reliable R dbv view" and "raft_codec_ok C" and "held_log C (dbv db) log"
  shows "redb_term R C i db = Inr (case log i of None \<Rightarrow> 0 | Some e \<Rightarrow> entry_term e)"
  using assms(3) redb_term_reliable[OF assms(1), of C i db] rc_serialize(4)[OF assms(2)]
  by (cases "log i") (auto simp: held_log_def)

lemma redb_entries_loop_held:
  assumes "redb_reliable R dbv view" and "raft_codec_ok C" and "held_log C (view tx) log"
  shows "redb_entries_loop R C tx None is used = Inr (List.map_filter log is)"
proof (induction "is" arbitrary: used)
  case Nil
  then show ?case by (simp add: map_filter_simps)
next
  case (Cons i "is")
  show ?case
  proof (cases "log i")
    case None
    with Cons assms(3) show ?thesis
      by (simp add: held_log_def reliable_reads(3)[OF assms(1)] map_filter_simps)
  next
    case (Some e)
    with Cons assms(3) rc_serialize(4)[OF assms(2), of e] show ?thesis
      by (simp add: held_log_def reliable_reads(3)[OF assms(1)] map_filter_simps)
  qed
qed

text \<open>
  Unlike the simple storage, this one skips holes: a read without a size limit returns
  the entries the range holds with nothing in place of the missing ones, and the term of an
  index that is not in the log is reported as 0 instead of as unavailable.
\<close>

theorem redb_entries_skip_holes:
  assumes "redb_reliable R dbv view" and "raft_codec_ok C" and "held_log C (dbv db) log"
  shows "redb_entries R C low high None db = Inr (List.map_filter log (u64_range low high))
    \<and> redb_term R C i db = Inr (case log i of None \<Rightarrow> 0 | Some e \<Rightarrow> entry_term e)"
proof -
  obtain tx where tx: "begin_read R db = Inr tx" "view tx = dbv db"
    using reliable_reads(1)[OF assms(1)] by blast
  obtain tx' where "open_table R tx RAFT_LOG_TABLE = Inr tx'" "view tx' = view tx"
    using reliable_reads(2)[OF assms(1)] by blast
  with tx assms(3) redb_entries_loop_held[OF assms(1,2), of tx' log] redb_term_held[OF assms]
  show ?thesis by (simp add: redb_entries_def other_db_def)
qed

definition gap_log :: "u64 \<rightharpoonup> Entry" where
  "gap_log = [1 \<mapsto> sample_entry 1 [], 4 \<mapsto> sample_entry 4 [7]]"

lemma gap_log_held:
  "\<exists>db. redb_append mem_redb storage_codec [sample_entry 1 [], sample_entry 4 [7]] mem_empty = (Inr (), db)
     \<and> held_log storage_codec (mem_view db) gap_log"
proof -
  obtain db where db: "redb_append mem_redb storage_codec [sample_entry 1 [], sample_entry 4 [7]] mem_empty = (Inr (), db)"
      "mem_view db = foldl (rc_put_entry storage_codec) (\<lambda>_ _. None) [sample_entry 1 [], sample_entry 4 [7]]"
    using redb_append_writes[OF mem_redb_reliable storage_codec_ok, of "[sample_entry 1 [], sample_entry 4 [7]]" mem_empty]
    unfolding writes_def mem_view_empty by blast
  then have "held_log storage_codec (mem_view db) gap_log"
    by (simp add: held_log_def gap_log_def rc_put_entry_def)
  with db(1) show ?thesis by blast
qed

theorem redb_entries_skip_holes_witness:
  "\<exists>db. redb_entries mem_redb storage_codec 1 5 None db = Inr [sample_entry 1 [], sample_entry 4 [7]]
    \<and> redb_term mem_redb storage_codec 2 db = Inr 0"
proof -
  obtain db where held: "held_log storage_codec (mem_view db) gap_log" using gap_log_held by blast
  have "u64_range 1 5 = [1, 2, 3, 4]" by (simp add: u64_range_def upt_rec)
  then have "List.map_filter gap_log (u64_range 1 5) = [sample_entry 1 [], sample_entry 4 [7]]"
    by (simp add: gap_log_def map_filter_simps)
  moreover have "gap_log 2 = None" by (simp add: gap_log_def)
  ultimately show ?thesis
    using redb_entries_skip_holes [OF mem_redb_reliable storage_codec_ok held, of 1 5 2] by auto
qed

lemma redb_tables_distinct:
  "RAFT_LOG_TABLE \<noteq> RAFT_HARD_STATE_TABLE" "RAFT_LOG_TABLE \<noteq> RAFT_CONF_STATE_TABLE"
  "RAFT_HARD_STATE_TABLE \<noteq> RAFT_CONF_STATE_TABLE" "RAFT_LOG_TABLE \<notin> set state_tables"
  "RAFT_HARD_STATE_TABLE \<notin> set state_tables" "RAFT_CONF_STATE_TABLE \<notin> set state_tables"
  by (simp_all add: redb_table_names state_tables_def)

lemma log_keys_cong: "m RAFT_LOG_TABLE = m' RAFT_LOG_TABLE \<Longrightarrow> log_keys m = log_keys m'"
  by (simp add: log_keys_def)

text \<open>What applying a snapshot does to the tables.\<close>

lemma redb_apply_snapshot_writes:
  assumes rel: "redb_reliable R dbv view" and codec: "raft_codec_ok C"
    and data: "snap_data s \<noteq> [] \<Longrightarrow> bin_deserialize B (snap_data s) = Inr sd"
  shows "writes dbv (redb_apply_snapshot R C B s db)
    (drop_log (\<lambda>k. k < sm_index (get_metadata s)) ((if snap_data s \<noteq> [] then load_all sd else id)
      (put RAFT_HARD_STATE_TABLE (KS ''hard_state'') (projr (rc_serialize_hard_state C
          (default_hard_state\<lparr>hs_term := sm_term (get_metadata s), hs_commit := sm_index (get_metadata s)\<rparr>)))
      (put RAFT_CONF_STATE_TABLE (KS ''conf_state'') (projr (rc_serialize_conf_state C
          (get_conf_state (get_metadata s)))) (dbv db)))))"
  unfolding redb_apply_snapshot_def Let_def
proof (rule writes_then[OF redb_save_state_writes(2)[OF rel codec]])
  fix db1 assume db1: "dbv db1 = put RAFT_CONF_STATE_TABLE (KS ''conf_state'')
      (projr (rc_serialize_conf_state C (get_conf_state (get_metadata s)))) (dbv db)"
  show "writes dbv (then_write (redb_save_hard_state R C
      (default_hard_state\<lparr>hs_term := sm_term (get_metadata s), hs_commit := sm_index (get_metadata s)\<rparr>) db1) (\<lambda>db.
      then_write (if snap_data s \<noteq> [] then restore_from_snapshot R B (snap_data s) db else (Inr (), db))
        (compact_log_before R (sm_index (get_metadata s)))))
    (drop_log (\<lambda>k. k < sm_index (get_metadata s)) ((if snap_data s \<noteq> [] then load_all sd else id)
      (put RAFT_HARD_STATE_TABLE (KS ''hard_state'') (projr (rc_serialize_hard_state C
          (default_hard_state\<lparr>hs_term := sm_term (get_metadata s), hs_commit := sm_index (get_metadata s)\<rparr>)))
      (put RAFT_CONF_STATE_TABLE (KS ''conf_state'') (projr (rc_serialize_conf_state C
          (get_conf_state (get_metadata s)))) (dbv db)))))"
    unfolding db1[symmetric]
  proof (rule writes_then[OF redb_save_state_writes(1)[OF rel codec]])
    fix db2 m assume "dbv db2 = m"
    then have db2: "m = dbv db2" by simp
    have "writes dbv (if snap_data s \<noteq> [] then restore_from_snapshot R B (snap_data s) db2 else (Inr (), db2))
        ((if snap_data s \<noteq> [] then load_all sd else id) (dbv db2))"
      using restore_from_snapshot_writes[OF rel data] by (simp add: writes_def)
    then show "writes dbv (then_write (if snap_data s \<noteq> [] then restore_from_snapshot R B (snap_data s) db2 else (Inr (), db2))
          (compact_log_before R (sm_index (get_metadata s))))
        (drop_log (\<lambda>k. k < sm_index (get_metadata s)) ((if snap_data s \<noteq> [] then load_all sd else id) m))"
      unfolding db2 by (rule writes_then) (metis compact_log_before_writes[OF rel])
  qed
qed

text \<open>
  C38: a follower that installs a snapshot ahead of its log restarts in a state it cannot run
  from: the hard state says that everything up to the snapshot's index is committed and the
  vote is forgotten, but nothing records the snapshot itself. The log reports \<open>first_index\<close> 1
  and \<open>last_index\<close> 0, below the commit index, and the term at the snapshot's index is 0.
\<close>

theorem redb_snapshot_not_recorded:
  assumes "redb_reliable R dbv view" and "raft_codec_ok C"
    and "snap_data s \<noteq> [] \<Longrightarrow> bin_deserialize B (snap_data s) = Inr sd"
    and "snap_metadata s = Some meta" and "sm_conf_state meta = Some cs" and "conf_fits cs"
    and "\<And>i. i \<in> log_keys (dbv db) \<Longrightarrow> i < sm_index meta"
  shows "\<exists>db'. redb_apply_snapshot R C B s db = (Inr (), db')
    \<and> redb_initial_state R C db' = Inr (\<lparr>hs_term = sm_term meta, hs_vote = 0, hs_commit = sm_index meta\<rparr>, cs)
    \<and> redb_first_index R db' = Inr 1 \<and> redb_last_index R db' = Inr 0
    \<and> redb_term R C (sm_index meta) db' = Inr 0"
proof -
  obtain db' where run: "redb_apply_snapshot R C B s db = (Inr (), db')"
    and tables: "dbv db' = drop_log (\<lambda>k. k < sm_index (get_metadata s)) ((if snap_data s \<noteq> [] then load_all sd else id)
      (put RAFT_HARD_STATE_TABLE (KS ''hard_state'') (projr (rc_serialize_hard_state C
          (default_hard_state\<lparr>hs_term := sm_term (get_metadata s), hs_commit := sm_index (get_metadata s)\<rparr>)))
      (put RAFT_CONF_STATE_TABLE (KS ''conf_state'') (projr (rc_serialize_conf_state C
          (get_conf_state (get_metadata s)))) (dbv db))))"
    using redb_apply_snapshot_writes[OF assms(1-3)] unfolding writes_def by blast
  note meta = get_metadata_def get_conf_state_def assms(4,5)
  note other = load_all_other redb_tables_distinct redb_tables_distinct(1-3)[symmetric]
  have log: "dbv db' RAFT_LOG_TABLE (K64 i) = None" for i
    using assms(7)[of i] unfolding tables drop_log_entry
    by (cases "dbv db RAFT_LOG_TABLE (K64 i)") (auto simp: meta other log_keys_def)
  then have "log_keys (dbv db') = {}" by (simp add: log_keys_def)
  moreover have "redb_initial_state R C db' = Inr (\<lparr>hs_term = sm_term meta, hs_vote = 0, hs_commit = sm_index meta\<rparr>, cs)"
    using rc_serialize(5,6)[OF assms(2)] assms(6)
    unfolding redb_initial_state_reliable[OF assms(1)] tables by (simp add: meta other default_hard_state_def)
  ultimately show ?thesis
    using run log by (simp add: redb_index_reliable[OF assms(1)] redb_term_reliable[OF assms(1)])
qed

theorem redb_snapshot_not_recorded_witness:
  "\<exists>db'. redb_apply_snapshot mem_redb storage_codec data_wire (sample_snapshot\<lparr>snap_data := []\<rparr>) mem_empty = (Inr (), db')
    \<and> redb_initial_state mem_redb storage_codec db' = Inr (\<lparr>hs_term = 1, hs_vote = 0, hs_commit = 2\<rparr>,
        the (sm_conf_state (the (snap_metadata sample_snapshot))))
    \<and> redb_first_index mem_redb db' = Inr 1 \<and> redb_last_index mem_redb db' = Inr 0
    \<and> redb_term mem_redb storage_codec 2 db' = Inr 0"
  using redb_snapshot_not_recorded [OF mem_redb_reliable storage_codec_ok,
      of "sample_snapshot\<lparr>snap_data := []\<rparr>" data_wire undefined "the (snap_metadata sample_snapshot)" _ mem_empty]
  by (simp add: sample_snapshot_def conf_fits_def)

lemma load_conf_state_reliable:
  assumes rel: "redb_reliable R dbv view"
  shows "load_conf_state R C db = (case dbv db RAFT_CONF_STATE_TABLE (KS ''conf_state'') of None \<Rightarrow> Inr default_conf_state
    | Some data \<Rightarrow> map_err (Serialization ''deserialize conf state'' \<circ> rc_text C) (rc_deserialize_conf_state C data))"
proof -
  obtain tx where tx: "begin_read R db = Inr tx" "view tx = dbv db"
    using reliable_reads(1)[OF rel] by blast
  obtain tx' where "open_table R tx RAFT_CONF_STATE_TABLE = Inr tx'" "view tx' = view tx"
    using reliable_reads(2)[OF rel] by blast
  with tx show ?thesis
    by (simp add: load_conf_state_def db_try_def reliable_reads(4)[OF rel] split: option.split)
qed

text \<open>
  The snapshot a leader builds names the requested index but carries the term of the last
  entry of its log: asked for an older index, its metadata pairs that index with a term that
  entry need not have, and the data is that of the whole current state.
\<close>

theorem redb_snapshot_metadata:
  assumes "redb_reliable R dbv view" and "raft_codec_ok C" and "bincode_ok B"
    and "held_log C (dbv db) log" and "Max (log_keys (dbv db)) = last_idx" and "log last_idx = Some e" and "0 < last_idx"
    and "dbv db RAFT_CONF_STATE_TABLE (KS ''conf_state'') = Some (projr (rc_serialize_conf_state C cs))" and "conf_fits cs"
  shows "\<exists>data sd. redb_snapshot R C B request db = Inr \<lparr>snap_data = data, snap_metadata = Some
      \<lparr>sm_conf_state = Some cs, sm_index = min request last_idx, sm_term = entry_term e\<rparr>\<rparr>
    \<and> bin_deserialize B data = Inr sd \<and> snapshot_of (dbv db) sd"
proof -
  have "last_idx \<in> log_keys (dbv db)" using assms(4,6) by (simp add: held_log_def log_keys_def)
  then have "redb_last_index R db = Inr last_idx"
    using assms(5) by (auto simp: redb_index_reliable[OF assms(1)])
  moreover have "redb_term R C last_idx db = Inr (entry_term e)"
    by (simp add: redb_term_held[OF assms(1,2,4)] assms(6))
  moreover have "load_conf_state R C db = Inr cs"
    by (simp add: load_conf_state_reliable[OF assms(1)] assms(8) rc_serialize(6)[OF assms(2,9)])
  moreover obtain sd where sd: "create_snapshot_data R db = Inr sd" "snapshot_of (dbv db) sd"
    using create_snapshot_data_rows[OF assms(1)] by blast
  moreover obtain data where "bin_serialize B sd = Inr data" "bin_deserialize B data = Inr sd"
    using codec.enc_total[OF assms(3)[unfolded bincode_ok_def]] codec.dec_enc[OF assms(3)[unfolded bincode_ok_def]] by blast
  ultimately show ?thesis
    using assms(7) by (intro exI[of _ data] exI[of _ sd]) (simp add: redb_snapshot_def other_db_def)
qed

text \<open>
  Initialization. Setting up a single-node cluster takes effect once: it makes the node
  the only voter, and a second call, even with another id, changes nothing. Joining a cluster
  always starts over: term, vote, commit index and voters are gone whatever was stored, so a
  node that already voted in a term may vote in it again.
\<close>

theorem redb_initialization:
  assumes "redb_reliable R dbv view" and "raft_codec_ok C"
    and "dbv db RAFT_CONF_STATE_TABLE (KS ''conf_state'') = None"
  shows "\<exists>db1. initialize_single_node R C a db = (Inr (), db1)
      \<and> load_conf_state R C db1 = Inr (default_conf_state\<lparr>voters := [a]\<rparr>)
      \<and> initialize_single_node R C b db1 = (Inr (), db1)
      \<and> (\<exists>db2. initialize_joining_node R C db1 = (Inr (), db2)
          \<and> redb_initial_state R C db2 = Inr (default_hard_state, default_conf_state))"
proof -
  have stored: "(case open_table R tx RAFT_CONF_STATE_TABLE of
        Inr tx \<Rightarrow> (case t_get (opsS R) tx RAFT_CONF_STATE_TABLE ''conf_state'' of Inr (Some _) \<Rightarrow> True | _ \<Rightarrow> False)
      | Inl _ \<Rightarrow> False) \<longleftrightarrow> view tx RAFT_CONF_STATE_TABLE (KS ''conf_state'') \<noteq> None" for tx
    using reliable_reads(2)[OF assms(1), of tx RAFT_CONF_STATE_TABLE] reliable_reads(4)[OF assms(1)]
    by (auto split: option.split)
  obtain tx where tx: "begin_read R db = Inr tx" "view tx = dbv db"
    using reliable_reads(1)[OF assms(1)] by blast
  obtain db1 where db1: "redb_save_conf_state R C (default_conf_state\<lparr>voters := [a]\<rparr>) db = (Inr (), db1)"
    "dbv db1 = put RAFT_CONF_STATE_TABLE (KS ''conf_state'')
       (projr (rc_serialize_conf_state C (default_conf_state\<lparr>voters := [a]\<rparr>))) (dbv db)"
    using redb_save_state_writes(2)[OF assms(1,2)] unfolding writes_def by blast
  obtain tx1 where tx1: "begin_read R db1 = Inr tx1" "view tx1 = dbv db1"
    using reliable_reads(1)[OF assms(1)] by blast
  have fits: "conf_fits (default_conf_state\<lparr>voters := [a]\<rparr>)" "conf_fits default_conf_state"
    by (simp_all add: conf_fits_def default_conf_state_def)
  have "writes dbv (initialize_joining_node R C db1) (put RAFT_HARD_STATE_TABLE (KS ''hard_state'')
      (projr (rc_serialize_hard_state C \<lparr>hs_term = 0, hs_vote = 0, hs_commit = 0\<rparr>))
      (put RAFT_CONF_STATE_TABLE (KS ''conf_state'') (projr (rc_serialize_conf_state C default_conf_state)) (dbv db1)))"
    unfolding initialize_joining_node_def
    by (rule writes_then[OF redb_save_state_writes(2)[OF assms(1,2)]])
      (metis redb_save_state_writes(1)[OF assms(1,2)])
  then obtain db2 where "initialize_joining_node R C db1 = (Inr (), db2)"
    "redb_initial_state R C db2 = Inr (default_hard_state, default_conf_state)"
    using fits(2) rc_serialize(5,6)[OF assms(2)] redb_tables_distinct(3)
    by (auto simp: writes_def redb_initial_state_reliable[OF assms(1)] default_hard_state_def)
  moreover have "initialize_single_node R C a db = (Inr (), db1)" "initialize_single_node R C b db1 = (Inr (), db1)"
    using assms(3) by (simp_all add: initialize_single_node_def tx tx1 stored db1)
  moreover have "load_conf_state R C db1 = Inr (default_conf_state\<lparr>voters := [a]\<rparr>)"
    by (simp add: load_conf_state_reliable[OF assms(1)] db1(2) rc_serialize(6)[OF assms(2) fits(1)])
  ultimately show ?thesis by blast
qed

theorem redb_initialization_witness:
  "\<exists>db1. initialize_single_node mem_redb storage_codec 7 mem_empty = (Inr (), db1)
    \<and> load_conf_state mem_redb storage_codec db1 = Inr (default_conf_state\<lparr>voters := [7]\<rparr>)
    \<and> initialize_single_node mem_redb storage_codec 8 db1 = (Inr (), db1)"
  using redb_initialization [OF mem_redb_reliable storage_codec_ok, of mem_empty 7 8] by auto

theorem redb_snapshot_metadata_witness:
  "\<exists>db data. redb_snapshot mem_redb storage_codec data_wire 2 db = Inr \<lparr>snap_data = data, snap_metadata = Some
      \<lparr>sm_conf_state = Some default_conf_state, sm_index = 2, sm_term = 1\<rparr>\<rparr>
    \<and> redb_term mem_redb storage_codec 2 db = Inr 0"
proof -
  obtain db0 where held0: "held_log storage_codec (mem_view db0) gap_log" using gap_log_held by blast
  obtain db where db: "mem_view db = put RAFT_CONF_STATE_TABLE (KS ''conf_state'')
      (projr (rc_serialize_conf_state storage_codec default_conf_state)) (mem_view db0)"
    using redb_save_state_writes(2)[OF mem_redb_reliable storage_codec_ok, of default_conf_state db0]
    by (auto simp: writes_def)
  have held: "held_log storage_codec (mem_view db) gap_log"
    using held0 redb_tables_distinct(2) by (simp add: held_log_def db)
  then have "log_keys (mem_view db) = {1, 4}"
    by (auto simp: log_keys_def held_log_def gap_log_def split: if_splits)
  then have max: "Max (log_keys (mem_view db)) = 4" by simp
  have conf: "mem_view db RAFT_CONF_STATE_TABLE (KS ''conf_state'')
      = Some (projr (rc_serialize_conf_state storage_codec default_conf_state))"
    by (simp add: db)
  have log: "gap_log 4 = Some (sample_entry 4 [7])" "gap_log 2 = None" by (simp_all add: gap_log_def)
  have fits: "conf_fits default_conf_state" by (simp add: conf_fits_def default_conf_state_def)
  have "\<exists>data sd. redb_snapshot mem_redb storage_codec data_wire 2 db = Inr \<lparr>snap_data = data, snap_metadata = Some
      \<lparr>sm_conf_state = Some default_conf_state, sm_index = min 2 4, sm_term = entry_term (sample_entry 4 [7])\<rparr>\<rparr>
    \<and> bin_deserialize data_wire data = Inr sd \<and> snapshot_of (mem_view db) sd"
    by (rule redb_snapshot_metadata [where log = gap_log and view = mem_view])
      (simp_all add: mem_redb_reliable storage_codec_ok data_wire_ok held max log conf fits)
  moreover have "redb_term mem_redb storage_codec 2 db = Inr 0"
    using redb_term_held[OF mem_redb_reliable storage_codec_ok held, of 2] by (simp add: log)
  ultimately show ?thesis by auto
qed

section \<open>Quotas\<close>

lemma get_tenant_quota_reliable:
  assumes rel: "redb_reliable R dbv view"
  shows "get_tenant_quota R B t db = (case dbv db TENANT_QUOTA_TABLE (KS t) of None \<Rightarrow> Inr None
    | Some data \<Rightarrow> and_then (map_err (Serialization ''deserialize tenant quota'') (bin_deserialize B data)) (\<lambda>q. Inr (Some q)))"
proof -
  obtain tx where tx: "begin_read R db = Inr tx" "view tx = dbv db"
    using reliable_reads(1)[OF rel] by blast
  obtain tx' where "open_table R tx TENANT_QUOTA_TABLE = Inr tx'" "view tx' = view tx"
    using reliable_reads(2)[OF rel] by blast
  with tx show ?thesis
    by (simp add: get_tenant_quota_def db_try_def reliable_reads(4)[OF rel] split: option.split)
qed

lemma get_all_quotas_reliable:
  assumes rel: "redb_reliable R dbv view"
  obtains rows where "rows_of KS (dbv db) TENANT_QUOTA_TABLE rows"
    and "get_all_quotas R B db = Inr (map projr (filter is_ok (map (bin_deserialize B \<circ> snd) rows)))"
proof -
  obtain tx where tx: "begin_read R db = Inr tx" "view tx = dbv db"
    using reliable_reads(1)[OF rel] by blast
  obtain tx' where tx': "open_table R tx TENANT_QUOTA_TABLE = Inr tx'" "view tx' = view tx"
    using reliable_reads(2)[OF rel] by blast
  obtain rows where rows: "t_range (opsS R) tx' TENANT_QUOTA_TABLE (\<lambda>_. True) = Inr (map Inr rows)"
    "rows_of KS (view tx') TENANT_QUOTA_TABLE rows"
    using table_items[OF reliable_opsD(2,5)[OF rel]] by blast
  moreover have "map (\<lambda>r. bin_deserialize B (snd (projr r))) (filter is_ok (map Inr rows)) = map (bin_deserialize B \<circ> snd) rows"
    by (induction rows) simp_all
  ultimately show thesis
    using that[of rows] tx tx' by (simp add: get_all_quotas_def db_try_def comp_def)
qed

text \<open>
  Tenant quotas: a saved quota is what its tenant reads and is among all quotas, other
  tenants are not affected, and after a delete the tenant has none.
\<close>

theorem tenant_quota_store:
  assumes "redb_reliable R dbv view" and "bincode_ok B"
  shows "\<exists>db1. save_tenant_quota R B tenant_id q db = (Inr (), db1)
    \<and> get_tenant_quota R B (tenant_id q) db1 = Inr (Some q)
    \<and> (\<forall>t. t \<noteq> tenant_id q \<longrightarrow> get_tenant_quota R B t db1 = get_tenant_quota R B t db)
    \<and> (\<exists>qs. get_all_quotas R B db1 = Inr qs \<and> q \<in> set qs)
    \<and> (\<exists>db2. delete_tenant_quota R (tenant_id q) db1 = (Inr (), db2)
        \<and> get_tenant_quota R B (tenant_id q) db2 = Inr None)"
proof -
  obtain data where data: "bin_serialize B q = Inr data" "bin_deserialize B data = Inr q"
    using codec.enc_total[OF assms(2)[unfolded bincode_ok_def]] codec.dec_enc[OF assms(2)[unfolded bincode_ok_def]] by blast
  have "writes dbv (save_tenant_quota R B tenant_id q db) (put TENANT_QUOTA_TABLE (KS (tenant_id q)) data (dbv db))"
    unfolding save_tenant_quota_def
    by (auto simp: data intro!: yields_insert_at[OF reliable_opsD(2,5)[OF assms(1)]] redb_write_writes[OF assms(1)]
        yields_bind[OF yields_open[OF assms(1)]])
  then obtain db1 where db1: "save_tenant_quota R B tenant_id q db = (Inr (), db1)"
    "dbv db1 = put TENANT_QUOTA_TABLE (KS (tenant_id q)) data (dbv db)"
    by (auto simp: writes_def)
  have "writes dbv (delete_tenant_quota R (tenant_id q) db1) (del TENANT_QUOTA_TABLE (KS (tenant_id q)) (dbv db1))"
    unfolding delete_tenant_quota_def
  proof (rule redb_write_writes[OF assms(1)], rule yields_bind[OF yields_open[OF assms(1)]])
    show "yields view (db_try (t_remove (opsS R) tx' TENANT_QUOTA_TABLE (tenant_id q)))
        (del TENANT_QUOTA_TABLE (KS (tenant_id q)) (dbv db1))" if "view tx = dbv db1" "view tx' = view tx" for tx tx'
      using yields_remove[OF reliable_opsD(2,5)[OF assms(1)], of tx'] that by simp
  qed
  then obtain db2 where db2: "delete_tenant_quota R (tenant_id q) db1 = (Inr (), db2)"
    "dbv db2 = del TENANT_QUOTA_TABLE (KS (tenant_id q)) (dbv db1)"
    by (auto simp: writes_def)
  obtain rows where rows: "rows_of KS (dbv db1) TENANT_QUOTA_TABLE rows"
    "get_all_quotas R B db1 = Inr (map projr (filter is_ok (map (bin_deserialize B \<circ> snd) rows)))"
    using get_all_quotas_reliable[OF assms(1)] by blast
  have "(tenant_id q, data) \<in> set rows" using rows(1) by (simp add: rows_of_def db1)
  then have "Inr q \<in> set (filter is_ok (map (bin_deserialize B \<circ> snd) rows))"
    using data(2) by force
  then have "q \<in> set (map projr (filter is_ok (map (bin_deserialize B \<circ> snd) rows)))"
    by (metis image_eqI list.set_map sum.sel(2))
  with rows(2) db1 db2 show ?thesis
    by (auto simp: get_tenant_quota_reliable[OF assms(1)] data)
qed

definition name_wire :: "string bincode" where
  "name_wire = \<lparr>bin_serialize = (\<lambda>s. Inr (string_bytes s)), bin_deserialize = (\<lambda>bs. Inr (bytes_string bs))\<rparr>"

lemma name_wire_ok: "bincode_ok name_wire"
  unfolding bincode_ok_def by unfold_locales (auto simp: name_wire_def bytes_string_bytes)

theorem tenant_quota_store_witness:
  "\<exists>db1. save_tenant_quota mem_redb name_wire id ''acme'' mem_empty = (Inr (), db1)
    \<and> get_tenant_quota mem_redb name_wire ''acme'' db1 = Inr (Some ''acme'')"
  using tenant_quota_store [OF mem_redb_reliable name_wire_ok, of id "''acme''" mem_empty] by auto

end
