(* ===== verification/Steps.thy ===== *)
theory Steps
  imports Prelude
begin

text \<open>
  Transition systems: what the components share that are described by a step relation over
  events. Nothing here models a file by itself.
\<close>

inductive run :: "('s \<Rightarrow> 'ev \<Rightarrow> 's \<Rightarrow> bool) \<Rightarrow> 's \<Rightarrow> 'ev list \<Rightarrow> 's \<Rightarrow> bool" for step where
  run_done: "run step s [] s"
| run_step: "step s e t \<Longrightarrow> run step t es u \<Longrightarrow> run step s (e # es) u"

inductive_cases run_NilE: "run step s [] t"
inductive_cases run_ConsE: "run step s (e # es) t"
inductive_simps run_Nil [simp]: "run step s [] t"
inductive_simps run_Cons: "run step s (e # es) t"

lemma run_append: "run step s es t \<Longrightarrow> run step t es' u \<Longrightarrow> run step s (es @ es') u"
  by (induction rule: run.induct) (auto intro: run.intros)

lemma run_snoc: "run step s es t \<Longrightarrow> step t e u \<Longrightarrow> run step s (es @ [e]) u"
  by (blast intro: run_append run.intros)

definition reachable :: "('s \<Rightarrow> bool) \<Rightarrow> ('s \<Rightarrow> 'ev \<Rightarrow> 's \<Rightarrow> bool) \<Rightarrow> 's \<Rightarrow> bool" where
  "reachable init step s \<longleftrightarrow> (\<exists>s0 es. init s0 \<and> run step s0 es s)"

lemma reachable_init: "init s \<Longrightarrow> reachable init step s"
  unfolding reachable_def by (blast intro: run_done)

lemma reachable_step: "reachable init step s \<Longrightarrow> step s e t \<Longrightarrow> reachable init step t"
  unfolding reachable_def by (blast intro: run_snoc)

text \<open>The contract of an invariant: it holds at the start and every step keeps it.\<close>

locale invariant_of =
  fixes init :: "'s \<Rightarrow> bool" and step :: "'s \<Rightarrow> 'ev \<Rightarrow> 's \<Rightarrow> bool" and inv :: "'s \<Rightarrow> bool"
  assumes base: "init s \<Longrightarrow> inv s"
    and kept: "inv s \<Longrightarrow> step s e t \<Longrightarrow> inv t"
begin

lemma run_keeps: "run step s es t \<Longrightarrow> inv s \<Longrightarrow> inv t"
  by (induction rule: run.induct) (auto intro: kept)

lemma always: "reachable init step s \<Longrightarrow> inv s"
  unfolding reachable_def using base run_keeps by blast

end

end
