(* ===== verification/F64.thy ===== *)
theory F64
  imports Prelude Complex_Main
begin

text \<open>
  The \<open>f64\<close> arithmetic the code uses, on non-negative numbers: a value is the rational it
  denotes, and every operation rounds the exact result to 53 significant bits, ties to even.
  The numbers of the code lie between \<open>2\<^sup>-\<^sup>6\<^sup>4\<close> and \<open>2\<^sup>1\<^sup>2\<^sup>8\<close>, so subnormal numbers, infinities and NaN
  do not arise. Everything computes.
\<close>

type_synonym f64 = rat

fun bit_count :: "nat \<Rightarrow> nat" where
  "bit_count n = (if n = 0 then 0 else Suc (bit_count (n div 2)))"

declare bit_count.simps [simp del]

definition round_even :: "rat \<Rightarrow> int" where
  "round_even x = (let f = \<lfloor>x\<rfloor>; d = x - of_int f in
     if d < 1/2 then f else if 1/2 < d then f + 1 else if even f then f else f + 1)"

definition pow2 :: "int \<Rightarrow> rat" where
  "pow2 e = (if 0 \<le> e then 2 ^ nat e else 1 / 2 ^ nat (- e))"

text \<open>The exponent of the last place of a positive number.\<close>

definition last_place :: "rat \<Rightarrow> int" where
  "last_place x = (if 1 \<le> x then int (bit_count (nat \<lfloor>x\<rfloor>)) - 53
     else - int (bit_count (nat (\<lceil>1 / x\<rceil> - 1))) - 52)"

definition f64_round :: "rat \<Rightarrow> f64" where
  "f64_round x = (if x \<le> 0 then 0 else of_int (round_even (x / pow2 (last_place x))) * pow2 (last_place x))"

definition f64_of_nat :: "nat \<Rightarrow> f64" where
  "f64_of_nat n = f64_round (of_nat n)"

definition f64_add :: "f64 \<Rightarrow> f64 \<Rightarrow> f64" where "f64_add x y = f64_round (x + y)"
definition f64_mul :: "f64 \<Rightarrow> f64 \<Rightarrow> f64" where "f64_mul x y = f64_round (x * y)"
definition f64_div :: "f64 \<Rightarrow> f64 \<Rightarrow> f64" where "f64_div x y = f64_round (x / y)"

text \<open>\<open>x as u64\<close> truncates and saturates.\<close>

definition f64_to_u64 :: "f64 \<Rightarrow> u64" where
  "f64_to_u64 x = (if x \<ge> 2 ^ 64 then - 1 else of_int \<lfloor>x\<rfloor>)"

definition f64_ceil :: "f64 \<Rightarrow> f64" where
  "f64_ceil x = of_int \<lceil>x\<rceil>"

text \<open>
  \<open>Duration::as_secs_f64\<close>, \<open>Duration::from_secs_f64\<close> (to the nearest nanosecond) and
  \<open>Duration::mul_f64\<close>.
\<close>

definition as_secs_f64 :: "duration \<Rightarrow> f64" where
  "as_secs_f64 d = f64_add (f64_of_nat (d div 1000000000))
     (f64_div (f64_of_nat (d mod 1000000000)) 1000000000)"

definition from_secs_f64 :: "f64 \<Rightarrow> duration" where
  "from_secs_f64 x = nat (round_even (x * 1000000000))"

definition mul_f64 :: "duration \<Rightarrow> f64 \<Rightarrow> duration" where
  "mul_f64 d x = from_secs_f64 (f64_mul x (as_secs_f64 d))"

section \<open>Laws\<close>

lemma pow2_pos [simp]: "0 < pow2 e"
  by (simp add: pow2_def)

lemma pow2_nonzero [simp]: "pow2 e \<noteq> 0"
  using pow2_pos[of e] by (metis less_irrefl)

lemma floor_ceiling_fraction [simp]:
  "\<lfloor>numeral a / numeral b :: rat\<rfloor> = numeral a div numeral b" "\<lfloor>1 / numeral b :: rat\<rfloor> = 1 div numeral b"
  "\<lceil>numeral a / numeral b :: rat\<rceil> = - (- numeral a div numeral b)"
  using floor_divide_of_int_eq[where 'a = rat, of "numeral a" "numeral b"]
    floor_divide_of_int_eq[where 'a = rat, of 1 "numeral b"]
    floor_divide_of_int_eq[where 'a = rat, of "- numeral a" "numeral b"]
  by (simp_all add: ceiling_def)

lemma bit_count_numeral [simp]:
  "bit_count 0 = 0" "bit_count (Suc 0) = 1" "bit_count (numeral w) = Suc (bit_count (numeral w div 2))"
  by (simp_all add: bit_count.simps)

lemmas f64_eval = f64_of_nat_def f64_add_def f64_mul_def f64_div_def f64_round_def round_even_def Let_def
  pow2_def last_place_def as_secs_f64_def from_secs_f64_def mul_f64_def

lemma round_even_int [simp]: "round_even (of_int k) = k"
  by (simp add: round_even_def)

lemma round_even_nonneg: "0 \<le> x \<Longrightarrow> 0 \<le> round_even x"
  by (simp add: round_even_def Let_def)

lemma round_even_mono: "x \<le> y \<Longrightarrow> round_even x \<le> round_even y"
proof -
  assume le: "x \<le> y"
  then have fl: "\<lfloor>x\<rfloor> \<le> \<lfloor>y\<rfloor>" by (rule floor_mono)
  show ?thesis
  proof (cases "\<lfloor>x\<rfloor> = \<lfloor>y\<rfloor>")
    case True
    with le show ?thesis by (simp add: round_even_def Let_def)
  next
    case False
    with fl show ?thesis by (simp add: round_even_def Let_def)
  qed
qed

lemma round_even_close: "\<bar>of_int (round_even x) - x\<bar> \<le> 1 / 2"
proof -
  have "of_int \<lfloor>x\<rfloor> \<le> x" "x < of_int \<lfloor>x\<rfloor> + 1" by linarith+
  then show ?thesis by (simp add: round_even_def Let_def)
qed

lemma f64_round_0 [simp]: "f64_round 0 = 0"
  by (simp add: f64_round_def)

lemma f64_round_nonneg [simp]: "0 \<le> f64_round x"
  by (simp add: f64_round_def round_even_nonneg less_imp_le)

text \<open>The error of one operation is at most half a unit in the last place.\<close>

lemma f64_round_error: "0 < x \<Longrightarrow> \<bar>f64_round x - x\<bar> \<le> pow2 (last_place x) / 2"
proof -
  assume pos: "0 < x"
  let ?p = "pow2 (last_place x)"
  have "f64_round x - x = (of_int (round_even (x / ?p)) - x / ?p) * ?p"
    using pos by (simp add: f64_round_def left_diff_distrib)
  then have "\<bar>f64_round x - x\<bar> = \<bar>of_int (round_even (x / ?p)) - x / ?p\<bar> * ?p"
    by (simp add: abs_mult less_imp_le)
  also have "\<dots> \<le> 1 / 2 * ?p"
    using round_even_close[of "x / ?p"] by (intro mult_right_mono) (simp_all add: less_imp_le)
  finally show ?thesis by simp
qed

end
