(* ===== verification/CircuitBreaker.thy ===== *)
theory CircuitBreaker
  imports Steps F64 Errors "HOL-Library.AList"
begin

text \<open>
  \<open>src/src/circuit_breaker.rs\<close>: the circuit breaker and the manager of the breakers of
  several services. A breaker is a record of its shared cells; each method is a function of
  the time it reads (the two readings of \<open>on_failure\<close> are one) and of that record, for a call with no
  other inside the methods. Concurrent calls interleave inside the methods too: each call is a phase
  that advances by one access to a shared cell at a time, and a step relation lets any task advance, fail, or be cancelled
  where it waits. Accesses that nothing comes between amount to the methods.
\<close>

section \<open>The breaker\<close>

datatype CircuitBreakerState = Closed | Open | HalfOpen

record CircuitBreakerConfig =
  failure_threshold :: u32
  cb_timeout :: duration
  success_threshold :: u32
  half_open_max_requests :: u32
  failure_rate_window :: u32
  minimum_throughput :: u32

definition default_breaker_config :: CircuitBreakerConfig where
  "default_breaker_config = \<lparr>failure_threshold = 5, cb_timeout = from_secs 60, success_threshold = 3,
     half_open_max_requests = 5, failure_rate_window = 20, minimum_throughput = 10\<rparr>"

record CircuitBreakerMetrics =
  total_requests :: u64
  total_successes :: u64
  total_failures :: u64
  rejected_requests :: u64
  circuit_opened_count :: u32
  circuit_closed_count :: u32

definition default_metrics :: CircuitBreakerMetrics where
  "default_metrics = \<lparr>total_requests = 0, total_successes = 0, total_failures = 0, rejected_requests = 0,
     circuit_opened_count = 0, circuit_closed_count = 0\<rparr>"

definition record_request :: "CircuitBreakerMetrics \<Rightarrow> CircuitBreakerMetrics" where
  "record_request m = m\<lparr>total_requests := total_requests m + 1\<rparr>"
definition record_success :: "CircuitBreakerMetrics \<Rightarrow> CircuitBreakerMetrics" where
  "record_success m = m\<lparr>total_successes := total_successes m + 1\<rparr>"
definition record_failure :: "CircuitBreakerMetrics \<Rightarrow> CircuitBreakerMetrics" where
  "record_failure m = m\<lparr>total_failures := total_failures m + 1\<rparr>"
definition record_rejection :: "CircuitBreakerMetrics \<Rightarrow> CircuitBreakerMetrics" where
  "record_rejection m = m\<lparr>rejected_requests := rejected_requests m + 1\<rparr>"
definition record_circuit_opened :: "CircuitBreakerMetrics \<Rightarrow> CircuitBreakerMetrics" where
  "record_circuit_opened m = m\<lparr>circuit_opened_count := circuit_opened_count m + 1\<rparr>"
definition record_circuit_closed :: "CircuitBreakerMetrics \<Rightarrow> CircuitBreakerMetrics" where
  "record_circuit_closed m = m\<lparr>circuit_closed_count := circuit_closed_count m + 1\<rparr>"

lemmas metrics_defs = record_request_def record_success_def record_failure_def record_rejection_def
  record_circuit_opened_def record_circuit_closed_def

definition get_failure_rate :: "CircuitBreakerMetrics \<Rightarrow> f64" where
  "get_failure_rate m = (if total_requests m = 0 then 0
     else f64_div (f64_of_nat (unat (total_failures m))) (f64_of_nat (unat (total_requests m))))"

record CircuitBreakerSnapshot = CircuitBreakerMetrics +
  failure_rate :: f64

definition get_snapshot :: "CircuitBreakerMetrics \<Rightarrow> CircuitBreakerSnapshot" where
  "get_snapshot m = \<lparr>total_requests = total_requests m, total_successes = total_successes m,
     total_failures = total_failures m, rejected_requests = rejected_requests m,
     circuit_opened_count = circuit_opened_count m, circuit_closed_count = circuit_closed_count m,
     failure_rate = get_failure_rate m\<rparr>"

record CircuitBreaker =
  cb_state :: CircuitBreakerState
  cb_config :: CircuitBreakerConfig
  cb_metrics :: CircuitBreakerMetrics
  last_failure_time :: "instant option"
  half_open_requests :: u32
  half_open_successes :: u32
  recent_failures :: "instant list"

definition breaker_new :: "CircuitBreakerConfig \<Rightarrow> CircuitBreaker" where
  "breaker_new config = \<lparr>cb_state = Closed, cb_config = config, cb_metrics = default_metrics,
     last_failure_time = None, half_open_requests = 0, half_open_successes = 0, recent_failures = []\<rparr>"

definition allow_request :: "instant \<Rightarrow> CircuitBreaker \<Rightarrow> bool \<times> CircuitBreaker" where
  "allow_request now cb = (case cb_state cb of
     Closed \<Rightarrow> (True, cb)
   | Open \<Rightarrow> (case last_failure_time cb of
       Some last_failure \<Rightarrow>
         if duration_since now last_failure > cb_timeout (cb_config cb)
         then (True, cb\<lparr>cb_state := HalfOpen, half_open_requests := 0, half_open_successes := 0\<rparr>)
         else (False, cb)
     | None \<Rightarrow> (False, cb))
   | HalfOpen \<Rightarrow>
       if half_open_requests cb < half_open_max_requests (cb_config cb)
       then (True, cb\<lparr>half_open_requests := half_open_requests cb + 1\<rparr>)
       else (False, cb))"

definition clean_old_failures :: "instant \<Rightarrow> CircuitBreaker \<Rightarrow> CircuitBreaker" where
  "clean_old_failures now cb =
     cb\<lparr>recent_failures := dropWhile (\<lambda>front. front < now - int (from_secs 60)) (recent_failures cb)\<rparr>"

definition on_success :: "instant \<Rightarrow> CircuitBreaker \<Rightarrow> CircuitBreaker" where
  "on_success now cb = (case cb_state cb of
     HalfOpen \<Rightarrow>
       let successes = half_open_successes cb + 1;
           cb = cb\<lparr>half_open_successes := successes\<rparr>
       in if successes \<ge> success_threshold (cb_config cb)
          then cb\<lparr>cb_state := Closed, last_failure_time := None, recent_failures := [],
                  cb_metrics := record_circuit_closed (cb_metrics cb)\<rparr>
          else cb
   | _ \<Rightarrow> clean_old_failures now cb)"

definition on_failure :: "instant \<Rightarrow> CircuitBreaker \<Rightarrow> CircuitBreaker" where
  "on_failure now cb =
    (let cb = cb\<lparr>last_failure_time := Some now\<rparr>;
         cb = clean_old_failures now (cb\<lparr>recent_failures := recent_failures cb @ [now]\<rparr>)
     in case cb_state cb of
          Closed \<Rightarrow>
            if length (recent_failures cb) \<ge> unat (failure_threshold (cb_config cb))
            then cb\<lparr>cb_state := Open, cb_metrics := record_circuit_opened (cb_metrics cb)\<rparr>
            else cb
        | HalfOpen \<Rightarrow> cb\<lparr>cb_state := Open, cb_metrics := record_circuit_opened (cb_metrics cb)\<rparr>
        | Open \<Rightarrow> cb)"

definition force_open :: "instant \<Rightarrow> CircuitBreaker \<Rightarrow> CircuitBreaker" where
  "force_open now cb = cb\<lparr>cb_state := Open, last_failure_time := Some now,
     cb_metrics := record_circuit_opened (cb_metrics cb)\<rparr>"

definition force_close :: "CircuitBreaker \<Rightarrow> CircuitBreaker" where
  "force_close cb = cb\<lparr>cb_state := Closed, last_failure_time := None, recent_failures := [],
     cb_metrics := record_circuit_closed (cb_metrics cb)\<rparr>"

section \<open>Protected calls\<close>

text \<open>The part of \<open>call\<close> before the future runs, and the part after it.\<close>

definition call_start :: "instant \<Rightarrow> CircuitBreaker \<Rightarrow> bool \<times> CircuitBreaker" where
  "call_start now cb = (case allow_request now cb of (allowed, cb) \<Rightarrow>
     if allowed then (True, cb\<lparr>cb_metrics := record_request (cb_metrics cb)\<rparr>)
     else (False, cb\<lparr>cb_metrics := record_rejection (cb_metrics cb)\<rparr>))"

definition call_succeeded :: "instant \<Rightarrow> CircuitBreaker \<Rightarrow> CircuitBreaker" where
  "call_succeeded now cb = (let cb = on_success now cb in cb\<lparr>cb_metrics := record_success (cb_metrics cb)\<rparr>)"

definition call_failed :: "instant \<Rightarrow> CircuitBreaker \<Rightarrow> CircuitBreaker" where
  "call_failed now cb = (let cb = on_failure now cb in cb\<lparr>cb_metrics := record_failure (cb_metrics cb)\<rparr>)"

text \<open>A call that runs alone: \<open>f\<close> is what the future returns, the error as the text it displays.\<close>

definition breaker_call :: "instant \<Rightarrow> instant \<Rightarrow> error_text + 'a \<Rightarrow> CircuitBreaker \<Rightarrow> (RaftError + 'a) \<times> CircuitBreaker" where
  "breaker_call start done_at f cb = (case call_start start cb of
     (False, cb) \<Rightarrow> (Inl (CircuitBreakerOpen ''Circuit breaker is open''), cb)
   | (True, cb) \<Rightarrow> (case f of
       Inr result \<Rightarrow> (Inr result, call_succeeded done_at cb)
     | Inl e \<Rightarrow> (Inl (Internal (''Circuit breaker protected operation failed: '' @ e)), call_failed done_at cb)))"

section \<open>The manager\<close>

text \<open>
  Breakers are shared by reference: \<open>cells\<close> is the store of all breakers ever made, and the
  map of the manager holds positions in it. \<open>get_breaker\<close> looks the name up under the read
  lock, and, when it is missing, makes a breaker and inserts it under the write lock.
\<close>

record CircuitBreakerManager =
  cells :: "CircuitBreaker list"
  breakers :: "(string \<times> nat) list"
  default_config :: CircuitBreakerConfig

definition manager_new :: "CircuitBreakerConfig \<Rightarrow> CircuitBreakerManager" where
  "manager_new config = \<lparr>cells = [], breakers = [], default_config = config\<rparr>"

definition lookup_breaker :: "string \<Rightarrow> CircuitBreakerManager \<Rightarrow> nat option" where
  "lookup_breaker name m = map_of (breakers m) name"

definition insert_breaker :: "string \<Rightarrow> CircuitBreakerManager \<Rightarrow> nat \<times> CircuitBreakerManager" where
  "insert_breaker name m = (length (cells m), m\<lparr>cells := cells m @ [breaker_new (default_config m)],
     breakers := AList.update name (length (cells m)) (breakers m)\<rparr>)"

definition get_breaker :: "string \<Rightarrow> CircuitBreakerManager \<Rightarrow> nat \<times> CircuitBreakerManager" where
  "get_breaker name m = (case lookup_breaker name m of Some b \<Rightarrow> (b, m) | None \<Rightarrow> insert_breaker name m)"

definition get_all_states :: "CircuitBreakerManager \<Rightarrow> (string \<times> CircuitBreakerState) list" where
  "get_all_states m = map (\<lambda>(name, b). (name, cb_state (cells m ! b))) (breakers m)"

definition get_all_metrics :: "CircuitBreakerManager \<Rightarrow> (string \<times> CircuitBreakerSnapshot) list" where
  "get_all_metrics m = map (\<lambda>(name, b). (name, get_snapshot (cb_metrics (cells m ! b)))) (breakers m)"

section \<open>Concurrent calls\<close>

text \<open>
  The methods take one lock after the other and work on the counters between them, so calls
  interleave inside them. Where a call stands is a phase, one for each access to a shared cell, named
  by the access that comes next; a failing call carries the time it read. A call is \<open>Running\<close> while its future is, and a task that
  makes no call is \<open>Idle\<close>.
\<close>

datatype call_phase =
    Idle
  | ReadingState | ReadingFailureTime
  | EnteringHalfOpen | ResettingRequests | ResettingSuccesses
  | LoadingRequests | CountingProbe
  | Admitted | Refused
  | Running
  | SucceededReading | CountingSuccess
  | Closing | ClearingFailureTime | ClearingFailures | CountingClosed
  | CleaningAfterSuccess | RecordingSuccess
  | NotingFailure instant | PushingFailure instant | CleaningAfterFailure
  | FailedReading | CheckingThreshold
  | Opening | CountingOpened | RecordingFailure

text \<open>
  The next access of a call, at the given time. \<open>clean_old_failures\<close> reads the clock and works under one lock, so it is one access.
\<close>

fun advance :: "instant \<Rightarrow> call_phase \<Rightarrow> CircuitBreaker \<Rightarrow> call_phase \<times> CircuitBreaker" where
  "advance now ReadingState cb =
     ((case cb_state cb of Closed \<Rightarrow> Admitted | Open \<Rightarrow> ReadingFailureTime | HalfOpen \<Rightarrow> LoadingRequests), cb)"
| "advance now ReadingFailureTime cb = ((case last_failure_time cb of
     Some last_failure \<Rightarrow> if duration_since now last_failure > cb_timeout (cb_config cb) then EnteringHalfOpen else Refused
   | None \<Rightarrow> Refused), cb)"
| "advance now EnteringHalfOpen cb = (ResettingRequests, cb\<lparr>cb_state := HalfOpen\<rparr>)"
| "advance now ResettingRequests cb = (ResettingSuccesses, cb\<lparr>half_open_requests := 0\<rparr>)"
| "advance now ResettingSuccesses cb = (Admitted, cb\<lparr>half_open_successes := 0\<rparr>)"
| "advance now LoadingRequests cb =
     (if half_open_requests cb < half_open_max_requests (cb_config cb) then CountingProbe else Refused, cb)"
| "advance now CountingProbe cb = (Admitted, cb\<lparr>half_open_requests := half_open_requests cb + 1\<rparr>)"
| "advance now Admitted cb = (Running, cb\<lparr>cb_metrics := record_request (cb_metrics cb)\<rparr>)"
| "advance now Refused cb = (Idle, cb\<lparr>cb_metrics := record_rejection (cb_metrics cb)\<rparr>)"
| "advance now SucceededReading cb = (if cb_state cb = HalfOpen then CountingSuccess else CleaningAfterSuccess, cb)"
| "advance now CountingSuccess cb =
     (if half_open_successes cb + 1 \<ge> success_threshold (cb_config cb) then Closing else RecordingSuccess,
      cb\<lparr>half_open_successes := half_open_successes cb + 1\<rparr>)"
| "advance now Closing cb = (ClearingFailureTime, cb\<lparr>cb_state := Closed\<rparr>)"
| "advance now ClearingFailureTime cb = (ClearingFailures, cb\<lparr>last_failure_time := None\<rparr>)"
| "advance now ClearingFailures cb = (CountingClosed, cb\<lparr>recent_failures := []\<rparr>)"
| "advance now CountingClosed cb = (RecordingSuccess, cb\<lparr>cb_metrics := record_circuit_closed (cb_metrics cb)\<rparr>)"
| "advance now CleaningAfterSuccess cb = (RecordingSuccess, clean_old_failures now cb)"
| "advance now RecordingSuccess cb = (Idle, cb\<lparr>cb_metrics := record_success (cb_metrics cb)\<rparr>)"
| "advance now (NotingFailure t) cb = (PushingFailure t, cb\<lparr>last_failure_time := Some t\<rparr>)"
| "advance now (PushingFailure t) cb = (CleaningAfterFailure, cb\<lparr>recent_failures := recent_failures cb @ [t]\<rparr>)"
| "advance now CleaningAfterFailure cb = (FailedReading, clean_old_failures now cb)"
| "advance now FailedReading cb =
     ((case cb_state cb of Closed \<Rightarrow> CheckingThreshold | HalfOpen \<Rightarrow> Opening | Open \<Rightarrow> RecordingFailure), cb)"
| "advance now CheckingThreshold cb =
     (if length (recent_failures cb) \<ge> unat (failure_threshold (cb_config cb)) then Opening else RecordingFailure, cb)"
| "advance now Opening cb = (CountingOpened, cb\<lparr>cb_state := Open\<rparr>)"
| "advance now CountingOpened cb = (RecordingFailure, cb\<lparr>cb_metrics := record_circuit_opened (cb_metrics cb)\<rparr>)"
| "advance now RecordingFailure cb = (Idle, cb\<lparr>cb_metrics := record_failure (cb_metrics cb)\<rparr>)"
| "advance now Idle cb = (Idle, cb)"
| "advance now Running cb = (Running, cb)"

text \<open>
  The read guard of \<open>if let Some(last_failure) = *self.last_failure_time.read().await\<close> lives to the end of
  its block, so the time of the last failure cannot be written while a call enters the half-open state.
\<close>

definition holds_time :: "call_phase \<Rightarrow> bool" where
  "holds_time p \<longleftrightarrow> p \<in> {EnteringHalfOpen, ResettingRequests, ResettingSuccesses}"

definition writes_time :: "call_phase \<Rightarrow> bool" where
  "writes_time p \<longleftrightarrow> p = ClearingFailureTime \<or> (\<exists>t. p = NotingFailure t)"

text \<open>The phases in which the next access waits for a lock: there, and while its future runs, a call may be cancelled.\<close>

definition awaits :: "call_phase \<Rightarrow> bool" where
  "awaits p \<longleftrightarrow> p \<in> {ReadingState, ReadingFailureTime, EnteringHalfOpen, SucceededReading, Closing, ClearingFailureTime,
     ClearingFailures, CleaningAfterSuccess, CleaningAfterFailure, FailedReading, CheckingThreshold, Opening}
   \<or> (\<exists>t. p = NotingFailure t \<or> p = PushingFailure t)"

datatype cb_event = Begin | Start | Rejected | Returned bool | Succeeded | Failed | Access | Dropped | Cancelled | Tick nat

text \<open>The event of an access: \<open>Start\<close> when the call is let through to its future.\<close>

definition access_event :: "call_phase \<Rightarrow> cb_event" where
  "access_event p = (case p of Admitted \<Rightarrow> Start | Refused \<Rightarrow> Rejected | RecordingSuccess \<Rightarrow> Succeeded
     | RecordingFailure \<Rightarrow> Failed | _ \<Rightarrow> Access)"

text \<open>A breaker with the clock and the tasks that use it, each of which makes one call after the other.\<close>

record cb_system =
  breaker :: CircuitBreaker
  clock :: instant
  tasks :: "call_phase list"

inductive cb_step :: "cb_system \<Rightarrow> cb_event \<Rightarrow> cb_system \<Rightarrow> bool" where
  begun: "i < length (tasks s) \<Longrightarrow> tasks s ! i = Idle \<Longrightarrow> cb_step s Begin (s\<lparr>tasks := (tasks s)[i := ReadingState]\<rparr>)"
| accessed: "i < length (tasks s) \<Longrightarrow> tasks s ! i \<notin> {Idle, Running} \<Longrightarrow>
    (writes_time (tasks s ! i) \<Longrightarrow> \<not> list_ex holds_time (tasks s)) \<Longrightarrow>
    advance (clock s) (tasks s ! i) (breaker s) = (p, b) \<Longrightarrow>
    cb_step s (access_event (tasks s ! i)) (s\<lparr>breaker := b, tasks := (tasks s)[i := p]\<rparr>)"
| returned: "i < length (tasks s) \<Longrightarrow> tasks s ! i = Running \<Longrightarrow>
    cb_step s (Returned ok) (s\<lparr>tasks := (tasks s)[i := if ok then SucceededReading else NotingFailure (clock s)]\<rparr>)"
| dropped: "i < length (tasks s) \<Longrightarrow> tasks s ! i = Running \<Longrightarrow> cb_step s Dropped (s\<lparr>tasks := (tasks s)[i := Idle]\<rparr>)"
| cancelled: "i < length (tasks s) \<Longrightarrow> awaits (tasks s ! i) \<Longrightarrow> cb_step s Cancelled (s\<lparr>tasks := (tasks s)[i := Idle]\<rparr>)"
| tick: "cb_step s (Tick d) (s\<lparr>clock := clock s + int d\<rparr>)"

inductive_cases cb_stepE [elim]: "cb_step s e t"

definition cb_init :: "CircuitBreakerConfig \<Rightarrow> cb_system \<Rightarrow> bool" where
  "cb_init config s \<longleftrightarrow> breaker s = breaker_new config \<and> tasks s \<noteq> [] \<and> set (tasks s) \<subseteq> {Idle}"

section \<open>A call without others inside the methods\<close>

text \<open>Up to so many accesses of one call, until its future runs or it is over.\<close>

fun walk :: "nat \<Rightarrow> instant \<Rightarrow> call_phase \<Rightarrow> CircuitBreaker \<Rightarrow> call_phase \<times> CircuitBreaker" where
  "walk 0 now p cb = (p, cb)"
| "walk (Suc n) now p cb = (if p \<in> {Idle, Running} then (p, cb)
     else case advance now p cb of (p', cb') \<Rightarrow> walk n now p' cb')"

lemma walk_done [simp]: "walk n now Idle cb = (Idle, cb)" "walk n now Running cb = (Running, cb)"
  by (cases n; simp)+

text \<open>Accesses that no other call comes between amount to the methods as a whole.\<close>

lemma walk_start: "walk 6 now ReadingState cb = (case call_start now cb of (allowed, b) \<Rightarrow> (if allowed then Running else Idle, b))"
  by (cases "cb_state cb"; cases "last_failure_time cb") (simp_all add: numeral_eq_Suc call_start_def allow_request_def)

lemma walk_succeeded: "walk 7 now SucceededReading cb = (Idle, call_succeeded now cb)"
  by (cases "cb_state cb") (simp_all add: numeral_eq_Suc call_succeeded_def on_success_def Let_def)

lemma walk_failed: "walk 8 now (NotingFailure now) cb = (Idle, call_failed now cb)"
  by (cases "cb_state cb") (simp_all add: numeral_eq_Suc call_failed_def on_failure_def Let_def clean_old_failures_def)

text \<open>No task but the given one is entering the half-open state.\<close>

definition calm :: "nat \<Rightarrow> cb_system \<Rightarrow> bool" where
  "calm i s \<longleftrightarrow> (\<forall>j < length (tasks s). j \<noteq> i \<longrightarrow> \<not> holds_time (tasks s ! j))"

lemma calm_unblocked: "calm i s \<Longrightarrow> i < length (tasks s) \<Longrightarrow> writes_time (tasks s ! i) \<Longrightarrow> \<not> list_ex holds_time (tasks s)"
  by (auto simp: calm_def list_ex_length holds_time_def writes_time_def)

lemma same_system: "tasks s ! i = p \<Longrightarrow> breaker s = b \<Longrightarrow> s\<lparr>breaker := b, tasks := (tasks s)[i := p]\<rparr> = s"
  by (cases s) auto

text \<open>Runs in which no call is given up.\<close>

definition proceeds :: "cb_system \<Rightarrow> cb_system \<Rightarrow> bool" where
  "proceeds s t \<longleftrightarrow> (\<exists>es. run cb_step s es t \<and> Dropped \<notin> set es \<and> Cancelled \<notin> set es)"

lemma proceeds_refl [simp]: "proceeds s s"
  unfolding proceeds_def by (intro exI[of _ "[]"]) simp

lemma proceeds_step: "cb_step s e t \<Longrightarrow> e \<noteq> Dropped \<Longrightarrow> e \<noteq> Cancelled \<Longrightarrow> proceeds s t"
  unfolding proceeds_def by (intro exI[of _ "[e]"]) (auto intro: run.intros)

lemma proceeds_trans [trans]: "proceeds s t \<Longrightarrow> proceeds t u \<Longrightarrow> proceeds s u"
  unfolding proceeds_def by (elim exE conjE, rule exI, rule conjI, erule (1) run_append) simp

lemma access_event_proceeds [simp]: "access_event p \<noteq> Dropped" "access_event p \<noteq> Cancelled"
  by (cases p; simp add: access_event_def)+

lemma walk_proceeds:
  assumes "i < length (tasks s)" and "calm i s" and "walk n (clock s) (tasks s ! i) (breaker s) = (p, b)"
  shows "proceeds s (s\<lparr>breaker := b, tasks := (tasks s)[i := p]\<rparr>)"
  using assms
proof (induction n arbitrary: s)
  case 0
  then show ?case by (simp add: same_system)
next
  case (Suc n)
  show ?case
  proof (cases "tasks s ! i \<in> {Idle, Running}")
    case True
    with Suc.prems show ?thesis by (simp add: same_system)
  next
    case False
    obtain q c where adv: "advance (clock s) (tasks s ! i) (breaker s) = (q, c)" by fastforce
    let ?t = "s\<lparr>breaker := c, tasks := (tasks s)[i := q]\<rparr>"
    have "proceeds s ?t"
      by (rule proceeds_step[OF accessed[OF Suc.prems(1) False calm_unblocked[OF Suc.prems(2,1)] adv]]) simp_all
    also have "proceeds ?t (?t\<lparr>breaker := b, tasks := (tasks ?t)[i := p]\<rparr>)"
      using Suc.prems False adv by (intro Suc.IH) (auto simp: calm_def)
    finally show ?thesis by simp
  qed
qed

text \<open>The two halves of a call around its future.\<close>

lemma start_alone:
  assumes "i < length (tasks s)" and "tasks s ! i = Idle" and "calm i s" and "call_start (clock s) (breaker s) = (True, b)"
  shows "proceeds s (s\<lparr>breaker := b, tasks := (tasks s)[i := Running]\<rparr>)"
proof -
  let ?t = "s\<lparr>tasks := (tasks s)[i := ReadingState]\<rparr>"
  have "proceeds s ?t" by (rule proceeds_step[OF begun[OF assms(1,2)]]) simp_all
  also have "proceeds ?t (?t\<lparr>breaker := b, tasks := (tasks ?t)[i := Running]\<rparr>)"
    using assms by (intro walk_proceeds[where n = 6]) (auto simp: walk_start calm_def)
  finally show ?thesis by simp
qed

definition call_finished :: "bool \<Rightarrow> instant \<Rightarrow> CircuitBreaker \<Rightarrow> CircuitBreaker" where
  "call_finished ok = (if ok then call_succeeded else call_failed)"

lemma call_finished_simps [simp]: "call_finished True = call_succeeded" "call_finished False = call_failed"
  by (simp_all add: call_finished_def)

lemma return_alone:
  assumes "i < length (tasks s)" and "tasks s ! i = Running" and "calm i s"
  shows "proceeds s (s\<lparr>breaker := call_finished ok (clock s) (breaker s), tasks := (tasks s)[i := Idle]\<rparr>)"
proof -
  let ?t = "s\<lparr>tasks := (tasks s)[i := if ok then SucceededReading else NotingFailure (clock s)]\<rparr>"
  have "proceeds s ?t" by (rule proceeds_step[OF returned[OF assms(1,2)]]) simp_all
  also have "proceeds ?t (?t\<lparr>breaker := call_finished ok (clock s) (breaker s), tasks := (tasks ?t)[i := Idle]\<rparr>)"
    using assms walk_succeeded walk_failed by (intro walk_proceeds[where n = "if ok then 7 else 8"]) (auto simp: calm_def)
  finally show ?thesis by simp
qed

lemma drop_alone: "i < length (tasks s) \<Longrightarrow> tasks s ! i = Running \<Longrightarrow> run cb_step s [Dropped] (s\<lparr>tasks := (tasks s)[i := Idle]\<rparr>)"
  by (auto intro: run.intros dropped)

section \<open>The invariant\<close>

text \<open>
  The methods do not touch what they do not mention, and they do not look at the metrics.
\<close>

lemma call_start_cases:
  assumes "call_start now cb = (allowed, b)"
  obtains (pass) "allowed" "cb_state cb = Closed" "cb_state b = Closed" "half_open_requests b = half_open_requests cb"
      "half_open_successes b = half_open_successes cb" "last_failure_time b = last_failure_time cb"
    | (probe) last where "allowed" "cb_state cb = Open" "last_failure_time cb = Some last"
      "cb_timeout (cb_config cb) < duration_since now last" "cb_state b = HalfOpen" "half_open_requests b = 0"
      "half_open_successes b = 0" "last_failure_time b = last_failure_time cb"
    | (limited) "allowed" "cb_state cb = HalfOpen" "half_open_requests cb < half_open_max_requests (cb_config cb)"
      "cb_state b = HalfOpen" "half_open_requests b = half_open_requests cb + 1"
      "half_open_successes b = half_open_successes cb" "last_failure_time b = last_failure_time cb"
    | (refused) "\<not> allowed" "b = cb\<lparr>cb_metrics := record_rejection (cb_metrics cb)\<rparr>"
  using assms
  by (cases "cb_state cb") (auto simp: call_start_def allow_request_def split: option.splits if_splits)

lemma call_start_same:
  "call_start now cb = (allowed, b) \<Longrightarrow> cb_config b = cb_config cb \<and> recent_failures b = recent_failures cb"
  by (auto simp: call_start_def allow_request_def split: CircuitBreakerState.splits option.splits if_splits)

lemma dropWhile_sorted: "sorted (xs :: instant list) \<Longrightarrow> dropWhile (\<lambda>t. t < c) xs = filter (\<lambda>t. c \<le> t) xs"
proof (induction xs)
  case (Cons x xs)
  then show ?case
    by (cases "x < c") (auto simp: filter_id_conv intro!: filter_True [symmetric])
qed simp

lemma clean_old_failures_simps [simp]:
  "cb_state (clean_old_failures now cb) = cb_state cb" "cb_config (clean_old_failures now cb) = cb_config cb"
  "last_failure_time (clean_old_failures now cb) = last_failure_time cb"
  "half_open_requests (clean_old_failures now cb) = half_open_requests cb"
  "half_open_successes (clean_old_failures now cb) = half_open_successes cb"
  "recent_failures (clean_old_failures now cb) =
     dropWhile (\<lambda>front. front < now - int (from_secs 60)) (recent_failures cb)"
  by (simp_all add: clean_old_failures_def)

lemma on_failure_simps:
  "recent_failures (on_failure now cb) = dropWhile (\<lambda>t. t < now - int (from_secs 60)) (recent_failures cb @ [now])"
  "last_failure_time (on_failure now cb) = Some now" "cb_config (on_failure now cb) = cb_config cb"
  "half_open_requests (on_failure now cb) = half_open_requests cb"
  "half_open_successes (on_failure now cb) = half_open_successes cb"
  "cb_state (on_failure now cb) =
    (if cb_state cb = Closed \<and> length (recent_failures (on_failure now cb)) < unat (failure_threshold (cb_config cb))
     then Closed else Open)"
  by (cases "cb_state cb"; simp add: on_failure_def Let_def)+

lemma count_list_update: "i < length xs \<Longrightarrow>
  count_list (xs[i := y]) q + (if xs ! i = q then 1 else 0) = count_list xs q + (if y = q then 1 else 0)"
proof (induction xs arbitrary: i)
  case (Cons x xs)
  show ?case
  proof (cases i)
    case (Suc j)
    with Cons.IH[of j] Cons.prems show ?thesis by auto
  qed simp
qed simp

lemma in_set_update: "q \<in> set xs \<Longrightarrow> q \<noteq> xs ! i \<Longrightarrow> q \<in> set (xs[i := y])"
  by (metis in_set_conv_nth length_list_update nth_list_update_neq)

lemma set_update_cases: "q \<in> set (xs[i := y]) \<Longrightarrow> q = y \<or> q \<in> set xs"
  using set_update_subset_insert by fastforce

text \<open>
  The calls that have found a free probe and not yet counted it take the counter above its bound, by at most one for
  each task but the last to look.
\<close>

definition cb_inv :: "CircuitBreakerConfig \<Rightarrow> nat \<Rightarrow> cb_system \<Rightarrow> bool" where
  "cb_inv config n s \<longleftrightarrow> cb_config (breaker s) = config \<and> length (tasks s) = n
     \<and> unat (half_open_requests (breaker s)) + count_list (tasks s) CountingProbe + 1 \<le> unat (half_open_max_requests config) + n
     \<and> (\<forall>t \<in> set (recent_failures (breaker s)). t \<le> clock s)
     \<and> (\<forall>t. last_failure_time (breaker s) = Some t \<longrightarrow> t \<le> clock s)
     \<and> (\<forall>t. NotingFailure t \<in> set (tasks s) \<or> PushingFailure t \<in> set (tasks s) \<longrightarrow> t \<le> clock s)"

lemma cb_inv_times:
  "cb_inv config n s \<Longrightarrow> t \<in> set (dropWhile P (recent_failures (breaker s))) \<Longrightarrow> t \<le> clock s"
  by (auto simp: cb_inv_def dest: set_dropWhileD)

lemma cb_inv_access:
  assumes inv: "cb_inv config n s" and i: "i < length (tasks s)" and small: "unat (half_open_max_requests config) + n \<le> 2 ^ 32"
    and adv: "advance (clock s) (tasks s ! i) (breaker s) = (p, b)"
  shows "cb_inv config n (s\<lparr>breaker := b, tasks := (tasks s)[i := p]\<rparr>)"
proof -
  note count = count_list_update[OF i, of p CountingProbe]
  have others: "count_list ((tasks s)[i := p]) CountingProbe \<le> n" 
    using count_le_length[of "(tasks s)[i := p]"] inv by (simp add: cb_inv_def)
  have rest: "tasks s ! i \<noteq> CountingProbe \<Longrightarrow> count_list (tasks s) CountingProbe < n"
    using count_list_update[OF i, of CountingProbe CountingProbe] count_le_length[of "(tasks s)[i := CountingProbe]" CountingProbe] inv
    by (simp add: cb_inv_def)
  have mem: "tasks s ! i \<in> set (tasks s)" using i by simp
  have req: "unat (half_open_requests b) + count_list ((tasks s)[i := p]) CountingProbe + 1 \<le> unat (half_open_max_requests config) + n"
  proof (cases "tasks s ! i")
    case CountingProbe
    then have "unat (half_open_requests (breaker s)) + 1 < 2 ^ 32"
      using inv small count adv by (auto simp: cb_inv_def)
    with CountingProbe inv count adv show ?thesis by (auto simp: cb_inv_def unat_word_ariths)
  next
    case LoadingRequests
    with inv count adv others show ?thesis by (auto simp: cb_inv_def word_less_nat_alt split: if_splits)
  next
    case ResettingRequests
    with inv count adv rest show ?thesis by (auto simp: cb_inv_def)
  qed (use inv count adv in \<open>auto simp: cb_inv_def split: CircuitBreakerState.splits option.splits if_splits\<close>)
  moreover have "cb_config b = cb_config (breaker s)" using adv by (cases "tasks s ! i") auto
  moreover have "\<forall>t \<in> set (recent_failures b). t \<le> clock s"
    using adv inv mem cb_inv_times[OF inv] by (cases "tasks s ! i") (auto simp: cb_inv_def)
  moreover have "\<forall>t. last_failure_time b = Some t \<longrightarrow> t \<le> clock s"
    using adv inv mem by (cases "tasks s ! i") (auto simp: cb_inv_def)
  moreover have "\<forall>t. NotingFailure t \<in> set ((tasks s)[i := p]) \<or> PushingFailure t \<in> set ((tasks s)[i := p]) \<longrightarrow> t \<le> clock s"
  proof -
    have "t \<le> clock s" if "p = NotingFailure t \<or> p = PushingFailure t" for t
      using that adv inv mem by (cases "tasks s ! i") (auto simp: cb_inv_def split: CircuitBreakerState.splits option.splits if_splits)
    with inv show ?thesis by (auto simp: cb_inv_def dest!: set_update_cases)
  qed
  ultimately show ?thesis using inv by (simp add: cb_inv_def)
qed

lemma cb_inv_phase:
  assumes "cb_inv config n s" and "i < length (tasks s)" and "p \<noteq> CountingProbe"
    and "\<forall>t. p = NotingFailure t \<or> p = PushingFailure t \<longrightarrow> t \<le> clock s"
  shows "cb_inv config n (s\<lparr>tasks := (tasks s)[i := p]\<rparr>)"
  using assms count_list_update[OF assms(2), of p CountingProbe]
  by (auto simp: cb_inv_def dest!: set_update_cases split: if_splits)

text \<open>The tasks and the configuration are those of the start.\<close>

definition cb_start :: "CircuitBreakerConfig \<Rightarrow> nat \<Rightarrow> cb_system \<Rightarrow> bool" where
  "cb_start config n s \<longleftrightarrow> cb_init config s \<and> length (tasks s) = n \<and> unat (half_open_max_requests config) + n \<le> 2 ^ 32"

interpretation cb: invariant_of "cb_start config n" cb_step
  "\<lambda>s. cb_inv config n s \<and> unat (half_open_max_requests config) + n \<le> 2 ^ 32" for config n
proof
  fix s
  assume "cb_start config n s"
  moreover from this have "count_list (tasks s) CountingProbe = 0"
    by (auto simp: cb_start_def cb_init_def intro!: count_notin)
  ultimately show "cb_inv config n s \<and> unat (half_open_max_requests config) + n \<le> 2 ^ 32"
    by (cases n) (auto simp: cb_start_def cb_init_def cb_inv_def breaker_new_def)
next
  fix s e t
  assume inv: "cb_inv config n s \<and> unat (half_open_max_requests config) + n \<le> 2 ^ 32" and "cb_step s e t"
  from this(2) show "cb_inv config n t \<and> unat (half_open_max_requests config) + n \<le> 2 ^ 32"
  proof (cases rule: cb_step.cases)
    case (accessed i p b)
    with inv cb_inv_access show ?thesis by blast
  next
    case (tick d)
    with inv show ?thesis by (force simp: cb_inv_def)
  qed (use inv in \<open>auto intro!: cb_inv_phase\<close>)
qed

text \<open>The phases in which a call is about to bring the state and the recorded failures together again.\<close>

definition settling :: "call_phase \<Rightarrow> bool" where
  "settling p \<longleftrightarrow> p \<in> {CleaningAfterFailure, FailedReading, CheckingThreshold, Opening, ClearingFailureTime, ClearingFailures}"

definition settled :: "CircuitBreakerConfig \<Rightarrow> cb_system \<Rightarrow> bool" where
  "settled config s \<longleftrightarrow> cb_config (breaker s) = config \<and> (cb_state (breaker s) = Closed
     \<and> unat (failure_threshold config) \<le> length (recent_failures (breaker s)) \<longrightarrow> list_ex settling (tasks s))"

lemma settled_phase:
  assumes "settled config s" and "i < length (tasks s)" and "\<not> settling (tasks s ! i) \<or> settling p"
  shows "settled config (s\<lparr>tasks := (tasks s)[i := p]\<rparr>)"
  using assms in_set_update[of _ "tasks s" i p] set_update_memI[of i "tasks s" p]
  unfolding settled_def by (auto simp: list_ex_iff)

lemma settled_access:
  assumes s: "settled config s" and i: "i < length (tasks s)" and pos: "0 < failure_threshold config"
    and adv: "advance (clock s) (tasks s ! i) (breaker s) = (p, b)"
  shows "settled config (s\<lparr>breaker := b, tasks := (tasks s)[i := p]\<rparr>)"
proof -
  have th: "0 < unat (failure_threshold config)" using pos by (simp add: word_less_nat_alt)
  have config: "cb_config b = config" using adv s by (cases "tasks s ! i") (auto simp: settled_def)
  have "settling p" if "cb_state b = Closed" "unat (failure_threshold config) \<le> length (recent_failures b)"
    "\<not> (cb_state (breaker s) = Closed \<and> unat (failure_threshold config) \<le> length (recent_failures (breaker s)) \<and> \<not> settling (tasks s ! i))"
  proof (cases "tasks s ! i")
    case (PushingFailure t)
    with adv show ?thesis by (auto simp: settling_def)
  next
    case CleaningAfterFailure
    with adv show ?thesis by (auto simp: settling_def)
  next
    case CleaningAfterSuccess
    then show ?thesis using that adv length_dropWhile_le[of _ "recent_failures (breaker s)"]
      by (auto simp: settling_def intro: le_trans)
  qed (use that adv th s in \<open>auto simp: settling_def settled_def split: CircuitBreakerState.splits option.splits if_splits\<close>)
  moreover have "list_ex settling ((tasks s)[i := p])" if "settling p"
    using that i set_update_memI[of i "tasks s" p] by (auto simp: list_ex_iff)
  moreover have "list_ex settling ((tasks s)[i := p])"
    if "cb_state (breaker s) = Closed \<and> unat (failure_threshold config) \<le> length (recent_failures (breaker s)) \<and> \<not> settling (tasks s ! i)"
    using that s in_set_update[of _ "tasks s" i p] by (auto simp: settled_def list_ex_iff)
  ultimately show ?thesis using config unfolding settled_def by auto
qed

lemma settled_run:
  assumes "run cb_step s es t" and "settled config s" and "0 < failure_threshold config" and "Cancelled \<notin> set es"
  shows "settled config t"
  using assms
proof (induction rule: run.induct)
  case (run_step s e t es u)
  from run_step.hyps(1) have "settled config t"
  proof (cases rule: cb_step.cases)
    case (accessed i p b)
    with run_step.prems settled_access show ?thesis by blast
  next
    case (tick d)
    with run_step.prems(1) show ?thesis by (simp add: settled_def)
  qed (use run_step.prems in \<open>auto intro!: settled_phase simp: settling_def\<close>)
  with run_step show ?case by simp
qed simp

text \<open>
  C23: calls that interleave access by access. When they are made by \<open>n\<close> tasks, the counter of half-open probes exceeds its bound by
  at most \<open>n - 1\<close>, because a call that has found a free probe counts it later; no recorded time lies in the
  future; and unless a call was cancelled inside the methods, a closed circuit holds as many recorded
  failures as the threshold only while some call is between recording its failure and opening the circuit, or between closing it and
  clearing them.
\<close>

theorem breaker_invariant:
  assumes "cb_init config s0" and "run cb_step s0 es s"
    and "unat (half_open_max_requests config) + length (tasks s0) \<le> 2 ^ 32"
  shows "unat (half_open_requests (breaker s)) \<le> unat (half_open_max_requests config) + (length (tasks s0) - 1)
    \<and> (\<forall>t \<in> set (recent_failures (breaker s)). t \<le> clock s)
    \<and> (\<forall>t. last_failure_time (breaker s) = Some t \<longrightarrow> t \<le> clock s)
    \<and> (Cancelled \<notin> set es \<and> cb_state (breaker s) = Closed \<and> 0 < failure_threshold config
        \<and> unat (failure_threshold config) \<le> length (recent_failures (breaker s)) \<longrightarrow> (\<exists>p \<in> set (tasks s). settling p))"
proof -
  have start: "cb_start config (length (tasks s0)) s0" using assms(1,3) by (simp add: cb_start_def)
  then have "cb_inv config (length (tasks s0)) s0 \<and> unat (half_open_max_requests config) + length (tasks s0) \<le> 2 ^ 32" by (rule cb.base)
  from cb.run_keeps[OF assms(2) this] have inv: "cb_inv config (length (tasks s0)) s" by simp
  moreover have "0 < length (tasks s0)" using assms(1) by (simp add: cb_init_def)
  moreover have "settled config s" if "Cancelled \<notin> set es" "0 < failure_threshold config"
    using assms(1) that by (intro settled_run[OF assms(2)]) (simp_all add: cb_init_def settled_def breaker_new_def word_less_nat_alt)
  ultimately show ?thesis by (auto simp: cb_inv_def settled_def list_ex_iff)
qed

definition fresh_system :: "CircuitBreakerConfig \<Rightarrow> nat \<Rightarrow> cb_system" where
  "fresh_system config n = \<lparr>breaker = breaker_new config, clock = 0, tasks = replicate n Idle\<rparr>"

lemma fresh_init: "0 < n \<Longrightarrow> cb_init config (fresh_system config n)"
  by (simp add: cb_init_def fresh_system_def)

text \<open>
  A failing call opens a closed circuit exactly when, with this failure, at least
  \<open>failure_threshold\<close> failures lie within the last minute; failures that are older do not count.
\<close>

theorem failure_opens_iff:
  assumes "cb_state cb = Closed" and "sorted (recent_failures cb)" and "\<forall>t \<in> set (recent_failures cb). t \<le> now"
  shows "cb_state (call_failed now cb) = Open \<longleftrightarrow>
    unat (failure_threshold (cb_config cb)) \<le> length (filter (\<lambda>t. now - int (from_secs 60) \<le> t) (recent_failures cb)) + 1"
proof -
  have "sorted (recent_failures cb @ [now])" using assms(2,3) by (auto simp: sorted_append)
  then have "length (recent_failures (on_failure now cb)) = length (filter (\<lambda>t. now - int (from_secs 60) \<le> t) (recent_failures cb)) + 1"
    by (simp add: on_failure_simps(1) dropWhile_sorted)
  with assms(1) show ?thesis by (simp add: call_failed_def Let_def on_failure_simps(6) not_less)
qed

theorem failure_opens_iff_witness:
  "\<not> cb_state (call_failed 0 (breaker_new default_breaker_config)) = Open
   \<and> unat (failure_threshold default_breaker_config) = 5"
  using failure_opens_iff [of "breaker_new default_breaker_config" 0]
  by (simp add: breaker_new_def default_breaker_config_def)

section \<open>Ways into the half-open state\<close>

text \<open>No task is inside the methods.\<close>

definition resting :: "cb_system \<Rightarrow> bool" where
  "resting s \<longleftrightarrow> set (tasks s) \<subseteq> {Idle, Running}"

lemma resting_calm: "resting s \<Longrightarrow> calm i s"
  using nth_mem by (fastforce simp: resting_def calm_def holds_time_def)

lemma update_same: "xs ! i = x \<Longrightarrow> xs[i := x] = xs"
  by auto

lemma resting_update [simp]: "resting s \<Longrightarrow> p \<in> {Idle, Running} \<Longrightarrow> resting (s\<lparr>tasks := (tasks s)[i := p]\<rparr>)"
  using set_update_subset_insert[of "tasks s" i p] by (auto simp: resting_def)

lemma resting_breaker [simp]: "resting (s\<lparr>breaker := b\<rparr>) = resting s" "resting (s\<lparr>clock := c\<rparr>) = resting s"
  "resting (s\<lparr>breaker := b, tasks := xs\<rparr>) = resting (s\<lparr>tasks := xs\<rparr>)"
  by (simp_all add: resting_def)

text \<open>A task that makes a whole call while the others rest.\<close>

lemma whole_call:
  assumes "i < length (tasks s)" and "tasks s ! i = Idle" and "resting s" and "call_start (clock s) (breaker s) = (True, b)"
  shows "proceeds s (s\<lparr>breaker := call_finished ok (clock s) b\<rparr>)"
proof -
  let ?t = "s\<lparr>breaker := b, tasks := (tasks s)[i := Running]\<rparr>"
  have "proceeds s ?t" by (rule start_alone[OF assms(1,2) resting_calm[OF assms(3)] assms(4)])
  also have "calm i ?t" by (rule resting_calm) (simp add: assms(3))
  then have "proceeds ?t (?t\<lparr>breaker := call_finished ok (clock ?t) (breaker ?t), tasks := (tasks ?t)[i := Idle]\<rparr>)"
    using assms(1) by (intro return_alone) simp_all
  also have "?t\<lparr>breaker := call_finished ok (clock ?t) (breaker ?t), tasks := (tasks ?t)[i := Idle]\<rparr> = s\<lparr>breaker := call_finished ok (clock s) b\<rparr>"
    using assms(1,2) by (cases s) (auto simp: update_same)
  finally show ?thesis .
qed

text \<open>Failing calls one after another open a closed breaker.\<close>

lemma trip:
  "unat (failure_threshold config) - k = n \<Longrightarrow> i < length (tasks s) \<Longrightarrow> tasks s ! i = Idle \<Longrightarrow> resting s \<Longrightarrow>
   cb_config (breaker s) = config \<Longrightarrow> cb_state (breaker s) = Closed \<Longrightarrow> recent_failures (breaker s) = replicate k (clock s) \<Longrightarrow>
   \<exists>b. proceeds s (s\<lparr>breaker := b\<rparr>) \<and> cb_config b = config \<and> cb_state b = Open \<and> last_failure_time b = Some (clock s)"
proof (induction n arbitrary: s k rule: less_induct)
  case (less n)
  obtain b where b: "call_start (clock s) (breaker s) = (True, b)"
    using less.prems(6) by (simp add: call_start_def allow_request_def)
  have same: "cb_config b = config" "cb_state b = Closed" "recent_failures b = replicate k (clock s)"
    using call_start_same[OF b] less.prems(5-7) b by (auto elim: call_start_cases)
  let ?b = "call_failed (clock s) b"
  let ?t = "s\<lparr>breaker := ?b\<rparr>"
  have step: "proceeds s ?t" using whole_call[OF less.prems(2-4) b, of False] by simp
  have recent: "recent_failures (on_failure (clock s) b) = replicate (Suc k) (clock s)"
    by (simp add: on_failure_simps(1) same replicate_append_same from_secs_def)
  show ?case
  proof (cases "Suc k < unat (failure_threshold config)")
    case True
    have "cb_state (breaker ?t) = Closed"
      using True by (simp add: call_failed_def Let_def on_failure_simps(6) same recent)
    then have "\<exists>c. proceeds ?t (?t\<lparr>breaker := c\<rparr>) \<and> cb_config c = config \<and> cb_state c = Open \<and> last_failure_time c = Some (clock ?t)"
      using True less.prems recent same
      by (intro less.IH[of "n - 1" "Suc k"]) (auto simp: call_failed_def Let_def on_failure_simps(3))
    with step show ?thesis by (auto intro: proceeds_trans)
  next
    case False
    with step show ?thesis
      by (intro exI[of _ ?b]) (simp add: call_failed_def Let_def on_failure_simps(2,3,6) same recent)
  qed
qed

text \<open>After the timeout the next call is let through and makes the breaker half-open.\<close>

lemma reach_half_open:
  assumes "i < length (tasks s)" and "tasks s ! i = Idle" and "resting s" and "cb_config (breaker s) = config"
    and "cb_state (breaker s) = Closed" and "recent_failures (breaker s) = []"
  shows "\<exists>b c. proceeds s (s\<lparr>breaker := b, clock := c, tasks := (tasks s)[i := Running]\<rparr>) \<and> cb_config b = config
    \<and> cb_state b = HalfOpen \<and> half_open_requests b = 0 \<and> half_open_successes b = 0"
proof -
  obtain b where opened: "proceeds s (s\<lparr>breaker := b\<rparr>)" "cb_config b = config" "cb_state b = Open" "last_failure_time b = Some (clock s)"
    using trip[OF refl assms(1-5), of 0] assms(6) by auto
  let ?d = "cb_timeout config + 1"
  let ?u = "s\<lparr>breaker := b, clock := clock s + int ?d\<rparr>"
  note opened(1)
  also have "cb_step (s\<lparr>breaker := b\<rparr>) (Tick ?d) ?u" using tick[of "s\<lparr>breaker := b\<rparr>" ?d] by simp
  then have "proceeds (s\<lparr>breaker := b\<rparr>) ?u" by (rule proceeds_step) simp_all
  also obtain b' where b': "call_start (clock ?u) (breaker ?u) = (True, b')" "cb_state b' = HalfOpen"
    "half_open_requests b' = 0" "half_open_successes b' = 0" "cb_config b' = config"
    using opened(2-4) by (simp add: call_start_def allow_request_def)
  have "calm i ?u" by (rule resting_calm) (simp add: assms(3))
  then have "proceeds ?u (?u\<lparr>breaker := b', tasks := (tasks ?u)[i := Running]\<rparr>)"
    using assms(1,2) b'(1) by (intro start_alone) simp_all
  also have "?u\<lparr>breaker := b', tasks := (tasks ?u)[i := Running]\<rparr>
      = s\<lparr>breaker := b', clock := clock s + int ?d, tasks := (tasks s)[i := Running]\<rparr>" by simp
  finally show ?thesis using b' by blast
qed

text \<open>Probes that are dropped one after another use up the half-open budget, up to any number within it.\<close>

lemma exhaust:
  "unat m - unat (half_open_requests (breaker s)) = n \<Longrightarrow> i < length (tasks s) \<Longrightarrow> tasks s ! i = Idle \<Longrightarrow> resting s \<Longrightarrow>
   cb_state (breaker s) = HalfOpen \<Longrightarrow> half_open_requests (breaker s) \<le> m \<Longrightarrow> m \<le> half_open_max_requests (cb_config (breaker s)) \<Longrightarrow>
   \<exists>es b. run cb_step s es (s\<lparr>breaker := b\<rparr>) \<and> cb_state b = HalfOpen \<and> half_open_requests b = m \<and> cb_config b = cb_config (breaker s)"
proof (induction n arbitrary: s)
  case 0
  then have "half_open_requests (breaker s) = m" by (simp add: word_le_nat_alt word_unat_eq_iff)
  with 0 show ?case by (intro exI[of _ "[]"] exI[of _ "breaker s"]) simp
next
  case (Suc n)
  then have less: "half_open_requests (breaker s) < m" by (simp add: word_less_nat_alt)
  with Suc.prems(7) have free: "half_open_requests (breaker s) < half_open_max_requests (cb_config (breaker s))" by simp
  then obtain b where b: "call_start (clock s) (breaker s) = (True, b)"
    "cb_state b = HalfOpen" "half_open_requests b = half_open_requests (breaker s) + 1" "cb_config b = cb_config (breaker s)"
    using Suc.prems(5) by (simp add: call_start_def allow_request_def)
  let ?r = "s\<lparr>breaker := b, tasks := (tasks s)[i := Running]\<rparr>" and ?t = "s\<lparr>breaker := b\<rparr>"
  obtain es where "run cb_step s es ?r"
    using start_alone[OF Suc.prems(2,3) resting_calm[OF Suc.prems(4)] b(1)] unfolding proceeds_def by blast
  moreover have "?r\<lparr>tasks := (tasks ?r)[i := Idle]\<rparr> = ?t" using Suc.prems(3) by (cases s) (auto simp: update_same)
  then have "run cb_step ?r [Dropped] ?t" using drop_alone[of i ?r] Suc.prems(2) by simp
  ultimately have step: "run cb_step s (es @ [Dropped]) ?t" by (rule run_append)
  have "unat (half_open_requests (breaker s) + 1) = Suc (unat (half_open_requests (breaker s)))"
    using less u32_less[of m] by (simp add: unat_word_ariths word_less_nat_alt)
  then have "\<exists>fs c. run cb_step ?t fs (?t\<lparr>breaker := c\<rparr>) \<and> cb_state c = HalfOpen \<and> half_open_requests c = m \<and> cb_config c = cb_config (breaker ?t)"
    using Suc.prems less b by (intro Suc.IH) (auto simp: inc_le)
  with step b(4) show ?case by (auto intro: run_append)
qed

text \<open>From a fresh breaker: the half-open state with so many probes counted and no call running.\<close>

lemma probes_counted:
  assumes "0 < n" and "m \<le> half_open_max_requests config"
  shows "\<exists>es s. run cb_step (fresh_system config n) es s \<and> cb_config (breaker s) = config \<and> cb_state (breaker s) = HalfOpen
    \<and> half_open_requests (breaker s) = m \<and> tasks s = replicate n Idle"
proof -
  let ?s = "fresh_system config n"
  have s: "0 < length (tasks ?s)" "tasks ?s ! 0 = Idle" "resting ?s" "cb_config (breaker ?s) = config" "cb_state (breaker ?s) = Closed"
    "recent_failures (breaker ?s) = []" "tasks ?s = replicate n Idle"
    using assms(1) by (simp_all add: fresh_system_def resting_def breaker_new_def)
  obtain es b c where half: "run cb_step ?s es (?s\<lparr>breaker := b, clock := c, tasks := (tasks ?s)[0 := Running]\<rparr>)" "cb_config b = config"
    "cb_state b = HalfOpen" "half_open_requests b = 0" using reach_half_open[OF s(1-6)] unfolding proceeds_def by blast
  let ?r = "?s\<lparr>breaker := b, clock := c, tasks := (tasks ?s)[0 := Running]\<rparr>" and ?t = "?s\<lparr>breaker := b, clock := c\<rparr>"
  have "?r\<lparr>tasks := (tasks ?r)[0 := Idle]\<rparr> = ?t" using s(2) by (cases ?s) (auto simp: update_same)
  then have "run cb_step ?r [Dropped] ?t" using drop_alone[of 0 ?r] s(1) by simp
  moreover obtain fs d where "run cb_step ?t fs (?t\<lparr>breaker := d\<rparr>)" "cb_state d = HalfOpen" "half_open_requests d = m" "cb_config d = cb_config (breaker ?t)"
    using exhaust[of m ?t _ 0] s half(2-4) assms(2) by auto
  ultimately have "run cb_step ?s (es @ [Dropped] @ fs) (?t\<lparr>breaker := d\<rparr>)" by (intro run_append[OF half(1)] run_append)
  moreover have "tasks (?t\<lparr>breaker := d\<rparr>) = replicate n Idle" by (simp add: s(7))
  ultimately show ?thesis using \<open>cb_state d = HalfOpen\<close> \<open>half_open_requests d = m\<close> \<open>cb_config d = cb_config (breaker ?t)\<close> half(2)
    by (intro exI[of _ "es @ [Dropped] @ fs"] exI[of _ "?t\<lparr>breaker := d\<rparr>"]) simp
qed

section \<open>The wedged half-open state\<close>

text \<open>
  A half-open breaker whose probes are used up and no longer running: nothing gives a probe
  back, so only an operator can move it.
\<close>

definition wedged :: "cb_system \<Rightarrow> bool" where
  "wedged s \<longleftrightarrow> cb_state (breaker s) = HalfOpen \<and> half_open_max_requests (cb_config (breaker s)) \<le> half_open_requests (breaker s)
     \<and> set (tasks s) \<subseteq> {Idle, ReadingState, LoadingRequests, Refused}"

lemma wedged_step:
  assumes "wedged s" and "cb_step s e t"
  shows "wedged t \<and> e \<noteq> Start"
  using assms(2)
proof (cases rule: cb_step.cases)
  case (accessed i p b)
  have "tasks s ! i \<in> {Idle, ReadingState, LoadingRequests, Refused}"
    using assms(1) nth_mem[OF accessed(3)] unfolding wedged_def by blast
  with accessed assms(1) show ?thesis
    by (auto simp: wedged_def access_event_def not_less[symmetric] dest!: set_update_cases)
next
  case (returned i ok)
  with assms(1) nth_mem[OF returned(3)] show ?thesis by (auto simp: wedged_def)
next
  case (dropped i)
  with assms(1) nth_mem[OF dropped(3)] show ?thesis by (auto simp: wedged_def)
qed (use assms(1) in \<open>auto simp: wedged_def dest!: set_update_cases\<close>)

text \<open>
  C22: the half-open state can wedge for good, under every configuration. \<open>half_open_requests\<close>
  is only ever reset on the way from open to half-open and is never decremented, so probes
  whose caller gave up leave the breaker half-open with no budget and nothing running: from
  there on every call is rejected and, however much time passes, no probe is let through.
\<close>

theorem half_open_wedges:
  "\<exists>s. reachable (cb_init config) cb_step s \<and> cb_state (breaker s) = HalfOpen
     \<and> (\<forall>es t. run cb_step s es t \<longrightarrow> Start \<notin> set es \<and> cb_state (breaker t) = HalfOpen)"
proof -
  obtain es w where w: "run cb_step (fresh_system config 1) es w" "cb_config (breaker w) = config" "cb_state (breaker w) = HalfOpen"
    "half_open_requests (breaker w) = half_open_max_requests config" "tasks w = replicate 1 Idle"
    using probes_counted[of 1 "half_open_max_requests config" config] by auto
  then have wedged: "wedged w" by (simp add: wedged_def)
  have "reachable (cb_init config) cb_step w"
    using w(1) fresh_init[of 1 config] unfolding reachable_def by auto
  moreover have "Start \<notin> set fs \<and> wedged x" if "run cb_step w fs x" for fs x
    using that wedged by (induction rule: run.induct) (auto dest: wedged_step)
  ultimately show ?thesis using wedged unfolding wedged_def by blast
qed

theorem half_open_wedges_witness:
  "\<exists>s. reachable (cb_init default_breaker_config) cb_step s \<and> cb_state (breaker s) = HalfOpen
     \<and> (\<forall>es t. run cb_step s es t \<longrightarrow> Start \<notin> set es \<and> cb_state (breaker t) = HalfOpen)"
  by (rule half_open_wedges)

section \<open>Races between calls\<close>

text \<open>
  Two calls that look at the counter before either counts itself are both let through: the bound on probes is checked and then
  acted on, so it can be exceeded.
\<close>

theorem probe_limit_exceeded:
  assumes "0 < half_open_max_requests config"
  shows "\<exists>es s. run cb_step (fresh_system config 2) es s \<and> cb_state (breaker s) = HalfOpen
    \<and> half_open_requests (breaker s) = half_open_max_requests config + 1 \<and> tasks s = [Running, Running]"
proof -
  let ?max = "half_open_max_requests config"
  have less: "?max - 1 < ?max" using assms by (simp add: word_less_nat_alt unat_sub_if')
  then obtain es s where s: "run cb_step (fresh_system config 2) es s" "cb_config (breaker s) = config" "cb_state (breaker s) = HalfOpen"
    "half_open_requests (breaker s) = ?max - 1" "tasks s = [Idle, Idle]"
    using probes_counted[OF _ less_imp_le[OF less], of 2] by (auto simp: numeral_2_eq_2)
  have calm: "calm i x" if "tasks x = [p, q]" "\<not> holds_time p" "\<not> holds_time q" for i x p q
    using that by (auto simp: calm_def less_Suc_eq)
  note free = holds_time_def
  let ?t = "\<lambda>b xs. s\<lparr>breaker := b, tasks := xs\<rparr>" and ?b = "breaker s"
  let ?b1 = "?b\<lparr>half_open_requests := ?max, cb_metrics := record_request (cb_metrics ?b)\<rparr>"
  let ?b2 = "?b1\<lparr>half_open_requests := ?max + 1, cb_metrics := record_request (cb_metrics ?b1)\<rparr>"
  have "proceeds s (?t ?b [ReadingState, Idle])"
    using proceeds_step[OF begun[of 0 s]] s(5) by simp
  also have "proceeds (?t ?b [ReadingState, Idle]) (?t ?b [ReadingState, ReadingState])"
    using proceeds_step[OF begun[of 1 "?t ?b [ReadingState, Idle]"]] by simp
  also have "proceeds (?t ?b [ReadingState, ReadingState]) (?t ?b [CountingProbe, ReadingState])"
    using walk_proceeds[of 0 "?t ?b [ReadingState, ReadingState]" 2 CountingProbe ?b] calm s(2-4) less by (simp add: free numeral_2_eq_2)
  also have "proceeds (?t ?b [CountingProbe, ReadingState]) (?t ?b [CountingProbe, CountingProbe])"
    using walk_proceeds[of 1 "?t ?b [CountingProbe, ReadingState]" 2 CountingProbe ?b] calm s(2-4) less by (simp add: free numeral_2_eq_2)
  also have "proceeds (?t ?b [CountingProbe, CountingProbe]) (?t ?b1 [Running, CountingProbe])"
    using walk_proceeds[of 0 "?t ?b [CountingProbe, CountingProbe]" 2 Running ?b1] calm s(4) by (simp add: free numeral_2_eq_2)
  also have "proceeds (?t ?b1 [Running, CountingProbe]) (?t ?b2 [Running, Running])"
    using walk_proceeds[of 1 "?t ?b1 [Running, CountingProbe]" 2 Running ?b2] calm by (simp add: free numeral_2_eq_2)
  finally obtain fs where "run cb_step s fs (?t ?b2 [Running, Running])" unfolding proceeds_def by blast
  from run_append[OF s(1) this] s(3) show ?thesis
    by (intro exI[of _ "es @ fs"] exI[of _ "?t ?b2 [Running, Running]"]) simp
qed

text \<open>Successes one after another that leave one to go.\<close>

lemma almost_closed:
  "unat (success_threshold (cb_config (breaker s))) - Suc (unat (half_open_successes (breaker s))) = n \<Longrightarrow>
   0 < length (tasks s) \<Longrightarrow> tasks s ! 0 = Running \<Longrightarrow> resting s \<Longrightarrow> cb_state (breaker s) = HalfOpen \<Longrightarrow>
   half_open_successes (breaker s) = 0 \<or> half_open_successes (breaker s) < success_threshold (cb_config (breaker s)) \<Longrightarrow>
   unat (half_open_requests (breaker s)) + n \<le> unat (half_open_max_requests (cb_config (breaker s))) \<Longrightarrow>
   \<exists>b. proceeds s (s\<lparr>breaker := b\<rparr>) \<and> cb_state b = HalfOpen \<and> cb_config b = cb_config (breaker s)
     \<and> success_threshold (cb_config b) \<le> half_open_successes b + 1"
proof (induction n arbitrary: s)
  case 0
  have "success_threshold (cb_config (breaker s)) \<le> half_open_successes (breaker s) + 1"
  proof (cases "half_open_successes (breaker s) < success_threshold (cb_config (breaker s))")
    case True
    then have "Suc (unat (half_open_successes (breaker s))) < 2 ^ 32"
      using u32_less[of "success_threshold (cb_config (breaker s))"] by (simp add: word_less_nat_alt)
    with 0(1) show ?thesis by (simp add: word_le_nat_alt unat_word_ariths)
  next
    case False
    with 0 show ?thesis by (auto simp: word_le_nat_alt)
  qed
  with 0 show ?case by (intro exI[of _ "breaker s"]) simp
next
  case (Suc n)
  let ?b = "call_succeeded (clock s) (breaker s)" and ?succ = "half_open_successes (breaker s) + 1"
  let ?r = "s\<lparr>breaker := ?b, tasks := (tasks s)[0 := Idle]\<rparr>"
  have more: "unat ?succ = Suc (unat (half_open_successes (breaker s)))" "?succ < success_threshold (cb_config (breaker s))"
    using Suc.prems(1) u32_less[of "success_threshold (cb_config (breaker s))"]
    by (auto simp: word_less_nat_alt unat_word_ariths)
  then have b: "cb_state ?b = HalfOpen" "half_open_successes ?b = ?succ" "cb_config ?b = cb_config (breaker s)"
    "half_open_requests ?b = half_open_requests (breaker s)"
    using Suc.prems(5) by (simp_all add: call_succeeded_def on_success_def Let_def not_le)
  have "half_open_requests ?b < half_open_max_requests (cb_config ?b)" using Suc.prems(7) b by (simp add: word_less_nat_alt)
  then obtain c where c: "call_start (clock s) ?b = (True, c)" "cb_state c = HalfOpen" "half_open_requests c = half_open_requests (breaker s) + 1"
    "half_open_successes c = ?succ" "cb_config c = cb_config (breaker s)"
    using b by (simp add: call_start_def allow_request_def)
  have "proceeds s ?r" using return_alone[OF Suc.prems(2,3) resting_calm[OF Suc.prems(4)], of True] by simp
  also have "calm 0 ?r" by (rule resting_calm) (simp add: Suc.prems(4))
  then have "proceeds ?r (?r\<lparr>breaker := c, tasks := (tasks ?r)[0 := Running]\<rparr>)"
    using Suc.prems(2) c(1) by (intro start_alone) simp_all
  also have "?r\<lparr>breaker := c, tasks := (tasks ?r)[0 := Running]\<rparr> = s\<lparr>breaker := c\<rparr>"
    using Suc.prems(3) by (cases s) (auto simp: update_same)
  finally have step: "proceeds s (s\<lparr>breaker := c\<rparr>)" .
  have "unat (half_open_requests (breaker s) + 1) = Suc (unat (half_open_requests (breaker s)))"
    using Suc.prems(7) u32_less[of "half_open_max_requests (cb_config (breaker s))"] by (simp add: unat_word_ariths)
  then have "\<exists>d. proceeds (s\<lparr>breaker := c\<rparr>) (s\<lparr>breaker := c\<rparr>\<lparr>breaker := d\<rparr>) \<and> cb_state d = HalfOpen
      \<and> cb_config d = cb_config (breaker (s\<lparr>breaker := c\<rparr>)) \<and> success_threshold (cb_config d) \<le> half_open_successes d + 1"
    using Suc.prems more c by (intro Suc.IH) auto
  with step c(5) show ?case by (auto intro: proceeds_trans)
qed

text \<open>An open circuit that does not know when it failed.\<close>

definition stuck_open :: "cb_system \<Rightarrow> bool" where
  "stuck_open s \<longleftrightarrow> cb_state (breaker s) = Open \<and> last_failure_time (breaker s) = None
     \<and> set (tasks s) \<subseteq> {Idle, ReadingState, ReadingFailureTime, Refused}"

lemma stuck_open_step:
  assumes "stuck_open s" and "cb_step s e t"
  shows "stuck_open t \<and> e \<noteq> Start"
  using assms(2)
proof (cases rule: cb_step.cases)
  case (accessed i p b)
  have "tasks s ! i \<in> {Idle, ReadingState, ReadingFailureTime, Refused}"
    using assms(1) nth_mem[OF accessed(3)] unfolding stuck_open_def by blast
  with accessed assms(1) show ?thesis
    by (auto simp: stuck_open_def access_event_def dest!: set_update_cases)
next
  case (returned i ok)
  with assms(1) nth_mem[OF returned(3)] show ?thesis by (auto simp: stuck_open_def)
next
  case (dropped i)
  with assms(1) nth_mem[OF dropped(3)] show ?thesis by (auto simp: stuck_open_def)
qed (use assms(1) in \<open>auto simp: stuck_open_def dest!: set_update_cases\<close>)

text \<open>
  C26: a call that fails and one that closes the circuit, both half-open probes, can leave it open for good. The failing call
  has noted its failure and read the half-open state; the succeeding one closes the circuit and clears the time of the
  last failure; then the first opens the circuit. It is open without a time from which the
  timeout could be measured, and every later call is rejected, however much time passes. Two tasks are enough, under every configuration
  whose probes suffice to close the circuit.
\<close>

theorem close_race_opens_for_good:
  assumes "unat (success_threshold config) \<le> unat (half_open_max_requests config) + 1"
  shows "\<exists>es s. run cb_step (fresh_system config 2) es s \<and> Dropped \<notin> set es \<and> Cancelled \<notin> set es
    \<and> cb_state (breaker s) = Open \<and> last_failure_time (breaker s) = None \<and> tasks s = [Idle, Idle]
    \<and> (\<forall>fs t. run cb_step s fs t \<longrightarrow> Start \<notin> set fs \<and> cb_state (breaker t) = Open)"
proof -
  let ?s = "fresh_system config 2" and ?b = "breaker_new config"
  have s: "tasks ?s = [Idle, Idle]" "breaker ?s = ?b" by (simp_all add: fresh_system_def numeral_2_eq_2)
  have rest: "resting x" if "tasks x = [p, q]" "{p, q} \<subseteq> {Idle, Running}" for x p q using that by (auto simp: resting_def)
  have calm: "calm i x" if "tasks x = [p, q]" "{p, q} \<subseteq> {Idle, Running, Opening, NotingFailure (clock x)}" for i x p q
    using that by (auto simp: calm_def less_Suc_eq holds_time_def)
  let ?s1 = "?s\<lparr>breaker := ?b\<lparr>cb_metrics := record_request (cb_metrics ?b)\<rparr>, tasks := [Idle, Running]\<rparr>"
  have 1: "proceeds ?s ?s1"
    using start_alone[of 1 ?s "?b\<lparr>cb_metrics := record_request (cb_metrics ?b)\<rparr>"] calm[OF s(1)] s
    by (simp add: call_start_def allow_request_def breaker_new_def)
  obtain b c where half: "proceeds ?s1 (?s1\<lparr>breaker := b, clock := c, tasks := [Running, Running]\<rparr>)" "cb_config b = config"
    "cb_state b = HalfOpen" "half_open_requests b = 0" "half_open_successes b = 0"
    using reach_half_open[of 0 ?s1 config] rest[of ?s1 Idle Running] by (auto simp: breaker_new_def)
  let ?s2 = "?s1\<lparr>breaker := b, clock := c, tasks := [Running, Running]\<rparr>"
  have "0 < length (tasks ?s2)" "tasks ?s2 ! 0 = Running" "resting ?s2" "cb_state (breaker ?s2) = HalfOpen"
    "half_open_successes (breaker ?s2) = 0 \<or> half_open_successes (breaker ?s2) < success_threshold (cb_config (breaker ?s2))"
    "unat (half_open_requests (breaker ?s2)) + (unat (success_threshold (cb_config (breaker ?s2))) - Suc (unat (half_open_successes (breaker ?s2))))
      \<le> unat (half_open_max_requests (cb_config (breaker ?s2)))"
    using half(2-5) assms rest[of ?s2 Running Running] by simp_all
  from almost_closed[OF refl this] obtain d where d: "proceeds ?s2 (?s2\<lparr>breaker := d\<rparr>)" "cb_state d = HalfOpen" "cb_config d = config"
    "success_threshold config \<le> half_open_successes d + 1" using half(2) by auto
  let ?s3 = "?s2\<lparr>breaker := d\<rparr>" and ?d = "clean_old_failures c (d\<lparr>last_failure_time := Some c, recent_failures := recent_failures d @ [c]\<rparr>)"
  let ?s4 = "?s3\<lparr>tasks := [Running, NotingFailure c]\<rparr>"
  have 3: "proceeds ?s3 ?s4" using proceeds_step[OF returned[of 1 ?s3 False]] by simp
  let ?s5 = "?s4\<lparr>breaker := ?d, tasks := [Running, Opening]\<rparr>"
  have 4: "proceeds ?s4 ?s5"
    using walk_proceeds[of 1 ?s4 4 Opening ?d] calm[of ?s4 Running "NotingFailure c"] d(2) by (simp add: numeral_eq_Suc)
  let ?e = "call_succeeded c ?d"
  let ?s6 = "?s5\<lparr>breaker := ?e, tasks := [Idle, Opening]\<rparr>"
  have e: "cb_state ?e = Closed" "last_failure_time ?e = None"
    using d(2-4) by (simp_all add: call_succeeded_def on_success_def Let_def)
  have 5: "proceeds ?s5 ?s6" using return_alone[of 0 ?s5 True] calm[of ?s5 Running Opening] by simp
  obtain f where f: "walk 3 c Opening ?e = (Idle, f)" "cb_state f = Open" "last_failure_time f = None"
    using e by (simp add: numeral_eq_Suc)
  let ?s7 = "?s6\<lparr>breaker := f, tasks := [Idle, Idle]\<rparr>"
  have 6: "proceeds ?s6 ?s7" using walk_proceeds[of 1 ?s6 3 Idle f] calm[of ?s6 Idle Opening] f(1) by simp
  have "proceeds ?s ?s7" by (rule proceeds_trans[OF 1 proceeds_trans[OF half(1) proceeds_trans[OF d(1)
      proceeds_trans[OF 3 proceeds_trans[OF 4 proceeds_trans[OF 5 6]]]]]])
  then obtain es where "run cb_step ?s es ?s7" "Dropped \<notin> set es" "Cancelled \<notin> set es" unfolding proceeds_def by blast
  moreover have stuck: "stuck_open ?s7" using f by (simp add: stuck_open_def)
  have "Start \<notin> set fs \<and> stuck_open t" if "run cb_step ?s7 fs t" for fs t
    using that stuck by (induction rule: run.induct) (auto dest: stuck_open_step)
  moreover have "cb_state (breaker ?s7) = Open \<and> last_failure_time (breaker ?s7) = None \<and> tasks ?s7 = [Idle, Idle]" using f by simp
  ultimately show ?thesis unfolding stuck_open_def by blast
qed

theorem close_race_opens_for_good_witness:
  "\<exists>es s. run cb_step (fresh_system default_breaker_config 2) es s \<and> cb_state (breaker s) = Open
    \<and> (\<forall>fs t. run cb_step s fs t \<longrightarrow> Start \<notin> set fs)"
  using close_race_opens_for_good [of default_breaker_config] by (auto simp: default_breaker_config_def)

theorem breaker_invariant_witness:
  "\<exists>es s. run cb_step (fresh_system default_breaker_config 2) es s \<and> unat (half_open_requests (breaker s)) = 5 + 1
    \<and> unat (half_open_requests (breaker s)) \<le> 5 + (2 - 1) \<and> (\<forall>t \<in> set (recent_failures (breaker s)). t \<le> clock s)"
proof -
  obtain es s where s: "run cb_step (fresh_system default_breaker_config 2) es s" "half_open_requests (breaker s) = 6"
    using probe_limit_exceeded[of default_breaker_config] by (auto simp: default_breaker_config_def)
  with breaker_invariant [OF fresh_init[of 2 default_breaker_config] s(1)] show ?thesis
    by (intro exI[of _ es] exI[of _ s]) (simp add: default_breaker_config_def fresh_system_def)
qed

section \<open>An open circuit\<close>

text \<open>The phases of calls that found the circuit open, or return to it, with the times they carry.\<close>

definition quiet :: "instant \<Rightarrow> call_phase \<Rightarrow> bool" where
  "quiet t0 p \<longleftrightarrow> p \<in> {Idle, ReadingState, ReadingFailureTime, Refused, Running, SucceededReading, CleaningAfterSuccess,
     RecordingSuccess, CleaningAfterFailure, FailedReading, RecordingFailure}
   \<or> (\<exists>t \<ge> t0. p = NotingFailure t \<or> p = PushingFailure t)"

definition shut :: "CircuitBreakerConfig \<Rightarrow> instant \<Rightarrow> cb_system \<Rightarrow> bool" where
  "shut config t0 s \<longleftrightarrow> cb_config (breaker s) = config \<and> cb_state (breaker s) = Open \<and> t0 \<le> clock s
     \<and> (\<exists>t \<ge> t0. last_failure_time (breaker s) = Some t) \<and> (\<forall>p \<in> set (tasks s). quiet t0 p)"

lemma cb_step_clock: "cb_step s e t \<Longrightarrow> clock s \<le> clock t"
  by (cases rule: cb_step.cases) auto

lemma cb_run_clock: "run cb_step s es t \<Longrightarrow> clock s \<le> clock t"
  by (induction rule: run.induct) (auto dest: cb_step_clock)

lemma shut_phase: "shut config t0 s \<Longrightarrow> quiet t0 p \<Longrightarrow> shut config t0 (s\<lparr>tasks := (tasks s)[i := p]\<rparr>)"
  by (auto simp: shut_def dest!: set_update_cases)

lemma shut_access:
  assumes s: "shut config t0 s" and i: "i < length (tasks s)" and late: "clock s - t0 \<le> int (cb_timeout config)"
    and adv: "advance (clock s) (tasks s ! i) (breaker s) = (p, b)"
  shows "shut config t0 (s\<lparr>breaker := b, tasks := (tasks s)[i := p]\<rparr>) \<and> tasks s ! i \<noteq> Admitted"
proof -
  have q: "quiet t0 (tasks s ! i)" using s nth_mem[OF i] by (simp add: shut_def)
  obtain t1 where t1: "last_failure_time (breaker s) = Some t1" "t0 \<le> t1" and st: "cb_state (breaker s) = Open" "cb_config (breaker s) = config"
    using s by (auto simp: shut_def)
  have stays: "\<not> cb_timeout config < duration_since (clock s) t1" using late t1(2) by simp
  note qs = q[unfolded quiet_def]
  have "quiet t0 p" using qs adv t1 st stays unfolding quiet_def by (cases "tasks s ! i") (simp_all, blast?)
  moreover have "cb_config b = config \<and> cb_state b = Open" using qs adv st by (cases "tasks s ! i") auto
  moreover have "\<exists>t \<ge> t0. last_failure_time b = Some t" using qs adv t1 by (cases "tasks s ! i") auto
  ultimately have "quiet t0 p \<and> cb_config b = config \<and> cb_state b = Open \<and> (\<exists>t \<ge> t0. last_failure_time b = Some t)" by simp
  then show ?thesis using s q by (auto simp: shut_def quiet_def[of _ Admitted] dest!: set_update_cases)
qed

lemma shut_step:
  assumes "cb_step s e t" and "shut config t0 s" and "clock t - t0 \<le> int (cb_timeout config)"
  shows "shut config t0 t \<and> e \<noteq> Start"
  using assms(1)
proof (cases rule: cb_step.cases)
  case (accessed i p b)
  have "clock s - t0 \<le> int (cb_timeout config)" using assms(3) accessed(2) by simp
  from shut_access[OF assms(2) accessed(3) this accessed(6)] accessed(1,2) show ?thesis
    by (cases "tasks s ! i") (simp_all add: access_event_def)
qed (use assms(2) in \<open>auto intro!: shut_phase simp: quiet_def\<close>, use assms(2) in \<open>auto simp: shut_def\<close>)

text \<open>
  An open circuit protects the service: when no call is inside the methods, whatever calls start, finish or are given up, every call is
  rejected and it stays open until the timeout has elapsed.
\<close>

theorem open_circuit_rejects:
  assumes "run cb_step s es s'" and "cb_state (breaker s) = Open" and "set (tasks s) \<subseteq> {Idle, Running}"
    and "last_failure_time (breaker s) = Some t0" and "t0 \<le> clock s"
    and "clock s' - t0 \<le> int (cb_timeout (cb_config (breaker s)))"
  shows "Start \<notin> set es \<and> cb_state (breaker s') = Open"
proof -
  have "shut config t0 s \<Longrightarrow> clock s' - t0 \<le> int (cb_timeout config) \<Longrightarrow> Start \<notin> set es \<and> shut config t0 s'" for config
    using assms(1)
  proof (induction rule: run.induct)
    case (run_step s e t es u)
    from cb_run_clock[OF run_step.hyps(2)] run_step.prems(2) have "clock t - t0 \<le> int (cb_timeout config)" by simp
    from shut_step[OF run_step.hyps(1) run_step.prems(1) this] run_step.IH run_step.prems(2) show ?case by auto
  qed simp
  moreover have "shut (cb_config (breaker s)) t0 s" using assms(2-5) by (auto simp: shut_def quiet_def)
  ultimately show ?thesis using assms(6) by (auto simp: shut_def)
qed

theorem open_circuit_rejects_witness:
  "\<exists>s'. run cb_step \<lparr>breaker = force_open 0 (breaker_new default_breaker_config), clock = 0, tasks = [Running]\<rparr>
      [Tick (from_secs 59), Dropped] s' \<and> cb_state (breaker s') = Open"
proof -
  let ?s = "\<lparr>breaker = force_open 0 (breaker_new default_breaker_config), clock = 0, tasks = [Running]\<rparr>"
  let ?t = "?s\<lparr>clock := int (from_secs 59)\<rparr>"
  have "cb_step ?s (Tick (from_secs 59)) ?t" using tick[of ?s "from_secs 59"] by simp
  moreover have "cb_step ?t Dropped (?t\<lparr>tasks := [Idle]\<rparr>)" using dropped[of 0 ?t] by simp
  ultimately have r: "run cb_step ?s [Tick (from_secs 59), Dropped] (?t\<lparr>tasks := [Idle]\<rparr>)" by (blast intro: run.intros)
  have "cb_state (breaker (?t\<lparr>tasks := [Idle]\<rparr>)) = Open"
    using open_circuit_rejects [OF r, of 0]
    by (simp add: force_open_def breaker_new_def default_breaker_config_def from_secs_def)
  with r show ?thesis by blast
qed

section \<open>Two callers of the manager\<close>

text \<open>
  The manager hands out one breaker per service to callers that take turns, but two
  callers that both miss before either inserts get different breakers: the second insertion
  replaces the first in the map, so the failures the first caller records are never seen by
  anyone who asks for the service later.
\<close>

theorem get_breaker_sharing:
  "(case get_breaker name m of (a, m1) \<Rightarrow> get_breaker name m1 = (a, m1))
   \<and> (case insert_breaker name m of (a, m1) \<Rightarrow> case insert_breaker name m1 of (b, m2) \<Rightarrow>
        a \<noteq> b \<and> get_breaker name m2 = (b, m2) \<and> cells m2 ! a = breaker_new (default_config m))"
proof
  show "case get_breaker name m of (a, m1) \<Rightarrow> get_breaker name m1 = (a, m1)"
    by (cases "lookup_breaker name m")
      (simp_all add: get_breaker_def insert_breaker_def, simp add: lookup_breaker_def update_conv')
qed (simp add: get_breaker_def insert_breaker_def lookup_breaker_def update_conv' nth_append)

end
