(* ===== verification/Backpressure.thy ===== *)
theory Backpressure
  imports Steps F64 Errors
begin

text \<open>
  \<open>src/src/backpressure.rs\<close>: bounded channels whose capacity is enforced by a semaphore, and
  the manager with one channel per priority. The channel and the semaphore are tokio's, a
  parameter \<open>T\<close> of the model; \<open>tokio_ok\<close> states what the code relies on. A send waits twice, for
  a permit and for the channel, so it is two steps; what an elapsed timeout does is a step of
  its own.
\<close>

section \<open>Configuration, priorities and messages\<close>

record BackpressureConfig =
  max_pending :: u64
  send_timeout :: duration
  enable_priority :: bool
  memory_pressure_threshold :: f64
  enable_adaptive_capacity :: bool
  throughput_window_size :: u64

definition default_backpressure_config :: BackpressureConfig where
  "default_backpressure_config = \<lparr>max_pending = 10000, send_timeout = from_millis 1000, enable_priority = True,
     memory_pressure_threshold = f64_round (8 / 10), enable_adaptive_capacity = True, throughput_window_size = 100\<rparr>"

datatype Priority = Low | Normal | High | Critical

fun priority_index :: "Priority \<Rightarrow> nat" where
  "priority_index Low = 0"
| "priority_index Normal = 1"
| "priority_index High = 2"
| "priority_index Critical = 3"

lemma priority_index_eq [simp]: "priority_index p = priority_index q \<longleftrightarrow> p = q"
  by (cases p; cases q) simp_all

text \<open>The order the code derives.\<close>

instantiation Priority :: linorder
begin

definition less_eq_Priority :: "Priority \<Rightarrow> Priority \<Rightarrow> bool" where
  "p \<le> q \<longleftrightarrow> priority_index p \<le> priority_index q"

definition less_Priority :: "Priority \<Rightarrow> Priority \<Rightarrow> bool" where
  "p < q \<longleftrightarrow> priority_index p < priority_index q"

instance
  by standard (auto simp: less_eq_Priority_def less_Priority_def)

end

lemma priority_index_less: "priority_index p < 4"
  by (cases p) simp_all

record 'a PrioritizedMessage =
  msg_data :: 'a
  msg_priority :: Priority
  created_at :: instant
  retry_count :: u32

definition new_message :: "instant \<Rightarrow> 'a \<Rightarrow> Priority \<Rightarrow> 'a PrioritizedMessage" where
  "new_message now d p = \<lparr>msg_data = d, msg_priority = p, created_at = now, retry_count = 0\<rparr>"

definition message_age :: "instant \<Rightarrow> 'a PrioritizedMessage \<Rightarrow> duration" where
  "message_age now m = duration_since now (created_at m)"

definition increment_retry :: "'a PrioritizedMessage \<Rightarrow> 'a PrioritizedMessage" where
  "increment_retry m = m\<lparr>retry_count := retry_count m + 1\<rparr>"

section \<open>Metrics\<close>

record BackpressureMetrics =
  total_sent :: u64
  total_received :: u64
  total_dropped :: u64
  total_timeouts :: u64
  current_pending :: u64
  max_pending_reached :: u64
  avg_latency_ms :: u64

definition default_bp_metrics :: BackpressureMetrics where
  "default_bp_metrics = \<lparr>total_sent = 0, total_received = 0, total_dropped = 0, total_timeouts = 0,
     current_pending = 0, max_pending_reached = 0, avg_latency_ms = 0\<rparr>"

definition record_sent :: "BackpressureMetrics \<Rightarrow> BackpressureMetrics" where
  "record_sent m = m\<lparr>total_sent := total_sent m + 1\<rparr>"

text \<open>\<open>fetch_sub\<close> wraps.\<close>

definition record_received :: "BackpressureMetrics \<Rightarrow> BackpressureMetrics" where
  "record_received m = m\<lparr>total_received := total_received m + 1, current_pending := current_pending m - 1\<rparr>"

definition record_dropped :: "BackpressureMetrics \<Rightarrow> BackpressureMetrics" where
  "record_dropped m = m\<lparr>total_dropped := total_dropped m + 1, current_pending := current_pending m - 1\<rparr>"

definition record_timeout :: "BackpressureMetrics \<Rightarrow> BackpressureMetrics" where
  "record_timeout m = m\<lparr>total_timeouts := total_timeouts m + 1\<rparr>"

text \<open>The compare-and-exchange loop raises the maximum to at least \<open>count\<close>.\<close>

definition record_pending :: "u64 \<Rightarrow> BackpressureMetrics \<Rightarrow> BackpressureMetrics" where
  "record_pending count m = m\<lparr>current_pending := count,
     max_pending_reached := (if count > max_pending_reached m then count else max_pending_reached m)\<rparr>"

definition record_latency :: "duration \<Rightarrow> BackpressureMetrics \<Rightarrow> BackpressureMetrics" where
  "record_latency latency m =
    (let latency_ms = of_nat (as_millis latency);
         current = avg_latency_ms m
     in m\<lparr>avg_latency_ms := (if current = 0 then latency_ms else (current * 7 + latency_ms) div 8)\<rparr>)"

section \<open>tokio\<close>

datatype SendResult = SendOk | SendFull | SendClosed
datatype 'm RecvResult = RecvOk 'm | RecvEmpty | RecvDisconnected

text \<open>
  \<open>mpsc::channel\<close> panics for a capacity of 0 (\<open>None\<close>). Sending or receiving with \<open>await\<close> is the
  same operation at the moment it can proceed.
\<close>

record ('ch, 'sem, 'm) tokio =
  mpsc_channel :: "u64 \<Rightarrow> 'ch option"
  mpsc_send :: "'m \<Rightarrow> 'ch \<Rightarrow> SendResult \<times> 'ch"
  mpsc_recv :: "'ch \<Rightarrow> 'm RecvResult \<times> 'ch"
  sem_new :: "u64 \<Rightarrow> 'sem"
  sem_acquire :: "'sem \<Rightarrow> bool \<times> 'sem"
  sem_add :: "'sem \<Rightarrow> 'sem"
  sem_available :: "'sem \<Rightarrow> u64"

text \<open>
  The laws: a channel is a queue of messages with a capacity, full exactly when the capacity
  is used; a semaphore is a number of permits.
\<close>

definition channel_ok :: "('ch, 'sem, 'm) tokio \<Rightarrow> ('ch \<Rightarrow> 'm list) \<Rightarrow> ('ch \<Rightarrow> u64) \<Rightarrow> bool" where
  "channel_ok T queued capacity \<longleftrightarrow> (\<forall>n. case mpsc_channel T n of
     None \<Rightarrow> n = 0 | Some ch \<Rightarrow> n \<noteq> 0 \<and> queued ch = [] \<and> capacity ch = n)"

definition send_ok :: "('ch, 'sem, 'm) tokio \<Rightarrow> ('ch \<Rightarrow> 'm list) \<Rightarrow> ('ch \<Rightarrow> u64) \<Rightarrow> bool" where
  "send_ok T queued capacity \<longleftrightarrow> (\<forall>m ch. case mpsc_send T m ch of (r, ch') \<Rightarrow> capacity ch' = capacity ch
     \<and> queued ch' = (if r = SendOk then queued ch @ [m] else queued ch)
     \<and> (r = SendOk \<longrightarrow> length (queued ch) < unat (capacity ch))
     \<and> (r = SendFull \<longrightarrow> unat (capacity ch) \<le> length (queued ch)))"

definition recv_ok :: "('ch, 'sem, 'm) tokio \<Rightarrow> ('ch \<Rightarrow> 'm list) \<Rightarrow> ('ch \<Rightarrow> u64) \<Rightarrow> bool" where
  "recv_ok T queued capacity \<longleftrightarrow> (\<forall>ch. case mpsc_recv T ch of (r, ch') \<Rightarrow> capacity ch' = capacity ch
     \<and> (case r of RecvOk m \<Rightarrow> queued ch = m # queued ch' | _ \<Rightarrow> queued ch = [] \<and> queued ch' = []))"

definition sem_ok :: "('ch, 'sem, 'm) tokio \<Rightarrow> bool" where
  "sem_ok T \<longleftrightarrow> (\<forall>n. sem_available T (sem_new T n) = n)
     \<and> (\<forall>s. sem_available T (sem_add T s) = sem_available T s + 1)
     \<and> (\<forall>s. case sem_acquire T s of (b, s') \<Rightarrow> b = (sem_available T s \<noteq> 0)
          \<and> sem_available T s' = (if b then sem_available T s - 1 else sem_available T s))"

definition tokio_ok :: "('ch, 'sem, 'm) tokio \<Rightarrow> ('ch \<Rightarrow> 'm list) \<Rightarrow> ('ch \<Rightarrow> u64) \<Rightarrow> bool" where
  "tokio_ok T queued capacity \<longleftrightarrow>
     channel_ok T queued capacity \<and> send_ok T queued capacity \<and> recv_ok T queued capacity \<and> sem_ok T"

section \<open>A channel with backpressure\<close>

record ('ch, 'sem) bp_channel =
  bp_config :: BackpressureConfig
  bp_chan :: 'ch
  bp_sem :: 'sem
  bp_metrics :: BackpressureMetrics

definition bounded_with_backpressure :: "('ch, 'sem, 'a PrioritizedMessage) tokio \<Rightarrow> BackpressureConfig
    \<Rightarrow> ('ch, 'sem) bp_channel option" where
  "bounded_with_backpressure T config = (case mpsc_channel T (max_pending config) of
     None \<Rightarrow> None
   | Some ch \<Rightarrow> Some \<lparr>bp_config = config, bp_chan = ch, bp_sem = sem_new T (max_pending config),
       bp_metrics = default_bp_metrics\<rparr>)"

text \<open>\<open>send\<close>, first half: a permit, or an error when none came in time.\<close>

definition send_acquire :: "('ch, 'sem, 'm) tokio \<Rightarrow> ('ch, 'sem) bp_channel \<Rightarrow> bool \<times> ('ch, 'sem) bp_channel" where
  "send_acquire T c = (case sem_acquire T (bp_sem c) of (ok, s) \<Rightarrow> (ok, c\<lparr>bp_sem := s\<rparr>))"

definition send_permit_timeout :: "('ch, 'sem) bp_channel \<Rightarrow> RaftError + unit" where
  "send_permit_timeout c = Inl (Timeout ''acquire send permit'' (send_timeout (bp_config c)))"

text \<open>
  \<open>send\<close>, second half, holding the permit: the permit is forgotten when the message was
  queued, and given back in every other case.
\<close>

definition send_complete :: "('ch, 'sem, 'a PrioritizedMessage) tokio \<Rightarrow> instant \<Rightarrow> 'a \<Rightarrow> Priority
    \<Rightarrow> ('ch, 'sem) bp_channel \<Rightarrow> (RaftError + unit) \<times> ('ch, 'sem) bp_channel" where
  "send_complete T now d p c = (case mpsc_send T (new_message now d p) (bp_chan c) of
     (SendOk, ch) \<Rightarrow> (Inr (), c\<lparr>bp_chan := ch, bp_metrics := record_sent (bp_metrics c)\<rparr>)
   | (_, ch) \<Rightarrow> (Inl (Internal ''Channel closed''), c\<lparr>bp_chan := ch, bp_sem := sem_add T (bp_sem c)\<rparr>))"

definition send_elapsed :: "('ch, 'sem, 'm) tokio \<Rightarrow> ('ch, 'sem) bp_channel \<Rightarrow> (RaftError + unit) \<times> ('ch, 'sem) bp_channel" where
  "send_elapsed T c = (Inl (Timeout ''send message'' (send_timeout (bp_config c))),
     c\<lparr>bp_metrics := record_timeout (bp_metrics c), bp_sem := sem_add T (bp_sem c)\<rparr>)"

definition bp_try_send :: "('ch, 'sem, 'a PrioritizedMessage) tokio \<Rightarrow> instant \<Rightarrow> 'a \<Rightarrow> Priority
    \<Rightarrow> ('ch, 'sem) bp_channel \<Rightarrow> (RaftError + unit) \<times> ('ch, 'sem) bp_channel" where
  "bp_try_send T now d p c = (case send_acquire T c of
     (False, c) \<Rightarrow> (Inl (Internal ''Channel at capacity''), c)
   | (True, c) \<Rightarrow> (case mpsc_send T (new_message now d p) (bp_chan c) of
       (SendOk, ch) \<Rightarrow> (Inr (), c\<lparr>bp_chan := ch, bp_metrics := record_sent (bp_metrics c)\<rparr>)
     | (SendFull, ch) \<Rightarrow> (Inl (Internal ''Channel full''), c\<lparr>bp_chan := ch, bp_sem := sem_add T (bp_sem c)\<rparr>)
     | (SendClosed, ch) \<Rightarrow> (Inl (Internal ''Channel closed''), c\<lparr>bp_chan := ch, bp_sem := sem_add T (bp_sem c)\<rparr>)))"

definition is_under_backpressure :: "('ch, 'sem, 'm) tokio \<Rightarrow> ('ch, 'sem) bp_channel \<Rightarrow> bool" where
  "is_under_backpressure T c =
    (let available = sem_available T (bp_sem c);
         total_permits = max_pending (bp_config c);
         usage_ratio = f64_div (f64_of_nat (unat (total_permits - available))) (f64_of_nat (unat total_permits))
     in usage_ratio > memory_pressure_threshold (bp_config c))"

text \<open>What \<open>recv\<close> and \<open>try_recv\<close> do with a message.\<close>

definition received :: "('ch, 'sem, 'a PrioritizedMessage) tokio \<Rightarrow> instant \<Rightarrow> 'a PrioritizedMessage
    \<Rightarrow> ('ch, 'sem) bp_channel \<Rightarrow> ('ch, 'sem) bp_channel" where
  "received T now message c =
     c\<lparr>bp_metrics := record_latency (message_age now message) (record_received (bp_metrics c)),
       bp_sem := sem_add T (bp_sem c)\<rparr>"

definition bp_try_recv :: "('ch, 'sem, 'a PrioritizedMessage) tokio \<Rightarrow> instant \<Rightarrow> ('ch, 'sem) bp_channel
    \<Rightarrow> (RaftError + 'a PrioritizedMessage) \<times> ('ch, 'sem) bp_channel" where
  "bp_try_recv T now c = (case mpsc_recv T (bp_chan c) of
     (RecvOk message, ch) \<Rightarrow> (Inr message, received T now message (c\<lparr>bp_chan := ch\<rparr>))
   | (RecvEmpty, ch) \<Rightarrow> (Inl (Internal ''No messages available''), c\<lparr>bp_chan := ch\<rparr>)
   | (RecvDisconnected, ch) \<Rightarrow> (Inl (Internal ''Channel disconnected''), c\<lparr>bp_chan := ch\<rparr>))"

text \<open>\<open>recv\<close> returns a message, or nothing when the channel is closed; otherwise it waits (\<open>Inl ()\<close>).\<close>

definition bp_recv :: "('ch, 'sem, 'a PrioritizedMessage) tokio \<Rightarrow> instant \<Rightarrow> ('ch, 'sem) bp_channel
    \<Rightarrow> (unit + 'a PrioritizedMessage option) \<times> ('ch, 'sem) bp_channel" where
  "bp_recv T now c = (case mpsc_recv T (bp_chan c) of
     (RecvOk message, ch) \<Rightarrow> (Inr (Some message), received T now message (c\<lparr>bp_chan := ch\<rparr>))
   | (RecvEmpty, ch) \<Rightarrow> (Inl (), c\<lparr>bp_chan := ch\<rparr>)
   | (RecvDisconnected, ch) \<Rightarrow> (Inr None, c\<lparr>bp_chan := ch\<rparr>))"

section \<open>One queue per priority\<close>

fun make_queues :: "('ch, 'sem, 'a PrioritizedMessage) tokio \<Rightarrow> BackpressureConfig \<Rightarrow> nat \<Rightarrow> ('ch, 'sem) bp_channel list option" where
  "make_queues T config 0 = Some []"
| "make_queues T config (Suc n) = (case bounded_with_backpressure T config of
     None \<Rightarrow> None
   | Some c \<Rightarrow> (case make_queues T config n of None \<Rightarrow> None | Some cs \<Rightarrow> Some (c # cs)))"

definition priority_manager_new :: "('ch, 'sem, 'a PrioritizedMessage) tokio \<Rightarrow> BackpressureConfig
    \<Rightarrow> ('ch, 'sem) bp_channel list option" where
  "priority_manager_new T config = make_queues T (config\<lparr>max_pending := max_pending config div 4\<rparr>) 4"

definition recv_prioritized :: "('ch, 'sem, 'a PrioritizedMessage) tokio \<Rightarrow> instant \<Rightarrow> ('ch, 'sem) bp_channel list
    \<Rightarrow> (unit + 'a PrioritizedMessage option) \<times> ('ch, 'sem) bp_channel list" where
  "recv_prioritized T now queues =
    (let try_queue = (\<lambda>p queues otherwise. case bp_try_recv T now (queues ! priority_index p) of
       (Inr message, c) \<Rightarrow> (Inr (Some message), queues[priority_index p := c])
     | (Inl _, c) \<Rightarrow> otherwise (queues[priority_index p := c]))
     in try_queue Critical queues (\<lambda>queues. try_queue High queues (\<lambda>queues. try_queue Normal queues (\<lambda>queues.
        try_queue Low queues (\<lambda>queues.
          case bp_recv T now (queues ! priority_index Critical) of
            (r, c) \<Rightarrow> (r, queues[priority_index Critical := c]))))))"

definition aggregate_metrics :: "('ch, 'sem) bp_channel list \<Rightarrow> BackpressureMetrics" where
  "aggregate_metrics queues =
    (let ms = map bp_metrics queues;
         counted = filter (\<lambda>m. total_received m > 0) ms;
         latency_sum = (\<Sum>m\<leftarrow>counted. avg_latency_ms m * total_received m);
         latency_count = (\<Sum>m\<leftarrow>counted. total_received m)
     in \<lparr>total_sent = (\<Sum>m\<leftarrow>ms. total_sent m), total_received = (\<Sum>m\<leftarrow>ms. total_received m),
         total_dropped = (\<Sum>m\<leftarrow>ms. total_dropped m), total_timeouts = (\<Sum>m\<leftarrow>ms. total_timeouts m),
         current_pending = (\<Sum>m\<leftarrow>ms. current_pending m),
         max_pending_reached = foldl max 0 (map max_pending_reached ms),
         avg_latency_ms = (if latency_count > 0 then latency_sum div latency_count else 0)\<rparr>)"

section \<open>Senders and receivers of one channel\<close>

datatype 'a bp_event =
    Acquired
  | Completed 'a Priority "RaftError + unit"
  | Elapsed
  | TrySent 'a Priority "RaftError + unit"
  | TryReceived "RaftError + 'a PrioritizedMessage"

text \<open>A channel with the clock and the number of senders that hold a permit.\<close>

record ('ch, 'sem) bp_system =
  bp_channel :: "('ch, 'sem) bp_channel"
  holders :: nat

inductive bp_step :: "('ch, 'sem, 'a PrioritizedMessage) tokio \<Rightarrow> ('ch, 'sem) bp_system \<Rightarrow> 'a bp_event
    \<Rightarrow> ('ch, 'sem) bp_system \<Rightarrow> bool" for T where
  acquired: "send_acquire T (bp_channel s) = (True, c) \<Longrightarrow>
    bp_step T s Acquired (s\<lparr>bp_channel := c, holders := holders s + 1\<rparr>)"
| completed: "0 < holders s \<Longrightarrow> send_complete T now d p (bp_channel s) = (r, c) \<Longrightarrow>
    bp_step T s (Completed d p r) (s\<lparr>bp_channel := c, holders := holders s - 1\<rparr>)"
| elapsed: "0 < holders s \<Longrightarrow> send_elapsed T (bp_channel s) = (r, c) \<Longrightarrow>
    bp_step T s Elapsed (s\<lparr>bp_channel := c, holders := holders s - 1\<rparr>)"
| try_sent: "bp_try_send T now d p (bp_channel s) = (r, c) \<Longrightarrow> bp_step T s (TrySent d p r) (s\<lparr>bp_channel := c\<rparr>)"
| try_received: "bp_try_recv T now (bp_channel s) = (r, c) \<Longrightarrow> bp_step T s (TryReceived r) (s\<lparr>bp_channel := c\<rparr>)"

definition bp_init :: "('ch, 'sem, 'a PrioritizedMessage) tokio \<Rightarrow> BackpressureConfig \<Rightarrow> ('ch, 'sem) bp_system \<Rightarrow> bool" where
  "bp_init T config s \<longleftrightarrow> bounded_with_backpressure T config = Some (bp_channel s) \<and> holders s = 0"

section \<open>Permits and messages\<close>

lemma channel_okD: "tokio_ok T queued capacity \<Longrightarrow> mpsc_channel T n = Some ch \<Longrightarrow> queued ch = [] \<and> capacity ch = n"
  "tokio_ok T queued capacity \<Longrightarrow> mpsc_channel T n = None \<longleftrightarrow> n = 0"
proof -
  have "case mpsc_channel T n of None \<Rightarrow> n = 0 | Some ch \<Rightarrow> n \<noteq> 0 \<and> queued ch = [] \<and> capacity ch = n"
    if "tokio_ok T queued capacity" using that by (simp only: tokio_ok_def channel_ok_def)
  then show "tokio_ok T queued capacity \<Longrightarrow> mpsc_channel T n = Some ch \<Longrightarrow> queued ch = [] \<and> capacity ch = n"
    "tokio_ok T queued capacity \<Longrightarrow> mpsc_channel T n = None \<longleftrightarrow> n = 0"
    by (auto split: option.splits)
qed

lemma send_okD:
  assumes "tokio_ok T queued capacity" and "mpsc_send T m ch = (r, ch')"
  shows "capacity ch' = capacity ch" and "queued ch' = (if r = SendOk then queued ch @ [m] else queued ch)"
    and "r = SendOk \<Longrightarrow> length (queued ch) < unat (capacity ch)"
    and "r = SendFull \<Longrightarrow> unat (capacity ch) \<le> length (queued ch)"
proof -
  have "case mpsc_send T m ch of (r, ch') \<Rightarrow> capacity ch' = capacity ch
     \<and> queued ch' = (if r = SendOk then queued ch @ [m] else queued ch)
     \<and> (r = SendOk \<longrightarrow> length (queued ch) < unat (capacity ch))
     \<and> (r = SendFull \<longrightarrow> unat (capacity ch) \<le> length (queued ch))"
    using assms(1) by (simp only: tokio_ok_def send_ok_def)
  with assms(2) show "capacity ch' = capacity ch" "queued ch' = (if r = SendOk then queued ch @ [m] else queued ch)"
    "r = SendOk \<Longrightarrow> length (queued ch) < unat (capacity ch)"
    "r = SendFull \<Longrightarrow> unat (capacity ch) \<le> length (queued ch)"
    by simp_all
qed

lemma recv_okD:
  assumes "tokio_ok T queued capacity" and "mpsc_recv T ch = (r, ch')"
  shows "capacity ch' = capacity ch" and "r = RecvOk m \<Longrightarrow> queued ch = m # queued ch'"
    and "r = RecvEmpty \<or> r = RecvDisconnected \<Longrightarrow> queued ch = [] \<and> queued ch' = []"
proof -
  have "case mpsc_recv T ch of (r, ch') \<Rightarrow> capacity ch' = capacity ch
     \<and> (case r of RecvOk m \<Rightarrow> queued ch = m # queued ch' | _ \<Rightarrow> queued ch = [] \<and> queued ch' = [])"
    using assms(1) by (simp only: tokio_ok_def recv_ok_def)
  with assms(2) show "capacity ch' = capacity ch" "r = RecvOk m \<Longrightarrow> queued ch = m # queued ch'"
    "r = RecvEmpty \<or> r = RecvDisconnected \<Longrightarrow> queued ch = [] \<and> queued ch' = []"
    by auto
qed

lemma sem_okD:
  assumes "tokio_ok T queued capacity"
  shows "sem_available T (sem_new T n) = n" and "sem_available T (sem_add T s) = sem_available T s + 1"
    and "sem_acquire T s = (True, s') \<Longrightarrow> sem_available T s \<noteq> 0 \<and> sem_available T s' = sem_available T s - 1"
    and "sem_acquire T s = (False, s') \<Longrightarrow> sem_available T s = 0 \<and> sem_available T s' = sem_available T s"
proof -
  have ok: "sem_ok T" using assms by (simp add: tokio_ok_def)
  then show "sem_available T (sem_new T n) = n" "sem_available T (sem_add T s) = sem_available T s + 1"
    by (simp_all add: sem_ok_def)
  have "case sem_acquire T s of (b, s') \<Rightarrow> b = (sem_available T s \<noteq> 0)
      \<and> sem_available T s' = (if b then sem_available T s - 1 else sem_available T s)"
    using ok by (simp only: sem_ok_def)
  then show "sem_acquire T s = (True, s') \<Longrightarrow> sem_available T s \<noteq> 0 \<and> sem_available T s' = sem_available T s - 1"
    "sem_acquire T s = (False, s') \<Longrightarrow> sem_available T s = 0 \<and> sem_available T s' = sem_available T s"
    by simp_all
qed

text \<open>
  \<open>balanced\<close>: the free permits, the permits held by senders and the queued messages add up to
  the capacity, and the counters match the queue.
\<close>

definition balanced :: "('ch, 'sem, 'a PrioritizedMessage) tokio \<Rightarrow> ('ch \<Rightarrow> 'a PrioritizedMessage list) \<Rightarrow> ('ch \<Rightarrow> u64)
    \<Rightarrow> BackpressureConfig \<Rightarrow> nat \<Rightarrow> ('ch, 'sem) bp_channel \<Rightarrow> bool" where
  "balanced T queued capacity config n c \<longleftrightarrow> bp_config c = config \<and> capacity (bp_chan c) = max_pending config
     \<and> unat (sem_available T (bp_sem c)) + n + length (queued (bp_chan c)) = unat (max_pending config)
     \<and> current_pending (bp_metrics c) = - total_received (bp_metrics c)
     \<and> total_sent (bp_metrics c) = total_received (bp_metrics c) + of_nat (length (queued (bp_chan c)))"

lemma unat_permit: "a \<noteq> 0 \<Longrightarrow> unat (a :: u64) = Suc (unat (a - 1))"
  by (metis Suc_pred' unat_gt_0 unat_minus_one)

lemma unat_release: "unat (a :: u64) + Suc n \<le> unat (m :: u64) \<Longrightarrow> unat (a + 1) = Suc (unat a)"
  using u64_less[of m] by (simp add: unat_word_ariths)

lemma record_latency_simps [simp]:
  "current_pending (record_latency l m) = current_pending m" "total_received (record_latency l m) = total_received m"
  "total_sent (record_latency l m) = total_sent m"
  by (simp_all add: record_latency_def Let_def)

lemmas bp_metrics_defs = record_sent_def record_received_def record_dropped_def record_timeout_def

lemma balanced_new:
  assumes ok: "tokio_ok T queued capacity"
  shows "bounded_with_backpressure T config = Some c \<Longrightarrow> balanced T queued capacity config 0 c"
  using channel_okD(1)[OF ok, of "max_pending config"]
  by (auto simp: bounded_with_backpressure_def balanced_def sem_okD(1)[OF ok] default_bp_metrics_def split: option.splits)

lemma balanced_acquire:
  assumes ok: "tokio_ok T queued capacity"
  shows "balanced T queued capacity config n c \<Longrightarrow> send_acquire T c = (True, c') \<Longrightarrow> balanced T queued capacity config (Suc n) c'"
  using sem_okD(3)[OF ok] unat_permit by (fastforce simp: send_acquire_def balanced_def split: prod.splits)

lemma balanced_release:
  assumes ok: "tokio_ok T queued capacity"
  shows "balanced T queued capacity config (Suc n) c \<Longrightarrow> balanced T queued capacity config n (c\<lparr>bp_sem := sem_add T (bp_sem c)\<rparr>)"
  using unat_release[of "sem_available T (bp_sem c)" "n + length (queued (bp_chan c))" "max_pending config"]
  by (simp add: balanced_def sem_okD(2)[OF ok])

lemma balanced_queue:
  assumes ok: "tokio_ok T queued capacity"
  shows "balanced T queued capacity config (Suc n) c \<Longrightarrow> mpsc_send T m (bp_chan c) = (SendOk, ch) \<Longrightarrow>
   balanced T queued capacity config n (c\<lparr>bp_chan := ch, bp_metrics := record_sent (bp_metrics c)\<rparr>)"
  using send_okD(1,2)[OF ok, of m "bp_chan c" SendOk ch] by (simp add: balanced_def bp_metrics_defs)

lemma balanced_refused:
  assumes ok: "tokio_ok T queued capacity"
  shows "balanced T queued capacity config n c \<Longrightarrow> mpsc_send T m (bp_chan c) = (r, ch) \<Longrightarrow> r \<noteq> SendOk \<Longrightarrow>
   balanced T queued capacity config n (c\<lparr>bp_chan := ch\<rparr>)"
  using send_okD(1,2)[OF ok, of m "bp_chan c" r ch] by (simp add: balanced_def)

lemma balanced_received:
  assumes ok: "tokio_ok T queued capacity"
  shows "balanced T queued capacity config n c \<Longrightarrow> mpsc_recv T (bp_chan c) = (RecvOk m, ch) \<Longrightarrow>
   balanced T queued capacity config n (received T now m (c\<lparr>bp_chan := ch\<rparr>))"
  using recv_okD(1)[OF ok, of "bp_chan c" "RecvOk m" ch] recv_okD(2)[OF ok, of "bp_chan c" "RecvOk m" ch m]
    unat_release[of "sem_available T (bp_sem c)" "n + length (queued ch)" "max_pending config"]
  by (simp add: balanced_def received_def sem_okD(2)[OF ok] bp_metrics_defs)

lemma balanced_nothing:
  assumes ok: "tokio_ok T queued capacity"
  shows "balanced T queued capacity config n c \<Longrightarrow> mpsc_recv T (bp_chan c) = (r, ch) \<Longrightarrow> r = RecvEmpty \<or> r = RecvDisconnected \<Longrightarrow>
   balanced T queued capacity config n (c\<lparr>bp_chan := ch\<rparr>)"
  using recv_okD(1,3)[OF ok, of "bp_chan c" r ch] by (auto simp: balanced_def)

lemma never_full:
  assumes ok: "tokio_ok T queued capacity"
  shows "balanced T queued capacity config (Suc n) c \<Longrightarrow> mpsc_send T m (bp_chan c) \<noteq> (SendFull, ch)"
  using send_okD(4)[OF ok, of m "bp_chan c" SendFull ch] by (auto simp: balanced_def)

lemma balanced_step:
  assumes ok: "tokio_ok T queued capacity" and inv: "balanced T queued capacity config (holders s) (bp_channel s)"
    and "bp_step T s e t"
  shows "balanced T queued capacity config (holders t) (bp_channel t)"
  using assms(3)
proof (cases rule: bp_step.cases)
  case (acquired c)
  with balanced_acquire[OF ok inv] show ?thesis by simp
next
  case (completed now d p r c)
  let ?c = "bp_channel s"
  obtain q ch where send: "mpsc_send T (new_message now d p) (bp_chan ?c) = (q, ch)" by fastforce
  have held: "balanced T queued capacity config (Suc (holders s - 1)) ?c" using inv completed by simp
  show ?thesis
  proof (cases "q = SendOk")
    case True
    with balanced_queue[OF ok held, of "new_message now d p" ch] completed send show ?thesis
      by (auto simp: send_complete_def)
  next
    case False
    with balanced_release[OF ok balanced_refused[OF ok held send]] completed send show ?thesis
      by (cases q) (auto simp: send_complete_def)
  qed
next
  case (elapsed r c)
  have "balanced T queued capacity config (Suc (holders s - 1)) (bp_channel s)" using inv elapsed by simp
  then have "balanced T queued capacity config (Suc (holders s - 1))
      ((bp_channel s)\<lparr>bp_metrics := record_timeout (bp_metrics (bp_channel s))\<rparr>)"
    by (simp add: balanced_def record_timeout_def)
  from balanced_release[OF ok this] elapsed show ?thesis by (auto simp: send_elapsed_def)
next
  case (try_sent now d p r c)
  obtain b c1 where acq: "send_acquire T (bp_channel s) = (b, c1)" by fastforce
  obtain q ch where send: "mpsc_send T (new_message now d p) (bp_chan c1) = (q, ch)" by fastforce
  show ?thesis
  proof (cases b)
    case True
    with acq have held: "balanced T queued capacity config (Suc (holders s)) c1"
      using balanced_acquire[OF ok inv] by simp
    show ?thesis
      using balanced_queue[OF ok held, of "new_message now d p" ch] balanced_release[OF ok balanced_refused[OF ok held send]]
        try_sent acq send True by (cases q) (auto simp: bp_try_send_def)
  next
    case False
    then have "c = c1" using try_sent acq by (simp add: bp_try_send_def)
    moreover have "balanced T queued capacity config (holders s) c1"
      using inv acq False sem_okD(4)[OF ok] by (auto simp: send_acquire_def balanced_def split: prod.splits)
    ultimately show ?thesis using try_sent by simp
  qed
next
  case (try_received now r c)
  obtain q ch where recv: "mpsc_recv T (bp_chan (bp_channel s)) = (q, ch)" by fastforce
  show ?thesis
  proof (cases q)
    case (RecvOk m)
    with balanced_received[OF ok inv, of m ch now] recv try_received show ?thesis by (auto simp: bp_try_recv_def)
  qed (use balanced_nothing[OF ok inv recv] recv try_received in \<open>auto simp: bp_try_recv_def\<close>)
qed

interpretation bp: invariant_of "bp_init T config" "bp_step T"
  "\<lambda>s. tokio_ok T queued capacity \<longrightarrow> balanced T queued capacity config (holders s) (bp_channel s)"
  for T queued capacity config
proof
  show "tokio_ok T queued capacity \<longrightarrow> balanced T queued capacity config (holders s) (bp_channel s)"
    if "bp_init T config s" for s
    using that balanced_new[of T queued capacity config "bp_channel s"] by (simp add: bp_init_def)
next
  show "tokio_ok T queued capacity \<longrightarrow> balanced T queued capacity config (holders t) (bp_channel t)"
    if "tokio_ok T queued capacity \<longrightarrow> balanced T queued capacity config (holders s) (bp_channel s)"
      and "bp_step T s e t" for s e t
    using that balanced_step by blast
qed

section \<open>An instance of tokio\<close>

definition list_tokio :: "(u64 \<times> 'm list, u64, 'm) tokio" where
  "list_tokio = \<lparr>mpsc_channel = (\<lambda>n. if n = 0 then None else Some (n, [])),
     mpsc_send = (\<lambda>m (n, q). if length q < unat n then (SendOk, (n, q @ [m])) else (SendFull, (n, q))),
     mpsc_recv = (\<lambda>(n, q). case q of [] \<Rightarrow> (RecvEmpty, (n, [])) | m # q \<Rightarrow> (RecvOk m, (n, q))),
     sem_new = id, sem_acquire = (\<lambda>s. if s = 0 then (False, s) else (True, s - 1)),
     sem_add = (\<lambda>s. s + 1), sem_available = id\<rparr>"

lemma list_tokio_ok: "tokio_ok list_tokio snd fst"
  by (auto simp: tokio_ok_def channel_ok_def send_ok_def recv_ok_def sem_ok_def list_tokio_def split: list.split)

section \<open>Properties\<close>

text \<open>
  C33: backpressure works: whatever senders and receivers do, free permits, permits held by
  senders and queued messages add up to the configured capacity, so the queue never exceeds it
  and a sender that holds a permit never finds the channel full.
\<close>

theorem permits_bound_queue:
  assumes "tokio_ok T queued capacity" and "reachable (bp_init T config) (bp_step T) s"
  shows "unat (sem_available T (bp_sem (bp_channel s))) + holders s + length (queued (bp_chan (bp_channel s)))
      = unat (max_pending config)
    \<and> (0 < holders s \<longrightarrow> (\<forall>m ch. mpsc_send T m (bp_chan (bp_channel s)) \<noteq> (SendFull, ch)))"
proof -
  have bal: "balanced T queued capacity config (holders s) (bp_channel s)"
    using bp.always[OF assms(2)] assms(1) by blast
  then have "0 < holders s \<Longrightarrow> mpsc_send T m (bp_chan (bp_channel s)) \<noteq> (SendFull, ch)" for m ch
    using never_full[OF assms(1), of config "holders s - 1" "bp_channel s" m ch] by simp
  with bal show ?thesis by (auto simp: balanced_def)
qed

text \<open>
  The pending gauge never counts what is pending. Sending does not raise it and receiving
  lowers it, so in every reachable state it is the negation, modulo \<open>2\<^sup>6\<^sup>4\<close>, of the number of
  messages received: after the first message it reads 18446744073709551615. The number of
  messages waiting is the difference of the other two counters.
\<close>

theorem pending_gauge_underflows:
  assumes "tokio_ok T queued capacity" and "reachable (bp_init T config) (bp_step T) s"
  shows "current_pending (bp_metrics (bp_channel s)) = - total_received (bp_metrics (bp_channel s))
    \<and> of_nat (length (queued (bp_chan (bp_channel s))))
        = total_sent (bp_metrics (bp_channel s)) - total_received (bp_metrics (bp_channel s))"
  using bp.always[OF assms(2), of queued capacity] assms(1) by (auto simp: balanced_def)

definition small_config :: BackpressureConfig where
  "small_config = default_backpressure_config\<lparr>max_pending := 2\<rparr>"

definition first_message :: "nat PrioritizedMessage" where
  "first_message = new_message 5 7 High"

text \<open>One message sent and received on a channel of capacity 2.\<close>

lemma small_run:
  "\<exists>s :: (u64 \<times> nat PrioritizedMessage list, u64) bp_system. reachable (bp_init list_tokio small_config) (bp_step list_tokio) s
     \<and> total_received (bp_metrics (bp_channel s)) = 1 \<and> holders s = 1"
proof -
  let ?c0 = "\<lparr>bp_config = small_config, bp_chan = (2, []), bp_sem = 2, bp_metrics = default_bp_metrics\<rparr>"
  let ?s0 = "\<lparr>bp_channel = ?c0, holders = 0\<rparr>"
  have "bp_init list_tokio small_config ?s0"
    by (simp add: bp_init_def bounded_with_backpressure_def list_tokio_def small_config_def)
  then have r0: "reachable (bp_init list_tokio small_config) (bp_step list_tokio) ?s0" by (rule reachable_init)
  let ?c1 = "?c0\<lparr>bp_chan := (2, [first_message]), bp_sem := 1, bp_metrics := record_sent default_bp_metrics\<rparr>"
  have "bp_try_send list_tokio 5 7 High ?c0 = (Inr (), ?c1)"
    by (simp add: bp_try_send_def send_acquire_def list_tokio_def first_message_def)
  from reachable_step[OF r0, OF bp_step.try_sent] this
  have r1: "reachable (bp_init list_tokio small_config) (bp_step list_tokio) \<lparr>bp_channel = ?c1, holders = 0\<rparr>" by fastforce
  let ?c2 = "received list_tokio 9 first_message (?c1\<lparr>bp_chan := (2, [])\<rparr>)"
  have "bp_try_recv list_tokio 9 ?c1 = (Inr first_message, ?c2)"
    by (simp add: bp_try_recv_def list_tokio_def)
  from reachable_step[OF r1, OF bp_step.try_received] this
  have r2: "reachable (bp_init list_tokio small_config) (bp_step list_tokio) \<lparr>bp_channel = ?c2, holders = 0\<rparr>" by fastforce
  have "send_acquire list_tokio ?c2 = (True, ?c2\<lparr>bp_sem := 1\<rparr>)"
    by (simp add: send_acquire_def received_def list_tokio_def)
  from reachable_step[OF r2, OF bp_step.acquired] this
  have "reachable (bp_init list_tokio small_config) (bp_step list_tokio) \<lparr>bp_channel = ?c2\<lparr>bp_sem := 1\<rparr>, holders = 1\<rparr>" by fastforce
  moreover have "total_received (bp_metrics ?c2) = 1"
    by (simp add: received_def bp_metrics_defs default_bp_metrics_def)
  ultimately show ?thesis
    by (intro exI[of _ "\<lparr>bp_channel = ?c2\<lparr>bp_sem := 1\<rparr>, holders = 1\<rparr>"]) simp
qed

theorem permits_bound_queue_witness:
  "\<exists>s :: (u64 \<times> nat PrioritizedMessage list, u64) bp_system. holders s = 1
     \<and> unat (bp_sem (bp_channel s)) + holders s + length (snd (bp_chan (bp_channel s))) = 2"
proof -
  obtain s :: "(u64 \<times> nat PrioritizedMessage list, u64) bp_system" where
    s: "reachable (bp_init list_tokio small_config) (bp_step list_tokio) s" "holders s = 1"
    using small_run by blast
  with permits_bound_queue [OF list_tokio_ok s(1)] show ?thesis
    by (intro exI[of _ s]) (simp add: list_tokio_def small_config_def)
qed

theorem pending_gauge_underflows_witness:
  "\<exists>s :: (u64 \<times> nat PrioritizedMessage list, u64) bp_system.
     current_pending (bp_metrics (bp_channel s)) = 18446744073709551615"
proof -
  obtain s :: "(u64 \<times> nat PrioritizedMessage list, u64) bp_system" where
    s: "reachable (bp_init list_tokio small_config) (bp_step list_tokio) s"
      "total_received (bp_metrics (bp_channel s)) = 1"
    using small_run by blast
  with pending_gauge_underflows [OF list_tokio_ok s(1)] show ?thesis
    by (intro exI[of _ s]) simp
qed

lemma try_recv_empty:
  assumes "tokio_ok T queued capacity" and "queued (bp_chan c) = []"
  shows "\<exists>e c'. bp_try_recv T now c = (Inl e, c') \<and> queued (bp_chan c') = []"
    and "\<exists>r c'. bp_recv T now c = (r, c') \<and> (r = Inl () \<or> r = Inr None)"
proof -
  obtain q ch where recv: "mpsc_recv T (bp_chan c) = (q, ch)" by fastforce
  have "\<nexists>m. q = RecvOk m" using recv_okD(2)[OF assms(1) recv] assms(2) by force
  with recv recv_okD(3)[OF assms(1) recv] show "\<exists>e c'. bp_try_recv T now c = (Inl e, c') \<and> queued (bp_chan c') = []"
    "\<exists>r c'. bp_recv T now c = (r, c') \<and> (r = Inl () \<or> r = Inr None)"
    by (cases q; simp add: bp_try_recv_def bp_recv_def)+
qed

lemma try_recv_head:
  assumes "tokio_ok T queued capacity" and "queued (bp_chan c) = m # rest"
  shows "\<exists>c'. bp_try_recv T now c = (Inr m, c') \<and> queued (bp_chan c') = rest"
proof -
  obtain q ch where recv: "mpsc_recv T (bp_chan c) = (q, ch)" by fastforce
  then obtain m' where "q = RecvOk m'" using recv_okD(3)[OF assms(1) recv] assms(2) by (cases q) auto
  with recv recv_okD(2)[OF assms(1) recv] assms(2) show ?thesis
    by (simp add: bp_try_recv_def received_def)
qed

text \<open>
  A prioritized receive takes the oldest message of the highest priority that has one. When
  all queues are empty it waits on the critical queue alone, so a message that arrives in a
  lower queue meanwhile does not wake it.
\<close>

theorem recv_prioritized_order:
  assumes "tokio_ok T queued capacity" and "length queues = 4"
  shows "(\<forall>p m rest. queued (bp_chan (queues ! priority_index p)) = m # rest
        \<and> (\<forall>p'. p < p' \<longrightarrow> queued (bp_chan (queues ! priority_index p')) = [])
      \<longrightarrow> fst (recv_prioritized T now queues) = Inr (Some m)
        \<and> queued (bp_chan (snd (recv_prioritized T now queues) ! priority_index p)) = rest)
    \<and> ((\<forall>p. queued (bp_chan (queues ! priority_index p)) = []) \<longrightarrow>
        fst (recv_prioritized T now queues) = Inl () \<or> fst (recv_prioritized T now queues) = Inr None)"
proof (intro conjI allI impI)
  fix p m rest
  assume prem: "queued (bp_chan (queues ! priority_index p)) = m # rest
      \<and> (\<forall>p'. p < p' \<longrightarrow> queued (bp_chan (queues ! priority_index p')) = [])"
  then have empty: "\<exists>e c'. bp_try_recv T now (queues ! priority_index p') = (Inl e, c')" if "p < p'" for p'
    using try_recv_empty(1)[OF assms(1)] that by blast
  obtain c' where head: "bp_try_recv T now (queues ! priority_index p) = (Inr m, c')" "queued (bp_chan c') = rest"
    using try_recv_head[OF assms(1)] prem by blast
  show "fst (recv_prioritized T now queues) = Inr (Some m)"
    "queued (bp_chan (snd (recv_prioritized T now queues) ! priority_index p)) = rest"
    using empty[of Critical] empty[of High] empty[of Normal] head assms(2)
    by (cases p; auto simp: recv_prioritized_def less_Priority_def)+
next
  assume "\<forall>p. queued (bp_chan (queues ! priority_index p)) = []"
  then have e: "\<exists>e c'. bp_try_recv T now (queues ! priority_index p) = (Inl e, c') \<and> queued (bp_chan c') = []" for p
    using try_recv_empty(1)[OF assms(1)] by blast
  obtain e3 c3 where c3: "bp_try_recv T now (queues ! 3) = (Inl e3, c3)" "queued (bp_chan c3) = []"
    using e[of Critical] by auto
  obtain e2 c2 where c2: "bp_try_recv T now (queues ! 2) = (Inl e2, c2)" using e[of High] by auto
  obtain e1 c1 where c1: "bp_try_recv T now (queues ! 1) = (Inl e1, c1)" using e[of Normal] by auto
  obtain e0 c0 where c0: "bp_try_recv T now (queues ! 0) = (Inl e0, c0)" using e[of Low] by auto
  obtain r c4 where "bp_recv T now c3 = (r, c4)" "r = Inl () \<or> r = Inr None"
    using try_recv_empty(2)[OF assms(1) c3(2)] by blast
  with c0 c1 c2 c3(1) assms(2) show "fst (recv_prioritized T now queues) = Inl () \<or> fst (recv_prioritized T now queues) = Inr None"
    by (auto simp: recv_prioritized_def)
qed

definition sample_queues :: "(u64 \<times> nat PrioritizedMessage list, u64) bp_channel list" where
  "sample_queues = map (\<lambda>ms. \<lparr>bp_config = small_config, bp_chan = (2, ms), bp_sem = 2 - of_nat (length ms),
     bp_metrics = default_bp_metrics\<rparr>) [[new_message 1 10 Low], [], [first_message, new_message 6 8 High], []]"

theorem recv_prioritized_order_witness:
  "fst (recv_prioritized list_tokio 9 sample_queues) = Inr (Some first_message)
    \<and> snd (bp_chan (snd (recv_prioritized list_tokio 9 sample_queues) ! 2)) = [new_message 6 8 High]"
proof -
  have "snd (bp_chan (sample_queues ! priority_index High)) = first_message # [new_message 6 8 High]"
    by (simp add: sample_queues_def)
  moreover have "snd (bp_chan (sample_queues ! priority_index p')) = []" if "High < p'" for p'
    using that by (cases p') (simp_all add: less_Priority_def sample_queues_def)
  moreover have "length sample_queues = 4" by (simp add: sample_queues_def)
  ultimately show ?thesis
    using recv_prioritized_order [OF list_tokio_ok, of sample_queues 9] by fastforce
qed

end
