(* ===== verification/Timeouts.thy ===== *)
theory Timeouts
  imports Steps F64 Errors
begin

text \<open>
  \<open>src/src/timeout_manager.rs\<close>: timeouts per type of operation that adapt to what was
  observed, and retries with exponential backoff. A future is what it does when it is run:
  after some time it returns a value or an error text, or it never ends. The maps of the
  manager hold every operation type from the start and lose none, so they are functions. The
  seven operation types are the constructors; random numbers are arguments.
\<close>

section \<open>Configuration\<close>

record TimeoutConfig =
  base_timeout :: duration
  max_timeout :: duration
  min_timeout :: duration
  enable_adaptive :: bool
  backoff_multiplier :: f64
  max_retries :: u32
  jitter_factor :: f64

definition default_timeout_config :: TimeoutConfig where
  "default_timeout_config = \<lparr>base_timeout = from_millis 1000, max_timeout = from_millis 30000,
     min_timeout = from_millis 100, enable_adaptive = True, backoff_multiplier = 2, max_retries = 3,
     jitter_factor = f64_round (1 / 10)\<rparr>"

datatype OperationType = RaftMessage | Connection | Proposal | StorageOp | ConfigChange | HealthCheck | Network

definition op_config :: "nat \<Rightarrow> nat \<Rightarrow> nat \<Rightarrow> u32 \<Rightarrow> TimeoutConfig" where
  "op_config base mx mn retries = default_timeout_config\<lparr>base_timeout := from_millis base,
     max_timeout := from_millis mx, min_timeout := from_millis mn, max_retries := retries\<rparr>"

fun op_default_config :: "OperationType \<Rightarrow> TimeoutConfig" where
  "op_default_config RaftMessage = op_config 500 5000 100 2"
| "op_default_config Connection = op_config 5000 30000 1000 3"
| "op_default_config Proposal = op_config 2000 10000 500 2"
| "op_default_config StorageOp = op_config 1000 15000 200 2"
| "op_default_config ConfigChange = op_config 5000 30000 1000 1"
| "op_default_config HealthCheck = op_config 1000 5000 200 1"
| "op_default_config Network = op_config 3000 15000 500 3"

fun op_name :: "OperationType \<Rightarrow> string" where
  "op_name RaftMessage = ''RaftMessage''"
| "op_name Connection = ''Connection''"
| "op_name Proposal = ''Proposal''"
| "op_name StorageOp = ''Storage''"
| "op_name ConfigChange = ''ConfigChange''"
| "op_name HealthCheck = ''HealthCheck''"
| "op_name Network = ''Network''"

section \<open>Statistics\<close>

record TimeoutStats =
  total_operations :: u64
  timeout_count :: u64
  success_count :: u64
  total_duration_ms :: u64
  current_timeout_ms :: u64
  adjustment_count :: u32

definition default_stats :: TimeoutStats where
  "default_stats = \<lparr>total_operations = 0, timeout_count = 0, success_count = 0, total_duration_ms = 0,
     current_timeout_ms = 0, adjustment_count = 0\<rparr>"

definition record_success :: "duration \<Rightarrow> TimeoutStats \<Rightarrow> TimeoutStats" where
  "record_success d s = s\<lparr>total_operations := total_operations s + 1, success_count := success_count s + 1,
     total_duration_ms := total_duration_ms s + of_nat (as_millis d)\<rparr>"

definition record_timeout :: "TimeoutStats \<Rightarrow> TimeoutStats" where
  "record_timeout s = s\<lparr>total_operations := total_operations s + 1, timeout_count := timeout_count s + 1\<rparr>"

definition record_adjustment :: "duration \<Rightarrow> TimeoutStats \<Rightarrow> TimeoutStats" where
  "record_adjustment new_timeout s = s\<lparr>adjustment_count := adjustment_count s + 1,
     current_timeout_ms := of_nat (as_millis new_timeout)\<rparr>"

definition get_timeout_rate :: "TimeoutStats \<Rightarrow> f64" where
  "get_timeout_rate s = (if total_operations s = 0 then 0
     else f64_div (f64_of_nat (unat (timeout_count s))) (f64_of_nat (unat (total_operations s))))"

definition get_avg_duration :: "TimeoutStats \<Rightarrow> duration" where
  "get_avg_duration s = (if success_count s = 0 then 0
     else from_millis (unat (total_duration_ms s div success_count s)))"

section \<open>The manager\<close>

record TimeoutManager =
  configs :: "OperationType \<Rightarrow> TimeoutConfig"
  stats :: "OperationType \<Rightarrow> TimeoutStats"
  last_adjustment :: "OperationType \<Rightarrow> instant"

definition timeout_manager_new :: "instant \<Rightarrow> TimeoutManager" where
  "timeout_manager_new now = \<lparr>configs = op_default_config, stats = (\<lambda>_. default_stats), last_adjustment = (\<lambda>_. now)\<rparr>"

definition get_current_timeout :: "TimeoutManager \<Rightarrow> OperationType \<Rightarrow> duration" where
  "get_current_timeout m op =
    (let current_ms = current_timeout_ms (stats m op)
     in if current_ms = 0 then base_timeout (configs m op) else from_millis (unat current_ms))"

text \<open>The timeout that \<open>adjust_timeout_if_needed\<close> chooses.\<close>

definition adjusted_timeout :: "TimeoutConfig \<Rightarrow> TimeoutStats \<Rightarrow> duration \<Rightarrow> duration" where
  "adjusted_timeout config s current =
    (if get_timeout_rate s > f64_round (1 / 10)
     then min (mul_f64 current (3 / 2)) (max_timeout config)
     else if get_timeout_rate s < f64_round (2 / 100) \<and> as_millis (get_avg_duration s) > 0
     then max (max (mul_f64 (get_avg_duration s) 3) (mul_f64 current (f64_round (8 / 10)))) (min_timeout config)
     else current)"

definition adjust_timeout_if_needed :: "instant \<Rightarrow> OperationType \<Rightarrow> TimeoutManager \<Rightarrow> TimeoutManager" where
  "adjust_timeout_if_needed now op m =
    (if duration_since now (last_adjustment m op) < from_secs 30 then m
     else let current = get_current_timeout m op;
              new_timeout = adjusted_timeout (configs m op) (stats m op) current
          in if new_timeout \<noteq> current
             then m\<lparr>stats := (stats m)(op := record_adjustment new_timeout (stats m op)),
                    last_adjustment := (last_adjustment m)(op := now)\<rparr>
             else m)"

text \<open>A future: \<open>Some (d, r)\<close> returns \<open>r\<close> after \<open>d\<close>, \<open>None\<close> never ends.\<close>

type_synonym 'a future = "(duration \<times> (error_text + 'a)) option"

text \<open>Returns the result, the time that passed and the manager afterwards.\<close>

definition execute_with_timeout :: "instant \<Rightarrow> OperationType \<Rightarrow> 'a future \<Rightarrow> TimeoutManager
    \<Rightarrow> (RaftError + 'a) \<times> duration \<times> TimeoutManager" where
  "execute_with_timeout now op operation m =
    (let config = configs m op;
         timeout_duration = get_current_timeout m op;
         upd = (\<lambda>f. m\<lparr>stats := (stats m)(op := f (stats m op))\<rparr>);
         adapt = (\<lambda>moment m. if enable_adaptive config then adjust_timeout_if_needed moment op m else m);
         timed_out = (Inl (Timeout (op_name op) timeout_duration), timeout_duration,
           adapt (now + int timeout_duration) (upd record_timeout))
     in case operation of
          None \<Rightarrow> timed_out
        | Some (d, r) \<Rightarrow>
            if d > timeout_duration then timed_out
            else (case r of
              Inr result \<Rightarrow> (Inr result, d, adapt (now + int d) (upd (record_success d)))
            | Inl e \<Rightarrow> (Inl (Internal (''Operation failed: '' @ e)), d, upd (record_success d))))"

definition calculate_jitter :: "f64 \<Rightarrow> duration \<Rightarrow> f64 \<Rightarrow> duration" where
  "calculate_jitter rand base_delay factor =
     from_millis (unat (f64_to_u64 (f64_mul (f64_mul (f64_of_nat (as_millis base_delay)) factor) rand)))"

definition next_delay :: "TimeoutConfig \<Rightarrow> f64 \<Rightarrow> duration \<Rightarrow> duration" where
  "next_delay config rand delay =
     min (mul_f64 delay (backoff_multiplier config) + calculate_jitter rand delay (jitter_factor config)) (max_timeout config)"

text \<open>
  \<open>Duration::mul_f64\<close> panics when the product is negative or too large for a \<open>Duration\<close>, and so does the sum when it is.
\<close>

definition backoff_panics :: "TimeoutConfig \<Rightarrow> f64 \<Rightarrow> duration \<Rightarrow> bool" where
  "backoff_panics config rand delay \<longleftrightarrow> backoff_multiplier config < 0 \<and> 0 < delay
     \<or> from_secs (2 ^ 64) \<le> mul_f64 delay (backoff_multiplier config) + calculate_jitter rand delay (jitter_factor config)"

text \<open>
  The loop of \<open>execute_with_retry\<close>: \<open>operation k\<close> is the future of the \<open>k\<close>-th attempt
  and \<open>rand k\<close> the random number drawn after it. The code counts its retries in a \<open>u32\<close>, which wraps, or
  panics when the build checks for overflow. The value is how it ends, the number of attempts made, the delays slept and the manager, and
  \<open>None\<close> when it never ends.
\<close>

datatype 'a retry_end = Finished "RaftError + 'a" | RetryPanicked

partial_function (option) retry_loop :: "bool \<Rightarrow> TimeoutConfig \<Rightarrow> OperationType \<Rightarrow> (nat \<Rightarrow> 'a future) \<Rightarrow> (nat \<Rightarrow> f64) \<Rightarrow> nat \<Rightarrow> u32
    \<Rightarrow> duration \<Rightarrow> instant \<Rightarrow> TimeoutManager \<Rightarrow> ('a retry_end \<times> nat \<times> duration list \<times> TimeoutManager) option" where
  "retry_loop overflow_checks config op operation rand k retry_count delay now m =
    (case execute_with_timeout now op (operation k) m of
       (Inr result, elapsed, m) \<Rightarrow> Some (Finished (Inr result), k + 1, [], m)
     | (Inl e, elapsed, m) \<Rightarrow>
         if overflow_checks \<and> retry_count + 1 = 0 then Some (RetryPanicked, k + 1, [], m)
         else if retry_count + 1 > max_retries config then Some (Finished (Inl e), k + 1, [], m)
         else if backoff_panics config (rand k) delay then Some (RetryPanicked, k + 1, [], m)
         else let delay = next_delay config (rand k) delay
              in Option.bind (retry_loop overflow_checks config op operation rand (k + 1) (retry_count + 1) delay
                     (now + int elapsed + int delay) m)
                   (\<lambda>(r, n, delays, m). Some (r, n, delay # delays, m)))"

definition execute_with_retry :: "bool \<Rightarrow> instant \<Rightarrow> OperationType \<Rightarrow> (nat \<Rightarrow> 'a future) \<Rightarrow> (nat \<Rightarrow> f64) \<Rightarrow> TimeoutManager
    \<Rightarrow> ('a retry_end \<times> nat \<times> duration list \<times> TimeoutManager) option" where
  "execute_with_retry overflow_checks now op operation rand m =
     retry_loop overflow_checks (configs m op) op operation rand 0 0 (base_timeout (configs m op)) now m"

definition update_config :: "OperationType \<Rightarrow> TimeoutConfig \<Rightarrow> TimeoutManager \<Rightarrow> TimeoutManager" where
  "update_config op config m = m\<lparr>configs := (configs m)(op := config)\<rparr>"

record TimeoutStatsSnapshot =
  ts_total_operations :: u64
  ts_timeout_count :: u64
  ts_success_count :: u64
  ts_timeout_rate :: f64
  ts_avg_duration :: duration
  ts_current_timeout :: duration
  ts_adjustment_count :: u32

definition get_stats :: "TimeoutManager \<Rightarrow> OperationType \<Rightarrow> TimeoutStatsSnapshot" where
  "get_stats m op = (let s = stats m op in
     \<lparr>ts_total_operations = total_operations s, ts_timeout_count = timeout_count s,
      ts_success_count = success_count s, ts_timeout_rate = get_timeout_rate s,
      ts_avg_duration = get_avg_duration s, ts_current_timeout = from_millis (unat (current_timeout_ms s)),
      ts_adjustment_count = adjustment_count s\<rparr>)"

definition get_all_stats :: "TimeoutManager \<Rightarrow> (OperationType \<times> TimeoutStatsSnapshot) list" where
  "get_all_stats m = map (\<lambda>op. (op, get_stats m op))
     [RaftMessage, Connection, Proposal, StorageOp, ConfigChange, HealthCheck, Network]"

section \<open>Retries\<close>

text \<open>A delay is the first one, or one that was cut to the maximum.\<close>

definition delay_ok :: "TimeoutConfig \<Rightarrow> duration \<Rightarrow> bool" where
  "delay_ok config d \<longleftrightarrow> d \<le> max (base_timeout config) (max_timeout config)"

lemma delay_ok_next [simp]: "delay_ok config (next_delay config r d)"
  by (simp add: delay_ok_def next_delay_def le_max_iff_disj)

text \<open>What the loop has done when it ends, from attempt \<open>k\<close> on.\<close>

definition retried :: "TimeoutConfig \<Rightarrow> (nat \<Rightarrow> f64) \<Rightarrow> nat \<Rightarrow> 'a retry_end \<times> nat \<times> duration list \<times> TimeoutManager \<Rightarrow> bool" where
  "retried config rand k = (\<lambda>(r, n, delays, m'). k < n \<and> n \<le> unat (max_retries config) + 1 \<and> length delays + 1 = n - k
     \<and> (\<forall>d \<in> set delays. d \<le> max_timeout config)
     \<and> (\<forall>e. r = Finished (Inl e) \<longrightarrow> n = unat (max_retries config) + 1)
     \<and> (r = RetryPanicked \<longrightarrow> (\<exists>j d. delay_ok config d \<and> backoff_panics config (rand j) d)))"

lemma u32_largest: "unat (- 1 :: u32) = 4294967295"
  by (simp add: unsigned_minus_1_eq_mask mask_eq_exp_minus_1)

lemma retry_loop_ends:
  "unat (max_retries config) - k = n \<Longrightarrow> unat retry_count = k \<Longrightarrow> k \<le> unat (max_retries config) \<Longrightarrow> max_retries config \<noteq> - 1 \<Longrightarrow>
   delay_ok config delay \<Longrightarrow>
   \<exists>y. retry_loop checks config op operation rand k retry_count delay now m = Some y \<and> retried config rand k y"
proof (induction n arbitrary: k retry_count delay now m)
  case (0 k retry_count delay now m)
  then have k: "k = unat (max_retries config)" by simp
  with 0(2) have count: "retry_count = max_retries config" by (simp add: word_unat_eq_iff)
  have "unat (max_retries config) \<noteq> unat (- 1 :: u32)" using 0(4) by (simp only: word_unat_eq_iff not_False_eq_True)
  then have "unat (max_retries config) + 1 < 2 ^ 32"
    using u32_less[of "max_retries config"] u32_largest by simp
  then have "unat (max_retries config + 1) = unat (max_retries config) + 1" by (simp add: unat_word_ariths)
  then have last: "max_retries config + 1 > max_retries config" "max_retries config + 1 \<noteq> 0"
    by (auto simp: word_less_nat_alt)
  obtain q elapsed m1 where ex: "execute_with_timeout now op (operation k) m = (q, elapsed, m1)" using prod_cases3 by blast
  note step = retry_loop.simps[of checks config op operation rand k retry_count delay now m, unfolded ex]
  have "retry_loop checks config op operation rand k retry_count delay now m = Some (Finished q, k + 1, [], m1)"
    unfolding step using last count by (cases q) simp_all
  then show ?case using k by (simp add: retried_def)
next
  case (Suc n k retry_count)
  obtain q elapsed m1 where ex: "execute_with_timeout now op (operation k) m = (q, elapsed, m1)" using prod_cases3 by blast
  have less: "Suc k \<le> unat (max_retries config)" using Suc.prems(1) by simp
  then have count: "unat (retry_count + 1) = Suc k"
    using Suc.prems(2) u32_less[of "max_retries config"] by (simp add: unat_word_ariths)
  then have "retry_count + 1 \<noteq> 0" "\<not> retry_count + 1 > max_retries config" using less by (auto simp: word_less_nat_alt)
  note step = retry_loop.simps[of checks config op operation rand k retry_count delay now m, unfolded ex]
  show ?case
  proof (cases "is_ok q \<or> backoff_panics config (rand k) delay")
    case True
    with step Suc.prems(5) less \<open>retry_count + 1 \<noteq> 0\<close> \<open>\<not> retry_count + 1 > max_retries config\<close> show ?thesis
      by (cases q) (auto simp: retried_def)
  next
    case False
    then obtain e where q: "q = Inl e" by (cases q) auto
    let ?d = "next_delay config (rand k) delay"
    from Suc.IH[of "Suc k" "retry_count + 1" ?d "now + int elapsed + int ?d" m1] Suc.prems(1,4) count less obtain r l ds m2 where
      rec: "retry_loop checks config op operation rand (Suc k) (retry_count + 1) ?d (now + int elapsed + int ?d) m1 = Some (r, l, ds, m2)"
      and ok: "retried config rand (Suc k) (r, l, ds, m2)" by force
    have "retry_loop checks config op operation rand k retry_count delay now m = Some (r, l, ?d # ds, m2)"
      using step False q rec \<open>retry_count + 1 \<noteq> 0\<close> \<open>\<not> retry_count + 1 > max_retries config\<close> by (simp add: Let_def)
    moreover have "?d \<le> max_timeout config" by (simp add: next_delay_def)
    ultimately show ?thesis using ok by (auto simp: retried_def)
  qed
qed

text \<open>
  C40: with \<open>max_retries\<close> below the largest \<open>u32\<close>, a retried operation ends, whatever its attempts do, after at most
  \<open>max_retries + 1\<close> attempts with a sleep between two of them, none longer than \<open>max_timeout\<close>; it ends with an error only
  after all of them. It panics only when the backoff factor is negative or a delay outgrows a \<open>Duration\<close>.
\<close>

theorem retries_bounded:
  assumes "max_retries (configs m op) \<noteq> - 1"
  shows "\<exists>r attempts delays m'. execute_with_retry checks now op operation rand m = Some (r, attempts, delays, m')
    \<and> 1 \<le> attempts \<and> attempts \<le> unat (max_retries (configs m op)) + 1 \<and> length delays = attempts - 1
    \<and> (\<forall>d \<in> set delays. d \<le> max_timeout (configs m op))
    \<and> (\<forall>e. r = Finished (Inl e) \<longrightarrow> attempts = unat (max_retries (configs m op)) + 1)
    \<and> (r = RetryPanicked \<longrightarrow> (\<exists>k d. backoff_panics (configs m op) (rand k) d
         \<and> d \<le> max (base_timeout (configs m op)) (max_timeout (configs m op))))"
proof -
  let ?c = "configs m op"
  have "\<exists>y. retry_loop checks ?c op operation rand 0 0 (base_timeout ?c) now m = Some y \<and> retried ?c rand 0 y"
    by (rule retry_loop_ends[OF refl]) (use assms in \<open>simp_all add: delay_ok_def\<close>)
  then obtain r n ds m' where "retry_loop checks ?c op operation rand 0 0 (base_timeout ?c) now m = Some (r, n, ds, m')"
    "retried ?c rand 0 (r, n, ds, m')" by force
  then show ?thesis unfolding execute_with_retry_def retried_def delay_ok_def
    by (intro exI[of _ r] exI[of _ n] exI[of _ ds] exI[of _ m']) auto
qed

text \<open>
  With the largest \<open>max_retries\<close> the limit is never exceeded: an operation that never completes is retried for ever when
  overflow wraps.
\<close>

theorem largest_limit_never_ends:
  assumes "max_retries (configs m op) = - 1" and "\<forall>r d. \<not> backoff_panics (configs m op) r d"
  shows "execute_with_retry False now op (\<lambda>_. None) rand m = None"
proof -
  have never: "max_retries config = - 1 \<longrightarrow> (\<forall>k. operation k = None) \<longrightarrow> (\<forall>r d. \<not> backoff_panics config r d) \<longrightarrow> checks"
    if ends: "retry_loop checks config op operation rand k retry_count delay now m = Some y"
    for checks config op and operation :: "nat \<Rightarrow> 'a future" and rand k retry_count delay now m y
  proof (rule retry_loop.raw_induct[where P = "\<lambda>checks config op operation rand k retry_count delay now m y.
      max_retries config = - 1 \<longrightarrow> (\<forall>k. operation k = None) \<longrightarrow> (\<forall>r d. \<not> backoff_panics config r d) \<longrightarrow> checks", OF _ ends],
      intro impI, rule ccontr, goal_cases)
    case (1 f checks config op operation rand k retry_count delay now m y)
    then obtain d now' m1 z where "f checks config op operation rand (k + 1) (retry_count + 1) d now' m1 = Some z"
      by (auto simp: execute_with_timeout_def Let_def not_less split: bind_splits)
    from 1(1)[OF this] 1(3-6) show False by blast
  qed
  with assms show ?thesis unfolding execute_with_retry_def by (metis not_Some_eq)
qed

text \<open>An operation that never completes, with two retries.\<close>

theorem retries_bounded_witness:
  "\<exists>r attempts delays m'. execute_with_retry True 0 RaftMessage (\<lambda>_. None :: unit future) (\<lambda>_. 1) (timeout_manager_new 0)
      = Some (r, attempts, delays, m')
    \<and> attempts \<le> 3 \<and> length delays = attempts - 1 \<and> (\<forall>d \<in> set delays. d \<le> from_millis 5000)"
proof -
  have "configs (timeout_manager_new 0) RaftMessage = op_config 500 5000 100 2" by (simp add: timeout_manager_new_def)
  then show ?thesis
    using retries_bounded [where m = "timeout_manager_new 0" and op = RaftMessage and checks = True and now = 0
        and operation = "\<lambda>_. None :: unit future" and rand = "\<lambda>_. 1"]
    by (simp add: op_config_def) blast
qed

text \<open>A configuration whose delays stay at zero, with the largest limit.\<close>

definition endless_manager :: TimeoutManager where
  "endless_manager = (timeout_manager_new 0)\<lparr>configs := (\<lambda>_. default_timeout_config\<lparr>base_timeout := 0, max_timeout := 0,
     backoff_multiplier := 0, jitter_factor := 0, max_retries := - 1\<rparr>)\<rparr>"

theorem largest_limit_never_ends_witness:
  "execute_with_retry False 0 Network (\<lambda>_. None :: unit future) (\<lambda>_. 1) endless_manager = None"
  by (rule largest_limit_never_ends)
    (simp_all add: endless_manager_def backoff_panics_def mul_f64_def from_secs_f64_def f64_mul_def calculate_jitter_def
      f64_to_u64_def round_even_def from_millis_def from_secs_def)

section \<open>Adaptation\<close>

lemma f64_tenth: "f64_round (1 / 10) = 3602879701896397 / 36028797018963968"
  "f64_round (1 / 50) = 5764607523034235 / 288230376151711744"
  by (simp_all add: f64_eval)

text \<open>
  The adaptive timeout is not kept within its configured maximum. Without timeouts the
  new value is at least three times the average duration, and nothing caps it: operations that
  merely take a while push the timeout above \<open>max_timeout\<close>, in the branch that is meant to
  decrease it.
\<close>

theorem adaptive_timeout_exceeds_max:
  assumes "timeout_count s = 0" and "0 < as_millis (get_avg_duration s)"
    and "max_timeout config < mul_f64 (get_avg_duration s) 3"
  shows "max_timeout config < adjusted_timeout config s current
    \<and> mul_f64 (get_avg_duration s) 3 \<le> adjusted_timeout config s current"
proof -
  have "get_timeout_rate s = 0"
    using assms(1) by (simp add: get_timeout_rate_def f64_of_nat_def f64_div_def)
  with assms show ?thesis by (simp add: adjusted_timeout_def f64_tenth less_max_iff_disj le_max_iff_disj)
qed

text \<open>Four successes that took two seconds on average.\<close>

definition slow_stats :: TimeoutStats where
  "slow_stats = \<lparr>total_operations = 4, timeout_count = 0, success_count = 4, total_duration_ms = 8000,
     current_timeout_ms = 3000, adjustment_count = 2\<rparr>"

theorem adaptive_timeout_exceeds_max_witness:
  "max_timeout (op_default_config RaftMessage) = from_millis 5000
   \<and> max_timeout (op_default_config RaftMessage) < adjusted_timeout (op_default_config RaftMessage) slow_stats (from_millis 3000)"
proof -
  have "get_avg_duration slow_stats = 2000000000"
    by (simp add: get_avg_duration_def slow_stats_def from_millis_def)
  moreover have "mul_f64 2000000000 3 = 6000000000" by (simp add: f64_eval)
  ultimately show ?thesis
    using adaptive_timeout_exceeds_max [of slow_stats "op_default_config RaftMessage"]
    by (simp add: slow_stats_def op_config_def from_millis_def as_millis_def)
qed

end
