(* ===== verification/LockFree.thy ===== *)
theory LockFree
  imports Steps F64 "HOL-Library.AList"
begin

text \<open>
  \<open>src/src/lock_free.rs\<close>: counters, the latency histogram, the connection pool, the bounded
  queue and the statistics built on them. \<open>DashMap\<close> and \<open>ArrayQueue\<close> are third-party
  containers, parameters of the model with the laws \<open>dashmap_ok\<close> and \<open>array_queue_ok\<close>.
\<close>

section \<open>Counters and the histogram\<close>

type_synonym counter = u64

definition counter_new :: counter where "counter_new = 0"
definition counter_add :: "u64 \<Rightarrow> counter \<Rightarrow> u64 \<times> counter" where "counter_add delta c = (c, c + delta)"
definition counter_increment :: "counter \<Rightarrow> u64 \<times> counter" where "counter_increment c = counter_add 1 c"
definition counter_reset :: "counter \<Rightarrow> u64 \<times> counter" where "counter_reset c = (c, 0)"

text \<open>\<open>Clone\<close> makes a new counter, which starts at 0.\<close>

definition counter_clone :: "counter \<Rightarrow> counter" where "counter_clone c = counter_new"

record LockFreeHistogram =
  buckets :: "u64 list"
  bucket_boundaries :: "u64 list"

definition new_exponential :: LockFreeHistogram where
  "new_exponential = (let boundaries = [1, 10, 100, 1000, 10000, 100000, 1000000, 10000000]
     in \<lparr>buckets = replicate (length boundaries + 1) 0, bucket_boundaries = boundaries\<rparr>)"

fun find_bucket :: "u64 list \<Rightarrow> nat \<Rightarrow> u64 \<Rightarrow> nat" where
  "find_bucket [] i v = i"
| "find_bucket (boundary # bs) i v = (if v < boundary then i else find_bucket bs (i + 1) v)"

definition find_bucket_index :: "LockFreeHistogram \<Rightarrow> u64 \<Rightarrow> nat" where
  "find_bucket_index h v = find_bucket (bucket_boundaries h) 0 v"

definition hist_record :: "u64 \<Rightarrow> LockFreeHistogram \<Rightarrow> LockFreeHistogram" where
  "hist_record v h = (let i = find_bucket_index h v in h\<lparr>buckets := (buckets h)[i := buckets h ! i + 1]\<rparr>)"

definition record_duration :: "duration \<Rightarrow> LockFreeHistogram \<Rightarrow> LockFreeHistogram" where
  "record_duration d = hist_record (of_nat (as_micros d))"

text \<open>A snapshot has the two vectors of the histogram.\<close>

definition hist_snapshot :: "LockFreeHistogram \<Rightarrow> LockFreeHistogram" where
  "hist_snapshot h = \<lparr>buckets = map (\<lambda>b. b) (buckets h), bucket_boundaries = bucket_boundaries h\<rparr>"

definition total_count :: "LockFreeHistogram \<Rightarrow> u64" where
  "total_count h = sum_list (buckets h)"

fun percentile_loop :: "u64 list \<Rightarrow> u64 \<Rightarrow> nat \<Rightarrow> u64 \<Rightarrow> u64 list \<Rightarrow> u64 option" where
  "percentile_loop boundaries target i cumulative [] = None"
| "percentile_loop boundaries target i cumulative (count # counts) =
    (let cumulative = cumulative + count
     in if cumulative \<ge> target
        then (if i = 0 then Some 0 else if i \<le> length boundaries then Some (boundaries ! (i - 1)) else Some (- 1))
        else percentile_loop boundaries target (i + 1) cumulative counts)"

definition percentile_target :: "f64 \<Rightarrow> u64 \<Rightarrow> u64" where
  "percentile_target p n = f64_to_u64 (f64_ceil (f64_mul (f64_of_nat (unat n)) p))"

definition percentile :: "f64 \<Rightarrow> LockFreeHistogram \<Rightarrow> u64 option" where
  "percentile p h = (if total_count h = 0 then None
     else percentile_loop (bucket_boundaries h) (percentile_target p (total_count h)) 0 0 (buckets h))"

definition p50 :: "LockFreeHistogram \<Rightarrow> u64 option" where "p50 = percentile (1 / 2)"
definition p95 :: "LockFreeHistogram \<Rightarrow> u64 option" where "p95 = percentile (f64_round (95 / 100))"
definition p99 :: "LockFreeHistogram \<Rightarrow> u64 option" where "p99 = percentile (f64_round (99 / 100))"

section \<open>Third-party containers\<close>

record ('m, 'k, 'v) dashmap =
  dm_new :: 'm
  dm_get :: "'k \<Rightarrow> 'm \<Rightarrow> 'v option"
  dm_insert :: "'k \<Rightarrow> 'v \<Rightarrow> 'm \<Rightarrow> 'v option \<times> 'm"
  dm_remove :: "'k \<Rightarrow> 'm \<Rightarrow> 'v option \<times> 'm"
  dm_retain :: "('k \<Rightarrow> 'v \<Rightarrow> bool) \<Rightarrow> 'm \<Rightarrow> ('k \<times> 'v) list \<times> 'm"
  dm_iter :: "'m \<Rightarrow> ('k \<times> 'v) list"
  dm_len :: "'m \<Rightarrow> nat"

text \<open>
  A finite map; \<open>retain\<close> keeps the entries of its predicate and visits each entry once, in some
  order, which is what it returns beside the map.
\<close>

definition lists_map :: "('k \<times> 'v) list \<Rightarrow> ('k \<rightharpoonup> 'v) \<Rightarrow> bool" where
  "lists_map xs m \<longleftrightarrow> distinct (map fst xs) \<and> (\<forall>k v. (k, v) \<in> set xs \<longleftrightarrow> m k = Some v)"

definition dashmap_ok :: "('m, 'k, 'v) dashmap \<Rightarrow> ('m \<Rightarrow> 'k \<rightharpoonup> 'v) \<Rightarrow> bool" where
  "dashmap_ok D view \<longleftrightarrow> view (dm_new D) = Map.empty
     \<and> (\<forall>k m. dm_get D k m = view m k)
     \<and> (\<forall>k v m. fst (dm_insert D k v m) = view m k \<and> view (snd (dm_insert D k v m)) = (view m)(k \<mapsto> v))
     \<and> (\<forall>k m. fst (dm_remove D k m) = view m k \<and> view (snd (dm_remove D k m)) = (view m)(k := None))
     \<and> (\<forall>P m. lists_map (fst (dm_retain D P m)) (view m)
          \<and> view (snd (dm_retain D P m)) = (\<lambda>k. case view m k of None \<Rightarrow> None | Some v \<Rightarrow> if P k v then Some v else None))
     \<and> (\<forall>m. lists_map (dm_iter D m) (view m) \<and> dm_len D m = length (dm_iter D m))"

record ('q, 'a) array_queue =
  aq_new :: "nat \<Rightarrow> 'q"
  aq_push :: "'a \<Rightarrow> 'q \<Rightarrow> bool \<times> 'q"
  aq_pop :: "'q \<Rightarrow> 'a option \<times> 'q"
  aq_len :: "'q \<Rightarrow> nat"
  aq_capacity :: "'q \<Rightarrow> nat"

definition array_queue_ok :: "('q, 'a) array_queue \<Rightarrow> ('q \<Rightarrow> 'a list) \<Rightarrow> bool" where
  "array_queue_ok Q items \<longleftrightarrow> (\<forall>n. items (aq_new Q n) = [] \<and> aq_capacity Q (aq_new Q n) = n)
     \<and> (\<forall>a q. fst (aq_push Q a q) = (length (items q) < aq_capacity Q q)
          \<and> items (snd (aq_push Q a q)) = (if fst (aq_push Q a q) then items q @ [a] else items q)
          \<and> aq_capacity Q (snd (aq_push Q a q)) = aq_capacity Q q)
     \<and> (\<forall>q. fst (aq_pop Q q) = (case items q of [] \<Rightarrow> None | a # _ \<Rightarrow> Some a)
          \<and> items (snd (aq_pop Q q)) = tl (items q) \<and> aq_capacity Q (snd (aq_pop Q q)) = aq_capacity Q q)
     \<and> (\<forall>q. aq_len Q q = length (items q))"

section \<open>The connection pool\<close>

record 'm LockFreeConnectionPool =
  connections :: 'm
  total_created :: counter
  total_removed :: counter
  health_check_timeout :: duration

definition pool_new :: "('m, u64, 't \<times> instant) dashmap \<Rightarrow> duration \<Rightarrow> 'm LockFreeConnectionPool" where
  "pool_new D timeout = \<lparr>connections = dm_new D, total_created = counter_new, total_removed = counter_new,
     health_check_timeout = timeout\<rparr>"

definition pool_insert :: "('m, u64, 't \<times> instant) dashmap \<Rightarrow> instant \<Rightarrow> u64 \<Rightarrow> 't \<Rightarrow> 'm LockFreeConnectionPool
    \<Rightarrow> 't option \<times> 'm LockFreeConnectionPool" where
  "pool_insert D now key connection p = (case dm_insert D key (connection, now) (connections p) of
     (old, m) \<Rightarrow> let p = p\<lparr>connections := m\<rparr> in
       (map_option fst old, if old = None then p\<lparr>total_created := snd (counter_increment (total_created p))\<rparr> else p))"

definition pool_get :: "('m, u64, 't \<times> instant) dashmap \<Rightarrow> u64 \<Rightarrow> 'm LockFreeConnectionPool \<Rightarrow> ('t \<times> instant) option" where
  "pool_get D key p = dm_get D key (connections p)"

definition pool_remove :: "('m, u64, 't \<times> instant) dashmap \<Rightarrow> u64 \<Rightarrow> 'm LockFreeConnectionPool
    \<Rightarrow> 't option \<times> 'm LockFreeConnectionPool" where
  "pool_remove D key p = (case dm_remove D key (connections p) of
     (removed, m) \<Rightarrow> let p = p\<lparr>connections := m\<rparr> in
       (map_option fst removed, if removed \<noteq> None then p\<lparr>total_removed := snd (counter_increment (total_removed p))\<rparr> else p))"

definition cleanup_stale :: "('m, u64, 't \<times> instant) dashmap \<Rightarrow> instant \<Rightarrow> 'm LockFreeConnectionPool
    \<Rightarrow> u64 list \<times> 'm LockFreeConnectionPool" where
  "cleanup_stale D now p =
    (let stale = (\<lambda>last_activity. duration_since now last_activity > health_check_timeout p)
     in case dm_retain D (\<lambda>key (_, last_activity). \<not> stale last_activity) (connections p) of
          (visited, m) \<Rightarrow>
            let stale_keys = map fst (filter (\<lambda>(key, (_, last_activity)). stale last_activity) visited);
                p = p\<lparr>connections := m\<rparr>
            in (stale_keys, if stale_keys \<noteq> []
                  then p\<lparr>total_removed := snd (counter_add (of_nat (length stale_keys)) (total_removed p))\<rparr> else p))"

definition pool_len :: "('m, u64, 't \<times> instant) dashmap \<Rightarrow> 'm LockFreeConnectionPool \<Rightarrow> nat" where
  "pool_len D p = dm_len D (connections p)"

record ConnectionPoolMetrics =
  active_connections :: nat
  m_total_created :: u64
  m_total_removed :: u64

definition pool_metrics :: "('m, u64, 't \<times> instant) dashmap \<Rightarrow> 'm LockFreeConnectionPool \<Rightarrow> ConnectionPoolMetrics" where
  "pool_metrics D p = \<lparr>active_connections = pool_len D p, m_total_created = total_created p, m_total_removed = total_removed p\<rparr>"

section \<open>The bounded queue\<close>

record 'q LockFreeBoundedQueue =
  queue :: 'q
  push_count :: counter
  pop_count :: counter
  dropped_count :: counter

definition queue_new :: "('q, 'a) array_queue \<Rightarrow> nat \<Rightarrow> 'q LockFreeBoundedQueue" where
  "queue_new Q capacity = \<lparr>queue = aq_new Q capacity, push_count = counter_new, pop_count = counter_new, dropped_count = counter_new\<rparr>"

definition try_push :: "('q, 'a) array_queue \<Rightarrow> 'a \<Rightarrow> 'q LockFreeBoundedQueue \<Rightarrow> ('a + unit) \<times> 'q LockFreeBoundedQueue" where
  "try_push Q item q = (case aq_push Q item (queue q) of
     (True, a) \<Rightarrow> (Inr (), q\<lparr>queue := a, push_count := snd (counter_increment (push_count q))\<rparr>)
   | (False, a) \<Rightarrow> (Inl item, q\<lparr>queue := a, dropped_count := snd (counter_increment (dropped_count q))\<rparr>))"

definition queue_pop :: "('q, 'a) array_queue \<Rightarrow> 'q LockFreeBoundedQueue \<Rightarrow> 'a option \<times> 'q LockFreeBoundedQueue" where
  "queue_pop Q q = (case aq_pop Q (queue q) of
     (Some item, a) \<Rightarrow> (Some item, q\<lparr>queue := a, pop_count := snd (counter_increment (pop_count q))\<rparr>)
   | (None, a) \<Rightarrow> (None, q\<lparr>queue := a\<rparr>))"

record QueueMetrics =
  current_size :: nat
  q_capacity :: nat
  total_pushed :: u64
  total_popped :: u64
  total_dropped :: u64

definition queue_metrics :: "('q, 'a) array_queue \<Rightarrow> 'q LockFreeBoundedQueue \<Rightarrow> QueueMetrics" where
  "queue_metrics Q q = \<lparr>current_size = aq_len Q (queue q), q_capacity = aq_capacity Q (queue q),
     total_pushed = push_count q, total_popped = pop_count q, total_dropped = dropped_count q\<rparr>"

section \<open>The ring buffer\<close>

text \<open>The code's \<open>push\<close> stores nothing and its \<open>get\<close> returns nothing.\<close>

record 'a LockFreeRingBuffer =
  ring_buffer :: "'a option list"
  write_index :: u64
  ring_capacity :: u64

definition ring_new :: "u64 \<Rightarrow> 'a LockFreeRingBuffer" where
  "ring_new capacity = \<lparr>ring_buffer = replicate (unat capacity) None, write_index = 0, ring_capacity = capacity\<rparr>"

definition ring_push :: "'a \<Rightarrow> 'a LockFreeRingBuffer \<Rightarrow> 'a option \<times> 'a LockFreeRingBuffer" where
  "ring_push item r = (None, r)"

definition ring_get :: "u64 \<Rightarrow> 'a LockFreeRingBuffer \<Rightarrow> 'a option" where
  "ring_get i r = (if i \<ge> ring_capacity r then None else None)"

text \<open>\<open>None\<close> for the panic of a remainder by 0.\<close>

definition current_index :: "'a LockFreeRingBuffer \<Rightarrow> u64 option" where
  "current_index r = (if ring_capacity r = 0 then None else Some (write_index r mod ring_capacity r))"

section \<open>The statistics aggregator\<close>

text \<open>\<open>map.entry(name).or_insert_with(dflt)\<close> followed by an update of the value.\<close>

definition entry_update :: "('m, 'k, 'v) dashmap \<Rightarrow> 'k \<Rightarrow> 'v \<Rightarrow> ('v \<Rightarrow> 'v) \<Rightarrow> 'm \<Rightarrow> 'm" where
  "entry_update D k dflt f m = snd (dm_insert D k (f (case dm_get D k m of None \<Rightarrow> dflt | Some v \<Rightarrow> v)) m)"

record ('c, 'h) LockFreeStatsAggregator =
  message_counts :: 'c
  latency_histograms :: 'h
  error_counts :: 'c
  gauges :: 'c

type_synonym ('c, 'h) stat_maps = "('c, string, counter) dashmap \<times> ('h, string, LockFreeHistogram) dashmap"

definition aggregator_new :: "('c, 'h) stat_maps \<Rightarrow> ('c, 'h) LockFreeStatsAggregator" where
  "aggregator_new D = \<lparr>message_counts = dm_new (fst D), latency_histograms = dm_new (snd D),
     error_counts = dm_new (fst D), gauges = dm_new (fst D)\<rparr>"

definition increment_counter :: "('c, 'h) stat_maps \<Rightarrow> string \<Rightarrow> ('c, 'h) LockFreeStatsAggregator \<Rightarrow> ('c, 'h) LockFreeStatsAggregator" where
  "increment_counter D name a = a\<lparr>message_counts :=
     entry_update (fst D) name counter_new (\<lambda>c. snd (counter_increment c)) (message_counts a)\<rparr>"

definition record_latency :: "('c, 'h) stat_maps \<Rightarrow> string \<Rightarrow> duration \<Rightarrow> ('c, 'h) LockFreeStatsAggregator
    \<Rightarrow> ('c, 'h) LockFreeStatsAggregator" where
  "record_latency D name d a = a\<lparr>latency_histograms :=
     entry_update (snd D) name new_exponential (record_duration d) (latency_histograms a)\<rparr>"

definition increment_error :: "('c, 'h) stat_maps \<Rightarrow> string \<Rightarrow> ('c, 'h) LockFreeStatsAggregator \<Rightarrow> ('c, 'h) LockFreeStatsAggregator" where
  "increment_error D name a = a\<lparr>error_counts :=
     entry_update (fst D) name counter_new (\<lambda>c. snd (counter_increment c)) (error_counts a)\<rparr>"

definition set_gauge :: "('c, 'h) stat_maps \<Rightarrow> string \<Rightarrow> u64 \<Rightarrow> ('c, 'h) LockFreeStatsAggregator \<Rightarrow> ('c, 'h) LockFreeStatsAggregator" where
  "set_gauge D name v a = a\<lparr>gauges := entry_update (fst D) name 0 (\<lambda>_. v) (gauges a)\<rparr>"

definition get_counter :: "('c, 'h) stat_maps \<Rightarrow> string \<Rightarrow> ('c, 'h) LockFreeStatsAggregator \<Rightarrow> u64 option" where
  "get_counter D name a = dm_get (fst D) name (message_counts a)"

definition get_latency_histogram :: "('c, 'h) stat_maps \<Rightarrow> string \<Rightarrow> ('c, 'h) LockFreeStatsAggregator \<Rightarrow> LockFreeHistogram option" where
  "get_latency_histogram D name a = map_option hist_snapshot (dm_get (snd D) name (latency_histograms a))"

definition get_error_count :: "('c, 'h) stat_maps \<Rightarrow> string \<Rightarrow> ('c, 'h) LockFreeStatsAggregator \<Rightarrow> u64 option" where
  "get_error_count D name a = dm_get (fst D) name (error_counts a)"

definition get_gauge :: "('c, 'h) stat_maps \<Rightarrow> string \<Rightarrow> ('c, 'h) LockFreeStatsAggregator \<Rightarrow> u64 option" where
  "get_gauge D name a = dm_get (fst D) name (gauges a)"

definition get_all_counters :: "('c, 'h) stat_maps \<Rightarrow> ('c, 'h) LockFreeStatsAggregator \<Rightarrow> (string \<times> u64) list" where
  "get_all_counters D a = dm_iter (fst D) (message_counts a)"

definition get_all_gauges :: "('c, 'h) stat_maps \<Rightarrow> ('c, 'h) LockFreeStatsAggregator \<Rightarrow> (string \<times> u64) list" where
  "get_all_gauges D a = dm_iter (fst D) (gauges a)"

section \<open>What the histogram counts\<close>

lemma find_bucket_shift: "find_bucket bs i v = i + find_bucket bs 0 v"
  by (induction bs arbitrary: i) (simp, metis add.assoc add.commute find_bucket.simps(2) plus_1_eq_Suc add_0)

lemma find_bucket_le: "find_bucket bs 0 v \<le> length bs"
proof (induction bs)
  case (Cons b bs)
  then show ?case using find_bucket_shift[of bs 1 v] by simp
qed simp

lemma find_bucket_less_iff: "sorted bs \<Longrightarrow> i < length bs \<Longrightarrow> find_bucket bs 0 v \<le> i \<longleftrightarrow> v < bs ! i"
proof (induction bs arbitrary: i)
  case Nil
  then show ?case by simp
next
  case (Cons b bs)
  show ?case
  proof (cases "v < b")
    case True
    with Cons.prems have "v < (b # bs) ! i" by (cases i) (auto intro: less_le_trans)
    with True show ?thesis by simp
  next
    case False
    with Cons show ?thesis using find_bucket_shift[of bs 1 v] by (cases i) simp_all
  qed
qed

definition hist_of :: "u64 list \<Rightarrow> LockFreeHistogram" where
  "hist_of vs = foldl (\<lambda>h v. hist_record v h) new_exponential vs"

definition exponential_boundaries :: "u64 list" where
  "exponential_boundaries = [1, 10, 100, 1000, 10000, 100000, 1000000, 10000000]"

lemma hist_of_counts:
  "bucket_boundaries (hist_of vs) = exponential_boundaries"
  "buckets (hist_of vs) = map (\<lambda>i. of_nat (length (filter (\<lambda>v. find_bucket exponential_boundaries 0 v = i) vs))) [0..<9]"
proof (induction vs rule: rev_induct)
  case Nil
  {
    case 1
    show ?case by (simp add: hist_of_def new_exponential_def exponential_boundaries_def)
  next
    case 2
    show ?case by (simp add: hist_of_def new_exponential_def upt_rec)
  }
next
  case (snoc v vs)
  have step: "hist_of (vs @ [v]) = hist_record v (hist_of vs)" by (simp add: hist_of_def)
  have len: "find_bucket exponential_boundaries 0 v < 9"
    using find_bucket_le[of exponential_boundaries v] by (simp add: exponential_boundaries_def)
  {
    case 1
    show ?case using snoc(1) by (simp add: step hist_record_def Let_def)
  next
    case 2
    show ?case
      using snoc len by (simp add: step hist_record_def Let_def find_bucket_index_def)
        (rule nth_equalityI; simp add: nth_list_update)
  }
qed

lemma percentile_loop_finds:
  "S < unat target \<Longrightarrow> unat target \<le> S + sum_list ns \<Longrightarrow> S + sum_list ns < 2 ^ 64 \<Longrightarrow> i + length ns \<le> length bs + 1 \<Longrightarrow>
   \<exists>j < length ns. percentile_loop bs target i (of_nat S) (map of_nat ns) = Some (if i + j = 0 then 0 else bs ! (i + j - 1))
     \<and> S + sum_list (take j ns) < unat target \<and> unat target \<le> S + sum_list (take (Suc j) ns)"
proof (induction ns arbitrary: S i)
  case Nil
  then show ?case by simp
next
  case (Cons n ns)
  have sum: "(of_nat S + of_nat n :: u64) = of_nat (S + n)" by simp
  have val: "unat (of_nat (S + n) :: u64) = S + n"
    using Cons.prems(3) by (intro unat_of_nat_u64) simp
  show ?case
  proof (cases "unat target \<le> S + n")
    case True
    then have "(of_nat (S + n) :: u64) \<ge> target" using val by (simp add: word_le_nat_alt)
    with True Cons.prems show ?thesis
      by (intro exI[of _ 0]) (auto simp: Let_def simp flip: sum)
  next
    case False
    then have "\<not> (of_nat (S + n) :: u64) \<ge> target" using val by (simp add: word_le_nat_alt)
    moreover obtain j where "j < length ns"
      "percentile_loop bs target (i + 1) (of_nat (S + n)) (map of_nat ns) = Some (if i + 1 + j = 0 then 0 else bs ! (i + 1 + j - 1))"
      "S + n + sum_list (take j ns) < unat target" "unat target \<le> S + n + sum_list (take (Suc j) ns)"
      using Cons.IH[of "S + n" "i + 1"] Cons.prems False by auto
    ultimately show ?thesis
      by (intro exI[of _ "Suc j"]) (simp add: Let_def add.assoc)
  qed
qed

lemma sum_counts: "i \<le> n \<Longrightarrow> sum_list (take i (map (\<lambda>i. length (filter (\<lambda>v. f v = i) vs)) [0..<n]))
    = length (filter (\<lambda>v. f v < i) vs)"
proof (induction i)
  case 0
  then show ?case by simp
next
  case (Suc i)
  have "length (filter (\<lambda>v. f v < Suc i) vs) = length (filter (\<lambda>v. f v < i) vs) + length (filter (\<lambda>v. f v = i) vs)"
    by (induction vs) auto
  with Suc show ?case by (simp add: take_Suc_conv_app_nth)
qed

text \<open>
  C39: a percentile is exact up to the bucket: with \<open>n = \<lceil>p * count\<rceil>\<close>, the answer is the
  lower boundary of the bucket that holds the \<open>n\<close>-th smallest of the recorded values. Fewer
  than \<open>n\<close> values lie below it, and at least \<open>n\<close> below every boundary above it.
\<close>

theorem percentile_brackets:
  assumes "length vs < 2 ^ 64" and "percentile_target p (of_nat (length vs)) = target"
    and "0 < unat target" and "unat target \<le> length vs"
  shows "\<exists>r. percentile p (hist_of vs) = Some r \<and> (r = 0 \<or> r \<in> set exponential_boundaries)
    \<and> length (filter (\<lambda>v. v < r) vs) < unat target
    \<and> (\<forall>b \<in> set exponential_boundaries. r < b \<longrightarrow> unat target \<le> length (filter (\<lambda>v. v < b) vs))"
proof -
  let ?bs = exponential_boundaries
  let ?f = "find_bucket ?bs 0"
  let ?ns = "map (\<lambda>i. length (filter (\<lambda>v. ?f v = i) vs)) [0..<9]"
  have len: "length ?bs = 8" and sorted: "sorted_wrt (<) ?bs" by (simp_all add: exponential_boundaries_def)
  have small: "?f v < 9" for v using find_bucket_le[of ?bs v] by (simp add: len)
  have total_ns: "sum_list ?ns = length vs" using sum_counts[of 9 9 ?f vs] small by simp
  have total: "total_count (hist_of vs) = of_nat (length vs)"
  proof -
    have "total_count (hist_of vs) = of_nat (sum_list ?ns)"
      by (simp add: total_count_def hist_of_counts upt_rec)
    then show ?thesis by (simp only: total_ns)
  qed
  have nonzero: "(of_nat (length vs) :: u64) \<noteq> 0"
    using assms(1,3,4) unat_of_nat_u64[of "length vs"] by (metis le_zero_eq not_less_zero unat_0)
  obtain j where j: "j < 9" "percentile_loop ?bs target 0 0 (map of_nat ?ns) = Some (if j = 0 then 0 else ?bs ! (j - 1))"
    "sum_list (take j ?ns) < unat target" "unat target \<le> sum_list (take (Suc j) ?ns)"
    using percentile_loop_finds[of 0 target ?ns 0 ?bs] assms total_ns len by auto
  let ?r = "if j = 0 then 0 else ?bs ! (j - 1)"
  have "percentile p (hist_of vs) = Some ?r"
    using j(2) nonzero assms(2) by (simp add: percentile_def total hist_of_counts comp_def)
  moreover have "?r = 0 \<or> ?r \<in> set ?bs" using j(1) len by auto
  moreover have below: "length (filter (\<lambda>v. v < b) vs) = length (filter (\<lambda>v. ?f v < Suc i) vs)" if "i < 8" "b = ?bs ! i" for i b
  proof -
    have "?f v < Suc i \<longleftrightarrow> v < b" for v
      using find_bucket_less_iff[of ?bs i v] sorted that len by (simp add: strict_sorted_imp_sorted less_Suc_eq_le)
    then show ?thesis by simp
  qed
  have "length (filter (\<lambda>v. v < ?r) vs) < unat target"
    using j(1,3) below[of "j - 1" ?r] sum_counts[of j 9 ?f vs] by (cases j) simp_all
  moreover have "unat target \<le> length (filter (\<lambda>v. v < b) vs)" if b: "b \<in> set ?bs" "?r < b" for b
  proof -
    obtain i where i: "i < 8" "b = ?bs ! i" using b(1) len by (auto simp: in_set_conv_nth)
    have "j \<le> i"
    proof (rule ccontr)
      assume "\<not> j \<le> i"
      then have "?bs ! i \<le> ?bs ! (j - 1)" using sorted j(1) len by (intro sorted_nth_mono) (auto simp: strict_sorted_imp_sorted)
      with b(2) i \<open>\<not> j \<le> i\<close> show False by (simp split: if_splits)
    qed
    have "unat target \<le> length (filter (\<lambda>v. ?f v < Suc j) vs)"
      using j(1,4) sum_counts[of "Suc j" 9 ?f vs] by simp
    also have "\<dots> \<le> length (filter (\<lambda>v. ?f v < Suc i) vs)"
      using \<open>j \<le> i\<close> by (induction vs) auto
    finally show ?thesis using below[OF i] by simp
  qed
  ultimately show ?thesis by blast
qed

theorem percentile_brackets_witness:
  "\<exists>r. percentile (1 / 2) (hist_of [5, 50, 500]) = Some r \<and> (r = 0 \<or> r \<in> set exponential_boundaries)
    \<and> length (filter (\<lambda>v. v < r) [5, 50, 500 :: u64]) < 2
    \<and> (\<forall>b \<in> set exponential_boundaries. r < b \<longrightarrow> 2 \<le> length (filter (\<lambda>v. v < b) [5, 50, 500]))"
proof -
  have "percentile_target (1 / 2) (of_nat (length [5, 50, 500 :: u64])) = 2"
    by (simp add: percentile_target_def f64_eval f64_ceil_def f64_to_u64_def)
  from percentile_brackets [OF _ this] show ?thesis by simp
qed

section \<open>The accounting of the connection pool\<close>

lemma dashmap_okD:
  assumes "dashmap_ok D view"
  shows "view (dm_new D) = Map.empty" and "dm_get D k m = view m k"
    and "fst (dm_insert D k v m) = view m k" and "view (snd (dm_insert D k v m)) = (view m)(k \<mapsto> v)"
    and "fst (dm_remove D k m) = view m k" and "view (snd (dm_remove D k m)) = (view m)(k := None)"
    and "lists_map (fst (dm_retain D P m)) (view m)"
    and "view (snd (dm_retain D P m)) = (\<lambda>k. case view m k of None \<Rightarrow> None | Some v \<Rightarrow> if P k v then Some v else None)"
    and "lists_map (dm_iter D m) (view m)" and "dm_len D m = length (dm_iter D m)"
  using assms by (simp_all add: dashmap_ok_def)

lemma lists_map_dom: "lists_map xs m \<Longrightarrow> finite (dom m) \<and> card (dom m) = length xs"
proof -
  assume xs: "lists_map xs m"
  then have "dom m = fst ` set xs" by (force simp: lists_map_def)
  moreover have "card (fst ` set xs) = length xs"
    using xs by (metis distinct_card length_map list.set_map lists_map_def)
  ultimately show ?thesis by simp
qed

datatype 't pool_op = Insert instant u64 't | Remove u64 | Cleanup instant

definition pool_step :: "('m, u64, 't \<times> instant) dashmap \<Rightarrow> 'm LockFreeConnectionPool \<Rightarrow> 't pool_op
    \<Rightarrow> 'm LockFreeConnectionPool \<Rightarrow> bool" where
  "pool_step D p op p' \<longleftrightarrow> p' = (case op of Insert now k c \<Rightarrow> snd (pool_insert D now k c p)
     | Remove k \<Rightarrow> snd (pool_remove D k p) | Cleanup now \<Rightarrow> snd (cleanup_stale D now p))"

definition accounted :: "('m, u64, 't \<times> instant) dashmap \<Rightarrow> ('m \<Rightarrow> u64 \<rightharpoonup> 't \<times> instant) \<Rightarrow> 'm LockFreeConnectionPool \<Rightarrow> bool" where
  "accounted D view p \<longleftrightarrow> (dashmap_ok D view \<longrightarrow>
     total_created p = total_removed p + of_nat (card (dom (view (connections p)))))"

lemma cleanup_stale_keys:
  assumes "dashmap_ok D view"
  shows "set (fst (cleanup_stale D now p)) =
      {k. \<exists>c t. view (connections p) k = Some (c, t) \<and> duration_since now t > health_check_timeout p}"
    and "length (fst (cleanup_stale D now p)) = card (set (fst (cleanup_stale D now p)))"
    and "view (connections (snd (cleanup_stale D now p))) k =
      (if k \<in> set (fst (cleanup_stale D now p)) then None else view (connections p) k)"
proof -
  let ?P = "\<lambda>key (_, last_activity). \<not> duration_since now last_activity > health_check_timeout p"
  obtain visited m where ret: "dm_retain D ?P (connections p) = (visited, m)" by fastforce
  have vis: "lists_map visited (view (connections p))"
    using dashmap_okD(7)[OF assms, of ?P "connections p"] unfolding ret by simp
  have m: "view m = (\<lambda>k. case view (connections p) k of None \<Rightarrow> None | Some v \<Rightarrow> if ?P k v then Some v else None)"
    using dashmap_okD(8)[OF assms, of ?P "connections p"] unfolding ret by simp
  have keys: "fst (cleanup_stale D now p) = map fst (filter (\<lambda>(key, (_, last_activity)).
      duration_since now last_activity > health_check_timeout p) visited)"
    unfolding cleanup_stale_def Let_def ret by simp
  have conn: "connections (snd (cleanup_stale D now p)) = m"
    unfolding cleanup_stale_def Let_def ret by simp
  show stale: "set (fst (cleanup_stale D now p)) =
      {k. \<exists>c t. view (connections p) k = Some (c, t) \<and> duration_since now t > health_check_timeout p}"
    unfolding keys using vis by (force simp: lists_map_def)
  have "distinct (fst (cleanup_stale D now p))"
    unfolding keys using vis by (simp add: lists_map_def distinct_map_filter)
  then show "length (fst (cleanup_stale D now p)) = card (set (fst (cleanup_stale D now p)))"
    by (simp add: distinct_card)
  show "view (connections (snd (cleanup_stale D now p))) k =
      (if k \<in> set (fst (cleanup_stale D now p)) then None else view (connections p) k)"
    unfolding conn stale m by (auto split: option.split prod.split)
qed

lemma pool_insert_accounted:
  assumes "dashmap_ok D view" and "total_created p = total_removed p + of_nat (card (dom (view (connections p))))"
  shows "total_created (snd (pool_insert D now k c p)) = total_removed (snd (pool_insert D now k c p))
    + of_nat (card (dom (view (connections (snd (pool_insert D now k c p))))))"
proof -
  have fin: "finite (dom (view (connections p)))" using lists_map_dom dashmap_okD(9)[OF assms(1)] by blast
  obtain old m where ins: "dm_insert D k (c, now) (connections p) = (old, m)" by fastforce
  have old: "old = view (connections p) k" "view m = (view (connections p))(k \<mapsto> (c, now))"
    using dashmap_okD(3,4)[OF assms(1), of k "(c, now)" "connections p"] ins by simp_all
  show ?thesis
  proof (cases "view (connections p) k")
    case None
    then have "card (dom (view m)) = Suc (card (dom (view (connections p))))"
      using fin by (simp add: old domIff)
    with None assms(2) old show ?thesis by (simp add: pool_insert_def ins Let_def counter_increment_def counter_add_def)
  next
    case (Some v)
    then have "dom (view m) = dom (view (connections p))" by (auto simp: old)
    with Some assms(2) old show ?thesis by (simp add: pool_insert_def ins Let_def)
  qed
qed

lemma pool_remove_accounted:
  assumes "dashmap_ok D view" and "total_created p = total_removed p + of_nat (card (dom (view (connections p))))"
  shows "total_created (snd (pool_remove D k p)) = total_removed (snd (pool_remove D k p))
    + of_nat (card (dom (view (connections (snd (pool_remove D k p))))))"
proof -
  have fin: "finite (dom (view (connections p)))" using lists_map_dom dashmap_okD(9)[OF assms(1)] by blast
  obtain old m where rem: "dm_remove D k (connections p) = (old, m)" by fastforce
  have old: "old = view (connections p) k" "view m = (view (connections p))(k := None)"
    using dashmap_okD(5,6)[OF assms(1), of k "connections p"] rem by simp_all
  show ?thesis
  proof (cases "view (connections p) k")
    case None
    with assms(2) old show ?thesis by (simp add: pool_remove_def rem Let_def domIff)
  next
    case (Some v)
    then have "card (dom (view (connections p))) = Suc (card (dom (view m)))"
      using fin card_Suc_Diff1[of "dom (view (connections p))" k] by (simp add: old domIff)
    with Some assms(2) old show ?thesis by (simp add: pool_remove_def rem Let_def counter_increment_def counter_add_def)
  qed
qed

lemma cleanup_stale_accounted:
  assumes "dashmap_ok D view" and "total_created p = total_removed p + of_nat (card (dom (view (connections p))))"
  shows "total_created (snd (cleanup_stale D now p)) = total_removed (snd (cleanup_stale D now p))
    + of_nat (card (dom (view (connections (snd (cleanup_stale D now p))))))"
proof -
  let ?keys = "fst (cleanup_stale D now p)" and ?p = "snd (cleanup_stale D now p)"
  have fin: "finite (dom (view (connections p)))" using lists_map_dom dashmap_okD(9)[OF assms(1)] by blast
  have sub: "set ?keys \<subseteq> dom (view (connections p))"
    unfolding cleanup_stale_keys(1)[OF assms(1)] by auto
  have "dom (view (connections ?p)) = dom (view (connections p)) - set ?keys"
    unfolding dom_def using cleanup_stale_keys(3)[OF assms(1)] by auto
  then have "card (dom (view (connections p))) = length ?keys + card (dom (view (connections ?p)))"
    using card_Diff_subset[OF finite_set sub] card_mono[OF fin sub] cleanup_stale_keys(2)[OF assms(1), of now p] by simp
  moreover have "total_created ?p = total_created p" "total_removed ?p = total_removed p + of_nat (length ?keys)"
    by (auto simp: cleanup_stale_def Let_def counter_add_def split: prod.splits)
  ultimately show ?thesis using assms(2) by simp
qed

interpretation pool: invariant_of "\<lambda>p. \<exists>timeout. p = pool_new D timeout" "pool_step D" "accounted D view" for D view
proof
  show "accounted D view p" if "\<exists>timeout. p = pool_new D timeout" for p
    using that by (auto simp: accounted_def pool_new_def counter_new_def dashmap_okD(1))
  show "accounted D view p'" if "accounted D view p" and "pool_step D p op p'" for p op p'
  proof (cases op)
    case (Insert now k c)
    with that show ?thesis unfolding accounted_def pool_step_def by (simp add: pool_insert_accounted)
  next
    case (Remove k)
    with that show ?thesis unfolding accounted_def pool_step_def by (simp add: pool_remove_accounted)
  next
    case (Cleanup now)
    with that show ?thesis unfolding accounted_def pool_step_def by (simp add: cleanup_stale_accounted)
  qed
qed

text \<open>
  The connection pool keeps its books: after any sequence of inserts (a replacement is not
  a creation), removals and clean-ups, the number of active connections is the number created
  less the number removed; and a clean-up removes exactly the connections that were idle for
  longer than the timeout, reports them and keeps the others.
\<close>

theorem pool_accounting:
  assumes "dashmap_ok D view" and "reachable (\<lambda>p. \<exists>timeout. p = pool_new D timeout) (pool_step D) p"
  shows "of_nat (active_connections (pool_metrics D p)) = m_total_created (pool_metrics D p) - m_total_removed (pool_metrics D p)
    \<and> (\<forall>k. view (connections (snd (cleanup_stale D now p))) k =
        (case view (connections p) k of None \<Rightarrow> None
         | Some (c, t) \<Rightarrow> if duration_since now t > health_check_timeout p then None else Some (c, t)))
    \<and> set (fst (cleanup_stale D now p)) =
        dom (view (connections p)) - dom (view (connections (snd (cleanup_stale D now p))))"
proof -
  have "accounted D view p" by (rule pool.always[OF assms(2)])
  moreover have "dm_len D (connections p) = card (dom (view (connections p)))"
    using lists_map_dom[OF dashmap_okD(9)[OF assms(1)]] by (simp add: dashmap_okD(10)[OF assms(1)])
  ultimately have "of_nat (active_connections (pool_metrics D p)) = m_total_created (pool_metrics D p) - m_total_removed (pool_metrics D p)"
    using assms(1) by (simp add: accounted_def pool_metrics_def pool_len_def)
  moreover note clean = cleanup_stale_keys(1,3)[OF assms(1), of now p]
  have "view (connections (snd (cleanup_stale D now p))) k =
        (case view (connections p) k of None \<Rightarrow> None
         | Some (c, t) \<Rightarrow> if duration_since now t > health_check_timeout p then None else Some (c, t))" for k
    unfolding clean(2) clean(1) by (auto split: option.split)
  moreover have "set (fst (cleanup_stale D now p)) =
        dom (view (connections p)) - dom (view (connections (snd (cleanup_stale D now p))))"
    unfolding dom_def clean(2) unfolding clean(1) by auto
  ultimately show ?thesis by blast
qed

section \<open>A concrete map\<close>

definition alist_map :: "(('k \<times> 'v) list, 'k, 'v) dashmap" where
  "alist_map = \<lparr>dm_new = [], dm_get = (\<lambda>k m. map_of m k),
     dm_insert = (\<lambda>k v m. (map_of m k, (k, v) # filter (\<lambda>(k', _). k' \<noteq> k) m)),
     dm_remove = (\<lambda>k m. (map_of m k, filter (\<lambda>(k', _). k' \<noteq> k) m)),
     dm_retain = (\<lambda>P m. (AList.clearjunk m, filter (\<lambda>(k, v). P k v) (AList.clearjunk m))),
     dm_iter = AList.clearjunk, dm_len = (\<lambda>m. length (AList.clearjunk m))\<rparr>"

lemma clearjunk_lists: "lists_map (AList.clearjunk m) (map_of m)"
  using map_of_clearjunk[of m] distinct_clearjunk[of m] by (metis lists_map_def map_of_eq_Some_iff)

lemma alist_map_ok: "dashmap_ok alist_map map_of"
proof -
  have drop: "map_of (filter (\<lambda>(k', _). k' \<noteq> k) m) = (map_of m)(k := None)" for k :: 'a and m :: "('a \<times> 'b) list"
    by (induction m) (auto simp: fun_eq_iff)
  have keep: "distinct (map fst m) \<Longrightarrow> map_of (filter (\<lambda>(k, v). P k v) m) =
      (\<lambda>k. case map_of m k of None \<Rightarrow> None | Some v \<Rightarrow> if P k v then Some v else None)" for P and m :: "('a \<times> 'b) list"
  proof (intro ext)
    fix k assume dist: "distinct (map fst m)"
    then have dist': "distinct (map fst (filter (\<lambda>(k, v). P k v) m))" by (rule distinct_map_filter)
    have iff: "map_of (filter (\<lambda>(k, v). P k v) m) k = Some v \<longleftrightarrow> map_of m k = Some v \<and> P k v" for v
      unfolding map_of_eq_Some_iff[OF dist'] map_of_eq_Some_iff[OF dist] by simp
    show "map_of (filter (\<lambda>(k, v). P k v) m) k = (case map_of m k of None \<Rightarrow> None | Some v \<Rightarrow> if P k v then Some v else None)"
    proof (cases "map_of (filter (\<lambda>(k, v). P k v) m) k")
      case None
      then have "\<not> (map_of m k = Some v \<and> P k v)" for v unfolding iff[symmetric] by simp
      with None show ?thesis by (cases "map_of m k") auto
    next
      case (Some v)
      then have "map_of m k = Some v \<and> P k v" unfolding iff[symmetric] .
      with Some show ?thesis by simp
    qed
  qed
  show ?thesis
    using keep[OF distinct_clearjunk]
    by (simp add: dashmap_ok_def alist_map_def drop map_of_clearjunk clearjunk_lists)
qed

theorem pool_accounting_witness:
  "\<exists>p :: (u64 \<times> nat \<times> instant) list LockFreeConnectionPool. length (connections p) = 2
    \<and> of_nat (active_connections (pool_metrics alist_map p)) = m_total_created (pool_metrics alist_map p) - m_total_removed (pool_metrics alist_map p)
    \<and> connections (snd (cleanup_stale alist_map 100 p)) = [(2, 8, 95)]"
proof -
  let ?fresh = "pool_new alist_map 10 :: (u64 \<times> nat \<times> instant) list LockFreeConnectionPool"
  let ?one = "snd (pool_insert alist_map 50 1 7 ?fresh)"
  let ?two = "snd (pool_insert alist_map 95 2 8 ?one)"
  have "reachable (\<lambda>p. \<exists>timeout. p = pool_new alist_map timeout) (pool_step alist_map) ?fresh"
    by (rule reachable_init) blast
  from reachable_step[OF this, of "Insert 50 1 7" ?one]
  have r1: "reachable (\<lambda>p. \<exists>timeout. p = pool_new alist_map timeout) (pool_step alist_map) ?one"
    by (simp add: pool_step_def)
  from reachable_step[OF this, of "Insert 95 2 8" ?two]
  have r: "reachable (\<lambda>p. \<exists>timeout. p = pool_new alist_map timeout) (pool_step alist_map) ?two"
    by (simp add: pool_step_def)
  have "connections ?two = [(2, 8, 95), (1, 7, 50)]" "health_check_timeout ?two = 10"
    by (simp_all add: pool_insert_def pool_new_def alist_map_def Let_def)
  moreover have "connections (snd (cleanup_stale alist_map 100 ?two)) = [(2, 8, 95)]"
    by (simp add: cleanup_stale_def Let_def alist_map_def pool_insert_def pool_new_def AList.clearjunk.simps AList.delete_eq)
  ultimately show ?thesis
    using pool_accounting [OF alist_map_ok r, of 100] by (intro exI[of _ ?two]) simp
qed

end
