(* ===== verification/StateMachine.thy ===== *)
theory StateMachine
  imports Wire "HOL-Library.Finite_Map" "HOL-Library.Sublist" "HOL-Library.List_Lexorder" "HOL-Library.Char_ord"
begin

text \<open>
  \<open>src/src/raft/generic_state_machine.rs\<close>, \<open>kv_example.rs\<close> and \<open>state_machine.rs\<close>: the interface
  of a replicated state machine, the wrapper that feeds it the entries of the log, and the
  key-value store. A trait is a record of its methods. A method may read its surroundings: the
  clock and the order in which a \<open>HashMap\<close> iterates, which differs from process to process; both
  are an argument \<open>env\<close>. A \<open>HashMap\<close> is a finite map.
\<close>

section \<open>The interface and the wrapper\<close>

record env =
  utc_now :: int
  hash_order :: "(string, string) fmap \<Rightarrow> string list"

text \<open>The trait \<open>StateMachine\<close> of a type \<open>'t\<close>.\<close>

record ('t, 'c, 's, 'r, 'q, 'p) state_machine_ops =
  apply_command :: "env \<Rightarrow> 'c \<Rightarrow> 't \<Rightarrow> (RaftError + 'r) \<times> 't"
  create_snapshot :: "'t \<Rightarrow> RaftError + 's"
  restore_snapshot :: "'s \<Rightarrow> 't \<Rightarrow> (RaftError + unit) \<times> 't"
  get_current_state :: "'t \<Rightarrow> 's"
  execute_query :: "env \<Rightarrow> 'q \<Rightarrow> 't \<Rightarrow> RaftError + 'p"

record 't GenericRaftStateMachine =
  machine_inner :: 't

definition machine_new :: "'t \<Rightarrow> 't GenericRaftStateMachine" where
  "machine_new state_machine = \<lparr>machine_inner = state_machine\<rparr>"

definition lift_machine :: "('t \<Rightarrow> 'b \<times> 't) \<Rightarrow> 't GenericRaftStateMachine \<Rightarrow> 'b \<times> 't GenericRaftStateMachine" where
  "lift_machine f g = (case f (machine_inner g) of (r, t) \<Rightarrow> (r, g\<lparr>machine_inner := t\<rparr>))"

definition apply_entry :: "('t, 'c, 's, 'r, 'q, 'p) state_machine_ops \<Rightarrow> 'c bincode \<Rightarrow> env \<Rightarrow> Entry
    \<Rightarrow> 't GenericRaftStateMachine \<Rightarrow> (RaftError + 'r) \<times> 't GenericRaftStateMachine" where
  "apply_entry M B e entry g =
    (if entry_data entry = [] then (Inl (InvalidInput ''entry'' ''Entry data is empty''), g)
     else case map_err from_bincode_error (bin_deserialize B (entry_data entry)) of
       Inl err \<Rightarrow> (Inl err, g)
     | Inr command \<Rightarrow> lift_machine (apply_command M e command) g)"

definition snapshot_bytes :: "('t, 'c, 's, 'r, 'q, 'p) state_machine_ops \<Rightarrow> 's bincode
    \<Rightarrow> 't GenericRaftStateMachine \<Rightarrow> RaftError + bytes" where
  "snapshot_bytes M B g = and_then (create_snapshot M (machine_inner g)) (\<lambda>state.
     map_err from_bincode_error (bin_serialize B state))"

definition restore_bytes :: "('t, 'c, 's, 'r, 'q, 'p) state_machine_ops \<Rightarrow> 's bincode \<Rightarrow> bytes
    \<Rightarrow> 't GenericRaftStateMachine \<Rightarrow> (RaftError + unit) \<times> 't GenericRaftStateMachine" where
  "restore_bytes M B snapshot_data g = (case map_err from_bincode_error (bin_deserialize B snapshot_data) of
       Inl err \<Rightarrow> (Inl err, g)
     | Inr state \<Rightarrow> lift_machine (restore_snapshot M state) g)"

text \<open>The wrapper is a state machine again.\<close>

definition generic_machine :: "('t, 'c, 's, 'r, 'q, 'p) state_machine_ops
    \<Rightarrow> ('t GenericRaftStateMachine, 'c, 's, 'r, 'q, 'p) state_machine_ops" where
  "generic_machine M = \<lparr>
     apply_command = (\<lambda>e c. lift_machine (apply_command M e c)),
     create_snapshot = (\<lambda>g. create_snapshot M (machine_inner g)),
     restore_snapshot = (\<lambda>s. lift_machine (restore_snapshot M s)),
     get_current_state = (\<lambda>g. get_current_state M (machine_inner g)),
     execute_query = (\<lambda>e q g. execute_query M e q (machine_inner g))\<rparr>"

definition encode_command :: "'c bincode \<Rightarrow> 'c \<Rightarrow> RaftError + bytes" where
  "encode_command B command = map_err from_bincode_error (bin_serialize B command)"

section \<open>The key-value store\<close>

datatype KvCommand = KvSet string string | KvDelete string | KvClear

datatype KvResponse = RespOk | RespValue "string option" | RespKeys "string list"

datatype KvQuery = QGet string | QList "string option" | QExists string | QSize

datatype KvQueryResponse = AnsValue "string option" | AnsKeys "string list" | AnsBoolean bool | AnsNumber u64

record KvMetadata =
  operation_count :: u64
  last_updated :: int
  kv_version :: u64

record KvState =
  kv_data :: "(string, string) fmap"
  kv_metadata :: KvMetadata

record KeyValueStore =
  kv_state :: KvState

definition kv_state_default :: "env \<Rightarrow> KvState" where
  "kv_state_default e = \<lparr>kv_data = fmempty,
     kv_metadata = \<lparr>operation_count = 0, last_updated = utc_now e, kv_version = 0\<rparr>\<rparr>"

definition kv_len :: "KvState \<Rightarrow> u64" where
  "kv_len s = of_nat (fcard (fmdom (kv_data s)))"

definition kv_get :: "KvState \<Rightarrow> string \<Rightarrow> string option" where
  "kv_get s key = fmlookup (kv_data s) key"

definition kv_new :: "env \<Rightarrow> KeyValueStore" where
  "kv_new e = \<lparr>kv_state = kv_state_default e\<rparr>"

definition kv_with_state :: "KvState \<Rightarrow> KeyValueStore" where
  "kv_with_state state = \<lparr>kv_state = state\<rparr>"

definition update_metadata :: "env \<Rightarrow> KvState \<Rightarrow> KvState" where
  "update_metadata e s = s\<lparr>kv_metadata := \<lparr>operation_count = operation_count (kv_metadata s) + 1,
     last_updated = utc_now e, kv_version = kv_version (kv_metadata s) + 1\<rparr>\<rparr>"

definition kv_apply_command :: "env \<Rightarrow> KvCommand \<Rightarrow> KeyValueStore \<Rightarrow> (RaftError + KvResponse) \<times> KeyValueStore" where
  "kv_apply_command e command store = (let s = kv_state store in (Inr RespOk, store\<lparr>kv_state := (case command of
       KvSet key v \<Rightarrow> update_metadata e (s\<lparr>kv_data := fmupd key v (kv_data s)\<rparr>)
     | KvDelete key \<Rightarrow> (case fmlookup (kv_data s) key of
           Some _ \<Rightarrow> update_metadata e (s\<lparr>kv_data := fmdrop key (kv_data s)\<rparr>)
         | None \<Rightarrow> update_metadata e s)
     | KvClear \<Rightarrow> update_metadata e (s\<lparr>kv_data := fmempty\<rparr>))\<rparr>))"

definition kv_create_snapshot :: "KeyValueStore \<Rightarrow> RaftError + KvState" where
  "kv_create_snapshot store = Inr (kv_state store)"

definition kv_restore_from_snapshot :: "KvState \<Rightarrow> KeyValueStore \<Rightarrow> (RaftError + unit) \<times> KeyValueStore" where
  "kv_restore_from_snapshot snapshot store = (Inr (), store\<lparr>kv_state := snapshot\<rparr>)"

definition kv_execute_query :: "env \<Rightarrow> KvQuery \<Rightarrow> KeyValueStore \<Rightarrow> RaftError + KvQueryResponse" where
  "kv_execute_query e query store = (let d = kv_data (kv_state store) in case query of
       QGet key \<Rightarrow> Inr (AnsValue (fmlookup d key))
     | QList p \<Rightarrow> (case p of
           Some pre \<Rightarrow> Inr (AnsKeys (filter (\<lambda>k. prefix pre k) (hash_order e d)))
         | None \<Rightarrow> Inr (AnsKeys (hash_order e d)))
     | QExists key \<Rightarrow> Inr (AnsBoolean (fmlookup d key \<noteq> None))
     | QSize \<Rightarrow> Inr (AnsNumber (of_nat (fcard (fmdom d)))))"

definition kv_machine :: "(KeyValueStore, KvCommand, KvState, KvResponse, KvQuery, KvQueryResponse) state_machine_ops" where
  "kv_machine = \<lparr>apply_command = kv_apply_command, create_snapshot = kv_create_snapshot,
     restore_snapshot = kv_restore_from_snapshot, get_current_state = kv_state, execute_query = kv_execute_query\<rparr>"

definition new_kv_store :: "env \<Rightarrow> KeyValueStore GenericRaftStateMachine" where
  "new_kv_store e = machine_new (kv_new e)"

definition new_kv_store_with_state :: "KvState \<Rightarrow> KeyValueStore GenericRaftStateMachine" where
  "new_kv_store_with_state state = machine_new (kv_with_state state)"

section \<open>What a state machine promises\<close>

text \<open>The iteration order of a \<open>HashMap\<close> lists its keys, each once.\<close>

definition hash_ok :: "env \<Rightarrow> bool" where
  "hash_ok e \<longleftrightarrow> (\<forall>m. distinct (hash_order e m) \<and> set (hash_order e m) = fmdom' m)"

text \<open>
  The contract: seen through \<open>view\<close>, a command does what the specification says, whatever the
  clock shows; a snapshot is the state and restoring it succeeds; queries are answered from the
  view of the state.
\<close>

locale state_machine =
  fixes M :: "('t, 'c, 's, 'r, 'q, 'p) state_machine_ops"
    and view :: "'s \<Rightarrow> 'a" and spec :: "'c \<Rightarrow> 'a \<Rightarrow> 'a" and answers :: "'q \<Rightarrow> 'a \<Rightarrow> 'p \<Rightarrow> bool"
  assumes apply_spec: "view (get_current_state M (snd (apply_command M e c t))) = spec c (view (get_current_state M t))"
    and snapshot_is_state: "create_snapshot M t = Inr (get_current_state M t)"
    and restored: "fst (restore_snapshot M s t) = Inr ()" "get_current_state M (snd (restore_snapshot M s t)) = s"
    and query_answered: "hash_ok e \<Longrightarrow> \<exists>p. execute_query M e q t = Inr p \<and> answers q (view (get_current_state M t)) p"

lemma fst_lift_machine: "fst (lift_machine f g) = fst (f (machine_inner g))"
  by (simp add: lift_machine_def split: prod.split)

lemma inner_lift_machine: "machine_inner (snd (lift_machine f g)) = snd (f (machine_inner g))"
  by (simp add: lift_machine_def split: prod.split)

text \<open>The loop in which a node applies committed entries; the result of an entry only goes to its proposer.\<close>

fun apply_log :: "('t, 'c, 's, 'r, 'q, 'p) state_machine_ops \<Rightarrow> 'c bincode \<Rightarrow> (env \<times> Entry) list
    \<Rightarrow> 't GenericRaftStateMachine \<Rightarrow> 't GenericRaftStateMachine" where
  "apply_log M B [] g = g"
| "apply_log M B ((e, entry) # log) g = apply_log M B log (snd (apply_entry M B e entry g))"

text \<open>The commands that a log carries: empty entries and entries that do not decode have none.\<close>

fun log_commands :: "'c bincode \<Rightarrow> Entry list \<Rightarrow> 'c list" where
  "log_commands B [] = []"
| "log_commands B (entry # log) =
     (if entry_data entry = [] then log_commands B log
      else case bin_deserialize B (entry_data entry) of
        Inl _ \<Rightarrow> log_commands B log
      | Inr command \<Rightarrow> command # log_commands B log)"

lemma log_commands_append: "log_commands B (log @ log') = log_commands B log @ log_commands B log'"
  by (induction log) (auto split: sum.split)

context state_machine
begin

abbreviation state_of :: "'t GenericRaftStateMachine \<Rightarrow> 's" where
  "state_of g \<equiv> get_current_state M (machine_inner g)"

lemma apply_entry_spec:
  "view (state_of (snd (apply_entry M B e entry g))) = fold spec (log_commands B [entry]) (view (state_of g))"
  by (auto simp: apply_entry_def inner_lift_machine apply_spec map_err_def split: sum.split)

lemma apply_log_spec:
  "view (state_of (apply_log M B log g)) = fold spec (log_commands B (map snd log)) (view (state_of g))"
proof (induction log arbitrary: g)
  case (Cons item log)
  obtain e entry where item: "item = (e, entry)" by (cases item)
  have "log_commands B (map snd (item # log)) = log_commands B [entry] @ log_commands B (map snd log)"
    using log_commands_append[of B "[entry]" "map snd log"] by (simp add: item)
  with Cons apply_entry_spec[of B e entry g] show ?case by (simp add: item)
qed simp

lemma snapshot_transfers:
  assumes "bincode_ok B"
  obtains bs h' where "snapshot_bytes M B g = Inr bs" "restore_bytes M B bs h = (Inr (), h')" "state_of h' = state_of g"
proof -
  let ?s = "state_of g"
  obtain bs where bs: "bin_serialize B ?s = Inr bs" "bin_deserialize B bs = Inr ?s"
    using assms unfolding bincode_ok_def codec_def by blast
  show thesis
  proof (rule that)
    show "snapshot_bytes M B g = Inr bs" by (simp add: snapshot_bytes_def snapshot_is_state bs)
    show "restore_bytes M B bs h = (Inr (), snd (lift_machine (restore_snapshot M ?s) h))"
      by (rule prod_eqI) (simp_all add: restore_bytes_def bs fst_lift_machine restored(1))
    show "state_of (snd (lift_machine (restore_snapshot M ?s) h)) = ?s"
      by (simp add: inner_lift_machine restored(2))
  qed
qed

lemma generic_state_machine: "state_machine (generic_machine M) view spec answers"
  by unfold_locales (simp_all add: generic_machine_def fst_lift_machine inner_lift_machine apply_spec snapshot_is_state
      restored query_answered)

end

section \<open>The key-value store keeps the promise\<close>

definition kv_view :: "KvState \<Rightarrow> (string \<rightharpoonup> string) \<times> u64 \<times> u64" where
  "kv_view s = (fmlookup (kv_data s), operation_count (kv_metadata s), kv_version (kv_metadata s))"

text \<open>The specification: a map, on which \<open>KvSet\<close>, \<open>KvDelete\<close> and \<open>KvClear\<close> do what they say, and two counters.\<close>

fun kv_step :: "KvCommand \<Rightarrow> (string \<rightharpoonup> string) \<Rightarrow> (string \<rightharpoonup> string)" where
  "kv_step (KvSet k v) m = m(k \<mapsto> v)"
| "kv_step (KvDelete k) m = m(k := None)"
| "kv_step KvClear m = Map.empty"

definition kv_spec :: "KvCommand \<Rightarrow> (string \<rightharpoonup> string) \<times> u64 \<times> u64 \<Rightarrow> (string \<rightharpoonup> string) \<times> u64 \<times> u64" where
  "kv_spec c a = (case a of (m, n, v) \<Rightarrow> (kv_step c m, n + 1, v + 1))"

fun kv_answers :: "KvQuery \<Rightarrow> (string \<rightharpoonup> string) \<times> u64 \<times> u64 \<Rightarrow> KvQueryResponse \<Rightarrow> bool" where
  "kv_answers (QGet k) (m, _) p \<longleftrightarrow> p = AnsValue (m k)"
| "kv_answers (QExists k) (m, _) p \<longleftrightarrow> p = AnsBoolean (k \<in> dom m)"
| "kv_answers (QList None) (m, _) p \<longleftrightarrow> (\<exists>ks. p = AnsKeys ks \<and> distinct ks \<and> set ks = dom m)"
| "kv_answers (QList (Some pre)) (m, _) p \<longleftrightarrow> (\<exists>ks. p = AnsKeys ks \<and> distinct ks \<and> set ks = {k \<in> dom m. prefix pre k})"
| "kv_answers QSize (m, _) p \<longleftrightarrow> p = AnsNumber (of_nat (card (dom m)))"

lemma kv_apply_view: "kv_view (kv_state (snd (kv_apply_command e c t))) = kv_spec c (kv_view (kv_state t))"
  by (cases c) (auto simp: kv_apply_command_def kv_view_def kv_spec_def update_metadata_def Let_def fun_eq_iff
      split: option.split)

lemma kv_query_view:
  assumes "hash_ok e"
  shows "\<exists>p. kv_execute_query e q t = Inr p \<and> kv_answers q (kv_view (kv_state t)) p"
proof (cases q)
  case (QList pre)
  with assms show ?thesis
    by (cases pre) (auto simp: kv_execute_query_def Let_def kv_view_def hash_ok_def fmdom'_alt_def)
qed (auto simp: kv_execute_query_def Let_def kv_view_def fcard.rep_eq fmdom'_alt_def[symmetric] fmlookup_dom'_iff)

interpretation kv: state_machine kv_machine kv_view kv_spec kv_answers
  by unfold_locales (simp_all add: kv_machine_def kv_apply_view kv_query_view kv_create_snapshot_def
      kv_restore_from_snapshot_def)

interpretation wrapped_kv: state_machine "generic_machine kv_machine" kv_view kv_spec kv_answers
  by (rule kv.generic_state_machine)

lemma fold_kv_spec:
  "fold kv_spec cs (m, n, v) = (fold kv_step cs m, n + of_nat (length cs), v + of_nat (length cs))"
  by (induction cs arbitrary: m n v) (simp_all add: kv_spec_def)

text \<open>
  C6: the replicated key-value store implements a map. After any log, with entries that are
  empty or do not decode among them, the store holds what the specification makes of the log's
  commands one after the other, both counters have counted exactly these commands, and every
  query is answered from that map. None of it depends on when the entries were applied.
\<close>

theorem kv_log_refines_map:
  assumes "hash_ok e" and "kv_state (machine_inner g) = s0"
  shows "let store = machine_inner (apply_log kv_machine B log g); s = kv_state store;
      cs = log_commands B (map snd log); m = fold kv_step cs (fmlookup (kv_data s0))
    in fmlookup (kv_data s) = m
     \<and> operation_count (kv_metadata s) = operation_count (kv_metadata s0) + of_nat (length cs)
     \<and> kv_version (kv_metadata s) = kv_version (kv_metadata s0) + of_nat (length cs)
     \<and> kv_execute_query e (QGet k) store = Inr (AnsValue (m k))
     \<and> kv_execute_query e (QExists k) store = Inr (AnsBoolean (k \<in> dom m))
     \<and> kv_execute_query e QSize store = Inr (AnsNumber (of_nat (card (dom m))))
     \<and> (\<exists>ks. kv_execute_query e (QList (Some p)) store = Inr (AnsKeys ks) \<and> distinct ks
          \<and> set ks = {k \<in> dom m. prefix p k})"
proof -
  let ?store = "machine_inner (apply_log kv_machine B log g)"
  let ?cs = "log_commands B (map snd log)" let ?m = "fold kv_step ?cs (fmlookup (kv_data s0))"
  have "kv_view (kv_state ?store) = fold kv_spec ?cs (kv_view s0)"
    using kv.apply_log_spec[of B log g] by (simp add: kv_machine_def assms(2))
  then have view: "kv_view (kv_state ?store) = (?m, operation_count (kv_metadata s0) + of_nat (length ?cs),
      kv_version (kv_metadata s0) + of_nat (length ?cs))"
    by (simp add: kv_view_def fold_kv_spec)
  from kv_query_view[OF assms(1), of "QGet k" ?store] kv_query_view[OF assms(1), of "QExists k" ?store]
    kv_query_view[OF assms(1), of QSize ?store] kv_query_view[OF assms(1), of "QList (Some p)" ?store]
  show ?thesis unfolding view Let_def using view by (auto simp: kv_view_def)
qed

section \<open>Snapshots\<close>

text \<open>
  A node that is restored from the snapshot of another has exactly its state, and when
  both then apply the same entries, each at its own time, they stay equal in everything but
  the time of the last update.
\<close>

theorem kv_snapshot_catch_up:
  assumes "bincode_ok S" and "map snd log' = map snd log"
  shows "\<exists>bs h'. snapshot_bytes kv_machine S g = Inr bs \<and> restore_bytes kv_machine S bs h = (Inr (), h')
    \<and> kv_state (machine_inner h') = kv_state (machine_inner g)
    \<and> kv_view (kv_state (machine_inner (apply_log kv_machine B log' h')))
      = kv_view (kv_state (machine_inner (apply_log kv_machine B log g)))"
proof -
  obtain bs h' where *: "snapshot_bytes kv_machine S g = Inr bs" "restore_bytes kv_machine S bs h = (Inr (), h')"
    "kv_state (machine_inner h') = kv_state (machine_inner g)"
    using kv.snapshot_transfers[OF assms(1), of g h] by (auto simp: kv_machine_def)
  moreover have "kv_view (kv_state (machine_inner (apply_log kv_machine B log' h')))
      = kv_view (kv_state (machine_inner (apply_log kv_machine B log g)))"
    using kv.apply_log_spec[of B log' h'] kv.apply_log_spec[of B log g] by (simp add: kv_machine_def *(3) assms(2))
  ultimately show ?thesis by blast
qed

text \<open>
  The time of the last update is the reading of the local clock, so two nodes that apply one
  command at different times end in different states and produce different snapshots.
\<close>

lemma kv_apply_reads_clock:
  "last_updated (kv_metadata (kv_state (snd (kv_apply_command e c t)))) = utc_now e"
  by (cases c) (auto simp: kv_apply_command_def update_metadata_def Let_def split: option.split)

section \<open>An instance of bincode for commands and states\<close>

text \<open>Formats that keep the law, for the examples below. They model no file.\<close>

definition put_string :: "string \<Rightarrow> bytes" where
  "put_string s = put_bytes (string_bytes s)"

definition get_string :: "bytes \<Rightarrow> string \<times> bytes" where
  "get_string bs = (case get_bytes bs of (v, r) \<Rightarrow> (bytes_string v, r))"

lemma get_string_put: "get_string (put_string s @ b # rest) = (s, b # rest)"
  by (simp add: get_string_def put_string_def get_bytes_put bytes_string_bytes)

definition put_command :: "KvCommand \<Rightarrow> bytes" where
  "put_command c = (case c of KvSet k v \<Rightarrow> 0 # put_string k @ put_string v @ [0]
     | KvDelete k \<Rightarrow> 1 # put_string k @ [0] | KvClear \<Rightarrow> [2])"

definition get_command :: "bytes \<Rightarrow> error_text + KvCommand" where
  "get_command bs = (case bs of [] \<Rightarrow> Inl ''unexpected end of file'' | b # r \<Rightarrow>
     if b = 0 then (case get_string r of (k, r) \<Rightarrow> case get_string r of (v, r) \<Rightarrow> Inr (KvSet k v))
     else if b = 1 then (case get_string r of (k, r) \<Rightarrow> Inr (KvDelete k))
     else if b = 2 then Inr KvClear else Inl ''invalid tag'')"

definition command_wire :: "KvCommand bincode" where
  "command_wire = \<lparr>bin_serialize = Inr \<circ> put_command, bin_deserialize = get_command\<rparr>"

lemma put_string_nonempty: "\<exists>b bs. put_string s @ rest = b # bs"
  using put_bytes_nonempty by (simp add: put_string_def)

lemma get_command_put: "get_command (put_command c) = Inr c"
proof (cases c)
  case (KvSet k v)
  obtain b bs where "put_string v @ [0] = b # bs" using put_string_nonempty by blast
  with get_string_put[of k b bs] get_string_put[of v 0 "[]"] KvSet show ?thesis
    by (simp add: put_command_def get_command_def)
qed (simp_all add: put_command_def get_command_def get_string_put)

lemma command_wire_ok: "bincode_ok command_wire"
  unfolding bincode_ok_def by unfold_locales (auto simp: command_wire_def get_command_put)

text \<open>A state is written as its two counters, the time in unary with a sign, and the rows in key order.\<close>

definition put_state :: "KvState \<Rightarrow> bytes" where
  "put_state s = (let m = kv_metadata s; t = last_updated m in
     u64_le (operation_count m) @ u64_le (kv_version m) @ bool_byte (t < 0)
       # put_bytes (replicate (nat \<bar>t\<bar>) 0)
       @ put_rows string_bytes (map (\<lambda>(k, v). (k, string_bytes v)) (sorted_list_of_fmap (kv_data s))))"

definition get_state :: "bytes \<Rightarrow> error_text + KvState" where
  "get_state bs = (let n = u64_from_le (take 8 bs); v = u64_from_le (take 8 (drop 8 bs)); r = drop 16 bs
     in case r of [] \<Rightarrow> Inl ''unexpected end of file'' | b # r \<Rightarrow> case get_bytes r of (t, r) \<Rightarrow>
       case get_rows bytes_string r of (rows, _) \<Rightarrow> Inr \<lparr>
         kv_data = fmap_of_list (map (\<lambda>(k, v). (k, bytes_string v)) rows),
         kv_metadata = \<lparr>operation_count = n, last_updated = (if b = 0 then int (length t) else - int (length t)),
           kv_version = v\<rparr>\<rparr>)"

definition state_wire :: "KvState bincode" where
  "state_wire = \<lparr>bin_serialize = Inr \<circ> put_state, bin_deserialize = get_state\<rparr>"

lemma get_state_put: "get_state (put_state s) = Inr s"
proof -
  let ?rows = "map (\<lambda>(k, v). (k, string_bytes v)) (sorted_list_of_fmap (kv_data s))"
  obtain b bs where ne: "put_rows string_bytes ?rows = b # bs"
    using put_rows_nonempty[of string_bytes ?rows "[]"] by auto
  have rows: "get_rows bytes_string (b # bs) = (?rows, [])"
    using get_rows_put[of bytes_string string_bytes ?rows "[]"] by (simp add: bytes_string_bytes ne)
  have "(\<lambda>(k, v). (k, bytes_string v)) \<circ> (\<lambda>(k, v). (k, string_bytes v)) = (\<lambda>row. row :: string \<times> string)"
    by (auto simp: bytes_string_bytes)
  then have data: "fmap_of_list (map ((\<lambda>(k, v). (k, bytes_string v)) \<circ> (\<lambda>(k, v). (k, string_bytes v)))
      (sorted_list_of_fmap (kv_data s))) = kv_data s"
    by (intro fmap_ext) (simp add: fmlookup_of_list)
  show ?thesis
    by (auto simp: get_state_def put_state_def Let_def ne rows data get_bytes_put bool_byte_def simp del: get_rows.simps)
qed

lemma state_wire_ok: "bincode_ok state_wire"
  unfolding bincode_ok_def by unfold_locales (auto simp: state_wire_def get_state_put)

text \<open>Two entries that carry commands and one that is empty, applied at different times.\<close>

definition kv_entry :: "bytes \<Rightarrow> Entry" where
  "kv_entry data = \<lparr>entry_type = 0, entry_term = 1, entry_index = 1, entry_data = data, entry_context = [], sync_log = False\<rparr>"

definition kv_env :: "int \<Rightarrow> env" where
  "kv_env t = \<lparr>utc_now = t, hash_order = (\<lambda>m. sorted_list_of_fset (fmdom m))\<rparr>"

lemma hash_ok_kv_env: "hash_ok (kv_env t)"
  by (simp add: hash_ok_def kv_env_def fmdom'_alt_def sorted_list_of_fset.rep_eq)

definition kv_log :: "int \<Rightarrow> (env \<times> Entry) list" where
  "kv_log t = [(kv_env t, kv_entry (put_command (KvSet ''a'' ''1''))), (kv_env (t + 1), kv_entry []),
     (kv_env (t + 2), kv_entry (put_command (KvSet ''b'' ''2'')))]"

lemma kv_log_commands: "log_commands command_wire (map snd (kv_log t)) = [KvSet ''a'' ''1'', KvSet ''b'' ''2'']"
proof -
  have "put_command c \<noteq> []" for c by (simp add: put_command_def split: KvCommand.split)
  then show ?thesis by (simp add: kv_log_def kv_entry_def command_wire_def get_command_put)
qed

theorem kv_log_refines_map_witness:
  "let store = machine_inner (apply_log kv_machine command_wire (kv_log 5) (new_kv_store (kv_env 0)))
   in operation_count (kv_metadata (kv_state store)) = 2
     \<and> kv_execute_query (kv_env 9) (QGet ''b'') store = Inr (AnsValue (Some ''2''))
     \<and> kv_execute_query (kv_env 9) (QExists ''c'') store = Inr (AnsBoolean False)"
proof -
  have "kv_state (machine_inner (new_kv_store (kv_env 0))) = kv_state_default (kv_env 0)"
    by (simp add: new_kv_store_def machine_new_def kv_new_def)
  note kv_log_refines_map[OF hash_ok_kv_env this, where B = command_wire and log = "kv_log 5" and p = "[]", of 9]
  from this[of "''b''"] this[of "''c''"] show ?thesis
    unfolding kv_log_commands Let_def by (simp add: kv_state_default_def)
qed

theorem kv_snapshot_catch_up_witness:
  "\<exists>bs h'. snapshot_bytes kv_machine state_wire (apply_log kv_machine command_wire (kv_log 5) (new_kv_store (kv_env 0))) = Inr bs
     \<and> restore_bytes kv_machine state_wire bs (new_kv_store (kv_env 3)) = (Inr (), h')
     \<and> operation_count (kv_metadata (kv_state (machine_inner (apply_log kv_machine command_wire (kv_log 50) h')))) = 4"
proof -
  let ?g = "apply_log kv_machine command_wire (kv_log 5) (new_kv_store (kv_env 0))"
  have same: "map snd (kv_log 50) = map snd (kv_log 5)" by (simp add: kv_log_def)
  obtain bs h' where *: "snapshot_bytes kv_machine state_wire ?g = Inr bs"
      "restore_bytes kv_machine state_wire bs (new_kv_store (kv_env 3)) = (Inr (), h')"
      "kv_view (kv_state (machine_inner (apply_log kv_machine command_wire (kv_log 50) h')))
        = kv_view (kv_state (machine_inner (apply_log kv_machine command_wire (kv_log 5) ?g)))"
    using kv_snapshot_catch_up[OF state_wire_ok same, of ?g "new_kv_store (kv_env 3)" command_wire] by blast
  moreover have "kv_view (kv_state (machine_inner (apply_log kv_machine command_wire (kv_log 5) ?g)))
      = fold kv_spec [KvSet ''a'' ''1'', KvSet ''b'' ''2'', KvSet ''a'' ''1'', KvSet ''b'' ''2''] (kv_view (kv_state_default (kv_env 0)))"
    using kv.apply_log_spec[of command_wire "kv_log 5"]
    by (simp add: kv_machine_def kv_log_commands new_kv_store_def machine_new_def kv_new_def)
  ultimately show ?thesis by (auto simp: kv_view_def kv_spec_def kv_state_default_def)
qed

end
