(* ===== verification/Proposals.thy ===== *)
theory Proposals
  imports Codec
begin

text \<open>
  \<open>src/src/raft/proposals.rs\<close>, \<open>src/src/raft/messages.rs\<close> and \<open>src/src/types.rs\<close>: what is
  proposed to the cluster, and the messages of a node. A fresh UUID and the clock are arguments;
  a one-shot response channel is a number that names it.
\<close>

section \<open>Data of a proposal\<close>

datatype KeyValueOp = OpSet string string | OpGet string | OpDelete string | OpList "string option"

datatype ProposalData = KeyValue KeyValueOp | Raw bytes | Text string | Noop

definition proposal_set :: "string \<Rightarrow> string \<Rightarrow> ProposalData" where
  "proposal_set key v = KeyValue (OpSet key v)"

definition proposal_get :: "string \<Rightarrow> ProposalData" where
  "proposal_get key = KeyValue (OpGet key)"

definition proposal_delete :: "string \<Rightarrow> ProposalData" where
  "proposal_delete key = KeyValue (OpDelete key)"

text \<open>The text of a proposal; \<open>dbg\<close> is the \<open>Debug\<close> text of an optional string.\<close>

definition show_proposal :: "(string option \<Rightarrow> string) \<Rightarrow> ProposalData \<Rightarrow> string" where
  "show_proposal dbg d = (case d of
     KeyValue op \<Rightarrow> (case op of
         OpSet key v \<Rightarrow> ''SET '' @ key @ '' = '' @ v
       | OpGet key \<Rightarrow> ''GET '' @ key
       | OpDelete key \<Rightarrow> ''DELETE '' @ key
       | OpList p \<Rightarrow> ''LIST '' @ dbg p)
   | Raw bs \<Rightarrow> ''RAW('' @ show_nat (length bs) @ '' bytes)''
   | Text t \<Rightarrow> ''TEXT('' @ t @ '')''
   | Noop \<Rightarrow> ''NOOP'')"

section \<open>Status of a node\<close>

datatype NodeRole = Follower | Candidate | Leader

definition show_role :: "NodeRole \<Rightarrow> string" where
  "show_role r = (case r of Follower \<Rightarrow> ''follower'' | Candidate \<Rightarrow> ''candidate'' | Leader \<Rightarrow> ''leader'')"

record NodeStatus =
  ns_node_id :: u64
  ns_role :: NodeRole
  ns_term :: u64
  ns_leader_id :: "u64 option"
  ns_last_log_index :: u64
  ns_committed_index :: u64
  ns_applied_index :: u64
  ns_connected_peers :: "u64 list"
  ns_uptime_seconds :: u64

definition node_status_new :: "u64 \<Rightarrow> NodeStatus" where
  "node_status_new node_id = \<lparr>ns_node_id = node_id, ns_role = Follower, ns_term = 0, ns_leader_id = None,
     ns_last_log_index = 0, ns_committed_index = 0, ns_applied_index = 0, ns_connected_peers = [], ns_uptime_seconds = 0\<rparr>"

definition status_is_leader :: "NodeStatus \<Rightarrow> bool" where
  "status_is_leader s \<longleftrightarrow> ns_role s = Leader"

definition show_status :: "NodeStatus \<Rightarrow> string" where
  "show_status s = ''Node '' @ show_nat (unat (ns_node_id s)) @ '' ['' @ show_role (ns_role s) @ ''] term=''
     @ show_nat (unat (ns_term s)) @ '' leader=''
     @ (case ns_leader_id s of None \<Rightarrow> ''None'' | Some l \<Rightarrow> ''Some('' @ show_nat (unat l) @ '')'')
     @ '' log='' @ show_nat (unat (ns_last_log_index s)) @ ''/'' @ show_nat (unat (ns_committed_index s))
     @ ''/'' @ show_nat (unat (ns_applied_index s)) @ '' peers='' @ show_nat (length (ns_connected_peers s))"

section \<open>Generic proposals and batches\<close>

record ProposalMetadata =
  proposal_id :: string
  pm_timestamp :: int
  originator :: "string option"
  correlation_id :: "string option"
  pm_priority :: u8

definition default_metadata :: "string \<Rightarrow> int \<Rightarrow> ProposalMetadata" where
  "default_metadata uuid now = \<lparr>proposal_id = uuid, pm_timestamp = now, originator = None,
     correlation_id = None, pm_priority = 0\<rparr>"

record 'c GenericProposal =
  gp_command :: 'c
  gp_metadata :: ProposalMetadata

definition proposal_new :: "string \<Rightarrow> int \<Rightarrow> 'c \<Rightarrow> 'c GenericProposal" where
  "proposal_new uuid now command = \<lparr>gp_command = command, gp_metadata = default_metadata uuid now\<rparr>"

definition proposal_with_metadata :: "'c \<Rightarrow> ProposalMetadata \<Rightarrow> 'c GenericProposal" where
  "proposal_with_metadata command m = \<lparr>gp_command = command, gp_metadata = m\<rparr>"

definition proposal_with_originator :: "string \<Rightarrow> 'c GenericProposal \<Rightarrow> 'c GenericProposal" where
  "proposal_with_originator who p = p\<lparr>gp_metadata := (gp_metadata p)\<lparr>originator := Some who\<rparr>\<rparr>"

definition proposal_with_correlation_id :: "string \<Rightarrow> 'c GenericProposal \<Rightarrow> 'c GenericProposal" where
  "proposal_with_correlation_id cid p = p\<lparr>gp_metadata := (gp_metadata p)\<lparr>correlation_id := Some cid\<rparr>\<rparr>"

definition proposal_with_priority :: "u8 \<Rightarrow> 'c GenericProposal \<Rightarrow> 'c GenericProposal" where
  "proposal_with_priority n p = p\<lparr>gp_metadata := (gp_metadata p)\<lparr>pm_priority := n\<rparr>\<rparr>"

record 'c BatchProposal =
  bp_proposals :: "'c GenericProposal list"
  batch_metadata :: ProposalMetadata

definition batch_new :: "string \<Rightarrow> int \<Rightarrow> 'c GenericProposal list \<Rightarrow> 'c BatchProposal" where
  "batch_new uuid now ps = \<lparr>bp_proposals = ps, batch_metadata = default_metadata uuid now\<rparr>"

definition batch_empty :: "string \<Rightarrow> int \<Rightarrow> 'c BatchProposal" where
  "batch_empty uuid now = \<lparr>bp_proposals = [], batch_metadata = default_metadata uuid now\<rparr>"

definition batch_add_proposal :: "'c GenericProposal \<Rightarrow> 'c BatchProposal \<Rightarrow> 'c BatchProposal" where
  "batch_add_proposal p b = b\<lparr>bp_proposals := bp_proposals b @ [p]\<rparr>"

definition batch_add_proposals :: "'c GenericProposal list \<Rightarrow> 'c BatchProposal \<Rightarrow> 'c BatchProposal" where
  "batch_add_proposals ps b = b\<lparr>bp_proposals := bp_proposals b @ ps\<rparr>"

text \<open>The builder has the fields of a batch, and \<open>build\<close> moves them.\<close>

record 'c BatchProposalBuilder =
  builder_proposals :: "'c GenericProposal list"
  builder_metadata :: ProposalMetadata

definition builder_new :: "string \<Rightarrow> int \<Rightarrow> 'c BatchProposalBuilder" where
  "builder_new uuid now = \<lparr>builder_proposals = [], builder_metadata = default_metadata uuid now\<rparr>"

definition builder_add_command :: "string \<Rightarrow> int \<Rightarrow> 'c \<Rightarrow> 'c BatchProposalBuilder \<Rightarrow> 'c BatchProposalBuilder" where
  "builder_add_command uuid now command b = b\<lparr>builder_proposals := builder_proposals b @ [proposal_new uuid now command]\<rparr>"

definition builder_add_proposal :: "'c GenericProposal \<Rightarrow> 'c BatchProposalBuilder \<Rightarrow> 'c BatchProposalBuilder" where
  "builder_add_proposal p b = b\<lparr>builder_proposals := builder_proposals b @ [p]\<rparr>"

definition builder_with_originator :: "string \<Rightarrow> 'c BatchProposalBuilder \<Rightarrow> 'c BatchProposalBuilder" where
  "builder_with_originator who b = b\<lparr>builder_metadata := (builder_metadata b)\<lparr>originator := Some who\<rparr>\<rparr>"

definition builder_with_correlation_id :: "string \<Rightarrow> 'c BatchProposalBuilder \<Rightarrow> 'c BatchProposalBuilder" where
  "builder_with_correlation_id cid b = b\<lparr>builder_metadata := (builder_metadata b)\<lparr>correlation_id := Some cid\<rparr>\<rparr>"

definition builder_with_priority :: "u8 \<Rightarrow> 'c BatchProposalBuilder \<Rightarrow> 'c BatchProposalBuilder" where
  "builder_with_priority n b = b\<lparr>builder_metadata := (builder_metadata b)\<lparr>pm_priority := n\<rparr>\<rparr>"

definition builder_build :: "'c BatchProposalBuilder \<Rightarrow> 'c BatchProposal" where
  "builder_build b = \<lparr>bp_proposals = builder_proposals b, batch_metadata = builder_metadata b\<rparr>"

lemma builder_keeps_order:
  "map gp_command (bp_proposals (builder_build (fold (\<lambda>(u, t, c). builder_add_command u t c) cs b)))
    = map gp_command (builder_proposals b) @ map (snd \<circ> snd) cs"
  by (induction cs arbitrary: b) (auto simp: builder_build_def builder_add_command_def proposal_new_def)

section \<open>Messages of a node\<close>

text \<open>The message kinds of the raft crate that the code names, and the rest.\<close>

datatype RaftMsgType = MsgHup | MsgBeat | MsgPropose | MsgAppend | MsgAppendResponse | MsgRequestVote
  | MsgRequestVoteResponse | MsgSnapshot | MsgHeartbeat | MsgHeartbeatResponse | MsgOther

text \<open>A Raft message; the fields that the code does not read are its body.\<close>

record Message =
  msg_type :: RaftMsgType
  msg_to :: u64
  msg_from :: u64
  msg_body :: bytes

datatype MessageType = TVote | THeartbeat | TAppend | TSnapshot | TVoteResponse | THeartbeatResponse
  | TAppendResponse | TSnapshotResponse

definition message_type :: "RaftMsgType \<Rightarrow> MessageType" where
  "message_type t = (case t of
     MsgHup \<Rightarrow> TVote | MsgBeat \<Rightarrow> THeartbeat | MsgPropose \<Rightarrow> TAppend | MsgAppend \<Rightarrow> TAppend
   | MsgAppendResponse \<Rightarrow> TAppendResponse | MsgRequestVote \<Rightarrow> TVote | MsgRequestVoteResponse \<Rightarrow> TVoteResponse
   | MsgSnapshot \<Rightarrow> TSnapshot | MsgHeartbeat \<Rightarrow> THeartbeat | MsgHeartbeatResponse \<Rightarrow> THeartbeatResponse
   | _ \<Rightarrow> THeartbeat)"

record MessageRoute =
  route_from :: u64
  route_to :: u64
  route_type :: MessageType

definition route_of_message :: "Message \<Rightarrow> MessageRoute" where
  "route_of_message msg = \<lparr>route_from = msg_from msg, route_to = msg_to msg, route_type = message_type (msg_type msg)\<rparr>"

datatype ConfChangeType = AddNode | RemoveNode

type_synonym channel = nat

record RaftConfChange =
  change_type :: ConfChangeType
  cc_node_id :: u64
  cc_address :: string
  cc_p2p_node_id :: "string option"
  cc_p2p_addresses :: "string list"
  cc_p2p_relay_url :: "string option"
  cc_response_tx :: "channel option"

record ConfChangeContext =
  ctx_address :: string
  ctx_p2p_node_id :: "string option"
  ctx_p2p_addresses :: "string list"
  ctx_p2p_relay_url :: "string option"

record RaftProposal =
  rp_id :: bytes
  rp_data :: ProposalData
  rp_response_tx :: "channel option"

definition raft_proposal_new :: "string \<Rightarrow> ProposalData \<Rightarrow> RaftProposal" where
  "raft_proposal_new uuid d = \<lparr>rp_id = map of_char uuid, rp_data = d, rp_response_tx = None\<rparr>"

definition raft_proposal_with_response :: "string \<Rightarrow> channel \<Rightarrow> ProposalData \<Rightarrow> RaftProposal" where
  "raft_proposal_with_response uuid tx d = \<lparr>rp_id = map of_char uuid, rp_data = d, rp_response_tx = Some tx\<rparr>"

datatype RaftMessage = MRaft Message | MPropose RaftProposal | MConfChange RaftConfChange

end
