(* ===== verification/RawNode.thy ===== *)
theory RawNode
  imports RedbStorage Proposals Actions
begin

text \<open>
  What the modules under \<open>src/src/raft\<close> that drive the consensus share: the interface of the raft
  crate, the other code they rely on that is not in the repository, the state of the manager
  and its parts, and actions on it. A \<open>RawNode\<close> is a parameter: a value of type \<open>'n\<close> with the calls
  the code makes. Its store is the database of the manager, which its calls read.
\<close>

section \<open>The raft crate\<close>

datatype StateRole = RoleFollower | RoleCandidate | RoleLeader | RolePreCandidate

text \<open>The entry types and configuration changes of the protocol, as their protobuf numbers.\<close>

definition EntryNormal :: "32 word" where "EntryNormal = 0"
definition EntryConfChange :: "32 word" where "EntryConfChange = 1"

definition CC_AddNode :: "32 word" where "CC_AddNode = 0"
definition CC_RemoveNode :: "32 word" where "CC_RemoveNode = 1"

record ConfChange =
  conf_change_id :: u64
  conf_change_type :: "32 word"
  conf_change_node :: u64
  conf_change_context :: bytes

text \<open>
  What a node wants done. \<open>rd_messages\<close> may be sent at once, \<open>rd_persisted_messages\<close> only when the
  entries and the hard state are on disk; the raft crate puts the messages of a leader into the
  first and those of any other node into the second.
\<close>

record Ready =
  rd_number :: u64
  rd_entries :: "Entry list"
  rd_hs :: "HardState option"
  rd_snapshot :: RaftSnapshot
  rd_messages :: "Message list"
  rd_persisted_messages :: "Message list"
  rd_committed_entries :: "Entry list"

record LightReady =
  lr_commit_index :: "u64 option"
  lr_messages :: "Message list"
  lr_committed_entries :: "Entry list"

record ('n, 'db) raw_node =
  rn_step :: "Message \<Rightarrow> 'db \<Rightarrow> 'n \<Rightarrow> (error_text + unit) \<times> 'n"
  rn_tick :: "'db \<Rightarrow> 'n \<Rightarrow> 'n"
  rn_campaign :: "'db \<Rightarrow> 'n \<Rightarrow> (error_text + unit) \<times> 'n"
  rn_propose :: "bytes \<Rightarrow> bytes \<Rightarrow> 'db \<Rightarrow> 'n \<Rightarrow> (error_text + unit) \<times> 'n"
  rn_propose_conf_change :: "bytes \<Rightarrow> ConfChange \<Rightarrow> 'db \<Rightarrow> 'n \<Rightarrow> (error_text + unit) \<times> 'n"
  rn_apply_conf_change :: "ConfChange \<Rightarrow> 'db \<Rightarrow> 'n \<Rightarrow> (error_text + ConfState) \<times> 'n"
  rn_has_ready :: "'n \<Rightarrow> bool"
  rn_ready :: "'db \<Rightarrow> 'n \<Rightarrow> Ready \<times> 'n"
  rn_advance :: "Ready \<Rightarrow> 'db \<Rightarrow> 'n \<Rightarrow> LightReady \<times> 'n"
  rn_advance_apply_to :: "u64 \<Rightarrow> 'n \<Rightarrow> 'n"
  rn_report_snapshot :: "u64 \<Rightarrow> bool \<Rightarrow> 'n \<Rightarrow> 'n"
  rn_state :: "'n \<Rightarrow> StateRole"
  rn_leader_id :: "'n \<Rightarrow> u64"
  rn_term :: "'n \<Rightarrow> u64"
  rn_committed :: "'n \<Rightarrow> u64"
  rn_applied :: "'n \<Rightarrow> u64"
  rn_hard_state :: "'n \<Rightarrow> HardState"

definition snapshot_is_empty :: "RaftSnapshot \<Rightarrow> bool" where
  "snapshot_is_empty s \<longleftrightarrow> sm_index (get_metadata s) = 0"

section \<open>The rest of the surroundings\<close>

text \<open>An address of an iroh node; parsed parts are kept as their text.\<close>

record NodeAddr =
  na_node :: string
  na_direct :: "string list"
  na_relay :: "string option"

record RaftStatus =
  rs_is_leader :: bool
  rs_node_id :: u64
  rs_leader_id :: "u64 option"
  rs_term :: u64
  rs_state :: string

text \<open>
  The state shared with the rest of the node, of the module \<open>node_shared\<close>, which is not in the
  repository: the fields the code reads, and what it passed to the methods it calls.
\<close>

record SharedNodeState =
  join_addr :: "string option"
  raft_status :: "RaftStatus option"
  peer_connector :: bool
  p2p_peers :: "(u64 \<times> ConfChangeContext) list"
  connections :: "(u64 \<times> NodeAddr) list"

text \<open>
  Everything the manager calls: the database with its codecs, the raft crate, the parser of
  protobuf configuration changes, the application's \<open>RaftStateMachine::apply_entry\<close>, which may
  write to the database, and the parsers and the builder of iroh addresses.
\<close>

record ('n, 'db, 'tx, 'e, 's) deps =
  d_redb :: "('db, 'tx) redb"
  d_codec :: "'e raft_codec"
  d_snapshot :: "SnapshotData bincode"
  d_proposal :: "ProposalData bincode"
  d_context :: "ConfChangeContext bincode"
  d_conf :: "ConfState bincode"
  d_raft :: "('n, 'db) raw_node"
  d_parse_change :: "bytes \<Rightarrow> error_text + ConfChange"
  d_apply_entry :: "Entry \<Rightarrow> 's \<times> 'db \<Rightarrow> (RaftError + unit) \<times> ('s \<times> 'db)"
  d_node_id :: "string \<Rightarrow> error_text + string"
  d_socket_addr :: "string \<Rightarrow> error_text + string"
  d_relay_url :: "string \<Rightarrow> error_text + string"
  d_with_direct_addresses :: "string list \<Rightarrow> NodeAddr \<Rightarrow> NodeAddr"

text \<open>
  \<open>RaftManager\<close> with its configuration manager (\<open>peers\<close>, \<open>needs_replication\<close>) and its snapshot
  manager (\<open>last_compaction_index\<close>). \<open>answers\<close> is what was sent through response channels, and
  \<open>outgoing\<close> what was put into the channel to the transport while that was open.
\<close>

record ('n, 'db, 's) RaftManager =
  manager_id :: u64
  raft_node :: 'n
  manager_db :: 'db
  machine_state :: 's
  manager_peers :: "u64 \<rightharpoonup> string"
  needs_replication :: bool
  last_compaction_index :: "u64 option"
  pending_proposals :: "bytes \<rightharpoonup> channel"
  answers :: "(channel \<times> (RaftError + unit)) list"
  outgoing :: "(u64 \<times> Message) list"
  outgoing_open :: bool
  shared_state :: "SharedNodeState option"

section \<open>Actions on the manager\<close>

text \<open>Calls on the database and on the node.\<close>

definition on_db :: "('db \<Rightarrow> (RaftError + 'a) \<times> 'db) \<Rightarrow> (('n, 'db, 's) RaftManager, 'a) action" where
  "on_db f = (\<lambda>m. case f (manager_db m) of (r, db) \<Rightarrow> (r, m\<lparr>manager_db := db\<rparr>))"

definition on_node :: "('db \<Rightarrow> 'n \<Rightarrow> 'a \<times> 'n) \<Rightarrow> (('n, 'db, 's) RaftManager, 'a) action" where
  "on_node f = (\<lambda>m. case f (manager_db m) (raft_node m) of (a, n) \<Rightarrow> (Inr a, m\<lparr>raft_node := n\<rparr>))"

definition on_node_try :: "(error_text \<Rightarrow> RaftError) \<Rightarrow> ('db \<Rightarrow> 'n \<Rightarrow> (error_text + 'a) \<times> 'n)
    \<Rightarrow> (('n, 'db, 's) RaftManager, 'a) action" where
  "on_node_try conv f = act_then (on_node f) (\<lambda>r. case r of Inl e \<Rightarrow> act_fail (conv e) | Inr a \<Rightarrow> act_return a)"

text \<open>Answering a request: a channel takes one answer.\<close>

definition respond :: "channel option \<Rightarrow> RaftError + unit \<Rightarrow> (('n, 'db, 's) RaftManager, unit) action" where
  "respond tx r = (case tx of None \<Rightarrow> act_return ()
     | Some ch \<Rightarrow> act_update (\<lambda>m. m\<lparr>answers := answers m @ [(ch, r)]\<rparr>))"

text \<open>\<open>pending.remove(&context)\<close> and, when there was a channel, \<open>send\<close>.\<close>

definition answer_pending :: "bytes \<Rightarrow> RaftError + unit \<Rightarrow> (('n, 'db, 's) RaftManager, unit) action" where
  "answer_pending key r = act_with (\<lambda>m. pending_proposals m key) (\<lambda>tx.
     act_then (act_update (\<lambda>m. m\<lparr>pending_proposals := (pending_proposals m)(key := None)\<rparr>)) (\<lambda>_.
       respond tx r))"

text \<open>
  \<open>RaftError::Raft { operation, source }\<close> belongs to an earlier version of the error type; its
  fields are those of the variant \<open>Consensus\<close> of the present one.
\<close>

definition raft_failure :: "string \<Rightarrow> error_text \<Rightarrow> RaftError" where
  "raft_failure operation e = consensus_error operation e"

definition leader_option :: "u64 \<Rightarrow> u64 option" where
  "leader_option l = (if l = 0 then None else Some l)"

section \<open>Reasoning about actions\<close>

lemma act_then_on_node:
  "f (manager_db m) (raft_node m) = (a, n) \<Longrightarrow> act_then (on_node f) g m = g a (m\<lparr>raft_node := n\<rparr>)"
  by (simp add: act_then_def on_node_def)

lemma act_then_on_db:
  "f (manager_db m) = (r, db) \<Longrightarrow> act_then (on_db f) g m =
    (case r of Inl e \<Rightarrow> (Inl e, m\<lparr>manager_db := db\<rparr>) | Inr a \<Rightarrow> g a (m\<lparr>manager_db := db\<rparr>))"
  by (simp add: act_then_def on_db_def)

lemma keeps_on_db: "(\<And>m db. I m \<Longrightarrow> I (m\<lparr>manager_db := db\<rparr>)) \<Longrightarrow> keeps I (on_db f)"
  by (simp add: keeps_def on_db_def split: prod.split)

lemma keeps_on_node: "(\<And>m n. I m \<Longrightarrow> I (m\<lparr>raft_node := n\<rparr>)) \<Longrightarrow> keeps I (on_node f)"
  by (simp add: keeps_def on_node_def split: prod.split)

lemma keeps_on_node_try: "(\<And>m n. I m \<Longrightarrow> I (m\<lparr>raft_node := n\<rparr>)) \<Longrightarrow> keeps I (on_node_try conv f)"
  unfolding on_node_try_def by (intro keeps_rules keeps_on_node) auto

section \<open>A scripted node\<close>

text \<open>
  An instance of the parameters for the examples: a node that is given the ready states it will
  report, on the in-memory database. It models no file.
\<close>

record script_node =
  script :: "Ready list"
  script_role :: StateRole
  script_committed :: u64
  script_applied :: u64

definition script_raft :: "(script_node, 'db) raw_node" where
  "script_raft = \<lparr>rn_step = (\<lambda>_ _ n. (Inr (), n)), rn_tick = (\<lambda>_ n. n), rn_campaign = (\<lambda>_ n. (Inr (), n)),
     rn_propose = (\<lambda>_ _ _ n. (Inr (), n)), rn_propose_conf_change = (\<lambda>_ _ _ n. (Inr (), n)),
     rn_apply_conf_change = (\<lambda>cc _ n. (Inr (default_conf_state\<lparr>voters := [1, conf_change_node cc]\<rparr>), n)),
     rn_has_ready = (\<lambda>n. script n \<noteq> []), rn_ready = (\<lambda>_ n. (hd (script n), n)),
     rn_advance = (\<lambda>_ _ n. (\<lparr>lr_commit_index = None, lr_messages = [], lr_committed_entries = []\<rparr>, n\<lparr>script := tl (script n)\<rparr>)),
     rn_advance_apply_to = (\<lambda>i n. n\<lparr>script_applied := i\<rparr>), rn_report_snapshot = (\<lambda>_ _ n. n),
     rn_state = script_role, rn_leader_id = (\<lambda>_. 1), rn_term = (\<lambda>_. 1), rn_committed = script_committed,
     rn_applied = script_applied, rn_hard_state = (\<lambda>_. default_hard_state)\<rparr>"

text \<open>The application appends the data of each entry to its state.\<close>

definition script_deps :: "(script_node, mem_tx, mem_tx, RaftError, bytes) deps" where
  "script_deps = \<lparr>d_redb = mem_redb, d_codec = storage_codec, d_snapshot = data_wire,
     d_proposal = \<lparr>bin_serialize = (\<lambda>_. Inr [1]), bin_deserialize = (\<lambda>_. Inr Noop)\<rparr>,
     d_context = \<lparr>bin_serialize = (\<lambda>c. Inr (string_bytes (ctx_address c))),
       bin_deserialize = (\<lambda>bs. Inr \<lparr>ctx_address = bytes_string bs, ctx_p2p_node_id = None, ctx_p2p_addresses = [], ctx_p2p_relay_url = None\<rparr>)\<rparr>,
     d_conf = \<lparr>bin_serialize = (\<lambda>c. map_err category (serialize_conf_state c)), bin_deserialize = (\<lambda>bs. map_err category (deserialize_conf_state bs))\<rparr>,
     d_raft = script_raft,
     d_parse_change = (\<lambda>bs. Inl ''unexpected end of file''),
     d_apply_entry = (\<lambda>e (s, db). (Inr (), (s @ entry_data e, db))),
     d_node_id = (\<lambda>s. if s = [] then Inl ''empty'' else Inr s), d_socket_addr = Inr, d_relay_url = Inr,
     d_with_direct_addresses = (\<lambda>addrs a. a\<lparr>na_direct := addrs\<rparr>)\<rparr>"

definition script_manager :: "StateRole \<Rightarrow> Ready list \<Rightarrow> (script_node, mem_tx, bytes) RaftManager" where
  "script_manager role readies = \<lparr>manager_id = 1,
     raft_node = \<lparr>script = readies, script_role = role, script_committed = 1, script_applied = 1\<rparr>,
     manager_db = mem_empty, machine_state = [], manager_peers = Map.empty, needs_replication = False,
     last_compaction_index = None, pending_proposals = Map.empty, answers = [], outgoing = [], outgoing_open = True,
     shared_state = Some \<lparr>join_addr = None, raft_status = None, peer_connector = True, p2p_peers = [], connections = []\<rparr>\<rparr>"

definition empty_ready :: Ready where
  "empty_ready = \<lparr>rd_number = 1, rd_entries = [], rd_hs = None, rd_snapshot = \<lparr>snap_data = [], snap_metadata = None\<rparr>,
     rd_messages = [], rd_persisted_messages = [], rd_committed_entries = []\<rparr>"

lemma script_deps_simps:
  "d_redb script_deps = mem_redb" "d_codec script_deps = storage_codec" "d_snapshot script_deps = data_wire"
  "d_raft script_deps = script_raft" "d_apply_entry script_deps e (s, db) = (Inr (), (s @ entry_data e, db))"
  by (simp_all add: script_deps_def)

lemma script_raft_simps:
  "rn_step script_raft msg db n = (Inr (), n)"
  "rn_has_ready script_raft n = (script n \<noteq> [])" "rn_ready script_raft db n = (hd (script n), n)"
  "rn_advance script_raft rd db n = (\<lparr>lr_commit_index = None, lr_messages = [], lr_committed_entries = []\<rparr>, n\<lparr>script := tl (script n)\<rparr>)"
  "rn_applied script_raft n = script_applied n" "rn_state script_raft n = script_role n"
  "rn_leader_id script_raft n = 1" "rn_term script_raft n = 1"
  by (simp_all add: script_raft_def)

lemmas script_defs = script_raft_def script_deps_def script_manager_def empty_ready_def

end
