(* ===== verification/ConfigManager.thy ===== *)
theory ConfigManager
  imports RawNode
begin

text \<open>
  \<open>src/src/raft/config_manager.rs\<close>: proposing and applying membership changes, and the list of
  peers. \<open>SerializableConfState\<close> has the fields of \<open>ConfState\<close> and is that record here. Methods of
  the manager are actions on the state of the whole Raft manager. An error that
  \<open>storage_context\<close> (of a module that is not in the repository) wraps is a storage error with
  that text.
\<close>

section \<open>Peers\<close>

definition get_peers :: "('n, 'db, 's) RaftManager \<Rightarrow> u64 \<rightharpoonup> string" where
  "get_peers m = manager_peers m"

definition insert_peer :: "u64 \<Rightarrow> string \<Rightarrow> (('n, 'db, 's) RaftManager, unit) action" where
  "insert_peer node address = act_update (\<lambda>m. m\<lparr>manager_peers := (manager_peers m)(node \<mapsto> address)\<rparr>)"

definition update_peer_address :: "u64 \<Rightarrow> string \<Rightarrow> (('n, 'db, 's) RaftManager, unit) action" where
  "update_peer_address node address = insert_peer node address"

definition remove_peer :: "u64 \<Rightarrow> (('n, 'db, 's) RaftManager, string option) action" where
  "remove_peer node = act_with (\<lambda>m. manager_peers m node) (\<lambda>old.
     act_then (act_update (\<lambda>m. m\<lparr>manager_peers := (manager_peers m)(node := None)\<rparr>)) (\<lambda>_. act_return old))"

text \<open>Reads the flag and resets it.\<close>

definition needs_replication_trigger :: "(('n, 'db, 's) RaftManager, bool) action" where
  "needs_replication_trigger = act_with needs_replication (\<lambda>result.
     if result then act_then (act_update (\<lambda>m. m\<lparr>needs_replication := False\<rparr>)) (\<lambda>_. act_return result)
     else act_return result)"

section \<open>Addresses\<close>

definition node_addr_new :: "string \<Rightarrow> NodeAddr" where
  "node_addr_new node = \<lparr>na_node = node, na_direct = [], na_relay = None\<rparr>"

definition invalid_node_id :: "string \<Rightarrow> error_text \<Rightarrow> RaftError" where
  "invalid_node_id p2p_node_id e = Internal (''Invalid P2P node ID '' @ p2p_node_id @ '': '' @ e)"

text \<open>With a relay, addresses that do not parse are skipped.\<close>

definition create_node_addr_with_relay :: "('n, 'db, 'tx, 'e, 's) deps \<Rightarrow> string \<Rightarrow> string list \<Rightarrow> string
    \<Rightarrow> RaftError + NodeAddr" where
  "create_node_addr_with_relay D p2p_node_id p2p_addresses relay_url =
     and_then (map_err (invalid_node_id p2p_node_id) (d_node_id D p2p_node_id)) (\<lambda>node_id.
       let addr = fold (\<lambda>addr_str addr. case d_socket_addr D addr_str of
                      Inr socket_addr \<Rightarrow> d_with_direct_addresses D [socket_addr] addr
                    | Inl _ \<Rightarrow> addr) p2p_addresses (node_addr_new node_id)
       in Inr (case d_relay_url D relay_url of Inr url \<Rightarrow> addr\<lparr>na_relay := Some url\<rparr> | Inl _ \<Rightarrow> addr))"

definition create_node_addr_direct :: "('n, 'db, 'tx, 'e, 's) deps \<Rightarrow> string \<Rightarrow> string list \<Rightarrow> RaftError + NodeAddr" where
  "create_node_addr_direct D p2p_node_id p2p_addresses =
     and_then (map_err (invalid_node_id p2p_node_id) (d_node_id D p2p_node_id)) (\<lambda>node_id.
       case collect_results (map (d_socket_addr D) p2p_addresses) of
         Inr addrs \<Rightarrow> Inr (d_with_direct_addresses D addrs (node_addr_new node_id))
       | Inl e \<Rightarrow> Inl (Internal (''Failed to parse P2P addresses: '' @ e)))"

section \<open>Saving the configuration\<close>

text \<open>A write transaction whose first and last step report errors with a context.\<close>

definition context_write :: "('db, 'tx) redb \<Rightarrow> string \<Rightarrow> string \<Rightarrow> ('tx \<Rightarrow> RaftError + 'tx) \<Rightarrow> 'db \<Rightarrow> (RaftError + unit) \<times> 'db" where
  "context_write R begin_context commit_context body db = (case begin_write R db of
     Inl e \<Rightarrow> (Inl (storage_error begin_context e), db)
   | Inr tx \<Rightarrow> (case body tx of
       Inl e \<Rightarrow> (Inl e, db)
     | Inr tx' \<Rightarrow> (case commit R tx' db of (r, db') \<Rightarrow> (map_err (storage_error commit_context) r, db'))))"

definition manager_save_conf_state :: "('n, 'db, 'tx, 'e, 's) deps \<Rightarrow> ConfState \<Rightarrow> 'db \<Rightarrow> (RaftError + unit) \<times> 'db" where
  "manager_save_conf_state D conf_state =
     context_write (d_redb D) ''begin conf state transaction'' ''commit conf state'' (\<lambda>tx.
       and_then (db_try (open_table (d_redb D) tx CLUSTER_STATE_TABLE)) (\<lambda>tx.
       and_then (map_err (Serialization ''serialize conf state'') (bin_serialize (d_conf D) conf_state)) (\<lambda>conf_data.
         db_try (t_insert (opsS (d_redb D)) tx CLUSTER_STATE_TABLE ''conf_state'' conf_data))))"

section \<open>Applying a change\<close>

text \<open>
  What \<open>update_local_peers_after_conf_change\<close> stores in the shared state when it is there and the
  change brings an address.
\<close>

definition add_peer_with_p2p :: "u64 \<Rightarrow> ConfChangeContext \<Rightarrow> (('n, 'db, 's) RaftManager, unit) action" where
  "add_peer_with_p2p node ctx = act_update (\<lambda>m. case shared_state m of
     None \<Rightarrow> m
   | Some shared \<Rightarrow>
       if ctx_p2p_node_id ctx \<noteq> None \<or> ctx_p2p_addresses ctx \<noteq> []
       then m\<lparr>shared_state := Some (shared\<lparr>p2p_peers := p2p_peers shared @ [(node, ctx)]\<rparr>)\<rparr>
       else m)"

definition update_local_peers_after_conf_change :: "('n, 'db, 'tx, 'e, 's) deps \<Rightarrow> ConfChange
    \<Rightarrow> (('n, 'db, 's) RaftManager, unit) action" where
  "update_local_peers_after_conf_change D cc =
    (if conf_change_type cc = CC_AddNode then
       (if conf_change_context cc \<noteq> [] then
          (case bin_deserialize (d_context D) (conf_change_context cc) of
             Inr ctx \<Rightarrow> act_then (insert_peer (conf_change_node cc) (ctx_address ctx)) (\<lambda>_.
               add_peer_with_p2p (conf_change_node cc) ctx)
           | Inl _ \<Rightarrow> act_return ())
        else act_return ())
     else if conf_change_type cc = CC_RemoveNode then
       act_then (remove_peer (conf_change_node cc)) (\<lambda>_. act_return ())
     else act_return ())"

definition apply_conf_change :: "('n, 'db, 'tx, 'e, 's) deps \<Rightarrow> ConfChange
    \<Rightarrow> (('n, 'db, 's) RaftManager, unit) action" where
  "apply_conf_change D cc =
     act_then (on_node_try from_raft_error (rn_apply_conf_change (d_raft D) cc)) (\<lambda>conf_state.
     act_then (on_db (manager_save_conf_state D conf_state)) (\<lambda>_.
     act_then (update_local_peers_after_conf_change D cc) (\<lambda>_.
       if conf_change_type cc = CC_AddNode
       then act_update (\<lambda>m. m\<lparr>needs_replication := True\<rparr>)
       else act_return ())))"

definition apply_conf_change_immediately :: "('n, 'db, 'tx, 'e, 's) deps \<Rightarrow> ConfChange
    \<Rightarrow> (('n, 'db, 's) RaftManager, unit) action" where
  "apply_conf_change_immediately D cc =
     act_then (on_node_try from_raft_error (rn_apply_conf_change (d_raft D) cc)) (\<lambda>conf_state.
     act_then (on_db (manager_save_conf_state D conf_state)) (\<lambda>_.
       update_local_peers_after_conf_change D cc))"

section \<open>Proposing a change\<close>

definition is_single_node_cluster :: "'n \<Rightarrow> bool" where
  "is_single_node_cluster node = False"

text \<open>The peer is added before the address is looked at; a failed connection is only logged.\<close>

definition connect_new_peer :: "('n, 'db, 'tx, 'e, 's) deps \<Rightarrow> RaftConfChange \<Rightarrow> SharedNodeState
    \<Rightarrow> RaftError + SharedNodeState" where
  "connect_new_peer D change shared = (case cc_p2p_node_id change of
     None \<Rightarrow> Inr shared
   | Some p2p_node_id \<Rightarrow>
       if peer_connector shared then
         and_then (case cc_p2p_relay_url change of
             Some relay_url \<Rightarrow> create_node_addr_with_relay D p2p_node_id (cc_p2p_addresses change) relay_url
           | None \<Rightarrow> create_node_addr_direct D p2p_node_id (cc_p2p_addresses change)) (\<lambda>node_addr.
           Inr (shared\<lparr>connections := connections shared @ [(cc_node_id change, node_addr)]\<rparr>))
       else Inr shared)"

definition handle_successful_node_addition :: "('n, 'db, 'tx, 'e, 's) deps \<Rightarrow> RaftConfChange
    \<Rightarrow> (('n, 'db, 's) RaftManager, unit) action" where
  "handle_successful_node_addition D change =
     act_then (insert_peer (cc_node_id change) (cc_address change)) (\<lambda>_.
     act_with shared_state (\<lambda>s. case s of
       None \<Rightarrow> act_return ()
     | Some shared \<Rightarrow> (case connect_new_peer D change shared of
         Inl e \<Rightarrow> act_fail e
       | Inr shared' \<Rightarrow> act_update (\<lambda>m. m\<lparr>shared_state := Some shared'\<rparr>))))"

definition raft_conf_change :: "RaftConfChange \<Rightarrow> bytes \<Rightarrow> ConfChange" where
  "raft_conf_change change context_data = \<lparr>conf_change_id = 0,
     conf_change_type = (case change_type change of AddNode \<Rightarrow> CC_AddNode | RemoveNode \<Rightarrow> CC_RemoveNode),
     conf_change_node = cc_node_id change, conf_change_context = context_data\<rparr>"

definition change_context :: "RaftConfChange \<Rightarrow> ConfChangeContext" where
  "change_context change = \<lparr>ctx_address = cc_address change, ctx_p2p_node_id = cc_p2p_node_id change,
     ctx_p2p_addresses = cc_p2p_addresses change, ctx_p2p_relay_url = cc_p2p_relay_url change\<rparr>"

definition change_proposed :: "('n, 'db, 'tx, 'e, 's) deps \<Rightarrow> RaftConfChange \<Rightarrow> ConfChange
    \<Rightarrow> (('n, 'db, 's) RaftManager, unit) action" where
  "change_proposed D change cc =
     act_then (act_with raft_node (\<lambda>n. if is_single_node_cluster n then apply_conf_change_immediately D cc else act_return ())) (\<lambda>_.
     act_then (case change_type change of AddNode \<Rightarrow> handle_successful_node_addition D change | RemoveNode \<Rightarrow> act_return ()) (\<lambda>_.
       respond (cc_response_tx change) (Inr ())))"

definition handle_conf_change :: "('n, 'db, 'tx, 'e, 's) deps \<Rightarrow> RaftConfChange
    \<Rightarrow> (('n, 'db, 's) RaftManager, unit) action" where
  "handle_conf_change D change = act_with raft_node (\<lambda>node.
     if rn_state (d_raft D) node \<noteq> RoleLeader
     then respond (cc_response_tx change)
       (Inl (NotLeader ''propose configuration change'' (leader_option (rn_leader_id (d_raft D) node))))
     else case map_err (Serialization ''serialize conf change context'') (bin_serialize (d_context D) (change_context change)) of
       Inl e \<Rightarrow> act_fail e
     | Inr context_data \<Rightarrow>
         let cc = raft_conf_change change context_data
         in act_then (on_node (rn_propose_conf_change (d_raft D) [] cc)) (\<lambda>r. case r of
              Inr _ \<Rightarrow> change_proposed D change cc
            | Inl e \<Rightarrow> respond (cc_response_tx change) (Inl (raft_failure ''propose configuration change'' e))))"

section \<open>What a change leaves behind\<close>

lemma context_write_reliable:
  assumes "redb_reliable R dbv view"
  shows "context_write R c1 c2 body db = redb_write R body db"
proof -
  have tot: "redb_total R" using assms by (simp add: redb_reliable_def)
  have "\<And>tx. fst (commit R tx db) = Inr ()" by (rule redb_totalD(4)[OF tot])
  with redb_totalD(2)[OF tot, of db] show ?thesis
    by (auto simp: context_write_def redb_write_def db_try_def case_prod_unfold split: sum.split)
qed

lemma manager_save_conf_state_writes:
  assumes rel: "redb_reliable (d_redb D) dbv view" and "bin_serialize (d_conf D) cs = Inr data"
  shows "writes dbv (manager_save_conf_state D cs db) (put CLUSTER_STATE_TABLE (KS ''conf_state'') data (dbv db))"
  unfolding manager_save_conf_state_def context_write_reliable[OF rel]
  using assms(2) by (auto intro!: yields_insert_at[OF reliable_opsD(2,5)[OF rel]] redb_write_writes[OF rel]
      yields_bind[OF yields_open[OF rel]])

lemma manager_save_conf_state_fails:
  assumes "bin_serialize (d_conf D) cs = Inl e" and "redb_reliable (d_redb D) dbv view"
  shows "fst (manager_save_conf_state D cs db) = Inl (Serialization ''serialize conf state'' e)"
proof -
  have tot: "redb_total (d_redb D)" using assms(2) by (simp add: redb_reliable_def)
  obtain tx tx' where "begin_write (d_redb D) db = Inr tx" "open_table (d_redb D) tx CLUSTER_STATE_TABLE = Inr tx'"
    using redb_totalD(2,3)[OF tot] by metis
  with assms(1) show ?thesis
    by (simp add: manager_save_conf_state_def context_write_def db_try_def)
qed

text \<open>Updating the peers does not touch the database or the node.\<close>

lemma update_local_peers_db:
  "fst (update_local_peers_after_conf_change D cc m) = Inr ()"
  "manager_db (snd (update_local_peers_after_conf_change D cc m)) = manager_db m"
  by (auto simp: update_local_peers_after_conf_change_def insert_peer_def remove_peer_def add_peer_with_p2p_def
      split: sum.split option.split)

lemma apply_conf_change_db:
  assumes "apply_conf_change D cc m = (Inr (), m')"
  obtains cs n where "rn_apply_conf_change (d_raft D) cc (manager_db m) (raft_node m) = (Inr cs, n)"
    and "manager_save_conf_state D cs (manager_db m) = (Inr (), manager_db m')"
proof -
  obtain r n where node: "rn_apply_conf_change (d_raft D) cc (manager_db m) (raft_node m) = (r, n)" by (cases "rn_apply_conf_change (d_raft D) cc (manager_db m) (raft_node m)")
  with assms obtain cs where r: "r = Inr cs"
    by (cases r) (simp_all add: apply_conf_change_def on_node_try_def on_node_def act_then_def)
  obtain q db where save: "manager_save_conf_state D cs (manager_db m) = (q, db)" by (cases "manager_save_conf_state D cs (manager_db m)")
  have q: "q = Inr ()"
    using assms node r save by (cases q) (simp_all add: apply_conf_change_def on_node_try_def on_node_def on_db_def act_then_def)
  have "manager_db m' = db"
    using assms node r save q update_local_peers_db(2)[of D cc "m\<lparr>raft_node := n, manager_db := db\<rparr>"]
    by (auto simp: apply_conf_change_def on_node_try_def on_node_def on_db_def act_then_def split: prod.splits sum.splits if_splits)
  with that[of cs n] node r save q show thesis by simp
qed

text \<open>
  A committed membership change is not there after a restart. \<open>apply_conf_change\<close> stores the
  new configuration in the table \<open>cluster_state\<close>, but \<open>initial_state\<close>, which the raft crate reads
  at startup, looks into \<open>raft_conf_state\<close>: it answers what it answered before the change.
\<close>

theorem conf_change_not_reloaded:
  assumes "redb_reliable (d_redb D) dbv view" and "apply_conf_change D cc m = (Inr (), m')"
  shows "redb_initial_state (d_redb D) (d_codec D) (manager_db m') = redb_initial_state (d_redb D) (d_codec D) (manager_db m)
    \<and> load_conf_state (d_redb D) (d_codec D) (manager_db m') = load_conf_state (d_redb D) (d_codec D) (manager_db m)
    \<and> (\<exists>cs n data. rn_apply_conf_change (d_raft D) cc (manager_db m) (raft_node m) = (Inr cs, n)
         \<and> bin_serialize (d_conf D) cs = Inr data
         \<and> dbv (manager_db m') CLUSTER_STATE_TABLE (KS ''conf_state'') = Some data)"
proof -
  obtain cs n where step: "rn_apply_conf_change (d_raft D) cc (manager_db m) (raft_node m) = (Inr cs, n)"
    and save: "manager_save_conf_state D cs (manager_db m) = (Inr (), manager_db m')"
    using apply_conf_change_db[OF assms(2)] by blast
  obtain data where data: "bin_serialize (d_conf D) cs = Inr data"
    using manager_save_conf_state_fails[OF _ assms(1), of cs _ "manager_db m"] save
    by (cases "bin_serialize (d_conf D) cs") auto
  have tables: "dbv (manager_db m') = put CLUSTER_STATE_TABLE (KS ''conf_state'') data (dbv (manager_db m))"
    using manager_save_conf_state_writes[OF assms(1) data, of "manager_db m"] save by (simp add: writes_def)
  then have same: "dbv (manager_db m') RAFT_HARD_STATE_TABLE = dbv (manager_db m) RAFT_HARD_STATE_TABLE"
    "dbv (manager_db m') RAFT_CONF_STATE_TABLE = dbv (manager_db m) RAFT_CONF_STATE_TABLE"
    by (simp_all add: redb_table_names)
  show ?thesis
    unfolding redb_initial_state_reliable[OF assms(1)] load_conf_state_reliable[OF assms(1)] same
    using step data tables by simp
qed

text \<open>A node of a single-voter cluster that applies the addition of node 2.\<close>

theorem conf_change_not_reloaded_witness:
  "case apply_conf_change script_deps \<lparr>conf_change_id = 0, conf_change_type = CC_AddNode, conf_change_node = 2,
       conf_change_context = []\<rparr> (script_manager RoleLeader []) of (r, m) \<Rightarrow>
     r = Inr () \<and> redb_initial_state mem_redb storage_codec (manager_db m)
       = redb_initial_state mem_redb storage_codec mem_empty"
proof -
  let ?cc = "\<lparr>conf_change_id = 0, conf_change_type = CC_AddNode, conf_change_node = 2, conf_change_context = []\<rparr>"
  let ?m = "script_manager RoleLeader []"
  obtain m' where m': "apply_conf_change script_deps ?cc ?m = (Inr (), m')"
    by (simp add: apply_conf_change_def script_defs on_node_try_def on_node_def on_db_def act_then_def
        manager_save_conf_state_def context_write_def mem_redb_def mem_ops_def serialize_conf_state_def db_try_def
        update_local_peers_after_conf_change_def)
  have rel: "redb_reliable (d_redb script_deps) mem_view mem_view"
    by (simp add: script_deps_def mem_redb_reliable)
  show ?thesis
    using conf_change_not_reloaded [OF rel m'] m' by (simp add: script_deps_def script_manager_def)
qed

section \<open>A request that cannot be served\<close>

text \<open>
  A request to add a node whose P2P id does not parse stops the manager. The leader has
  already proposed the change and entered the peer when it builds the address; the error
  leaves the handler, and with it the loop of the manager, before the request is answered.
\<close>

theorem malformed_peer_stops_manager:
  assumes "rn_state (d_raft D) (raft_node m) = RoleLeader" and "change_type change = AddNode"
    and "bin_serialize (d_context D) (change_context change) = Inr data"
    and "rn_propose_conf_change (d_raft D) [] (raft_conf_change change data) (manager_db m) (raft_node m) = (Inr (), n)"
    and "shared_state m = Some shared" and "peer_connector shared"
    and "cc_p2p_node_id change = Some p" and "d_node_id D p = Inl e"
  shows "handle_conf_change D change m = (Inl (Internal (''Invalid P2P node ID '' @ p @ '': '' @ e)),
    m\<lparr>raft_node := n, manager_peers := (manager_peers m)(cc_node_id change \<mapsto> cc_address change)\<rparr>)"
  using assms
  by (simp add: handle_conf_change_def act_then_def on_node_def Let_def change_proposed_def is_single_node_cluster_def
      handle_successful_node_addition_def insert_peer_def connect_new_peer_def create_node_addr_with_relay_def
      create_node_addr_direct_def invalid_node_id_def split: option.split)

definition bad_change :: RaftConfChange where
  "bad_change = \<lparr>change_type = AddNode, cc_node_id = 4, cc_address = ''host:1'', cc_p2p_node_id = Some [],
     cc_p2p_addresses = [], cc_p2p_relay_url = None, cc_response_tx = Some 7\<rparr>"

theorem malformed_peer_stops_manager_witness:
  "case handle_conf_change script_deps bad_change (script_manager RoleLeader []) of (r, m) \<Rightarrow>
     \<not> is_ok r \<and> answers m = [] \<and> manager_peers m 4 = Some ''host:1''"
  using malformed_peer_stops_manager [of script_deps "script_manager RoleLeader []" bad_change "string_bytes ''host:1''"
      "raft_node (script_manager RoleLeader [])" "the (shared_state (script_manager RoleLeader []))" "[]" "''empty''"]
  by (simp add: script_deps_def script_manager_def script_raft_def change_context_def bad_change_def)

end
