(* ===== verification/RaftSnapshots.thy ===== *)
theory RaftSnapshots
  imports ConfigManager
begin

text \<open>
  \<open>src/src/raft/snapshot.rs\<close>: installing a snapshot that arrived, and compacting the log. The
  locks around \<open>last_compaction_index\<close> are not poisoned. \<open>check_and_send_snapshots\<close> only reads:
  its loop is commented out in the source.
\<close>

section \<open>Installing a snapshot\<close>

text \<open>The three helpers \<open>clear_and_restore_*_table\<close>, which differ in the type of the keys.\<close>

definition clear_and_restore_table :: "('db, 'tx) redb \<Rightarrow> ('tx, 'k) table_ops \<Rightarrow> string \<Rightarrow> ('k \<times> bytes) list
    \<Rightarrow> string \<Rightarrow> 'tx \<Rightarrow> RaftError + 'tx" where
  "clear_and_restore_table R ops t data table_name tx =
    (let ctx = (\<lambda>verb. map_err (storage_error (verb @ table_name @ '' table''))) in
     and_then (map_err (storage_error (''open '' @ table_name @ '' table'')) (open_table R tx t)) (\<lambda>tx.
     and_then (map_err (storage_error (''iterate '' @ table_name @ '' table'')) (t_range ops tx t (\<lambda>_. True))) (\<lambda>items.
     and_then (for_each (\<lambda>tx key. ctx ''remove from '' (t_remove ops tx t key)) tx
         (map (\<lambda>r. fst (projr r)) (filter is_ok items))) (\<lambda>tx.
       for_each (\<lambda>tx (key, v). ctx ''insert into '' (t_insert ops tx t key v)) tx data))))"

definition snapshot_tables_txn :: "('db, 'tx) redb \<Rightarrow> SnapshotData \<Rightarrow> 'tx \<Rightarrow> RaftError + 'tx" where
  "snapshot_tables_txn R sd tx =
     and_then (clear_and_restore_table R (opsS R) VM_STATE_TABLE (vm_states sd) ''VM_STATE'' tx) (\<lambda>tx.
     and_then (clear_and_restore_table R (opsS R) CLUSTER_STATE_TABLE (cluster_state sd) ''CLUSTER_STATE'' tx) (\<lambda>tx.
     and_then (clear_and_restore_table R (opsS R) TASK_TABLE (sd_tasks sd) ''TASK'' tx) (\<lambda>tx.
     and_then (clear_and_restore_table R (opsS R) TASK_ASSIGNMENT_TABLE (task_assignments sd) ''TASK_ASSIGNMENT'' tx) (\<lambda>tx.
     and_then (clear_and_restore_table R (opsS R) TASK_RESULT_TABLE (task_results sd) ''TASK_RESULT'' tx) (\<lambda>tx.
     and_then (clear_and_restore_table R (opsB R) WORKER_TABLE (sd_workers sd) ''WORKER'' tx) (\<lambda>tx.
     and_then (clear_and_restore_table R (opsB R) WORKER_STATUS_TABLE (worker_status sd) ''WORKER_STATUS'' tx) (\<lambda>tx.
     and_then (clear_and_restore_table R (ops64 R) IP_POOL_TABLE (ip_pools sd) ''IP_POOL'' tx) (\<lambda>tx.
     and_then (clear_and_restore_table R (opsS R) IP_ALLOCATION_TABLE (ip_allocations sd) ''IP_ALLOCATION'' tx) (\<lambda>tx.
       clear_and_restore_table R (opsS R) VM_IP_MAPPING_TABLE (vm_ip_mappings sd) ''VM_IP_MAPPING'' tx)))))))))"

definition apply_snapshot_to_state_machine :: "('n, 'db, 'tx, 'e, 's) deps \<Rightarrow> bytes \<Rightarrow> 'db \<Rightarrow> (RaftError + unit) \<times> 'db" where
  "apply_snapshot_to_state_machine D snapshot_data db = (case bin_deserialize (d_snapshot D) snapshot_data of
     Inl e \<Rightarrow> (Inl (Serialization ''deserialize snapshot'' e), db)
   | Inr sd \<Rightarrow> context_write (d_redb D) ''begin snapshot transaction'' ''commit snapshot transaction''
       (snapshot_tables_txn (d_redb D) sd) db)"

definition process_snapshot_if_present :: "('n, 'db, 'tx, 'e, 's) deps \<Rightarrow> Ready
    \<Rightarrow> (('n, 'db, 's) RaftManager, unit) action" where
  "process_snapshot_if_present D ready =
    (if snapshot_is_empty (rd_snapshot ready) then act_return ()
     else let snapshot = rd_snapshot ready in
       act_then (on_db (redb_apply_snapshot (d_redb D) (d_codec D) (d_snapshot D) snapshot)) (\<lambda>_.
         if snap_data snapshot \<noteq> [] then on_db (apply_snapshot_to_state_machine D (snap_data snapshot))
         else act_return ()))"

section \<open>Compaction\<close>

definition COMPACTION_THRESHOLD :: u64 where "COMPACTION_THRESHOLD = 1000"

text \<open>Errors of building the snapshot and of compacting are only logged.\<close>

definition perform_log_compaction :: "('n, 'db, 'tx, 'e, 's) deps \<Rightarrow> u64
    \<Rightarrow> (('n, 'db, 's) RaftManager, unit) action" where
  "perform_log_compaction D applied = act_with manager_db (\<lambda>db.
     case redb_snapshot (d_redb D) (d_codec D) (d_snapshot D) applied db of
       Inl _ \<Rightarrow> act_return ()
     | Inr snapshot \<Rightarrow>
         let compact_index = sm_index (get_metadata snapshot)
         in act_update (\<lambda>m. case compact_log_before (d_redb D) compact_index (manager_db m) of (r, db) \<Rightarrow>
              (case r of Inl _ \<Rightarrow> m\<lparr>manager_db := db\<rparr>
               | Inr _ \<Rightarrow> m\<lparr>manager_db := db, last_compaction_index := Some compact_index\<rparr>)))"

definition should_compact :: "u64 \<Rightarrow> u64 option \<Rightarrow> bool" where
  "should_compact applied last_compact \<longleftrightarrow> applied > COMPACTION_THRESHOLD
     \<and> (case last_compact of
          Some last_compact_idx \<Rightarrow> applied - last_compact_idx > COMPACTION_THRESHOLD div 2
        | None \<Rightarrow> True)"

definition check_and_trigger_log_compaction :: "('n, 'db, 'tx, 'e, 's) deps
    \<Rightarrow> (('n, 'db, 's) RaftManager, unit) action" where
  "check_and_trigger_log_compaction D = act_with (\<lambda>m. rn_applied (d_raft D) (raft_node m)) (\<lambda>applied.
     act_with last_compaction_index (\<lambda>last_compact.
       if should_compact applied last_compact then perform_log_compaction D applied
       else act_return ()))"

definition check_and_send_snapshots :: "(('n, 'db, 's) RaftManager, unit) action" where
  "check_and_send_snapshots = act_return ()"

definition report_snapshot :: "('n, 'db, 'tx, 'e, 's) deps \<Rightarrow> u64 \<Rightarrow> bool
    \<Rightarrow> (('n, 'db, 's) RaftManager, unit) action" where
  "report_snapshot D to status = act_update (\<lambda>m. m\<lparr>raft_node := rn_report_snapshot (d_raft D) to status (raft_node m)\<rparr>)"

section \<open>Two ways to restore the tables\<close>

text \<open>Two fallible steps that agree on their successful results.\<close>

definition agree :: "'e + 'a \<Rightarrow> 'f + 'a \<Rightarrow> bool" where
  "agree r s \<longleftrightarrow> (\<forall>a. r = Inr a \<longleftrightarrow> s = Inr a)"

named_theorems agree_rules

lemma agree_map_err [agree_rules]: "agree (map_err f r) (map_err g r)"
  by (simp add: agree_def)

lemma agree_and_then [agree_rules]:
  assumes "agree r s" and "\<And>a. agree (f a) (g a)"
  shows "agree (and_then r f) (and_then s g)"
  using assms unfolding agree_def and_then_Inr_iff by blast

lemma agree_for_each [agree_rules]: "(\<And>s x. agree (f s x) (g s x)) \<Longrightarrow> agree (for_each f s xs) (for_each g s xs)"
proof (induction xs arbitrary: s)
  case (Cons x xs)
  then show ?case by (simp add: agree_and_then)
qed (simp add: agree_def)

lemma agree_case_prod [agree_rules]: "(\<And>a b. agree (f a b) (g a b)) \<Longrightarrow> agree (case p of (a, b) \<Rightarrow> f a b) (case p of (a, b) \<Rightarrow> g a b)"
  by (cases p) simp

lemma agree_tables [agree_rules]: "agree (restore_table R ops t data tx) (clear_and_restore_table R ops t data name tx)"
  unfolding restore_table_def clear_and_restore_table_def db_try_def Let_def
  by (intro agree_rules)

lemma agree_txn: "agree (restore_txn R sd tx) (snapshot_tables_txn R sd tx)"
  unfolding restore_txn_def snapshot_tables_txn_def by (intro agree_rules)

lemma agree_yields: "agree r s \<Longrightarrow> yields view r m \<Longrightarrow> yields view s m"
  by (auto simp: agree_def yields_def)

lemma snapshot_tables_yields:
  assumes "redb_reliable R dbv view"
  shows "yields view (snapshot_tables_txn R sd tx) (load_all sd (view tx))"
  by (rule agree_yields[OF agree_txn restore_txn_yields[OF assms]])

text \<open>Loading the same rows twice changes nothing.\<close>

lemma foldl_put_cong:
  "(\<And>k. k \<in> range mk \<Longrightarrow> m t k = m' t k) \<Longrightarrow> k \<in> range mk \<Longrightarrow>
   foldl (\<lambda>m (k, v). put t (mk k) v m) m data t k = foldl (\<lambda>m (k, v). put t (mk k) v m) m' data t k"
proof (induction data arbitrary: m m')
  case (Cons row data)
  obtain a v where "row = (a, v)" by (cases row)
  with Cons.prems Cons.IH[of "put t (mk a) v m" "put t (mk a) v m'"] show ?case by simp
qed simp

lemma load_table_indep: "k \<in> range mk \<Longrightarrow> load_table mk t data m t k = load_table mk t data m' t k"
  unfolding load_table_def by (rule foldl_put_cong) (simp_all add: wipe_def)

lemma load_all_indep:
  assumes "t \<in> set state_tables" and "k \<in> table_keys t"
  shows "load_all sd m t k = load_all sd m' t k"
proof -
  from assms(1) consider "t = VM_STATE_TABLE" | "t = CLUSTER_STATE_TABLE" | "t = TASK_TABLE"
    | "t = TASK_ASSIGNMENT_TABLE" | "t = TASK_RESULT_TABLE" | "t = WORKER_TABLE" | "t = WORKER_STATUS_TABLE"
    | "t = IP_POOL_TABLE" | "t = IP_ALLOCATION_TABLE" | "t = VM_IP_MAPPING_TABLE"
    unfolding state_tables_def by auto
  then show ?thesis
    using assms(2) by cases
      (auto simp: load_all_def table_keys_def redb_table_names load_table_simps(1) intro: load_table_indep)
qed

lemma load_all_keys: "t \<in> set state_tables \<Longrightarrow> k \<notin> table_keys t \<Longrightarrow> load_all sd m t k = m t k"
  unfolding load_all_def state_tables_def table_keys_def
  by (auto simp: load_table_simps redb_table_names)

lemma load_all_again:
  assumes "\<And>t. t \<in> set state_tables \<Longrightarrow> m' t = load_all sd m t"
  shows "load_all sd m' = m'"
proof (intro ext)
  fix t k
  show "load_all sd m' t k = m' t k"
    by (cases "t \<in> set state_tables"; cases "k \<in> table_keys t")
      (simp_all add: load_all_other load_all_keys assms load_all_indep[of t k sd m' m])
qed

lemma apply_snapshot_to_state_machine_writes:
  assumes rel: "redb_reliable (d_redb D) dbv view" and "bin_deserialize (d_snapshot D) bs = Inr sd"
  shows "writes dbv (apply_snapshot_to_state_machine D bs db) (load_all sd (dbv db))"
proof -
  have "yields view (snapshot_tables_txn (d_redb D) sd tx) (load_all sd (dbv db))" if "view tx = dbv db" for tx
    using snapshot_tables_yields[OF rel, of sd tx] that by simp
  then show ?thesis
    by (simp add: apply_snapshot_to_state_machine_def assms(2) context_write_reliable[OF rel] redb_write_writes[OF rel])
qed

text \<open>
  The manager restores the ten tables of a snapshot twice, first through the storage and
  then itself; the second time changes nothing, so that the database it ends with holds what
  the storage alone would have left, and nothing else of its state is touched.
\<close>

theorem snapshot_installed_once:
  assumes "redb_reliable (d_redb D) dbv view" and "raft_codec_ok (d_codec D)"
    and "\<not> snapshot_is_empty (rd_snapshot ready)"
    and "bin_deserialize (d_snapshot D) (snap_data (rd_snapshot ready)) = Inr sd"
  shows "\<exists>db1 db2. redb_apply_snapshot (d_redb D) (d_codec D) (d_snapshot D) (rd_snapshot ready) (manager_db m) = (Inr (), db1)
    \<and> process_snapshot_if_present D ready m = (Inr (), m\<lparr>manager_db := db2\<rparr>) \<and> dbv db2 = dbv db1"
proof -
  let ?s = "rd_snapshot ready"
  obtain db1 where db1: "redb_apply_snapshot (d_redb D) (d_codec D) (d_snapshot D) ?s (manager_db m) = (Inr (), db1)"
    and tables: "dbv db1 = drop_log (\<lambda>k. k < sm_index (get_metadata ?s)) ((if snap_data ?s \<noteq> [] then load_all sd else id)
      (put RAFT_HARD_STATE_TABLE (KS ''hard_state'') (projr (rc_serialize_hard_state (d_codec D)
          (default_hard_state\<lparr>hs_term := sm_term (get_metadata ?s), hs_commit := sm_index (get_metadata ?s)\<rparr>)))
      (put RAFT_CONF_STATE_TABLE (KS ''conf_state'') (projr (rc_serialize_conf_state (d_codec D)
          (get_conf_state (get_metadata ?s)))) (dbv (manager_db m)))))"
    using redb_apply_snapshot_writes[OF assms(1,2), of ?s "d_snapshot D" sd "manager_db m"] assms(4) by (auto simp: writes_def)
  show ?thesis
  proof (cases "snap_data ?s = []")
    case True
    with db1 assms(3) show ?thesis
      by (intro exI[of _ db1]) (simp add: process_snapshot_if_present_def on_db_def act_then_def Let_def)
  next
    case False
    obtain db2 where db2: "apply_snapshot_to_state_machine D (snap_data ?s) db1 = (Inr (), db2)"
      and "dbv db2 = load_all sd (dbv db1)"
      using apply_snapshot_to_state_machine_writes[OF assms(1,4)] by (auto simp: writes_def)
    moreover have "load_all sd (dbv db1) = dbv db1"
      using False redb_tables_distinct(4) unfolding tables by (intro load_all_again) (auto simp: drop_log_def)
    ultimately show ?thesis
      using db1 assms(3) False
      by (intro exI[of _ db1] exI[of _ db2]) (simp add: process_snapshot_if_present_def on_db_def act_then_def Let_def)
  qed
qed

section \<open>Compaction\<close>

text \<open>
  The log is compacted exactly when more than 1000 entries were applied, and more than 500
  since the last compaction. Then the entries below the smaller of the applied and the last
  index go, all others stay, and that index is remembered, and nothing else changes. The
  remembered index is never above the applied index, so that the subtraction in the next
  check does not wrap.
\<close>

theorem compaction_policy:
  assumes "redb_reliable (d_redb D) dbv view" and "applied = rn_applied (d_raft D) (raft_node m)"
    and "redb_snapshot (d_redb D) (d_codec D) (d_snapshot D) applied (manager_db m) = Inr snapshot"
    and "redb_last_index (d_redb D) (manager_db m) = Inr final"
    and "case last_compaction_index m of None \<Rightarrow> True | Some i \<Rightarrow> i \<le> applied"
  shows "\<exists>m'. check_and_trigger_log_compaction D m = (Inr (), m')
    \<and> (case last_compaction_index m' of None \<Rightarrow> True | Some i \<Rightarrow> i \<le> applied)
    \<and> (if unat applied > 1000 \<and> (case last_compaction_index m of None \<Rightarrow> True | Some i \<Rightarrow> unat i + 500 < unat applied)
       then \<exists>db'. m' = m\<lparr>manager_db := db', last_compaction_index := Some (min applied final)\<rparr>
         \<and> dbv db' = drop_log (\<lambda>k. k < min applied final) (dbv (manager_db m))
       else m' = m)"
proof -
  have index: "sm_index (get_metadata snapshot) = min applied final"
    using assms(3,4) by (auto simp: redb_snapshot_def and_then_Inr_iff get_metadata_def)
  obtain db' where db': "compact_log_before (d_redb D) (min applied final) (manager_db m) = (Inr (), db')"
    "dbv db' = drop_log (\<lambda>k. k < min applied final) (dbv (manager_db m))"
    using compact_log_before_writes[OF assms(1)] by (force simp: writes_def)
  have due: "should_compact applied (last_compaction_index m) \<longleftrightarrow>
      unat applied > 1000 \<and> (case last_compaction_index m of None \<Rightarrow> True | Some i \<Rightarrow> unat i + 500 < unat applied)"
    using assms(5) by (auto simp: should_compact_def COMPACTION_THRESHOLD_def word_less_nat_alt word_le_nat_alt unat_sub
        split: option.splits)
  show ?thesis
  proof (cases "should_compact applied (last_compaction_index m)")
    case False
    then show ?thesis
      using assms(5) unfolding due[symmetric] by (simp add: check_and_trigger_log_compaction_def assms(2))
  next
    case True
    with db' index assms(2,3) show ?thesis
      unfolding due[symmetric] by (auto simp: check_and_trigger_log_compaction_def perform_log_compaction_def Let_def)
  qed
qed

section \<open>Examples\<close>

text \<open>A follower that receives a snapshot with one row in one table.\<close>

definition one_vm :: SnapshotData where
  "one_vm = \<lparr>vm_states = [([], [1])], cluster_state = [], sd_tasks = [], task_assignments = [], task_results = [],
     sd_workers = [], worker_status = [], ip_pools = [], ip_allocations = [], vm_ip_mappings = []\<rparr>"

theorem snapshot_installed_once_witness:
  "\<exists>db1 db2. redb_apply_snapshot mem_redb storage_codec data_wire (sample_snapshot\<lparr>snap_data := put_data one_vm\<rparr>) mem_empty = (Inr (), db1)
    \<and> process_snapshot_if_present script_deps (empty_ready\<lparr>rd_snapshot := sample_snapshot\<lparr>snap_data := put_data one_vm\<rparr>\<rparr>)
        (script_manager RoleFollower []) = (Inr (), (script_manager RoleFollower [])\<lparr>manager_db := db2\<rparr>)
    \<and> mem_view db2 = mem_view db1"
  using snapshot_installed_once [of script_deps mem_view mem_view
      "empty_ready\<lparr>rd_snapshot := sample_snapshot\<lparr>snap_data := put_data one_vm\<rparr>\<rparr>" one_vm "script_manager RoleFollower []"]
    mem_redb_reliable storage_codec_ok get_data_put[of one_vm]
  by (simp add: script_deps_def data_wire_def snapshot_is_empty_def get_metadata_def sample_snapshot_def)
    (simp add: script_manager_def)

text \<open>A node that applied 1500 entries and whose log holds the entries 1 and 4.\<close>

lemma gap_log_snapshot:
  "\<exists>db s. log_keys (mem_view db) = {1, 4} \<and> redb_last_index mem_redb db = Inr 4
    \<and> redb_snapshot mem_redb storage_codec data_wire i db = Inr s"
proof -
  obtain db where app: "redb_append mem_redb storage_codec [sample_entry 1 [], sample_entry 4 [7]] mem_empty = (Inr (), db)"
    and held: "held_log storage_codec (mem_view db) gap_log" using gap_log_held by blast
  have keys: "log_keys (mem_view db) = {1, 4}"
    using held by (auto simp: log_keys_def held_log_def gap_log_def split: if_splits)
  then have final: "redb_last_index mem_redb db = Inr 4" by (simp add: redb_index_reliable[OF mem_redb_reliable])
  have trm: "redb_term mem_redb storage_codec 4 db = Inr (entry_term (sample_entry 4 [7]))"
    by (simp add: redb_term_held[OF mem_redb_reliable storage_codec_ok held] gap_log_def)
  have "mem_view db = foldl (rc_put_entry storage_codec) (\<lambda>_ _. None) [sample_entry 1 [], sample_entry 4 [7]]"
    using redb_append_writes[OF mem_redb_reliable storage_codec_ok, of "[sample_entry 1 [], sample_entry 4 [7]]" mem_empty] app
    by (simp add: writes_def)
  then have "mem_view db RAFT_CONF_STATE_TABLE = (\<lambda>_. None)"
    by (simp add: rc_put_entry_def redb_tables_distinct)
  then have conf: "load_conf_state mem_redb storage_codec db = Inr default_conf_state"
    by (simp add: load_conf_state_reliable[OF mem_redb_reliable])
  obtain sd where sd: "create_snapshot_data mem_redb db = Inr sd"
    using create_snapshot_data_rows[OF mem_redb_reliable] by blast
  obtain data where data: "bin_serialize data_wire sd = Inr data"
    using codec.enc_total[OF data_wire_ok[unfolded bincode_ok_def]] by blast
  have "\<exists>s. redb_snapshot mem_redb storage_codec data_wire i db = Inr s"
    by (simp add: redb_snapshot_def conf final trm sd data other_db_def)
  with keys final show ?thesis by blast
qed

theorem compaction_policy_witness:
  "\<exists>db m'. check_and_trigger_log_compaction script_deps ((script_manager RoleLeader [])\<lparr>manager_db := db,
       raft_node := (raft_node (script_manager RoleLeader []))\<lparr>script_applied := 1500\<rparr>\<rparr>) = (Inr (), m')
    \<and> log_keys (mem_view db) = {1, 4} \<and> log_keys (mem_view (manager_db m')) = {4} \<and> last_compaction_index m' = Some 4"
proof -
  obtain db s where db: "log_keys (mem_view db) = {1, 4}" "redb_last_index mem_redb db = Inr 4"
    "redb_snapshot mem_redb storage_codec data_wire 1500 db = Inr s" using gap_log_snapshot by blast
  let ?m = "(script_manager RoleLeader [])\<lparr>manager_db := db,
       raft_node := (raft_node (script_manager RoleLeader []))\<lparr>script_applied := 1500\<rparr>\<rparr>"
  have D: "d_redb script_deps = mem_redb" "d_codec script_deps = storage_codec" "d_snapshot script_deps = data_wire"
    "d_raft script_deps = script_raft" by (simp_all add: script_deps_def)
  have m: "rn_applied (d_raft script_deps) (raft_node ?m) = 1500" "manager_db ?m = db" "last_compaction_index ?m = None"
    by (simp_all add: D script_raft_def script_manager_def)
  have rel: "redb_reliable (d_redb script_deps) mem_view mem_view" by (simp add: D mem_redb_reliable)
  have "\<exists>m'. check_and_trigger_log_compaction script_deps ?m = (Inr (), m')
      \<and> (\<exists>db'. m' = ?m\<lparr>manager_db := db', last_compaction_index := Some (min 1500 4)\<rparr>
        \<and> mem_view db' = drop_log (\<lambda>k. k < min 1500 4) (mem_view db))"
    using compaction_policy [OF rel m(1)[symmetric], of s 4] db(2,3) by (auto simp: m(2,3) D)
  then obtain m' where m': "check_and_trigger_log_compaction script_deps ?m = (Inr (), m')"
    "\<exists>db'. m' = ?m\<lparr>manager_db := db', last_compaction_index := Some (min 1500 4)\<rparr>
        \<and> mem_view db' = drop_log (\<lambda>k. k < min 1500 4) (mem_view db)" by blast
  then obtain db' where "m' = ?m\<lparr>manager_db := db', last_compaction_index := Some 4\<rparr>"
    and tables: "mem_view db' = drop_log (\<lambda>k. k < 4) (mem_view db)" by auto
  moreover have "log_keys (mem_view db') = {i \<in> log_keys (mem_view db). \<not> i < 4}"
    by (auto simp: tables log_keys_def drop_log_entry)
  then have "log_keys (mem_view db') = {4}" by (auto simp: db(1))
  ultimately show ?thesis using m'(1) db(1) by (intro exI[of _ db] exI[of _ m']) simp
qed

end
