(* ===== verification/Manager.thy ===== *)
theory Manager
  imports RaftSnapshots Steps
begin

text \<open>
  \<open>src/src/raft/core.rs\<close> and \<open>src/src/raft/bootstrap.rs\<close>: the Raft manager. Its loop takes one
  event after the other (a tick, a proposal, a message, a configuration change), so a handler is
  one step; it ends at the first error. Logging, metrics and tracing are left out, and
  so are the two pieces the source marks as experimental (\<open>process_on_ready\<close>, which does nothing,
  and \<open>run_with_event_loop\<close>) and the batch processor, which sits before the proposal channel.
\<close>

section \<open>Sending\<close>

text \<open>The message as sent: a sender 0 is replaced by this node.\<close>

definition fix_from :: "u64 \<Rightarrow> Message \<Rightarrow> Message" where
  "fix_from node msg = (if msg_from msg = 0 then msg\<lparr>msg_from := node\<rparr> else msg)"

definition send_raft_message :: "Message \<Rightarrow> (('n, 'db, 's) RaftManager, unit) action" where
  "send_raft_message msg = act_update (\<lambda>m.
     let msg = fix_from (manager_id m) msg
     in if outgoing_open m then m\<lparr>outgoing := outgoing m @ [(msg_to msg, msg)]\<rparr> else m)"

section \<open>Committed entries\<close>

definition process_normal_entry :: "('n, 'db, 'tx, 'e, 's) deps \<Rightarrow> Entry \<Rightarrow> (('n, 'db, 's) RaftManager, unit) action" where
  "process_normal_entry D entry = (\<lambda>m. case d_apply_entry D entry (machine_state m, manager_db m) of (result, s, db) \<Rightarrow>
     (if entry_context entry \<noteq> [] then answer_pending (entry_context entry) result else act_return ())
       (m\<lparr>machine_state := s, manager_db := db\<rparr>))"

definition process_conf_change_entry :: "('n, 'db, 'tx, 'e, 's) deps \<Rightarrow> Entry \<Rightarrow> (('n, 'db, 's) RaftManager, unit) action" where
  "process_conf_change_entry D entry = (case d_parse_change D (entry_data entry) of
     Inl e \<Rightarrow> let err = Internal (''Failed to parse ConfChange: '' @ e) in
       act_then (if entry_context entry \<noteq> [] then answer_pending (entry_context entry) (Inl err) else act_return ()) (\<lambda>_.
         act_fail err)
   | Inr cc \<Rightarrow> apply_conf_change D cc)"

definition process_entry :: "('n, 'db, 'tx, 'e, 's) deps \<Rightarrow> Entry \<Rightarrow> (('n, 'db, 's) RaftManager, unit) action" where
  "process_entry D entry =
    (if entry_type entry = EntryNormal then process_normal_entry D entry
     else if entry_type entry = EntryConfChange then process_conf_change_entry D entry
     else act_return ())"

text \<open>\<open>last_applied_index\<close>: the index of the last entry, 0 when there is none.\<close>

definition last_entry_index :: "u64 \<Rightarrow> Entry list \<Rightarrow> u64" where
  "last_entry_index i entries = (if entries = [] then i else entry_index (last entries))"

definition process_committed_entries :: "('n, 'db, 'tx, 'e, 's) deps \<Rightarrow> Entry list
    \<Rightarrow> (('n, 'db, 's) RaftManager, u64) action" where
  "process_committed_entries D committed_entries =
     act_then (act_each (process_entry D) committed_entries) (\<lambda>_.
       act_return (last_entry_index 0 committed_entries))"

section \<open>Ready states\<close>

definition save_entries_to_storage :: "('n, 'db, 'tx, 'e, 's) deps \<Rightarrow> Ready \<Rightarrow> (('n, 'db, 's) RaftManager, unit) action" where
  "save_entries_to_storage D ready =
    (if rd_entries ready \<noteq> [] then on_db (redb_append (d_redb D) (d_codec D) (rd_entries ready)) else act_return ())"

definition save_ready_hard_state :: "('n, 'db, 'tx, 'e, 's) deps \<Rightarrow> Ready \<Rightarrow> (('n, 'db, 's) RaftManager, unit) action" where
  "save_ready_hard_state D ready = (case rd_hs ready of
     Some hs \<Rightarrow> on_db (redb_save_hard_state (d_redb D) (d_codec D) hs)
   | None \<Rightarrow> act_return ())"

definition send_messages_to_peers :: "Message list \<Rightarrow> (('n, 'db, 's) RaftManager, unit) action" where
  "send_messages_to_peers msgs = act_each send_raft_message msgs"

text \<open>
  Entries that were committed while the ready state was processed are read back from the
  store; when that fails nothing happens.
\<close>

definition handle_newly_committed_entries :: "('n, 'db, 'tx, 'e, 's) deps \<Rightarrow> u64 \<Rightarrow> bool
    \<Rightarrow> (('n, 'db, 's) RaftManager, unit) action" where
  "handle_newly_committed_entries D last_applied_index had_commit_update = act_with id (\<lambda>m.
     let committed = rn_committed (d_raft D) (raft_node m);
         current_applied = (if last_applied_index > 0 then last_applied_index else rn_applied (d_raft D) (raft_node m))
     in if had_commit_update \<and> committed > current_applied
        then (case redb_entries (d_redb D) (d_codec D) (current_applied + 1) (committed + 1) None (manager_db m) of
            Inr entries \<Rightarrow> act_then (act_each (process_entry D) entries) (\<lambda>_.
              let last_applied_index = last_entry_index last_applied_index entries
              in if last_applied_index > 0
                 then act_update (\<lambda>m. m\<lparr>raft_node := rn_advance_apply_to (d_raft D) last_applied_index (raft_node m)\<rparr>)
                 else act_return ())
          | Inl _ \<Rightarrow> act_return ())
        else act_return ())"

definition advance_raft_node :: "('n, 'db, 'tx, 'e, 's) deps \<Rightarrow> Ready \<Rightarrow> u64 \<Rightarrow> (('n, 'db, 's) RaftManager, unit) action" where
  "advance_raft_node D ready last_applied_index =
     act_then (on_node (rn_advance (d_raft D) ready)) (\<lambda>light_rd.
     act_then (act_each send_raft_message (lr_messages light_rd)) (\<lambda>_.
     act_then (case lr_commit_index light_rd of
         Some commit_index \<Rightarrow> act_with (\<lambda>m. rn_hard_state (d_raft D) (raft_node m)) (\<lambda>hs.
           act_then (on_db (redb_save_hard_state (d_redb D) (d_codec D) (hs\<lparr>hs_commit := commit_index\<rparr>))) (\<lambda>_.
             act_return True))
       | None \<Rightarrow> act_return False) (\<lambda>had_commit_update.
       handle_newly_committed_entries D last_applied_index had_commit_update)))"

definition role_name :: "StateRole \<Rightarrow> string" where
  "role_name r = (case r of RoleFollower \<Rightarrow> ''follower'' | RoleCandidate \<Rightarrow> ''candidate''
     | RoleLeader \<Rightarrow> ''leader'' | RolePreCandidate \<Rightarrow> ''precandidate'')"

definition update_shared_state_status :: "('n, 'db, 'tx, 'e, 's) deps \<Rightarrow> (('n, 'db, 's) RaftManager, unit) action" where
  "update_shared_state_status D = act_update (\<lambda>m. case shared_state m of
     None \<Rightarrow> m
   | Some shared \<Rightarrow> m\<lparr>shared_state := Some (shared\<lparr>raft_status := Some \<lparr>
       rs_is_leader = (rn_state (d_raft D) (raft_node m) = RoleLeader),
       rs_node_id = manager_id m,
       rs_leader_id = leader_option (rn_leader_id (d_raft D) (raft_node m)),
       rs_term = rn_term (d_raft D) (raft_node m),
       rs_state = role_name (rn_state (d_raft D) (raft_node m))\<rparr>\<rparr>)\<rparr>)"

text \<open>The ready state of \<open>on_ready\<close>; only its \<open>messages\<close> are taken and sent.\<close>

definition process_ready :: "('n, 'db, 'tx, 'e, 's) deps \<Rightarrow> Ready \<Rightarrow> (('n, 'db, 's) RaftManager, bool) action" where
  "process_ready D ready =
     act_then (process_snapshot_if_present D ready) (\<lambda>_.
     act_then (save_entries_to_storage D ready) (\<lambda>_.
     act_then (save_ready_hard_state D ready) (\<lambda>_.
     act_then (send_messages_to_peers (rd_messages ready)) (\<lambda>_.
     act_then (process_committed_entries D (rd_committed_entries ready)) (\<lambda>last_applied_index.
     act_then (advance_raft_node D (ready\<lparr>rd_messages := [], rd_committed_entries := []\<rparr>) last_applied_index) (\<lambda>_.
     act_then (check_and_trigger_log_compaction D) (\<lambda>_.
     act_then (update_shared_state_status D) (\<lambda>_.
       act_return True))))))))"

definition on_ready :: "('n, 'db, 'tx, 'e, 's) deps \<Rightarrow> (('n, 'db, 's) RaftManager, bool) action" where
  "on_ready D = act_with raft_node (\<lambda>node.
     if \<not> rn_has_ready (d_raft D) node then act_return False
     else act_then (on_node (rn_ready (d_raft D))) (\<lambda>ready. process_ready D ready))"

section \<open>Handlers\<close>

definition tick :: "('n, 'db, 'tx, 'e, 's) deps \<Rightarrow> (('n, 'db, 's) RaftManager, unit) action" where
  "tick D =
     act_then (act_update (\<lambda>m. m\<lparr>raft_node := rn_tick (d_raft D) (manager_db m) (raft_node m)\<rparr>)) (\<lambda>_.
     act_then (on_ready D) (\<lambda>processed_ready.
     act_then needs_replication_trigger (\<lambda>needs_replication.
     act_then (act_with raft_node (\<lambda>node.
         if needs_replication \<and> rn_state (d_raft D) node = RoleLeader
         then act_then (act_update (\<lambda>m. m\<lparr>raft_node := rn_tick (d_raft D) (manager_db m) (raft_node m)\<rparr>)) (\<lambda>_.
           act_then (on_ready D) (\<lambda>_. act_return ()))
         else act_return ())) (\<lambda>_.
       act_with raft_node (\<lambda>node.
         if processed_ready \<and> rn_state (d_raft D) node = RoleLeader then check_and_send_snapshots
         else act_return ())))))"

definition handle_proposal :: "('n, 'db, 'tx, 'e, 's) deps \<Rightarrow> RaftProposal \<Rightarrow> (('n, 'db, 's) RaftManager, unit) action" where
  "handle_proposal D proposal =
     act_then (case rp_response_tx proposal of
         Some response_tx \<Rightarrow> act_update (\<lambda>m. m\<lparr>pending_proposals := (pending_proposals m)(rp_id proposal \<mapsto> response_tx)\<rparr>)
       | None \<Rightarrow> act_return ()) (\<lambda>_.
     case map_err (Serialization ''serialize proposal'') (bin_serialize (d_proposal D) (rp_data proposal)) of
       Inl e \<Rightarrow> act_fail e
     | Inr data \<Rightarrow> act_with raft_node (\<lambda>node.
         if rn_state (d_raft D) node \<noteq> RoleLeader
         then answer_pending (rp_id proposal) (Inl (NotLeader ''propose'' (leader_option (rn_leader_id (d_raft D) node))))
         else act_then (on_node_try from_raft_error (rn_propose (d_raft D) (rp_id proposal) data)) (\<lambda>_.
           act_then (on_ready D) (\<lambda>_. act_return ()))))"

text \<open>
  The ready state that \<open>handle_raft_message\<close> processes itself. What \<open>advance\<close> returns is dropped,
  a snapshot is not looked at, and of the committed entries only configuration changes are
  processed.
\<close>

definition process_ready_inline :: "('n, 'db, 'tx, 'e, 's) deps \<Rightarrow> Ready \<Rightarrow> (('n, 'db, 's) RaftManager, unit) action" where
  "process_ready_inline D ready =
     act_then (if rd_entries ready \<noteq> [] then on_db (redb_append (d_redb D) (d_codec D) (rd_entries ready)) else act_return ()) (\<lambda>_.
     act_then (save_ready_hard_state D ready) (\<lambda>_.
     act_then (act_each (\<lambda>msg. act_with manager_id (\<lambda>node. send_raft_message (fix_from node msg))) (rd_messages ready)) (\<lambda>_.
     act_then (act_each (\<lambda>msg. act_with manager_id (\<lambda>node. send_raft_message (fix_from node msg))) (rd_persisted_messages ready)) (\<lambda>_.
     act_then (act_each (\<lambda>entry. if entry_type entry = EntryConfChange then process_conf_change_entry D entry else act_return ())
         (rd_committed_entries ready)) (\<lambda>_.
     act_then (on_node (rn_advance (d_raft D) (ready\<lparr>rd_messages := [], rd_persisted_messages := [], rd_committed_entries := []\<rparr>))) (\<lambda>_.
       update_shared_state_status D))))))"

definition handle_raft_message :: "('n, 'db, 'tx, 'e, 's) deps \<Rightarrow> u64 \<Rightarrow> Message \<Rightarrow> (('n, 'db, 's) RaftManager, unit) action" where
  "handle_raft_message D sender msg =
     (let msg = (if msg_from msg = 0 \<or> msg_from msg \<noteq> sender then msg\<lparr>msg_from := sender\<rparr> else msg) in
     act_then (on_node_try (raft_failure ''step message'') (rn_step (d_raft D) msg)) (\<lambda>_.
     act_then (act_with raft_node (\<lambda>node.
         if rn_has_ready (d_raft D) node
         then act_then (on_node (rn_ready (d_raft D))) (\<lambda>ready. process_ready_inline D ready)
         else act_return ())) (\<lambda>_.
     act_then (on_ready D) (\<lambda>_. act_return ()))))"

section \<open>Bootstrap and the loop\<close>

definition has_join_address :: "('n, 'db, 's) RaftManager \<Rightarrow> bool" where
  "has_join_address m = (case shared_state m of Some shared \<Rightarrow> join_addr shared \<noteq> None | None \<Rightarrow> False)"

definition should_bootstrap :: "(u64 \<rightharpoonup> string) \<Rightarrow> bool \<Rightarrow> bool" where
  "should_bootstrap peers has_join_addr \<longleftrightarrow> peers = Map.empty \<and> \<not> has_join_addr"

definition bootstrap_single_node :: "('n, 'db, 'tx, 'e, 's) deps \<Rightarrow> (('n, 'db, 's) RaftManager, unit) action" where
  "bootstrap_single_node D = act_with has_join_address (\<lambda>joins.
     if joins then act_fail (Internal
       ''Cannot bootstrap when join_addr is configured - this node should join, not bootstrap'')
     else
       act_then (on_node (rn_campaign (d_raft D))) (\<lambda>_.
       act_then (on_ready D) (\<lambda>_.
       act_then (act_with raft_node (\<lambda>node.
           if rn_state (d_raft D) node = RoleLeader then on_node_try from_raft_error (rn_propose (d_raft D) [] [])
           else act_return ())) (\<lambda>_.
       act_then (on_ready D) (\<lambda>_. act_return ())))))"

text \<open>What \<open>run\<close> does before its loop.\<close>

definition run_start :: "('n, 'db, 'tx, 'e, 's) deps \<Rightarrow> (('n, 'db, 's) RaftManager, unit) action" where
  "run_start D = act_with id (\<lambda>m.
     if should_bootstrap (get_peers m) (has_join_address m) then bootstrap_single_node D else act_return ())"

text \<open>
  A node joining a cluster: the configuration it was given is applied as a snapshot at index 0.
\<close>

definition apply_initial_conf_state :: "('n, 'db, 'tx, 'e, 's) deps \<Rightarrow> ConfState \<Rightarrow> (('n, 'db, 's) RaftManager, unit) action" where
  "apply_initial_conf_state D conf_state = on_db (redb_apply_snapshot (d_redb D) (d_codec D) (d_snapshot D)
     \<lparr>snap_data = [], snap_metadata = Some \<lparr>sm_conf_state = Some conf_state, sm_index = 0, sm_term = 0\<rparr>\<rparr>)"

datatype event = Tick | ProposalEvent RaftProposal | MessageEvent u64 Message | ConfChangeEvent RaftConfChange

definition handle_event :: "('n, 'db, 'tx, 'e, 's) deps \<Rightarrow> event \<Rightarrow> (('n, 'db, 's) RaftManager, unit) action" where
  "handle_event D ev = (case ev of
     Tick \<Rightarrow> tick D
   | ProposalEvent proposal \<Rightarrow> handle_proposal D proposal
   | MessageEvent sender msg \<Rightarrow> handle_raft_message D sender msg
   | ConfChangeEvent change \<Rightarrow> handle_conf_change D change)"

section \<open>What the actions leave alone\<close>

text \<open>
  A property of the manager that does not depend on its database, its node, its peers or its
  shared state is kept by everything that only works on these.
\<close>

locale manager_frame =
  fixes I :: "('n, 'db, 's) RaftManager \<Rightarrow> bool"
  assumes db: "I m \<Longrightarrow> I (m\<lparr>manager_db := x1\<rparr>)"
    and node: "I m \<Longrightarrow> I (m\<lparr>raft_node := x2\<rparr>)"
    and peers: "I m \<Longrightarrow> I (m\<lparr>manager_peers := x3\<rparr>)"
    and replication: "I m \<Longrightarrow> I (m\<lparr>needs_replication := x4\<rparr>)"
    and compaction: "I m \<Longrightarrow> I (m\<lparr>last_compaction_index := x5\<rparr>)"
    and shared: "I m \<Longrightarrow> I (m\<lparr>shared_state := x6\<rparr>)"
begin

lemmas basic = keeps_on_db[where I = I, OF db] keeps_on_node[where I = I, OF node]
  keeps_on_node_try[where I = I, OF node]

lemma apply_conf_change: "keeps I (apply_conf_change D cc)"
  unfolding apply_conf_change_def update_local_peers_after_conf_change_def insert_peer_def remove_peer_def add_peer_with_p2p_def
  by (intro keeps_rules basic keeps_update) (auto intro: peers replication shared split: option.split)

lemma node_addition: "keeps I (handle_successful_node_addition D change)"
  unfolding handle_successful_node_addition_def insert_peer_def
  by (intro keeps_rules keeps_update) (auto intro: peers shared)

lemma process_snapshot: "keeps I (process_snapshot_if_present D ready)"
  unfolding process_snapshot_if_present_def Let_def by (intro keeps_rules basic)

lemma check_compaction: "keeps I (check_and_trigger_log_compaction D)"
  unfolding check_and_trigger_log_compaction_def perform_log_compaction_def Let_def
  by (intro keeps_rules keeps_update) (auto intro: db compaction split: prod.split sum.split)

lemma update_status: "keeps I (update_shared_state_status D)"
  unfolding update_shared_state_status_def by (intro keeps_update) (auto intro: shared split: option.split)

lemma save_entries: "keeps I (save_entries_to_storage D ready)"
  unfolding save_entries_to_storage_def by (intro keeps_rules basic)

lemma save_hard_state: "keeps I (save_ready_hard_state D ready)"
  unfolding save_ready_hard_state_def by (intro keeps_rules basic)

lemmas save_ready = save_entries save_hard_state

lemma replication_trigger: "keeps I needs_replication_trigger"
  unfolding needs_replication_trigger_def by (intro keeps_rules keeps_update) (auto intro: replication)

end

text \<open>A property that also survives answering a pending proposal is kept by applying entries.\<close>

locale answering_frame = manager_frame I for I :: "('n, 'db, 's) RaftManager \<Rightarrow> bool" +
  assumes machine: "I m \<Longrightarrow> I (m\<lparr>machine_state := x7\<rparr>)"
    and answer: "I m \<Longrightarrow> I (snd (answer_pending k r m))"
begin

lemma answered: "keeps I (answer_pending k r)"
  by (simp add: keeps_def answer)

lemma normal_entry: "keeps I (process_normal_entry D entry)"
  by (auto simp: keeps_def process_normal_entry_def split: prod.split intro!: answer db machine)

lemma conf_change_entry: "keeps I (process_conf_change_entry D entry)"
  unfolding process_conf_change_entry_def Let_def by (intro keeps_rules answered apply_conf_change)

lemma entry: "keeps I (process_entry D entry)"
  unfolding process_entry_def by (intro keeps_rules normal_entry conf_change_entry)

lemma committed_entries: "keeps I (process_committed_entries D entries)"
  unfolding process_committed_entries_def by (intro keeps_rules entry)

lemma newly_committed: "keeps I (handle_newly_committed_entries D i had)"
  unfolding handle_newly_committed_entries_def Let_def
  by (intro keeps_rules entry keeps_update) (auto intro: node)

end

text \<open>And one that survives sending is kept by whole handlers.\<close>

locale sending_frame = answering_frame I for I :: "('n, 'db, 's) RaftManager \<Rightarrow> bool" +
  assumes sent: "I m \<Longrightarrow> I (m\<lparr>outgoing := x8\<rparr>)"
begin

lemma send: "keeps I (send_raft_message msg)"
  unfolding send_raft_message_def Let_def by (intro keeps_update) (auto intro: sent)

lemma advance: "keeps I (advance_raft_node D ready i)"
  unfolding advance_raft_node_def by (intro keeps_rules basic send newly_committed)

lemma ready: "keeps I (on_ready D)"
  unfolding on_ready_def process_ready_def send_messages_to_peers_def
  by (intro keeps_rules basic process_snapshot save_ready send committed_entries advance check_compaction update_status)

lemma ready_inline: "keeps I (process_ready_inline D rd)"
  unfolding process_ready_inline_def
  by (intro keeps_rules basic save_ready send conf_change_entry update_status)

lemma ticked: "keeps I (tick D)"
  unfolding tick_def check_and_send_snapshots_def
  by (intro keeps_rules keeps_update ready replication_trigger) (auto intro: node)

lemma message: "keeps I (handle_raft_message D sender msg)"
  unfolding handle_raft_message_def Let_def by (intro keeps_rules basic ready ready_inline)

end

section \<open>Every request is answered at most once\<close>

text \<open>
  No channel was answered twice, none that was answered is still pending, and no two
  proposals wait on one channel.
\<close>

definition answers_ok :: "('n, 'db, 's) RaftManager \<Rightarrow> bool" where
  "answers_ok m \<longleftrightarrow> distinct (map fst (answers m))
     \<and> (\<forall>k ch. pending_proposals m k = Some ch \<longrightarrow> ch \<notin> fst ` set (answers m))
     \<and> (\<forall>k k' ch. pending_proposals m k = Some ch \<longrightarrow> pending_proposals m k' = Some ch \<longrightarrow> k = k')"

definition event_channel :: "event \<Rightarrow> channel option" where
  "event_channel ev = (case ev of ProposalEvent proposal \<Rightarrow> rp_response_tx proposal
     | ConfChangeEvent change \<Rightarrow> cc_response_tx change | _ \<Rightarrow> None)"

text \<open>A channel that the manager has not seen.\<close>

definition unused :: "channel option \<Rightarrow> ('n, 'db, 's) RaftManager \<Rightarrow> bool" where
  "unused tx m \<longleftrightarrow> (case tx of None \<Rightarrow> True
     | Some ch \<Rightarrow> ch \<notin> fst ` set (answers m) \<and> ch \<notin> ran (pending_proposals m))"

text \<open>
  The loop of the manager, over any events whose response channels are new. It would stop at
  an error; the relation lets it go on.
\<close>

inductive manager_step :: "('n, 'db, 'tx, 'e, 's) deps \<Rightarrow> ('n, 'db, 's) RaftManager \<Rightarrow> event \<Rightarrow> ('n, 'db, 's) RaftManager \<Rightarrow> bool"
  for D where
  handled: "unused (event_channel ev) m \<Longrightarrow> handle_event D ev m = (r, m') \<Longrightarrow> manager_step D m ev m'"

definition manager_init :: "('n, 'db, 's) RaftManager \<Rightarrow> bool" where
  "manager_init m \<longleftrightarrow> answers m = [] \<and> pending_proposals m = Map.empty"

lemma answer_pending_ok: "answers_ok m \<Longrightarrow> answers_ok (snd (answer_pending k r m))"
  by (cases "pending_proposals m k") (auto simp: answer_pending_def respond_def answers_ok_def)

interpretation answers_frame: sending_frame answers_ok
  by unfold_locales (simp_all add: answer_pending_ok, simp_all add: answers_ok_def)

interpretation unused_frame: manager_frame "\<lambda>m. answers_ok m \<and> unused tx m" for tx
  by unfold_locales (simp_all add: answers_ok_def unused_def split: option.splits)

lemma respond_ok: "answers_ok m \<Longrightarrow> unused tx m \<Longrightarrow> answers_ok (snd (respond tx r m))"
  by (cases tx) (auto simp: respond_def answers_ok_def unused_def ran_def)

lemma keeps_then_leads:
  assumes "keeps I f" and "\<And>m. I m \<Longrightarrow> P m" and "\<And>a m. I m \<Longrightarrow> P (snd (g a m))" and "I m"
  shows "P (snd (act_then f g m))"
proof -
  obtain r m' where f: "f m = (r, m')" by (cases "f m")
  then have "I m'" using keepsD[OF assms(1,4)] by blast
  with assms(2,3) f show ?thesis by (cases r) (simp_all add: act_then_def)
qed

lemma handle_conf_change_ok:
  fixes m :: "('n, 'db, 's) RaftManager"
  assumes "answers_ok m" and "unused (cc_response_tx change) m"
  shows "answers_ok (snd (handle_conf_change D change m))"
proof -
  let ?I = "\<lambda>m :: ('n, 'db, 's) RaftManager. answers_ok m \<and> unused (cc_response_tx change) m"
  have respond: "?I m \<Longrightarrow> answers_ok (snd (respond (cc_response_tx change) r m))" for m r
    by (simp add: respond_ok)
  have added: "keeps ?I (case change_type change of AddNode \<Rightarrow> handle_successful_node_addition D change | RemoveNode \<Rightarrow> act_return ())"
    by (cases "change_type change") (auto intro: keeps_rules unused_frame.node_addition)
  have single: "keeps ?I (act_with raft_node (\<lambda>n. if is_single_node_cluster n then apply_conf_change_immediately D cc else act_return ()))" for cc
    by (intro keeps_rules) (simp_all add: is_single_node_cluster_def)
  have proposed: "answers_ok (snd (change_proposed D change cc m))" if "?I m" for cc m
    unfolding change_proposed_def
  proof (rule keeps_then_leads[OF single _ _ that])
    fix m :: "('n, 'db, 's) RaftManager" and a :: unit assume I: "?I m"
    show "answers_ok (snd (act_then (case change_type change of AddNode \<Rightarrow> handle_successful_node_addition D change
        | RemoveNode \<Rightarrow> act_return ()) (\<lambda>_. respond (cc_response_tx change) (Inr ())) m))"
      by (rule keeps_then_leads[OF added _ _ I]) (simp_all only: respond simp_thms)
  qed simp
  let ?propose = "\<lambda>cc. act_then (on_node (rn_propose_conf_change (d_raft D) [] cc)) (\<lambda>r. case r of
      Inr _ \<Rightarrow> change_proposed D change cc
    | Inl e \<Rightarrow> respond (cc_response_tx change) (Inl (raft_failure ''propose configuration change'' e)))"
  have propose: "answers_ok (snd (?propose cc m))" for cc
    by (rule keeps_then_leads[where I = ?I, OF unused_frame.basic(2)]) (auto simp: assms intro: respond proposed split: sum.split)
  show ?thesis
    using assms respond propose by (simp add: handle_conf_change_def Let_def split: sum.split)
qed

lemma handle_proposal_ok:
  assumes "answers_ok m" and "unused (rp_response_tx proposal) m"
  shows "answers_ok (snd (handle_proposal D proposal m))"
proof -
  define g where "g = (\<lambda>_ :: unit. case map_err (Serialization ''serialize proposal'') (bin_serialize (d_proposal D) (rp_data proposal)) of
       Inl e \<Rightarrow> act_fail e
     | Inr data \<Rightarrow> act_with raft_node (\<lambda>node.
         if rn_state (d_raft D) node \<noteq> RoleLeader
         then answer_pending (rp_id proposal) (Inl (NotLeader ''propose'' (leader_option (rn_leader_id (d_raft D) node))))
         else act_then (on_node_try from_raft_error (rn_propose (d_raft D) (rp_id proposal) data)) (\<lambda>_.
           act_then (on_ready D) (\<lambda>_. act_return ()))))"
  have g: "keeps answers_ok (g u)" for u
    unfolding g_def by (intro keeps_rules answers_frame.basic answers_frame.answered answers_frame.ready)
  show ?thesis
  proof (cases "rp_response_tx proposal")
    case None
    with assms(1) g[of "()"] show ?thesis by (simp add: handle_proposal_def g_def[symmetric] keeps_def)
  next
    case (Some ch)
    with assms have "answers_ok (m\<lparr>pending_proposals := (pending_proposals m)(rp_id proposal \<mapsto> ch)\<rparr>)"
      by (auto simp: answers_ok_def unused_def ran_def)
    with g[of "()"] Some show ?thesis by (simp add: handle_proposal_def g_def[symmetric] keeps_def)
  qed
qed

lemma manager_step_ok: "answers_ok m \<Longrightarrow> manager_step D m ev m' \<Longrightarrow> answers_ok m'"
proof (erule manager_step.cases)
  fix ev' m1 r m2
  assume "answers_ok m" "m = m1" "ev = ev'" "m' = m2" "unused (event_channel ev') m1" "handle_event D ev' m1 = (r, m2)"
  then have "answers_ok m1" "unused (event_channel ev') m1" "m2 = snd (handle_event D ev' m1)" by simp_all
  then have "answers_ok m2"
    using answers_frame.ticked[of D] answers_frame.message[of D]
    by (cases ev') (simp_all add: handle_event_def event_channel_def handle_conf_change_ok handle_proposal_ok keeps_def)
  with \<open>m' = m2\<close> show "answers_ok m'" by simp
qed

interpretation answers: invariant_of manager_init "manager_step D" answers_ok for D
  by unfold_locales (simp add: manager_init_def answers_ok_def, erule (1) manager_step_ok)

text \<open>The channels that the manager holds or has answered come from its events.\<close>

definition known_channels :: "('n, 'db, 's) RaftManager \<Rightarrow> channel set" where
  "known_channels m = fst ` set (answers m) \<union> ran (pending_proposals m)"

lemma answer_pending_known: "known_channels (snd (answer_pending k r m)) \<subseteq> known_channels m"
  by (cases "pending_proposals m k") (auto simp: answer_pending_def respond_def known_channels_def ran_def split: if_splits)

interpretation known_frame: sending_frame "\<lambda>m. known_channels m \<subseteq> C" for C
proof unfold_locales
  show "known_channels m \<subseteq> C \<Longrightarrow> known_channels (snd (answer_pending k r m)) \<subseteq> C" for C m k r
    using answer_pending_known by (rule subset_trans)
qed (simp_all add: known_channels_def)

lemma respond_known: "set_option tx \<subseteq> C \<Longrightarrow> keeps (\<lambda>m. known_channels m \<subseteq> C) (respond tx r)"
  by (cases tx) (auto simp: respond_def keeps_def known_channels_def)

lemma handle_event_known:
  assumes "set_option (event_channel ev) \<subseteq> C"
  shows "keeps (\<lambda>m. known_channels m \<subseteq> C) (handle_event D ev)"
proof (cases ev)
  case (ProposalEvent proposal)
  with assms have "keeps (\<lambda>m. known_channels m \<subseteq> C) (act_update (\<lambda>m. m\<lparr>pending_proposals := (pending_proposals m)(rp_id proposal \<mapsto> tx)\<rparr>))"
    if "rp_response_tx proposal = Some tx" for tx
    using that by (intro keeps_update) (auto simp: known_channels_def event_channel_def ran_def split: if_splits)
  then show ?thesis
    unfolding ProposalEvent handle_event_def handle_proposal_def event.case
    by (intro keeps_rules known_frame.basic known_frame.answered known_frame.ready)
next
  case (ConfChangeEvent change)
  with assms have "keeps (\<lambda>m. known_channels m \<subseteq> C) (respond (cc_response_tx change) r)" for r
    by (simp add: respond_known event_channel_def)
  then show ?thesis
    unfolding ConfChangeEvent handle_event_def handle_conf_change_def change_proposed_def apply_conf_change_immediately_def
      is_single_node_cluster_def Let_def event.case
    by (intro keeps_rules known_frame.basic known_frame.node_addition)
      (simp_all add: keeps_return known_frame.node_addition split: ConfChangeType.split)
qed (simp_all add: handle_event_def known_frame.ticked known_frame.message)

definition event_channels :: "event list \<Rightarrow> channel set" where
  "event_channels evs = (\<Union>ev \<in> set evs. set_option (event_channel ev))"

lemma run_known:
  "run (manager_step D) m evs m' \<Longrightarrow> event_channels evs \<subseteq> C \<Longrightarrow> known_channels m \<subseteq> C \<Longrightarrow> known_channels m' \<subseteq> C"
proof (induction rule: run.induct)
  case (run_step m ev m1 evs m2)
  from run_step.hyps(1) obtain r where "handle_event D ev m = (r, m1)" by (rule manager_step.cases) blast
  moreover have "keeps (\<lambda>m. known_channels m \<subseteq> C) (handle_event D ev)"
    using run_step.prems(1) by (intro handle_event_known) (simp add: event_channels_def)
  ultimately have "known_channels m1 \<subseteq> C" using run_step.prems(2) by (metis keepsD)
  with run_step.IH run_step.prems(1) show ?case by (simp add: event_channels_def)
qed

text \<open>
  C1: whatever the loop of the manager handles, no request is answered twice: a channel that was
  answered is not pending any more, and the answers and the pending proposals are all
  to channels that came with an event. This holds for every interleaving of ticks,
  proposals, messages and configuration changes, errors included, and whatever the raft crate,
  the database and the state machine do.
\<close>

theorem requests_answered_once:
  assumes "manager_init m0" and "run (manager_step D) m0 evs m"
  shows "distinct (map fst (answers m)) \<and> fst ` set (answers m) \<inter> ran (pending_proposals m) = {}
    \<and> fst ` set (answers m) \<union> ran (pending_proposals m) \<subseteq> event_channels evs"
proof (intro conjI)
  have "answers_ok m" using answers.run_keeps[OF assms(2) answers.base[OF assms(1)]] .
  then show "distinct (map fst (answers m))" and "fst ` set (answers m) \<inter> ran (pending_proposals m) = {}"
    by (auto simp: answers_ok_def ran_def)
  show "fst ` set (answers m) \<union> ran (pending_proposals m) \<subseteq> event_channels evs"
    using run_known[OF assms(2) subset_refl] assms(1) by (simp add: manager_init_def known_channels_def)
qed

text \<open>A follower that is asked to propose.\<close>

definition sample_proposal :: RaftProposal where
  "sample_proposal = raft_proposal_with_response ''first'' 7 Noop"

theorem requests_answered_once_witness:
  "\<exists>m. run (manager_step script_deps) (script_manager RoleFollower []) [ProposalEvent sample_proposal] m
    \<and> answers m = [(7, Inl (NotLeader ''propose'' (Some 1)))] \<and> distinct (map fst (answers m))"
proof -
  let ?m = "(script_manager RoleFollower [])\<lparr>answers := [(7, Inl (NotLeader ''propose'' (Some 1)))]\<rparr>"
  have "handle_event script_deps (ProposalEvent sample_proposal) (script_manager RoleFollower []) = (Inr (), ?m)"
    by (simp add: handle_event_def handle_proposal_def sample_proposal_def raft_proposal_with_response_def
        answer_pending_def respond_def leader_option_def script_defs)
  then have run: "run (manager_step script_deps) (script_manager RoleFollower []) [ProposalEvent sample_proposal] ?m"
    by (intro run_step run_done manager_step.handled)
      (simp_all add: unused_def event_channel_def sample_proposal_def raft_proposal_with_response_def script_manager_def)
  have "manager_init (script_manager RoleFollower [])" by (simp add: manager_init_def script_manager_def)
  from requests_answered_once [OF this run] run show ?thesis by (intro exI[of _ ?m]) simp
qed

section \<open>What a ready state leads to\<close>

text \<open>A message as the transport gets it.\<close>

definition addressed :: "u64 \<Rightarrow> Message \<Rightarrow> u64 \<times> Message" where
  "addressed node msg = (msg_to msg, fix_from node msg)"

lemma fix_from_to [simp]: "msg_to (fix_from node msg) = msg_to msg"
  by (simp add: fix_from_def)

lemma fix_from_again [simp]: "fix_from node (fix_from node msg) = fix_from node msg"
  by (simp add: fix_from_def)

definition sending :: "('n, 'db, 's) RaftManager \<Rightarrow> (u64 \<times> Message) list \<times> bool \<times> u64" where
  "sending m = (outgoing m, outgoing_open m, manager_id m)"

definition serving :: "('n, 'db, 's) RaftManager \<Rightarrow> 's \<times> (bytes \<rightharpoonup> channel) \<times> (channel \<times> (RaftError + unit)) list" where
  "serving m = (machine_state m, pending_proposals m, answers m)"

interpretation sending_frame_of: answering_frame "\<lambda>m. sending m = x" for x
  by unfold_locales (simp_all add: sending_def answer_pending_def respond_def act_with_def split: option.split)

interpretation serving_frame_of: manager_frame "\<lambda>m. serving m = x" for x
  by unfold_locales (simp_all add: serving_def)

lemma keeps_same: "(\<And>x. keeps (\<lambda>m. h m = x) f) \<Longrightarrow> f m = (r, m') \<Longrightarrow> h m' = h m"
  unfolding keeps_def by (metis snd_conv)

lemma send_raft_message_open:
  "outgoing_open m \<Longrightarrow> send_raft_message msg m = (Inr (), m\<lparr>outgoing := outgoing m @ [addressed (manager_id m) msg]\<rparr>)"
  by (simp add: send_raft_message_def Let_def addressed_def)

lemma send_each:
  "outgoing_open m \<Longrightarrow> act_each send_raft_message msgs m
     = (Inr (), m\<lparr>outgoing := outgoing m @ map (addressed (manager_id m)) msgs\<rparr>)"
proof (induction msgs arbitrary: m)
  case (Cons msg msgs)
  then show ?case by (simp add: act_then_ok[OF send_raft_message_open])
qed simp

lemma send_each_inline:
  "outgoing_open m \<Longrightarrow> act_each (\<lambda>msg. act_with manager_id (\<lambda>node. send_raft_message (fix_from node msg))) msgs m
     = (Inr (), m\<lparr>outgoing := outgoing m @ map (addressed (manager_id m)) msgs\<rparr>)"
proof (induction msgs arbitrary: m)
  case (Cons msg msgs)
  then show ?case by (simp add: act_then_ok[OF send_raft_message_open] addressed_def)
qed simp

lemma advance_sends:
  assumes "advance_raft_node D ready i m = (Inr (), m')" and "outgoing_open m"
  obtains light n where "rn_advance (d_raft D) ready (manager_db m) (raft_node m) = (light, n)"
    and "sending m' = (outgoing m @ map (addressed (manager_id m)) (lr_messages light), True, manager_id m)"
proof -
  obtain light n where adv: "rn_advance (d_raft D) ready (manager_db m) (raft_node m) = (light, n)"
    by (cases "rn_advance (d_raft D) ready (manager_db m) (raft_node m)")
  let ?m1 = "m\<lparr>raft_node := n, outgoing := outgoing m @ map (addressed (manager_id m)) (lr_messages light)\<rparr>"
  let ?rest = "act_then (case lr_commit_index light of
         Some commit_index \<Rightarrow> act_with (\<lambda>m. rn_hard_state (d_raft D) (raft_node m)) (\<lambda>hs.
           act_then (on_db (redb_save_hard_state (d_redb D) (d_codec D) (hs\<lparr>hs_commit := commit_index\<rparr>))) (\<lambda>_.
             act_return True))
       | None \<Rightarrow> act_return False) (\<lambda>had. handle_newly_committed_entries D i had)"
  from assms(1) have "act_then (act_each send_raft_message (lr_messages light)) (\<lambda>_. ?rest) (m\<lparr>raft_node := n\<rparr>) = (Inr (), m')"
    unfolding advance_raft_node_def act_then_on_node[of "rn_advance (d_raft D) ready", OF adv] .
  then have "?rest ?m1 = (Inr (), m')"
    using send_each[of "m\<lparr>raft_node := n\<rparr>" "lr_messages light"] assms(2) by (simp add: act_then_ok)
  moreover have "keeps (\<lambda>m. sending m = x) ?rest" for x
    by (intro keeps_rules sending_frame_of.basic sending_frame_of.newly_committed)
  ultimately have "sending m' = sending ?m1" by (rule keeps_same[rotated])
  with adv assms(2) show ?thesis by (intro that) (simp_all add: sending_def)
qed

text \<open>
  C28: a ready state that \<open>on_ready\<close> has processed sent its \<open>messages\<close>, each with its sender filled in,
  in order, and then those that \<open>advance\<close> returned, and no other: its
  \<open>persisted_messages\<close>, the votes and acknowledgements of a node that is not the leader, are
  never sent.
\<close>

theorem messages_sent:
  assumes "rn_has_ready (d_raft D) (raft_node m)" and "rn_ready (d_raft D) (manager_db m) (raft_node m) = (ready, n)"
    and "outgoing_open m" and "on_ready D m = (Inr b, m')"
  shows "\<exists>db n1 n2 light.
      rn_advance (d_raft D) (ready\<lparr>rd_messages := [], rd_committed_entries := []\<rparr>) db n1 = (light, n2)
    \<and> outgoing m' = outgoing m @ map (addressed (manager_id m)) (rd_messages ready @ lr_messages light)"
proof -
  let ?rd = "ready\<lparr>rd_messages := [], rd_committed_entries := []\<rparr>"
  from assms(1,4) have "process_ready D ready (m\<lparr>raft_node := n\<rparr>) = (Inr b, m')"
    by (simp add: on_ready_def act_then_on_node[of "rn_ready (d_raft D)", OF assms(2)])
  then obtain m1 m2 m3 m4 i m5 m6 m7 where
    saved: "process_snapshot_if_present D ready (m\<lparr>raft_node := n\<rparr>) = (Inr (), m1)"
      "save_entries_to_storage D ready m1 = (Inr (), m2)" "save_ready_hard_state D ready m2 = (Inr (), m3)"
    and send: "act_each send_raft_message (rd_messages ready) m3 = (Inr (), m4)"
    and entries: "process_committed_entries D (rd_committed_entries ready) m4 = (Inr i, m5)"
    and adv: "advance_raft_node D ?rd i m5 = (Inr (), m6)"
    and compacted: "check_and_trigger_log_compaction D m6 = (Inr (), m7)"
    and updated: "update_shared_state_status D m7 = (Inr (), m')"
    unfolding process_ready_def send_messages_to_peers_def by (elim act_then_InrE) simp
  note same = keeps_same[where h = sending]
  have m3: "sending m3 = sending m"
    using same[OF sending_frame_of.process_snapshot saved(1)] same[OF sending_frame_of.save_entries saved(2)]
      same[OF sending_frame_of.save_hard_state saved(3)] by (simp add: sending_def)
  have m4: "sending m4 = (outgoing m @ map (addressed (manager_id m)) (rd_messages ready), True, manager_id m)"
    using send m3 assms(3) by (simp add: send_each sending_def) auto
  have m5: "sending m5 = sending m4" by (rule same[OF sending_frame_of.committed_entries entries])
  with m4 have "outgoing_open m5" by (simp add: sending_def)
  with adv obtain light n2 where light: "rn_advance (d_raft D) ?rd (manager_db m5) (raft_node m5) = (light, n2)"
    "sending m6 = (outgoing m5 @ map (addressed (manager_id m5)) (lr_messages light), True, manager_id m5)"
    by (rule advance_sends)
  have "sending m' = sending m6"
    using same[OF sending_frame_of.check_compaction compacted] same[OF sending_frame_of.update_status updated] by simp
  with light m4 m5 show ?thesis by (intro exI conjI) (auto simp: sending_def)
qed

text \<open>What a ready state brings into the database, each part when there is one.\<close>

definition record_snapshot :: "('n, 'db, 'tx, 'e, 's) deps \<Rightarrow> Ready \<Rightarrow> 'db \<Rightarrow> (RaftError + unit) \<times> 'db" where
  "record_snapshot D ready db = (if snapshot_is_empty (rd_snapshot ready) then (Inr (), db)
     else redb_apply_snapshot (d_redb D) (d_codec D) (d_snapshot D) (rd_snapshot ready) db)"

definition load_snapshot :: "('n, 'db, 'tx, 'e, 's) deps \<Rightarrow> Ready \<Rightarrow> 'db \<Rightarrow> (RaftError + unit) \<times> 'db" where
  "load_snapshot D ready db = (if snapshot_is_empty (rd_snapshot ready) \<or> snap_data (rd_snapshot ready) = [] then (Inr (), db)
     else apply_snapshot_to_state_machine D (snap_data (rd_snapshot ready)) db)"

definition store_entries :: "('n, 'db, 'tx, 'e, 's) deps \<Rightarrow> Ready \<Rightarrow> 'db \<Rightarrow> (RaftError + unit) \<times> 'db" where
  "store_entries D ready db = (if rd_entries ready = [] then (Inr (), db)
     else redb_append (d_redb D) (d_codec D) (rd_entries ready) db)"

definition store_hard_state :: "('n, 'db, 'tx, 'e, 's) deps \<Rightarrow> Ready \<Rightarrow> 'db \<Rightarrow> (RaftError + unit) \<times> 'db" where
  "store_hard_state D ready db = (case rd_hs ready of None \<Rightarrow> (Inr (), db)
     | Some hs \<Rightarrow> redb_save_hard_state (d_redb D) (d_codec D) hs db)"

lemma saving_on_db:
  "process_snapshot_if_present D ready = act_then (on_db (record_snapshot D ready)) (\<lambda>_. on_db (load_snapshot D ready))"
  "save_entries_to_storage D ready = on_db (store_entries D ready)"
  "save_ready_hard_state D ready = on_db (store_hard_state D ready)"
  by (auto simp: fun_eq_iff process_snapshot_if_present_def save_entries_to_storage_def save_ready_hard_state_def on_db_def
      record_snapshot_def load_snapshot_def store_entries_def store_hard_state_def Let_def act_then_apply
      split: option.splits prod.splits sum.splits)

lemma on_db_then:
  assumes "act_then (on_db f) g m = (r, m')" and "x m' \<noteq> x m" and "\<And>m db. x (m\<lparr>manager_db := db\<rparr>) = x m"
  obtains a db where "f (manager_db m) = (Inr a, db)" and "g a (m\<lparr>manager_db := db\<rparr>) = (r, m')" and "x m' \<noteq> x (m\<lparr>manager_db := db\<rparr>)"
  using assms by (auto simp: act_then_def on_db_def split: prod.splits sum.splits)

text \<open>
  C5: nothing is sent, no committed entry is applied and no proposal is answered for a ready state before what it brings is in the
  database. When anything was, its snapshot was installed and loaded into the state tables, its entries were appended and its hard
  state was saved, each if there is one, in this order and all with success.
\<close>

theorem nothing_sent_unless_saved:
  assumes "rn_ready (d_raft D) (manager_db m) (raft_node m) = (ready, n)"
    and "on_ready D m = (r, m')" and "outgoing m' \<noteq> outgoing m \<or> serving m' \<noteq> serving m"
  shows "\<exists>db1 db2 db3 db4. record_snapshot D ready (manager_db m) = (Inr (), db1) \<and> load_snapshot D ready db1 = (Inr (), db2)
    \<and> store_entries D ready db2 = (Inr (), db3) \<and> store_hard_state D ready db3 = (Inr (), db4)"
proof -
  let ?m = "m\<lparr>raft_node := n\<rparr>" and ?x = "\<lambda>m. (outgoing m, serving m)"
  have "rn_has_ready (d_raft D) (raft_node m)"
    using assms(2,3) by (auto simp: on_ready_def split: if_splits)
  then have "process_ready D ready ?m = (r, m')"
    using assms(2) by (simp add: on_ready_def act_then_on_node[of "rn_ready (d_raft D)", OF assms(1)])
  then have run: "act_then (on_db (record_snapshot D ready)) (\<lambda>_. act_then (on_db (load_snapshot D ready)) (\<lambda>_.
      act_then (on_db (store_entries D ready)) (\<lambda>_. act_then (on_db (store_hard_state D ready)) (\<lambda>_.
      act_then (send_messages_to_peers (rd_messages ready)) (\<lambda>_.
      act_then (process_committed_entries D (rd_committed_entries ready)) (\<lambda>i.
      act_then (advance_raft_node D (ready\<lparr>rd_messages := [], rd_committed_entries := []\<rparr>) i) (\<lambda>_.
      act_then (check_and_trigger_log_compaction D) (\<lambda>_.
      act_then (update_shared_state_status D) (\<lambda>_. act_return True))))))))) ?m = (r, m')"
    by (simp add: process_ready_def saving_on_db)
  have changed: "?x m' \<noteq> ?x ?m" using assms(3) by (auto simp: serving_def)
  have frame: "?x (m\<lparr>manager_db := db\<rparr>) = ?x m" for m :: "('n, 'db, 's) RaftManager" and db by (simp add: serving_def)
  show ?thesis
    by (rule on_db_then[where x = ?x, OF run changed frame], erule on_db_then[where x = ?x, OF _ _ frame], assumption,
        erule on_db_then[where x = ?x, OF _ _ frame], assumption, erule on_db_then[where x = ?x, OF _ _ frame], assumption) auto
qed

lemma act_each_skip: "(\<forall>x \<in> set xs. f x = act_return ()) \<Longrightarrow> act_each f xs m = (Inr (), m)"
  by (induction xs) auto

definition core :: "('n, 'db, 's) RaftManager \<Rightarrow> _" where
  "core m = (sending m, serving m, raft_node m)"

text \<open>
  The ready state that \<open>handle_raft_message\<close> processes itself sends both kinds of messages, but
  applies no entry: when no configuration change is among its committed entries, they reach
  neither the state machine nor the proposals waiting for them, and the node is
  told that they are applied nonetheless. What \<open>advance\<close> returns is not sent.
\<close>

theorem inline_ready_skips_entries:
  assumes "process_ready_inline D ready m = (Inr (), m')" and "outgoing_open m"
    and "\<forall>entry \<in> set (rd_committed_entries ready). entry_type entry \<noteq> EntryConfChange"
  shows "serving m' = serving m
    \<and> outgoing m' = outgoing m @ map (addressed (manager_id m)) (rd_messages ready @ rd_persisted_messages ready)
    \<and> (\<exists>db light. rn_advance (d_raft D) (ready\<lparr>rd_messages := [], rd_persisted_messages := [], rd_committed_entries := []\<rparr>)
         db (raft_node m) = (light, raft_node m'))"
proof -
  let ?rd = "ready\<lparr>rd_messages := [], rd_persisted_messages := [], rd_committed_entries := []\<rparr>"
  have skip: "act_each (\<lambda>entry. if entry_type entry = EntryConfChange then process_conf_change_entry D entry else act_return ())
      (rd_committed_entries ready) x = (Inr (), x)" for x
    using assms(3) by (simp add: act_each_skip)
  let ?send = "act_each (\<lambda>msg. act_with manager_id (\<lambda>node. send_raft_message (fix_from node msg)))"
  from assms(1) obtain m1 m2 m3 m4 m5 m6 light where
    append: "(if rd_entries ready \<noteq> [] then on_db (redb_append (d_redb D) (d_codec D) (rd_entries ready)) else act_return ()) m = (Inr (), m1)"
    and saved: "save_ready_hard_state D ready m1 = (Inr (), m2)"
    and send: "?send (rd_messages ready) m2 = (Inr (), m3)" "?send (rd_persisted_messages ready) m3 = (Inr (), m4)"
    and each: "act_each (\<lambda>entry. if entry_type entry = EntryConfChange then process_conf_change_entry D entry else act_return ())
      (rd_committed_entries ready) m4 = (Inr (), m5)"
    and adv: "on_node (rn_advance (d_raft D) ?rd) m5 = (Inr light, m6)"
    and updated: "update_shared_state_status D m6 = (Inr (), m')"
    unfolding process_ready_inline_def by (elim act_then_InrE) simp
  have "keeps (\<lambda>m. core m = x) (if rd_entries ready \<noteq> [] then on_db (redb_append (d_redb D) (d_codec D) (rd_entries ready)) else act_return ())" for x
    by (intro keeps_rules keeps_on_db) (simp add: core_def sending_def serving_def)
  moreover have "keeps (\<lambda>m. core m = x) (save_ready_hard_state D ready)" for x
    unfolding save_ready_hard_state_def by (intro keeps_rules keeps_on_db) (simp add: core_def sending_def serving_def)
  ultimately have m2: "core m2 = core m" using keeps_same[where h = core] append saved by metis
  then have "sending m2 = sending m" "serving m2 = serving m" "raft_node m2 = raft_node m" by (simp_all add: core_def)
  moreover have "outgoing_open m2" using calculation(1) assms(2) by (auto simp: sending_def)
  ultimately have m4: "serving m4 = serving m" "raft_node m4 = raft_node m"
    "outgoing m4 = outgoing m @ map (addressed (manager_id m)) (rd_messages ready @ rd_persisted_messages ready)"
    using send by (auto simp: send_each_inline sending_def serving_def)
  have "m5 = m4" using each by (simp add: skip)
  with adv have m6: "serving m6 = serving m4" "outgoing m6 = outgoing m4"
    "rn_advance (d_raft D) ?rd (manager_db m4) (raft_node m4) = (light, raft_node m6)"
    by (auto simp: on_node_def serving_def split: prod.splits)
  have "serving m' = serving m6" "outgoing m' = outgoing m6" "raft_node m' = raft_node m6"
    using updated by (auto simp: update_shared_state_status_def serving_def split: option.splits)
  with m4 m6 show ?thesis by auto
qed

section \<open>Examples\<close>

text \<open>A node that is not the leader and has a vote to send, which the raft crate puts into the persisted messages.\<close>

definition vote :: Message where
  "vote = \<lparr>msg_type = MsgRequestVoteResponse, msg_to = 2, msg_from = 0, msg_body = []\<rparr>"

definition beat :: Message where
  "beat = \<lparr>msg_type = MsgHeartbeat, msg_to = 3, msg_from = 0, msg_body = []\<rparr>"

definition busy_ready :: Ready where
  "busy_ready = empty_ready\<lparr>rd_messages := [beat], rd_persisted_messages := [vote],
     rd_committed_entries := [sample_entry 1 [7]]\<rparr>"

lemmas evaluate = on_ready_def process_ready_def act_then_apply on_node_def on_db_def process_snapshot_if_present_def
  save_entries_to_storage_def save_ready_hard_state_def send_messages_to_peers_def send_raft_message_def
  process_committed_entries_def process_entry_def process_normal_entry_def sample_entry_def EntryNormal_def
  EntryConfChange_def last_entry_index_def advance_raft_node_def busy_ready_def handle_newly_committed_entries_def
  check_and_trigger_log_compaction_def update_shared_state_status_def process_ready_inline_def
  snapshot_is_empty_def get_metadata_def should_compact_def COMPACTION_THRESHOLD_def Let_def
  script_deps_simps script_raft_simps empty_ready_def script_manager_def addressed_def serving_def

theorem messages_sent_witness:
  "\<exists>m'. on_ready script_deps (script_manager RoleFollower [busy_ready]) = (Inr True, m')
    \<and> outgoing m' = [(3, beat\<lparr>msg_from := 1\<rparr>)] \<and> machine_state m' = [7]"
proof -
  let ?m = "script_manager RoleFollower [busy_ready]"
  have "\<exists>m'. on_ready script_deps ?m = (Inr True, m') \<and> machine_state m' = [7]" by (simp add: evaluate)
  then obtain m' where m': "on_ready script_deps ?m = (Inr True, m')" "machine_state m' = [7]" by blast
  have "outgoing m' = [(3, beat\<lparr>msg_from := 1\<rparr>)]"
    using messages_sent [OF _ _ _ m'(1)] by (simp add: evaluate) (simp add: fix_from_def beat_def)
  with m' show ?thesis by blast
qed

theorem inline_ready_skips_entries_witness:
  "\<exists>m'. process_ready_inline script_deps busy_ready (script_manager RoleLeader [busy_ready]) = (Inr (), m')
    \<and> machine_state m' = [] \<and> map fst (outgoing m') = [3, 2]"
proof -
  let ?m = "script_manager RoleLeader [busy_ready]"
  have "\<exists>m'. process_ready_inline script_deps busy_ready ?m = (Inr (), m')" by (simp add: evaluate)
  then obtain m' where m': "process_ready_inline script_deps busy_ready ?m = (Inr (), m')" by blast
  have "serving m' = serving ?m \<and> map fst (outgoing m') = [3, 2]"
    using inline_ready_skips_entries [OF m'] by (simp add: evaluate) (simp add: vote_def beat_def)
  with m' show ?thesis by (simp add: serving_def script_manager_def)
qed

text \<open>A ready state with a snapshot, an entry to append and a message to send.\<close>

theorem nothing_sent_unless_saved_witness:
  "\<exists>m' db1 db2. on_ready script_deps (script_manager RoleFollower [busy_ready\<lparr>rd_entries := [sample_entry 1 []],
      rd_snapshot := sample_snapshot\<lparr>snap_data := []\<rparr>\<rparr>]) = (Inr True, m') \<and> outgoing m' \<noteq> []
    \<and> redb_apply_snapshot mem_redb storage_codec data_wire (sample_snapshot\<lparr>snap_data := []\<rparr>) mem_empty = (Inr (), db1)
    \<and> redb_append mem_redb storage_codec [sample_entry 1 []] db1 = (Inr (), db2)"
proof -
  let ?ready = "busy_ready\<lparr>rd_entries := [sample_entry 1 []], rd_snapshot := sample_snapshot\<lparr>snap_data := []\<rparr>\<rparr>"
  let ?m = "script_manager RoleFollower [?ready]"
  obtain db0 where "redb_apply_snapshot mem_redb storage_codec data_wire (sample_snapshot\<lparr>snap_data := []\<rparr>) mem_empty = (Inr (), db0)"
    using redb_apply_snapshot_writes[OF mem_redb_reliable storage_codec_ok, of "sample_snapshot\<lparr>snap_data := []\<rparr>" data_wire undefined mem_empty]
    by (auto simp: writes_def)
  moreover obtain db1 where "redb_append mem_redb storage_codec [sample_entry 1 []] db0 = (Inr (), db1)"
    using redb_append_writes[OF mem_redb_reliable storage_codec_ok] by (force simp: writes_def)
  ultimately have "\<exists>m'. on_ready script_deps ?m = (Inr True, m') \<and> outgoing m' \<noteq> []" by (simp add: evaluate sample_snapshot_def)
  then obtain m' where m': "on_ready script_deps ?m = (Inr True, m')" "outgoing m' \<noteq> []" by blast
  with nothing_sent_unless_saved [of script_deps ?m ?ready "raft_node ?m" "Inr True" m']
  show ?thesis by (simp add: evaluate sample_snapshot_def record_snapshot_def load_snapshot_def store_entries_def store_hard_state_def)
qed

end
