(* ===== verification/Handlers.thy ===== *)
theory Handlers
  imports Manager
begin

text \<open>
  \<open>src/src/raft/event_loop.rs\<close> and \<open>src/src/raft/handlers.rs\<close>, the loop that is to replace the one
  of the manager, and the coordinator of \<open>src/src/raft/bootstrap.rs\<close>. They are given the processing of ready states as a function,
  \<open>on_ready_fn\<close>, which is an argument here too. What a loop takes from its channels and its timer is
  a list of events; a loop that is still waiting has not returned.
\<close>

section \<open>The event loop\<close>

record EventLoopConfig =
  tick_interval_ms :: u64
  tick_log_interval :: u64

definition default_loop_config :: EventLoopConfig where
  "default_loop_config = \<lparr>tick_interval_ms = 100, tick_log_interval = 50\<rparr>"

text \<open>The four handlers of a dispatcher.\<close>

record 'm RaftEventDispatcher =
  tick_handler :: "('m, unit) action"
  proposal_handler :: "RaftProposal \<Rightarrow> ('m, unit) action"
  message_handler :: "u64 \<Rightarrow> Message \<Rightarrow> ('m, unit) action"
  conf_change_handler :: "RaftConfChange \<Rightarrow> ('m, unit) action"

definition dispatch :: "'m RaftEventDispatcher \<Rightarrow> event \<Rightarrow> ('m, unit) action" where
  "dispatch h ev = (case ev of
     Tick \<Rightarrow> tick_handler h
   | ProposalEvent proposal \<Rightarrow> proposal_handler h proposal
   | MessageEvent sender msg \<Rightarrow> message_handler h sender msg
   | ConfChangeEvent change \<Rightarrow> conf_change_handler h change)"

text \<open>How a loop stands after some events: waiting for the next, ended by an error, or panicked.\<close>

datatype loop_end = Waiting | Ended RaftError | LoopPanic

text \<open>
  \<open>process_next_event\<close>: a tick counts, and divides by the interval of the progress log.
\<close>

definition process_next_event :: "EventLoopConfig \<Rightarrow> 'm RaftEventDispatcher \<Rightarrow> event \<Rightarrow> u64 \<times> 'm \<Rightarrow> loop_end \<times> (u64 \<times> 'm)" where
  "process_next_event cfg h ev s = (case s of (tick_count, m) \<Rightarrow>
     let tick_count = (if ev = Tick then tick_count + 1 else tick_count)
     in if ev = Tick \<and> tick_log_interval cfg = 0 then (LoopPanic, tick_count, m)
        else case dispatch h ev m of
            (Inl e, m') \<Rightarrow> (Ended e, tick_count, m')
          | (Inr _, m') \<Rightarrow> (Waiting, tick_count, m'))"

fun event_loop_run :: "EventLoopConfig \<Rightarrow> 'm RaftEventDispatcher \<Rightarrow> event list \<Rightarrow> u64 \<times> 'm \<Rightarrow> loop_end \<times> (u64 \<times> 'm)" where
  "event_loop_run cfg h [] s = (Waiting, s)"
| "event_loop_run cfg h (ev # evs) s = (case process_next_event cfg h ev s of
     (Waiting, s') \<Rightarrow> event_loop_run cfg h evs s'
   | (e, s') \<Rightarrow> (e, s'))"

text \<open>The timer of the loop panics when its period is zero.\<close>

definition event_loop :: "EventLoopConfig \<Rightarrow> 'm RaftEventDispatcher \<Rightarrow> event list \<Rightarrow> 'm \<Rightarrow> loop_end \<times> 'm" where
  "event_loop cfg h evs m = (if tick_interval_ms cfg = 0 then (LoopPanic, m)
     else case event_loop_run cfg h evs (0, m) of (e, _, m') \<Rightarrow> (e, m'))"

section \<open>The handlers\<close>

definition handle_tick :: "('n, 'db, 'tx, 'e, 's) deps \<Rightarrow> (('n, 'db, 's) RaftManager, unit) action
    \<Rightarrow> (('n, 'db, 's) RaftManager, unit) action" where
  "handle_tick D on_ready_fn =
     act_then (act_update (\<lambda>m. m\<lparr>raft_node := rn_tick (d_raft D) (manager_db m) (raft_node m)\<rparr>)) (\<lambda>_.
     act_then on_ready_fn (\<lambda>_.
       act_with raft_node (\<lambda>node.
         if rn_state (d_raft D) node = RoleLeader then check_and_send_snapshots else act_return ())))"

text \<open>The leader it names is the identifier in the node, 0 when there is none.\<close>

definition handler_proposal :: "('n, 'db, 'tx, 'e, 's) deps \<Rightarrow> (('n, 'db, 's) RaftManager, unit) action
    \<Rightarrow> RaftProposal \<Rightarrow> (('n, 'db, 's) RaftManager, unit) action" where
  "handler_proposal D on_ready_fn proposal =
     act_then (case rp_response_tx proposal of
         Some response_tx \<Rightarrow> act_update (\<lambda>m. m\<lparr>pending_proposals := (pending_proposals m)(rp_id proposal \<mapsto> response_tx)\<rparr>)
       | None \<Rightarrow> act_return ()) (\<lambda>_.
     case map_err (Serialization ''serialize proposal'') (bin_serialize (d_proposal D) (rp_data proposal)) of
       Inl e \<Rightarrow> act_fail e
     | Inr data \<Rightarrow> act_with raft_node (\<lambda>node.
         if rn_state (d_raft D) node \<noteq> RoleLeader
         then answer_pending (rp_id proposal) (Inl (NotLeader ''propose'' (Some (rn_leader_id (d_raft D) node))))
         else act_then (on_node_try from_raft_error (rn_propose (d_raft D) (rp_id proposal) data)) (\<lambda>_. on_ready_fn)))"

definition handle_message :: "('n, 'db, 'tx, 'e, 's) deps \<Rightarrow> (('n, 'db, 's) RaftManager, unit) action
    \<Rightarrow> u64 \<Rightarrow> Message \<Rightarrow> (('n, 'db, 's) RaftManager, unit) action" where
  "handle_message D on_ready_fn sender msg =
     act_then (on_node_try (raft_failure ''step message'') (rn_step (d_raft D) msg)) (\<lambda>_. on_ready_fn)"

definition create_handlers :: "('n, 'db, 'tx, 'e, 's) deps \<Rightarrow> (('n, 'db, 's) RaftManager, unit) action
    \<Rightarrow> ('n, 'db, 's) RaftManager RaftEventDispatcher" where
  "create_handlers D on_ready_fn = \<lparr>tick_handler = handle_tick D on_ready_fn,
     proposal_handler = handler_proposal D on_ready_fn, message_handler = handle_message D on_ready_fn,
     conf_change_handler = handle_conf_change D\<rparr>"

definition create_standard :: "('n, 'db, 'tx, 'e, 's) deps \<Rightarrow> (('n, 'db, 's) RaftManager, unit) action
    \<Rightarrow> event list \<Rightarrow> ('n, 'db, 's) RaftManager \<Rightarrow> loop_end \<times> ('n, 'db, 's) RaftManager" where
  "create_standard D on_ready_fn = event_loop default_loop_config (create_handlers D on_ready_fn)"

section \<open>Bootstrap\<close>

definition coordinator_bootstrap :: "('n, 'db, 'tx, 'e, 's) deps \<Rightarrow> (('n, 'db, 's) RaftManager, unit) action
    \<Rightarrow> (('n, 'db, 's) RaftManager, unit) action" where
  "coordinator_bootstrap D on_ready_fn =
     act_then (on_node (rn_campaign (d_raft D))) (\<lambda>_.
     act_then on_ready_fn (\<lambda>_.
     act_then (act_with raft_node (\<lambda>node.
         if rn_state (d_raft D) node = RoleLeader then on_node_try from_raft_error (rn_propose (d_raft D) [] [])
         else act_return ())) (\<lambda>_.
       on_ready_fn)))"

definition execute_bootstrap_if_needed :: "('n, 'db, 'tx, 'e, 's) deps \<Rightarrow> (('n, 'db, 's) RaftManager, unit) action
    \<Rightarrow> (u64 \<rightharpoonup> string) \<Rightarrow> (('n, 'db, 's) RaftManager, unit) action" where
  "execute_bootstrap_if_needed D on_ready_fn peers = act_with has_join_address (\<lambda>joins.
     if should_bootstrap peers joins then coordinator_bootstrap D on_ready_fn else act_return ())"

section \<open>The loop of the manager\<close>

definition run_main_loop :: "('n, 'db, 'tx, 'e, 's) deps \<Rightarrow> event list \<Rightarrow> (('n, 'db, 's) RaftManager, unit) action" where
  "run_main_loop D evs = act_each (handle_event D) evs"

definition manager_run :: "('n, 'db, 'tx, 'e, 's) deps \<Rightarrow> event list \<Rightarrow> (('n, 'db, 's) RaftManager, unit) action" where
  "manager_run D evs = act_then (run_start D) (\<lambda>_. run_main_loop D evs)"

section \<open>The two loops compared\<close>

text \<open>
  The event loop dispatches one event after the other up to the first error, or up to the first
  tick when the interval of the log is zero.
\<close>

lemma event_loop_run_each:
  "\<exists>n. event_loop_run cfg h evs (tick_count, m)
    = (case act_each (dispatch h) (if tick_log_interval cfg = 0 then takeWhile (\<lambda>ev. ev \<noteq> Tick) evs else evs) m of
        (Inl e, m') \<Rightarrow> (Ended e, n, m')
      | (Inr _, m') \<Rightarrow> (if tick_log_interval cfg = 0 \<and> Tick \<in> set evs then LoopPanic else Waiting, n, m'))"
proof (induction evs arbitrary: tick_count m)
  case (Cons ev evs)
  obtain r m1 where ev: "dispatch h ev m = (r, m1)" by fastforce
  show ?case
  proof (cases "ev = Tick \<and> tick_log_interval cfg = 0")
    case True
    then show ?thesis by (simp add: process_next_event_def)
  next
    case goes_on: False
    show ?thesis
    proof (cases r)
      case (Inl e)
      with ev goes_on show ?thesis by (auto simp: process_next_event_def Let_def act_then_apply)
    next
      case (Inr u)
      with ev goes_on Cons.IH[of "if ev = Tick then tick_count + 1 else tick_count" m1] show ?thesis
        by (auto simp: process_next_event_def Let_def act_then_apply)
    qed
  qed
qed simp

lemma event_loop_each:
  "event_loop cfg h evs m = (if tick_interval_ms cfg = 0 then (LoopPanic, m)
    else case act_each (dispatch h) (if tick_log_interval cfg = 0 then takeWhile (\<lambda>ev. ev \<noteq> Tick) evs else evs) m of
      (Inl e, m') \<Rightarrow> (Ended e, m')
    | (Inr _, m') \<Rightarrow> (if tick_log_interval cfg = 0 \<and> Tick \<in> set evs then LoopPanic else Waiting, m'))"
  using event_loop_run_each[of cfg h evs 0 m]
  by (auto simp: event_loop_def split: prod.splits sum.splits)

text \<open>The processing of ready states that the handlers are given.\<close>

definition ready_fn :: "('n, 'db, 'tx, 'e, 's) deps \<Rightarrow> (('n, 'db, 's) RaftManager, unit) action" where
  "ready_fn D = act_then (on_ready D) (\<lambda>_. act_return ())"

text \<open>What the manager does in a tick beyond what the handler does.\<close>

definition replicate_if_needed :: "('n, 'db, 'tx, 'e, 's) deps \<Rightarrow> (('n, 'db, 's) RaftManager, unit) action" where
  "replicate_if_needed D = act_then needs_replication_trigger (\<lambda>needs_replication. act_with raft_node (\<lambda>node.
     if needs_replication \<and> rn_state (d_raft D) node = RoleLeader
     then act_then (act_update (\<lambda>m. m\<lparr>raft_node := rn_tick (d_raft D) (manager_db m) (raft_node m)\<rparr>)) (\<lambda>_. ready_fn D)
     else act_return ()))"

lemma tick_handler_then: "tick D m = act_then (handle_tick D (ready_fn D)) (\<lambda>_. replicate_if_needed D) m"
proof -
  have last: "act_with raft_node (\<lambda>node. if b \<and> rn_state (d_raft D) node = RoleLeader then check_and_send_snapshots
      else act_return ()) = act_return ()" for b
    by (simp add: fun_eq_iff check_and_send_snapshots_def)
  have checked: "act_with raft_node (\<lambda>node. if rn_state (d_raft D) node = RoleLeader then check_and_send_snapshots
      else act_return ()) = act_return ()"
    by (simp add: fun_eq_iff check_and_send_snapshots_def)
  show ?thesis
    unfolding tick_def handle_tick_def replicate_if_needed_def ready_fn_def last checked act_then_return_right
    by (simp add: act_then_return_left act_then_return_right)
qed

text \<open>The channels that get an answer when a proposal is refused.\<close>

definition refused_channels :: "('n, 'db, 'tx, 'e, 's) deps \<Rightarrow> RaftProposal \<Rightarrow> ('n, 'db, 's) RaftManager \<Rightarrow> channel list" where
  "refused_channels D proposal m = (case bin_serialize (d_proposal D) (rp_data proposal) of
     Inl _ \<Rightarrow> []
   | Inr _ \<Rightarrow> (case (rp_response_tx proposal, pending_proposals m (rp_id proposal)) of
       (Some tx, _) \<Rightarrow> [tx] | (None, Some tx) \<Rightarrow> [tx] | (None, None) \<Rightarrow> []))"

lemma proposal_handler_same:
  assumes "rn_state (d_raft D) (raft_node m) = RoleLeader \<or> rn_leader_id (d_raft D) (raft_node m) \<noteq> 0"
  shows "handle_proposal D proposal m = handler_proposal D (ready_fn D) proposal m"
  using assms unfolding handle_proposal_def handler_proposal_def ready_fn_def leader_option_def
  by (cases "rp_response_tx proposal") (auto simp: act_then_apply split: sum.split)

lemma proposal_handler_differs:
  assumes "rn_state (d_raft D) (raft_node m) \<noteq> RoleLeader" and "rn_leader_id (d_raft D) (raft_node m) = 0"
  shows "\<exists>r m'. handle_proposal D proposal m
        = (r, m'\<lparr>answers := answers m @ map (\<lambda>tx. (tx, Inl (NotLeader ''propose'' None))) (refused_channels D proposal m)\<rparr>)
      \<and> handler_proposal D (ready_fn D) proposal m
        = (r, m'\<lparr>answers := answers m @ map (\<lambda>tx. (tx, Inl (NotLeader ''propose'' (Some 0)))) (refused_channels D proposal m)\<rparr>)"
proof (cases "bin_serialize (d_proposal D) (rp_data proposal)")
  case (Inl e)
  let ?m = "m\<lparr>pending_proposals := (case rp_response_tx proposal of
    Some tx \<Rightarrow> (pending_proposals m)(rp_id proposal \<mapsto> tx) | None \<Rightarrow> pending_proposals m)\<rparr>"
  show ?thesis using Inl assms
    by (intro exI[of _ "Inl (Serialization ''serialize proposal'' e)"] exI[of _ ?m])
      (auto simp: handle_proposal_def handler_proposal_def refused_channels_def act_then_apply split: option.split)
next
  case (Inr data)
  let ?m = "m\<lparr>pending_proposals := (pending_proposals m)(rp_id proposal := None)\<rparr>"
  show ?thesis using Inr assms
    by (intro exI[of _ "Inr ()"] exI[of _ ?m])
      (auto simp: handle_proposal_def handler_proposal_def refused_channels_def act_then_apply answer_pending_def respond_def
        leader_option_def split: option.split)
qed

text \<open>
  C35: the event loop with its handlers against the loop of the manager. The event loop takes one
  event after the other and ends with the first error, as \<open>run_main_loop\<close> does, except that
  it panics at once when the period of its timer is zero, and at the first tick when the interval
  of its log is zero. A proposal is handled alike by a leader and by a node that knows one; without a
  leader everything is alike but the answer to the channel that waits, which names leader 0 instead of none. A
  tick leaves out the second round that lets a new member be reached.
\<close>

theorem event_loop_matches_manager:
  fixes D :: "('n, 'db, 'tx, 'e, 's) deps" and m :: "('n, 'db, 's) RaftManager"
  assumes "h = create_handlers D (ready_fn D)"
  shows "event_loop cfg h evs m = (if tick_interval_ms cfg = 0 then (LoopPanic, m)
      else case act_each (dispatch h) (if tick_log_interval cfg = 0 then takeWhile (\<lambda>ev. ev \<noteq> Tick) evs else evs) m of
        (Inl e, m') \<Rightarrow> (Ended e, m')
      | (Inr _, m') \<Rightarrow> (if tick_log_interval cfg = 0 \<and> Tick \<in> set evs then LoopPanic else Waiting, m'))
    \<and> (if rn_state (d_raft D) (raft_node m) = RoleLeader \<or> rn_leader_id (d_raft D) (raft_node m) \<noteq> 0
       then handle_event D (ProposalEvent proposal) m = dispatch h (ProposalEvent proposal) m
       else \<exists>r m'. handle_event D (ProposalEvent proposal) m
            = (r, m'\<lparr>answers := answers m @ map (\<lambda>tx. (tx, Inl (NotLeader ''propose'' None))) (refused_channels D proposal m)\<rparr>)
          \<and> dispatch h (ProposalEvent proposal) m
            = (r, m'\<lparr>answers := answers m @ map (\<lambda>tx. (tx, Inl (NotLeader ''propose'' (Some 0)))) (refused_channels D proposal m)\<rparr>))
    \<and> handle_event D Tick m = act_then (dispatch h Tick) (\<lambda>_. replicate_if_needed D) m"
proof (intro conjI)
  show "event_loop cfg h evs m = (if tick_interval_ms cfg = 0 then (LoopPanic, m)
      else case act_each (dispatch h) (if tick_log_interval cfg = 0 then takeWhile (\<lambda>ev. ev \<noteq> Tick) evs else evs) m of
        (Inl e, m') \<Rightarrow> (Ended e, m')
      | (Inr _, m') \<Rightarrow> (if tick_log_interval cfg = 0 \<and> Tick \<in> set evs then LoopPanic else Waiting, m'))"
    by (rule event_loop_each)
  show "handle_event D Tick m = act_then (dispatch h Tick) (\<lambda>_. replicate_if_needed D) m"
    using tick_handler_then by (simp add: handle_event_def dispatch_def assms create_handlers_def)
  have "handle_event D (ProposalEvent proposal) m = handle_proposal D proposal m"
    "dispatch h (ProposalEvent proposal) m = handler_proposal D (ready_fn D) proposal m"
    by (simp_all add: handle_event_def dispatch_def assms create_handlers_def)
  then show "if rn_state (d_raft D) (raft_node m) = RoleLeader \<or> rn_leader_id (d_raft D) (raft_node m) \<noteq> 0
       then handle_event D (ProposalEvent proposal) m = dispatch h (ProposalEvent proposal) m
       else \<exists>r m'. handle_event D (ProposalEvent proposal) m
            = (r, m'\<lparr>answers := answers m @ map (\<lambda>tx. (tx, Inl (NotLeader ''propose'' None))) (refused_channels D proposal m)\<rparr>)
          \<and> dispatch h (ProposalEvent proposal) m
            = (r, m'\<lparr>answers := answers m @ map (\<lambda>tx. (tx, Inl (NotLeader ''propose'' (Some 0)))) (refused_channels D proposal m)\<rparr>)"
    using proposal_handler_same[of D m proposal] proposal_handler_differs[of D m proposal] by auto
qed

text \<open>A follower that knows the leader gets a proposal, and then a tick; with no interval for the log it panics there.\<close>

theorem event_loop_matches_manager_witness:
  "\<exists>m. event_loop default_loop_config (create_handlers script_deps (ready_fn script_deps))
      [ProposalEvent sample_proposal, Tick] (script_manager RoleFollower []) = (Waiting, m)
    \<and> fst (event_loop (default_loop_config\<lparr>tick_log_interval := 0\<rparr>) (create_handlers script_deps (ready_fn script_deps))
      [ProposalEvent sample_proposal, Tick] (script_manager RoleFollower [])) = LoopPanic
    \<and> answers m = [(7, Inl (NotLeader ''propose'' (Some 1)))]"
proof -
  let ?m = "script_manager RoleFollower []" and ?h = "create_handlers script_deps (ready_fn script_deps)"
  note loop = event_loop_matches_manager [OF refl, THEN conjunct1, of _ script_deps "[ProposalEvent sample_proposal, Tick]" ?m]
  have "\<exists>m. act_each (dispatch ?h) [ProposalEvent sample_proposal, Tick] ?m = (Inr (), m)
      \<and> answers m = [(7, Inl (NotLeader ''propose'' (Some 1)))]"
    and "\<exists>m. act_each (dispatch ?h) [ProposalEvent sample_proposal] ?m = (Inr (), m)"
    by (simp_all add: dispatch_def create_handlers_def handler_proposal_def handle_tick_def sample_proposal_def
        raft_proposal_with_response_def act_then_apply answer_pending_def respond_def ready_fn_def on_ready_def script_defs)
  then show ?thesis unfolding loop by (auto simp: default_loop_config_def)
qed

end
