(* ===== verification/Protocol.thy ===== *)
theory Protocol
  imports Actions Proposals Wire
begin

text \<open>
  \<open>src/src/transport/protocol.rs\<close>: how messages are framed on a stream and how the protocol handler
  answers them. Streams (\<open>tokio\<close>), the encodings (\<open>bincode\<close>, \<open>prost\<close>) and the timeout around a stream are
  parameters. A zero-copy buffer is its contents, so that the borrowing and the owning constructors are one,
  and a request id, an array of 16 bytes, is a list of bytes.
\<close>

section \<open>Messages\<close>

datatype MessageType = Request | Response | DirectRaft | Heartbeat | ErrorMessage

definition LARGE_MESSAGE_THRESHOLD :: nat where "LARGE_MESSAGE_THRESHOLD = 64 * 1024"
definition MAX_HEADER_SIZE :: nat where "MAX_HEADER_SIZE = 256"

record MessageHeader =
  mh_type :: MessageType
  mh_request_id :: "bytes option"
  payload_len :: u32

record RpcRequest =
  rpc_service :: string
  rpc_method :: string
  rpc_payload :: bytes

record RpcResponse =
  rpc_success :: bool
  rpc_result :: "bytes option"
  rpc_error :: "string option"

record ZeroCopyMessage =
  zm_type :: MessageType
  zm_request_id :: "bytes option"
  zm_payload :: bytes
  total_size :: u32

definition calculate_size :: "nat \<Rightarrow> u32" where
  "calculate_size n = 4 + 32 + of_nat n"

definition zero_copy_message :: "MessageType \<Rightarrow> bytes option \<Rightarrow> bytes \<Rightarrow> ZeroCopyMessage" where
  "zero_copy_message ty request_id payload = \<lparr>zm_type = ty, zm_request_id = request_id,
     zm_payload = payload, total_size = calculate_size (length payload)\<rparr>"

definition is_large_message :: "ZeroCopyMessage \<Rightarrow> bool" where
  "is_large_message msg \<longleftrightarrow> length (zm_payload msg) > LARGE_MESSAGE_THRESHOLD"

definition create_heartbeat_message :: ZeroCopyMessage where
  "create_heartbeat_message = zero_copy_message Heartbeat None []"

definition is_heartbeat_message :: "ZeroCopyMessage \<Rightarrow> bool" where
  "is_heartbeat_message msg \<longleftrightarrow> zm_type msg = Heartbeat"

section \<open>Encodings\<close>

definition serialize_payload :: "'a bincode \<Rightarrow> 'a \<Rightarrow> RaftError + bytes" where
  "serialize_payload B payload = map_err (\<lambda>e. Internal (''Failed to serialize payload: '' @ e)) (bin_serialize B payload)"

definition deserialize_payload :: "'a bincode \<Rightarrow> bytes \<Rightarrow> RaftError + 'a" where
  "deserialize_payload B data = map_err (\<lambda>e. Internal (''Failed to deserialize payload: '' @ e)) (bin_deserialize B data)"

text \<open>The variants that write behind what a buffer holds already.\<close>

definition serialize_payload_zero_copy :: "'a bincode \<Rightarrow> 'a \<Rightarrow> bytes \<Rightarrow> RaftError + bytes" where
  "serialize_payload_zero_copy B payload buf =
     map_err (\<lambda>e. Internal (''Failed to serialize payload: '' @ e)) (and_then (bin_serialize B payload) (\<lambda>bs. Inr (buf @ bs)))"

definition serialize_header_zero_copy :: "MessageHeader bincode \<Rightarrow> MessageHeader \<Rightarrow> bytes \<Rightarrow> RaftError + bytes" where
  "serialize_header_zero_copy B header buf =
     map_err (\<lambda>e. Internal (''Failed to serialize header: '' @ e)) (and_then (bin_serialize B header) (\<lambda>bs. Inr (buf @ bs)))"

definition serialize_raft_message_fast :: "Message prost \<Rightarrow> Message \<Rightarrow> RaftError + bytes" where
  "serialize_raft_message_fast P msg = Inr (encode_to_vec P msg)"

definition deserialize_raft_message_fast :: "Message prost \<Rightarrow> bytes \<Rightarrow> RaftError + Message" where
  "deserialize_raft_message_fast P data = map_err (Serialization ''RaftMessage'') (decode P data)"

definition create_raft_rpc_request :: "Message prost \<Rightarrow> RpcRequest bincode \<Rightarrow> Message \<Rightarrow> bytes option
    \<Rightarrow> RaftError + ZeroCopyMessage" where
  "create_raft_rpc_request P B raft_message request_id =
     and_then (serialize_raft_message_fast P raft_message) (\<lambda>raft_payload.
     and_then (serialize_payload_zero_copy B
         \<lparr>rpc_service = ''raft'', rpc_method = ''raft.message'', rpc_payload = raft_payload\<rparr> []) (\<lambda>request_buf.
       Inr (zero_copy_message Request request_id request_buf)))"

section \<open>Streams\<close>

text \<open>
  \<open>write_all\<close> and \<open>flush\<close> of a stream, and \<open>read_exact\<close>, which reports the end of the stream as an error.
\<close>

record 'w byte_writer =
  w_write_all :: "bytes \<Rightarrow> 'w \<Rightarrow> (error_text + unit) \<times> 'w"
  w_flush :: "'w \<Rightarrow> (error_text + unit) \<times> 'w"

record 'r byte_reader =
  r_read_exact :: "nat \<Rightarrow> 'r \<Rightarrow> (error_text + bytes) \<times> 'r"

definition stream_try :: "string \<Rightarrow> ('w \<Rightarrow> (error_text + 'a) \<times> 'w) \<Rightarrow> ('w, 'a) action" where
  "stream_try what f = (\<lambda>w. case f w of (r, w') \<Rightarrow> (map_err (\<lambda>e. Internal (what @ e)) r, w'))"

definition u32_be :: "u32 \<Rightarrow> bytes" where "u32_be w = rev (u32_le w)"
definition u32_from_be :: "bytes \<Rightarrow> u32" where "u32_from_be bs = u32_from_le (rev bs)"

section \<open>Writing\<close>

definition CHUNK_SIZE :: nat where "CHUNK_SIZE = 32 * 1024"

function chunks :: "nat \<Rightarrow> 'a list \<Rightarrow> 'a list list" where
  "chunks n xs = (if xs = [] \<or> n = 0 then [] else take n xs # chunks n (drop n xs))"
  by pat_completeness auto
termination by (relation "measure (\<lambda>(n, xs). length xs)") auto

declare chunks.simps [simp del]

definition message_header :: "ZeroCopyMessage \<Rightarrow> MessageHeader" where
  "message_header message = \<lparr>mh_type = zm_type message, mh_request_id = zm_request_id message,
     payload_len = of_nat (length (zm_payload message))\<rparr>"

definition write_large_message_streaming :: "'w byte_writer \<Rightarrow> MessageHeader bincode \<Rightarrow> ZeroCopyMessage \<Rightarrow> ('w, unit) action" where
  "write_large_message_streaming W B message = (case serialize_header_zero_copy B (message_header message) [] of
     Inl e \<Rightarrow> act_fail e
   | Inr header_buf \<Rightarrow>
       act_then (stream_try ''Failed to write header length: '' (w_write_all W (u32_be (of_nat (length header_buf))))) (\<lambda>_.
       act_then (stream_try ''Failed to write header: '' (w_write_all W header_buf)) (\<lambda>_.
         act_each (\<lambda>chunk. stream_try ''Failed to write payload chunk: '' (w_write_all W chunk))
           (chunks CHUNK_SIZE (zm_payload message)))))"

definition write_message_zero_copy :: "'w byte_writer \<Rightarrow> MessageHeader bincode \<Rightarrow> ZeroCopyMessage \<Rightarrow> ('w, unit) action" where
  "write_message_zero_copy W B message =
     act_then (if \<not> is_large_message message
       then (case serialize_header_zero_copy B (message_header message) [] of
           Inl e \<Rightarrow> act_fail e
         | Inr buf \<Rightarrow> stream_try ''Failed to write message: ''
             (w_write_all W (u32_be (of_nat (length buf)) @ buf @ zm_payload message)))
       else write_large_message_streaming W B message) (\<lambda>_.
       stream_try ''Failed to flush stream: '' (w_flush W))"

definition write_message :: "'w byte_writer \<Rightarrow> MessageHeader bincode \<Rightarrow> MessageType \<Rightarrow> bytes option \<Rightarrow> bytes \<Rightarrow> ('w, unit) action" where
  "write_message W B ty request_id payload =
     write_message_zero_copy W B (zero_copy_message ty request_id payload)"

section \<open>Reading\<close>

definition MAX_PAYLOAD :: u32 where "MAX_PAYLOAD = 100 * 1024 * 1024"

definition read_small_payload_direct :: "'r byte_reader \<Rightarrow> nat \<Rightarrow> ('r, bytes) action" where
  "read_small_payload_direct R n = stream_try ''Failed to read payload: '' (r_read_exact R n)"

function read_chunks :: "'r byte_reader \<Rightarrow> nat \<Rightarrow> bytes \<Rightarrow> ('r, bytes) action" where
  "read_chunks R remaining payload_buf =
    (if remaining > 0 then
       let chunk_size = min remaining CHUNK_SIZE
       in act_then (stream_try ''Failed to read payload chunk: '' (r_read_exact R chunk_size)) (\<lambda>chunk.
            read_chunks R (remaining - chunk_size) (payload_buf @ chunk))
     else act_return payload_buf)"
  by pat_completeness auto
termination by (relation "measure (\<lambda>(R, n, buf). n)") (auto simp: CHUNK_SIZE_def)

declare read_chunks.simps [simp del]

definition read_large_payload_streaming :: "'r byte_reader \<Rightarrow> nat \<Rightarrow> ('r, bytes) action" where
  "read_large_payload_streaming R n = read_chunks R n []"

definition read_message_zero_copy :: "'r byte_reader \<Rightarrow> MessageHeader bincode \<Rightarrow> ('r, MessageHeader \<times> bytes) action" where
  "read_message_zero_copy R B =
     act_then (stream_try ''Failed to read header length: '' (r_read_exact R 4)) (\<lambda>header_len_bytes.
     let header_len = unat (u32_from_be header_len_bytes)
     in if header_len > MAX_HEADER_SIZE
        then act_fail (Internal (''Header too large: '' @ show_nat header_len @ '' bytes (max '' @ show_nat MAX_HEADER_SIZE @ '')''))
        else act_then (stream_try ''Failed to read header: '' (r_read_exact R header_len)) (\<lambda>header_buf.
          case deserialize_payload B header_buf of
            Inl e \<Rightarrow> act_fail e
          | Inr header \<Rightarrow>
              if payload_len header > MAX_PAYLOAD
              then act_fail (Internal (''Payload too large: '' @ show_nat (unat (payload_len header)) @ '' bytes''))
              else act_then (if unat (payload_len header) > LARGE_MESSAGE_THRESHOLD
                  then read_large_payload_streaming R (unat (payload_len header))
                  else read_small_payload_direct R (unat (payload_len header))) (\<lambda>payload.
                act_return (header, payload))))"

definition read_message :: "'r byte_reader \<Rightarrow> MessageHeader bincode \<Rightarrow> ('r, MessageHeader \<times> bytes) action" where
  "read_message R B = act_then (read_message_zero_copy R B) (\<lambda>(header, bytes). act_return (header, bytes))"

definition read_zero_copy_message :: "'r byte_reader \<Rightarrow> MessageHeader bincode \<Rightarrow> ('r, ZeroCopyMessage) action" where
  "read_zero_copy_message R B = act_then (read_message_zero_copy R B) (\<lambda>(header, payload).
     act_return \<lparr>zm_type = mh_type header, zm_request_id = mh_request_id header, zm_payload = payload,
       total_size = 4 + of_nat (length payload)\<rparr>)"

section \<open>The protocol handler\<close>

text \<open>Everything the handler of a stream calls, and its state: the two directions and the channel to the Raft manager.\<close>

record ('w, 'r) protocol_deps =
  p_writer :: "'w byte_writer"
  p_reader :: "'r byte_reader"
  p_header :: "MessageHeader bincode"
  p_request :: "RpcRequest bincode"
  p_response :: "RpcResponse bincode"
  p_message :: "Message prost"

record ('w, 'r) stream_state =
  st_send :: 'w
  st_recv :: 'r
  raft_rx :: "(u64 \<times> Message) list"
  raft_rx_open :: bool

definition on_send :: "('w, 'a) action \<Rightarrow> (('w, 'r) stream_state, 'a) action" where
  "on_send f = (\<lambda>s. case f (st_send s) of (r, w) \<Rightarrow> (r, s\<lparr>st_send := w\<rparr>))"

definition on_recv :: "('r, 'a) action \<Rightarrow> (('w, 'r) stream_state, 'a) action" where
  "on_recv f = (\<lambda>s. case f (st_recv s) of (r, x) \<Rightarrow> (r, s\<lparr>st_recv := x\<rparr>))"

text \<open>\<open>raft_rx_tx.send\<close>: an error when the receiver is gone.\<close>

definition deliver :: "u64 \<times> Message \<Rightarrow> (('w, 'r) stream_state, bool) action" where
  "deliver m = act_with raft_rx_open (\<lambda>alive.
     if alive then act_then (act_update (\<lambda>s. s\<lparr>raft_rx := raft_rx s @ [m]\<rparr>)) (\<lambda>_. act_return True)
     else act_return False)"

definition rpc_response_for :: "('w, 'r) protocol_deps \<Rightarrow> RpcRequest \<Rightarrow> (('w, 'r) stream_state, RpcResponse) action" where
  "rpc_response_for D request =
    (if rpc_service request = ''raft'' \<and> rpc_method request = ''raft.message'' then
       (case deserialize_raft_message_fast (p_message D) (rpc_payload request) of
          Inl e \<Rightarrow> act_fail e
        | Inr raft_message \<Rightarrow> act_then (deliver (msg_from raft_message, raft_message)) (\<lambda>sent.
            act_return (if sent then \<lparr>rpc_success = True, rpc_result = None, rpc_error = None\<rparr>
              else \<lparr>rpc_success = False, rpc_result = None, rpc_error = Some ''Failed to process message: channel closed''\<rparr>)))
     else act_return \<lparr>rpc_success = False, rpc_result = None,
       rpc_error = Some (''Unknown service/method: '' @ rpc_service request @ ''/'' @ rpc_method request)\<rparr>)"

definition handle_rpc_request_zero_copy :: "('w, 'r) protocol_deps \<Rightarrow> ZeroCopyMessage \<Rightarrow> (('w, 'r) stream_state, unit) action" where
  "handle_rpc_request_zero_copy D message = (case deserialize_payload (p_request D) (zm_payload message) of
     Inl e \<Rightarrow> act_fail e
   | Inr request \<Rightarrow> act_then (rpc_response_for D request) (\<lambda>response.
       case serialize_payload_zero_copy (p_response D) response [] of
         Inl e \<Rightarrow> act_fail e
       | Inr response_buf \<Rightarrow> on_send (write_message_zero_copy (p_writer D) (p_header D)
           (zero_copy_message Response (zm_request_id message) response_buf))))"

definition handle_direct_raft_message_zero_copy :: "('w, 'r) protocol_deps \<Rightarrow> ZeroCopyMessage \<Rightarrow> (('w, 'r) stream_state, unit) action" where
  "handle_direct_raft_message_zero_copy D message =
    (case deserialize_raft_message_fast (p_message D) (zm_payload message) of
       Inl e \<Rightarrow> act_fail e
     | Inr raft_message \<Rightarrow> act_then (deliver (msg_from raft_message, raft_message)) (\<lambda>_. act_return ()))"

definition process_message_zero_copy :: "('w, 'r) protocol_deps \<Rightarrow> ZeroCopyMessage \<Rightarrow> (('w, 'r) stream_state, unit) action" where
  "process_message_zero_copy D message = (case zm_type message of
     Request \<Rightarrow> handle_rpc_request_zero_copy D message
   | DirectRaft \<Rightarrow> handle_direct_raft_message_zero_copy D message
   | _ \<Rightarrow> act_return ())"

text \<open>
  \<open>handle_stream\<close>: the timeout gives \<open>None\<close> when it elapses, and drops the work where it stands. A
  failing flush at the end is only logged.
\<close>

definition stream_work :: "('w, 'r) protocol_deps \<Rightarrow> (('w, 'r) stream_state, unit) action" where
  "stream_work D = act_then (on_recv (read_zero_copy_message (p_reader D) (p_header D))) (process_message_zero_copy D)"

definition handle_stream :: "((('w, 'r) stream_state, unit) action \<Rightarrow> ('w, 'r) stream_state \<Rightarrow> (RaftError + unit) option \<times> ('w, 'r) stream_state)
    \<Rightarrow> ('w, 'r) protocol_deps \<Rightarrow> (('w, 'r) stream_state, unit) action" where
  "handle_stream timeout D = (\<lambda>s. case timeout (stream_work D) s of (result, s') \<Rightarrow> (case result of
     None \<Rightarrow> (Inl (Internal ''Stream processing timeout''), s')
   | Some (Inl e) \<Rightarrow> (Inl e, s')
   | Some (Inr _) \<Rightarrow> (Inr (), s'\<lparr>st_send := snd (w_flush (p_writer D) (st_send s'))\<rparr>)))"

section \<open>What the parameters promise\<close>

text \<open>A writer that appends what it is given, seen through \<open>wrote\<close>, and a reader of the bytes \<open>unread\<close>.\<close>

definition writer_ok :: "'w byte_writer \<Rightarrow> ('w \<Rightarrow> bytes) \<Rightarrow> bool" where
  "writer_ok W wrote \<longleftrightarrow> (\<forall>bs w. \<exists>w'. w_write_all W bs w = (Inr (), w') \<and> wrote w' = wrote w @ bs)
     \<and> (\<forall>w. \<exists>w'. w_flush W w = (Inr (), w') \<and> wrote w' = wrote w)"

definition reader_ok :: "'r byte_reader \<Rightarrow> ('r \<Rightarrow> bytes) \<Rightarrow> bool" where
  "reader_ok R unread \<longleftrightarrow> (\<forall>n r. n \<le> length (unread r) \<longrightarrow>
     (\<exists>r'. r_read_exact R n r = (Inr (take n (unread r)), r') \<and> unread r' = drop n (unread r)))"

text \<open>A header with a request id of 16 bytes is encoded in at most \<open>MAX_HEADER_SIZE\<close> bytes and read back.\<close>

definition id_ok :: "bytes option \<Rightarrow> bool" where
  "id_ok i \<longleftrightarrow> (case i of None \<Rightarrow> True | Some bs \<Rightarrow> length bs = 16)"

definition header_ok :: "MessageHeader bincode \<Rightarrow> bool" where
  "header_ok B \<longleftrightarrow> codec (bin_serialize B) (bin_deserialize B) (\<lambda>h. id_ok (mh_request_id h))
     \<and> (\<forall>h bs. id_ok (mh_request_id h) \<longrightarrow> bin_serialize B h = Inr bs \<longrightarrow> length bs \<le> MAX_HEADER_SIZE)"

text \<open>The bytes of a message on the wire.\<close>

definition frame :: "MessageHeader bincode \<Rightarrow> ZeroCopyMessage \<Rightarrow> bytes" where
  "frame B message = (let header = projr (bin_serialize B (message_header message))
     in u32_be (of_nat (length header)) @ header @ zm_payload message)"

section \<open>Writing and reading frames\<close>

lemma concat_chunks: "0 < n \<Longrightarrow> concat (chunks n xs) = xs"
proof (induction n xs rule: chunks.induct)
  case (1 n xs)
  then show ?case by (simp add: chunks.simps[of n xs])
qed

lemma u32_be_inverse [simp]: "u32_from_be (u32_be w) = w" "length (u32_be w) = 4"
  by (simp_all add: u32_from_be_def u32_be_def)

lemma write_allD:
  assumes "writer_ok W wrote"
  obtains w' where "w_write_all W bs w = (Inr (), w')" and "wrote w' = wrote w @ bs"
  using assms unfolding writer_ok_def by blast

lemma stream_write_ok:
  assumes "writer_ok W wrote"
  shows "\<exists>w'. stream_try what (w_write_all W bs) w = (Inr (), w') \<and> wrote w' = wrote w @ bs"
  using write_allD[OF assms, of bs w] by (force simp: stream_try_def)

lemma stream_flush_ok:
  assumes "writer_ok W wrote"
  shows "\<exists>w'. stream_try what (w_flush W) w = (Inr (), w') \<and> wrote w' = wrote w"
  using assms unfolding writer_ok_def by (force simp: stream_try_def)

lemma write_chunks_ok:
  assumes "writer_ok W wrote"
  shows "\<exists>w'. act_each (\<lambda>chunk. stream_try what (w_write_all W chunk)) cs w = (Inr (), w') \<and> wrote w' = wrote w @ concat cs"
proof (induction cs arbitrary: w)
  case (Cons c cs)
  obtain w1 where w1: "stream_try what (w_write_all W c) w = (Inr (), w1)" "wrote w1 = wrote w @ c"
    using stream_write_ok[OF assms] by blast
  from Cons.IH[of w1] obtain w2 where "act_each (\<lambda>chunk. stream_try what (w_write_all W chunk)) cs w1 = (Inr (), w2)"
    "wrote w2 = wrote w1 @ concat cs" by blast
  with w1 show ?case by (simp add: act_then_apply)
qed simp

text \<open>Both ways to write a message put the same bytes on the stream.\<close>

lemma write_frame:
  assumes W: "writer_ok W wrote" and B: "header_ok B" and "id_ok (zm_request_id message)"
  shows "\<exists>w'. write_message_zero_copy W B message w = (Inr (), w') \<and> wrote w' = wrote w @ frame B message"
proof -
  obtain hdr where hdr: "bin_serialize B (message_header message) = Inr hdr"
    using B codec.enc_total[of "bin_serialize B" "bin_deserialize B"] unfolding header_ok_def by blast
  have ser: "serialize_header_zero_copy B (message_header message) [] = Inr hdr"
    by (simp add: serialize_header_zero_copy_def hdr)
  let ?len = "u32_be (of_nat (length hdr))"
  have frm: "frame B message = ?len @ hdr @ zm_payload message" by (simp add: frame_def hdr)
  note flush = stream_flush_ok[OF W]
  show ?thesis
  proof (cases "is_large_message message")
    case False
    obtain w1 where w1: "stream_try ''Failed to write message: '' (w_write_all W (?len @ hdr @ zm_payload message)) w = (Inr (), w1)"
      "wrote w1 = wrote w @ frame B message"
      using stream_write_ok[OF W, of _ "?len @ hdr @ zm_payload message" w] unfolding frm by blast
    with False ser flush[of _ w1] show ?thesis by (auto simp: write_message_zero_copy_def act_then_apply)
  next
    case True
    obtain w1 where w1: "stream_try ''Failed to write header length: '' (w_write_all W ?len) w = (Inr (), w1)"
      "wrote w1 = wrote w @ ?len" using stream_write_ok[OF W] by blast
    obtain w2 where w2: "stream_try ''Failed to write header: '' (w_write_all W hdr) w1 = (Inr (), w2)"
      "wrote w2 = wrote w1 @ hdr" using stream_write_ok[OF W] by blast
    obtain w3 where w3: "act_each (\<lambda>chunk. stream_try ''Failed to write payload chunk: '' (w_write_all W chunk))
        (chunks CHUNK_SIZE (zm_payload message)) w2 = (Inr (), w3)" "wrote w3 = wrote w2 @ zm_payload message"
      using write_chunks_ok[OF W, of _ "chunks CHUNK_SIZE (zm_payload message)" w2] by (auto simp: concat_chunks CHUNK_SIZE_def)
    obtain w4 where w4: "stream_try ''Failed to flush stream: '' (w_flush W) w3 = (Inr (), w4)" "wrote w4 = wrote w3"
      using flush by blast
    from True ser w1 w2 w3 w4 show ?thesis
      by (simp add: write_message_zero_copy_def write_large_message_streaming_def act_then_apply frm)
  qed
qed

lemma read_exactD:
  assumes "reader_ok R unread" and "n \<le> length (unread r)"
  shows "\<exists>r'. stream_try what (r_read_exact R n) r = (Inr (take n (unread r)), r') \<and> unread r' = drop n (unread r)"
proof -
  from assms obtain r' where "r_read_exact R n r = (Inr (take n (unread r)), r')" "unread r' = drop n (unread r)"
    unfolding reader_ok_def by blast
  then show ?thesis by (simp add: stream_try_def)
qed

lemma read_chunks_ok:
  assumes R: "reader_ok R unread"
  shows "n \<le> length (unread r) \<Longrightarrow> \<exists>r'. read_chunks R n buf r = (Inr (buf @ take n (unread r)), r') \<and> unread r' = drop n (unread r)"
proof (induction n arbitrary: buf r rule: less_induct)
  case (less n)
  show ?case
  proof (cases "n = 0")
    case True
    then show ?thesis by (simp add: read_chunks.simps[of R 0])
  next
    case False
    let ?c = "min n CHUNK_SIZE"
    from less.prems have "?c \<le> length (unread r)" by simp
    then obtain r1 where r1: "stream_try ''Failed to read payload chunk: '' (r_read_exact R ?c) r = (Inr (take ?c (unread r)), r1)"
      "unread r1 = drop ?c (unread r)" using read_exactD[OF R] by blast
    from False have c: "n - ?c < n" "?c + (n - ?c) = n" by (auto simp: CHUNK_SIZE_def)
    have "n - ?c \<le> length (unread r1)" using less.prems by (simp add: r1(2))
    from less.IH[OF c(1) this, of "buf @ take ?c (unread r)"] obtain r2 where
      r2: "read_chunks R (n - ?c) (buf @ take ?c (unread r)) r1 = (Inr ((buf @ take ?c (unread r)) @ take (n - ?c) (unread r1)), r2)"
      "unread r2 = drop (n - ?c) (unread r1)" by blast
    have "take ?c (unread r) @ take (n - ?c) (unread r1) = take n (unread r)"
      unfolding r1(2) using take_add[of ?c "n - ?c" "unread r"] c(2) by simp
    moreover have "unread r2 = drop n (unread r)" unfolding r2(2) r1(2) using c(2) by simp
    ultimately show ?thesis
      using False r1(1) r2(1) by (intro exI[of _ r2]) (simp add: read_chunks.simps[of R n] Let_def act_then_apply)
  qed
qed

lemma read_payload_ok:
  assumes R: "reader_ok R unread" and "n \<le> length (unread r)"
  shows "\<exists>r'. (if n > LARGE_MESSAGE_THRESHOLD then read_large_payload_streaming R n else read_small_payload_direct R n) r
    = (Inr (take n (unread r)), r') \<and> unread r' = drop n (unread r)"
  using read_chunks_ok[OF R assms(2), of "[]"] read_exactD[OF assms]
  by (auto simp: read_large_payload_streaming_def read_small_payload_direct_def)

text \<open>Reading a frame: the header names the length of the payload modulo \<open>2 ^ 32\<close>, and that many bytes are read.\<close>

lemma read_frame:
  assumes R: "reader_ok R unread" and B: "header_ok B" and ok: "id_ok (zm_request_id message)"
    and r: "unread r = frame B message @ tail" and n: "n = length (zm_payload message) mod 2 ^ 32"
  shows "\<exists>r'. read_message_zero_copy R B r =
      (if n > unat MAX_PAYLOAD then (Inl (Internal (''Payload too large: '' @ show_nat n @ '' bytes'')), r')
       else (Inr (message_header message, take n (zm_payload message)), r'))
    \<and> unread r' = (if n > unat MAX_PAYLOAD then zm_payload message @ tail else drop n (zm_payload message) @ tail)"
proof -
  obtain hdr where hdr: "bin_serialize B (message_header message) = Inr hdr"
    using B codec.enc_total[of "bin_serialize B" "bin_deserialize B"] unfolding header_ok_def by blast
  have id: "id_ok (mh_request_id (message_header message))" using ok by (simp add: message_header_def)
  with B hdr have len: "length hdr \<le> MAX_HEADER_SIZE" unfolding header_ok_def by blast
  have dec: "bin_deserialize B hdr = Inr (message_header message)"
    using B codec.dec_enc[of "bin_serialize B" "bin_deserialize B" "\<lambda>h. id_ok (mh_request_id h)", OF _ id hdr]
    unfolding header_ok_def by blast
  have rest: "unread r = u32_be (of_nat (length hdr)) @ hdr @ zm_payload message @ tail" by (simp add: r frame_def hdr)
  obtain r1 where r1: "stream_try ''Failed to read header length: '' (r_read_exact R 4) r = (Inr (u32_be (of_nat (length hdr))), r1)"
    "unread r1 = hdr @ zm_payload message @ tail"
    using read_exactD[OF R, of 4 r] by (auto simp: rest)
  have hl: "unat (of_nat (length hdr) :: u32) = length hdr"
    using len by (simp add: unat_of_nat_u32 MAX_HEADER_SIZE_def)
  obtain r2 where r2: "stream_try ''Failed to read header: '' (r_read_exact R (length hdr)) r1 = (Inr hdr, r2)"
    "unread r2 = zm_payload message @ tail"
    using read_exactD[OF R, of "length hdr" r1] by (auto simp: r1(2))
  have pl: "unat (payload_len (message_header message)) = n" by (simp add: message_header_def n unat_of_nat)
  then have big: "payload_len (message_header message) > MAX_PAYLOAD \<longleftrightarrow> n > unat MAX_PAYLOAD" by (simp add: word_less_nat_alt)
  have "n \<le> length (unread r2)" by (simp add: r2(2) n trans_le_add1)
  moreover have "n \<le> length (zm_payload message)" by (simp add: n)
  ultimately obtain r3 where r3: "(if n > LARGE_MESSAGE_THRESHOLD then read_large_payload_streaming R n
      else read_small_payload_direct R n) r2 = (Inr (take n (zm_payload message)), r3)"
    "unread r3 = drop n (zm_payload message) @ tail"
    using read_payload_ok[OF R, of n r2] by (auto simp: r2(2))
  have run: "read_message_zero_copy R B r = (if n > unat MAX_PAYLOAD
      then (Inl (Internal (''Payload too large: '' @ show_nat n @ '' bytes'')), r2)
      else (Inr (message_header message, take n (zm_payload message)), r3))"
    using len r1(1) r2(1) r3(1)
    by (simp add: read_message_zero_copy_def act_then_apply[of _ _ r] act_then_apply[of _ _ r1] act_then_apply[of _ _ r2]
        Let_def deserialize_payload_def dec big pl hl split: if_splits)
  show ?thesis
  proof (cases "n > unat MAX_PAYLOAD")
    case True
    with run r2(2) show ?thesis by (intro exI[of _ r2]) simp
  next
    case False
    with run r3(2) show ?thesis by (intro exI[of _ r3]) simp
  qed
qed

section \<open>Properties\<close>

text \<open>A message that the reader accepts whole.\<close>

definition message_fits :: "ZeroCopyMessage \<Rightarrow> bool" where
  "message_fits message \<longleftrightarrow> id_ok (zm_request_id message) \<and> length (zm_payload message) \<le> unat MAX_PAYLOAD"

text \<open>A receiver that reads \<open>n\<close> messages.\<close>

fun read_many :: "'r byte_reader \<Rightarrow> MessageHeader bincode \<Rightarrow> nat \<Rightarrow> ('r, (MessageHeader \<times> bytes) list) action" where
  "read_many R B 0 = act_return []"
| "read_many R B (Suc n) = act_then (read_message_zero_copy R B) (\<lambda>m.
     act_then (read_many R B n) (\<lambda>ms. act_return (m # ms)))"

lemma max_payload: "unat MAX_PAYLOAD = 104857600"
  by (simp add: MAX_PAYLOAD_def)

lemma write_frames:
  assumes W: "writer_ok W wrote" and B: "header_ok B"
  shows "\<forall>m \<in> set msgs. message_fits m \<Longrightarrow>
    \<exists>w'. act_each (write_message_zero_copy W B) msgs w = (Inr (), w') \<and> wrote w' = wrote w @ concat (map (frame B) msgs)"
proof (induction msgs arbitrary: w)
  case (Cons m msgs)
  then obtain w1 where w1: "write_message_zero_copy W B m w = (Inr (), w1)" "wrote w1 = wrote w @ frame B m"
    using write_frame[OF W B, of m w] by (auto simp: message_fits_def)
  from Cons obtain w2 where "act_each (write_message_zero_copy W B) msgs w1 = (Inr (), w2)"
    "wrote w2 = wrote w1 @ concat (map (frame B) msgs)" by fastforce
  with w1 show ?case by (simp add: act_then_apply)
qed simp

lemma read_frames:
  assumes R: "reader_ok R unread" and B: "header_ok B"
  shows "\<forall>m \<in> set msgs. message_fits m \<Longrightarrow> unread r = concat (map (frame B) msgs) @ tail \<Longrightarrow>
    \<exists>r'. read_many R B (length msgs) r = (Inr (map (\<lambda>m. (message_header m, zm_payload m)) msgs), r') \<and> unread r' = tail"
proof (induction msgs arbitrary: r)
  case (Cons m msgs)
  let ?n = "length (zm_payload m)"
  from Cons.prems(1) have "id_ok (zm_request_id m)" and len: "?n \<le> unat MAX_PAYLOAD" by (auto simp: message_fits_def)
  moreover have "?n = ?n mod 2 ^ 32" using len by (simp add: max_payload)
  moreover have "unread r = frame B m @ concat (map (frame B) msgs) @ tail" using Cons.prems(2) by simp
  ultimately obtain r1 where r1: "read_message_zero_copy R B r = (Inr (message_header m, zm_payload m), r1)"
    "unread r1 = concat (map (frame B) msgs) @ tail"
    using read_frame[OF R B, of m r _ ?n] by auto
  from Cons.IH[OF _ r1(2)] Cons.prems(1) obtain r2 where
    "read_many R B (length msgs) r1 = (Inr (map (\<lambda>m. (message_header m, zm_payload m)) msgs), r2)" "unread r2 = tail" by auto
  with r1(1) show ?case by (simp add: act_then_apply)
qed simp

text \<open>
  C4: messages written to a stream one after the other, small ones in one piece and large ones in
  chunks, are read back in order and unchanged, whatever follows them, as long as their
  payloads have at most 100 MiB.
\<close>

theorem frames_roundtrip:
  assumes "writer_ok W wrote" and "reader_ok R unread" and "header_ok B"
    and "\<forall>m \<in> set msgs. message_fits m" and "wrote w = []"
  shows "\<exists>w'. act_each (write_message_zero_copy W B) msgs w = (Inr (), w')
    \<and> (\<forall>r tail. unread r = wrote w' @ tail \<longrightarrow>
        (\<exists>r'. read_many R B (length msgs) r = (Inr (map (\<lambda>m. (message_header m, zm_payload m)) msgs), r') \<and> unread r' = tail))"
  using write_frames[OF assms(1,3,4), of w] read_frames[OF assms(2,3,4)] assms(5) by fastforce

text \<open>
  The writer takes a payload of any length and never fails; the header holds the length
  modulo \<open>2 ^ 32\<close>. If that is at most 100 MiB the reader returns the first so many bytes, which is
  the whole message only below \<open>2 ^ 32\<close> bytes, and the rest stays on the stream; above 100 MiB it
  refuses the message and leaves the payload on the stream.
\<close>

theorem oversized_payload:
  assumes "writer_ok W wrote" and "reader_ok R unread" and "header_ok B" and "id_ok (zm_request_id message)"
    and "wrote w = []" and k: "k = length (zm_payload message) mod 2 ^ 32"
  shows "\<exists>w'. write_message_zero_copy W B message w = (Inr (), w') \<and> (\<forall>r. unread r = wrote w' \<longrightarrow> (\<exists>r'.
    if k \<le> 104857600
    then read_message_zero_copy R B r = (Inr (message_header message, take k (zm_payload message)), r')
      \<and> unread r' = drop k (zm_payload message)
    else read_message_zero_copy R B r = (Inl (Internal (''Payload too large: '' @ show_nat k @ '' bytes'')), r')
      \<and> unread r' = zm_payload message))"
proof -
  obtain w' where w': "write_message_zero_copy W B message w = (Inr (), w')" "wrote w' = frame B message"
    using write_frame[OF assms(1,3,4), of w] assms(5) by auto
  have rd: "\<exists>r'. if k \<le> 104857600
      then read_message_zero_copy R B r = (Inr (message_header message, take k (zm_payload message)), r')
        \<and> unread r' = drop k (zm_payload message)
      else read_message_zero_copy R B r = (Inl (Internal (''Payload too large: '' @ show_nat k @ '' bytes'')), r')
        \<and> unread r' = zm_payload message" if "unread r = frame B message" for r
  proof -
    from that have "unread r = frame B message @ []" by simp
    from read_frame[OF assms(2,3,4) this k] show ?thesis
      by (cases "k \<le> 104857600") (simp_all add: max_payload)
  qed
  show ?thesis using w' by (intro exI[of _ w'] conjI allI impI rd) simp_all
qed

text \<open>
  C30: a request for \<open>raft.message\<close> hands the decoded message to the Raft manager once, under the sender
  it names itself, and answers success; any other service or method delivers nothing and
  answers an error that names it. Either way one response with the id of the request is sent.
\<close>

theorem rpc_request_served:
  assumes "writer_ok (p_writer D) wrote" and "header_ok (p_header D)" and "bincode_ok (p_response D)"
    and "zm_type message = Request" and "id_ok (zm_request_id message)" and "raft_rx_open s"
    and "bin_deserialize (p_request D) (zm_payload message) = Inr request"
    and "decode (p_message D) (rpc_payload request) = Inr m"
  shows "\<exists>w body. process_message_zero_copy D message s = (Inr (),
       s\<lparr>st_send := w, raft_rx := raft_rx s
          @ (if rpc_service request = ''raft'' \<and> rpc_method request = ''raft.message'' then [(msg_from m, m)] else [])\<rparr>)
    \<and> wrote w = wrote (st_send s) @ frame (p_header D) (zero_copy_message Response (zm_request_id message) body)
    \<and> bin_serialize (p_response D) (if rpc_service request = ''raft'' \<and> rpc_method request = ''raft.message''
        then \<lparr>rpc_success = True, rpc_result = None, rpc_error = None\<rparr>
        else \<lparr>rpc_success = False, rpc_result = None,
          rpc_error = Some (''Unknown service/method: '' @ rpc_service request @ ''/'' @ rpc_method request)\<rparr>) = Inr body"
proof -
  let ?known = "rpc_service request = ''raft'' \<and> rpc_method request = ''raft.message''"
  let ?resp = "if ?known then \<lparr>rpc_success = True, rpc_result = None, rpc_error = None\<rparr>
        else \<lparr>rpc_success = False, rpc_result = None,
          rpc_error = Some (''Unknown service/method: '' @ rpc_service request @ ''/'' @ rpc_method request)\<rparr>"
  let ?s = "s\<lparr>raft_rx := raft_rx s @ (if ?known then [(msg_from m, m)] else [])\<rparr>"
  have resp: "rpc_response_for D request s = (Inr ?resp, ?s)"
    using assms(6,8) by (simp add: rpc_response_for_def deserialize_raft_message_fast_def deliver_def)
  obtain body where body: "bin_serialize (p_response D) ?resp = Inr body"
    using assms(3) codec.enc_total[of "bin_serialize (p_response D)" "bin_deserialize (p_response D)"]
    unfolding bincode_ok_def by blast
  obtain w where w: "write_message_zero_copy (p_writer D) (p_header D)
      (zero_copy_message Response (zm_request_id message) body) (st_send s) = (Inr (), w)"
    "wrote w = wrote (st_send s) @ frame (p_header D) (zero_copy_message Response (zm_request_id message) body)"
    using write_frame[OF assms(1,2), of "zero_copy_message Response (zm_request_id message) body" "st_send s"] assms(5)
    by (auto simp: zero_copy_message_def)
  have "process_message_zero_copy D message s = (Inr (), ?s\<lparr>st_send := w\<rparr>)"
    using assms(4,7) body w(1)
    by (simp add: process_message_zero_copy_def handle_rpc_request_zero_copy_def deserialize_payload_def
        act_then_apply resp serialize_payload_zero_copy_def on_send_def del: if_split)
  with w(2) body show ?thesis by (intro exI[of _ w] exI[of _ body]) simp
qed

section \<open>Examples\<close>

text \<open>Streams in memory, and encodings of headers and responses that keep what is asked of them.\<close>

definition mem_writer :: "bytes byte_writer" where
  "mem_writer = \<lparr>w_write_all = (\<lambda>bs w. (Inr (), w @ bs)), w_flush = (\<lambda>w. (Inr (), w))\<rparr>"

definition mem_reader :: "bytes byte_reader" where
  "mem_reader = \<lparr>r_read_exact = (\<lambda>n r. if n \<le> length r then (Inr (take n r), drop n r) else (Inl ''early eof'', []))\<rparr>"

lemma mem_stream_ok: "writer_ok mem_writer id" "reader_ok mem_reader id"
  by (simp_all add: writer_ok_def reader_ok_def mem_writer_def mem_reader_def)

fun type_byte :: "MessageType \<Rightarrow> u8" where
  "type_byte Request = 0" | "type_byte Response = 1" | "type_byte DirectRaft = 2" | "type_byte Heartbeat = 3" | "type_byte ErrorMessage = 4"

definition byte_type :: "u8 \<Rightarrow> MessageType" where
  "byte_type b = (if b = 0 then Request else if b = 1 then Response else if b = 2 then DirectRaft else if b = 3 then Heartbeat else ErrorMessage)"

lemma byte_type [simp]: "byte_type (type_byte t) = t"
  by (cases t) (simp_all add: byte_type_def)

definition header_wire :: "MessageHeader bincode" where
  "header_wire = \<lparr>bin_serialize = (\<lambda>h. Inr (type_byte (mh_type h) # u32_le (payload_len h)
       @ (case mh_request_id h of None \<Rightarrow> [0] | Some i \<Rightarrow> 1 # i))),
     bin_deserialize = (\<lambda>bs. case bs of [] \<Rightarrow> Inl ''eof'' | b # bs \<Rightarrow> Inr \<lparr>mh_type = byte_type b,
       mh_request_id = (if hd (drop 4 bs) = 0 then None else Some (drop 5 bs)), payload_len = u32_from_le (take 4 bs)\<rparr>)\<rparr>"

lemma header_wire_ok: "header_ok header_wire"
  unfolding header_ok_def
proof (intro conjI allI impI)
  have "drop 5 (u32_le v @ x # i) = i" for v x i using length_word_le(2)[of v] by (simp del: length_word_le(2))
  then show "codec (bin_serialize header_wire) (bin_deserialize header_wire) (\<lambda>h. id_ok (mh_request_id h))"
    by unfold_locales (auto simp: header_wire_def split: option.splits)
  show "length bs \<le> MAX_HEADER_SIZE" if "id_ok (mh_request_id h)" "bin_serialize header_wire h = Inr bs" for h bs
    using that by (auto simp: header_wire_def id_ok_def MAX_HEADER_SIZE_def split: option.splits)
qed

definition put_option :: "bytes option \<Rightarrow> bytes" where
  "put_option v = (case v of None \<Rightarrow> 0 # put_bytes [] | Some bs \<Rightarrow> 1 # put_bytes bs)"

definition get_option :: "bytes \<Rightarrow> bytes option \<times> bytes" where
  "get_option bs = (case get_bytes (tl bs) of (v, r) \<Rightarrow> (if hd bs = 0 then None else Some v, r))"

lemma get_option_put: "get_option (put_option v @ r # rest) = (v, r # rest)"
  by (cases v) (simp_all add: get_option_def put_option_def get_bytes_put)

definition response_wire :: "RpcResponse bincode" where
  "response_wire = \<lparr>bin_serialize = (\<lambda>r. Inr (bool_byte (rpc_success r) # put_option (rpc_result r)
       @ put_option (map_option string_bytes (rpc_error r)) @ [0])),
     bin_deserialize = (\<lambda>bs. case get_option (tl bs) of (v, r) \<Rightarrow>
       Inr \<lparr>rpc_success = (hd bs \<noteq> 0), rpc_result = v, rpc_error = map_option bytes_string (fst (get_option r))\<rparr>)\<rparr>"

lemma put_option_nonempty: "\<exists>r rest. put_option v @ bs = r # rest"
  by (simp add: put_option_def split: option.split)

lemma response_wire_ok: "bincode_ok response_wire"
proof -
  have "get_option (put_option v @ put_option e @ [0]) = (v, put_option e @ [0])" for v e
    using put_option_nonempty[of e "[0]"] get_option_put[of v] by metis
  then show ?thesis
    unfolding bincode_ok_def
    by unfold_locales (auto simp: response_wire_def get_option_put option.map_comp comp_def bytes_string_bytes option.map_ident bool_byte_def)
qed

definition large_message :: ZeroCopyMessage where
  "large_message = zero_copy_message DirectRaft (Some (replicate 16 9)) (replicate 70000 7)"

theorem frames_roundtrip_witness:
  "\<exists>w'. act_each (write_message_zero_copy mem_writer header_wire) [create_heartbeat_message, large_message] [] = (Inr (), w')
    \<and> is_large_message large_message
    \<and> map snd (projr (fst (read_many mem_reader header_wire 2 w'))) = [[], replicate 70000 7]"
proof -
  let ?msgs = "[create_heartbeat_message, large_message]"
  have "\<forall>m \<in> set ?msgs. message_fits m"
    by (simp add: message_fits_def create_heartbeat_message_def large_message_def zero_copy_message_def id_ok_def max_payload)
  from frames_roundtrip [OF mem_stream_ok header_wire_ok this, of "[]"] obtain w' where
    w': "act_each (write_message_zero_copy mem_writer header_wire) ?msgs [] = (Inr (), w')"
      "\<forall>r tail. id r = id w' @ tail \<longrightarrow> (\<exists>r'. read_many mem_reader header_wire (length ?msgs) r
        = (Inr (map (\<lambda>m. (message_header m, zm_payload m)) ?msgs), r') \<and> id r' = tail)" by auto
  from w'(2)[rule_format, of w' "[]"] obtain r' where
    "read_many mem_reader header_wire (length ?msgs) w' = (Inr (map (\<lambda>m. (message_header m, zm_payload m)) ?msgs), r')" by auto
  then have "map snd (projr (fst (read_many mem_reader header_wire 2 w'))) = map zm_payload ?msgs"
    by (simp add: numeral_2_eq_2)
  with w'(1) show ?thesis
    by (intro exI[of _ w']) (simp add: create_heartbeat_message_def large_message_def zero_copy_message_def
        is_large_message_def LARGE_MESSAGE_THRESHOLD_def)
qed

theorem oversized_payload_witness:
  "\<exists>w'. write_message_zero_copy mem_writer header_wire (zero_copy_message DirectRaft None (replicate (2 ^ 32 + 5) 0)) [] = (Inr (), w')
    \<and> map_prod (map_sum id snd) length (read_message_zero_copy mem_reader header_wire w') = (Inr (replicate 5 0), 2 ^ 32)"
proof -
  let ?m = "zero_copy_message DirectRaft None (replicate (2 ^ 32 + 5) 0)"
  have "id_ok (zm_request_id ?m)" "5 = length (zm_payload ?m) mod 2 ^ 32"
    by (simp_all only: zero_copy_message_def id_ok_def ZeroCopyMessage.simps option.case length_replicate) simp
  from oversized_payload [OF mem_stream_ok header_wire_ok this(1) _ this(2), of "[]"] obtain w' r' where
    w': "write_message_zero_copy mem_writer header_wire ?m [] = (Inr (), w')"
    and r': "read_message_zero_copy mem_reader header_wire w' = (Inr (message_header ?m, take 5 (zm_payload ?m)), r')"
      "r' = drop 5 (zm_payload ?m)" by auto
  have "take 5 (zm_payload ?m) = replicate 5 0" "length (drop 5 (zm_payload ?m)) = 2 ^ 32"
    by (simp_all only: zero_copy_message_def ZeroCopyMessage.simps take_replicate length_drop length_replicate) simp_all
  then have "map_prod (map_sum id snd) length (read_message_zero_copy mem_reader header_wire w') = (Inr (replicate 5 0), 2 ^ 32)"
    by (simp only: r' map_prod_simp map_sum.simps snd_conv)
  with w' show ?thesis by blast
qed

text \<open>A handler on these streams that gets a request with a vote.\<close>

definition sample_vote :: Message where
  "sample_vote = \<lparr>msg_type = MsgRequestVote, msg_to = 1, msg_from = 2, msg_body = []\<rparr>"

definition sample_protocol :: "string \<Rightarrow> (bytes, bytes) protocol_deps" where
  "sample_protocol method = \<lparr>p_writer = mem_writer, p_reader = mem_reader, p_header = header_wire,
     p_request = \<lparr>bin_serialize = (\<lambda>r. Inr (rpc_payload r)),
       bin_deserialize = (\<lambda>bs. Inr \<lparr>rpc_service = ''raft'', rpc_method = method, rpc_payload = bs\<rparr>)\<rparr>,
     p_response = response_wire,
     p_message = \<lparr>encode_to_vec = msg_body, decode = (\<lambda>bs. Inr (sample_vote\<lparr>msg_body := bs\<rparr>))\<rparr>\<rparr>"

definition sample_stream :: "(bytes, bytes) stream_state" where
  "sample_stream = \<lparr>st_send = [], st_recv = [], raft_rx = [], raft_rx_open = True\<rparr>"

theorem rpc_request_served_witness:
  "(\<exists>s. process_message_zero_copy (sample_protocol ''raft.message'') (zero_copy_message Request None [5]) sample_stream = (Inr (), s)
      \<and> raft_rx s = [(2, sample_vote\<lparr>msg_body := [5]\<rparr>)])
   \<and> (\<exists>s. process_message_zero_copy (sample_protocol ''status'') (zero_copy_message Request None [5]) sample_stream = (Inr (), s)
      \<and> raft_rx s = [])"
proof -
  have ok: "writer_ok (p_writer (sample_protocol x)) id" "header_ok (p_header (sample_protocol x))"
    "bincode_ok (p_response (sample_protocol x))" for x
    by (simp_all add: sample_protocol_def mem_stream_ok header_wire_ok response_wire_ok)
  let ?m = "zero_copy_message Request None [5]"
  have m: "zm_type ?m = Request" "id_ok (zm_request_id ?m)" "raft_rx_open sample_stream"
    "bin_deserialize (p_request (sample_protocol x)) (zm_payload ?m) = Inr \<lparr>rpc_service = ''raft'', rpc_method = x, rpc_payload = [5]\<rparr>"
    "decode (p_message (sample_protocol x)) (rpc_payload \<lparr>rpc_service = ''raft'', rpc_method = x, rpc_payload = [5]\<rparr>)
      = Inr (sample_vote\<lparr>msg_body := [5]\<rparr>)" for x
    by (simp_all add: zero_copy_message_def id_ok_def sample_stream_def sample_protocol_def)
  note served = rpc_request_served [OF ok m]
  show ?thesis
    using served[of "''raft.message''"] served[of "''status''"] by (auto simp: sample_stream_def sample_vote_def)
qed

end
