(* ===== verification/Config.thy ===== *)
theory Config
  imports Errors F64
begin

text \<open>
  \<open>src/src/config.rs\<close>: the configuration of a node, its defaults, validation, overrides from
  environment variables, and the builder. A socket address is its text; parsing one, the
  environment, the files and the TOML format are arguments. The sample rate is a floating-point
  number of which only the order matters.
\<close>

section \<open>Data\<close>

datatype ConfigError = Invalid string string | Missing string | ConfigIo error_text | ConfigSerialization error_text
  | Environment string | AddressParse error_text

datatype f64_value = Finite rat | Infinity | NegInfinity | NaN

datatype ReadOnlyOption = Disabled | LeaderLease | ReadIndex
datatype StorageBackend = RedbBackend | MemoryBackend | CustomBackend string
datatype SyncStrategy = SyncNone | SyncAlways | SyncPeriodic | SyncOnCommit

record NodeMetadata =
  nm_name :: "string option"
  nm_zone :: "string option"
  nm_tags :: "string \<rightharpoonup> string"

record NodeConfig =
  node_id :: "u64 option"
  data_dir :: string
  node_debug :: bool
  node_metadata :: NodeMetadata

record CompactionConfig =
  cc_enabled :: bool
  cc_threshold_entries :: u64
  cc_threshold_bytes :: u64
  cc_check_interval :: duration
  cc_retain_entries :: u64

record SnapshotConfig =
  sc_enabled :: bool
  sc_threshold_entries :: u64
  sc_threshold_bytes :: u64
  sc_compression_level :: u32
  sc_creation_timeout :: duration

record RaftConfig =
  election_timeout_min :: duration
  election_timeout_max :: duration
  heartbeat_interval :: duration
  max_uncommitted_entries :: u64
  max_inflight_msgs :: u64
  rc_compaction :: CompactionConfig
  rc_snapshot :: SnapshotConfig
  config_change_timeout :: duration
  pre_vote :: bool
  read_only_option :: ReadOnlyOption

record ConnectionConfig =
  connect_timeout :: duration
  keep_alive_interval :: duration
  max_connections_per_peer :: u64
  idle_timeout :: duration
  max_message_size :: u64
  enable_pooling :: bool

record DiscoveryConfig =
  enable_mdns :: bool
  enable_dht :: bool
  bootstrap_nodes :: "string list"
  discovery_interval :: duration

record PortMappingConfig =
  enable_upnp :: bool
  enable_pcp :: bool
  mapping_timeout :: duration

record IrohConfig =
  iroh_relay_url :: "string option"
  stun_servers :: "string list"
  iroh_discovery :: DiscoveryConfig
  alpn_protocols :: "string list"
  enable_ipv6 :: bool
  port_mapping :: PortMappingConfig

record TransportConfig =
  bind_address :: string
  transport_peers :: "string list"
  tc_connection :: ConnectionConfig
  tc_iroh :: IrohConfig

record StorageConfig =
  storage_backend :: StorageBackend
  sync_strategy :: SyncStrategy
  cache_size_mb :: u64
  enable_wal :: bool
  wal_sync_interval :: duration
  file_permissions :: u32

record LoggingConfig =
  log_level :: string
  log_format :: string
  log_structured :: bool
  log_file :: "string option"
  max_file_size_mb :: u64
  max_files :: u32

record MetricsConfig =
  metrics_enabled :: bool
  metrics_bind_address :: "string option"
  collection_interval :: duration
  prometheus :: bool
  metrics_prefix :: string

record TracingConfig =
  tracing_enabled :: bool
  otlp_endpoint :: "string option"
  sample_rate :: f64_value
  max_spans_per_trace :: u32

record ObservabilityConfig =
  ob_logging :: LoggingConfig
  ob_metrics :: MetricsConfig
  ob_tracing :: TracingConfig

record Config =
  cfg_node :: NodeConfig
  cfg_raft :: RaftConfig
  cfg_transport :: TransportConfig
  cfg_storage :: StorageConfig
  cfg_observability :: ObservabilityConfig

section \<open>Defaults\<close>

definition default_node :: NodeConfig where
  "default_node = \<lparr>node_id = None, data_dir = ''./data'', node_debug = False,
     node_metadata = \<lparr>nm_name = None, nm_zone = None, nm_tags = Map.empty\<rparr>\<rparr>"

definition default_compaction :: CompactionConfig where
  "default_compaction = \<lparr>cc_enabled = True, cc_threshold_entries = 10000, cc_threshold_bytes = 100 * 1024 * 1024,
     cc_check_interval = from_secs 300, cc_retain_entries = 1000\<rparr>"

definition default_snapshots :: SnapshotConfig where
  "default_snapshots = \<lparr>sc_enabled = True, sc_threshold_entries = 50000, sc_threshold_bytes = 500 * 1024 * 1024,
     sc_compression_level = 3, sc_creation_timeout = from_secs 300\<rparr>"

definition default_raft :: RaftConfig where
  "default_raft = \<lparr>election_timeout_min = from_millis 3000, election_timeout_max = from_millis 5000,
     heartbeat_interval = from_millis 1000, max_uncommitted_entries = 10000, max_inflight_msgs = 256,
     rc_compaction = default_compaction, rc_snapshot = default_snapshots, config_change_timeout = from_secs 30,
     pre_vote = True, read_only_option = Disabled\<rparr>"

definition default_connection :: ConnectionConfig where
  "default_connection = \<lparr>connect_timeout = from_secs 10, keep_alive_interval = from_secs 30,
     max_connections_per_peer = 10, idle_timeout = from_secs 300, max_message_size = 16 * 1024 * 1024, enable_pooling = True\<rparr>"

definition default_discovery :: DiscoveryConfig where
  "default_discovery = \<lparr>enable_mdns = True, enable_dht = False, bootstrap_nodes = [], discovery_interval = from_secs 30\<rparr>"

definition default_port_mapping :: PortMappingConfig where
  "default_port_mapping = \<lparr>enable_upnp = True, enable_pcp = False, mapping_timeout = from_secs 30\<rparr>"

definition default_iroh :: IrohConfig where
  "default_iroh = \<lparr>iroh_relay_url = Some ''https://relay.iroh.network'',
     stun_servers = [''stun.l.google.com:19302'', ''stun1.l.google.com:19302''], iroh_discovery = default_discovery,
     alpn_protocols = [''iroh-raft/1.0''], enable_ipv6 = True, port_mapping = default_port_mapping\<rparr>"

definition default_transport :: TransportConfig where
  "default_transport = \<lparr>bind_address = ''127.0.0.1:0'', transport_peers = [], tc_connection = default_connection,
     tc_iroh = default_iroh\<rparr>"

definition default_storage :: StorageConfig where
  "default_storage = \<lparr>storage_backend = RedbBackend, sync_strategy = SyncPeriodic, cache_size_mb = 128, enable_wal = True,
     wal_sync_interval = from_secs 1, file_permissions = 384\<rparr>"

definition default_logging :: LoggingConfig where
  "default_logging = \<lparr>log_level = ''info'', log_format = ''pretty'', log_structured = False, log_file = None,
     max_file_size_mb = 100, max_files = 10\<rparr>"

definition default_metrics :: MetricsConfig where
  "default_metrics = \<lparr>metrics_enabled = True, metrics_bind_address = None, collection_interval = from_secs 15,
     prometheus = True, metrics_prefix = ''iroh_raft''\<rparr>"

definition default_tracing :: TracingConfig where
  "default_tracing = \<lparr>tracing_enabled = False, otlp_endpoint = None, sample_rate = Finite (1 / 10), max_spans_per_trace = 1000\<rparr>"

definition default_observability :: ObservabilityConfig where
  "default_observability = \<lparr>ob_logging = default_logging, ob_metrics = default_metrics, ob_tracing = default_tracing\<rparr>"

definition default_config :: Config where
  "default_config = \<lparr>cfg_node = default_node, cfg_raft = default_raft, cfg_transport = default_transport,
     cfg_storage = default_storage, cfg_observability = default_observability\<rparr>"

section \<open>Validation\<close>

text \<open>\<open>(0.0..=1.0).contains(x)\<close>.\<close>

definition rate_ok :: "f64_value \<Rightarrow> bool" where
  "rate_ok x = (case x of Finite r \<Rightarrow> 0 \<le> r \<and> r \<le> 1 | _ \<Rightarrow> False)"

text \<open>The loop with the set of peers that were seen: the first address that comes twice.\<close>

fun duplicate_peer :: "string list \<Rightarrow> string list \<Rightarrow> string option" where
  "duplicate_peer seen_peers [] = None"
| "duplicate_peer seen_peers (peer # peers) =
    (if peer \<in> set seen_peers then Some peer else duplicate_peer (peer # seen_peers) peers)"

definition log_levels :: "string list" where
  "log_levels = [''trace'', ''debug'', ''info'', ''warn'', ''error'']"

definition validate :: "Config \<Rightarrow> ConfigError + unit" where
  "validate c =
    (if node_id (cfg_node c) = None then Inl (Missing ''node.id'')
     else if data_dir (cfg_node c) = '''' then Inl (Invalid ''node.data_dir'' ''Data directory cannot be empty'')
     else if heartbeat_interval (cfg_raft c) \<ge> election_timeout_min (cfg_raft c)
       then Inl (Invalid ''raft.heartbeat_interval'' ''Heartbeat interval must be less than election timeout'')
     else if election_timeout_min (cfg_raft c) \<ge> election_timeout_max (cfg_raft c)
       then Inl (Invalid ''raft.election_timeout'' ''Election timeout min must be less than max'')
     else case duplicate_peer [] (transport_peers (cfg_transport c)) of
       Some peer \<Rightarrow> Inl (Invalid ''transport.peers'' (''Duplicate peer address: '' @ peer))
     | None \<Rightarrow>
        if log_level (ob_logging (cfg_observability c)) \<notin> set log_levels
          then Inl (Invalid ''observability.logging.level''
            (''Invalid log level: '' @ log_level (ob_logging (cfg_observability c))))
        else if \<not> rate_ok (sample_rate (ob_tracing (cfg_observability c)))
          then Inl (Invalid ''observability.tracing.sample_rate'' ''Sample rate must be between 0.0 and 1.0'')
        else Inr ())"

section \<open>Overrides from the environment\<close>

text \<open>\<open>str::parse\<close> for \<open>u64\<close> and \<open>bool\<close>, \<open>str::trim\<close> and \<open>str::split\<close> on ASCII text.\<close>

definition digit_value :: "char \<Rightarrow> nat option" where
  "digit_value c = (let n = of_char c :: nat in if 48 \<le> n \<and> n \<le> 57 then Some (n - 48) else None)"

fun parse_digits :: "nat \<Rightarrow> string \<Rightarrow> error_text + nat" where
  "parse_digits n [] = Inr n"
| "parse_digits n (c # cs) = (case digit_value c of
     None \<Rightarrow> Inl ''invalid digit found in string''
   | Some d \<Rightarrow> if n * 10 + d < 2 ^ 64 then parse_digits (n * 10 + d) cs
       else Inl ''number too large to fit in target type'')"

definition parse_u64 :: "string \<Rightarrow> error_text + u64" where
  "parse_u64 s = (if s = '''' then Inl ''cannot parse integer from empty string''
     else if s = ''+'' \<or> s = ''-'' then Inl ''invalid digit found in string''
     else map_sum id of_nat (parse_digits 0 (if hd s = CHR ''+'' then tl s else s)))"

definition parse_bool :: "string \<Rightarrow> bool option" where
  "parse_bool s = (if s = ''true'' then Some True else if s = ''false'' then Some False else None)"

definition is_whitespace :: "char \<Rightarrow> bool" where
  "is_whitespace c \<longleftrightarrow> (let n = of_char c :: nat in n = 32 \<or> (9 \<le> n \<and> n \<le> 13))"

definition trim :: "string \<Rightarrow> string" where
  "trim s = rev (dropWhile is_whitespace (rev (dropWhile is_whitespace s)))"

fun split_on :: "char \<Rightarrow> string \<Rightarrow> string list" where
  "split_on c [] = [[]]"
| "split_on c (x # xs) = (if x = c then [] # split_on c xs
     else case split_on c xs of [] \<Rightarrow> [[x]] | p # ps \<Rightarrow> (x # p) # ps)"

record config_env =
  env_var :: "string \<Rightarrow> string option"
  parse_addr :: "string \<Rightarrow> error_text + string"
  read_file :: "string \<Rightarrow> error_text + string"
  from_toml :: "string \<Rightarrow> error_text + Config"

text \<open>One override: nothing when the variable is not set.\<close>

definition override :: "config_env \<Rightarrow> string \<Rightarrow> (string \<Rightarrow> Config \<Rightarrow> ConfigError + Config) \<Rightarrow> Config \<Rightarrow> ConfigError + Config" where
  "override e name f c = (case env_var e name of None \<Rightarrow> Inr c | Some v \<Rightarrow> f v c)"

definition set_node :: "(NodeConfig \<Rightarrow> NodeConfig) \<Rightarrow> Config \<Rightarrow> Config" where
  "set_node f c = c\<lparr>cfg_node := f (cfg_node c)\<rparr>"
definition set_raft :: "(RaftConfig \<Rightarrow> RaftConfig) \<Rightarrow> Config \<Rightarrow> Config" where
  "set_raft f c = c\<lparr>cfg_raft := f (cfg_raft c)\<rparr>"
definition set_transport :: "(TransportConfig \<Rightarrow> TransportConfig) \<Rightarrow> Config \<Rightarrow> Config" where
  "set_transport f c = c\<lparr>cfg_transport := f (cfg_transport c)\<rparr>"
definition set_storage :: "(StorageConfig \<Rightarrow> StorageConfig) \<Rightarrow> Config \<Rightarrow> Config" where
  "set_storage f c = c\<lparr>cfg_storage := f (cfg_storage c)\<rparr>"
definition set_logging :: "(LoggingConfig \<Rightarrow> LoggingConfig) \<Rightarrow> Config \<Rightarrow> Config" where
  "set_logging f c = c\<lparr>cfg_observability := (cfg_observability c)\<lparr>ob_logging := f (ob_logging (cfg_observability c))\<rparr>\<rparr>"
definition set_metrics :: "(MetricsConfig \<Rightarrow> MetricsConfig) \<Rightarrow> Config \<Rightarrow> Config" where
  "set_metrics f c = c\<lparr>cfg_observability := (cfg_observability c)\<lparr>ob_metrics := f (ob_metrics (cfg_observability c))\<rparr>\<rparr>"
definition set_tracing :: "(TracingConfig \<Rightarrow> TracingConfig) \<Rightarrow> Config \<Rightarrow> Config" where
  "set_tracing f c = c\<lparr>cfg_observability := (cfg_observability c)\<lparr>ob_tracing := f (ob_tracing (cfg_observability c))\<rparr>\<rparr>"

lemmas set_defs = set_node_def set_raft_def set_transport_def set_storage_def set_logging_def set_metrics_def set_tracing_def

definition override_election_timeout :: "string \<Rightarrow> Config \<Rightarrow> ConfigError + Config" where
  "override_election_timeout v c =
     and_then (map_err (\<lambda>e. Environment (''Invalid election timeout: '' @ e)) (parse_u64 v)) (\<lambda>timeout_ms.
       Inr (set_raft (\<lambda>r. r\<lparr>election_timeout_min := from_millis (unat timeout_ms),
         election_timeout_max := from_millis (unat (timeout_ms + 2000))\<rparr>) c))"

definition apply_env_overrides :: "config_env \<Rightarrow> Config \<Rightarrow> ConfigError + Config" where
  "apply_env_overrides e c =
     and_then (override e ''IROH_RAFT_NODE_ID'' (\<lambda>v c.
       and_then (map_err (\<lambda>e. Environment (''Invalid node ID: '' @ e)) (parse_u64 v)) (\<lambda>i.
         Inr (set_node (\<lambda>n. n\<lparr>node_id := Some i\<rparr>) c))) c) (\<lambda>c.
     and_then (override e ''IROH_RAFT_DATA_DIR'' (\<lambda>v c. Inr (set_node (\<lambda>n. n\<lparr>data_dir := v\<rparr>) c)) c) (\<lambda>c.
     and_then (override e ''IROH_RAFT_DEBUG'' (\<lambda>v c.
       Inr (set_node (\<lambda>n. n\<lparr>node_debug := (case parse_bool v of Some b \<Rightarrow> b | None \<Rightarrow> False)\<rparr>) c)) c) (\<lambda>c.
     and_then (override e ''IROH_RAFT_BIND_ADDRESS'' (\<lambda>v c.
       and_then (map_err AddressParse (parse_addr e v)) (\<lambda>a. Inr (set_transport (\<lambda>t. t\<lparr>bind_address := a\<rparr>) c))) c) (\<lambda>c.
     and_then (override e ''IROH_RAFT_PEERS'' (\<lambda>v c.
       and_then (map_err AddressParse (collect_results (map (\<lambda>p. parse_addr e (trim p)) (split_on CHR '','' v)))) (\<lambda>ps.
         Inr (set_transport (\<lambda>t. t\<lparr>transport_peers := ps\<rparr>) c))) c) (\<lambda>c.
     and_then (override e ''IROH_RAFT_ELECTION_TIMEOUT_MS'' override_election_timeout c) (\<lambda>c.
     and_then (override e ''IROH_RAFT_HEARTBEAT_INTERVAL_MS'' (\<lambda>v c.
       and_then (map_err (\<lambda>e. Environment (''Invalid heartbeat interval: '' @ e)) (parse_u64 v)) (\<lambda>ms.
         Inr (set_raft (\<lambda>r. r\<lparr>heartbeat_interval := from_millis (unat ms)\<rparr>) c))) c) (\<lambda>c.
     and_then (override e ''IROH_RAFT_LOG_LEVEL'' (\<lambda>v c. Inr (set_logging (\<lambda>l. l\<lparr>log_level := v\<rparr>) c)) c) (\<lambda>c.
     and_then (override e ''IROH_RAFT_METRICS_ENABLED'' (\<lambda>v c.
       Inr (set_metrics (\<lambda>m. m\<lparr>metrics_enabled := (case parse_bool v of Some b \<Rightarrow> b | None \<Rightarrow> True)\<rparr>) c)) c) (\<lambda>c.
       override e ''OTEL_EXPORTER_OTLP_ENDPOINT'' (\<lambda>v c.
         Inr (set_tracing (\<lambda>t. t\<lparr>tracing_enabled := True, otlp_endpoint := Some v\<rparr>) c)) c)))))))))"

definition from_file :: "config_env \<Rightarrow> string \<Rightarrow> ConfigError + Config" where
  "from_file e path =
     and_then (map_err ConfigIo (read_file e path)) (\<lambda>content.
     and_then (map_err ConfigSerialization (from_toml e content)) (\<lambda>config.
     and_then (apply_env_overrides e config) (\<lambda>config.
     and_then (validate config) (\<lambda>_. Inr config))))"

definition from_env :: "config_env \<Rightarrow> ConfigError + Config" where
  "from_env e = and_then (apply_env_overrides e default_config) (\<lambda>config.
     and_then (validate config) (\<lambda>_. Inr config))"

section \<open>The builder\<close>

record ConfigBuilder =
  builder_config :: Config

definition on_config :: "(Config \<Rightarrow> Config) \<Rightarrow> ConfigBuilder \<Rightarrow> ConfigBuilder" where
  "on_config f b = b\<lparr>builder_config := f (builder_config b)\<rparr>"

definition builder_new :: ConfigBuilder where
  "builder_new = \<lparr>builder_config = default_config\<rparr>"

definition development_preset :: ConfigBuilder where
  "development_preset = \<lparr>builder_config = default_config\<lparr>
     cfg_raft := default_raft\<lparr>election_timeout_min := from_millis 1000, election_timeout_max := from_millis 2000,
       heartbeat_interval := from_millis 250\<rparr>,
     cfg_observability := default_observability\<lparr>ob_logging := default_logging\<lparr>log_level := ''debug''\<rparr>\<rparr>,
     cfg_storage := default_storage\<lparr>sync_strategy := SyncPeriodic\<rparr>\<rparr>\<rparr>"

definition production_preset :: ConfigBuilder where
  "production_preset = \<lparr>builder_config = default_config\<lparr>
     cfg_raft := default_raft\<lparr>election_timeout_min := from_millis 5000, election_timeout_max := from_millis 10000,
       heartbeat_interval := from_millis 1000\<rparr>,
     cfg_observability := default_observability\<lparr>ob_logging := default_logging\<lparr>log_level := ''info''\<rparr>\<rparr>,
     cfg_storage := default_storage\<lparr>sync_strategy := SyncOnCommit\<rparr>\<rparr>\<rparr>"

definition testing_preset :: ConfigBuilder where
  "testing_preset = \<lparr>builder_config = default_config\<lparr>
     cfg_raft := default_raft\<lparr>election_timeout_min := from_millis 500, election_timeout_max := from_millis 1000,
       heartbeat_interval := from_millis 100\<rparr>,
     cfg_observability := default_observability\<lparr>ob_logging := default_logging\<lparr>log_level := ''warn''\<rparr>,
       ob_metrics := default_metrics\<lparr>metrics_enabled := False\<rparr>\<rparr>,
     cfg_storage := default_storage\<lparr>storage_backend := MemoryBackend, sync_strategy := SyncNone\<rparr>\<rparr>\<rparr>"

definition build_node_id :: "u64 \<Rightarrow> ConfigBuilder \<Rightarrow> ConfigBuilder" where
  "build_node_id i = on_config (set_node (\<lambda>n. n\<lparr>node_id := Some i\<rparr>))"
definition build_data_dir :: "string \<Rightarrow> ConfigBuilder \<Rightarrow> ConfigBuilder" where
  "build_data_dir dir = on_config (set_node (\<lambda>n. n\<lparr>data_dir := dir\<rparr>))"
definition build_debug :: "bool \<Rightarrow> ConfigBuilder \<Rightarrow> ConfigBuilder" where
  "build_debug d = on_config (set_node (\<lambda>n. n\<lparr>node_debug := d\<rparr>))"
definition build_node_name :: "string \<Rightarrow> ConfigBuilder \<Rightarrow> ConfigBuilder" where
  "build_node_name name = on_config (set_node (\<lambda>n. n\<lparr>node_metadata := (node_metadata n)\<lparr>nm_name := Some name\<rparr>\<rparr>))"
definition build_node_zone :: "string \<Rightarrow> ConfigBuilder \<Rightarrow> ConfigBuilder" where
  "build_node_zone zone = on_config (set_node (\<lambda>n. n\<lparr>node_metadata := (node_metadata n)\<lparr>nm_zone := Some zone\<rparr>\<rparr>))"
definition build_node_tag :: "string \<Rightarrow> string \<Rightarrow> ConfigBuilder \<Rightarrow> ConfigBuilder" where
  "build_node_tag k v = on_config (set_node (\<lambda>n. n\<lparr>node_metadata := (node_metadata n)
     \<lparr>nm_tags := (nm_tags (node_metadata n))(k \<mapsto> v)\<rparr>\<rparr>))"

text \<open>An address that does not parse becomes the default one; a peer that does not parse is left out.\<close>

definition build_bind_address :: "config_env \<Rightarrow> string \<Rightarrow> ConfigBuilder \<Rightarrow> ConfigBuilder" where
  "build_bind_address e addr = on_config (set_transport (\<lambda>t. t\<lparr>bind_address :=
     (case parse_addr e addr of Inr a \<Rightarrow> a | Inl _ \<Rightarrow> ''127.0.0.1:0'')\<rparr>))"
definition build_add_peer :: "config_env \<Rightarrow> string \<Rightarrow> ConfigBuilder \<Rightarrow> ConfigBuilder" where
  "build_add_peer e addr = (case parse_addr e addr of
     Inr a \<Rightarrow> on_config (set_transport (\<lambda>t. t\<lparr>transport_peers := transport_peers t @ [a]\<rparr>))
   | Inl _ \<Rightarrow> id)"
definition build_peers :: "config_env \<Rightarrow> string list \<Rightarrow> ConfigBuilder \<Rightarrow> ConfigBuilder" where
  "build_peers e ps = on_config (set_transport (\<lambda>t. t\<lparr>transport_peers :=
     List.map_filter (\<lambda>a. case parse_addr e a of Inr x \<Rightarrow> Some x | Inl _ \<Rightarrow> None) ps\<rparr>))"
text \<open>\<open>min + Duration\<close> panics above the largest duration; no value is built then.\<close>

definition MAX_DURATION :: duration where
  "MAX_DURATION = from_secs (2 ^ 64 - 1) + 999999999"
definition build_election_timeout :: "duration \<Rightarrow> ConfigBuilder \<Rightarrow> ConfigBuilder option" where
  "build_election_timeout d b = (if d + from_millis 2000 > MAX_DURATION then None
     else Some (on_config (set_raft (\<lambda>r. r\<lparr>election_timeout_min := d, election_timeout_max := d + from_millis 2000\<rparr>)) b))"

definition build_heartbeat_interval :: "duration \<Rightarrow> ConfigBuilder \<Rightarrow> ConfigBuilder" where
  "build_heartbeat_interval d = on_config (set_raft (\<lambda>r. r\<lparr>heartbeat_interval := d\<rparr>))"
definition build_pre_vote :: "bool \<Rightarrow> ConfigBuilder \<Rightarrow> ConfigBuilder" where
  "build_pre_vote x = on_config (set_raft (\<lambda>r. r\<lparr>pre_vote := x\<rparr>))"
definition build_read_only_option :: "ReadOnlyOption \<Rightarrow> ConfigBuilder \<Rightarrow> ConfigBuilder" where
  "build_read_only_option x = on_config (set_raft (\<lambda>r. r\<lparr>read_only_option := x\<rparr>))"
definition build_log_compaction :: "bool \<Rightarrow> u64 \<Rightarrow> ConfigBuilder \<Rightarrow> ConfigBuilder" where
  "build_log_compaction enabled n = on_config (set_raft (\<lambda>r. r\<lparr>rc_compaction := (rc_compaction r)
     \<lparr>cc_enabled := enabled, cc_threshold_entries := n\<rparr>\<rparr>))"
definition build_snapshots :: "bool \<Rightarrow> u64 \<Rightarrow> u32 \<Rightarrow> ConfigBuilder \<Rightarrow> ConfigBuilder" where
  "build_snapshots enabled n level = on_config (set_raft (\<lambda>r. r\<lparr>rc_snapshot := (rc_snapshot r)
     \<lparr>sc_enabled := enabled, sc_threshold_entries := n, sc_compression_level := level\<rparr>\<rparr>))"
definition build_storage_backend :: "StorageBackend \<Rightarrow> ConfigBuilder \<Rightarrow> ConfigBuilder" where
  "build_storage_backend x = on_config (set_storage (\<lambda>s. s\<lparr>storage_backend := x\<rparr>))"
definition build_sync_strategy :: "SyncStrategy \<Rightarrow> ConfigBuilder \<Rightarrow> ConfigBuilder" where
  "build_sync_strategy x = on_config (set_storage (\<lambda>s. s\<lparr>sync_strategy := x\<rparr>))"
definition build_cache_size_mb :: "u64 \<Rightarrow> ConfigBuilder \<Rightarrow> ConfigBuilder" where
  "build_cache_size_mb n = on_config (set_storage (\<lambda>s. s\<lparr>cache_size_mb := n\<rparr>))"
definition build_log_level :: "string \<Rightarrow> ConfigBuilder \<Rightarrow> ConfigBuilder" where
  "build_log_level level = on_config (set_logging (\<lambda>l. l\<lparr>log_level := level\<rparr>))"
definition build_metrics :: "bool \<Rightarrow> ConfigBuilder \<Rightarrow> ConfigBuilder" where
  "build_metrics enabled = on_config (set_metrics (\<lambda>m. m\<lparr>metrics_enabled := enabled\<rparr>))"
definition build_metrics_address :: "config_env \<Rightarrow> string \<Rightarrow> ConfigBuilder \<Rightarrow> ConfigBuilder" where
  "build_metrics_address e addr = (case parse_addr e addr of
     Inr a \<Rightarrow> on_config (set_metrics (\<lambda>m. m\<lparr>metrics_bind_address := Some a\<rparr>))
   | Inl _ \<Rightarrow> id)"
definition build_tracing :: "string \<Rightarrow> ConfigBuilder \<Rightarrow> ConfigBuilder" where
  "build_tracing endpoint = on_config (set_tracing (\<lambda>t. t\<lparr>tracing_enabled := True, otlp_endpoint := Some endpoint\<rparr>))"
definition build_tracing_sample_rate :: "f64_value \<Rightarrow> ConfigBuilder \<Rightarrow> ConfigBuilder" where
  "build_tracing_sample_rate x = on_config (set_tracing (\<lambda>t. t\<lparr>sample_rate := x\<rparr>))"
definition build_relay_server :: "string \<Rightarrow> ConfigBuilder \<Rightarrow> ConfigBuilder" where
  "build_relay_server url = on_config (set_transport (\<lambda>t. t\<lparr>tc_iroh := (tc_iroh t)\<lparr>iroh_relay_url := Some url\<rparr>\<rparr>))"
definition build_enable_mdns :: "bool \<Rightarrow> ConfigBuilder \<Rightarrow> ConfigBuilder" where
  "build_enable_mdns x = on_config (set_transport (\<lambda>t. t\<lparr>tc_iroh := (tc_iroh t)
     \<lparr>iroh_discovery := (iroh_discovery (tc_iroh t))\<lparr>enable_mdns := x\<rparr>\<rparr>\<rparr>))"

definition build :: "ConfigBuilder \<Rightarrow> ConfigError + Config" where
  "build b = and_then (validate (builder_config b)) (\<lambda>_. Inr (builder_config b))"

section \<open>Options from text\<close>

definition lowercase :: "string \<Rightarrow> string" where
  "lowercase s = map (\<lambda>c. let n = of_char c :: nat in if 65 \<le> n \<and> n \<le> 90 then char_of (n + 32) else c) s"

definition read_only_from_str :: "string \<Rightarrow> ConfigError + ReadOnlyOption" where
  "read_only_from_str s = (if lowercase s = ''disabled'' then Inr Disabled
     else if lowercase s = ''leader_lease'' then Inr LeaderLease
     else if lowercase s = ''read_index'' then Inr ReadIndex
     else Inl (Invalid ''read_only_option'' (''Invalid read-only option: '' @ s)))"

definition backend_from_str :: "string \<Rightarrow> ConfigError + StorageBackend" where
  "backend_from_str s = (if lowercase s = ''redb'' then Inr RedbBackend
     else if lowercase s = ''memory'' then Inr MemoryBackend
     else Inr (CustomBackend s))"

definition sync_from_str :: "string \<Rightarrow> ConfigError + SyncStrategy" where
  "sync_from_str s = (if lowercase s = ''none'' then Inr SyncNone
     else if lowercase s = ''always'' then Inr SyncAlways
     else if lowercase s = ''periodic'' then Inr SyncPeriodic
     else if lowercase s = ''on_commit'' then Inr SyncOnCommit
     else Inl (Invalid ''sync_strategy'' (''Invalid sync strategy: '' @ s)))"

section \<open>Properties\<close>

text \<open>What a node may rely on in a configuration that was accepted.\<close>

definition valid_config :: "Config \<Rightarrow> bool" where
  "valid_config c \<longleftrightarrow> node_id (cfg_node c) \<noteq> None \<and> data_dir (cfg_node c) \<noteq> ''''
     \<and> heartbeat_interval (cfg_raft c) < election_timeout_min (cfg_raft c)
     \<and> election_timeout_min (cfg_raft c) < election_timeout_max (cfg_raft c)
     \<and> distinct (transport_peers (cfg_transport c))
     \<and> log_level (ob_logging (cfg_observability c)) \<in> set log_levels
     \<and> rate_ok (sample_rate (ob_tracing (cfg_observability c)))"

lemma duplicate_peer_None: "duplicate_peer seen ps = None \<longleftrightarrow> distinct ps \<and> set seen \<inter> set ps = {}"
  by (induction ps arbitrary: seen) auto

lemma validate_iff: "validate c = Inr () \<longleftrightarrow> valid_config c"
proof -
  have "duplicate_peer [] (transport_peers (cfg_transport c)) = None \<longleftrightarrow> distinct (transport_peers (cfg_transport c))"
    by (simp add: duplicate_peer_None)
  then show ?thesis
    by (cases "duplicate_peer [] (transport_peers (cfg_transport c))") (auto simp: validate_def valid_config_def)
qed

text \<open>\<open>holds P r\<close>: a configuration that \<open>r\<close> gives has \<open>P\<close>.\<close>

definition holds :: "('a \<Rightarrow> bool) \<Rightarrow> 'e + 'a \<Rightarrow> bool" where
  "holds P r \<longleftrightarrow> (\<forall>c. r = Inr c \<longrightarrow> P c)"

lemma holds_Inr: "P c \<Longrightarrow> holds P (Inr c)"
  by (simp add: holds_def)

lemma holds_then: "holds P r \<Longrightarrow> (\<And>c. P c \<Longrightarrow> holds P (f c)) \<Longrightarrow> holds P (and_then r f)"
  unfolding holds_def and_then_Inr_iff by blast

lemma holds_parsed: "(\<And>a. holds P (f a)) \<Longrightarrow> holds P (and_then (map_err g r) f)"
  unfolding holds_def and_then_Inr_iff by blast

lemma holds_override: "P c \<Longrightarrow> (\<And>v c. P c \<Longrightarrow> holds P (f v c)) \<Longrightarrow> holds P (override e name f c)"
  unfolding override_def holds_def by (simp split: option.split)

lemma overrides_keep_node_id:
  assumes "apply_env_overrides e c = Inr c'" and "node_id (cfg_node c) = None" and "node_id (cfg_node c') \<noteq> None"
  shows "\<exists>v i. env_var e ''IROH_RAFT_NODE_ID'' = Some v \<and> parse_u64 v = Inr i \<and> node_id (cfg_node c') = Some i"
proof -
  let ?first = "override e ''IROH_RAFT_NODE_ID'' (\<lambda>v c.
       and_then (map_err (\<lambda>e. Environment (''Invalid node ID: '' @ e)) (parse_u64 v)) (\<lambda>i.
         Inr (set_node (\<lambda>n. n\<lparr>node_id := Some i\<rparr>) c))) c"
  from assms(1) obtain c1 where first: "?first = Inr c1"
    unfolding apply_env_overrides_def and_then_Inr_iff[of ?first] by blast
  have kept: "holds (\<lambda>c. node_id (cfg_node c) = node_id (cfg_node c1)) (apply_env_overrides e c)"
    unfolding apply_env_overrides_def first and_then_simps override_election_timeout_def
    by (intro holds_then holds_override holds_parsed holds_Inr) (simp_all add: set_defs)
  from kept assms(1) have "node_id (cfg_node c') = node_id (cfg_node c1)" by (simp add: holds_def)
  with first assms(2,3) show ?thesis
    by (auto simp: override_def and_then_Inr_iff set_defs split: option.splits)
qed

lemma and_validate_iff: "and_then (validate c) (\<lambda>_. Inr c) = Inr c' \<longleftrightarrow> c' = c \<and> valid_config c"
  by (auto simp: and_then_Inr_iff simp flip: validate_iff)

text \<open>
  C29: a configuration is accepted exactly when it has a node id, a data directory, a heartbeat
  interval below the least election timeout, which is below the largest, distinct peers, a known
  log level and a sample rate between 0 and 1. This is so for what the builder has collected,
  for the defaults with the overrides of the environment, and for a file that can be read and
  parsed, with the same overrides; nothing else is ever refused, and what is accepted is that
  configuration. From the environment alone there is one only if the node id is given there
  and parses.
\<close>

theorem loaded_config_valid:
  "(build b = Inr c \<longleftrightarrow> c = builder_config b \<and> valid_config c)
   \<and> (from_env e = Inr c \<longleftrightarrow> apply_env_overrides e default_config = Inr c \<and> valid_config c)
   \<and> (from_file e path = Inr c \<longleftrightarrow> (\<exists>text parsed. read_file e path = Inr text \<and> from_toml e text = Inr parsed
        \<and> apply_env_overrides e parsed = Inr c) \<and> valid_config c)
   \<and> (from_env e = Inr c \<longrightarrow>
        (\<exists>v i. env_var e ''IROH_RAFT_NODE_ID'' = Some v \<and> parse_u64 v = Inr i \<and> node_id (cfg_node c) = Some i))"
proof -
  have env: "from_env e = Inr c \<longleftrightarrow> apply_env_overrides e default_config = Inr c \<and> valid_config c"
    by (auto simp: from_env_def and_then_Inr_iff[of "apply_env_overrides e default_config"] and_validate_iff)
  moreover have "\<exists>v i. env_var e ''IROH_RAFT_NODE_ID'' = Some v \<and> parse_u64 v = Inr i \<and> node_id (cfg_node c) = Some i"
    if "from_env e = Inr c"
    using that unfolding env
    by (intro overrides_keep_node_id) (auto simp: valid_config_def default_config_def default_node_def)
  moreover have "from_file e path = Inr c \<longleftrightarrow> (\<exists>text parsed. read_file e path = Inr text \<and> from_toml e text = Inr parsed
      \<and> apply_env_overrides e parsed = Inr c) \<and> valid_config c"
    by (auto simp: from_file_def and_then_Inr_iff validate_iff)
  ultimately show ?thesis by (auto simp: build_def and_validate_iff)
qed

text \<open>The presets and the defaults differ in their values only.\<close>

definition presets :: "ConfigBuilder list" where
  "presets = [builder_new, development_preset, production_preset, testing_preset]"

lemmas preset_defs = builder_new_def development_preset_def production_preset_def testing_preset_def
  default_config_def default_node_def default_raft_def default_observability_def default_logging_def default_metrics_def
  default_tracing_def default_transport_def from_millis_def

text \<open>
  Every preset builds as soon as it is given a node id, with the values of the preset, and
  none without.
\<close>

theorem presets_build:
  "list_all (\<lambda>b. build b = Inl (Missing ''node.id'')
    \<and> build (build_node_id i b) = Inr ((builder_config b)\<lparr>cfg_node := default_node\<lparr>node_id := Some i\<rparr>\<rparr>)) presets"
proof -
  have "validate ((builder_config b)\<lparr>cfg_node := default_node\<lparr>node_id := Some i\<rparr>\<rparr>) = Inr ()
      \<and> cfg_node (builder_config b) = default_node" if "b \<in> set presets" for b
    using that unfolding presets_def validate_iff valid_config_def
    by (auto simp: preset_defs log_levels_def rate_ok_def)
  then have "build b = Inl (Missing ''node.id'')
      \<and> build (build_node_id i b) = Inr ((builder_config b)\<lparr>cfg_node := default_node\<lparr>node_id := Some i\<rparr>\<rparr>)"
    if "b \<in> set presets" for b
    using that by (simp add: build_def build_node_id_def on_config_def set_node_def)
      (simp add: validate_def default_node_def)
  then show ?thesis by (simp add: list_all_iff)
qed

text \<open>
  An address that does not parse is an error when it comes from the environment, while the
  builder goes on without it: a bad peer is left out, and a bad bind address becomes a random
  local port.
\<close>

theorem unparsable_addresses:
  assumes "parse_addr e addr = Inl err"
  shows "build_add_peer e addr b = b
    \<and> bind_address (cfg_transport (builder_config (build_bind_address e addr b))) = ''127.0.0.1:0''
    \<and> build_peers e [addr] b = build_peers e [] b
    \<and> (env_var e = [''IROH_RAFT_BIND_ADDRESS'' \<mapsto> addr] \<longrightarrow> apply_env_overrides e c = Inl (AddressParse err))"
  using assms
  by (simp add: build_add_peer_def build_bind_address_def build_peers_def on_config_def set_defs map_filter_simps
      apply_env_overrides_def override_def)

section \<open>Examples\<close>

definition sample_env :: "(string \<rightharpoonup> string) \<Rightarrow> config_env" where
  "sample_env vars = \<lparr>env_var = vars, parse_addr = (\<lambda>s. if s = ''nowhere'' then Inl ''invalid socket address syntax'' else Inr s),
     read_file = (\<lambda>_. Inl ''not found''), from_toml = (\<lambda>_. Inr default_config)\<rparr>"

theorem loaded_config_valid_witness:
  "\<exists>c. from_env (sample_env [''IROH_RAFT_NODE_ID'' \<mapsto> ''42'']) = Inr c \<and> valid_config c \<and> node_id (cfg_node c) = Some 42"
proof -
  let ?c = "default_config\<lparr>cfg_node := default_node\<lparr>node_id := Some 42\<rparr>\<rparr>"
  have id: "parse_u64 ''42'' = Inr 42" by (simp add: parse_u64_def digit_value_def)
  have "apply_env_overrides (sample_env [''IROH_RAFT_NODE_ID'' \<mapsto> ''42'']) default_config = Inr ?c"
    by (simp add: apply_env_overrides_def override_def sample_env_def id set_defs default_config_def)
  moreover have "validate ?c = Inr ()"
    unfolding validate_iff valid_config_def by (simp add: preset_defs log_levels_def rate_ok_def)
  ultimately have env: "from_env (sample_env [''IROH_RAFT_NODE_ID'' \<mapsto> ''42'']) = Inr ?c" by (simp add: from_env_def)
  from loaded_config_valid [of builder_new ?c "sample_env [''IROH_RAFT_NODE_ID'' \<mapsto> ''42'']" "''''"] env
  show ?thesis by (intro exI[of _ ?c]) simp
qed

theorem unparsable_addresses_witness:
  "build_add_peer (sample_env Map.empty) ''nowhere'' builder_new = builder_new
   \<and> apply_env_overrides (sample_env [''IROH_RAFT_BIND_ADDRESS'' \<mapsto> ''nowhere'']) default_config
      = Inl (AddressParse ''invalid socket address syntax'')"
  using unparsable_addresses [of "sample_env Map.empty" "''nowhere''" _ builder_new]
    unparsable_addresses [of "sample_env [''IROH_RAFT_BIND_ADDRESS'' \<mapsto> ''nowhere'']" "''nowhere''" _ builder_new default_config]
  by (simp add: sample_env_def)

end
