(* ===== verification/Auth.thy ===== *)
theory Auth
  imports Errors Steps
begin

text \<open>
  \<open>src/src/management/auth.rs\<close> with the operations and roles of \<open>src/src/management/mod.rs\<close>: tokens,
  role permissions and the whitelist of connections. The clock is an argument, in nanoseconds since
  the epoch, which it is not before; an Iroh node id is its text. \<open>operation_limits\<close>
  is never read by the code.
\<close>

section \<open>Operations and roles\<close>

datatype MemberRole = Voter | Learner | MemberObserver

record RaftState =
  st_term :: u64
  st_vote :: "u64 option"
  st_leader :: "u64 option"
  st_commit_index :: u64
  st_last_applied :: u64
  st_log_length :: u64

record ClusterConfig =
  cl_cluster_id :: string
  cl_heartbeat_interval :: duration
  cl_election_timeout :: duration
  cl_max_log_entries :: u64
  cl_snapshot_threshold :: u64
  cl_compaction_threshold :: u64

datatype MetricCategory = CatRaft | CatTransport | CatStorage | CatPerformance | CatSystem

record BackupMetadata =
  bk_backup_id :: string
  bk_description :: string
  bk_created_at :: instant
  bk_cluster_state :: RaftState

datatype ManagementOperation =
    GetClusterStatus
  | AddMember u64 string MemberRole
  | RemoveMember u64
  | UpdateMemberRole u64 MemberRole
  | TransferLeadership "u64 option"
  | StepDown
  | GetConfiguration
  | UpdateConfiguration ClusterConfig
  | GetMetrics "MetricCategory list"
  | GetHealthStatus
  | GetLogInfo
  | CompactLog u64
  | GetLogEntries u64 u64
  | TriggerSnapshot
  | GetSnapshotInfo
  | CreateBackup BackupMetadata
  | RestoreBackup string
  | ListBackups

datatype ManagementRole = Admin | Observer | MemberManager | Monitor

definition role_number :: "ManagementRole \<Rightarrow> nat" where
  "role_number r = (case r of Admin \<Rightarrow> 0 | Observer \<Rightarrow> 1 | MemberManager \<Rightarrow> 2 | Monitor \<Rightarrow> 3)"

definition requires_admin :: "ManagementOperation \<Rightarrow> bool" where
  "requires_admin op \<longleftrightarrow> (case op of AddMember _ _ _ \<Rightarrow> True | RemoveMember _ \<Rightarrow> True | UpdateMemberRole _ _ \<Rightarrow> True
     | TransferLeadership _ \<Rightarrow> True | StepDown \<Rightarrow> True | UpdateConfiguration _ \<Rightarrow> True | CompactLog _ \<Rightarrow> True
     | TriggerSnapshot \<Rightarrow> True | CreateBackup _ \<Rightarrow> True | RestoreBackup _ \<Rightarrow> True | _ \<Rightarrow> False)"

definition is_read_only :: "ManagementOperation \<Rightarrow> bool" where
  "is_read_only op \<longleftrightarrow> (case op of GetClusterStatus \<Rightarrow> True | GetConfiguration \<Rightarrow> True | GetMetrics _ \<Rightarrow> True
     | GetHealthStatus \<Rightarrow> True | GetLogInfo \<Rightarrow> True | GetLogEntries _ _ \<Rightarrow> True | GetSnapshotInfo \<Rightarrow> True
     | ListBackups \<Rightarrow> True | _ \<Rightarrow> False)"

definition operation_to_string :: "ManagementOperation \<Rightarrow> string" where
  "operation_to_string op = (case op of
     GetClusterStatus \<Rightarrow> ''get_cluster_status'' | AddMember _ _ _ \<Rightarrow> ''add_member'' | RemoveMember _ \<Rightarrow> ''remove_member''
   | UpdateMemberRole _ _ \<Rightarrow> ''update_member_role'' | TransferLeadership _ \<Rightarrow> ''transfer_leadership''
   | StepDown \<Rightarrow> ''step_down'' | GetConfiguration \<Rightarrow> ''get_configuration'' | UpdateConfiguration _ \<Rightarrow> ''update_configuration''
   | GetMetrics _ \<Rightarrow> ''get_metrics'' | GetHealthStatus \<Rightarrow> ''get_health_status'' | GetLogInfo \<Rightarrow> ''get_log_info''
   | CompactLog _ \<Rightarrow> ''compact_log'' | GetLogEntries _ _ \<Rightarrow> ''get_log_entries'' | TriggerSnapshot \<Rightarrow> ''trigger_snapshot''
   | GetSnapshotInfo \<Rightarrow> ''get_snapshot_info'' | CreateBackup _ \<Rightarrow> ''create_backup'' | RestoreBackup _ \<Rightarrow> ''restore_backup''
   | ListBackups \<Rightarrow> ''list_backups'')"

definition operation_target_node :: "ManagementOperation \<Rightarrow> u64 option" where
  "operation_target_node op = (case op of AddMember node _ _ \<Rightarrow> Some node | RemoveMember node \<Rightarrow> Some node
     | UpdateMemberRole node _ \<Rightarrow> Some node | TransferLeadership target_node \<Rightarrow> target_node | _ \<Rightarrow> None)"

section \<open>Tokens and permissions\<close>

record AuthToken =
  tk_node_id :: u64
  tk_peer_id :: string
  tk_role :: ManagementRole
  tk_expires_at :: instant
  tk_issued_by :: u64
  tk_signature :: string

record TimeRestriction =
  valid_from :: instant
  valid_until :: instant
  max_session_duration :: duration

record ResourceRestriction =
  allowed_nodes :: "u64 list"
  denied_nodes :: "u64 list"
  operation_limits :: "string \<rightharpoonup> u32"

record Permission =
  allowed_operations :: "string list"
  time_restrictions :: "TimeRestriction option"
  resource_restrictions :: "ResourceRestriction option"

record AuthManager =
  role_permissions :: "ManagementRole \<rightharpoonup> Permission"
  active_tokens :: "u64 \<rightharpoonup> AuthToken"
  trusted_issuers :: "u64 list"
  default_token_lifetime :: duration

definition unrestricted :: "string list \<Rightarrow> Permission" where
  "unrestricted ops = \<lparr>allowed_operations = ops, time_restrictions = None, resource_restrictions = None\<rparr>"

definition setup_default_permissions :: "AuthManager \<Rightarrow> AuthManager" where
  "setup_default_permissions m = m\<lparr>role_permissions := (role_permissions m)(
     Admin \<mapsto> unrestricted [''*''],
     Observer \<mapsto> unrestricted [''get_cluster_status'', ''get_configuration'', ''get_metrics'', ''get_health_status'',
       ''get_log_info'', ''get_log_entries'', ''get_snapshot_info'', ''list_backups''],
     MemberManager \<mapsto> unrestricted [''get_cluster_status'', ''get_configuration'', ''get_health_status'',
       ''add_member'', ''remove_member'', ''update_member_role''],
     Monitor \<mapsto> unrestricted [''get_cluster_status'', ''get_metrics'', ''get_health_status''])\<rparr>"

definition auth_manager_new :: AuthManager where
  "auth_manager_new = setup_default_permissions \<lparr>role_permissions = Map.empty, active_tokens = Map.empty,
     trusted_issuers = [], default_token_lifetime = from_secs (8 * 60 * 60)\<rparr>"

definition add_trusted_issuer :: "u64 \<Rightarrow> AuthManager \<Rightarrow> AuthManager" where
  "add_trusted_issuer issuer m = (if issuer \<in> set (trusted_issuers m) then m
     else m\<lparr>trusted_issuers := trusted_issuers m @ [issuer]\<rparr>)"

definition remove_trusted_issuer :: "u64 \<Rightarrow> AuthManager \<Rightarrow> AuthManager" where
  "remove_trusted_issuer issuer m = m\<lparr>trusted_issuers := filter (\<lambda>i. i \<noteq> issuer) (trusted_issuers m)\<rparr>"

definition show_u64 :: "u64 \<Rightarrow> string" where
  "show_u64 n = show_nat (unat n)"

definition signature_of :: "u64 \<Rightarrow> ManagementRole \<Rightarrow> instant \<Rightarrow> u64 \<Rightarrow> string" where
  "signature_of node role expires_at issuer = ''sig_'' @ show_u64 node @ ''_'' @ show_nat (role_number role) @ ''_''
     @ show_nat (nat (expires_at div 1000000000)) @ ''_'' @ show_u64 issuer"

definition denied :: "string \<Rightarrow> string \<Rightarrow> RaftError + 'a" where
  "denied operation peer = Inl (AuthorizationDenied operation peer)"

definition issue_token :: "nat \<Rightarrow> u64 \<Rightarrow> string \<Rightarrow> ManagementRole \<Rightarrow> u64 \<Rightarrow> duration option \<Rightarrow> AuthManager
    \<Rightarrow> (RaftError + AuthToken) \<times> AuthManager" where
  "issue_token now node peer role issuer lifetime m =
    (if issuer \<notin> set (trusted_issuers m) then (denied ''issue_token'' (show_u64 issuer), m)
     else let expires_at = int now + int (case lifetime of Some d \<Rightarrow> d | None \<Rightarrow> default_token_lifetime m);
              token = \<lparr>tk_node_id = node, tk_peer_id = peer, tk_role = role, tk_expires_at = expires_at,
                tk_issued_by = issuer, tk_signature = signature_of node role expires_at issuer\<rparr>
          in (Inr token, m\<lparr>active_tokens := (active_tokens m)(node \<mapsto> token)\<rparr>))"

definition validate_token :: "nat \<Rightarrow> AuthToken \<Rightarrow> AuthManager \<Rightarrow> RaftError + unit" where
  "validate_token now token m =
    (if int now > tk_expires_at token then denied ''validate_token'' (show_u64 (tk_node_id token))
     else if tk_issued_by token \<notin> set (trusted_issuers m) then denied ''validate_token'' (show_u64 (tk_issued_by token))
     else if tk_signature token \<noteq> signature_of (tk_node_id token) (tk_role token) (tk_expires_at token) (tk_issued_by token)
       then denied ''validate_token'' (show_u64 (tk_node_id token))
     else Inr ())"

definition time_allowed :: "nat \<Rightarrow> Permission \<Rightarrow> bool" where
  "time_allowed now permission = (case time_restrictions permission of None \<Rightarrow> True
     | Some t \<Rightarrow> \<not> (int now < valid_from t \<or> int now > valid_until t))"

definition node_allowed :: "ManagementOperation \<Rightarrow> Permission \<Rightarrow> bool" where
  "node_allowed op permission = (case resource_restrictions permission of None \<Rightarrow> True
     | Some r \<Rightarrow> (case operation_target_node op of None \<Rightarrow> True
         | Some target_node \<Rightarrow> (allowed_nodes r = [] \<or> target_node \<in> set (allowed_nodes r)) \<and> target_node \<notin> set (denied_nodes r)))"

definition check_permission :: "nat \<Rightarrow> AuthToken \<Rightarrow> ManagementOperation \<Rightarrow> AuthManager \<Rightarrow> RaftError + unit" where
  "check_permission now token op m = and_then (validate_token now token m) (\<lambda>_.
     case role_permissions m (tk_role token) of
       None \<Rightarrow> denied ''check_permission'' (show_u64 (tk_node_id token))
     | Some permission \<Rightarrow>
         (let operation_name = operation_to_string op in
          if \<not> (''*'' \<in> set (allowed_operations permission) \<or> operation_name \<in> set (allowed_operations permission))
            then denied operation_name (show_u64 (tk_node_id token))
          else if \<not> time_allowed now permission then denied operation_name (show_u64 (tk_node_id token))
          else if \<not> node_allowed op permission then denied operation_name (show_u64 (tk_node_id token))
          else Inr ()))"

definition revoke_token :: "u64 \<Rightarrow> AuthManager \<Rightarrow> AuthManager" where
  "revoke_token node m = m\<lparr>active_tokens := (active_tokens m)(node := None)\<rparr>"

definition cleanup_expired_tokens :: "nat \<Rightarrow> AuthManager \<Rightarrow> AuthManager" where
  "cleanup_expired_tokens now m = m\<lparr>active_tokens := (\<lambda>n. case active_tokens m n of
     Some token \<Rightarrow> if tk_expires_at token > int now then Some token else None | None \<Rightarrow> None)\<rparr>"

definition get_active_token :: "u64 \<Rightarrow> AuthManager \<Rightarrow> AuthToken option" where
  "get_active_token node m = active_tokens m node"

definition update_role_permission :: "ManagementRole \<Rightarrow> Permission \<Rightarrow> AuthManager \<Rightarrow> AuthManager" where
  "update_role_permission role permission m = m\<lparr>role_permissions := (role_permissions m)(role \<mapsto> permission)\<rparr>"

definition get_role_permission :: "ManagementRole \<Rightarrow> AuthManager \<Rightarrow> Permission option" where
  "get_role_permission role m = role_permissions m role"

section \<open>Connections\<close>

record IrohAuth =
  auth_manager :: AuthManager
  node_whitelist :: "string list"

definition iroh_auth_new :: "AuthManager \<Rightarrow> IrohAuth" where
  "iroh_auth_new m = \<lparr>auth_manager = m, node_whitelist = []\<rparr>"

definition add_to_whitelist :: "string \<Rightarrow> IrohAuth \<Rightarrow> IrohAuth" where
  "add_to_whitelist peer a = (if peer \<in> set (node_whitelist a) then a else a\<lparr>node_whitelist := node_whitelist a @ [peer]\<rparr>)"

definition remove_from_whitelist :: "string \<Rightarrow> IrohAuth \<Rightarrow> IrohAuth" where
  "remove_from_whitelist peer a = a\<lparr>node_whitelist := filter (\<lambda>p. p \<noteq> peer) (node_whitelist a)\<rparr>"

definition is_node_allowed :: "string \<Rightarrow> IrohAuth \<Rightarrow> bool" where
  "is_node_allowed peer a \<longleftrightarrow> node_whitelist a = [] \<or> peer \<in> set (node_whitelist a)"

definition authenticate_connection :: "nat \<Rightarrow> string \<Rightarrow> u64 \<Rightarrow> IrohAuth \<Rightarrow> RaftError + AuthToken option" where
  "authenticate_connection now peer node a =
    (if \<not> is_node_allowed peer a then denied ''authenticate_connection'' peer
     else case get_active_token node (auth_manager a) of
       Some token \<Rightarrow> if tk_peer_id token = peer
           then and_then (validate_token now token (auth_manager a)) (\<lambda>_. Inr (Some token))
           else Inr None
     | None \<Rightarrow> Inr None)"

section \<open>What roles may do\<close>

text \<open>The manager over time: everything but changing what a role is allowed to do.\<close>

datatype auth_event = IssueToken nat u64 string ManagementRole u64 "duration option" | RevokeToken u64
  | CleanupTokens nat | TrustIssuer u64 | DistrustIssuer u64

inductive auth_step :: "AuthManager \<Rightarrow> auth_event \<Rightarrow> AuthManager \<Rightarrow> bool" where
  auth_issue: "auth_step m (IssueToken now node peer role issuer d) (snd (issue_token now node peer role issuer d m))"
| auth_revoke: "auth_step m (RevokeToken node) (revoke_token node m)"
| auth_cleanup: "auth_step m (CleanupTokens now) (cleanup_expired_tokens now m)"
| auth_trust: "auth_step m (TrustIssuer issuer) (add_trusted_issuer issuer m)"
| auth_distrust: "auth_step m (DistrustIssuer issuer) (remove_trusted_issuer issuer m)"

lemmas auth_defs = issue_token_def revoke_token_def cleanup_expired_tokens_def add_trusted_issuer_def
  remove_trusted_issuer_def Let_def denied_def

text \<open>The roles are those of the start, and a token is kept under the node it was issued for.\<close>

definition auth_inv :: "AuthManager \<Rightarrow> bool" where
  "auth_inv m \<longleftrightarrow> role_permissions m = role_permissions auth_manager_new
     \<and> (\<forall>node token. active_tokens m node = Some token \<longrightarrow> tk_node_id token = node
        \<and> tk_signature token = signature_of node (tk_role token) (tk_expires_at token) (tk_issued_by token))"

interpretation auth: invariant_of "\<lambda>m. m = auth_manager_new" auth_step auth_inv
proof
  show "auth_inv m" if "m = auth_manager_new" for m
    by (simp add: that auth_inv_def auth_manager_new_def setup_default_permissions_def)
  show "auth_inv t" if "auth_inv s" and "auth_step s e t" for s e t
    using that(2,1) by cases (auto simp: auth_inv_def auth_defs split: if_splits option.splits)
qed

lemma default_permissions:
  "role_permissions auth_manager_new role = Some (unrestricted (case role of
     Admin \<Rightarrow> [''*'']
   | Observer \<Rightarrow> [''get_cluster_status'', ''get_configuration'', ''get_metrics'', ''get_health_status'',
       ''get_log_info'', ''get_log_entries'', ''get_snapshot_info'', ''list_backups'']
   | MemberManager \<Rightarrow> [''get_cluster_status'', ''get_configuration'', ''get_health_status'',
       ''add_member'', ''remove_member'', ''update_member_role'']
   | Monitor \<Rightarrow> [''get_cluster_status'', ''get_metrics'', ''get_health_status'']))"
  by (cases role) (simp_all add: auth_manager_new_def setup_default_permissions_def)

lemma check_permission_ok:
  "check_permission now token op m = Inr () \<longleftrightarrow> validate_token now token m = Inr ()
    \<and> (\<exists>p. role_permissions m (tk_role token) = Some p
      \<and> (''*'' \<in> set (allowed_operations p) \<or> operation_to_string op \<in> set (allowed_operations p))
      \<and> time_allowed now p \<and> node_allowed op p)"
  by (auto simp: check_permission_def and_then_Inr_iff denied_def Let_def split: option.splits if_splits)

lemma validate_token_ok:
  "validate_token now token m = Inr () \<longleftrightarrow> int now \<le> tk_expires_at token \<and> tk_issued_by token \<in> set (trusted_issuers m)
    \<and> tk_signature token = signature_of (tk_node_id token) (tk_role token) (tk_expires_at token) (tk_issued_by token)"
  by (auto simp: validate_token_def denied_def)

text \<open>
  However tokens were issued, revoked and cleaned up, and whichever issuers were trusted, an
  operation is allowed only for a token that has not expired and names an issuer trusted now. An
  observer or a monitor can only read; a member manager can besides add, remove and update
  members, although these are marked as requiring the administrator.
\<close>

theorem roles_limit_operations:
  assumes "reachable (\<lambda>m. m = auth_manager_new) auth_step m" and "check_permission now token op m = Inr ()"
  shows "int now \<le> tk_expires_at token \<and> tk_issued_by token \<in> set (trusted_issuers m)
    \<and> (tk_role token = Observer \<or> tk_role token = Monitor \<longrightarrow> is_read_only op)
    \<and> (tk_role token = MemberManager \<longrightarrow> is_read_only op
        \<or> requires_admin op \<and> operation_to_string op \<in> {''add_member'', ''remove_member'', ''update_member_role''})"
proof -
  have "role_permissions m = role_permissions auth_manager_new" using auth.always[OF assms(1)] by (simp add: auth_inv_def)
  then have "role_permissions m (tk_role token) = role_permissions auth_manager_new (tk_role token)" by simp
  then obtain p where "role_permissions auth_manager_new (tk_role token) = Some p"
    and allowed: "''*'' \<in> set (allowed_operations p) \<or> operation_to_string op \<in> set (allowed_operations p)"
    using assms(2) unfolding check_permission_ok by metis
  with default_permissions[of "tk_role token"] have p: "p = unrestricted (case tk_role token of
     Admin \<Rightarrow> [''*'']
   | Observer \<Rightarrow> [''get_cluster_status'', ''get_configuration'', ''get_metrics'', ''get_health_status'',
       ''get_log_info'', ''get_log_entries'', ''get_snapshot_info'', ''list_backups'']
   | MemberManager \<Rightarrow> [''get_cluster_status'', ''get_configuration'', ''get_health_status'',
       ''add_member'', ''remove_member'', ''update_member_role'']
   | Monitor \<Rightarrow> [''get_cluster_status'', ''get_metrics'', ''get_health_status''])" by simp
  have "tk_role token = Observer \<or> tk_role token = Monitor \<longrightarrow> is_read_only op"
    using allowed unfolding p unrestricted_def by (cases op) (auto simp: operation_to_string_def is_read_only_def)
  moreover have "tk_role token = MemberManager \<longrightarrow> is_read_only op
        \<or> requires_admin op \<and> operation_to_string op \<in> {''add_member'', ''remove_member'', ''update_member_role''}"
    using allowed unfolding p unrestricted_def
    by (cases op) (auto simp: operation_to_string_def is_read_only_def requires_admin_def)
  ultimately show ?thesis using assms(2) by (simp add: check_permission_ok validate_token_ok)
qed

text \<open>
  A token proves nothing: its signature is computed from its own fields, without a secret and
  without the peer it is for, and the table of issued tokens is not consulted. With the number
  of one trusted issuer anybody can write a token, for any node and peer, that authorizes every
  operation, at any time, and that no revocation takes back.
\<close>

theorem forged_token_accepted:
  assumes "issuer \<in> set (trusted_issuers m)" and "role_permissions m Admin = role_permissions auth_manager_new Admin"
  shows "check_permission now \<lparr>tk_node_id = node, tk_peer_id = peer, tk_role = Admin, tk_expires_at = int now + int d,
      tk_issued_by = issuer, tk_signature = signature_of node Admin (int now + int d) issuer\<rparr> op (revoke_token n m) = Inr ()"
  using assms default_permissions[of Admin]
  by (simp add: check_permission_ok validate_token_ok revoke_token_def unrestricted_def time_allowed_def node_allowed_def)

text \<open>Removing the only entry of a whitelist lets every node in, the removed one included.\<close>

lemma whitelist_emptied: "node_whitelist a = [peer] \<Longrightarrow> is_node_allowed other (remove_from_whitelist peer a)"
  by (simp add: is_node_allowed_def remove_from_whitelist_def)

text \<open>A connection gets a token only of its own node, for its own peer, that was issued and is valid.\<close>

lemma authenticated_token:
  assumes "reachable (\<lambda>m. m = auth_manager_new) auth_step (auth_manager a)"
    and "authenticate_connection now peer node a = Inr (Some token)"
  shows "tk_node_id token = node \<and> tk_peer_id token = peer \<and> active_tokens (auth_manager a) node = Some token
    \<and> is_node_allowed peer a \<and> int now \<le> tk_expires_at token \<and> tk_issued_by token \<in> set (trusted_issuers (auth_manager a))"
  using assms(2) auth.always[OF assms(1)]
  by (auto simp: authenticate_connection_def get_active_token_def and_then_Inr_iff validate_token_ok auth_inv_def denied_def
      split: if_splits option.splits)

section \<open>Examples\<close>

theorem roles_limit_operations_witness:
  "\<exists>token m. issue_token 5 200 ''peer'' Observer 1 None (add_trusted_issuer 1 auth_manager_new) = (Inr token, m)
    \<and> check_permission 6 token GetLogInfo m = Inr () \<and> is_read_only GetLogInfo"
proof -
  let ?trusting = "add_trusted_issuer 1 auth_manager_new"
  let ?m = "snd (issue_token 5 200 ''peer'' Observer 1 None ?trusting)"
  have r0: "reachable (\<lambda>m. m = auth_manager_new) auth_step auth_manager_new" by (rule reachable_init) simp
  have r1: "reachable (\<lambda>m. m = auth_manager_new) auth_step ?trusting" by (rule reachable_step[OF r0 auth_trust])
  have reach: "reachable (\<lambda>m. m = auth_manager_new) auth_step ?m" by (rule reachable_step[OF r1 auth_issue])
  have trusted: "trusted_issuers ?trusting = [1]"
    by (simp add: add_trusted_issuer_def auth_manager_new_def setup_default_permissions_def)
  obtain token where token: "issue_token 5 200 ''peer'' Observer 1 None ?trusting = (Inr token, ?m)" "tk_role token = Observer"
    "validate_token 6 token ?m = Inr ()"
    by (simp add: issue_token_def trusted Let_def validate_token_ok)
      (simp add: auth_manager_new_def setup_default_permissions_def add_trusted_issuer_def from_secs_def)
  have "role_permissions ?m = role_permissions auth_manager_new" using auth.always[OF reach] by (simp add: auth_inv_def)
  then have "check_permission 6 token GetLogInfo ?m = Inr ()"
    using token(2,3) default_permissions[of Observer]
    by (simp add: check_permission_ok operation_to_string_def unrestricted_def time_allowed_def node_allowed_def)
  with roles_limit_operations [OF reach this] token show ?thesis by blast
qed

theorem forged_token_accepted_witness:
  "check_permission 5 \<lparr>tk_node_id = 666, tk_peer_id = ''mallory'', tk_role = Admin, tk_expires_at = int 5 + int 1000,
      tk_issued_by = 1, tk_signature = signature_of 666 Admin (int 5 + int 1000) 1\<rparr> (RestoreBackup ''old'')
      (revoke_token 666 (add_trusted_issuer 1 auth_manager_new)) = Inr ()"
  by (rule forged_token_accepted) (simp_all add: add_trusted_issuer_def auth_manager_new_def)

end
