(* ===== verification/BatchProcessor.thy ===== *)
theory BatchProcessor
  imports Actions Steps F64 "HOL-Library.Multiset"
begin

text \<open>
  \<open>src/src/raft/optimized_batch_processor.rs\<close>: proposals are collected in batches by priority and
  handed to the manager, one by one or as a batch proposal. The atomic counter, the circuit
  breaker and \<open>concurrent_map\<close> come from a module that is not in the repository, as does the
  \<open>ProposalData\<close> with a batch among its variants; they are parameters, like the clock, fresh
  identifiers and the time that sending takes. The processing of a batch finds its locks free,
  so that items of \<open>concurrent_map\<close> run to their end one after the other, in an order that is a
  parameter. What is only read by log messages is kept where it is a field of a type.
\<close>

section \<open>Configuration\<close>

record OptimizedBatchConfig =
  max_batch_size :: nat
  batch_timeout_ms :: u64
  max_batch_bytes :: nat
  batching_enabled :: bool
  enable_streaming :: bool
  stream_buffer_size :: nat
  max_concurrent_batches :: nat
  enable_adaptive_batching :: bool
  min_batch_size :: nat
  adaptive_window_size :: nat
  performance_threshold_ms :: u64
  enable_priority_batching :: bool
  high_priority_threshold :: duration
  max_priority_batch_size :: nat
  enable_backpressure :: bool
  max_pending_proposals :: nat
  memory_pressure_threshold :: f64
  enable_circuit_breaker :: bool
  circuit_breaker_failure_threshold :: nat
  circuit_breaker_timeout :: duration

definition default_batch_config :: OptimizedBatchConfig where
  "default_batch_config = \<lparr>max_batch_size = 100, batch_timeout_ms = 10, max_batch_bytes = 1024 * 1024,
     batching_enabled = True, enable_streaming = True, stream_buffer_size = 1000, max_concurrent_batches = 4,
     enable_adaptive_batching = True, min_batch_size = 5, adaptive_window_size = 20, performance_threshold_ms = 50,
     enable_priority_batching = True, high_priority_threshold = from_millis 5, max_priority_batch_size = 20,
     enable_backpressure = True, max_pending_proposals = 10000, memory_pressure_threshold = f64_round (8 / 10),
     enable_circuit_breaker = True, circuit_breaker_failure_threshold = 5, circuit_breaker_timeout = from_secs 30\<rparr>"

datatype ProposalPriority = Low | Normal | High | Critical

definition priority_rank :: "ProposalPriority \<Rightarrow> nat" where
  "priority_rank p = (case p of Low \<Rightarrow> 0 | Normal \<Rightarrow> 1 | High \<Rightarrow> 2 | Critical \<Rightarrow> 3)"

instantiation ProposalPriority :: linorder
begin

definition less_eq_ProposalPriority :: "ProposalPriority \<Rightarrow> ProposalPriority \<Rightarrow> bool" where
  "p \<le> q \<longleftrightarrow> priority_rank p \<le> priority_rank q"

definition less_ProposalPriority :: "ProposalPriority \<Rightarrow> ProposalPriority \<Rightarrow> bool" where
  "p < q \<longleftrightarrow> priority_rank p < priority_rank q"

instance
proof
  fix p q :: ProposalPriority
  show "p \<le> q \<Longrightarrow> q \<le> p \<Longrightarrow> p = q"
    by (cases p; cases q) (simp_all add: less_eq_ProposalPriority_def priority_rank_def)
qed (auto simp: less_eq_ProposalPriority_def less_ProposalPriority_def)

end

section \<open>Proposals and batches\<close>

type_synonym channel = nat

text \<open>\<open>RaftProposal\<close> over the proposal data of the absent module.\<close>

record 'd raft_proposal =
  pp_id :: bytes
  pp_data :: 'd
  pp_response_tx :: "channel option"

record 'd EnhancedRaftProposal =
  ep_inner :: "'d raft_proposal"
  ep_priority :: ProposalPriority
  submitted_at :: instant
  estimated_size :: nat
  ep_timeout :: "duration option"

record 'd OptimizedProposalBatch =
  ob_proposals :: "'d EnhancedRaftProposal list"
  total_size :: nat
  created_at :: instant
  ob_priority :: ProposalPriority
  batch_id :: bytes

text \<open>What the processor calls: \<open>bd_schedule n\<close> is the order in which \<open>concurrent_map\<close> runs \<open>n\<close> items.\<close>

record ('d, 'k, 'b) batch_deps =
  bd_serialized_size :: "'d \<Rightarrow> error_text + nat"
  bd_batch :: "'d list \<Rightarrow> 'd"
  bd_get :: "'k \<Rightarrow> nat"
  bd_increment :: "'k \<Rightarrow> 'k"
  bd_decrement :: "'k \<Rightarrow> 'k"
  br_admits :: "instant \<Rightarrow> 'b \<Rightarrow> bool \<times> 'b"
  br_finished :: "instant \<Rightarrow> bool \<Rightarrow> 'b \<Rightarrow> 'b"
  bd_elapsed :: "'d OptimizedProposalBatch \<Rightarrow> duration"
  bd_uuid :: "nat \<Rightarrow> bytes"
  bd_schedule :: "nat \<Rightarrow> nat list"
  bd_show_error :: "RaftError \<Rightarrow> string"

definition estimate_proposal_size :: "('d, 'k, 'b) batch_deps \<Rightarrow> 'd \<Rightarrow> RaftError + nat" where
  "estimate_proposal_size D d = and_then (map_err (Serialization ''estimate proposal size'') (bd_serialized_size D d))
     (\<lambda>n. Inr (n + 64))"

definition enhanced_new :: "('d, 'k, 'b) batch_deps \<Rightarrow> instant \<Rightarrow> 'd raft_proposal \<Rightarrow> ProposalPriority
    \<Rightarrow> RaftError + 'd EnhancedRaftProposal" where
  "enhanced_new D now proposal priority = and_then (estimate_proposal_size D (pp_data proposal)) (\<lambda>n.
     Inr \<lparr>ep_inner = proposal, ep_priority = priority, submitted_at = now, estimated_size = n, ep_timeout = None\<rparr>)"

definition with_timeout :: "duration \<Rightarrow> 'd EnhancedRaftProposal \<Rightarrow> 'd EnhancedRaftProposal" where
  "with_timeout d p = p\<lparr>ep_timeout := Some d\<rparr>"

definition is_expired :: "instant \<Rightarrow> 'd EnhancedRaftProposal \<Rightarrow> bool" where
  "is_expired now p = (case ep_timeout p of Some d \<Rightarrow> duration_since now (submitted_at p) > d | None \<Rightarrow> False)"

definition batch_new :: "instant \<Rightarrow> bytes \<Rightarrow> 'd OptimizedProposalBatch" where
  "batch_new now uuid = \<lparr>ob_proposals = [], total_size = 0, created_at = now, ob_priority = Normal, batch_id = uuid\<rparr>"

definition batch_add :: "'d EnhancedRaftProposal \<Rightarrow> 'd OptimizedProposalBatch \<Rightarrow> 'd OptimizedProposalBatch" where
  "batch_add p b = b\<lparr>total_size := total_size b + estimated_size p,
     ob_priority := (if ep_priority p > ob_priority b then ep_priority p else ob_priority b),
     ob_proposals := ob_proposals b @ [p]\<rparr>"

definition batch_timeout :: "OptimizedBatchConfig \<Rightarrow> ProposalPriority \<Rightarrow> duration" where
  "batch_timeout config p = (case p of
     Critical \<Rightarrow> from_millis 1
   | High \<Rightarrow> high_priority_threshold config
   | Normal \<Rightarrow> from_millis (unat (batch_timeout_ms config))
   | Low \<Rightarrow> from_millis (unat (batch_timeout_ms config * 2)))"

definition should_flush :: "instant \<Rightarrow> OptimizedBatchConfig \<Rightarrow> 'd OptimizedProposalBatch \<Rightarrow> bool" where
  "should_flush now config b =
    (if ob_proposals b = [] then False
     else if length (ob_proposals b) \<ge> max_batch_size config \<or> total_size b \<ge> max_batch_bytes config then True
     else duration_since now (created_at b) \<ge> batch_timeout config (ob_priority b))"

text \<open>\<open>remove_expired\<close>: the loop that removes at \<open>i\<close> or steps, and the priority of what is left.\<close>

fun expire_loop :: "instant \<Rightarrow> nat \<Rightarrow> 'd EnhancedRaftProposal list
    \<Rightarrow> 'd EnhancedRaftProposal list \<times> nat \<times> 'd EnhancedRaftProposal list" where
  "expire_loop now n [] = ([], n, [])"
| "expire_loop now n (p # ps) =
    (if is_expired now p then (case expire_loop now (n - estimated_size p) ps of (kept, m, expired) \<Rightarrow> (kept, m, p # expired))
     else (case expire_loop now n ps of (kept, m, expired) \<Rightarrow> (p # kept, m, expired)))"

definition highest_priority :: "'d EnhancedRaftProposal list \<Rightarrow> ProposalPriority" where
  "highest_priority ps = (if ps = [] then Normal else foldr max (map ep_priority (tl ps)) (ep_priority (hd ps)))"

definition remove_expired :: "instant \<Rightarrow> 'd OptimizedProposalBatch \<Rightarrow> 'd EnhancedRaftProposal list \<times> 'd OptimizedProposalBatch" where
  "remove_expired now b = (case expire_loop now (total_size b) (ob_proposals b) of (kept, n, expired) \<Rightarrow>
     (expired, b\<lparr>ob_proposals := kept, total_size := n, ob_priority := highest_priority kept\<rparr>))"

section \<open>Adaptive batch size\<close>

text \<open>A throughput is infinite when no time was measured; a sample has at least one proposal.\<close>

datatype throughput = Rate f64 | Unbounded

definition faster :: "throughput \<Rightarrow> throughput \<Rightarrow> bool" where
  "faster x y = (case x of Unbounded \<Rightarrow> y \<noteq> Unbounded | Rate r \<Rightarrow> (case y of Unbounded \<Rightarrow> False | Rate r' \<Rightarrow> r > r'))"

definition throughput_of :: "nat \<Rightarrow> duration \<Rightarrow> throughput" where
  "throughput_of n d = (if d = 0 then Unbounded else Rate (f64_div (f64_of_nat n) (as_secs_f64 d)))"

record BatchPerformanceMetrics =
  batch_sizes :: "nat list"
  processing_times :: "duration list"
  throughput_samples :: "throughput list"
  last_update :: instant

definition metrics_new :: "instant \<Rightarrow> BatchPerformanceMetrics" where
  "metrics_new now = \<lparr>batch_sizes = [], processing_times = [], throughput_samples = [], last_update = now\<rparr>"

definition MAX_SAMPLES :: nat where "MAX_SAMPLES = 50"

definition record_batch :: "instant \<Rightarrow> nat \<Rightarrow> duration \<Rightarrow> BatchPerformanceMetrics \<Rightarrow> BatchPerformanceMetrics" where
  "record_batch now batch_size processing_time m =
    (let sizes = batch_sizes m @ [batch_size]; times = processing_times m @ [processing_time];
         samples = throughput_samples m @ [throughput_of batch_size processing_time]
     in if length sizes > MAX_SAMPLES
        then \<lparr>batch_sizes = tl sizes, processing_times = tl times, throughput_samples = tl samples, last_update = now\<rparr>
        else \<lparr>batch_sizes = sizes, processing_times = times, throughput_samples = samples, last_update = now\<rparr>)"

fun best_sample :: "nat \<Rightarrow> throughput \<Rightarrow> (nat \<times> throughput) list \<Rightarrow> nat" where
  "best_sample best_size best_throughput [] = best_size"
| "best_sample best_size best_throughput ((n, t) # samples) =
    (if faster t best_throughput then best_sample n t samples else best_sample best_size best_throughput samples)"

text \<open>\<open>clamp\<close> panics, here \<open>None\<close>, when its bounds are in the wrong order.\<close>

definition clamp :: "nat \<Rightarrow> nat \<Rightarrow> nat \<Rightarrow> nat option" where
  "clamp lo hi n = (if lo \<le> hi then Some (if n < lo then lo else if n > hi then hi else n) else None)"

definition get_optimal_batch_size :: "OptimizedBatchConfig \<Rightarrow> BatchPerformanceMetrics \<Rightarrow> nat option" where
  "get_optimal_batch_size config m =
    (if length (throughput_samples m) < 5 then Some (max_batch_size config div 2)
     else clamp (min_batch_size config) (max_batch_size config)
       (best_sample (min_batch_size config) (Rate 0) (zip (batch_sizes m) (throughput_samples m))))"

definition get_avg_processing_time :: "BatchPerformanceMetrics \<Rightarrow> duration" where
  "get_avg_processing_time m = (if processing_times m = [] then from_millis 10
     else sum_list (processing_times m) div length (processing_times m))"

section \<open>The processor\<close>

text \<open>
  Of the state of the world there is the channel to the manager, what was sent through response
  channels, and the tasks that distribute the answer to a batch: the channel each waits on,
  and those it will answer. \<open>pr_next\<close> numbers identifiers and channels.
\<close>

record ('d, 'k, 'b) processor =
  pr_config :: OptimizedBatchConfig
  pr_batches :: "'d OptimizedProposalBatch list"
  pr_metrics :: BatchPerformanceMetrics
  pr_pending :: 'k
  pr_breaker :: 'b
  raft_sent :: "'d raft_proposal list"
  raft_open :: bool
  distributors :: "(channel \<times> channel list) list"
  pr_answers :: "(channel \<times> (RaftError + unit)) list"
  pr_next :: nat

definition processor_new :: "OptimizedBatchConfig \<Rightarrow> instant \<Rightarrow> 'k \<Rightarrow> 'b \<Rightarrow> nat \<Rightarrow> ('d, 'k, 'b) processor" where
  "processor_new config now zero breaker next = \<lparr>pr_config = config, pr_batches = [], pr_metrics = metrics_new now,
     pr_pending = zero, pr_breaker = breaker, raft_sent = [], raft_open = True, distributors = [], pr_answers = [],
     pr_next = next\<rparr>"

text \<open>Answering the channels of a batch; \<open>None\<close> when the channel it waits on was dropped.\<close>

definition batch_answer :: "('d, 'k, 'b) batch_deps \<Rightarrow> (RaftError + unit) option \<Rightarrow> RaftError + unit" where
  "batch_answer D result = (case result of
     Some (Inr _) \<Rightarrow> Inr ()
   | Some (Inl e) \<Rightarrow> Inl (Internal (''Batch proposal failed: '' @ bd_show_error D e))
   | None \<Rightarrow> Inl (Internal ''Batch response channel dropped''))"

definition distribute :: "('d, 'k, 'b) batch_deps \<Rightarrow> channel \<Rightarrow> (RaftError + unit) option \<Rightarrow> ('d, 'k, 'b) processor \<Rightarrow> ('d, 'k, 'b) processor" where
  "distribute D batch_rx result s = s\<lparr>
     pr_answers := pr_answers s @ concat (map (\<lambda>(rx, txs). if rx = batch_rx then map (\<lambda>tx. (tx, batch_answer D result)) txs else [])
       (distributors s)),
     distributors := filter (\<lambda>(rx, txs). rx \<noteq> batch_rx) (distributors s)\<rparr>"

definition create_batched_proposal :: "('d, 'k, 'b) batch_deps \<Rightarrow> 'd raft_proposal list
    \<Rightarrow> (('d, 'k, 'b) processor, 'd raft_proposal) action" where
  "create_batched_proposal D proposals = act_with pr_next (\<lambda>n.
     act_then (act_update (\<lambda>s. s\<lparr>pr_next := n + 1,
       distributors := distributors s @ [(n, List.map_filter pp_response_tx proposals)]\<rparr>)) (\<lambda>_.
     act_return \<lparr>pp_id = bd_uuid D n, pp_data = bd_batch D (map pp_data proposals), pp_response_tx = Some n\<rparr>))"

text \<open>\<open>raft_tx.send\<close>: when the receiver is gone the proposal is dropped, and its channel with it.\<close>

definition raft_send :: "('d, 'k, 'b) batch_deps \<Rightarrow> string \<Rightarrow> 'd raft_proposal \<Rightarrow> (('d, 'k, 'b) processor, unit) action" where
  "raft_send D what p = act_with raft_open (\<lambda>alive.
     if alive then act_update (\<lambda>s. s\<lparr>raft_sent := raft_sent s @ [p]\<rparr>)
     else act_then (act_update (\<lambda>s. case pp_response_tx p of None \<Rightarrow> s | Some tx \<Rightarrow> distribute D tx None s)) (\<lambda>_.
       act_fail (Internal (what @ ''channel closed''))))"

definition process_single_batch :: "('d, 'k, 'b) batch_deps \<Rightarrow> instant \<Rightarrow> 'd OptimizedProposalBatch
    \<Rightarrow> (('d, 'k, 'b) processor, unit) action" where
  "process_single_batch D now batch =
    (if ob_proposals batch = [] then act_return ()
     else
       act_then (case map ep_inner (ob_proposals batch) of
           [proposal] \<Rightarrow> raft_send D ''Failed to send proposal: '' proposal
         | raft_proposals \<Rightarrow> act_then (create_batched_proposal D raft_proposals) (\<lambda>batch_proposal.
             raft_send D ''Failed to send batched proposal: '' batch_proposal)) (\<lambda>_.
       act_then (act_update (\<lambda>s. s\<lparr>pr_metrics := record_batch now (length (ob_proposals batch)) (bd_elapsed D batch) (pr_metrics s)\<rparr>)) (\<lambda>_.
       act_update (\<lambda>s. s\<lparr>pr_pending := (bd_decrement D ^^ length (ob_proposals batch)) (pr_pending s)\<rparr>))))"

text \<open>\<open>concurrent_map\<close> and the loop over its results.\<close>

fun run_each :: "('x \<Rightarrow> ('m, 'a) action) \<Rightarrow> 'x list \<Rightarrow> 'm \<Rightarrow> (RaftError + 'a) list \<times> 'm" where
  "run_each f [] m = ([], m)"
| "run_each f (x # xs) m = (case f x m of (r, m') \<Rightarrow> (case run_each f xs m' of (rs, m'') \<Rightarrow> (r # rs, m'')))"

definition scheduled :: "('d, 'k, 'b) batch_deps \<Rightarrow> 'x list \<Rightarrow> 'x list" where
  "scheduled D xs = map (\<lambda>i. xs ! i) (bd_schedule D (length xs))"

definition check_results :: "(RaftError + 'a) list \<Rightarrow> RaftError + unit" where
  "check_results results = and_then (collect_results results) (\<lambda>_. Inr ())"

section \<open>Traditional mode\<close>

text \<open>\<open>position\<close>: the index of the first match.\<close>

fun position :: "('a \<Rightarrow> bool) \<Rightarrow> 'a list \<Rightarrow> nat option" where
  "position P [] = None"
| "position P (x # xs) = (if P x then Some 0 else map_option Suc (position P xs))"

definition backpressure_full :: "('d, 'k, 'b) batch_deps \<Rightarrow> ('d, 'k, 'b) processor \<Rightarrow> bool" where
  "backpressure_full D s \<longleftrightarrow> enable_backpressure (pr_config s)
     \<and> bd_get D (pr_pending s) \<ge> max_pending_proposals (pr_config s)"

text \<open>The batch a proposal goes to: its index, and the batches, with a new one if there is none.\<close>

definition find_batch :: "instant \<Rightarrow> bytes \<Rightarrow> ProposalPriority \<Rightarrow> 'd OptimizedProposalBatch list
    \<Rightarrow> nat \<times> 'd OptimizedProposalBatch list" where
  "find_batch now uuid priority batches = (case position (\<lambda>b. ob_priority b = priority) batches of
     Some i \<Rightarrow> (i, batches) | None \<Rightarrow> (length batches, batches @ [batch_new now uuid]))"

definition add_to_priority_batch :: "('d, 'k, 'b) batch_deps \<Rightarrow> instant \<Rightarrow> 'd EnhancedRaftProposal
    \<Rightarrow> (('d, 'k, 'b) processor, unit) action" where
  "add_to_priority_batch D now proposal = act_with id (\<lambda>s.
    if backpressure_full D s
    then act_fail (ResourceExhausted (''Pending proposals queue (limit: '' @ show_nat (max_pending_proposals (pr_config s)) @ '')'') '''')
    else (case find_batch now (bd_uuid D (pr_next s)) (ep_priority proposal) (pr_batches s) of (i, batches) \<Rightarrow>
      let batch = batch_add proposal (batches ! i);
          s' = s\<lparr>pr_pending := bd_increment D (pr_pending s), pr_next := pr_next s + 1\<rparr>
      in if should_flush now (pr_config s) batch
         then act_then (act_update (\<lambda>_. s'\<lparr>pr_batches := take i batches @ drop (Suc i) batches\<rparr>)) (\<lambda>_.
           process_single_batch D now batch)
         else act_update (\<lambda>_. s'\<lparr>pr_batches := batches[i := batch]\<rparr>)))"

text \<open>
  The loop of \<open>flush_ready_batches\<close> under the lock: what to flush, what stays, what has expired.
\<close>

fun flush_scan :: "instant \<Rightarrow> OptimizedBatchConfig \<Rightarrow> 'd OptimizedProposalBatch list
    \<Rightarrow> 'd OptimizedProposalBatch list \<times> 'd OptimizedProposalBatch list \<times> 'd EnhancedRaftProposal list" where
  "flush_scan now config [] = ([], [], [])"
| "flush_scan now config (b # bs) = (case flush_scan now config bs of (to_flush, kept, expired) \<Rightarrow>
    if should_flush now config b then (b # to_flush, kept, expired)
    else (case remove_expired now b of (e, b') \<Rightarrow> (to_flush, b' # kept, e @ expired)))"

definition timeout_answers :: "instant \<Rightarrow> 'd EnhancedRaftProposal list \<Rightarrow> (channel \<times> (RaftError + unit)) list" where
  "timeout_answers now expired = concat (map (\<lambda>p. case pp_response_tx (ep_inner p) of None \<Rightarrow> []
     | Some tx \<Rightarrow> [(tx, Inl (Timeout ''Proposal processing'' (duration_since now (submitted_at p))))]) expired)"

definition flush_ready_batches :: "('d, 'k, 'b) batch_deps \<Rightarrow> instant \<Rightarrow> (('d, 'k, 'b) processor, unit) action" where
  "flush_ready_batches D now = (\<lambda>s. case flush_scan now (pr_config s) (pr_batches s) of (to_flush, kept, expired) \<Rightarrow>
     (case run_each (process_single_batch D now) (scheduled D to_flush)
         (s\<lparr>pr_batches := kept, pr_answers := pr_answers s @ timeout_answers now expired\<rparr>)
      of (results, s') \<Rightarrow> (check_results results, s')))"

definition flush_all_batches :: "('d, 'k, 'b) batch_deps \<Rightarrow> instant \<Rightarrow> (('d, 'k, 'b) processor, unit) action" where
  "flush_all_batches D now = act_with pr_batches (\<lambda>batches.
     act_then (act_update (\<lambda>s. s\<lparr>pr_batches := []\<rparr>)) (\<lambda>_.
       act_each (process_single_batch D now) batches))"

text \<open>The background task: expired proposals are dropped, and their channels with them.\<close>

definition cleanup_expired :: "instant \<Rightarrow> ('d, 'k, 'b) processor \<Rightarrow> ('d, 'k, 'b) processor" where
  "cleanup_expired now s = s\<lparr>pr_batches := map (\<lambda>b. snd (remove_expired now b)) (pr_batches s)\<rparr>"


section \<open>Streaming mode\<close>

datatype breaker_error = CircuitOpen | OperationFailed RaftError

definition breaker_call :: "('d, 'k, 'b) batch_deps \<Rightarrow> instant \<Rightarrow> (('d, 'k, 'b) processor, unit) action
    \<Rightarrow> ('d, 'k, 'b) processor \<Rightarrow> (breaker_error + unit) \<times> ('d, 'k, 'b) processor" where
  "breaker_call D now f s = (case br_admits D now (pr_breaker s) of (admitted, b) \<Rightarrow>
     if \<not> admitted then (Inl CircuitOpen, s\<lparr>pr_breaker := b\<rparr>)
     else (case f (s\<lparr>pr_breaker := b\<rparr>) of (r, s') \<Rightarrow>
       (map_err OperationFailed r, s'\<lparr>pr_breaker := br_finished D now (is_ok r) (pr_breaker s')\<rparr>)))"

definition group_batch :: "instant \<Rightarrow> bytes \<Rightarrow> ProposalPriority \<Rightarrow> 'd EnhancedRaftProposal list \<Rightarrow> 'd OptimizedProposalBatch" where
  "group_batch now uuid priority ps = fold batch_add ps ((batch_new now uuid)\<lparr>ob_priority := priority\<rparr>)"

text \<open>The loop over the proposals of one priority; a loop that never ends has the value \<open>None\<close>.\<close>

partial_function (option) group_loop :: "('d, 'k, 'b) batch_deps \<Rightarrow> instant \<Rightarrow> nat \<Rightarrow> ProposalPriority
    \<Rightarrow> 'd EnhancedRaftProposal list \<Rightarrow> ('d, 'k, 'b) processor \<Rightarrow> ((RaftError + unit) \<times> ('d, 'k, 'b) processor) option" where
  "group_loop D now optimal_size priority ps s =
    (if ps = [] then Some (Inr (), s)
     else case breaker_call D now (process_single_batch D now
         (group_batch now (bd_uuid D (pr_next s)) priority (take optimal_size ps))) s of
       (Inr _, s') \<Rightarrow> group_loop D now optimal_size priority (drop optimal_size ps) s'
     | (Inl CircuitOpen, s') \<Rightarrow> Some (Inl (Internal ''Circuit breaker open''), s')
     | (Inl (OperationFailed e), s') \<Rightarrow> Some (Inl e, s'))"

text \<open>A group, or the whole chunk, may also panic.\<close>

datatype 's task_result = Returned "RaftError + unit" 's | Panicked 's

definition process_priority_group :: "('d, 'k, 'b) batch_deps \<Rightarrow> instant \<Rightarrow> ProposalPriority
    \<Rightarrow> 'd EnhancedRaftProposal list \<Rightarrow> ('d, 'k, 'b) processor \<Rightarrow> ('d, 'k, 'b) processor task_result option" where
  "process_priority_group D now priority ps s =
    (case if enable_adaptive_batching (pr_config s) then get_optimal_batch_size (pr_config s) (pr_metrics s)
          else Some (max_batch_size (pr_config s)) of
       None \<Rightarrow> Some (Panicked s)
     | Some optimal_size \<Rightarrow> map_option (\<lambda>(r, s'). Returned r s') (group_loop D now optimal_size priority ps s))"

fun run_groups :: "('d, 'k, 'b) batch_deps \<Rightarrow> instant \<Rightarrow> (ProposalPriority \<times> 'd EnhancedRaftProposal list) list
    \<Rightarrow> (RaftError + unit) list \<Rightarrow> ('d, 'k, 'b) processor \<Rightarrow> ('d, 'k, 'b) processor task_result option" where
  "run_groups D now [] results s = Some (Returned (check_results results) s)"
| "run_groups D now ((priority, ps) # groups) results s =
    (case process_priority_group D now priority ps s of
       None \<Rightarrow> None
     | Some (Panicked s') \<Rightarrow> Some (Panicked s')
     | Some (Returned r s') \<Rightarrow> run_groups D now groups (results @ [r]) s')"

definition priority_groups :: "'d EnhancedRaftProposal list \<Rightarrow> (ProposalPriority \<times> 'd EnhancedRaftProposal list) list" where
  "priority_groups ps = filter (\<lambda>(_, group). group \<noteq> [])
     (map (\<lambda>priority. (priority, filter (\<lambda>p. ep_priority p = priority) ps)) [Low, Normal, High, Critical])"

definition process_proposal_chunk :: "('d, 'k, 'b) batch_deps \<Rightarrow> instant \<Rightarrow> 'd EnhancedRaftProposal list
    \<Rightarrow> ('d, 'k, 'b) processor \<Rightarrow> ('d, 'k, 'b) processor task_result option" where
  "process_proposal_chunk D now ps s = (if ps = [] then Some (Returned (Inr ()) s)
     else run_groups D now (scheduled D (priority_groups ps)) [] s)"

text \<open>
  Collecting a chunk: what is received is a list of proposals, each with whether the channel was
  empty right after it; at its end the channel is closed.
\<close>

fun next_chunk :: "nat \<Rightarrow> ('d EnhancedRaftProposal \<times> bool) list \<Rightarrow> 'd EnhancedRaftProposal list
    \<times> ('d EnhancedRaftProposal \<times> bool) list \<times> bool" where
  "next_chunk 0 received = ([], received, False)"
| "next_chunk (Suc n) [] = ([], [], True)"
| "next_chunk (Suc n) ((p, channel_empty) # received) =
    (if n = 0 \<or> channel_empty then ([p], received, False)
     else (case next_chunk n received of (chunk, rest, is_closed) \<Rightarrow> (p # chunk, rest, is_closed)))"

text \<open>The streaming loop; an error of a chunk is only logged.\<close>

partial_function (option) run_streaming_mode :: "('d, 'k, 'b) batch_deps \<Rightarrow> instant \<Rightarrow> ('d EnhancedRaftProposal \<times> bool) list
    \<Rightarrow> ('d, 'k, 'b) processor \<Rightarrow> ('d, 'k, 'b) processor task_result option" where
  "run_streaming_mode D now received s =
    (case next_chunk (stream_buffer_size (pr_config s)) received of (chunk, rest, is_closed) \<Rightarrow>
      Option.bind (process_proposal_chunk D now chunk s) (\<lambda>result. case result of
        Panicked s' \<Rightarrow> Some (Panicked s')
      | Returned _ s' \<Rightarrow> if is_closed then Some (Returned (Inr ()) s') else run_streaming_mode D now rest s'))"

definition run_passthrough_mode :: "('d, 'k, 'b) batch_deps \<Rightarrow> 'd EnhancedRaftProposal list
    \<Rightarrow> ('d, 'k, 'b) processor \<Rightarrow> ('d, 'k, 'b) processor" where
  "run_passthrough_mode D received s =
     fold (\<lambda>p s. snd (raft_send D ''Failed to forward proposal: '' (ep_inner p) s)) received s"

section \<open>What the processor does in traditional mode\<close>

text \<open>
  The branches of \<open>select!\<close>, the background task and the tasks that distribute answers. The
  branch \<open>else\<close> is never taken: the timer is always a branch that can complete. An event
  carries the proposals that enter or leave. The manager may drop its end of the channel at any
  time, between two batches of a flush too, and with it the response channels of the proposals that
  it had not taken: a task that distributes answers then finds its channel dropped, which is an
  answer event of its own.
\<close>

datatype 'd batch_event =
    Accepted "'d EnhancedRaftProposal"
  | Refused "'d EnhancedRaftProposal"
  | Flushed "'d EnhancedRaftProposal list"
  | CleanedUp "'d EnhancedRaftProposal list"
  | Answered channel
  | ManagerClosed
  | FlushedClosing "'d EnhancedRaftProposal list"

definition closes :: "'d batch_event \<Rightarrow> bool" where
  "closes e \<longleftrightarrow> e = ManagerClosed \<or> (\<exists>ps. e = FlushedClosing ps)"

text \<open>\<open>flush_ready_batches\<close> when the manager goes after \<open>k\<close> of the batches.\<close>

definition flush_closing :: "('d, 'k, 'b) batch_deps \<Rightarrow> instant \<Rightarrow> nat \<Rightarrow> ('d, 'k, 'b) processor \<Rightarrow> ('d, 'k, 'b) processor" where
  "flush_closing D now k s = (case flush_scan now (pr_config s) (pr_batches s) of (to_flush, kept, expired) \<Rightarrow>
     (case run_each (process_single_batch D now) (take k (scheduled D to_flush))
         (s\<lparr>pr_batches := kept, pr_answers := pr_answers s @ timeout_answers now expired\<rparr>)
      of (_, s1) \<Rightarrow> snd (run_each (process_single_batch D now) (drop k (scheduled D to_flush)) (s1\<lparr>raft_open := False\<rparr>))))"

definition expired_in :: "instant \<Rightarrow> 'd OptimizedProposalBatch list \<Rightarrow> 'd EnhancedRaftProposal list" where
  "expired_in now batches = concat (map (\<lambda>b. fst (remove_expired now b)) batches)"

inductive bp_step :: "('d, 'k, 'b) batch_deps \<Rightarrow> ('d, 'k, 'b) processor \<Rightarrow> 'd batch_event \<Rightarrow> ('d, 'k, 'b) processor \<Rightarrow> bool" for D where
  bp_accept: "\<not> backpressure_full D s \<Longrightarrow> bp_step D s (Accepted p) (snd (add_to_priority_batch D now p s))"
| bp_refuse: "backpressure_full D s \<Longrightarrow> bp_step D s (Refused p) (snd (add_to_priority_batch D now p s))"
| bp_flush: "bp_step D s (Flushed (snd (snd (flush_scan now (pr_config s) (pr_batches s))))) (snd (flush_ready_batches D now s))"
| bp_clean: "bp_step D s (CleanedUp (expired_in now (pr_batches s))) (cleanup_expired now s)"
| bp_answer: "bp_step D s (Answered batch_rx) (distribute D batch_rx result s)"
| bp_close: "bp_step D s ManagerClosed (s\<lparr>raft_open := False\<rparr>)"
| bp_flush_close: "bp_step D s (FlushedClosing (snd (snd (flush_scan now (pr_config s) (pr_batches s))))) (flush_closing D now k s)"

inductive_cases bp_stepE: "bp_step D s e t"

fun accepted_of :: "'d batch_event list \<Rightarrow> 'd EnhancedRaftProposal list" where
  "accepted_of [] = []"
| "accepted_of (Accepted p # es) = p # accepted_of es"
| "accepted_of (_ # es) = accepted_of es"

fun expired_of :: "'d batch_event list \<Rightarrow> 'd EnhancedRaftProposal list" where
  "expired_of [] = []"
| "expired_of (Flushed ps # es) = ps @ expired_of es"
| "expired_of (CleanedUp ps # es) = ps @ expired_of es"
| "expired_of (FlushedClosing ps # es) = ps @ expired_of es"
| "expired_of (_ # es) = expired_of es"


section \<open>What the parameters promise\<close>

text \<open>A counter that counts, and an order that runs every item once.\<close>

definition counter_ok :: "('d, 'k, 'b) batch_deps \<Rightarrow> bool" where
  "counter_ok D \<longleftrightarrow> (\<forall>k. bd_get D (bd_increment D k) = bd_get D k + 1)
     \<and> (\<forall>k. 0 < bd_get D k \<longrightarrow> bd_get D (bd_decrement D k) = bd_get D k - 1)"

definition schedule_ok :: "('d, 'k, 'b) batch_deps \<Rightarrow> bool" where
  "schedule_ok D \<longleftrightarrow> (\<forall>n. mset (bd_schedule D n) = mset [0..<n])"

section \<open>Sending batches\<close>

text \<open>The proposal handed to the manager for a batch.\<close>

definition sends :: "('d, 'k, 'b) batch_deps \<Rightarrow> 'd EnhancedRaftProposal list \<Rightarrow> 'd raft_proposal \<Rightarrow> bool" where
  "sends D ps p \<longleftrightarrow> ps \<noteq> [] \<and> (length ps = 1 \<longrightarrow> p = ep_inner (hd ps))
     \<and> (length ps \<noteq> 1 \<longrightarrow> pp_data p = bd_batch D (map (\<lambda>e. pp_data (ep_inner e)) ps))"

definition queued :: "('d, 'k, 'b) processor \<Rightarrow> 'd EnhancedRaftProposal list" where
  "queued s = concat (map ob_proposals (pr_batches s))"

text \<open>\<open>sent_batches D s bs s'\<close>: between the two states exactly these batches were sent, in this order.\<close>

definition sent_batches :: "('d, 'k, 'b) batch_deps \<Rightarrow> ('d, 'k, 'b) processor \<Rightarrow> 'd EnhancedRaftProposal list list
    \<Rightarrow> ('d, 'k, 'b) processor \<Rightarrow> bool" where
  "sent_batches D s bs s' \<longleftrightarrow> raft_open s' = raft_open s \<and> pr_config s' = pr_config s \<and> pr_batches s' = pr_batches s
     \<and> pr_pending s' = (bd_decrement D ^^ length (concat bs)) (pr_pending s)
     \<and> (\<exists>ps. list_all2 (sends D) bs ps \<and> raft_sent s' = raft_sent s @ ps)"

lemma process_single_batch_empty [simp]: "ob_proposals b = [] \<Longrightarrow> process_single_batch D now b s = (Inr (), s)"
  by (simp add: process_single_batch_def)

lemma process_single_batch_open:
  assumes "raft_open s" and "ob_proposals b \<noteq> []"
  shows "fst (process_single_batch D now b s) = Inr ()
    \<and> sent_batches D s [ob_proposals b] (snd (process_single_batch D now b s))
    \<and> pr_breaker (snd (process_single_batch D now b s)) = pr_breaker s"
proof (cases "ob_proposals b")
  case (Cons p ps)
  with assms show ?thesis
    by (cases ps) (auto simp: process_single_batch_def raft_send_def create_batched_proposal_def act_then_apply
        sent_batches_def sends_def comp_def)
qed (use assms in simp)

text \<open>When the manager is gone the batch is lost, and the counter stays.\<close>

lemma distribute_fields [simp]:
  "raft_open (distribute D rx result s) = raft_open s" "pr_config (distribute D rx result s) = pr_config s"
  "pr_batches (distribute D rx result s) = pr_batches s" "pr_pending (distribute D rx result s) = pr_pending s"
  "raft_sent (distribute D rx result s) = raft_sent s"
  by (simp_all add: distribute_def)

lemma process_single_batch_closed:
  assumes "\<not> raft_open s"
  shows "sent_batches D s [] (snd (process_single_batch D now b s))"
proof (cases "ob_proposals b")
  case (Cons p ps)
  with assms show ?thesis
    by (cases ps) (auto simp: process_single_batch_def raft_send_def create_batched_proposal_def act_then_apply
        sent_batches_def split: option.split)
qed (simp add: sent_batches_def)

lemma process_single_batch_batches [simp]:
  "pr_batches (snd (process_single_batch D now b s)) = pr_batches s"
  "pr_config (snd (process_single_batch D now b s)) = pr_config s"
  by (auto simp: process_single_batch_def raft_send_def create_batched_proposal_def act_then_apply distribute_def
      split: list.split option.split)

lemma funpow_funpow: "(f ^^ m) ((f ^^ n) x) = (f ^^ (n + m)) x"
  by (metis add.commute comp_apply funpow_add)

lemma process_single_batch_opened: "raft_open (snd (process_single_batch D now b s)) = raft_open s"
proof (cases "raft_open s \<and> ob_proposals b \<noteq> []")
  case True
  then show ?thesis using process_single_batch_open[of s b D now] by (simp add: sent_batches_def)
next
  case False
  then show ?thesis using process_single_batch_closed[of s D now b] by (auto simp: sent_batches_def)
qed

lemma sent_batches_append:
  "sent_batches D s bs s' \<Longrightarrow> sent_batches D s' cs t \<Longrightarrow> sent_batches D s (bs @ cs) t"
  unfolding sent_batches_def by (auto simp: funpow_funpow intro: list_all2_appendI)

lemma sent_batches_none: "sent_batches D s [] s"
  by (simp add: sent_batches_def)

lemma run_each_sends:
  assumes "\<forall>b \<in> set bs. ob_proposals b \<noteq> []"
  shows "sent_batches D s (if raft_open s then map ob_proposals bs else []) (snd (run_each (process_single_batch D now) bs s))"
  using assms
proof (induction bs arbitrary: s)
  case (Cons b bs)
  let ?s1 = "snd (process_single_batch D now b s)"
  have s1: "sent_batches D s (if raft_open s then [ob_proposals b] else []) ?s1"
    using process_single_batch_open[of s b D now] process_single_batch_closed[of s D now b] Cons.prems by simp
  then have "raft_open ?s1 = raft_open s" by (simp add: sent_batches_def)
  with Cons.IH[of ?s1] Cons.prems sent_batches_append[OF s1] show ?case
    by (cases "raft_open s") (auto simp: split_beta dest: sent_batches_append[OF s1])
qed (simp add: sent_batches_none)

lemma scheduled_mset: "schedule_ok D \<Longrightarrow> mset (scheduled D xs) = mset xs"
proof -
  assume "schedule_ok D"
  then have "mset (bd_schedule D (length xs)) = mset [0..<length xs]" by (simp add: schedule_ok_def)
  then have "mset (scheduled D xs) = image_mset ((!) xs) (mset [0..<length xs])"
    by (simp only: scheduled_def mset_map)
  also have "\<dots> = mset (map ((!) xs) [0..<length xs])" by simp
  also have "\<dots> = mset xs" by (simp only: map_nth)
  finally show ?thesis .
qed

lemma collect_oks [simp]: "collect_results (map (\<lambda>_. Inr ()) xs) = Inr (map (\<lambda>_. ()) xs)"
  by (induction xs) auto

section \<open>Batches that wait\<close>

lemma expire_loop_eq:
  "expire_loop now n ps = (filter (\<lambda>p. \<not> is_expired now p) ps,
     n - sum_list (map estimated_size (filter (is_expired now) ps)), filter (is_expired now) ps)"
  by (induction ps arbitrary: n) (simp_all add: diff_diff_left)

lemma remove_expired_eq:
  "fst (remove_expired now b) = filter (is_expired now) (ob_proposals b)"
  "ob_proposals (snd (remove_expired now b)) = filter (\<lambda>p. \<not> is_expired now p) (ob_proposals b)"
  "total_size (snd (remove_expired now b)) = total_size b - sum_list (map estimated_size (filter (is_expired now) (ob_proposals b)))"
  by (simp_all add: remove_expired_def expire_loop_eq)

lemma flush_scan_eq:
  "flush_scan now config bs = (filter (should_flush now config) bs,
     map (\<lambda>b. snd (remove_expired now b)) (filter (\<lambda>b. \<not> should_flush now config b) bs),
     expired_in now (filter (\<lambda>b. \<not> should_flush now config b) bs))"
  by (induction bs) (auto simp: expired_in_def split: prod.split)

lemma should_flush_nonempty: "should_flush now config b \<Longrightarrow> ob_proposals b \<noteq> []"
  by (auto simp: should_flush_def)

text \<open>
  A batch that waits is below both limits, and its size is that of its proposals.
\<close>

definition batch_ok :: "OptimizedBatchConfig \<Rightarrow> 'd OptimizedProposalBatch \<Rightarrow> bool" where
  "batch_ok config b \<longleftrightarrow> total_size b = sum_list (map estimated_size (ob_proposals b))
     \<and> (ob_proposals b \<noteq> [] \<longrightarrow> length (ob_proposals b) < max_batch_size config \<and> total_size b < max_batch_bytes config)"

lemma sum_list_filter: "sum_list (map f (filter P xs)) + sum_list (map f (filter (\<lambda>x. \<not> P x) xs)) = sum_list (map f xs)"
  for f :: "'a \<Rightarrow> nat"
  by (induction xs) auto

lemma batch_ok_remove_expired: "batch_ok config b \<Longrightarrow> batch_ok config (snd (remove_expired now b))"
proof -
  assume ok: "batch_ok config b"
  let ?kept = "filter (\<lambda>p. \<not> is_expired now p) (ob_proposals b)"
  have size: "total_size (snd (remove_expired now b)) = sum_list (map estimated_size ?kept)"
    using ok sum_list_filter[of estimated_size "is_expired now" "ob_proposals b"] by (simp add: remove_expired_eq batch_ok_def)
  have "length ?kept \<le> length (ob_proposals b)" "sum_list (map estimated_size ?kept) \<le> total_size b"
    using ok sum_list_filter[of estimated_size "is_expired now" "ob_proposals b"] by (simp_all add: batch_ok_def)
  then show ?thesis using ok size by (auto simp: batch_ok_def remove_expired_eq(2) filter_empty_conv intro: le_less_trans[OF length_filter_le])
qed

lemma position_cases:
  "case position P xs of None \<Rightarrow> \<forall>x \<in> set xs. \<not> P x | Some i \<Rightarrow> i < length xs \<and> P (xs ! i)"
  by (induction xs) (auto split: option.splits)

lemma find_batch_cases:
  obtains (old) i where "find_batch now uuid priority bs = (i, bs)" "i < length bs" "ob_priority (bs ! i) = priority"
  | (new) "find_batch now uuid priority bs = (length bs, bs @ [batch_new now uuid])" "\<forall>b \<in> set bs. ob_priority b \<noteq> priority"
  using position_cases[of bs "\<lambda>b. ob_priority b = priority"] old new
  by (auto simp: find_batch_def split: option.splits)

definition batches_bounded :: "('d, 'k, 'b) processor \<Rightarrow> bool" where
  "batches_bounded s \<longleftrightarrow> (\<forall>b \<in> set (pr_batches s). batch_ok (pr_config s) b)"

lemma add_full [simp]: "backpressure_full D s \<Longrightarrow> snd (add_to_priority_batch D now p s) = s"
  by (simp add: add_to_priority_batch_def)

lemma add_effect:
  assumes "\<not> backpressure_full D s" and "find_batch now (bd_uuid D (pr_next s)) (ep_priority p) (pr_batches s) = (i, batches)"
  shows "add_to_priority_batch D now p s =
    (let s' = s\<lparr>pr_pending := bd_increment D (pr_pending s), pr_next := pr_next s + 1\<rparr>
     in if should_flush now (pr_config s) (batch_add p (batches ! i))
        then process_single_batch D now (batch_add p (batches ! i)) (s'\<lparr>pr_batches := take i batches @ drop (Suc i) batches\<rparr>)
        else (Inr (), s'\<lparr>pr_batches := batches[i := batch_add p (batches ! i)]\<rparr>))"
  using assms by (simp add: add_to_priority_batch_def Let_def)

lemma find_batch_ok:
  "find_batch now uuid priority bs = (i, batches) \<Longrightarrow> i < length batches \<and> concat (map ob_proposals batches) = concat (map ob_proposals bs)
    \<and> ((\<forall>b \<in> set bs. batch_ok config b) \<longrightarrow> (\<forall>b \<in> set batches. batch_ok config b))"
  by (rule find_batch_cases[of now uuid priority bs]) (auto simp: batch_new_def batch_ok_def)

lemma batch_add_simps [simp]:
  "ob_proposals (batch_add p b) = ob_proposals b @ [p]"
  "total_size (batch_add p b) = total_size b + estimated_size p"
  by (simp_all add: batch_add_def)

lemma batches_bounded_add: "batches_bounded s \<Longrightarrow> batches_bounded (snd (add_to_priority_batch D now p s))"
proof (cases "backpressure_full D s")
  case False
  assume bounded: "batches_bounded s"
  obtain i batches where found: "find_batch now (bd_uuid D (pr_next s)) (ep_priority p) (pr_batches s) = (i, batches)"
    by fastforce
  note ok = find_batch_ok[OF found, of "pr_config s"]
  let ?b = "batch_add p (batches ! i)"
  have all: "\<forall>b \<in> set batches. batch_ok (pr_config s) b" using ok bounded by (auto simp: batches_bounded_def)
  show ?thesis
  proof (cases "should_flush now (pr_config s) ?b")
    case True
    with all show ?thesis
      by (auto simp: add_effect[OF False found] batches_bounded_def Let_def dest: in_set_takeD in_set_dropD)
  next
    case waits: False
    then have "batch_ok (pr_config s) ?b"
      using all ok by (auto simp: batch_ok_def should_flush_def split: if_splits)
    with all waits show ?thesis
      by (auto simp: add_effect[OF False found] batches_bounded_def Let_def dest!: set_update_subset_insert[THEN subsetD])
  qed
qed simp

lemma run_each_keeps:
  "pr_batches (snd (run_each (process_single_batch D now) bs s)) = pr_batches s"
  "pr_config (snd (run_each (process_single_batch D now) bs s)) = pr_config s"
  "raft_open (snd (run_each (process_single_batch D now) bs s)) = raft_open s"
proof (induction bs arbitrary: s)
  case (Cons b bs)
  {
    case 1
    show ?case using Cons(1)[of "snd (process_single_batch D now b s)"] by (simp add: split_beta)
  next
    case 2
    show ?case using Cons(2)[of "snd (process_single_batch D now b s)"] by (simp add: split_beta)
  next
    case 3
    show ?case using Cons(3)[of "snd (process_single_batch D now b s)"] by (simp add: split_beta process_single_batch_opened)
  }
qed simp_all

interpretation bounded: invariant_of "\<lambda>s. pr_batches s = []" "bp_step D" batches_bounded
proof
  fix s t :: "('a, 'b, 'c) processor" and e
  show "pr_batches s = [] \<Longrightarrow> batches_bounded s" by (simp add: batches_bounded_def)
  assume "batches_bounded s" "bp_step D s e t"
  from this(2,1) show "batches_bounded t"
  proof cases
    case (bp_flush now)
    then show ?thesis using \<open>batches_bounded s\<close>
      by (auto simp: flush_ready_batches_def flush_scan_eq batches_bounded_def run_each_keeps split_beta
          intro: batch_ok_remove_expired)
  next
    case (bp_flush_close now k)
    then show ?thesis using \<open>batches_bounded s\<close>
      by (auto simp: flush_closing_def flush_scan_eq batches_bounded_def run_each_keeps split_beta
          intro: batch_ok_remove_expired)
  next
    case (bp_accept p now)
    with \<open>batches_bounded s\<close> show ?thesis by (simp only: batches_bounded_add)
  qed (auto simp: cleanup_expired_def distribute_def batches_bounded_def intro: batch_ok_remove_expired)
qed

text \<open>
  C36: whatever the processor does in traditional mode, a batch that waits has fewer proposals
  than the maximum and fewer bytes, and the size it keeps is the sum of the sizes of its proposals.
\<close>

theorem waiting_batches_bounded:
  assumes "reachable (\<lambda>s. pr_batches s = []) (bp_step D) s" and "b \<in> set (pr_batches s)"
  shows "total_size b = sum_list (map estimated_size (ob_proposals b))
    \<and> (ob_proposals b \<noteq> [] \<longrightarrow> length (ob_proposals b) < max_batch_size (pr_config s)
        \<and> total_size b < max_batch_bytes (pr_config s))"
  using bounded.always[OF assms(1)] assms(2) unfolding batches_bounded_def batch_ok_def by blast


section \<open>No proposal is lost or sent twice\<close>

lemma mset_concat_split: "i < length xs \<Longrightarrow>
  mset (concat (map f (take i xs @ drop (Suc i) xs))) + mset (f (xs ! i)) = mset (concat (map f xs))"
proof -
  assume "i < length xs"
  then have "xs = take i xs @ xs ! i # drop (Suc i) xs" by (rule id_take_nth_drop)
  then have "mset (concat (map f xs)) = mset (concat (map f (take i xs @ xs ! i # drop (Suc i) xs)))" by (rule arg_cong)
  then show ?thesis by simp
qed

lemma mset_concat_update: "i < length xs \<Longrightarrow>
  mset (concat (map f (xs[i := x]))) = mset (concat (map f (take i xs @ drop (Suc i) xs))) + mset (f x)"
  by (simp add: upd_conv_take_nth_drop)

lemma mset_concat_filter:
  "mset (concat (map f (filter P xs))) + mset (concat (map f (filter (\<lambda>x. \<not> P x) xs))) = mset (concat (map f xs))"
  by (induction xs) (auto simp: ac_simps)

lemma mset_expired:
  "mset (concat (map ob_proposals (map (\<lambda>b. snd (remove_expired now b)) bs))) + mset (expired_in now bs)
    = mset (concat (map ob_proposals bs))"
proof (induction bs)
  case (Cons b bs)
  have "mset (filter (is_expired now) (ob_proposals b)) + mset (filter (\<lambda>p. \<not> is_expired now p) (ob_proposals b))
      = mset (ob_proposals b)" by (simp flip: multiset_partition)
  with Cons show ?case by (simp add: expired_in_def remove_expired_eq ac_simps)
qed (simp add: expired_in_def)

lemma mset_concat_image: "mset (concat (map f xs)) = sum_mset (image_mset (\<lambda>x. mset (f x)) (mset xs))"
  by (induction xs) simp_all

lemma mset_concat_scheduled:
  "schedule_ok D \<Longrightarrow> mset (concat (map f (scheduled D xs))) = mset (concat (map f xs))"
  by (simp only: mset_concat_image scheduled_mset)

lemma counted_down: "counter_ok D \<Longrightarrow> n \<le> bd_get D k \<Longrightarrow> bd_get D ((bd_decrement D ^^ n) k) = bd_get D k - n"
  by (induction n) (auto simp: counter_ok_def)

text \<open>
  Between two states, what was accepted and what waited before was sent, waits now, expired, or was
  lost, which needs a manager that is gone; and the counter is down by what was sent.
\<close>

definition moved :: "('d, 'k, 'b) batch_deps \<Rightarrow> ('d, 'k, 'b) processor \<Rightarrow> 'd EnhancedRaftProposal list
    \<Rightarrow> 'd EnhancedRaftProposal list \<Rightarrow> 'd EnhancedRaftProposal list \<Rightarrow> ('d, 'k, 'b) processor \<Rightarrow> bool" where
  "moved D s accepted expired lost t \<longleftrightarrow> (raft_open t \<longrightarrow> raft_open s \<and> lost = [])
     \<and> (\<exists>sent ps. list_all2 (sends D) sent ps \<and> raft_sent t = raft_sent s @ ps
       \<and> mset (concat sent) + mset (queued t) + mset expired + mset lost = mset (queued s) + mset accepted
       \<and> bd_get D (pr_pending t) + length (concat sent) = bd_get D (pr_pending s) + length accepted)"

lemma moved_refl: "moved D s [] [] [] s"
  unfolding moved_def by (auto intro: exI[of _ "[]"])

lemma moved_trans:
  assumes "moved D s acc ex lost t" and "moved D t acc' ex' lost' u"
  shows "moved D s (acc @ acc') (ex @ ex') (lost @ lost') u"
proof -
  from assms(1) obtain sent ps where 1: "list_all2 (sends D) sent ps" "raft_sent t = raft_sent s @ ps"
    "mset (concat sent) + mset (queued t) + mset ex + mset lost = mset (queued s) + mset acc"
    "bd_get D (pr_pending t) + length (concat sent) = bd_get D (pr_pending s) + length acc" by (auto simp: moved_def)
  from assms(2) obtain sent' ps' where 2: "list_all2 (sends D) sent' ps'" "raft_sent u = raft_sent t @ ps'"
    "mset (concat sent') + mset (queued u) + mset ex' + mset lost' = mset (queued t) + mset acc'"
    "bd_get D (pr_pending u) + length (concat sent') = bd_get D (pr_pending t) + length acc'"
    by (auto simp: moved_def)
  have "mset (concat (sent @ sent')) + mset (queued u) + mset (ex @ ex') + mset (lost @ lost')
      = mset (concat sent) + mset ex + mset lost + (mset (concat sent') + mset (queued u) + mset ex' + mset lost')" by (simp add: ac_simps)
  also have "\<dots> = mset (queued s) + mset (acc @ acc')" unfolding 2(3) using 1(3) by (simp add: ac_simps)
  finally have all: "mset (concat (sent @ sent')) + mset (queued u) + mset (ex @ ex') + mset (lost @ lost') = mset (queued s) + mset (acc @ acc')" .
  have "raft_open u \<longrightarrow> raft_open s \<and> lost @ lost' = []" using assms by (simp add: moved_def)
  then show ?thesis unfolding moved_def using all 1(1,2,4) 2(1,2,4)
    by (intro conjI exI[of _ "sent @ sent'"] exI[of _ "ps @ ps'"]) (auto intro: list_all2_appendI)
qed

lemma moved_left: "moved D s acc ex lost t \<Longrightarrow>
  bd_get D (pr_pending t) + length (queued s) = bd_get D (pr_pending s) + length (queued t) + length ex + length lost"
proof (unfold moved_def, elim conjE exE)
  fix sent ps
  assume "mset (concat sent) + mset (queued t) + mset ex + mset lost = mset (queued s) + mset acc"
    and pending: "bd_get D (pr_pending t) + length (concat sent) = bd_get D (pr_pending s) + length acc"
  then have "length (concat sent) + length (queued t) + length ex + length lost = length (queued s) + length acc"
    by (metis size_mset size_union)
  with pending show ?thesis by linarith
qed

text \<open>The part in which batches are sent, or lost.\<close>

lemma moved_batches:
  assumes "counter_ok D" and "list_all2 (sends D) bs ps" and "raft_sent t = raft_sent s @ ps" and "queued t = queued s'"
    and "pr_pending t = (bd_decrement D ^^ length (concat bs)) (pr_pending s')" and "raft_open t \<longrightarrow> raft_open s \<and> lost = []"
    and "length (concat bs) \<le> bd_get D (pr_pending s')" and "bd_get D (pr_pending s') = bd_get D (pr_pending s) + length acc"
    and "mset (concat bs) + mset (queued s') + mset ex + mset lost = mset (queued s) + mset acc"
  shows "moved D s acc ex lost t"
proof -
  have "bd_get D (pr_pending t) + length (concat bs) = bd_get D (pr_pending s) + length acc"
    using counted_down[OF assms(1,7)] assms(5,7,8) by simp
  then show ?thesis unfolding moved_def using assms(2-4,6,9) by (intro conjI exI[of _ bs] exI[of _ ps]) simp_all
qed

lemma moved_sent:
  assumes "counter_ok D" and "sent_batches D s' bs t" and "raft_sent s' = raft_sent s" and "raft_open s' = raft_open s"
    and "raft_open s \<longrightarrow> lost = []"
    and "length (concat bs) \<le> bd_get D (pr_pending s')" and "bd_get D (pr_pending s') = bd_get D (pr_pending s) + length acc"
    and "mset (concat bs) + mset (queued s') + mset ex + mset lost = mset (queued s) + mset acc"
  shows "moved D s acc ex lost t"
proof -
  from assms(2) obtain ps where ps: "list_all2 (sends D) bs ps" "raft_sent t = raft_sent s' @ ps"
    and t: "raft_open t = raft_open s'" "pr_batches t = pr_batches s'" "pr_pending t = (bd_decrement D ^^ length (concat bs)) (pr_pending s')"
    by (auto simp: sent_batches_def)
  moreover have "queued t = queued s'" using t(2) by (simp add: queued_def)
  ultimately show ?thesis using assms by (intro moved_batches[OF assms(1) ps(1)]) simp_all
qed


lemma moved_add:
  assumes ok: "counter_ok D" and enough: "length (queued s) \<le> bd_get D (pr_pending s)" and full: "\<not> backpressure_full D s"
  shows "\<exists>lost. moved D s [p] [] lost (snd (add_to_priority_batch D now p s))"
proof -
  obtain i batches where found: "find_batch now (bd_uuid D (pr_next s)) (ep_priority p) (pr_batches s) = (i, batches)"
    by fastforce
  have i: "i < length batches" and same: "concat (map ob_proposals batches) = queued s"
    using find_batch_ok[OF found] by (simp_all add: queued_def)
  let ?b = "batch_add p (batches ! i)"
  let ?rest = "take i batches @ drop (Suc i) batches"
  let ?s = "s\<lparr>pr_pending := bd_increment D (pr_pending s), pr_next := pr_next s + 1\<rparr>"
  have pending: "bd_get D (bd_increment D (pr_pending s)) = bd_get D (pr_pending s) + 1" using ok by (simp add: counter_ok_def)
  have "mset (concat (map ob_proposals ?rest)) + mset (ob_proposals (batches ! i)) = mset (queued s)"
    using mset_concat_split[OF i, of ob_proposals] same by simp
  then have split: "mset (ob_proposals ?b) + mset (concat (map ob_proposals ?rest)) = mset (queued s) + mset [p]"
    by (simp add: ac_simps)
  show ?thesis
  proof (cases "should_flush now (pr_config s) ?b")
    case True
    let ?s' = "?s\<lparr>pr_batches := ?rest\<rparr>"
    let ?t = "snd (process_single_batch D now ?b ?s')"
    have len: "length (ob_proposals ?b) + length (concat (map ob_proposals ?rest)) = length (queued s) + 1"
      using arg_cong[OF split, of size] by simp
    have "moved D s [p] [] (if raft_open s then [] else ob_proposals ?b) ?t"
    proof (cases "raft_open s")
      case alive: True
      then have "sent_batches D ?s' [ob_proposals ?b] ?t" using process_single_batch_open[of ?s' ?b D now] by simp
      from moved_sent[OF ok this, of s "[]" "[p]" "[]"] show ?thesis
        using alive enough pending len split by (simp add: queued_def)
    next
      case gone: False
      then have "sent_batches D ?s' [] ?t" by (intro process_single_batch_closed) simp
      from moved_sent[OF ok this, of s "ob_proposals ?b" "[p]" "[]"] show ?thesis
        using gone pending split by (simp add: queued_def ac_simps)
    qed
    then show ?thesis using True by (auto simp: add_effect[OF full found] Let_def)
  next
    case False
    let ?t = "?s\<lparr>pr_batches := batches[i := ?b]\<rparr>"
    from moved_sent[OF ok sent_batches_none[of D ?t], of s "[]" "[p]" "[]"] have "moved D s [p] [] [] ?t"
      using pending split mset_concat_update[OF i, of ob_proposals ?b] by (simp add: queued_def ac_simps)
    then show ?thesis using False by (auto simp: add_effect[OF full found] Let_def)
  qed
qed

text \<open>
  A flush in which the first \<open>k\<close> batches find the manager as it was, and the others find it gone if \<open>k\<close> is not all.
\<close>

lemma flush_moved:
  assumes ok: "counter_ok D" "schedule_ok D" and enough: "length (queued s) \<le> bd_get D (pr_pending s)"
    and kept: "flush_scan now (pr_config s) (pr_batches s) = (to_flush, kept, expired)"
    and all: "scheduled D to_flush = first @ rest"
    and sent: "list_all2 (sends D) (if raft_open s then map ob_proposals first else []) ps" "raft_sent t = raft_sent s @ ps"
    and t: "pr_batches t = kept"
      "pr_pending t = (bd_decrement D ^^ length (concat (if raft_open s then map ob_proposals first else []))) (pr_pending s)"
    and gone: "raft_open t \<longrightarrow> raft_open s \<and> rest = []"
  shows "\<exists>lost. moved D s [] expired lost t"
proof -
  let ?flush = "filter (should_flush now (pr_config s)) (pr_batches s)"
  let ?wait = "filter (\<lambda>b. \<not> should_flush now (pr_config s) b) (pr_batches s)"
  let ?bs = "if raft_open s then map ob_proposals first else []"
  let ?lost = "(if raft_open s then [] else concat (map ob_proposals first)) @ concat (map ob_proposals rest)"
  have parts: "to_flush = ?flush" "kept = map (\<lambda>b. snd (remove_expired now b)) ?wait" "expired = expired_in now ?wait"
    using kept by (simp_all add: flush_scan_eq)
  have same: "mset (concat (map ob_proposals first)) + mset (concat (map ob_proposals rest)) = mset (concat (map ob_proposals ?flush))"
    using mset_concat_scheduled[OF ok(2), of ob_proposals to_flush] all parts(1) by simp
  have "mset (concat (map ob_proposals kept)) + mset expired + mset (concat (map ob_proposals ?flush)) = mset (queued s)"
    using mset_expired[of now ?wait] mset_concat_filter[of ob_proposals "should_flush now (pr_config s)" "pr_batches s"] parts
    by (simp add: queued_def ac_simps)
  then have split: "mset (concat ?bs) + mset (queued t) + mset expired + mset ?lost = mset (queued s) + mset []"
    unfolding same[symmetric] using t(1) by (cases "raft_open s") (simp_all add: queued_def ac_simps)
  have "length (concat ?bs) \<le> length (queued s)" using arg_cong[OF split, of size] by simp
  with enough split sent t(2) gone have "moved D s [] expired ?lost t"
    by (intro moved_batches[OF ok(1) sent(1), where s' = "t\<lparr>pr_pending := pr_pending s\<rparr>"]) (auto simp: queued_def)
  then show ?thesis by blast
qed

lemma scheduled_nonempty: "schedule_ok D \<Longrightarrow> b \<in> set (scheduled D (filter (should_flush now config) bs)) \<Longrightarrow> ob_proposals b \<noteq> []"
  using arg_cong[OF scheduled_mset[of D "filter (should_flush now config) bs"], of set_mset] by (auto dest: should_flush_nonempty)

lemma moved_flush:
  assumes ok: "counter_ok D" "schedule_ok D" and enough: "length (queued s) \<le> bd_get D (pr_pending s)"
  shows "\<exists>lost. moved D s [] (snd (snd (flush_scan now (pr_config s) (pr_batches s)))) lost (snd (flush_ready_batches D now s))"
    and "\<exists>lost. moved D s [] (snd (snd (flush_scan now (pr_config s) (pr_batches s)))) lost (flush_closing D now k s)"
proof -
  obtain to_flush kept expired where scan: "flush_scan now (pr_config s) (pr_batches s) = (to_flush, kept, expired)"
    by (cases "flush_scan now (pr_config s) (pr_batches s)") auto
  let ?s = "s\<lparr>pr_batches := kept, pr_answers := pr_answers s @ timeout_answers now expired\<rparr>"
  have ready: "\<forall>b \<in> set (scheduled D to_flush). ob_proposals b \<noteq> []"
    using scan scheduled_nonempty[OF ok(2)] by (auto simp: flush_scan_eq)
  have one: "sent_batches D ?s (if raft_open s then map ob_proposals xs else []) (snd (run_each (process_single_batch D now) xs ?s))"
    if "set xs \<subseteq> set (scheduled D to_flush)" for xs
  proof -
    have "\<forall>b \<in> set xs. ob_proposals b \<noteq> []" using ready that by blast
    from run_each_sends[OF this, of D ?s now] show ?thesis by simp
  qed
  note flush = flush_moved[OF ok enough scan]
  let ?t = "snd (run_each (process_single_batch D now) (scheduled D to_flush) ?s)"
  have "\<exists>lost. moved D s [] expired lost ?t"
    using one[of "scheduled D to_flush"] flush[of "scheduled D to_flush" "[]" _ ?t] by (auto simp: sent_batches_def)
  then show "\<exists>lost. moved D s [] (snd (snd (flush_scan now (pr_config s) (pr_batches s)))) lost (snd (flush_ready_batches D now s))"
    by (simp add: flush_ready_batches_def scan split_beta)
  let ?first = "take k (scheduled D to_flush)" and ?rest = "drop k (scheduled D to_flush)"
  let ?s1 = "snd (run_each (process_single_batch D now) ?first ?s)"
  let ?u = "snd (run_each (process_single_batch D now) ?rest (?s1\<lparr>raft_open := False\<rparr>))"
  have "\<forall>b \<in> set ?rest. ob_proposals b \<noteq> []" using ready by (auto dest: in_set_dropD)
  from run_each_sends[OF this, of D "?s1\<lparr>raft_open := False\<rparr>" now] have "sent_batches D (?s1\<lparr>raft_open := False\<rparr>) [] ?u" by simp
  then have "\<exists>lost. moved D s [] expired lost ?u"
    using one[of ?first] flush[of ?first ?rest _ ?u] by (auto simp: sent_batches_def set_take_subset)
  then show "\<exists>lost. moved D s [] (snd (snd (flush_scan now (pr_config s) (pr_batches s)))) lost (flush_closing D now k s)"
    by (simp add: flush_closing_def scan split_beta)
qed

lemma moved_step:
  assumes "bp_step D s e t" and ok: "counter_ok D" "schedule_ok D" and enough: "length (queued s) \<le> bd_get D (pr_pending s)"
  shows "\<exists>lost. moved D s (accepted_of [e]) (expired_of [e]) lost t"
  using assms(1)
proof cases
  case (bp_accept p now)
  then show ?thesis using moved_add[OF ok(1) enough] by simp
next
  case (bp_refuse p now)
  then show ?thesis using moved_refl[of D s] by auto
next
  case (bp_flush now)
  then show ?thesis using moved_flush(1)[OF ok enough] by simp
next
  case (bp_flush_close now k)
  then show ?thesis using moved_flush(2)[OF ok enough] by simp
next
  case (bp_clean now)
  from moved_sent[OF ok(1) sent_batches_none[of D t], of s "[]" "[]" "expired_in now (pr_batches s)"]
  have "moved D s [] (expired_in now (pr_batches s)) [] t"
    using bp_clean mset_expired[of now "pr_batches s"] by (simp add: cleanup_expired_def queued_def)
  then show ?thesis using bp_clean by auto
next
  case (bp_answer batch_rx result)
  from moved_sent[OF ok(1) sent_batches_none[of D t], of s "[]" "[]" "[]"] have "moved D s [] [] [] t"
    using bp_answer by (simp add: queued_def)
  then show ?thesis using bp_answer by auto
next
  case bp_close
  then have "moved D s [] [] [] t" unfolding moved_def by (auto simp: queued_def intro: exI[of _ "[]"])
  then show ?thesis using bp_close by auto
qed

lemma events_Cons:
  "accepted_of (e # es) = accepted_of [e] @ accepted_of es" "expired_of (e # es) = expired_of [e] @ expired_of es"
  by (cases e; simp)+

lemma moved_run:
  assumes "run (bp_step D) s es t" and ok: "counter_ok D" "schedule_ok D" and "length (queued s) \<le> bd_get D (pr_pending s)"
  shows "\<exists>lost. moved D s (accepted_of es) (expired_of es) lost t"
  using assms(1,4)
proof (induction rule: run.induct)
  case (run_done s)
  then show ?case using moved_refl[of D s] by auto
next
  case (run_step s e t es u)
  obtain lost where first: "moved D s (accepted_of [e]) (expired_of [e]) lost t"
    using moved_step[OF run_step.hyps(1) ok run_step.prems] by blast
  have "length (queued t) \<le> bd_get D (pr_pending t)" using moved_left[OF first] run_step.prems by linarith
  with run_step.IH obtain lost' where "moved D t (accepted_of es) (expired_of es) lost' u" by blast
  from moved_trans[OF first this] show ?case by (metis events_Cons)
qed

lemma expired_of_append [simp]: "expired_of (es @ es') = expired_of es @ expired_of es'"
  by (induction es rule: expired_of.induct) simp_all

text \<open>The configuration stays, and the manager takes proposals until an event closes it.\<close>

lemma bp_step_config: "bp_step D s e t \<Longrightarrow> pr_config t = pr_config s \<and> raft_open t = (raft_open s \<and> \<not> closes e)"
proof (erule bp_stepE)
  fix p now
  assume t: "t = snd (add_to_priority_batch D now p s)" "e = Accepted p" and full: "\<not> backpressure_full D s"
  obtain i batches where found: "find_batch now (bd_uuid D (pr_next s)) (ep_priority p) (pr_batches s) = (i, batches)"
    by fastforce
  show ?thesis using t process_single_batch_opened[of D now] by (simp add: add_effect[OF full found] Let_def closes_def)
qed (auto simp: flush_ready_batches_def flush_closing_def run_each_keeps cleanup_expired_def split_beta closes_def)

lemma bp_run_config: "run (bp_step D) s es t \<Longrightarrow> pr_config t = pr_config s \<and> raft_open t = (raft_open s \<and> (\<forall>e \<in> set es. \<not> closes e))"
  by (induction rule: run.induct) (auto dest: bp_step_config)

text \<open>
  C21: in traditional mode, each accepted proposal was sent in exactly one batch, waits in one, has
  expired, or was lost; a batch of one is the proposal itself, a larger one carries the data of its
  proposals in order. None is lost while the manager's end of the channel is there, and no event but
  its closing takes it away. The counter of pending proposals is the number that wait plus the
  numbers that ever expired or were lost.
\<close>

theorem accepted_proposals_accounted:
  assumes "counter_ok D" and "schedule_ok D" and "bd_get D zero = 0"
    and "run (bp_step D) (processor_new config start zero breaker n) es s"
  shows "(\<exists>sent lost. list_all2 (sends D) sent (raft_sent s)
      \<and> mset (concat sent) + mset (queued s) + mset (expired_of es) + mset lost = mset (accepted_of es)
      \<and> bd_get D (pr_pending s) = length (queued s) + length (expired_of es) + length lost
      \<and> (raft_open s \<longrightarrow> lost = []))
    \<and> raft_open s = (\<forall>e \<in> set es. \<not> closes e)"
proof -
  have "length (queued (processor_new config start zero breaker n)) \<le> bd_get D (pr_pending (processor_new config start zero breaker n))"
    by (simp add: processor_new_def queued_def)
  then obtain lost where moved: "moved D (processor_new config start zero breaker n) (accepted_of es) (expired_of es) lost s"
    using moved_run[OF assms(4,1,2)] by blast
  from moved_left[OF this] assms(3)
  have "bd_get D (pr_pending s) = length (queued s) + length (expired_of es) + length lost"
    by (simp add: processor_new_def queued_def)
  moreover have "raft_open s = (\<forall>e \<in> set es. \<not> closes e)" using bp_run_config[OF assms(4)] by (simp add: processor_new_def)
  ultimately show ?thesis using moved by (auto simp: moved_def processor_new_def queued_def)
qed

lemma pending_counts:
  assumes "counter_ok D" "schedule_ok D" "bd_get D zero = 0"
    and "run (bp_step D) (processor_new config start zero breaker n) es s"
  shows "length (queued s) + length (expired_of es) \<le> bd_get D (pr_pending s) \<and> pr_config s = config"
proof -
  let ?s0 = "processor_new config start zero breaker n"
  obtain lost where "moved D ?s0 (accepted_of es) (expired_of es) lost s"
    using moved_run[OF assms(4,1,2)] by (auto simp: processor_new_def queued_def)
  from moved_left[OF this] bp_run_config[OF assms(4)] assms(3) show ?thesis by (simp add: processor_new_def queued_def)
qed

text \<open>
  An expired proposal is never taken off the counter. Once as many proposals have expired as
  may be pending, with backpressure on, no proposal is ever accepted again, although none may
  be waiting: each is refused as exceeding the limit, and no event changes that.
\<close>

theorem expired_proposals_block:
  assumes "counter_ok D" and "schedule_ok D" and "bd_get D zero = 0"
    and start: "run (bp_step D) (processor_new config start zero breaker n) es s"
    and "enable_backpressure config" and "length (expired_of es) \<ge> max_pending_proposals config"
    and later: "run (bp_step D) s es' t"
  shows "accepted_of es' = [] \<and> add_to_priority_batch D now p t =
    (Inl (ResourceExhausted (''Pending proposals queue (limit: '' @ show_nat (max_pending_proposals config) @ '')'') ''''), t)"
proof -
  have full: "backpressure_full D u"
    if "run (bp_step D) (processor_new config start zero breaker n) (es @ es1) u" for es1 u
    using pending_counts[OF assms(1-3) that] assms(5,6) by (auto simp: backpressure_full_def)
  have "accepted_of es2 = []" if "run (bp_step D) u es2 t" "run (bp_step D) (processor_new config start zero breaker n) (es @ es1) u"
    for es1 es2 u using that
  proof (induction es2 arbitrary: es1 u)
    case (Cons e es2)
    then obtain v where v: "bp_step D u e v" "run (bp_step D) v es2 t" by (auto simp: run_Cons)
    have "accepted_of es2 = []" using Cons.IH[of v "es1 @ [e]"] v(2) run_snoc[OF Cons.prems(2) v(1)] by simp
    with v(1) full[OF Cons.prems(2)] show ?case by cases auto
  qed simp
  from this[OF later, of "[]"] start have none: "accepted_of es' = []" by simp
  have "run (bp_step D) (processor_new config start zero breaker n) (es @ es') t" by (rule run_append[OF start later])
  with full pending_counts[OF assms(1-3)] none show ?thesis by (simp add: add_to_priority_batch_def)
qed


section \<open>Streaming a group\<close>

text \<open>A circuit that is closed, in the sense of \<open>B\<close>, lets calls through and stays closed while they succeed.\<close>

definition closed_breaker :: "('d, 'k, 'b) batch_deps \<Rightarrow> ('b \<Rightarrow> bool) \<Rightarrow> bool" where
  "closed_breaker D B \<longleftrightarrow> (\<forall>now b. B b \<longrightarrow> fst (br_admits D now b) \<and> B (br_finished D now True (snd (br_admits D now b))))"

lemma group_batch_proposals [simp]: "ob_proposals (group_batch now uuid priority ps) = ps"
proof -
  have "ob_proposals (fold batch_add ps b) = ob_proposals b @ ps" for b :: "'a OptimizedProposalBatch"
    by (induction ps arbitrary: b) simp_all
  then show ?thesis by (simp add: group_batch_def batch_new_def)
qed



lemma group_loop_zero:
  assumes ret: "group_loop D now n priority ps s = Some r"
  shows "n = 0 \<longrightarrow> closed_breaker D B \<longrightarrow> B (pr_breaker s) \<longrightarrow> ps = []"
proof (rule group_loop.raw_induct[where P = "\<lambda>D now n priority ps s r. n = 0 \<longrightarrow> closed_breaker D B
    \<longrightarrow> B (pr_breaker s) \<longrightarrow> ps = []", OF _ ret])
  fix f and D :: "('a, 'b, 'c) batch_deps" and now n priority ps s r
  assume IH: "\<And>D now n priority ps s r. f D now n priority ps s = Some r \<Longrightarrow>
      n = 0 \<longrightarrow> closed_breaker D B \<longrightarrow> B (pr_breaker s) \<longrightarrow> ps = []"
    and eq: "(if ps = [] then Some (Inr (), s)
     else case breaker_call D now (process_single_batch D now (group_batch now (bd_uuid D (pr_next s)) priority (take n ps))) s of
       (Inl CircuitOpen, s') \<Rightarrow> Some (Inl (Internal ''Circuit breaker open''), s')
     | (Inl (OperationFailed e), s') \<Rightarrow> Some (Inl e, s')
     | (Inr _, s') \<Rightarrow> f D now n priority (drop n ps) s') = Some r"
  show "n = 0 \<longrightarrow> closed_breaker D B \<longrightarrow> B (pr_breaker s) \<longrightarrow> ps = []"
  proof (intro impI)
    assume zero: "n = 0" and B: "closed_breaker D B" "B (pr_breaker s)"
    let ?t = "s\<lparr>pr_breaker := br_finished D now True (snd (br_admits D now (pr_breaker s)))\<rparr>"
    have call: "breaker_call D now (process_single_batch D now (group_batch now (bd_uuid D (pr_next s)) priority (take n ps))) s = (Inr (), ?t)"
      using B zero by (simp add: breaker_call_def closed_breaker_def split_beta)
    have "B (pr_breaker ?t)" using B by (simp add: closed_breaker_def)
    with IH[of D now n priority ps ?t r] eq call zero B(1) show "ps = []" by (auto split: if_splits)
  qed
qed


lemma clamp_bounds: "clamp lo hi n = Some m \<Longrightarrow> lo \<le> m \<and> m \<le> hi"
  by (auto simp: clamp_def split: if_splits)

text \<open>The adapted size keeps to the configured bounds once there are five samples, and not before.\<close>

lemma optimal_batch_size_bounds:
  assumes "get_optimal_batch_size config m = Some n"
  shows "if length (throughput_samples m) < 5 then n = max_batch_size config div 2
    else min_batch_size config \<le> n \<and> n \<le> max_batch_size config"
  using assms clamp_bounds unfolding get_optimal_batch_size_def by (auto split: if_splits)

lemma group_hangs:
  assumes "closed_breaker D B" and "B (pr_breaker s)" and "ps \<noteq> []"
  shows "group_loop D now 0 priority ps s = None"
  using group_loop_zero[of D now 0 priority ps s _ B] assms by (cases "group_loop D now 0 priority ps s") blast+


text \<open>A chunk of proposals then hangs the whole processor.\<close>

lemma streaming_hangs:
  assumes "closed_breaker D B" and "B (pr_breaker s)" and "schedule_ok D" and "ps \<noteq> []"
    and "enable_adaptive_batching (pr_config s)" and "max_batch_size (pr_config s) \<le> 1"
    and "length (throughput_samples (pr_metrics s)) < 5"
  shows "process_proposal_chunk D now ps s = None"
proof -
  obtain p where "p \<in> set ps" using assms(4) by (cases ps) auto
  then have "(ep_priority p, filter (\<lambda>q. ep_priority q = ep_priority p) ps) \<in> set (priority_groups ps)"
    unfolding priority_groups_def set_filter mem_Collect_eq prod.case
    by (cases "ep_priority p") (auto simp: filter_empty_conv)
  then have "scheduled D (priority_groups ps) \<noteq> []" using scheduled_mset[OF assms(3), of "priority_groups ps"] by auto
  then obtain priority group groups where sched: "scheduled D (priority_groups ps) = (priority, group) # groups"
    by (cases "scheduled D (priority_groups ps)") auto
  then have "(priority, group) \<in> set (priority_groups ps)"
    using arg_cong[OF scheduled_mset[OF assms(3), of "priority_groups ps"], of set_mset] by auto
  then have "group \<noteq> []" unfolding priority_groups_def by (simp only: set_filter mem_Collect_eq prod.case) blast
  have "get_optimal_batch_size (pr_config s) (pr_metrics s) = Some 0"
    using assms(6,7) by (simp add: get_optimal_batch_size_def)
  with group_hangs[OF assms(1,2) \<open>group \<noteq> []\<close>] assms(4,5) sched show ?thesis
    by (simp add: process_proposal_chunk_def process_priority_group_def)
qed

text \<open>
  A batch is created with the normal priority, which a low one does not change: each low proposal that
  finds no batch of low priority gets a batch of its own, and leaves it a normal one.
\<close>

lemma low_priority_not_batched:
  assumes "\<not> backpressure_full D s" and "ep_priority p = Low" and "\<forall>b \<in> set (pr_batches s). ob_priority b \<noteq> Low"
    and "\<not> should_flush now (pr_config s) (batch_add p (batch_new now (bd_uuid D (pr_next s))))"
  shows "pr_batches (snd (add_to_priority_batch D now p s)) = pr_batches s @ [batch_add p (batch_new now (bd_uuid D (pr_next s)))]
    \<and> (\<forall>b \<in> set (pr_batches (snd (add_to_priority_batch D now p s))). ob_priority b \<noteq> Low)"
proof -
  have "find_batch now (bd_uuid D (pr_next s)) (ep_priority p) (pr_batches s)
      = (length (pr_batches s), pr_batches s @ [batch_new now (bd_uuid D (pr_next s))])"
    by (rule find_batch_cases[of now "bd_uuid D (pr_next s)" "ep_priority p" "pr_batches s"]) (use assms(2,3) in auto)
  from add_effect[OF assms(1) this] assms(2-4) show ?thesis
    by (auto simp: Let_def batch_add_def batch_new_def less_ProposalPriority_def priority_rank_def)
qed


section \<open>Examples\<close>

text \<open>Proposals are lists of numbers, a batch their concatenation; a unit breaker is always closed.\<close>

definition sample_batch_deps :: "(nat list, nat, unit) batch_deps" where
  "sample_batch_deps = \<lparr>bd_serialized_size = (\<lambda>d. Inr (length d)), bd_batch = concat, bd_get = id, bd_increment = Suc,
     bd_decrement = (\<lambda>n. n - 1), br_admits = (\<lambda>_ b. (True, b)), br_finished = (\<lambda>_ _ b. b), bd_elapsed = (\<lambda>_. 1000),
     bd_uuid = (\<lambda>n. [of_nat n]), bd_schedule = (\<lambda>n. [0..<n]), bd_show_error = (\<lambda>_. ''error'')\<rparr>"

lemma sample_batch_deps_ok:
  "counter_ok sample_batch_deps" "schedule_ok sample_batch_deps" "closed_breaker sample_batch_deps (\<lambda>_. True)"
  "bd_get sample_batch_deps 0 = 0"
  by (simp_all add: counter_ok_def schedule_ok_def closed_breaker_def sample_batch_deps_def)

definition sample_proposal :: "nat \<Rightarrow> duration option \<Rightarrow> nat list EnhancedRaftProposal" where
  "sample_proposal k lifetime = \<lparr>ep_inner = \<lparr>pp_id = [], pp_data = [k], pp_response_tx = Some k\<rparr>, ep_priority = Normal,
     submitted_at = 0, estimated_size = 65, ep_timeout = lifetime\<rparr>"

abbreviation sample_processor :: "OptimizedBatchConfig \<Rightarrow> (nat list, nat, unit) processor" where
  "sample_processor config \<equiv> processor_new config 0 0 () 10"

text \<open>Batches of two, and at most one pending proposal.\<close>

definition pair_config :: OptimizedBatchConfig where
  "pair_config = default_batch_config\<lparr>max_batch_size := 2\<rparr>"

definition single_config :: OptimizedBatchConfig where
  "single_config = default_batch_config\<lparr>max_pending_proposals := 1\<rparr>"

lemmas batch_eval = sample_batch_deps_def sample_proposal_def pair_config_def single_config_def default_batch_config_def
  processor_new_def metrics_new_def add_to_priority_batch_def backpressure_full_def find_batch_def batch_new_def batch_add_def
  should_flush_def batch_timeout_def from_millis_def process_single_batch_def create_batched_proposal_def raft_send_def
  act_then_apply map_filter_simps duration_since_def record_batch_def MAX_SAMPLES_def

definition one_waits :: "(nat list, nat, unit) processor" where
  "one_waits = snd (add_to_priority_batch sample_batch_deps 0 (sample_proposal 1 None) (sample_processor pair_config))"

definition two_sent :: "(nat list, nat, unit) processor" where
  "two_sent = snd (add_to_priority_batch sample_batch_deps 0 (sample_proposal 2 None) one_waits)"

lemma one_waits: "pr_batches one_waits = [batch_add (sample_proposal 1 None) (batch_new 0 [10])]"
    "\<not> backpressure_full sample_batch_deps (sample_processor pair_config)" "\<not> backpressure_full sample_batch_deps one_waits"
  by (simp_all add: one_waits_def batch_eval Let_def)

lemma two_sent: "pr_batches two_sent = []" "map pp_data (raft_sent two_sent) = [[1, 2]]"
  by (simp_all add: two_sent_def one_waits_def batch_eval Let_def)

lemma two_accepted:
  "run (bp_step sample_batch_deps) (sample_processor pair_config) [Accepted (sample_proposal 1 None), Accepted (sample_proposal 2 None)] two_sent"
  using bp_accept[OF one_waits(2), where p = "sample_proposal 1 None" and now = 0] bp_accept[OF one_waits(3), where p = "sample_proposal 2 None" and now = 0]
  by (auto simp: run_Cons one_waits_def two_sent_def)

theorem waiting_batches_bounded_witness:
  "\<exists>b. b \<in> set (pr_batches one_waits) \<and> ob_proposals b \<noteq> [] \<and> length (ob_proposals b) < 2 \<and> total_size b = 65"
proof -
  have "reachable (\<lambda>s. pr_batches s = []) (bp_step sample_batch_deps) (sample_processor pair_config)"
    by (rule reachable_init) (simp add: processor_new_def)
  from reachable_step[OF this bp_accept[OF one_waits(2), where p = "sample_proposal 1 None" and now = 0]]
  have reach: "reachable (\<lambda>s. pr_batches s = []) (bp_step sample_batch_deps) one_waits" by (simp add: one_waits_def)
  have config: "max_batch_size (pr_config one_waits) = 2" by (simp add: one_waits_def batch_eval Let_def)
  let ?b = "batch_add (sample_proposal 1 None) (batch_new 0 [10])"
  have "?b \<in> set (pr_batches one_waits)" by (simp add: one_waits(1))
  from waiting_batches_bounded [OF reach this] this config show ?thesis
    by (intro exI[of _ ?b]) (simp add: batch_new_def sample_proposal_def)
qed

text \<open>The manager is there for the first two proposals, and gone for the next two.\<close>

definition manager_gone :: "(nat list, nat, unit) processor" where
  "manager_gone = two_sent\<lparr>raft_open := False\<rparr>"

definition three_waits :: "(nat list, nat, unit) processor" where
  "three_waits = snd (add_to_priority_batch sample_batch_deps 0 (sample_proposal 3 None) manager_gone)"

definition four_lost :: "(nat list, nat, unit) processor" where
  "four_lost = snd (add_to_priority_batch sample_batch_deps 0 (sample_proposal 4 None) three_waits)"

lemma four_lost: "pr_batches four_lost = []" "pr_pending four_lost = 2" "length (raft_sent four_lost) = 1"
    "\<not> backpressure_full sample_batch_deps manager_gone" "\<not> backpressure_full sample_batch_deps three_waits"
  by (simp_all add: four_lost_def three_waits_def manager_gone_def two_sent_def one_waits_def batch_eval distribute_def Let_def)

lemma four_accepted:
  "run (bp_step sample_batch_deps) (sample_processor pair_config) [Accepted (sample_proposal 1 None), Accepted (sample_proposal 2 None),
     ManagerClosed, Accepted (sample_proposal 3 None), Accepted (sample_proposal 4 None)] four_lost"
proof -
  have "run (bp_step sample_batch_deps) two_sent [ManagerClosed, Accepted (sample_proposal 3 None), Accepted (sample_proposal 4 None)] four_lost"
    using bp_close[of sample_batch_deps two_sent] bp_accept[OF four_lost(4), where p = "sample_proposal 3 None" and now = 0]
      bp_accept[OF four_lost(5), where p = "sample_proposal 4 None" and now = 0]
    by (auto simp: run_Cons manager_gone_def three_waits_def four_lost_def)
  from run_append[OF two_accepted this] show ?thesis by simp
qed

theorem accepted_proposals_accounted_witness:
  "pr_pending two_sent = 0 \<and> (\<exists>sent. list_all2 (sends sample_batch_deps) sent (raft_sent two_sent)
      \<and> mset (concat sent) = mset [sample_proposal 1 None, sample_proposal 2 None])
    \<and> (\<exists>sent lost. length lost = 2 \<and> mset (concat sent) + mset lost = mset (map (\<lambda>k. sample_proposal k None) [1, 2, 3, 4])
      \<and> list_all2 (sends sample_batch_deps) sent (raft_sent four_lost))"
proof -
  note accounted = accepted_proposals_accounted [OF sample_batch_deps_ok(1,2,4)]
  have "raft_open two_sent" using accounted[OF two_accepted] by (simp add: closes_def)
  with accounted[OF two_accepted] accounted[OF four_accepted] two_sent(1) four_lost(1,2) show ?thesis
    by (fastforce simp: queued_def sample_batch_deps_def)
qed

definition one_expired :: "(nat list, nat, unit) processor" where
  "one_expired = cleanup_expired 5000000 (snd (add_to_priority_batch sample_batch_deps 0 (sample_proposal 1 (Some 3)) (sample_processor single_config)))"

lemma one_expired_run:
  "run (bp_step sample_batch_deps) (sample_processor single_config)
     [Accepted (sample_proposal 1 (Some 3)), CleanedUp [sample_proposal 1 (Some 3)]] one_expired"
proof -
  let ?s = "snd (add_to_priority_batch sample_batch_deps 0 (sample_proposal 1 (Some 3)) (sample_processor single_config))"
  have "\<not> backpressure_full sample_batch_deps (sample_processor single_config)" by (simp add: batch_eval)
  from bp_accept[OF this, where p = "sample_proposal 1 (Some 3)" and now = 0] bp_clean[of sample_batch_deps ?s 5000000]
  show ?thesis
    by (auto simp: run_Cons one_expired_def batch_eval Let_def expired_in_def remove_expired_eq is_expired_def)
qed

theorem expired_proposals_block_witness:
  "queued one_expired = [] \<and> add_to_priority_batch sample_batch_deps 6000000 (sample_proposal 2 None) one_expired
    = (Inl (ResourceExhausted (''Pending proposals queue (limit: '' @ show_nat 1 @ '')'') ''''), one_expired)"
proof -
  have "queued one_expired = []"
    by (simp add: one_expired_def queued_def batch_eval Let_def cleanup_expired_def remove_expired_eq is_expired_def)
  moreover have "run (bp_step sample_batch_deps) one_expired [] one_expired" by simp
  moreover have "enable_backpressure single_config" "max_pending_proposals single_config \<le> 1"
    by (simp_all add: single_config_def default_batch_config_def)
  ultimately show ?thesis
    using expired_proposals_block [OF sample_batch_deps_ok(1,2,4) one_expired_run, of "[]" one_expired 6000000 "sample_proposal 2 None"]
    by (simp add: single_config_def default_batch_config_def)
qed


end
