(* ===== verification/Transport.thy ===== *)
theory Transport
  imports Protocol Steps
begin

text \<open>
  \<open>src/src/transport/iroh.rs\<close>, the transport that takes messages of the manager to its peers, with
  the table of peers of \<open>src/src/transport/shared.rs\<close>. Endpoint, connections and streams of iroh are
  parameters that act on a network, of type \<open>'n\<close>; node ids, addresses and relay URLs are their text, and
  the iteration order of a map is an argument. Metrics exported to OpenTelemetry are left out, and
  so is the answer of the peer, which the code reads and drops.
\<close>

section \<open>The table of peers\<close>

record PeerInfo =
  pi_node_id :: u64
  pi_public_key :: string
  pi_address :: "string option"
  pi_p2p_node_id :: "string option"
  pi_p2p_addresses :: "string list"
  pi_p2p_relay_url :: "string option"

record NodeEntry =
  cluster_node_id :: u64
  iroh_node_id :: string

record SharedNodeState =
  sn_node_id :: u64
  sn_is_running :: bool
  sn_peers :: "u64 \<rightharpoonup> PeerInfo"
  sn_raft_rx :: "(u64 \<times> Message) list"
  sn_raft_rx_open :: bool

definition shared_new :: "u64 \<Rightarrow> SharedNodeState" where
  "shared_new i = \<lparr>sn_node_id = i, sn_is_running = True, sn_peers = Map.empty, sn_raft_rx = [], sn_raft_rx_open = True\<rparr>"

text \<open>\<open>send_raft_message\<close>: whether the manager still receives.\<close>

definition shared_send_raft_message :: "u64 \<Rightarrow> Message \<Rightarrow> SharedNodeState \<Rightarrow> bool \<times> SharedNodeState" where
  "shared_send_raft_message sender msg sn = (if sn_raft_rx_open sn
     then (True, sn\<lparr>sn_raft_rx := sn_raft_rx sn @ [(sender, msg)]\<rparr>) else (False, sn))"

definition get_peer :: "u64 \<Rightarrow> SharedNodeState \<Rightarrow> PeerInfo option" where
  "get_peer i sn = sn_peers sn i"

definition add_peer :: "PeerInfo \<Rightarrow> SharedNodeState \<Rightarrow> SharedNodeState" where
  "add_peer p sn = sn\<lparr>sn_peers := (sn_peers sn)(pi_node_id p \<mapsto> p)\<rparr>"

definition remove_peer :: "u64 \<Rightarrow> SharedNodeState \<Rightarrow> PeerInfo option \<times> SharedNodeState" where
  "remove_peer i sn = (sn_peers sn i, sn\<lparr>sn_peers := (sn_peers sn)(i := None)\<rparr>)"

definition list_nodes :: "u64 list \<Rightarrow> SharedNodeState \<Rightarrow> NodeEntry list" where
  "list_nodes order sn = List.map_filter (\<lambda>i. map_option (\<lambda>p. \<lparr>cluster_node_id = i,
     iroh_node_id = (case pi_p2p_node_id p of Some n \<Rightarrow> n | None \<Rightarrow> show_nat (unat i))\<rparr>) (sn_peers sn i)) order"

definition register_node :: "u64 \<Rightarrow> string \<Rightarrow> SharedNodeState \<Rightarrow> SharedNodeState" where
  "register_node i iroh sn = (case sn_peers sn i of None \<Rightarrow> sn
     | Some p \<Rightarrow> sn\<lparr>sn_peers := (sn_peers sn)(i \<mapsto> p\<lparr>pi_p2p_node_id := Some iroh\<rparr>)\<rparr>)"

record NodeAddr =
  addr_node :: string
  addr_direct :: "string list"
  addr_relay :: "string option"

definition get_node_addr :: "u64 \<Rightarrow> SharedNodeState \<Rightarrow> NodeAddr option" where
  "get_node_addr i sn = None"

section \<open>Messages by priority\<close>

datatype RaftMessagePriority = Election | Heartbeats | LogAppend | Snapshots

definition from_raft_message :: "Message \<Rightarrow> RaftMessagePriority" where
  "from_raft_message msg = (case msg_type msg of
     MsgRequestVote \<Rightarrow> Election | MsgRequestVoteResponse \<Rightarrow> Election
   | MsgHeartbeat \<Rightarrow> Heartbeats | MsgHeartbeatResponse \<Rightarrow> Heartbeats
   | MsgSnapshot \<Rightarrow> Snapshots
   | _ \<Rightarrow> LogAppend)"

definition as_u8 :: "RaftMessagePriority \<Rightarrow> nat" where
  "as_u8 p = (case p of Election \<Rightarrow> 0 | Heartbeats \<Rightarrow> 1 | LogAppend \<Rightarrow> 2 | Snapshots \<Rightarrow> 3)"

record BufferedRaftMessage =
  bm_message :: Message
  bm_priority :: RaftMessagePriority
  bm_timestamp :: instant

record 'c PeerConnection =
  pc_node_id :: u64
  pc_iroh_node_id :: string
  pc_connection :: 'c
  last_activity :: instant

text \<open>
  What the transport calls. \<open>t_connect\<close> gives \<open>None\<close> when the time limit of the caller elapses first; a
  stream is written through \<open>t_writer\<close>, and what was written goes out with \<open>t_finish\<close>.
\<close>

record ('c, 'n, 'w) transport_deps =
  t_header :: "MessageHeader bincode"
  t_request :: "RpcRequest bincode"
  t_message :: "Message prost"
  t_writer :: "'w byte_writer"
  t_connect :: "NodeAddr \<Rightarrow> 'n \<Rightarrow> (error_text + 'c) option \<times> 'n"
  t_open_bi :: "'c \<Rightarrow> 'n \<Rightarrow> (error_text + 'w) \<times> 'n"
  t_finish :: "'c \<Rightarrow> 'w \<Rightarrow> 'n \<Rightarrow> (error_text + unit) \<times> 'n"
  t_close :: "'c \<Rightarrow> 'n \<Rightarrow> 'n"
  t_request_id :: "'n \<Rightarrow> bytes"
  t_node_id :: "string \<Rightarrow> error_text + string"
  t_socket_addr :: "string \<Rightarrow> error_text + string"
  t_relay_url :: "string \<Rightarrow> error_text + string"
  t_show_type :: "RaftMsgType \<Rightarrow> string"

record ('c, 'n) IrohRaftTransport =
  tr_node :: SharedNodeState
  tr_connections :: "u64 \<rightharpoonup> 'c PeerConnection"
  message_buffer :: "u64 \<rightharpoonup> BufferedRaftMessage list"
  shutting_down :: bool
  messages_sent :: "string \<rightharpoonup> u64"
  tr_net :: 'n

definition transport_new :: "SharedNodeState \<Rightarrow> 'n \<Rightarrow> ('c, 'n) IrohRaftTransport" where
  "transport_new node net = \<lparr>tr_node = node, tr_connections = Map.empty, message_buffer = Map.empty,
     shutting_down = False, messages_sent = Map.empty, tr_net = net\<rparr>"

definition on_net :: "('n, 'a) action \<Rightarrow> (('c, 'n) IrohRaftTransport, 'a) action" where
  "on_net f = (\<lambda>t. case f (tr_net t) of (r, n) \<Rightarrow> (r, t\<lparr>tr_net := n\<rparr>))"

text \<open>\<open>*sent.entry(key).or_insert(0) += 1\<close>.\<close>

definition count_sent :: "string \<Rightarrow> ('c, 'n) IrohRaftTransport \<Rightarrow> ('c, 'n) IrohRaftTransport" where
  "count_sent key t = t\<lparr>messages_sent := (messages_sent t)(key \<mapsto>
     (case messages_sent t key of Some n \<Rightarrow> n | None \<Rightarrow> 0) + 1)\<rparr>"

section \<open>Sending\<close>

definition serialize_message :: "Message prost \<Rightarrow> Message \<Rightarrow> RaftError + bytes" where
  "serialize_message P msg = Inr (encode_to_vec P msg)"

text \<open>One request on a stream of its own.\<close>

definition write_request :: "('c, 'n, 'w) transport_deps \<Rightarrow> 'c \<Rightarrow> bytes \<Rightarrow> bytes \<Rightarrow> 'w \<Rightarrow> ('n, unit) action" where
  "write_request D c request_id request_bytes w =
    (case write_message (t_writer D) (t_header D) Request (Some request_id) request_bytes w of
       (Inl e, _) \<Rightarrow> act_fail e
     | (Inr _, w') \<Rightarrow> stream_try ''Failed to finish send stream: '' (t_finish D c w'))"

definition send_single_message :: "('c, 'n, 'w) transport_deps \<Rightarrow> 'c \<Rightarrow> Message \<Rightarrow> ('n, unit) action" where
  "send_single_message D c msg = (case serialize_message (t_message D) msg of
     Inl e \<Rightarrow> act_fail e
   | Inr msg_data \<Rightarrow> act_with (t_request_id D) (\<lambda>request_id.
       case serialize_payload (t_request D) \<lparr>rpc_service = ''raft'', rpc_method = ''raft.message'', rpc_payload = msg_data\<rparr> of
         Inl e \<Rightarrow> act_fail e
       | Inr request_bytes \<Rightarrow>
           act_then (stream_try ''Failed to open bi stream: '' (t_open_bi D c)) (write_request D c request_id request_bytes)))"

definition peer_node_addr :: "('c, 'n, 'w) transport_deps \<Rightarrow> u64 \<Rightarrow> PeerInfo \<Rightarrow> RaftError + NodeAddr" where
  "peer_node_addr D peer_id peer_info = (case pi_p2p_node_id peer_info of
     None \<Rightarrow> Inl (ClusterError (''Peer '' @ show_nat (unat peer_id) @ '' has no P2P node ID''))
   | Some p2p \<Rightarrow> and_then (map_err (\<lambda>e. Internal (''Invalid Iroh node ID: '' @ e)) (t_node_id D p2p)) (\<lambda>node.
       Inr \<lparr>addr_node = node,
         addr_direct = List.map_filter (\<lambda>a. case t_socket_addr D a of Inr x \<Rightarrow> Some x | Inl _ \<Rightarrow> None) (pi_p2p_addresses peer_info),
         addr_relay = (case pi_p2p_relay_url peer_info of None \<Rightarrow> None
           | Some relay \<Rightarrow> (case t_relay_url D relay of Inr url \<Rightarrow> Some url | Inl _ \<Rightarrow> None))\<rparr>))"

definition resolve_peer :: "('c, 'n, 'w) transport_deps \<Rightarrow> u64 \<Rightarrow> SharedNodeState \<Rightarrow> RaftError + NodeAddr" where
  "resolve_peer D peer_id node = (case get_peer peer_id node of
     None \<Rightarrow> Inl (ClusterError (''Unknown peer '' @ show_nat (unat peer_id)))
   | Some peer_info \<Rightarrow> (case get_node_addr peer_id node of
       Some a \<Rightarrow> Inr a
     | None \<Rightarrow> peer_node_addr D peer_id peer_info))"

definition get_or_create_connection :: "('c, 'n, 'w) transport_deps \<Rightarrow> instant \<Rightarrow> u64
    \<Rightarrow> (('c, 'n) IrohRaftTransport, 'c PeerConnection) action" where
  "get_or_create_connection D now peer_id = act_with id (\<lambda>t.
    let connect = (case resolve_peer D peer_id (tr_node t) of
        Inl e \<Rightarrow> act_fail e
      | Inr node_addr \<Rightarrow> act_then (on_net (\<lambda>n. case t_connect D node_addr n of (r, n') \<Rightarrow>
            (case r of None \<Rightarrow> Inl (Timeout (''connect to peer '' @ show_nat (unat peer_id)) (from_secs 10))
             | Some (Inl e) \<Rightarrow> Inl (Internal (''Connection error to peer '' @ show_nat (unat peer_id) @ '': '' @ e))
             | Some (Inr c) \<Rightarrow> Inr c, n'))) (\<lambda>c.
          let peer_conn = \<lparr>pc_node_id = peer_id, pc_iroh_node_id = addr_node node_addr, pc_connection = c, last_activity = now\<rparr>
          in act_then (act_update (\<lambda>t. t\<lparr>tr_connections := (tr_connections t)(peer_id \<mapsto> peer_conn)\<rparr>)) (\<lambda>_.
             act_return peer_conn)))
    in case tr_connections t peer_id of
         Some conn \<Rightarrow> if duration_since now (last_activity conn) < from_secs 300 then act_return conn else connect
       | None \<Rightarrow> connect)"

definition try_send_immediate :: "('c, 'n, 'w) transport_deps \<Rightarrow> instant \<Rightarrow> u64 \<Rightarrow> Message
    \<Rightarrow> (('c, 'n) IrohRaftTransport, unit) action" where
  "try_send_immediate D now peer_id msg = act_then (get_or_create_connection D now peer_id) (\<lambda>conn.
     act_then (on_net (send_single_message D (pc_connection conn) msg)) (\<lambda>_.
       act_update (count_sent (''Raft_'' @ t_show_type D (msg_type msg)))))"

text \<open>The place of a message in the buffer: before the first one of lower urgency.\<close>

fun insert_position :: "RaftMessagePriority \<Rightarrow> BufferedRaftMessage list \<Rightarrow> nat" where
  "insert_position p [] = 0"
| "insert_position p (b # bs) = (if as_u8 (bm_priority b) > as_u8 p then 0 else Suc (insert_position p bs))"

definition MAX_BUFFERED :: nat where "MAX_BUFFERED = 1000"

definition insert_buffered :: "BufferedRaftMessage \<Rightarrow> BufferedRaftMessage list \<Rightarrow> BufferedRaftMessage list" where
  "insert_buffered b queue = (let i = insert_position (bm_priority b) queue
     in take MAX_BUFFERED (take i queue @ b # drop i queue))"

definition buffer_message :: "instant \<Rightarrow> u64 \<Rightarrow> Message \<Rightarrow> RaftMessagePriority \<Rightarrow> (('c, 'n) IrohRaftTransport, unit) action" where
  "buffer_message now peer_id msg p = act_update (\<lambda>t. t\<lparr>message_buffer := (message_buffer t)(peer_id \<mapsto>
     insert_buffered \<lparr>bm_message = msg, bm_priority = p, bm_timestamp = now\<rparr>
       (case message_buffer t peer_id of Some queue \<Rightarrow> queue | None \<Rightarrow> []))\<rparr>)"

definition send_message :: "('c, 'n, 'w) transport_deps \<Rightarrow> instant \<Rightarrow> u64 \<Rightarrow> Message \<Rightarrow> (('c, 'n) IrohRaftTransport, unit) action" where
  "send_message D now peer_id msg = act_with shutting_down (\<lambda>stop.
    if stop then act_fail (Internal ''Transport is shutting down'')
    else if from_raft_message msg \<in> {Election, Heartbeats, LogAppend}
      then (\<lambda>t. case try_send_immediate D now peer_id msg t of
          (Inr _, t') \<Rightarrow> (Inr (), t')
        | (Inl _, t') \<Rightarrow> buffer_message now peer_id msg (from_raft_message msg) t')
    else buffer_message now peer_id msg (from_raft_message msg))"

section \<open>Background tasks\<close>

text \<open>The connection of a batch; \<open>None\<close> is \<open>continue\<close>. A connection made here is not kept.\<close>

definition batch_connection :: "('c, 'n, 'w) transport_deps \<Rightarrow> u64 \<Rightarrow> ('c, 'n) IrohRaftTransport \<Rightarrow> 'c option \<times> ('c, 'n) IrohRaftTransport" where
  "batch_connection D peer_id t = (case tr_connections t peer_id of
     Some conn \<Rightarrow> (Some (pc_connection conn), t)
   | None \<Rightarrow> (case get_peer peer_id (tr_node t) of None \<Rightarrow> (None, t)
     | Some peer_info \<Rightarrow> (case pi_p2p_node_id peer_info of None \<Rightarrow> (None, t)
       | Some p2p \<Rightarrow> (case t_node_id D p2p of Inl _ \<Rightarrow> (None, t)
         | Inr node \<Rightarrow> (case t_connect D \<lparr>addr_node = node, addr_direct = [], addr_relay = None\<rparr> (tr_net t) of (r, n) \<Rightarrow>
             (case r of Some (Inr c) \<Rightarrow> Some c | _ \<Rightarrow> None, t\<lparr>tr_net := n\<rparr>))))))"

definition stale :: "instant \<Rightarrow> BufferedRaftMessage \<Rightarrow> bool" where
  "stale now b \<longleftrightarrow> duration_since now (bm_timestamp b) > from_secs 30"

text \<open>The loop over a queue; the clock is read anew for each message taken from it, \<open>now k\<close> for the one at \<open>k\<close>.\<close>

fun drain_queue :: "('c, 'n, 'w) transport_deps \<Rightarrow> (nat \<Rightarrow> instant) \<Rightarrow> 'c \<Rightarrow> nat \<Rightarrow> BufferedRaftMessage list
    \<Rightarrow> ('c, 'n) IrohRaftTransport \<Rightarrow> BufferedRaftMessage list \<times> ('c, 'n) IrohRaftTransport" where
  "drain_queue D now c sent_count [] t = ([], t)"
| "drain_queue D now c sent_count (b # messages) t =
    (if stale (now 0) b then drain_queue D (\<lambda>j. now (Suc j)) c sent_count messages t
     else case on_net (send_single_message D c (bm_message b)) t of
       (Inl _, t') \<Rightarrow> (b # messages, t')
     | (Inr _, t') \<Rightarrow> (let t'' = count_sent (t_show_type D (msg_type (bm_message b))) t' in
         if sent_count + 1 \<ge> 100 then (messages, t'')
         else drain_queue D (\<lambda>j. now (Suc j)) c (sent_count + 1) messages t''))"

definition process_peer :: "('c, 'n, 'w) transport_deps \<Rightarrow> (nat \<Rightarrow> instant) \<Rightarrow> u64 \<Rightarrow> ('c, 'n) IrohRaftTransport \<Rightarrow> ('c, 'n) IrohRaftTransport" where
  "process_peer D now peer_id t = (case message_buffer t peer_id of
     None \<Rightarrow> t
   | Some [] \<Rightarrow> t
   | Some messages \<Rightarrow> (case batch_connection D peer_id t of
       (None, t') \<Rightarrow> t'
     | (Some c, t') \<Rightarrow> (case drain_queue D now c 0 messages t' of (rest, t'') \<Rightarrow>
         t''\<lparr>message_buffer := (message_buffer t'')(peer_id \<mapsto> rest)\<rparr>)))"

definition process_message_batches :: "('c, 'n, 'w) transport_deps \<Rightarrow> (u64 \<Rightarrow> nat \<Rightarrow> instant) \<Rightarrow> u64 list \<Rightarrow> ('c, 'n) IrohRaftTransport \<Rightarrow> ('c, 'n) IrohRaftTransport" where
  "process_message_batches D now order t = fold (\<lambda>i. process_peer D (now i) i) order t"

definition check_connection_health :: "instant \<Rightarrow> ('c, 'n) IrohRaftTransport \<Rightarrow> ('c, 'n) IrohRaftTransport" where
  "check_connection_health now t = t\<lparr>tr_connections := (\<lambda>i. case tr_connections t i of None \<Rightarrow> None
     | Some conn \<Rightarrow> if duration_since now (last_activity conn) > from_secs 300 then None else Some conn)\<rparr>"

text \<open>\<open>shutdown\<close>: the background tasks end, and every connection is closed, in the order given.\<close>

definition shutdown :: "('c, 'n, 'w) transport_deps \<Rightarrow> u64 list \<Rightarrow> ('c, 'n) IrohRaftTransport \<Rightarrow> ('c, 'n) IrohRaftTransport" where
  "shutdown D order t = t\<lparr>shutting_down := True, tr_connections := Map.empty,
     tr_net := fold (\<lambda>i n. case tr_connections t i of None \<Rightarrow> n | Some conn \<Rightarrow> t_close D (pc_connection conn) n) order (tr_net t)\<rparr>"

section \<open>What the transport does\<close>

datatype transport_event = Send u64 Message | BatchTick | HealthTick | PeersChanged | Shutdown

inductive tr_step :: "('c, 'n, 'w) transport_deps \<Rightarrow> ('c, 'n) IrohRaftTransport \<Rightarrow> transport_event \<Rightarrow> ('c, 'n) IrohRaftTransport \<Rightarrow> bool" for D where
  tr_send: "tr_step D t (Send peer_id msg) (snd (send_message D now peer_id msg t))"
| tr_batch: "\<not> shutting_down t \<Longrightarrow> tr_step D t BatchTick (process_message_batches D now order t)"
| tr_health: "\<not> shutting_down t \<Longrightarrow> tr_step D t HealthTick (check_connection_health now t)"
| tr_peers: "tr_step D t PeersChanged (t\<lparr>tr_node := node\<rparr>)"
| tr_shutdown: "tr_step D t Shutdown (shutdown D order t)"

section \<open>The buffers\<close>

abbreviation urgency :: "BufferedRaftMessage \<Rightarrow> nat" where
  "urgency b \<equiv> as_u8 (bm_priority b)"

definition queue_ok :: "BufferedRaftMessage list \<Rightarrow> bool" where
  "queue_ok q \<longleftrightarrow> sorted (map urgency q) \<and> length q \<le> MAX_BUFFERED
     \<and> (\<forall>b \<in> set q. bm_priority b = from_raft_message (bm_message b))"

text \<open>In a sorted buffer the new message goes behind those of the same priority.\<close>

lemma insert_position_sorted: "sorted (map urgency q) \<Longrightarrow>
  take (insert_position p q) q = filter (\<lambda>b. urgency b \<le> as_u8 p) q
  \<and> drop (insert_position p q) q = filter (\<lambda>b. urgency b > as_u8 p) q"
proof (induction q)
  case (Cons b q)
  show ?case
  proof (cases "urgency b > as_u8 p")
    case True
    with Cons.prems have "\<forall>x \<in> set q. urgency x > as_u8 p" by fastforce
    with True show ?thesis by (simp add: filter_empty_conv filter_id_conv not_le)
  next
    case False
    with Cons show ?thesis by simp
  qed
qed simp

lemma insert_buffered_sorted: "sorted (map urgency q) \<Longrightarrow> insert_buffered b q = take MAX_BUFFERED
  (filter (\<lambda>x. urgency x \<le> urgency b) q @ b # filter (\<lambda>x. urgency x > urgency b) q)"
  using insert_position_sorted[of q "bm_priority b"] unfolding insert_buffered_def Let_def by (simp del: take_append)

lemma queue_ok_insert:
  assumes "queue_ok q" and "bm_priority b = from_raft_message (bm_message b)"
  shows "queue_ok (insert_buffered b q)"
proof -
  have sorted: "sorted (map urgency q)" using assms(1) by (simp add: queue_ok_def)
  let ?all = "filter (\<lambda>x. urgency x \<le> urgency b) q @ b # filter (\<lambda>x. urgency x > urgency b) q"
  have "sorted (map urgency ?all)" using sorted by (auto simp: sorted_append sorted_map sorted_wrt_filter)
  then have "sorted (take MAX_BUFFERED (map urgency ?all))" by (rule sorted_wrt_take)
  then have "sorted (map urgency (take MAX_BUFFERED ?all))" by (simp only: take_map)
  moreover have "\<forall>x \<in> set ?all. bm_priority x = from_raft_message (bm_message x)"
    using assms by (auto simp: queue_ok_def)
  then have "\<forall>x \<in> set (take MAX_BUFFERED ?all). bm_priority x = from_raft_message (bm_message x)"
    by (meson in_set_takeD)
  moreover have "length (take MAX_BUFFERED ?all) \<le> MAX_BUFFERED" by (simp only: length_take min.cobounded2)
  ultimately show ?thesis unfolding queue_ok_def insert_buffered_sorted[OF sorted] by blast
qed

lemma queue_ok_drain: "queue_ok q \<Longrightarrow> queue_ok (fst (drain_queue D now c k q t))"
proof (induction D now c k q t rule: drain_queue.induct)
  case (2 D now c k b messages t)
  then have "queue_ok messages" by (auto simp: queue_ok_def)
  with 2 show ?case by (auto simp: Let_def split: prod.split sum.split)
qed simp

text \<open>What leaves the buffers alone.\<close>

definition same_buffers :: "('c, 'n) IrohRaftTransport \<Rightarrow> ('c, 'n) IrohRaftTransport \<Rightarrow> bool" where
  "same_buffers t t' \<longleftrightarrow> message_buffer t' = message_buffer t \<and> shutting_down t' = shutting_down t"

lemma on_net_same [simp]:
  "message_buffer (snd (on_net f t)) = message_buffer t" "shutting_down (snd (on_net f t)) = shutting_down t"
  "tr_connections (snd (on_net f t)) = tr_connections t" "tr_node (snd (on_net f t)) = tr_node t"
  by (simp_all add: on_net_def split: prod.split)

lemma count_sent_same [simp]:
  "message_buffer (count_sent key t) = message_buffer t" "tr_net (count_sent key t) = tr_net t"
  "tr_connections (count_sent key t) = tr_connections t" "tr_node (count_sent key t) = tr_node t"
  by (simp_all add: count_sent_def)

lemma keeps_on_net: "(\<And>t n. I t \<Longrightarrow> I (t\<lparr>tr_net := n\<rparr>)) \<Longrightarrow> keeps I (on_net f)"
  by (simp add: keeps_def on_net_def split: prod.split)

lemma on_net_eqD: "on_net f t = (r, t') \<Longrightarrow>
  message_buffer t' = message_buffer t \<and> tr_connections t' = tr_connections t \<and> tr_node t' = tr_node t"
  using on_net_same[of f t] by simp

lemma keeps_try_send: "keeps (\<lambda>t. message_buffer t = q) (try_send_immediate D now i msg)"
  unfolding try_send_immediate_def get_or_create_connection_def Let_def
  by (intro keeps_rules keeps_on_net keeps_update) simp_all

lemma drain_same: "message_buffer (snd (drain_queue D now c k q t)) = message_buffer t"
  by (induction D now c k q t rule: drain_queue.induct) (auto simp: Let_def dest: on_net_eqD split: prod.split sum.split)

lemma batch_connection_same: "message_buffer (snd (batch_connection D i t)) = message_buffer t"
  by (simp add: batch_connection_def split: option.split sum.split prod.split)

definition buffers_ok :: "('c, 'n) IrohRaftTransport \<Rightarrow> bool" where
  "buffers_ok t \<longleftrightarrow> (\<forall>i q. message_buffer t i = Some q \<longrightarrow> queue_ok q)"

lemma buffers_ok_same: "buffers_ok t \<Longrightarrow> message_buffer t' = message_buffer t \<Longrightarrow> buffers_ok t'"
  by (simp add: buffers_ok_def)

lemma buffers_ok_buffer: "buffers_ok t \<Longrightarrow> from_raft_message msg = p \<Longrightarrow> buffers_ok (snd (buffer_message now i msg p t))"
  by (auto simp: buffer_message_def buffers_ok_def queue_ok_def[of "[]"] intro!: queue_ok_insert split: option.split)

lemma buffers_ok_send: "buffers_ok t \<Longrightarrow> buffers_ok (snd (send_message D now i msg t))"
proof -
  assume ok: "buffers_ok t"
  obtain r t' where t': "try_send_immediate D now i msg t = (r, t')" by fastforce
  then have "message_buffer t' = message_buffer t" by (rule keepsD[OF keeps_try_send refl])
  with ok have "buffers_ok t'" by (rule buffers_ok_same)
  with ok show ?thesis using t' by (auto simp: send_message_def buffers_ok_buffer split: sum.split)
qed

lemma buffers_ok_peer: "buffers_ok t \<Longrightarrow> buffers_ok (process_peer D now i t)"
proof (cases "message_buffer t i")
  case (Some q)
  assume ok: "buffers_ok t"
  have same: "buffers_ok t'" if "batch_connection D i t = (c, t')" for c t'
    using batch_connection_same[of D i t] that ok buffers_ok_same by fastforce
  have "queue_ok q" using ok Some by (simp add: buffers_ok_def)
  then have "buffers_ok (t''\<lparr>message_buffer := (message_buffer t'')(i \<mapsto> rest)\<rparr>)"
    if "buffers_ok t'" "drain_queue D now c 0 q t' = (rest, t'')" for c t' t'' rest
    using queue_ok_drain[of q D now c 0 t'] drain_same[of D now c 0 q t'] that by (auto simp: buffers_ok_def)
  with same Some ok show ?thesis
    by (cases q) (auto simp: process_peer_def simp del: drain_queue.simps split: prod.split option.split)
qed (simp add: process_peer_def)

interpretation buffers: invariant_of "\<lambda>t. message_buffer t = Map.empty" "tr_step D" buffers_ok
proof
  fix t t' :: "('a, 'b) IrohRaftTransport" and e
  show "message_buffer t = Map.empty \<Longrightarrow> buffers_ok t" by (simp add: buffers_ok_def)
  assume ok: "buffers_ok t" and "tr_step D t e t'"
  from this(2) show "buffers_ok t'"
  proof cases
    case (tr_send peer_id msg now)
    with ok show ?thesis by (simp only: buffers_ok_send)
  next
    case (tr_batch now order)
    have "buffers_ok (fold (\<lambda>i. process_peer D (now i) i) order t)" using ok
      by (induction order arbitrary: t) (simp_all add: buffers_ok_peer)
    with tr_batch show ?thesis by (simp add: process_message_batches_def)
  qed (use ok in \<open>auto simp: buffers_ok_def check_connection_health_def shutdown_def\<close>)
qed


text \<open>
  The messages that wait for a peer are ordered by urgency, elections first and snapshots last,
  and are at most 1000; a further one goes behind those of its own and higher urgency, and when
  there is one too many the last one is dropped.
\<close>

theorem waiting_messages_ordered:
  assumes "reachable (\<lambda>t. message_buffer t = Map.empty) (tr_step D) t" and "message_buffer t i = Some q"
  shows "sorted (map urgency q) \<and> length q \<le> MAX_BUFFERED
    \<and> message_buffer (snd (buffer_message now i msg p t)) i = Some (take MAX_BUFFERED
        (filter (\<lambda>b. urgency b \<le> as_u8 p) q @ \<lparr>bm_message = msg, bm_priority = p, bm_timestamp = now\<rparr>
           # filter (\<lambda>b. urgency b > as_u8 p) q))"
proof -
  have "queue_ok q" using buffers.always[OF assms(1)] assms(2) by (simp add: buffers_ok_def)
  then show ?thesis using assms(2) by (simp add: queue_ok_def buffer_message_def insert_buffered_sorted)
qed

text \<open>Messages delivered one after the other, each without an error.\<close>

fun delivered :: "('c, 'n, 'w) transport_deps \<Rightarrow> 'c \<Rightarrow> Message list \<Rightarrow> 'n \<Rightarrow> 'n option" where
  "delivered D c [] n = Some n"
| "delivered D c (msg # msgs) n = (case send_single_message D c msg n of
     (Inl _, _) \<Rightarrow> None | (Inr _, n') \<Rightarrow> delivered D c msgs n')"

text \<open>The messages that were not too old when they were taken from the queue.\<close>

fun fresh :: "(nat \<Rightarrow> instant) \<Rightarrow> BufferedRaftMessage list \<Rightarrow> Message list" where
  "fresh now [] = []"
| "fresh now (b # bs) = (if stale (now 0) b then fresh (\<lambda>j. now (Suc j)) bs else bm_message b # fresh (\<lambda>j. now (Suc j)) bs)"

text \<open>
  How a queue is left: what was taken from it, what is left, the net after the messages that went
  out, and, when one failed, that it is the first of the rest.
\<close>

definition drained :: "('c, 'n, 'w) transport_deps \<Rightarrow> (nat \<Rightarrow> instant) \<Rightarrow> 'c \<Rightarrow> nat \<Rightarrow> BufferedRaftMessage list
    \<Rightarrow> 'n \<Rightarrow> BufferedRaftMessage list \<Rightarrow> 'n \<Rightarrow> bool" where
  "drained D now c k q n0 rest n1 \<longleftrightarrow> (\<exists>before n. q = before @ rest \<and> delivered D c (fresh now before) n0 = Some n
     \<and> k + length (fresh now before) \<le> 100
     \<and> (n1 = n \<and> (rest = [] \<or> k + length (fresh now before) = 100)
        \<or> (\<exists>b bs e. rest = b # bs \<and> \<not> stale (now (length before)) b \<and> send_single_message D c (bm_message b) n = (Inl e, n1))))"

lemma drained_stale: "stale (now 0) b \<Longrightarrow> drained D (\<lambda>j. now (Suc j)) c k q n0 rest n1 \<Longrightarrow> drained D now c k (b # q) n0 rest n1"
  unfolding drained_def
proof (elim exE conjE)
  fix before n
  assume "stale (now 0) b" "q = before @ rest" "delivered D c (fresh (\<lambda>j. now (Suc j)) before) n0 = Some n"
    "k + length (fresh (\<lambda>j. now (Suc j)) before) \<le> 100"
    "n1 = n \<and> (rest = [] \<or> k + length (fresh (\<lambda>j. now (Suc j)) before) = 100)
     \<or> (\<exists>b bs e. rest = b # bs \<and> \<not> stale (now (Suc (length before))) b \<and> send_single_message D c (bm_message b) n = (Inl e, n1))"
  then show "\<exists>before n. b # q = before @ rest \<and> delivered D c (fresh now before) n0 = Some n \<and> k + length (fresh now before) \<le> 100
     \<and> (n1 = n \<and> (rest = [] \<or> k + length (fresh now before) = 100)
        \<or> (\<exists>b bs e. rest = b # bs \<and> \<not> stale (now (length before)) b \<and> send_single_message D c (bm_message b) n = (Inl e, n1)))"
    by (intro exI[of _ "b # before"] exI[of _ n]) simp
qed

lemma drained_sent:
  "\<not> stale (now 0) b \<Longrightarrow> send_single_message D c (bm_message b) n0 = (Inr u, n') \<Longrightarrow> drained D (\<lambda>j. now (Suc j)) c (k + 1) q n' rest n1
    \<Longrightarrow> drained D now c k (b # q) n0 rest n1"
  unfolding drained_def
proof (elim exE conjE)
  fix before n
  assume "\<not> stale (now 0) b" "send_single_message D c (bm_message b) n0 = (Inr u, n')"
    "q = before @ rest" "delivered D c (fresh (\<lambda>j. now (Suc j)) before) n' = Some n"
    "k + 1 + length (fresh (\<lambda>j. now (Suc j)) before) \<le> 100"
    "n1 = n \<and> (rest = [] \<or> k + 1 + length (fresh (\<lambda>j. now (Suc j)) before) = 100)
     \<or> (\<exists>b bs e. rest = b # bs \<and> \<not> stale (now (Suc (length before))) b \<and> send_single_message D c (bm_message b) n = (Inl e, n1))"
  then show "\<exists>before n. b # q = before @ rest \<and> delivered D c (fresh now before) n0 = Some n \<and> k + length (fresh now before) \<le> 100
     \<and> (n1 = n \<and> (rest = [] \<or> k + length (fresh now before) = 100)
        \<or> (\<exists>b bs e. rest = b # bs \<and> \<not> stale (now (length before)) b \<and> send_single_message D c (bm_message b) n = (Inl e, n1)))"
    by (intro exI[of _ "b # before"] exI[of _ n]) simp
qed

lemma drain_queue_spec:
  assumes "drain_queue D now c k q t = (rest, t')" and "k < 100"
  shows "drained D now c k q (tr_net t) rest (tr_net t')"
  using assms
proof (induction D now c k q t rule: drain_queue.induct)
  case (1 D now c k t)
  then show ?case unfolding drained_def by (intro exI[of _ "[]"]) simp
next
  case (2 D now c k b messages t)
  show ?case
  proof (cases "stale (now 0) b")
    case True
    with "2.IH"(1)[OF True] "2.prems" show ?thesis by (simp add: drained_stale)
  next
    case False
    obtain r n1 where send: "send_single_message D c (bm_message b) (tr_net t) = (r, n1)" by fastforce
    then have net: "on_net (send_single_message D c (bm_message b)) t = (r, t\<lparr>tr_net := n1\<rparr>)" by (simp add: on_net_def)
    show ?thesis
    proof (cases r)
      case (Inl e)
      with "2.prems" False net send show ?thesis
        unfolding drained_def by (intro exI[of _ "[]"] exI[of _ "tr_net t"]) auto
    next
      case (Inr u)
      let ?t = "count_sent (t_show_type D (msg_type (bm_message b))) (t\<lparr>tr_net := n1\<rparr>)"
      show ?thesis
      proof (cases "k + 1 \<ge> 100")
        case True
        with "2.prems" False net send Inr show ?thesis
          unfolding drained_def by (intro exI[of _ "[b]"] exI[of _ n1]) (auto simp: Let_def)
      next
        case more: False
        have "drain_queue D (\<lambda>j. now (Suc j)) c (k + 1) messages ?t = (rest, t')" using "2.prems"(1) False net Inr more by (simp add: Let_def)
        with "2.IH"(2)[OF False net[symmetric] Inr refl more] more have "drained D (\<lambda>j. now (Suc j)) c (k + 1) messages n1 rest (tr_net t')"
          by simp
        with False send Inr show ?thesis by (simp add: drained_sent)
      qed
    qed
  qed
qed

text \<open>
  C24: on a tick the messages that wait for a peer go over its connection, or over a new one made for
  the tick when there is none. Those that are at most 30 seconds old when their turn comes are sent
  in the order of the buffer, at most 100 of them, until one fails; that one and all after it
  stay in their order. Nothing is lost except what is too old, nothing at all when no connection
  can be made, and the messages for other peers stay.
\<close>

theorem batch_sent_in_order:
  assumes "message_buffer t i = Some q" and "q \<noteq> []"
  shows "case batch_connection D i t of
      (None, t1) \<Rightarrow> tr_connections t i = None \<and> process_peer D now i t = t1 \<and> message_buffer t1 = message_buffer t
    | (Some c, t1) \<Rightarrow> (\<forall>conn. tr_connections t i = Some conn \<longrightarrow> c = pc_connection conn \<and> t1 = t)
      \<and> (\<forall>j. j \<noteq> i \<longrightarrow> message_buffer (process_peer D now i t) j = message_buffer t j)
      \<and> (\<exists>before rest n. q = before @ rest \<and> message_buffer (process_peer D now i t) i = Some rest
        \<and> delivered D c (fresh now before) (tr_net t1) = Some n \<and> length (fresh now before) \<le> 100
        \<and> (tr_net (process_peer D now i t) = n \<and> (rest = [] \<or> length (fresh now before) = 100)
           \<or> (\<exists>b bs e. rest = b # bs \<and> \<not> stale (now (length before)) b
               \<and> send_single_message D c (bm_message b) n = (Inl e, tr_net (process_peer D now i t)))))"
proof -
  obtain cc t1 where conn: "batch_connection D i t = (cc, t1)" by fastforce
  have same: "message_buffer t1 = message_buffer t" using batch_connection_same[of D i t] conn by simp
  have known: "cc = Some (pc_connection x) \<and> t1 = t" if "tr_connections t i = Some x" for x
    using conn that by (simp add: batch_connection_def)
  show ?thesis
  proof (cases cc)
    case None
    then have "tr_connections t i = None" using known by (cases "tr_connections t i") simp_all
    moreover have "process_peer D now i t = t1" using assms conn None by (cases q) (simp_all add: process_peer_def)
    ultimately show ?thesis using conn None same by simp
  next
    case (Some c)
    obtain rest t' where drain: "drain_queue D now c 0 q t1 = (rest, t')" by fastforce
    then have peer: "process_peer D now i t = t'\<lparr>message_buffer := (message_buffer t')(i \<mapsto> rest)\<rparr>"
      using assms conn Some by (cases q) (simp_all add: process_peer_def del: drain_queue.simps)
    have "message_buffer t' = message_buffer t" using drain_same[of D now c 0 q t1] drain same by simp
    moreover have "drained D now c 0 q (tr_net t1) rest (tr_net t')" using drain_queue_spec[OF drain] by simp
    ultimately show ?thesis using conn Some known peer by (auto simp: drained_def)
  qed
qed

text \<open>
  Messages of a peer overtake each other. While older messages wait in the buffer, because a
  connection or a send failed, a new append, heartbeat or vote that can be sent is sent at once and
  the older ones stay behind, whatever their urgency.
\<close>

theorem immediate_send_overtakes:
  assumes "\<not> shutting_down t" and "from_raft_message msg \<noteq> Snapshots"
    and "tr_connections t i = Some conn" and "duration_since now (last_activity conn) < from_secs 300"
    and "send_single_message D (pc_connection conn) msg (tr_net t) = (Inr (), n)"
  shows "\<exists>t'. send_message D now i msg t = (Inr (), t') \<and> tr_net t' = n \<and> message_buffer t' = message_buffer t
    \<and> tr_connections t' = tr_connections t"
proof -
  have "get_or_create_connection D now i t = (Inr conn, t)"
    using assms(3,4) by (simp add: get_or_create_connection_def)
  then have "try_send_immediate D now i msg t = (Inr (), count_sent (''Raft_'' @ t_show_type D (msg_type msg)) (t\<lparr>tr_net := n\<rparr>))"
    using assms(5) by (simp add: try_send_immediate_def act_then_apply on_net_def)
  then show ?thesis using assms(1,2) by (cases "from_raft_message msg") (simp_all add: send_message_def)
qed

text \<open>Sending over a connection does not renew it: in use or not, it is dropped when it is five minutes old.\<close>

lemma busy_connection_dropped:
  assumes "\<not> shutting_down t" and "from_raft_message msg \<noteq> Snapshots"
    and "tr_connections t i = Some conn" and "now < last_activity conn + int (from_secs 300)"
    and "send_single_message D (pc_connection conn) msg (tr_net t) = (Inr (), n)"
    and "later > last_activity conn + int (from_secs 300)"
  shows "tr_connections (check_connection_health later (snd (send_message D now i msg t))) i = None"
proof -
  have "duration_since now (last_activity conn) < from_secs 300" using assms(4) by (auto simp: from_secs_def)
  from immediate_send_overtakes[OF assms(1-3) this assms(5)] assms(3,6) show ?thesis
    by (auto simp: check_connection_health_def)
qed


section \<open>Examples\<close>

text \<open>
  A network that records what was finished on it, and fails when it holds as many requests as it can.
\<close>

definition sample_transport :: "nat \<Rightarrow> (unit, bytes list, bytes) transport_deps" where
  "sample_transport capacity = \<lparr>t_header = header_wire, t_request = \<lparr>bin_serialize = (\<lambda>r. Inr (rpc_payload r)), bin_deserialize = (\<lambda>_. Inl '''')\<rparr>,
     t_message = \<lparr>encode_to_vec = msg_body, decode = (\<lambda>_. Inl '''')\<rparr>, t_writer = mem_writer,
     t_connect = (\<lambda>_ n. (Some (Inr ()), n)),
     t_open_bi = (\<lambda>_ n. (if length n < capacity then Inr [] else Inl ''closed'', n)),
     t_finish = (\<lambda>_ w n. (Inr (), n @ [w])), t_close = (\<lambda>_ n. n), t_request_id = (\<lambda>n. replicate 16 0),
     t_node_id = Inr, t_socket_addr = Inr, t_relay_url = Inr, t_show_type = (\<lambda>_. '''')\<rparr>"

definition append_message :: "u8 \<Rightarrow> Message" where
  "append_message k = \<lparr>msg_type = MsgAppend, msg_to = 2, msg_from = 1, msg_body = [k]\<rparr>"

definition sample_conn :: "unit PeerConnection" where
  "sample_conn = \<lparr>pc_node_id = 2, pc_iroh_node_id = ''two'', pc_connection = (), last_activity = 0\<rparr>"

definition waiting_two :: "BufferedRaftMessage list" where
  "waiting_two = map (\<lambda>k. \<lparr>bm_message = append_message k, bm_priority = LogAppend, bm_timestamp = 0\<rparr>) [1, 2]"

definition sample_busy :: "(unit, bytes list) IrohRaftTransport" where
  "sample_busy = (transport_new (shared_new 1) [])\<lparr>tr_connections := [2 \<mapsto> sample_conn], message_buffer := [2 \<mapsto> waiting_two]\<rparr>"

lemma sample_send:
  "length n < capacity \<Longrightarrow> \<exists>w. send_single_message (sample_transport capacity) c (append_message k) n = (Inr (), n @ [w])"
  "\<not> length n < capacity \<Longrightarrow> send_single_message (sample_transport capacity) c (append_message k) n
     = (Inl (Internal ''Failed to open bi stream: closed''), n)"
proof -
  let ?msg = "zero_copy_message Request (Some (replicate 16 0)) [k]"
  obtain w where w: "write_message_zero_copy mem_writer header_wire ?msg [] = (Inr (), w)"
    using write_frame[OF mem_stream_ok(1) header_wire_ok, of ?msg "[]"] by (auto simp: zero_copy_message_def id_ok_def)
  show "length n < capacity \<Longrightarrow> \<exists>w. send_single_message (sample_transport capacity) c (append_message k) n = (Inr (), n @ [w])"
    using w by (simp add: send_single_message_def serialize_message_def serialize_payload_def sample_transport_def
        append_message_def act_then_apply stream_try_def write_request_def write_message_def)
  show "\<not> length n < capacity \<Longrightarrow> send_single_message (sample_transport capacity) c (append_message k) n
     = (Inl (Internal ''Failed to open bi stream: closed''), n)"
    by (simp add: send_single_message_def serialize_message_def serialize_payload_def sample_transport_def
        append_message_def act_then_apply stream_try_def)
qed

theorem waiting_messages_ordered_witness:
  "\<exists>t q. reachable (\<lambda>t. message_buffer t = Map.empty) (tr_step (sample_transport 0)) t \<and> message_buffer t 2 = Some q
    \<and> length q = 1 \<and> sorted (map urgency q)"
proof -
  let ?start = "transport_new (shared_new 1) [] :: (unit, bytes list) IrohRaftTransport"
  let ?t = "snd (send_message (sample_transport 0) 0 2 (append_message 1) ?start)"
  have r0: "reachable (\<lambda>t. message_buffer t = Map.empty) (tr_step (sample_transport 0)) ?start"
    by (rule reachable_init) (simp add: transport_new_def)
  have reach: "reachable (\<lambda>t. message_buffer t = Map.empty) (tr_step (sample_transport 0)) ?t"
    by (rule reachable_step[OF r0 tr_send])
  have "message_buffer ?t 2 = Some [\<lparr>bm_message = append_message 1, bm_priority = LogAppend, bm_timestamp = 0\<rparr>]"
    by (simp add: send_message_def transport_new_def append_message_def from_raft_message_def try_send_immediate_def
        get_or_create_connection_def resolve_peer_def get_peer_def shared_new_def act_then_apply buffer_message_def
        insert_buffered_def MAX_BUFFERED_def)
  from waiting_messages_ordered [OF reach this] this reach show ?thesis by fastforce
qed

theorem batch_sent_in_order_witness:
  "\<exists>w. tr_net (process_peer (sample_transport 1) (\<lambda>_. 5) 2 sample_busy) = [w]
    \<and> message_buffer (process_peer (sample_transport 1) (\<lambda>_. 5) 2 sample_busy) 2 = Some (drop 1 waiting_two)
    \<and> message_buffer (process_peer (sample_transport 1) (\<lambda>_. 5) 2 (sample_busy\<lparr>tr_connections := Map.empty\<rparr>)) 2 = Some waiting_two"
proof -
  let ?alone = "sample_busy\<lparr>tr_connections := Map.empty\<rparr>"
  have alone: "message_buffer ?alone 2 = Some waiting_two" "waiting_two \<noteq> []" by (simp_all add: sample_busy_def waiting_two_def)
  have "batch_connection (sample_transport 1) 2 ?alone = (None, ?alone)"
    by (simp add: batch_connection_def sample_busy_def transport_new_def get_peer_def shared_new_def)
  with batch_sent_in_order [OF alone, of "sample_transport 1" "\<lambda>_. 5"] alone(1)
  have kept: "message_buffer (process_peer (sample_transport 1) (\<lambda>_. 5) 2 ?alone) 2 = Some waiting_two" by simp
  obtain w where w: "send_single_message (sample_transport 1) () (append_message 1) [] = (Inr (), [w])"
    using sample_send(1)[of "[]" 1] by auto
  let ?t = "process_peer (sample_transport 1) (\<lambda>_. 5) 2 sample_busy"
  have busy: "tr_connections sample_busy 2 = Some sample_conn" "message_buffer sample_busy 2 = Some waiting_two" "waiting_two \<noteq> []"
    "tr_net sample_busy = []" by (simp_all add: sample_busy_def waiting_two_def transport_new_def)
  have fresh: "\<not> stale 5 b" if "b \<in> set waiting_two" for b
    using that by (auto simp: waiting_two_def stale_def from_secs_def)
  have "batch_connection (sample_transport 1) 2 sample_busy = (Some (), sample_busy)"
    by (simp add: batch_connection_def busy(1) sample_conn_def)
  with batch_sent_in_order [OF busy(2,3), of "sample_transport 1" "\<lambda>_. 5"] obtain before rest n where
    split: "waiting_two = before @ rest" "message_buffer ?t 2 = Some rest"
    and sent: "delivered (sample_transport 1) () (fresh (\<lambda>_. 5) before) [] = Some n" "length (fresh (\<lambda>_. 5) before) \<le> 100"
    and stop: "tr_net ?t = n \<and> (rest = [] \<or> length (fresh (\<lambda>_. 5) before) = 100)
       \<or> (\<exists>b bs e. rest = b # bs \<and> \<not> stale 5 b \<and> send_single_message (sample_transport 1) () (bm_message b) n = (Inl e, tr_net ?t))"
    by (auto simp: busy(4))
  have two: "waiting_two = [\<lparr>bm_message = append_message 1, bm_priority = LogAppend, bm_timestamp = 0\<rparr>,
      \<lparr>bm_message = append_message 2, bm_priority = LogAppend, bm_timestamp = 0\<rparr>]" by (simp add: waiting_two_def)
  have full: "send_single_message (sample_transport 1) () (append_message 2) [w] = (Inl (Internal ''Failed to open bi stream: closed''), [w])"
    using sample_send(2)[of "[w]" 1] by simp
  have fresh_two: "fresh (\<lambda>_. 5) waiting_two = [append_message 1, append_message 2]" "fresh (\<lambda>_. 5) (take 1 waiting_two) = [append_message 1]"
    using fresh by (simp_all add: two)
  consider "before = []" "rest = waiting_two" | "before = take 1 waiting_two" "rest = drop 1 waiting_two" | "before = waiting_two" "rest = []"
  proof -
    have "take (length before) waiting_two = before" "drop (length before) waiting_two = rest" unfolding split(1) by simp_all
    moreover have "length before + length rest = 2" using arg_cong[OF split(1), of length] by (simp add: waiting_two_def)
    then have "length before = 0 \<or> length before = 1 \<or> length before = 2" by linarith
    moreover have "take 2 waiting_two = waiting_two" "drop 2 waiting_two = []" by (simp_all add: waiting_two_def)
    ultimately show thesis using that by (metis drop0 take0)
  qed
  then show ?thesis
  proof cases
    case 1
    have "n = []" using sent(1) unfolding 1(1) by simp
    moreover have "rest \<noteq> []" unfolding 1(2) by (rule busy(3))
    moreover have "length (fresh (\<lambda>_. 5) before) \<noteq> 100" unfolding 1(1) by simp
    ultimately obtain b bs e where b: "rest = b # bs" "send_single_message (sample_transport 1) () (bm_message b) [] = (Inl e, tr_net ?t)"
      using stop by blast
    have "bm_message b = append_message 1" using b(1)[unfolded 1(2) two] by auto
    with b(2) w kept show ?thesis by simp
  next
    case 2
    have "n = [w]" using sent(1) w unfolding 2(1) fresh_two(2) by simp
    moreover have "rest \<noteq> []" unfolding 2(2) two by simp
    moreover have "length (fresh (\<lambda>_. 5) before) \<noteq> 100" unfolding 2(1) fresh_two(2) by simp
    ultimately obtain b bs e where b: "rest = b # bs" "send_single_message (sample_transport 1) () (bm_message b) [w] = (Inl e, tr_net ?t)"
      using stop by blast
    have "bm_message b = append_message 2" using b(1)[unfolded 2(2) two] by auto
    with b(2) full have "tr_net ?t = [w]" by simp
    with kept show ?thesis unfolding split(2) 2(2) by (intro conjI exI[of _ w] refl)
  next
    case 3
    then have "delivered (sample_transport 1) () [append_message 1, append_message 2] [] = Some n" using sent(1) fresh_two(1) by simp
    with w full kept show ?thesis by simp
  qed
qed

theorem immediate_send_overtakes_witness:
  "\<exists>t w. send_message (sample_transport 9) 7 2 (append_message 3) sample_busy = (Inr (), t)
    \<and> tr_net t = [w] \<and> message_buffer t 2 = Some waiting_two"
proof -
  obtain w where w: "send_single_message (sample_transport 9) (pc_connection sample_conn) (append_message 3) (tr_net sample_busy) = (Inr (), [w])"
    using sample_send(1)[of "[]" 9] by (auto simp: sample_busy_def transport_new_def)
  have "\<not> shutting_down sample_busy" "from_raft_message (append_message 3) \<noteq> Snapshots" "tr_connections sample_busy 2 = Some sample_conn"
    "duration_since 7 (last_activity sample_conn) < from_secs 300" "message_buffer sample_busy 2 = Some waiting_two"
    by (simp_all add: sample_busy_def transport_new_def append_message_def from_raft_message_def sample_conn_def from_secs_def)
  with immediate_send_overtakes [OF this(1-4) w] show ?thesis by auto
qed


end
