(* ===== verification/OptProcessing.thy ===== *)
theory OptProcessing
  imports Actions Steps Proposals "HOL-Library.AList"
begin

text \<open>
  \<open>src/src/raft/optimized_processing.rs\<close>: messages are queued in batches by class, and a call processes the
  oldest batch of the most urgent class, writing each message through one of three reused buffers. The
  encoding (\<open>prost\<close>) and the growth of a buffer (\<open>bytes\<close>) are parameters, the clock is an argument. Each
  method runs to its end between two others: the locks it takes are those of the queue it works on and
  of the buffer. The statistics are \<open>u64\<close> values that wrap.
\<close>

section \<open>Classes of messages\<close>

datatype BatchPriority = Election | Heartbeat | Normal | Snapshot

definition batch_rank :: "BatchPriority \<Rightarrow> nat" where
  "batch_rank p = (case p of Election \<Rightarrow> 0 | Heartbeat \<Rightarrow> 1 | Normal \<Rightarrow> 2 | Snapshot \<Rightarrow> 3)"

instantiation BatchPriority :: linorder
begin

definition less_eq_BatchPriority :: "BatchPriority \<Rightarrow> BatchPriority \<Rightarrow> bool" where
  "p \<le> q \<longleftrightarrow> batch_rank p \<le> batch_rank q"

definition less_BatchPriority :: "BatchPriority \<Rightarrow> BatchPriority \<Rightarrow> bool" where
  "p < q \<longleftrightarrow> batch_rank p < batch_rank q"

instance
proof
  fix p q :: BatchPriority
  show "p \<le> q \<Longrightarrow> q \<le> p \<Longrightarrow> p = q"
    by (cases p; cases q) (simp_all add: less_eq_BatchPriority_def batch_rank_def)
qed (auto simp: less_eq_BatchPriority_def less_BatchPriority_def)

end

definition from_message_type :: "RaftMsgType \<Rightarrow> BatchPriority" where
  "from_message_type t = (case t of
     MsgRequestVote \<Rightarrow> Election | MsgRequestVoteResponse \<Rightarrow> Election
   | MsgHeartbeat \<Rightarrow> Heartbeat | MsgHeartbeatResponse \<Rightarrow> Heartbeat
   | MsgSnapshot \<Rightarrow> Snapshot
   | _ \<Rightarrow> Normal)"

text \<open>A Raft message with its entries, whose number the size estimate looks at.\<close>

record EntriesMessage = Message +
  msg_entries :: "Entry list"

abbreviation class_of :: "EntriesMessage \<Rightarrow> BatchPriority" where
  "class_of m \<equiv> from_message_type (msg_type m)"

section \<open>Reused buffers\<close>

text \<open>\<open>BytesMut\<close>: the bytes it holds and its capacity. \<open>grow\<close> is the capacity chosen when at least so many bytes must fit.\<close>

record BytesMut =
  bm_bytes :: bytes
  bm_capacity :: nat

definition bm_with_capacity :: "nat \<Rightarrow> BytesMut" where
  "bm_with_capacity n = \<lparr>bm_bytes = [], bm_capacity = n\<rparr>"

definition bm_clear :: "BytesMut \<Rightarrow> BytesMut" where
  "bm_clear b = b\<lparr>bm_bytes := []\<rparr>"

definition bm_reserve :: "(nat \<Rightarrow> nat \<Rightarrow> nat) \<Rightarrow> nat \<Rightarrow> BytesMut \<Rightarrow> BytesMut" where
  "bm_reserve grow additional b = (if length (bm_bytes b) + additional \<le> bm_capacity b then b
     else b\<lparr>bm_capacity := grow (bm_capacity b) (length (bm_bytes b) + additional)\<rparr>)"

definition bm_extend :: "(nat \<Rightarrow> nat \<Rightarrow> nat) \<Rightarrow> bytes \<Rightarrow> BytesMut \<Rightarrow> BytesMut" where
  "bm_extend grow bs b = (let b' = bm_reserve grow (length bs) b in b'\<lparr>bm_bytes := bm_bytes b' @ bs\<rparr>)"

record SerializationBuffer =
  small_buffer :: BytesMut
  medium_buffer :: BytesMut
  large_buffer :: BytesMut
  reuse_count :: u64

definition serialization_buffer_new :: SerializationBuffer where
  "serialization_buffer_new = \<lparr>small_buffer = bm_with_capacity 4096, medium_buffer = bm_with_capacity 65536,
     large_buffer = bm_with_capacity (1024 * 1024), reuse_count = 0\<rparr>"

text \<open>The code returns a mutable reference to one of the three fields; here the name of the field.\<close>

datatype BufferClass = SmallBuffer | MediumBuffer | LargeBuffer

definition buffer_at :: "BufferClass \<Rightarrow> SerializationBuffer \<Rightarrow> BytesMut" where
  "buffer_at c sb = (case c of SmallBuffer \<Rightarrow> small_buffer sb | MediumBuffer \<Rightarrow> medium_buffer sb | LargeBuffer \<Rightarrow> large_buffer sb)"

definition set_buffer :: "BufferClass \<Rightarrow> BytesMut \<Rightarrow> SerializationBuffer \<Rightarrow> SerializationBuffer" where
  "set_buffer c b sb = (case c of SmallBuffer \<Rightarrow> sb\<lparr>small_buffer := b\<rparr>
     | MediumBuffer \<Rightarrow> sb\<lparr>medium_buffer := b\<rparr> | LargeBuffer \<Rightarrow> sb\<lparr>large_buffer := b\<rparr>)"

definition refit :: "(nat \<Rightarrow> nat \<Rightarrow> nat) \<Rightarrow> nat \<Rightarrow> BytesMut \<Rightarrow> BytesMut" where
  "refit grow size_hint b = (let b' = bm_clear b
     in if bm_capacity b' < size_hint then bm_reserve grow (size_hint - bm_capacity b') b' else b')"

definition get_buffer :: "(nat \<Rightarrow> nat \<Rightarrow> nat) \<Rightarrow> nat \<Rightarrow> SerializationBuffer \<Rightarrow> BufferClass \<times> SerializationBuffer" where
  "get_buffer grow size_hint buffers = (let sb = buffers\<lparr>reuse_count := reuse_count buffers + 1\<rparr>
     in if size_hint \<le> 4096 then (SmallBuffer, sb\<lparr>small_buffer := refit grow size_hint (small_buffer sb)\<rparr>)
        else if size_hint \<le> 65536 then (MediumBuffer, sb\<lparr>medium_buffer := refit grow size_hint (medium_buffer sb)\<rparr>)
        else (LargeBuffer, sb\<lparr>large_buffer := refit grow size_hint (large_buffer sb)\<rparr>))"

definition estimate_message_size :: "EntriesMessage \<Rightarrow> nat" where
  "estimate_message_size message = 64 + (case msg_type message of
     MsgAppend \<Rightarrow> length (msg_entries message) * 256
   | MsgSnapshot \<Rightarrow> 1024 * 1024
   | MsgRequestVote \<Rightarrow> 32 | MsgRequestVoteResponse \<Rightarrow> 32
   | MsgHeartbeat \<Rightarrow> 16 | MsgHeartbeatResponse \<Rightarrow> 16
   | _ \<Rightarrow> 128)"

section \<open>The processor\<close>

record ProcessingStats =
  messages_processed :: u64
  bytes_processed :: u64
  batches_processed :: u64
  zero_copy_forwards :: u64
  serialization_reuses :: u64

definition default_stats :: ProcessingStats where
  "default_stats = \<lparr>messages_processed = 0, bytes_processed = 0, batches_processed = 0,
     zero_copy_forwards = 0, serialization_reuses = 0\<rparr>"

type_synonym batch_queue = "EntriesMessage list list"

record OptimizedRaftProcessor =
  serialization_buffer :: SerializationBuffer
  op_stats :: ProcessingStats
  election_queue :: batch_queue
  heartbeat_queue :: batch_queue
  normal_queue :: batch_queue
  snapshot_queue :: batch_queue

definition processor_new :: OptimizedRaftProcessor where
  "processor_new = \<lparr>serialization_buffer = serialization_buffer_new, op_stats = default_stats,
     election_queue = [], heartbeat_queue = [], normal_queue = [], snapshot_queue = []\<rparr>"

record MessageBatch =
  mb_messages :: "EntriesMessage list"
  mb_total_size :: nat
  mb_priority :: BatchPriority
  mb_created_at :: instant

record processor_deps =
  pd_message :: "EntriesMessage prost"
  pd_grow :: "nat \<Rightarrow> nat \<Rightarrow> nat"

definition serialize_message_optimized :: "processor_deps \<Rightarrow> EntriesMessage \<Rightarrow> (SerializationBuffer, bytes) action" where
  "serialize_message_optimized D message sb =
    (case get_buffer (pd_grow D) (estimate_message_size message) sb of (c, sb') \<Rightarrow>
       case serialize_message (pd_message D) message of
         Inl e \<Rightarrow> (Inl e, sb')
       | Inr serialized \<Rightarrow> let buf = bm_extend (pd_grow D) serialized (buffer_at c sb')
           in (Inr (bm_bytes buf), set_buffer c buf sb'))"

fun serialize_loop :: "processor_deps \<Rightarrow> bytes list \<Rightarrow> EntriesMessage list \<Rightarrow> (SerializationBuffer, bytes list) action" where
  "serialize_loop D results [] = act_return results"
| "serialize_loop D results (message # messages) =
     act_then (serialize_message_optimized D message) (\<lambda>serialized. serialize_loop D (results @ [serialized]) messages)"

definition on_buffer :: "(SerializationBuffer, 'a) action \<Rightarrow> (OptimizedRaftProcessor, 'a) action" where
  "on_buffer f = (\<lambda>s. case f (serialization_buffer s) of (r, sb) \<Rightarrow> (r, s\<lparr>serialization_buffer := sb\<rparr>))"

definition process_message_batch_ref :: "processor_deps \<Rightarrow> MessageBatch \<Rightarrow> (OptimizedRaftProcessor, bytes list) action" where
  "process_message_batch_ref D batch = act_then (on_buffer (serialize_loop D [] (mb_messages batch))) (\<lambda>results.
     act_then (act_update (\<lambda>s. s\<lparr>op_stats := (op_stats s)\<lparr>
         messages_processed := messages_processed (op_stats s) + of_nat (length (mb_messages batch)),
         bytes_processed := bytes_processed (op_stats s) + of_nat (mb_total_size batch),
         batches_processed := batches_processed (op_stats s) + 1,
         serialization_reuses := reuse_count (serialization_buffer s)\<rparr>\<rparr>)) (\<lambda>_.
       act_return results))"

definition process_batch_owned :: "processor_deps \<Rightarrow> instant \<Rightarrow> EntriesMessage list \<Rightarrow> BatchPriority
    \<Rightarrow> (OptimizedRaftProcessor, bytes list) action" where
  "process_batch_owned D now messages priority = process_message_batch_ref D
     \<lparr>mb_messages = messages, mb_total_size = sum_list (map estimate_message_size messages),
       mb_priority = priority, mb_created_at = now\<rparr>"

text \<open>The four arms of \<open>queue_message\<close> differ in the queue and the limit only.\<close>

definition push_batched :: "nat \<Rightarrow> batch_queue \<Rightarrow> EntriesMessage \<Rightarrow> batch_queue" where
  "push_batched limit queue message =
    (let queue' = (if queue = [] \<or> length (last queue) \<ge> limit then queue @ [[]] else queue)
     in butlast queue' @ [last queue' @ [message]])"

definition queue_message :: "EntriesMessage \<Rightarrow> (OptimizedRaftProcessor, unit) action" where
  "queue_message message = act_update (\<lambda>s. case class_of message of
       Election \<Rightarrow> s\<lparr>election_queue := push_batched 32 (election_queue s) message\<rparr>
     | Heartbeat \<Rightarrow> s\<lparr>heartbeat_queue := push_batched 64 (heartbeat_queue s) message\<rparr>
     | Normal \<Rightarrow> s\<lparr>normal_queue := push_batched 16 (normal_queue s) message\<rparr>
     | Snapshot \<Rightarrow> s\<lparr>snapshot_queue := push_batched 4 (snapshot_queue s) message\<rparr>)"

definition process_next_batch :: "processor_deps \<Rightarrow> instant \<Rightarrow> (OptimizedRaftProcessor, bytes list option) action" where
  "process_next_batch D now =
     act_with election_queue (\<lambda>q. case q of
       batch # rest \<Rightarrow> act_then (act_update (\<lambda>s. s\<lparr>election_queue := rest\<rparr>)) (\<lambda>_.
         act_then (process_batch_owned D now batch Election) (\<lambda>r. act_return (Some r)))
     | [] \<Rightarrow> act_with heartbeat_queue (\<lambda>q. case q of
       batch # rest \<Rightarrow> act_then (act_update (\<lambda>s. s\<lparr>heartbeat_queue := rest\<rparr>)) (\<lambda>_.
         act_then (process_batch_owned D now batch Heartbeat) (\<lambda>r. act_return (Some r)))
     | [] \<Rightarrow> act_with normal_queue (\<lambda>q. case q of
       batch # rest \<Rightarrow> act_then (act_update (\<lambda>s. s\<lparr>normal_queue := rest\<rparr>)) (\<lambda>_.
         act_then (process_batch_owned D now batch Normal) (\<lambda>r. act_return (Some r)))
     | [] \<Rightarrow> act_with snapshot_queue (\<lambda>q. case q of
       batch # rest \<Rightarrow> act_then (act_update (\<lambda>s. s\<lparr>snapshot_queue := rest\<rparr>)) (\<lambda>_.
         act_then (process_batch_owned D now batch Snapshot) (\<lambda>r. act_return (Some r)))
     | [] \<Rightarrow> act_return None))))"

definition get_stats :: "OptimizedRaftProcessor \<Rightarrow> ProcessingStats" where
  "get_stats s = op_stats s"

definition reset_stats :: "OptimizedRaftProcessor \<Rightarrow> OptimizedRaftProcessor" where
  "reset_stats s = s\<lparr>op_stats := default_stats\<rparr>"

section \<open>Forwarding and deduplication\<close>

text \<open>The forwarder counts, and sends nothing.\<close>

definition forward_message_zero_copy :: "bytes \<Rightarrow> u64 list \<Rightarrow> (ProcessingStats, unit) action" where
  "forward_message_zero_copy serialized target_nodes = act_update (\<lambda>st. st\<lparr>
     zero_copy_forwards := zero_copy_forwards st + of_nat (length target_nodes),
     bytes_processed := bytes_processed st + of_nat (length serialized) * of_nat (length target_nodes)\<rparr>)"

definition can_forward_directly :: "RaftMsgType \<Rightarrow> bool" where
  "can_forward_directly t = (case t of
     MsgHeartbeat \<Rightarrow> True | MsgHeartbeatResponse \<Rightarrow> True
   | MsgRequestVote \<Rightarrow> True | MsgRequestVoteResponse \<Rightarrow> True
   | _ \<Rightarrow> False)"

text \<open>A hash, an array of 16 bytes, is a list of bytes; the hash map is an association list.\<close>

record MessageCache =
  seen_messages :: "(bytes \<times> instant) list"
  cache_hits :: u64
  cache_misses :: u64
  max_capacity :: nat

definition cache_new :: "nat \<Rightarrow> MessageCache" where
  "cache_new capacity = \<lparr>seen_messages = [], cache_hits = 0, cache_misses = 0, max_capacity = capacity\<rparr>"

definition is_duplicate :: "instant \<Rightarrow> bytes \<Rightarrow> MessageCache \<Rightarrow> bool \<times> MessageCache" where
  "is_duplicate now message_hash cache =
    (if map_of (seen_messages cache) message_hash \<noteq> None
     then (True, cache\<lparr>cache_hits := cache_hits cache + 1\<rparr>)
     else let seen = (if length (seen_messages cache) \<ge> max_capacity cache then [] else seen_messages cache)
       in (False, cache\<lparr>seen_messages := AList.update message_hash now seen, cache_misses := cache_misses cache + 1\<rparr>))"

definition get_cache_stats :: "MessageCache \<Rightarrow> u64 \<times> u64" where
  "get_cache_stats cache = (cache_hits cache, cache_misses cache)"


section \<open>Buffers do not leak\<close>

text \<open>The encodings of a batch, whatever the buffers held.\<close>

abbreviation encodings :: "processor_deps \<Rightarrow> EntriesMessage list \<Rightarrow> bytes list" where
  "encodings D ms \<equiv> map (encode_to_vec (pd_message D)) ms"

lemma bm_bytes_refit [simp]: "bm_bytes (refit grow n b) = []"
  by (simp add: refit_def bm_clear_def bm_reserve_def Let_def)

lemma bm_bytes_extend [simp]: "bm_bytes (bm_extend grow bs b) = bm_bytes b @ bs"
  by (simp add: bm_extend_def bm_reserve_def Let_def)

lemma get_buffer_empty: "get_buffer grow n sb = (c, sb') \<Longrightarrow> bm_bytes (buffer_at c sb') = []"
  by (auto simp: get_buffer_def buffer_at_def Let_def split: if_splits)

lemma reuse_count_get_buffer: "get_buffer grow n sb = (c, sb') \<Longrightarrow> reuse_count sb' = reuse_count sb + 1"
  by (auto simp: get_buffer_def Let_def split: if_splits)

lemma reuse_count_set_buffer [simp]: "reuse_count (set_buffer c b sb) = reuse_count sb"
  by (simp add: set_buffer_def split: BufferClass.split)

lemma serialize_message_clean:
  obtains sb' where "serialize_message_optimized D m sb = (Inr (encode_to_vec (pd_message D) m), sb')"
    and "reuse_count sb' = reuse_count sb + 1"
proof -
  obtain c sb1 where g: "get_buffer (pd_grow D) (estimate_message_size m) sb = (c, sb1)" by fastforce
  then show thesis
    using that get_buffer_empty[OF g] reuse_count_get_buffer[OF g]
    by (simp add: serialize_message_optimized_def serialize_message_def Let_def)
qed

lemma serialize_loop_clean:
  "\<exists>sb'. serialize_loop D results ms sb = (Inr (results @ encodings D ms), sb')
     \<and> reuse_count sb' = reuse_count sb + of_nat (length ms)"
proof (induction ms arbitrary: results sb)
  case Nil
  then show ?case by simp
next
  case (Cons m ms)
  obtain sb1 where 1: "serialize_message_optimized D m sb = (Inr (encode_to_vec (pd_message D) m), sb1)"
    and r: "reuse_count sb1 = reuse_count sb + 1" by (rule serialize_message_clean)
  from Cons.IH[of "results @ [encode_to_vec (pd_message D) m]" sb1] show ?case
    by (auto simp: act_then_apply 1 r add.commute add.left_commute)
qed

text \<open>What a processed batch leaves: the queues are not touched.\<close>

fun queue_of :: "BatchPriority \<Rightarrow> OptimizedRaftProcessor \<Rightarrow> batch_queue" where
  "queue_of Election s = election_queue s"
| "queue_of Heartbeat s = heartbeat_queue s"
| "queue_of Normal s = normal_queue s"
| "queue_of Snapshot s = snapshot_queue s"

definition waiting :: "BatchPriority \<Rightarrow> OptimizedRaftProcessor \<Rightarrow> EntriesMessage list" where
  "waiting c s = concat (queue_of c s)"

lemma process_batch_owned_ok:
  obtains t where "process_batch_owned D now ms c s = (Inr (encodings D ms), t)"
    and "\<And>k. queue_of k t = queue_of k s"
    and "messages_processed (op_stats t) = messages_processed (op_stats s) + of_nat (length ms)"
    and "batches_processed (op_stats t) = batches_processed (op_stats s) + 1"
proof -
  obtain sb where sb: "serialize_loop D [] ms (serialization_buffer s) = (Inr (encodings D ms), sb)"
    using serialize_loop_clean[of D "[]" ms "serialization_buffer s"] by auto
  show thesis
  proof (rule that)
    show "process_batch_owned D now ms c s = (Inr (encodings D ms), s\<lparr>serialization_buffer := sb,
       op_stats := (op_stats s)\<lparr>
         messages_processed := messages_processed (op_stats s) + of_nat (length ms),
         bytes_processed := bytes_processed (op_stats s) + of_nat (sum_list (map estimate_message_size ms)),
         batches_processed := batches_processed (op_stats s) + 1,
         serialization_reuses := reuse_count sb\<rparr>\<rparr>)"
      by (simp add: process_batch_owned_def process_message_batch_ref_def on_buffer_def sb act_then_apply)
    show "queue_of k (s\<lparr>serialization_buffer := sb,
       op_stats := (op_stats s)\<lparr>
         messages_processed := messages_processed (op_stats s) + of_nat (length ms),
         bytes_processed := bytes_processed (op_stats s) + of_nat (sum_list (map estimate_message_size ms)),
         batches_processed := batches_processed (op_stats s) + 1,
         serialization_reuses := reuse_count sb\<rparr>\<rparr>) = queue_of k s" for k
      by (cases k) simp_all
  qed simp_all
qed

section \<open>Queues of batches\<close>

text \<open>The contract of a batched queue: what is pushed comes out in order, in batches within the limit.\<close>

locale batched_fifo =
  fixes push :: "'q \<Rightarrow> 'a \<Rightarrow> 'q" and pop :: "'q \<Rightarrow> ('a list \<times> 'q) option"
    and content :: "'q \<Rightarrow> 'a list" and well_formed :: "'q \<Rightarrow> bool" and limit :: nat
  assumes content_push: "well_formed q \<Longrightarrow> content (push q a) = content q @ [a]"
    and well_formed_push: "well_formed q \<Longrightarrow> well_formed (push q a)"
    and content_pop: "well_formed q \<Longrightarrow> pop q = Some (b, q') \<Longrightarrow>
          content q = b @ content q' \<and> well_formed q' \<and> b \<noteq> [] \<and> length b \<le> limit"
    and pop_None: "well_formed q \<Longrightarrow> pop q = None \<longleftrightarrow> content q = []"
begin

lemma content_pushes: "well_formed q \<Longrightarrow> content (foldl push q as) = content q @ as"
  by (induction as arbitrary: q) (simp_all add: content_push well_formed_push)

lemma content_le_pops:
  assumes "well_formed q" and "pop q = Some (b, q')"
  shows "length (content q') < length (content q)"
  using content_pop[OF assms] by auto

end

definition pop_front :: "'a list list \<Rightarrow> ('a list \<times> 'a list list) option" where
  "pop_front q = (case q of [] \<Rightarrow> None | b # rest \<Rightarrow> Some (b, rest))"

definition batches_ok :: "nat \<Rightarrow> 'a list list \<Rightarrow> bool" where
  "batches_ok limit q \<longleftrightarrow> (\<forall>b\<in>set q. b \<noteq> [] \<and> length b \<le> limit) \<and> (\<forall>b\<in>set (butlast q). length b = limit)"

lemma batches_ok_tl: "batches_ok limit (b # q) \<Longrightarrow> batches_ok limit q"
  by (cases q) (auto simp: batches_ok_def)

lemma concat_push: "concat (push_batched limit q m) = concat q @ [m]"
proof (cases "q = [] \<or> length (last q) \<ge> limit")
  case True
  then show ?thesis by (simp add: push_batched_def)
next
  case False
  then have "concat q = concat (butlast q) @ last q"
    by (metis append_butlast_last_id concat.simps concat_append append_Nil2)
  with False show ?thesis by (simp add: push_batched_def Let_def)
qed

lemma batches_ok_push:
  assumes "batches_ok limit q" and "0 < limit"
  shows "batches_ok limit (push_batched limit q m)"
proof (cases "q = [] \<or> length (last q) \<ge> limit")
  case True
  have "\<forall>b\<in>set q. length b = limit" if "q \<noteq> []"
  proof -
    have "q = butlast q @ [last q]" using that by simp
    moreover have "length (last q) = limit" using True that assms(1)
      by (auto simp: batches_ok_def intro: antisym)
    ultimately show ?thesis using assms(1) unfolding batches_ok_def
      by (metis Un_iff empty_iff empty_set set_ConsD set_append)
  qed
  then have "\<forall>b\<in>set q. length b = limit" by (cases "q = []") simp_all
  moreover have "push_batched limit q m = q @ [[m]]" using True by (simp add: push_batched_def)
  ultimately show ?thesis using assms by (simp add: batches_ok_def)
next
  case False
  then have "push_batched limit q m = butlast q @ [last q @ [m]]" by (simp add: push_batched_def Let_def)
  moreover have "\<forall>b\<in>set (butlast q). b \<noteq> [] \<and> length b \<le> limit"
    using assms by (auto simp: batches_ok_def dest: in_set_butlastD)
  ultimately show ?thesis using assms False by (simp add: batches_ok_def)
qed

lemma batched_fifo_push: "0 < limit \<Longrightarrow> batched_fifo (push_batched limit) pop_front concat (batches_ok limit) limit"
proof
  fix q :: batch_queue and b q'
  assume limit: "0 < limit" and q: "batches_ok limit q"
  show "pop_front q = Some (b, q') \<Longrightarrow> concat q = b @ concat q' \<and> batches_ok limit q' \<and> b \<noteq> [] \<and> length b \<le> limit"
    using q batches_ok_tl[of limit b q'] by (cases q) (simp_all add: pop_front_def, auto simp: batches_ok_def)
  show "(pop_front q = None) = (concat q = [])"
    using q by (cases q) (auto simp: pop_front_def batches_ok_def)
qed (simp_all add: concat_push batches_ok_push)

interpretation elections: batched_fifo "push_batched 32" pop_front concat "batches_ok 32" 32
  by (rule batched_fifo_push) simp

interpretation heartbeats: batched_fifo "push_batched 64" pop_front concat "batches_ok 64" 64
  by (rule batched_fifo_push) simp

interpretation normals: batched_fifo "push_batched 16" pop_front concat "batches_ok 16" 16
  by (rule batched_fifo_push) simp

interpretation snapshots: batched_fifo "push_batched 4" pop_front concat "batches_ok 4" 4
  by (rule batched_fifo_push) simp


section \<open>What goes in and what comes out\<close>

definition class_limit :: "BatchPriority \<Rightarrow> nat" where
  "class_limit c = (case c of Election \<Rightarrow> 32 | Heartbeat \<Rightarrow> 64 | Normal \<Rightarrow> 16 | Snapshot \<Rightarrow> 4)"

lemma class_limit_positive: "0 < class_limit c"
  by (cases c) (simp_all add: class_limit_def)

lemma queue_message_ok:
  obtains t where "queue_message m s = (Inr (), t)"
    and "queue_of (class_of m) t = push_batched (class_limit (class_of m)) (queue_of (class_of m) s) m"
    and "\<And>k. k \<noteq> class_of m \<Longrightarrow> queue_of k t = queue_of k s"
proof (rule that)
  show "queue_message m s = (Inr (), snd (queue_message m s))" by (simp add: queue_message_def)
  show "queue_of (class_of m) (snd (queue_message m s))
      = push_batched (class_limit (class_of m)) (queue_of (class_of m) s) m"
    by (cases "class_of m") (simp_all add: queue_message_def class_limit_def)
  show "k \<noteq> class_of m \<Longrightarrow> queue_of k (snd (queue_message m s)) = queue_of k s" for k
    by (cases "class_of m"; cases k) (simp_all add: queue_message_def)
qed

lemmas class_order = less_BatchPriority_def less_eq_BatchPriority_def batch_rank_def

lemma urgent_class: "(\<And>k. k < c \<Longrightarrow> P k) \<Longrightarrow>
  (c \<noteq> Election \<longrightarrow> P Election) \<and> (c = Normal \<or> c = Snapshot \<longrightarrow> P Heartbeat) \<and> (c = Snapshot \<longrightarrow> P Normal)"
  by (cases c) (simp_all add: class_order)

lemma next_batch_takes:
  assumes "queue_of c s = b # rest" and "\<And>k. k < c \<Longrightarrow> queue_of k s = []"
  obtains t where "process_next_batch D now s = (Inr (Some (encodings D b)), t)"
    and "queue_of c t = rest" and "\<And>k. k \<noteq> c \<Longrightarrow> queue_of k t = queue_of k s"
proof -
  define u where "u = (case c of Election \<Rightarrow> s\<lparr>election_queue := rest\<rparr> | Heartbeat \<Rightarrow> s\<lparr>heartbeat_queue := rest\<rparr>
    | Normal \<Rightarrow> s\<lparr>normal_queue := rest\<rparr> | Snapshot \<Rightarrow> s\<lparr>snapshot_queue := rest\<rparr>)"
  have u: "queue_of c u = rest" "k \<noteq> c \<Longrightarrow> queue_of k u = queue_of k s" for k
    by (cases c; cases k; simp add: u_def)+
  obtain t where t: "process_batch_owned D now b c u = (Inr (encodings D b), t)" "\<And>k. queue_of k t = queue_of k u"
    using process_batch_owned_ok[of D now b c u] by metis
  have "process_next_batch D now s = (Inr (Some (encodings D b)), t)"
    using assms(1) urgent_class[where P = "\<lambda>k. queue_of k s = []", OF assms(2)] t(1)
    by (cases c) (simp_all add: process_next_batch_def act_then_apply u_def)
  with t u show thesis by (intro that[of t]) simp_all
qed

lemma next_batch_none: "(\<And>k. queue_of k s = []) \<Longrightarrow> process_next_batch D now s = (Inr None, s)"
  using queue_of.simps[of s] by (simp add: process_next_batch_def)

lemma most_urgent:
  obtains "\<And>k. queue_of k s = []"
  | c b rest where "queue_of c s = b # rest" and "\<And>k. k < c \<Longrightarrow> queue_of k s = []"
proof (cases "\<exists>c. queue_of c s \<noteq> []")
  case True
  then obtain c where c: "queue_of c s \<noteq> []" "\<And>k. queue_of k s \<noteq> [] \<Longrightarrow> batch_rank c \<le> batch_rank k"
    using ex_has_least_nat[of "\<lambda>c. queue_of c s \<noteq> []" _ batch_rank] by blast
  then have "queue_of k s = []" if "k < c" for k
    using that by (fastforce simp: less_BatchPriority_def)
  with c(1) that(2) show thesis by (cases "queue_of c s") auto
qed (use that(1) in blast)

datatype op_event = Submitted EntriesMessage | Processed "bytes list" | Nothing_waits | Failed RaftError

text \<open>The steps of a processor.\<close>

inductive op_step :: "processor_deps \<Rightarrow> OptimizedRaftProcessor \<Rightarrow> op_event \<Rightarrow> OptimizedRaftProcessor \<Rightarrow> bool" for D where
  "queue_message m s = (Inr (), t) \<Longrightarrow> op_step D s (Submitted m) t"
| "process_next_batch D now s = (Inr (Some out), t) \<Longrightarrow> op_step D s (Processed out) t"
| "process_next_batch D now s = (Inr None, t) \<Longrightarrow> op_step D s Nothing_waits t"
| "process_next_batch D now s = (Inl e, t) \<Longrightarrow> op_step D s (Failed e) t"

inductive_cases op_stepE: "op_step D s e t"

definition submitted :: "BatchPriority \<Rightarrow> op_event list \<Rightarrow> EntriesMessage list" where
  "submitted c evs = concat (map (\<lambda>e. case e of Submitted m \<Rightarrow> if class_of m = c then [m] else [] | _ \<Rightarrow> []) evs)"

definition outputs :: "op_event list \<Rightarrow> bytes list list" where
  "outputs evs = concat (map (\<lambda>e. case e of Processed out \<Rightarrow> [out] | _ \<Rightarrow> []) evs)"

definition taken :: "BatchPriority \<Rightarrow> (BatchPriority \<times> EntriesMessage list) list \<Rightarrow> EntriesMessage list" where
  "taken c batches = concat (map snd (filter (\<lambda>b. fst b = c) batches))"

lemma event_list_simps [simp]:
  "submitted c [] = []" "outputs [] = []" "taken c [] = []"
  "submitted c (Submitted m # evs) = (if class_of m = c then m # submitted c evs else submitted c evs)"
  "submitted c (Processed out # evs) = submitted c evs" "submitted c (Nothing_waits # evs) = submitted c evs"
  "submitted c (Failed e # evs) = submitted c evs"
  "outputs (Submitted m # evs) = outputs evs" "outputs (Processed out # evs) = out # outputs evs"
  "outputs (Nothing_waits # evs) = outputs evs" "outputs (Failed e # evs) = outputs evs"
  "taken c ((k, b) # batches) = (if k = c then b @ taken c batches else taken c batches)"
  by (simp_all add: submitted_def outputs_def taken_def)

definition processor_ok :: "OptimizedRaftProcessor \<Rightarrow> bool" where
  "processor_ok s \<longleftrightarrow> (\<forall>c. batches_ok (class_limit c) (queue_of c s))"

lemma processor_ok_new: "processor_ok processor_new" "waiting c processor_new = []"
proof -
  have "queue_of c processor_new = []" for c by (cases c) (simp_all add: processor_new_def)
  then show "processor_ok processor_new" "waiting c processor_new = []"
    by (simp_all add: processor_ok_def batches_ok_def waiting_def)
qed

lemma next_batch_outcome:
  assumes "processor_ok s"
  obtains "process_next_batch D now s = (Inr None, s)" and "\<And>k. waiting k s = []"
  | c b t where "process_next_batch D now s = (Inr (Some (encodings D b)), t)" and "processor_ok t"
      and "b \<noteq> []" and "length b \<le> class_limit c" and "waiting c s = b @ waiting c t"
      and "\<And>k. k \<noteq> c \<Longrightarrow> waiting k t = waiting k s" and "\<And>k. k < c \<Longrightarrow> waiting k s = []"
proof (cases rule: most_urgent[of s])
  case 1
  then show thesis by (intro that(1) next_batch_none) (simp_all add: waiting_def)
next
  case (2 c b rest)
  obtain t where t: "process_next_batch D now s = (Inr (Some (encodings D b)), t)"
    "queue_of c t = rest" "\<And>k. k \<noteq> c \<Longrightarrow> queue_of k t = queue_of k s"
    using next_batch_takes[OF 2] by metis
  have b: "batches_ok (class_limit c) (b # rest)" using assms 2(1) unfolding processor_ok_def by metis
  have "batches_ok (class_limit k) (queue_of k t)" for k
    using assms t b by (cases "k = c") (auto simp: processor_ok_def batches_ok_tl)
  then have "processor_ok t" by (simp add: processor_ok_def)
  moreover have "b \<noteq> []" "length b \<le> class_limit c" using b by (simp_all add: batches_ok_def)
  ultimately show thesis using t 2 by (intro that(2)[of b t c]) (simp_all add: waiting_def)
qed

text \<open>One step: a message is added to those of its class, or a batch of the most urgent class leaves.\<close>

lemma op_step_cases:
  assumes "op_step D s e t" and "processor_ok s"
  obtains (message) m where "e = Submitted m" "processor_ok t"
      "\<And>c. waiting c t = (if c = class_of m then waiting c s @ [m] else waiting c s)"
  | (batch) c b where "e = Processed (encodings D b)" "processor_ok t" "b \<noteq> []" "length b \<le> class_limit c"
      "waiting c s = b @ waiting c t" "\<And>k. k \<noteq> c \<Longrightarrow> waiting k t = waiting k s" "\<And>k. k < c \<Longrightarrow> waiting k s = []"
  | (idle) "e = Nothing_waits" "t = s" "\<And>c. waiting c s = []"
proof (cases "\<exists>m. e = Submitted m")
  case True
  then obtain m where e: "e = Submitted m" and q: "queue_message m s = (Inr (), t)"
    using assms(1) by (auto elim: op_stepE)
  obtain u where "queue_message m s = (Inr (), u)"
    and u: "queue_of (class_of m) u = push_batched (class_limit (class_of m)) (queue_of (class_of m) s) m"
    "\<And>k. k \<noteq> class_of m \<Longrightarrow> queue_of k u = queue_of k s" using queue_message_ok[of m s] by metis
  with q have t: "u = t" by simp
  have "batches_ok (class_limit c) (queue_of c t)" for c
    using assms(2) u batches_ok_push[OF _ class_limit_positive] unfolding t
    by (cases "c = class_of m") (auto simp: processor_ok_def)
  with u e show thesis by (intro message[of m]) (auto simp: processor_ok_def waiting_def concat_push t)
next
  case False
  have "\<exists>now r. process_next_batch D now s = (r, t)
      \<and> e = (case r of Inr (Some out) \<Rightarrow> Processed out | Inr None \<Rightarrow> Nothing_waits | Inl x \<Rightarrow> Failed x)"
    using assms(1) False by (elim op_stepE) force+
  then obtain now r where n: "process_next_batch D now s = (r, t)"
    and e: "e = (case r of Inr (Some out) \<Rightarrow> Processed out | Inr None \<Rightarrow> Nothing_waits | Inl x \<Rightarrow> Failed x)"
    by blast
  show thesis using assms(2)
  proof (cases rule: next_batch_outcome[of s D now])
    case 1 with n e show thesis by (intro idle) auto
  next
    case (2 c b u) with n e show thesis by (intro batch[of b c]) auto
  qed
qed


text \<open>
  C17: nothing is lost, doubled, reordered within a class or mixed with what a buffer held before. Whatever
  is queued and processed in whatever order, the outputs are the encodings of batches of one class each,
  not empty and within the limit of the class, and for every class the messages queued are those of its
  batches followed by those that still wait, in order. Processing never fails.
\<close>

theorem messages_conserved:
  assumes "run (op_step D) processor_new evs s"
  shows "\<exists>batches. outputs evs = map (encodings D \<circ> snd) batches
     \<and> (\<forall>c. submitted c evs = taken c batches @ waiting c s)
     \<and> (\<forall>(c, b) \<in> set batches. b \<noteq> [] \<and> length b \<le> class_limit c) \<and> (\<forall>e. Failed e \<notin> set evs)"
proof -
  have "run (op_step D) u evs s \<Longrightarrow> processor_ok u \<Longrightarrow> \<exists>batches. outputs evs = map (encodings D \<circ> snd) batches
     \<and> (\<forall>c. waiting c u @ submitted c evs = taken c batches @ waiting c s)
     \<and> (\<forall>(c, b) \<in> set batches. b \<noteq> [] \<and> length b \<le> class_limit c) \<and> (\<forall>e. Failed e \<notin> set evs)" for u
  proof (induction rule: run.induct)
    case (run_done u)
    then show ?case by (intro exI[of _ "[]"]) simp
  next
    case (run_step u e t evs s)
    from run_step.hyps(1) run_step.prems show ?case
    proof (cases rule: op_step_cases)
      case (message m)
      from run_step.IH[OF message(2)] obtain bs where bs: "outputs evs = map (encodings D \<circ> snd) bs"
        "\<And>c. waiting c t @ submitted c evs = taken c bs @ waiting c s"
        "\<forall>(c, b) \<in> set bs. b \<noteq> [] \<and> length b \<le> class_limit c" "\<forall>e. Failed e \<notin> set evs" by blast
      have "waiting k u @ submitted k (e # evs) = taken k bs @ waiting k s" for k
        using message(1) message(3)[of k] bs(2)[of k] by (cases "k = class_of m") simp_all
      with message(1) bs show ?thesis by (intro exI[of _ bs]) simp
    next
      case (batch c b)
      from run_step.IH[OF batch(2)] obtain bs where bs: "outputs evs = map (encodings D \<circ> snd) bs"
        "\<And>c. waiting c t @ submitted c evs = taken c bs @ waiting c s"
        "\<forall>(c, b) \<in> set bs. b \<noteq> [] \<and> length b \<le> class_limit c" "\<forall>e. Failed e \<notin> set evs" by blast
      have "waiting k u @ submitted k evs = taken k ((c, b) # bs) @ waiting k s" for k
        using batch(5) batch(6)[of k] bs(2)[of k] by (cases "k = c") simp_all
      with batch bs show ?thesis by (intro exI[of _ "(c, b) # bs"]) simp
    next
      case idle
      with run_step.IH run_step.prems show ?thesis by auto
    qed
  qed
  from this[OF assms processor_ok_new(1)] show ?thesis by (simp add: processor_ok_new)
qed

text \<open>All that waits, by urgency.\<close>

definition all_waiting :: "OptimizedRaftProcessor \<Rightarrow> EntriesMessage list" where
  "all_waiting s = waiting Election s @ waiting Heartbeat s @ waiting Normal s @ waiting Snapshot s"

text \<open>A message, an encoding and a growth policy for concrete inputs.\<close>

definition sample_message :: "RaftMsgType \<Rightarrow> u64 \<Rightarrow> EntriesMessage" where
  "sample_message t i = \<lparr>msg_type = t, msg_to = i, msg_from = 0, msg_body = [], msg_entries = []\<rparr>"

definition sample_deps :: processor_deps where
  "sample_deps = \<lparr>pd_message = \<lparr>encode_to_vec = \<lambda>m. u64_le (msg_to m), decode = \<lambda>bs. Inl ''unused''\<rparr>, pd_grow = max\<rparr>"

lemma sample_run:
  obtains s where "run (op_step sample_deps) processor_new [Submitted (sample_message MsgAppend 1),
      Submitted (sample_message MsgHeartbeat 2), Processed [u64_le 2]] s"
    and "all_waiting s = [sample_message MsgAppend 1]"
proof -
  define m1 m2 where m: "m1 = sample_message MsgAppend 1" "m2 = sample_message MsgHeartbeat 2"
  define s1 where "s1 = snd (queue_message m1 processor_new)"
  define s2 where "s2 = snd (queue_message m2 s1)"
  have "class_of m1 = Normal" "class_of m2 = Heartbeat"
    by (simp_all add: m sample_message_def from_message_type_def)
  then have q: "queue_of Election s2 = []" "queue_of Heartbeat s2 = [[m2]]"
    by (simp_all add: s1_def s2_def queue_message_def processor_new_def push_batched_def)
  then have "k < Heartbeat \<Longrightarrow> queue_of k s2 = []" for k by (cases k) (simp_all add: class_order)
  from next_batch_takes[OF q(2) this] obtain t
    where t: "process_next_batch sample_deps 0 s2 = (Inr (Some (encodings sample_deps [m2])), t)"
    and w: "queue_of Heartbeat t = []" "\<And>k. k \<noteq> Heartbeat \<Longrightarrow> queue_of k t = queue_of k s2" by metis
  have "encodings sample_deps [m2] = [u64_le 2]" by (simp add: sample_deps_def m sample_message_def)
  with t have "process_next_batch sample_deps 0 s2 = (Inr (Some [u64_le 2]), t)" by simp
  then have "run (op_step sample_deps) processor_new [Submitted m1, Submitted m2, Processed [u64_le 2]] t"
    by (intro run.intros op_step.intros) (simp_all add: s1_def s2_def queue_message_def)
  moreover have "queue_of Normal s2 = [[m1]]" "queue_of Snapshot s2 = []"
    using \<open>class_of m1 = Normal\<close> \<open>class_of m2 = Heartbeat\<close>
    by (simp_all add: s1_def s2_def queue_message_def processor_new_def push_batched_def)
  then have "all_waiting t = [m1]" using w(1) w(2)[of Election] w(2)[of Normal] w(2)[of Snapshot] q
    by (simp add: all_waiting_def waiting_def)
  ultimately show thesis using m that by simp
qed

theorem messages_conserved_witness:
  "\<exists>s batches. [[u64_le 2]] = map (encodings sample_deps \<circ> snd) batches
     \<and> submitted Normal [Submitted (sample_message MsgAppend 1), Submitted (sample_message MsgHeartbeat 2),
          Processed [u64_le 2]] = taken Normal batches @ waiting Normal s"
proof -
  obtain s where "run (op_step sample_deps) processor_new [Submitted (sample_message MsgAppend 1),
      Submitted (sample_message MsgHeartbeat 2), Processed [u64_le 2]] s" using sample_run by blast
  from messages_conserved[OF this] obtain batches where
    "outputs [Submitted (sample_message MsgAppend 1), Submitted (sample_message MsgHeartbeat 2),
       Processed [u64_le 2]] = map (encodings sample_deps \<circ> snd) batches"
    and "submitted Normal [Submitted (sample_message MsgAppend 1), Submitted (sample_message MsgHeartbeat 2),
          Processed [u64_le 2]] = taken Normal batches @ waiting Normal s" by blast
  then have "[[u64_le 2]] = map (encodings sample_deps \<circ> snd) batches
     \<and> submitted Normal [Submitted (sample_message MsgAppend 1), Submitted (sample_message MsgHeartbeat 2),
          Processed [u64_le 2]] = taken Normal batches @ waiting Normal s" by simp
  then show ?thesis by (intro exI)
qed

text \<open>The caller's loop: \<open>n\<close> calls, up to the first that finds nothing.\<close>

primrec drain :: "processor_deps \<Rightarrow> instant \<Rightarrow> nat \<Rightarrow> (OptimizedRaftProcessor, bytes list list) action" where
  "drain D now 0 = act_return []"
| "drain D now (Suc n) = act_then (process_next_batch D now) (\<lambda>r. case r of
     None \<Rightarrow> act_return []
   | Some out \<Rightarrow> act_then (drain D now n) (\<lambda>outs. act_return (out # outs)))"

lemma all_waiting_take:
  assumes "waiting c s = b @ waiting c t" and "\<And>k. k \<noteq> c \<Longrightarrow> waiting k t = waiting k s"
    and "\<And>k. k < c \<Longrightarrow> waiting k s = []"
  shows "all_waiting s = b @ all_waiting t"
  using assms(1,2) urgent_class[where P = "\<lambda>k. waiting k s = []", OF assms(3)]
  by (cases c) (simp_all add: all_waiting_def)

text \<open>
  Without new messages, calling the processor as often as there are messages, or more often, hands out
  every message that waits, elections first, then heartbeats, then the other ones and snapshots last,
  each class in the order it was queued; then nothing waits.
\<close>

theorem drained_by_urgency:
  assumes "run (op_step D) processor_new evs s" and "length (all_waiting s) \<le> n"
  shows "\<exists>outs t. drain D now n s = (Inr outs, t) \<and> concat outs = encodings D (all_waiting s) \<and> all_waiting t = []"
proof -
  have "processor_ok s" using assms(1) processor_ok_new(1)
    by (induction rule: run.induct) (auto elim: op_step_cases)
  then show ?thesis using assms(2)
  proof (induction n arbitrary: s)
    case 0
    then show ?case by simp
  next
    case (Suc n)
    show ?case using Suc.prems(1)
    proof (cases rule: next_batch_outcome[of s D now])
      case 1
      then show ?thesis by (simp add: act_then_apply all_waiting_def)
    next
      case (2 c b t)
      then have w: "all_waiting s = b @ all_waiting t" using all_waiting_take by metis
      then have "length (all_waiting s) = length b + length (all_waiting t)" by simp
      moreover have "0 < length b" using 2(3) by simp
      ultimately have "length (all_waiting t) \<le> n" using Suc.prems(2) by linarith
      from Suc.IH[OF 2(2) this] 2(1) w show ?thesis by (auto simp: act_then_apply)
    qed
  qed
qed

theorem drained_by_urgency_witness:
  "\<exists>s outs t. all_waiting s = [sample_message MsgAppend 1] \<and> drain sample_deps 0 1 s = (Inr outs, t)
     \<and> concat outs = encodings sample_deps [sample_message MsgAppend 1] \<and> all_waiting t = []"
proof -
  obtain s where s: "run (op_step sample_deps) processor_new [Submitted (sample_message MsgAppend 1),
      Submitted (sample_message MsgHeartbeat 2), Processed [u64_le 2]] s"
    "all_waiting s = [sample_message MsgAppend 1]" by (rule sample_run)
  with drained_by_urgency[OF s(1), where n = 1] show ?thesis by auto
qed


section \<open>Starvation\<close>

definition submit_then_process :: "processor_deps \<Rightarrow> instant \<Rightarrow> EntriesMessage \<Rightarrow> (OptimizedRaftProcessor, unit) action" where
  "submit_then_process D now m = act_then (queue_message m) (\<lambda>_. act_then (process_next_batch D now) (\<lambda>_. act_return ()))"

lemma urgent_message_served:
  assumes "class_of m < c"
  obtains t where "submit_then_process D now m s = (Inr (), t)" and "queue_of c t = queue_of c s"
proof -
  obtain u where u: "queue_message m s = (Inr (), u)"
    "queue_of (class_of m) u = push_batched (class_limit (class_of m)) (queue_of (class_of m) s) m"
    "\<And>k. k \<noteq> class_of m \<Longrightarrow> queue_of k u = queue_of k s" using queue_message_ok[of m s] by metis
  from u(2) have n: "queue_of (class_of m) u \<noteq> []" by (simp add: push_batched_def Let_def)
  show thesis
  proof (cases rule: most_urgent[of u])
    case 1
    with n show thesis by simp
  next
    case (2 k b rest)
    have "\<not> class_of m < k" using 2(2)[of "class_of m"] n by blast
    then have "k \<noteq> c" using assms by auto
    obtain t where t: "process_next_batch D now u = (Inr (Some (encodings D b)), t)"
      "\<And>k'. k' \<noteq> k \<Longrightarrow> queue_of k' t = queue_of k' u" using next_batch_takes[OF 2] by metis
    have "queue_of c t = queue_of c s" using t(2)[of c] u(3)[of c] \<open>k \<noteq> c\<close> assms by auto
    with t(1) u(1) show thesis by (intro that[of t]) (simp_all add: submit_then_process_def act_then_apply)
  qed
qed

text \<open>
  Urgency has no bound. As long as a more urgent message is queued before each call, no message of a
  class is ever processed, however many calls are made: its queue stays as it is.
\<close>

theorem urgent_messages_starve:
  assumes "\<forall>m \<in> set ms. class_of m < c"
  shows "\<exists>t. act_each (submit_then_process D now) ms s = (Inr (), t) \<and> queue_of c t = queue_of c s"
  using assms
proof (induction ms arbitrary: s)
  case Nil
  then show ?case by simp
next
  case (Cons m ms)
  then obtain u where u: "submit_then_process D now m s = (Inr (), u)" "queue_of c u = queue_of c s"
    using urgent_message_served[of m c D now s] by auto
  from Cons.IH[of u] Cons.prems u show ?case by (simp add: act_then_apply)
qed

theorem urgent_messages_starve_witness:
  "\<exists>t. act_each (submit_then_process sample_deps 0) (replicate 1000 (sample_message MsgHeartbeat 2))
      (processor_new\<lparr>snapshot_queue := [[sample_message MsgSnapshot 1]]\<rparr>) = (Inr (), t)
     \<and> snapshot_queue t = [[sample_message MsgSnapshot 1]]"
proof -
  have "\<forall>m \<in> set (replicate 1000 (sample_message MsgHeartbeat 2)). class_of m < Snapshot"
    by (simp add: sample_message_def from_message_type_def class_order)
  from urgent_messages_starve[OF this, of sample_deps 0 "processor_new\<lparr>snapshot_queue := [[sample_message MsgSnapshot 1]]\<rparr>"]
  show ?thesis by simp
qed

section \<open>The cache of seen messages\<close>

text \<open>The answers to a sequence of questions, each asked at a time.\<close>

fun ask_all :: "(instant \<times> bytes) list \<Rightarrow> MessageCache \<Rightarrow> bool list \<times> MessageCache" where
  "ask_all [] cache = ([], cache)"
| "ask_all ((now, h) # qs) cache = (case is_duplicate now h cache of (a, c1) \<Rightarrow>
     case ask_all qs c1 of (as, c2) \<Rightarrow> (a # as, c2))"

lemma ask_all_append: "ask_all (qs @ rs) cache = (case ask_all qs cache of (as, c1) \<Rightarrow>
    case ask_all rs c1 of (bs, c2) \<Rightarrow> (as @ bs, c2))"
  by (induction qs cache rule: ask_all.induct) (auto split: prod.splits)

lemma ask_all_Cons:
  "fst (ask_all ((now, h) # qs) cache) = fst (is_duplicate now h cache) # fst (ask_all qs (snd (is_duplicate now h cache)))"
  "snd (ask_all ((now, h) # qs) cache) = snd (ask_all qs (snd (is_duplicate now h cache)))"
  by (simp_all split: prod.split)

lemma fst_ask_all_append: "fst (ask_all (qs @ rs) cache) = fst (ask_all qs cache) @ fst (ask_all rs (snd (ask_all qs cache)))"
  by (simp add: ask_all_append split: prod.split)

lemma snd_ask_all_append: "snd (ask_all (qs @ rs) cache) = snd (ask_all rs (snd (ask_all qs cache)))"
  by (simp add: ask_all_append split: prod.split)

declare ask_all.simps(2) [simp del]

abbreviation seen_hashes :: "MessageCache \<Rightarrow> bytes set" where
  "seen_hashes cache \<equiv> fst ` set (seen_messages cache)"

lemma map_of_None_iff: "map_of xs k \<noteq> None \<longleftrightarrow> k \<in> fst ` set xs"
  by (simp add: map_of_eq_None_iff)

lemma update_absent: "k \<notin> fst ` set xs \<Longrightarrow> AList.update k v xs = xs @ [(k, v)]"
  by (induction xs) auto

text \<open>Every answer counts as one hit or one miss, and a remembered hash is one that was asked for.\<close>

definition cache_ok :: "bytes set \<Rightarrow> nat \<Rightarrow> MessageCache \<Rightarrow> bool" where
  "cache_ok H n cache \<longleftrightarrow> seen_hashes cache \<subseteq> H \<and> distinct (map fst (seen_messages cache))
     \<and> length (seen_messages cache) \<le> max 1 (max_capacity cache)
     \<and> cache_hits cache + cache_misses cache = of_nat n"

lemma is_duplicate_answer: "fst (is_duplicate now h cache) \<longleftrightarrow> h \<in> seen_hashes cache"
  by (simp add: is_duplicate_def map_of_None_iff Let_def del: map_of_eq_None_iff not_None_eq)

lemma is_duplicate_known: "h \<in> seen_hashes cache \<Longrightarrow> is_duplicate now h cache = (True, cache\<lparr>cache_hits := cache_hits cache + 1\<rparr>)"
  by (simp add: is_duplicate_def map_of_None_iff del: map_of_eq_None_iff not_None_eq)

lemma is_duplicate_new: "h \<notin> seen_hashes cache \<Longrightarrow> is_duplicate now h cache = (False, cache\<lparr>
    seen_messages := (if length (seen_messages cache) \<ge> max_capacity cache then [] else seen_messages cache) @ [(h, now)],
    cache_misses := cache_misses cache + 1\<rparr>)"
  by (simp add: is_duplicate_def map_of_None_iff update_absent Let_def del: map_of_eq_None_iff not_None_eq)

lemma cache_ok_step:
  assumes "cache_ok H n cache"
  shows "cache_ok (insert h H) (Suc n) (snd (is_duplicate now h cache))"
proof (cases "h \<in> seen_hashes cache")
  case True
  with assms show ?thesis by (auto simp: is_duplicate_known cache_ok_def ac_simps)
next
  case False
  with assms show ?thesis by (auto simp: is_duplicate_new cache_ok_def ac_simps)
qed


lemma length_ask_all: "length (fst (ask_all qs cache)) = length qs"
  by (induction qs arbitrary: cache) (auto simp: ask_all_Cons)

lemma ask_all_keeps: "cache_ok H n cache \<Longrightarrow>
    cache_ok (H \<union> snd ` set qs) (n + length qs) (snd (ask_all qs cache))"
proof (induction qs cache arbitrary: H n rule: ask_all.induct)
  case (1 cache)
  then show ?case by simp
next
  case (2 now h qs cache)
  obtain a c1 where d: "is_duplicate now h cache = (a, c1)" by fastforce
  with cache_ok_step[OF 2(2), of h now] have "cache_ok (insert h H) (Suc n) c1" by simp
  from 2(1)[OF d[symmetric] this] d show ?case by (simp add: ask_all_Cons)
qed

lemma max_capacity_is_duplicate [simp]: "max_capacity (snd (is_duplicate now h cache)) = max_capacity cache"
  by (simp add: is_duplicate_def Let_def)

lemma ask_all_snoc: "snd (ask_all (qs @ [(now, h)]) cache) = snd (is_duplicate now h (snd (ask_all qs cache)))"
  by (simp add: snd_ask_all_append ask_all_Cons)

lemma max_capacity_ask_all: "max_capacity (snd (ask_all qs cache)) = max_capacity cache"
  by (induction qs arbitrary: cache) (auto simp: ask_all_Cons)

lemma ask_all_remembers:
  assumes "card (snd ` set qs) \<le> capacity"
  shows "seen_hashes (snd (ask_all qs (cache_new capacity))) = snd ` set qs"
  using assms
proof (induction qs rule: rev_induct)
  case Nil
  then show ?case by (simp add: cache_new_def)
next
  case (snoc q qs)
  obtain now h where q: "q = (now, h)" by (cases q)
  let ?c = "snd (ask_all qs (cache_new capacity))"
  have "card (snd ` set qs) \<le> card (snd ` set (qs @ [q]))" by (rule card_mono) auto
  with snoc have seen: "seen_hashes ?c = snd ` set qs" by simp
  have "cache_ok {} 0 (cache_new capacity)" by (simp add: cache_ok_def cache_new_def)
  from ask_all_keeps[OF this, of qs] have "distinct (map fst (seen_messages ?c))" by (simp add: cache_ok_def)
  from distinct_card[OF this] seen have len: "length (seen_messages ?c) = card (snd ` set qs)" by simp
  show ?case
  proof (cases "h \<in> snd ` set qs")
    case True
    with seen have "seen_hashes (snd (is_duplicate now h ?c)) = snd ` set qs" by (simp add: is_duplicate_known)
    with True show ?thesis by (simp add: ask_all_snoc q insert_absorb)
  next
    case False
    then have "card (snd ` set (qs @ [q])) = Suc (card (snd ` set qs))" by (simp add: q)
    with len snoc.prems have "length (seen_messages ?c) < capacity" by simp
    with False seen have "seen_hashes (snd (is_duplicate now h ?c)) = insert h (snd ` set qs)"
      by (simp add: is_duplicate_new max_capacity_ask_all) (simp add: cache_new_def)
    then show ?thesis by (simp add: ask_all_snoc q)
  qed
qed

lemma ask_all_nth:
  "i < length qs \<Longrightarrow> fst (ask_all qs cache) ! i \<longleftrightarrow> snd (qs ! i) \<in> seen_hashes (snd (ask_all (take i qs) cache))"
proof (induction qs cache arbitrary: i rule: ask_all.induct)
  case (2 now h qs cache)
  obtain a c1 where d: "is_duplicate now h cache = (a, c1)" by fastforce
  show ?case
  proof (cases i)
    case 0
    with is_duplicate_answer[of now h cache] show ?thesis by (simp add: ask_all_Cons)
  next
    case (Suc j)
    with 2(1)[OF d[symmetric], of j] 2(2) d show ?thesis by (simp add: ask_all_Cons)
  qed
qed simp

text \<open>
  The cache never calls a message a duplicate that it was not asked about before, and while at most
  as many different messages were asked about as it can hold, its answers are exact: a message is a duplicate
  if and only if it was asked about before. It counts every question and holds at most its capacity, or one.
\<close>

theorem cache_answers:
  assumes "ask_all qs (cache_new capacity) = (answers, cache)"
  shows "(\<forall>i < length qs. answers ! i \<longrightarrow> snd (qs ! i) \<in> snd ` set (take i qs))
     \<and> (card (snd ` set qs) \<le> capacity \<longrightarrow> (\<forall>i < length qs. answers ! i = (snd (qs ! i) \<in> snd ` set (take i qs))))
     \<and> length answers = length qs \<and> fst (get_cache_stats cache) + snd (get_cache_stats cache) = of_nat (length qs)
     \<and> length (seen_messages cache) \<le> max 1 capacity"
proof -
  have new: "cache_ok {} 0 (cache_new capacity)" by (simp add: cache_ok_def cache_new_def)
  have nth: "i < length qs \<Longrightarrow> answers ! i \<longleftrightarrow> snd (qs ! i) \<in> seen_hashes (snd (ask_all (take i qs) (cache_new capacity)))" for i
    using ask_all_nth[of i qs "cache_new capacity"] assms by simp
  have "seen_hashes (snd (ask_all (take i qs) (cache_new capacity))) \<subseteq> snd ` set (take i qs)" for i
    using ask_all_keeps[OF new, of "take i qs"] by (simp add: cache_ok_def)
  moreover have "seen_hashes (snd (ask_all (take i qs) (cache_new capacity))) = snd ` set (take i qs)"
    if "card (snd ` set qs) \<le> capacity" for i
  proof (rule ask_all_remembers)
    have "card (snd ` set (take i qs)) \<le> card (snd ` set qs)"
      by (intro card_mono image_mono set_take_subset) simp
    with that show "card (snd ` set (take i qs)) \<le> capacity" by simp
  qed
  moreover have "cache_ok (snd ` set qs) (length qs) cache" using ask_all_keeps[OF new, of qs] assms by simp
  moreover have "max_capacity cache = capacity" using max_capacity_ask_all[of qs "cache_new capacity"] assms
    by (simp add: cache_new_def)
  ultimately show ?thesis using nth length_ask_all[of qs "cache_new capacity"] assms
    by (auto simp: cache_ok_def get_cache_stats_def)
qed

theorem cache_answers_witness:
  "\<exists>answers cache. ask_all [(0, [1]), (1, [2]), (2, [1])] (cache_new 2) = (answers, cache) \<and> answers ! 2"
proof -
  obtain answers cache where a: "ask_all [(0, [1]), (1, [2]), (2, [1])] (cache_new 2) = (answers, cache)" by fastforce
  have "snd ` set [(0 :: instant, [1 :: u8]), (1, [2]), (2, [1])] = {[1], [2]}" by auto
  then have "card (snd ` set [(0 :: instant, [1 :: u8]), (1, [2]), (2, [1])]) \<le> 2" by simp
  with cache_answers[OF a] have "answers ! 2" by simp
  with a show ?thesis by blast
qed

text \<open>
  Once the cache is full, one new message makes it forget everything: asked about as many different messages
  as it can hold and then about another one, it takes each of the former ones for new, the most recent too.
\<close>

theorem full_cache_forgets:
  assumes "length qs = capacity" and "distinct (map snd qs)" and "h \<notin> snd ` set qs" and "k \<in> snd ` set qs"
  shows "fst (ask_all (qs @ [(t1, h), (t2, k)]) (cache_new capacity)) = replicate capacity False @ [False, False]"
proof -
  let ?c = "snd (ask_all qs (cache_new capacity))"
  have "card (snd ` set qs) = capacity" using distinct_card[OF assms(2)] assms(1) by simp
  then have seen: "seen_hashes ?c = snd ` set qs" by (intro ask_all_remembers) simp
  have new: "cache_ok {} 0 (cache_new capacity)" by (simp add: cache_ok_def cache_new_def)
  from ask_all_keeps[OF this, of qs] have "distinct (map fst (seen_messages ?c))" by (simp add: cache_ok_def)
  from distinct_card[OF this] seen have len: "length (seen_messages ?c) = capacity"
    using \<open>card (snd ` set qs) = capacity\<close> by simp
  have "fst (ask_all qs (cache_new capacity)) = replicate capacity False"
  proof (rule nth_equalityI)
    show "length (fst (ask_all qs (cache_new capacity))) = length (replicate capacity False)"
      using assms(1) by (simp add: length_ask_all)
    fix i assume "i < length (fst (ask_all qs (cache_new capacity)))"
    then have i: "i < length qs" by (simp add: length_ask_all)
    have "card (snd ` set (take i qs)) \<le> capacity"
      using \<open>card (snd ` set qs) = capacity\<close> by (metis List.finite_set card_mono finite_imageI image_mono set_take_subset)
    then have "fst (ask_all qs (cache_new capacity)) ! i \<longleftrightarrow> snd (qs ! i) \<in> snd ` set (take i qs)"
      using ask_all_nth[OF i] ask_all_remembers by blast
    moreover have "snd (qs ! i) \<notin> snd ` set (take i qs)"
    proof
      assume "snd (qs ! i) \<in> snd ` set (take i qs)"
      then have "map snd qs ! i \<in> set (take i (map snd qs))" using i by (simp add: take_map)
      then obtain j where "j < i" "map snd qs ! j = map snd qs ! i" using i by (auto simp: in_set_conv_nth)
      with nth_eq_iff_index_eq[OF assms(2), of j i] i show False by simp
    qed
    ultimately show "fst (ask_all qs (cache_new capacity)) ! i = replicate capacity False ! i"
      using i assms(1) by simp
  qed
  moreover have "max_capacity ?c = capacity" by (simp add: max_capacity_ask_all) (simp add: cache_new_def)
  then have "is_duplicate t1 h ?c = (False, ?c\<lparr>seen_messages := [(h, t1)], cache_misses := cache_misses ?c + 1\<rparr>)"
    using is_duplicate_new[of h ?c t1] assms(3) seen len by simp
  moreover have "fst (is_duplicate t2 k (?c\<lparr>seen_messages := [(h, t1)], cache_misses := cache_misses ?c + 1\<rparr>)) = False"
    using assms(3,4) by (subst is_duplicate_new) auto
  ultimately show ?thesis by (simp add: fst_ask_all_append ask_all_Cons)
qed

theorem full_cache_forgets_witness:
  "fst (ask_all ([(0, [1]), (1, [2])] @ [(2, [3]), (3, [2])]) (cache_new 2)) = replicate 2 False @ [False, False]"
  by (rule full_cache_forgets) simp_all

end
