(* ===== verification/Events.thy ===== *)
theory Events
  imports Auth "HOL-Library.AList"
begin

text \<open>
  \<open>src/src/management/events.rs\<close>: cluster events, filters, streams of events, their distribution to
  subscribers and the history. An unbounded channel of \<open>tokio\<close> is the list of the events sent and not
  yet received, with a flag for its receiver; a sender is the number of its channel. The value of a custom
  event (\<open>serde_json\<close>) is a type parameter, the clock an argument. The broadcaster is behind a
  mutable reference, so its operations do not overlap.
\<close>

section \<open>Events\<close>

datatype HealthStatus = Healthy | Degraded | Unhealthy | Unknown

record 'j ConfigChange =
  ch_field :: string
  ch_old_value :: 'j
  ch_new_value :: 'j

type_synonym system_time = int

datatype 'j ClusterEvent =
    LeaderElected u64 u64 "u64 option" system_time
  | LeadershipTransferred u64 u64 u64 duration system_time
  | LeaderSteppedDown u64 u64 string system_time
  | MemberAdded u64 MemberRole string system_time
  | MemberRemoved u64 string system_time
  | MemberRoleChanged u64 MemberRole MemberRole system_time
  | MemberHealthChanged u64 HealthStatus HealthStatus system_time
  | ConfigurationChanged u64 "'j ConfigChange list" system_time
  | SnapshotCompleted u64 u64 u64 duration system_time
  | SnapshotFailed u64 u64 string system_time
  | Custom string 'j system_time

definition event_type :: "'j ClusterEvent \<Rightarrow> string" where
  "event_type e = (case e of
     LeaderElected _ _ _ _ \<Rightarrow> ''leader_elected''
   | LeadershipTransferred _ _ _ _ _ \<Rightarrow> ''leadership_transferred''
   | LeaderSteppedDown _ _ _ _ \<Rightarrow> ''leader_stepped_down''
   | MemberAdded _ _ _ _ \<Rightarrow> ''member_added''
   | MemberRemoved _ _ _ \<Rightarrow> ''member_removed''
   | MemberRoleChanged _ _ _ _ \<Rightarrow> ''member_role_changed''
   | MemberHealthChanged _ _ _ _ \<Rightarrow> ''member_health_changed''
   | ConfigurationChanged _ _ _ \<Rightarrow> ''configuration_changed''
   | SnapshotCompleted _ _ _ _ _ \<Rightarrow> ''snapshot_completed''
   | SnapshotFailed _ _ _ _ \<Rightarrow> ''snapshot_failed''
   | Custom ty _ _ \<Rightarrow> ty)"

definition timestamp :: "'j ClusterEvent \<Rightarrow> system_time" where
  "timestamp e = (case e of
     LeaderElected _ _ _ t \<Rightarrow> t | LeadershipTransferred _ _ _ _ t \<Rightarrow> t | LeaderSteppedDown _ _ _ t \<Rightarrow> t
   | MemberAdded _ _ _ t \<Rightarrow> t | MemberRemoved _ _ t \<Rightarrow> t | MemberRoleChanged _ _ _ t \<Rightarrow> t
   | MemberHealthChanged _ _ _ t \<Rightarrow> t | ConfigurationChanged _ _ t \<Rightarrow> t
   | SnapshotCompleted _ _ _ _ t \<Rightarrow> t | SnapshotFailed _ _ _ t \<Rightarrow> t | Custom _ _ t \<Rightarrow> t)"

definition event_node_id :: "'j ClusterEvent \<Rightarrow> u64 option" where
  "event_node_id e = (case e of
     LeaderElected new_leader _ _ _ \<Rightarrow> Some new_leader
   | LeadershipTransferred _ to_leader _ _ _ \<Rightarrow> Some to_leader
   | LeaderSteppedDown leader _ _ _ \<Rightarrow> Some leader
   | MemberAdded n _ _ _ \<Rightarrow> Some n | MemberRemoved n _ _ \<Rightarrow> Some n
   | MemberRoleChanged n _ _ _ \<Rightarrow> Some n | MemberHealthChanged n _ _ _ \<Rightarrow> Some n
   | _ \<Rightarrow> None)"

definition leader_elected :: "system_time \<Rightarrow> u64 \<Rightarrow> u64 \<Rightarrow> u64 option \<Rightarrow> 'j ClusterEvent" where
  "leader_elected now new_leader term previous_leader = LeaderElected new_leader term previous_leader now"

definition member_added :: "system_time \<Rightarrow> u64 \<Rightarrow> MemberRole \<Rightarrow> string \<Rightarrow> 'j ClusterEvent" where
  "member_added now node_id role address = MemberAdded node_id role address now"

definition health_changed :: "system_time \<Rightarrow> u64 \<Rightarrow> HealthStatus \<Rightarrow> HealthStatus \<Rightarrow> 'j ClusterEvent" where
  "health_changed now node_id old_status new_status = MemberHealthChanged node_id old_status new_status now"

section \<open>Filters\<close>

record EventFilter =
  ef_event_types :: "string list"
  ef_node_ids :: "u64 list"
  since :: "system_time option"
  until :: "system_time option"

definition default_filter :: EventFilter where
  "default_filter = \<lparr>ef_event_types = [], ef_node_ids = [], since = None, until = None\<rparr>"

definition matches :: "EventFilter \<Rightarrow> 'j ClusterEvent \<Rightarrow> bool" where
  "matches f event =
    (if ef_event_types f \<noteq> [] \<and> event_type event \<notin> set (ef_event_types f) then False
     else if ef_node_ids f \<noteq> [] \<and> (case event_node_id event of Some n \<Rightarrow> n \<notin> set (ef_node_ids f) | None \<Rightarrow> False) then False
     else if (case since f of Some t \<Rightarrow> timestamp event < t | None \<Rightarrow> False) then False
     else if (case until f of Some t \<Rightarrow> timestamp event > t | None \<Rightarrow> False) then False
     else True)"

section \<open>Channels, the broadcaster and streams\<close>

record 'j event_channel =
  ec_queue :: "'j ClusterEvent list"
  ec_open :: bool

text \<open>A subscriber's key, an array of 16 bytes, is a list of bytes; the hash map is an association list.\<close>

record 'j event_world =
  subscribers :: "(bytes \<times> nat) list"
  channels :: "nat \<Rightarrow> 'j event_channel"
  next_channel :: nat

definition broadcaster_new :: "'j event_world" where
  "broadcaster_new = \<lparr>subscribers = [], channels = \<lambda>_. \<lparr>ec_queue = [], ec_open = True\<rparr>, next_channel = 0\<rparr>"

text \<open>\<open>unbounded_channel\<close> gives a fresh channel; a former sender under the same key is dropped.\<close>

definition subscribe :: "bytes \<Rightarrow> 'j event_world \<Rightarrow> nat \<times> 'j event_world" where
  "subscribe subscription_id w = (next_channel w, w\<lparr>
     subscribers := AList.update subscription_id (next_channel w) (subscribers w),
     channels := (channels w)(next_channel w := \<lparr>ec_queue = [], ec_open = True\<rparr>),
     next_channel := Suc (next_channel w)\<rparr>)"

definition unsubscribe :: "bytes \<Rightarrow> 'j event_world \<Rightarrow> 'j event_world" where
  "unsubscribe subscription_id w = w\<lparr>subscribers := AList.delete subscription_id (subscribers w)\<rparr>"

text \<open>\<open>send\<close> fails when the receiver is gone.\<close>

definition channel_send :: "nat \<Rightarrow> 'j ClusterEvent \<Rightarrow> 'j event_world \<Rightarrow> bool \<times> 'j event_world" where
  "channel_send c event w = (let ch = channels w c in
     if ec_open ch then (True, w\<lparr>channels := (channels w)(c := ch\<lparr>ec_queue := ec_queue ch @ [event]\<rparr>)\<rparr>)
     else (False, w))"

fun send_to_all :: "'j ClusterEvent \<Rightarrow> (bytes \<times> nat) list \<Rightarrow> bytes list \<Rightarrow> 'j event_world \<Rightarrow> bytes list \<times> 'j event_world" where
  "send_to_all event [] closed_subscribers w = (closed_subscribers, w)"
| "send_to_all event ((i, c) # subs) closed_subscribers w = (case channel_send c event w of (sent, w') \<Rightarrow>
     send_to_all event subs (if sent then closed_subscribers else closed_subscribers @ [i]) w')"

definition broadcast :: "'j ClusterEvent \<Rightarrow> 'j event_world \<Rightarrow> 'j event_world" where
  "broadcast event w = (case send_to_all event (subscribers w) [] w of (closed_subscribers, w') \<Rightarrow>
     fold unsubscribe closed_subscribers w')"

definition subscriber_count :: "'j event_world \<Rightarrow> nat" where
  "subscriber_count w = length (subscribers w)"

record EventStream =
  receiver :: nat
  es_filter :: EventFilter
  es_subscription_id :: bytes

definition stream_new :: "nat \<Rightarrow> bytes \<Rightarrow> EventStream" where
  "stream_new c subscription_id = \<lparr>receiver = c, es_filter = default_filter, es_subscription_id = subscription_id\<rparr>"

definition stream_with_filter :: "nat \<Rightarrow> bytes \<Rightarrow> EventFilter \<Rightarrow> EventStream" where
  "stream_with_filter c subscription_id f = \<lparr>receiver = c, es_filter = f, es_subscription_id = subscription_id\<rparr>"

definition set_filter :: "EventFilter \<Rightarrow> EventStream \<Rightarrow> EventStream" where
  "set_filter f stream = stream\<lparr>es_filter := f\<rparr>"

text \<open>The loop of both ways to read: events that do not match are taken off the queue and dropped.\<close>

fun next_match :: "EventFilter \<Rightarrow> 'j ClusterEvent list \<Rightarrow> 'j ClusterEvent option \<times> 'j ClusterEvent list" where
  "next_match f [] = (None, [])"
| "next_match f (event # events) = (if matches f event then (Some event, events) else next_match f events)"

definition set_queue :: "nat \<Rightarrow> 'j ClusterEvent list \<Rightarrow> 'j event_world \<Rightarrow> 'j event_world" where
  "set_queue c q w = w\<lparr>channels := (channels w)(c := (channels w c)\<lparr>ec_queue := q\<rparr>)\<rparr>"

definition try_next :: "EventStream \<Rightarrow> 'j event_world \<Rightarrow> 'j ClusterEvent option \<times> 'j event_world" where
  "try_next stream w = (case next_match (es_filter stream) (ec_queue (channels w (receiver stream))) of (r, q) \<Rightarrow>
     (r, set_queue (receiver stream) q w))"

datatype 'a poll = Ready 'a | Pending

text \<open>An empty channel has ended when it was closed or no sender is left.\<close>

definition channel_ended :: "nat \<Rightarrow> 'j event_world \<Rightarrow> bool" where
  "channel_ended c w \<longleftrightarrow> \<not> ec_open (channels w c) \<or> c \<notin> snd ` set (subscribers w)"

definition poll_next :: "EventStream \<Rightarrow> 'j event_world \<Rightarrow> 'j ClusterEvent option poll \<times> 'j event_world" where
  "poll_next stream w = (case next_match (es_filter stream) (ec_queue (channels w (receiver stream))) of (r, q) \<Rightarrow>
     (case r of Some event \<Rightarrow> Ready (Some event)
      | None \<Rightarrow> if channel_ended (receiver stream) w then Ready None else Pending,
      set_queue (receiver stream) q w))"

definition close :: "EventStream \<Rightarrow> 'j event_world \<Rightarrow> 'j event_world" where
  "close stream w = w\<lparr>channels := (channels w)(receiver stream := (channels w (receiver stream))\<lparr>ec_open := False\<rparr>)\<rparr>"

section \<open>The history\<close>

record 'j EventHistory =
  events :: "'j ClusterEvent list"
  max_events :: nat

definition history_new :: "nat \<Rightarrow> 'j EventHistory" where
  "history_new n = \<lparr>events = [], max_events = n\<rparr>"

definition add_event :: "'j ClusterEvent \<Rightarrow> 'j EventHistory \<Rightarrow> 'j EventHistory" where
  "add_event event h = (let es = events h @ [event] in
     h\<lparr>events := if length es > max_events h then drop (length es - max_events h) es else es\<rparr>)"

definition query :: "EventFilter \<Rightarrow> 'j EventHistory \<Rightarrow> 'j ClusterEvent list" where
  "query f h = filter (matches f) (events h)"

definition recent_events :: "nat \<Rightarrow> 'j EventHistory \<Rightarrow> 'j ClusterEvent list" where
  "recent_events n h = (let start = (if length (events h) > n then length (events h) - n else 0) in drop start (events h))"

definition clear :: "'j EventHistory \<Rightarrow> 'j EventHistory" where
  "clear h = h\<lparr>events := []\<rparr>"

definition event_count :: "'j EventHistory \<Rightarrow> nat" where
  "event_count h = length (events h)"


section \<open>What is kept of the past\<close>

lemma add_event_drop:
  assumes "events h = drop (length es - max_events h) es"
  shows "events (add_event e h) = drop (length (es @ [e]) - max_events h) (es @ [e])"
proof (cases "length es < max_events h")
  case True
  with assms show ?thesis by (simp add: add_event_def Let_def)
next
  case False
  define d where "d = length es - max_events h"
  have d: "d \<le> length es" "length es - d = max_events h" using False by (simp_all add: d_def)
  have "events h @ [e] = drop d (es @ [e])" using assms d by (simp add: d_def)
  with d show ?thesis by (simp add: add_event_def Let_def Suc_diff_le d_def False)
qed

lemma max_events_add [simp]: "max_events (add_event e h) = max_events h"
  by (simp add: add_event_def Let_def)

lemma history_events: "events (fold add_event es (history_new n)) = drop (length es - n) es
    \<and> max_events (fold add_event es (history_new n)) = n"
proof (induction es rule: rev_induct)
  case Nil
  then show ?case by (simp add: history_new_def)
next
  case (snoc e es)
  with add_event_drop[of "fold add_event es (history_new n)" es e] show ?case by simp
qed

text \<open>
  The history implements the list of all events, cut to the last ones: after any events it holds the last
  \<open>n\<close> of them in order, a query filters these, the most recent \<open>k\<close> are the last \<open>k\<close> of them, and it
  never holds more than \<open>n\<close>.
\<close>

theorem history_keeps_latest:
  fixes es :: "'j ClusterEvent list"
  shows "events (fold add_event es (history_new n)) = drop (length es - n) es
   \<and> query f (fold add_event es (history_new n)) = filter (matches f) (drop (length es - n) es)
   \<and> recent_events k (fold add_event es (history_new n)) = drop (length es - min n k) es
   \<and> event_count (fold add_event es (history_new n)) = min n (length es)
   \<and> events (fold add_event es (clear (history_new n))) = drop (length es - n) es"
proof -
  note h = history_events[of es n]
  have "clear (history_new n) = (history_new n :: 'j EventHistory)" by (simp add: clear_def history_new_def)
  moreover have "recent_events k (fold add_event es (history_new n)) = drop (length es - min n k) es"
    using h by (cases "n \<le> k"; cases "length es \<le> n"; cases "length es \<le> k") (auto simp: recent_events_def Let_def)
  moreover have "event_count (fold add_event es (history_new n)) = min n (length es)"
    using h by (simp add: event_count_def)
  ultimately show ?thesis using h by (simp add: query_def)
qed

section \<open>Delivery\<close>

text \<open>What happens to a broadcaster and its streams.\<close>

datatype 'j bus_event = Subscribed bytes nat | Unsubscribed bytes | Broadcasted "'j ClusterEvent"
  | Closed nat | ReadBy nat EventFilter "'j ClusterEvent option"

inductive bus_step :: "'j event_world \<Rightarrow> 'j bus_event \<Rightarrow> 'j event_world \<Rightarrow> bool" where
  "subscribe i w = (c, v) \<Longrightarrow> bus_step w (Subscribed i c) v"
| "bus_step w (Unsubscribed i) (unsubscribe i w)"
| "bus_step w (Broadcasted e) (broadcast e w)"
| "bus_step w (Closed (receiver stream)) (close stream w)"
| "try_next stream w = (r, v) \<Longrightarrow> bus_step w (ReadBy (receiver stream) (es_filter stream) r) v"
| "poll_next stream w = (Ready r, v) \<Longrightarrow> bus_step w (ReadBy (receiver stream) (es_filter stream) r) v"
| "poll_next stream w = (Pending, v) \<Longrightarrow> bus_step w (ReadBy (receiver stream) (es_filter stream) None) v"

definition bus_ok :: "'j event_world \<Rightarrow> bool" where
  "bus_ok w \<longleftrightarrow> distinct (map fst (subscribers w)) \<and> distinct (map snd (subscribers w))
     \<and> (\<forall>c \<in> snd ` set (subscribers w). c < next_channel w)"

lemma send_to_all_result:
  "distinct (map snd subs) \<Longrightarrow> send_to_all e subs cl w =
    (cl @ map fst (filter (\<lambda>(i, c). \<not> ec_open (channels w c)) subs),
     w\<lparr>channels := \<lambda>c. if c \<in> snd ` set subs \<and> ec_open (channels w c)
        then (channels w c)\<lparr>ec_queue := ec_queue (channels w c) @ [e]\<rparr> else channels w c\<rparr>)"
proof (induction e subs cl w rule: send_to_all.induct)
  case (1 e cl w)
  then show ?case by simp
next
  case (2 e i c subs cl w)
  obtain sent w' where s: "channel_send c e w = (sent, w')" by fastforce
  have d: "distinct (map snd subs)" "c \<notin> snd ` set subs" using 2(2) by auto
  have other: "channels w' k = channels w k" if "k \<noteq> c" for k
    using s that by (auto simp: channel_send_def Let_def split: if_splits)
  have same: "filter (\<lambda>(i, c). \<not> ec_open (channels w' c)) subs = filter (\<lambda>(i, c). \<not> ec_open (channels w c)) subs"
    using d(2) by (intro filter_cong) (auto simp: other image_iff)
  show ?case using 2(1)[OF s[symmetric] d(1)] s d(2) same
    by (auto simp: channel_send_def Let_def fun_eq_iff split: if_splits)
qed

lemma unsubscribe_simps [simp]:
  "subscribers (unsubscribe i w) = filter (\<lambda>(k, c). i \<noteq> k) (subscribers w)"
  "channels (unsubscribe i w) = channels w" "next_channel (unsubscribe i w) = next_channel w"
  by (simp_all add: unsubscribe_def AList.delete_eq)

lemma fold_unsubscribe [simp]:
  "subscribers (fold unsubscribe is w) = filter (\<lambda>(i, c). i \<notin> set is) (subscribers w)"
  "channels (fold unsubscribe is w) = channels w" "next_channel (fold unsubscribe is w) = next_channel w"
proof -
  have "filter (\<lambda>(k, c). k \<notin> set (i # is)) xs = filter (\<lambda>(k, c). k \<notin> set is) (filter (\<lambda>(k, c). i \<noteq> k) xs)"
    for i "is" and xs :: "(bytes \<times> nat) list" by (auto intro!: filter_cong)
  then show "subscribers (fold unsubscribe is w) = filter (\<lambda>(i, c). i \<notin> set is) (subscribers w)"
    by (induction "is" arbitrary: w) (simp_all del: list.set(2) filter_filter)
  show "channels (fold unsubscribe is w) = channels w" and "next_channel (fold unsubscribe is w) = next_channel w"
    by (induction "is" arbitrary: w) simp_all
qed

text \<open>An event goes to every open channel of a subscriber; the other subscribers are removed.\<close>

lemma broadcast_result:
  assumes "bus_ok w"
  shows "subscribers (broadcast e w) = filter (\<lambda>(i, c). ec_open (channels w c)) (subscribers w)"
    and "channels (broadcast e w) c = (if c \<in> snd ` set (subscribers w) \<and> ec_open (channels w c)
        then (channels w c)\<lparr>ec_queue := ec_queue (channels w c) @ [e]\<rparr> else channels w c)"
    and "next_channel (broadcast e w) = next_channel w"
proof -
  have d: "distinct (map snd (subscribers w))" and k: "distinct (map fst (subscribers w))"
    using assms by (simp_all add: bus_ok_def)
  note b = send_to_all_result[OF d, of e "[]" w]
  let ?closed = "map fst (filter (\<lambda>(i, c). \<not> ec_open (channels w c)) (subscribers w))"
  have closed: "i \<in> set ?closed \<longleftrightarrow> \<not> ec_open (channels w c)" if "(i, c) \<in> set (subscribers w)" for i c
  proof
    assume "i \<in> set ?closed"
    then obtain c' where c': "(i, c') \<in> set (subscribers w)" "\<not> ec_open (channels w c')" by auto
    with eq_key_imp_eq_value[OF k that] show "\<not> ec_open (channels w c)" by blast
  next
    assume "\<not> ec_open (channels w c)"
    with that show "i \<in> set ?closed" unfolding set_map set_filter by (intro image_eqI[of _ fst "(i, c)"]) simp_all
  qed
  have "subscribers (broadcast e w) = filter (\<lambda>(i, c). i \<notin> set ?closed) (subscribers w)"
    by (simp add: broadcast_def b)
  also have "\<dots> = filter (\<lambda>(i, c). ec_open (channels w c)) (subscribers w)"
  proof (rule filter_cong[OF refl])
    fix x assume "x \<in> set (subscribers w)"
    moreover obtain i c where "x = (i, c)" by (cases x)
    ultimately show "(case x of (i, c) \<Rightarrow> i \<notin> set ?closed) = (case x of (i, c) \<Rightarrow> ec_open (channels w c))"
      using closed[of i c] by (simp del: set_map set_filter)
  qed
  finally show "subscribers (broadcast e w) = filter (\<lambda>(i, c). ec_open (channels w c)) (subscribers w)" .
  show "channels (broadcast e w) c = (if c \<in> snd ` set (subscribers w) \<and> ec_open (channels w c)
        then (channels w c)\<lparr>ec_queue := ec_queue (channels w c) @ [e]\<rparr> else channels w c)"
    and "next_channel (broadcast e w) = next_channel w"
    by (simp_all add: broadcast_def b)
qed

lemma set_update_subscribers: "distinct (map fst xs) \<Longrightarrow>
    set (AList.update i c xs) = insert (i, c) {x \<in> set xs. fst x \<noteq> i}"
  by (induction xs) (auto simp: image_iff)

lemma distinct_snd_update: "distinct (map snd xs) \<Longrightarrow> c \<notin> snd ` set xs \<Longrightarrow> distinct (map snd (AList.update i c xs))"
proof (induction xs)
  case (Cons x xs)
  have "snd ` set (AList.update i c xs) \<subseteq> insert c (snd ` set xs)"
    by (induction xs) auto
  with Cons show ?case by (cases x) (auto split: if_splits)
qed simp

lemma subscribe_ok: "bus_ok w \<Longrightarrow> bus_ok (snd (subscribe i w))"
  by (fastforce simp: bus_ok_def subscribe_def distinct_update set_update_subscribers intro!: distinct_snd_update
      dest: less_SucI)

lemma set_queue_simps [simp]:
  "subscribers (set_queue c q w) = subscribers w" "next_channel (set_queue c q w) = next_channel w"
  "channels (set_queue c q w) = (channels w)(c := (channels w c)\<lparr>ec_queue := q\<rparr>)"
  by (simp_all add: set_queue_def)

lemma set_queue_ok [simp]: "bus_ok (set_queue c q w) = bus_ok w"
  by (simp add: bus_ok_def)

interpretation bus: invariant_of "\<lambda>w. w = broadcaster_new" bus_step bus_ok
proof
  show "w = broadcaster_new \<Longrightarrow> bus_ok w" for w :: "'j event_world"
    by (simp add: bus_ok_def broadcaster_new_def)
  fix w v :: "'j event_world" and e
  assume "bus_ok w" and step: "bus_step w e v"
  from step show "bus_ok v"
  proof (cases rule: bus_step.cases)
    case (1 i c)
    with subscribe_ok[OF \<open>bus_ok w\<close>, of i] show ?thesis by simp
  next
    case (3 e')
    with \<open>bus_ok w\<close> broadcast_result[OF \<open>bus_ok w\<close>, of e'] show ?thesis
      by (auto simp: bus_ok_def distinct_map_filter)
  next
    case 2
    with \<open>bus_ok w\<close> show ?thesis by (auto simp: bus_ok_def distinct_map_filter)
  next
    case 4
    with \<open>bus_ok w\<close> show ?thesis by (simp add: bus_ok_def close_def)
  qed (use \<open>bus_ok w\<close> in \<open>auto simp: try_next_def poll_next_def split: prod.splits\<close>)
qed


text \<open>What one step does to the subscription of a channel and to what waits in it.\<close>

definition keeps_subscription :: "bytes \<Rightarrow> nat \<Rightarrow> EventFilter \<Rightarrow> 'j bus_event \<Rightarrow> bool" where
  "keeps_subscription i c f ev = (case ev of
     Subscribed k _ \<Rightarrow> k \<noteq> i | Unsubscribed k \<Rightarrow> k \<noteq> i | Broadcasted _ \<Rightarrow> True
   | Closed k \<Rightarrow> k \<noteq> c | ReadBy k g _ \<Rightarrow> k = c \<longrightarrow> g = f)"

definition broadcasts :: "'j bus_event list \<Rightarrow> 'j ClusterEvent list" where
  "broadcasts evs = concat (map (\<lambda>ev. case ev of Broadcasted e \<Rightarrow> [e] | _ \<Rightarrow> []) evs)"

definition read_from :: "nat \<Rightarrow> 'j bus_event list \<Rightarrow> 'j ClusterEvent list" where
  "read_from c evs = concat (map (\<lambda>ev. case ev of ReadBy k _ (Some e) \<Rightarrow> if k = c then [e] else [] | _ \<Rightarrow> []) evs)"

lemma bus_event_lists [simp]:
  "broadcasts [] = []" "read_from c [] = []"
  by (simp_all add: broadcasts_def read_from_def)

lemma bus_event_Cons:
  "broadcasts (ev # evs) = broadcasts [ev] @ broadcasts evs" "read_from c (ev # evs) = read_from c [ev] @ read_from c evs"
  by (simp_all add: broadcasts_def read_from_def)

lemma next_match_filter: "next_match f q = (r, q') \<Longrightarrow> filter (matches f) q = (case r of Some e \<Rightarrow> [e] | None \<Rightarrow> []) @ filter (matches f) q'"
  by (induction f q rule: next_match.induct) (auto split: if_splits)

definition subscribed :: "bytes \<Rightarrow> nat \<Rightarrow> 'j event_world \<Rightarrow> bool" where
  "subscribed i c w \<longleftrightarrow> (i, c) \<in> set (subscribers w) \<and> ec_open (channels w c)"

lemma subscription_step:
  assumes ok: "bus_ok w" and step: "bus_step w ev v" and sub: "subscribed i c w" and keep: "keeps_subscription i c f ev"
  shows "subscribed i c v \<and> read_from c [ev] @ filter (matches f) (ec_queue (channels v c))
    = filter (matches f) (ec_queue (channels w c)) @ filter (matches f) (broadcasts [ev])"
proof -
  have c: "c < next_channel w" "distinct (map fst (subscribers w))" and s: "c \<in> snd ` set (subscribers w)"
    using ok sub by (force simp: bus_ok_def subscribed_def)+
  have read: "subscribed i c (set_queue k q w)" for k q using sub by (auto simp: subscribed_def)
  show ?thesis using step
  proof (cases rule: bus_step.cases)
    case (1 k d)
    with sub keep c show ?thesis
      by (auto simp: subscribe_def subscribed_def set_update_subscribers keeps_subscription_def broadcasts_def read_from_def)
  next
    case (2 k)
    with sub keep show ?thesis by (auto simp: subscribed_def keeps_subscription_def broadcasts_def read_from_def)
  next
    case (3 e)
    with sub s broadcast_result[OF ok, of e] show ?thesis
      by (simp add: subscribed_def broadcasts_def read_from_def)
  next
    case (4 stream)
    with sub keep show ?thesis
      by (simp add: subscribed_def close_def keeps_subscription_def broadcasts_def read_from_def)
  next
    case (5 stream r)
    with keep read next_match_filter show ?thesis
      by (fastforce simp: try_next_def keeps_subscription_def broadcasts_def read_from_def split: prod.splits option.splits)
  next
    case (6 stream r)
    with keep read next_match_filter show ?thesis
      by (fastforce simp: poll_next_def keeps_subscription_def broadcasts_def read_from_def split: prod.splits option.splits if_splits)
  next
    case (7 stream)
    with keep read next_match_filter show ?thesis
      by (fastforce simp: poll_next_def keeps_subscription_def broadcasts_def read_from_def split: prod.splits option.splits if_splits)
  qed
qed


lemma append_chain:
  assumes "a @ u = w @ b" and "r @ v = u @ d"
  shows "(a @ r) @ v = w @ b @ d"
proof -
  have "(a @ r) @ v = (a @ u) @ d" using assms(2) by simp
  also have "\<dots> = w @ b @ d" using assms(1) by simp
  finally show ?thesis .
qed

lemma subscription_run:
  "run bus_step w evs v \<Longrightarrow> bus_ok w \<Longrightarrow> subscribed i c w \<Longrightarrow> \<forall>ev \<in> set evs. keeps_subscription i c f ev \<Longrightarrow>
   subscribed i c v \<and> read_from c evs @ filter (matches f) (ec_queue (channels v c))
     = filter (matches f) (ec_queue (channels w c)) @ filter (matches f) (broadcasts evs)"
proof (induction rule: run.induct)
  case (run_done w)
  then show ?case by simp
next
  case (run_step w ev u evs v)
  then have s: "subscribed i c u" "read_from c [ev] @ filter (matches f) (ec_queue (channels u c))
      = filter (matches f) (ec_queue (channels w c)) @ filter (matches f) (broadcasts [ev])"
    using subscription_step[of w ev u i c f] by auto
  have "bus_ok u" using run_step.hyps(1) run_step.prems(1) by (rule bus.kept[rotated])
  with run_step s(1) have "read_from c evs @ filter (matches f) (ec_queue (channels v c))
      = filter (matches f) (ec_queue (channels u c)) @ filter (matches f) (broadcasts evs)" and "subscribed i c v"
    by auto
  with append_chain[OF s(2) this(1)] show ?case
    unfolding bus_event_Cons(1)[of ev evs] bus_event_Cons(2)[of c ev evs] by simp
qed

text \<open>
  C19: from its subscription on, a stream gets every broadcast event that matches its filter, once and in order,
  and no other: those it has read, followed by those that wait in its channel, are the matching ones among
  all broadcast since, whatever else subscribes, leaves or is read meanwhile. It stays subscribed, as long
  as its key is neither unsubscribed nor subscribed again and the stream is not closed.
\<close>

theorem subscriber_gets_every_match:
  assumes "reachable (\<lambda>w. w = broadcaster_new) bus_step u" and "subscribe i u = (c, w)" and "run bus_step w evs v"
    and "\<forall>ev \<in> set evs. keeps_subscription i c f ev"
  shows "read_from c evs @ filter (matches f) (ec_queue (channels v c)) = filter (matches f) (broadcasts evs)
     \<and> (i, c) \<in> set (subscribers v)"
proof -
  have "bus_ok u" using assms(1) by (rule bus.always)
  with subscribe_ok[of u i] assms(2) have "bus_ok w" by simp
  moreover have "subscribed i c w" and "ec_queue (channels w c) = []"
    using assms(2) \<open>bus_ok u\<close> by (auto simp: subscribe_def subscribed_def bus_ok_def set_update_subscribers)
  ultimately show ?thesis using subscription_run[OF assms(3) _ _ assms(4)] by (auto simp: subscribed_def)
qed


theorem subscriber_gets_every_match_witness:
  "\<exists>w v. subscribe [1] (broadcaster_new :: nat event_world) = (0, w)
     \<and> run bus_step w [Broadcasted (MemberRemoved 3 [] 5), Broadcasted (Custom [] 7 6), ReadBy 0 default_filter (Some (MemberRemoved 3 [] 5))] v
     \<and> read_from 0 [Broadcasted (MemberRemoved 3 [] 5), Broadcasted (Custom [] 7 6), ReadBy 0 default_filter (Some (MemberRemoved 3 [] 5))]
         @ filter (matches default_filter) (ec_queue (channels v 0)) = [MemberRemoved 3 [] 5, Custom [] (7 :: nat) 6]"
proof -
  define evs :: "nat bus_event list" where "evs = [Broadcasted (MemberRemoved 3 [] 5), Broadcasted (Custom [] 7 6),
     ReadBy 0 default_filter (Some (MemberRemoved 3 [] 5))]"
  define w :: "nat event_world" where "w = snd (subscribe [1] broadcaster_new)"
  define x where "x = broadcast (Custom [] 7 6) (broadcast (MemberRemoved 3 [] 5) w)"
  define v where "v = snd (try_next (stream_new 0 [1]) x)"
  have w: "subscribe [1] broadcaster_new = (0, w)" by (simp add: w_def subscribe_def broadcaster_new_def)
  have x: "ec_queue (channels x 0) = [MemberRemoved 3 [] 5, Custom [] 7 6]"
    by (simp add: x_def w_def subscribe_def broadcaster_new_def broadcast_def channel_send_def)
  have all: "matches default_filter e" for e :: "nat ClusterEvent" by (simp add: matches_def default_filter_def)
  have "try_next (stream_new 0 [1]) x = (Some (MemberRemoved 3 [] 5), v)"
    by (simp add: v_def try_next_def stream_new_def x all)
  from bus_step.intros(5)[OF this] have "bus_step x (ReadBy 0 default_filter (Some (MemberRemoved 3 [] 5))) v"
    by (simp add: stream_new_def)
  then have r: "run bus_step w evs v"
    unfolding evs_def x_def by (blast intro: run.intros bus_step.intros(3))
  have "reachable (\<lambda>w. w = broadcaster_new) bus_step (broadcaster_new :: nat event_world)" by (simp add: reachable_init)
  moreover have "\<forall>ev \<in> set evs. keeps_subscription [1] 0 default_filter ev" by (simp add: evs_def keeps_subscription_def)
  ultimately have "read_from 0 evs @ filter (matches default_filter) (ec_queue (channels v 0))
      = filter (matches default_filter) (broadcasts evs)"
    using subscriber_gets_every_match[OF _ w r] by blast
  moreover have "filter (matches default_filter) (broadcasts evs) = [MemberRemoved 3 [] 5, Custom [] 7 6]"
    by (simp add: evs_def broadcasts_def all)
  ultimately show ?thesis using w r unfolding evs_def by auto
qed

end
