(* ===== verification/MgmtProtocol.thy ===== *)
theory MgmtProtocol
  imports Events Protocol F64
begin

text \<open>
  \<open>src/src/management/protocol.rs\<close> and the responses of \<open>src/src/management/mod.rs\<close>: how a management
  request that comes over a stream is handled. Streams, encodings and the timeout around a stream are
  parameters, as in \<open>Protocol\<close>; so is what the cluster manager answers to the requests it was given, or
  that it drops a request. The table of subscribers is the one of \<open>Events\<close>, with the same operations.
\<close>

section \<open>Responses and requests\<close>

record ClusterMember =
  cm_node_id :: u64
  cm_address :: string
  cm_role :: MemberRole
  cm_health :: HealthStatus
  cm_last_seen :: system_time
  cm_version :: string

record ClusterHealthStatus =
  chs_status :: HealthStatus
  healthy_members :: u32
  total_members :: u32
  quorum_available :: bool
  leader_available :: bool

record ClusterStatusResponse =
  csr_cluster_id :: string
  csr_leader :: "u64 option"
  csr_term :: u64
  csr_members :: "ClusterMember list"
  csr_health :: ClusterHealthStatus
  csr_raft_state :: RaftState

record MemberOperationResponse =
  mor_success :: bool
  mor_member_id :: "u64 option"
  mor_error :: "string option"

record LeadershipResponse =
  lr_success :: bool
  lr_new_leader :: "u64 option"
  lr_transfer_duration :: "duration option"
  lr_error :: "string option"

record ConfigurationResponse =
  cr_config :: ClusterConfig
  cr_version :: u64

record MetricsResponse =
  mtr_metrics :: "(string \<times> f64) list"
  mtr_timestamp :: system_time

record HealthResponse =
  hr_overall_health :: HealthStatus
  hr_cluster_health :: ClusterHealthStatus
  hr_node_health :: "(u64 \<times> HealthStatus) list"

record LogInfoResponse =
  li_first_index :: u64
  li_last_index :: u64
  li_committed_index :: u64
  li_total_entries :: u64
  li_total_size_bytes :: u64

record LogEntry =
  le_index :: u64
  le_term :: u64
  le_entry_type :: string
  le_data_size :: nat
  le_timestamp :: system_time

record LogEntriesResponse =
  ler_entries :: "LogEntry list"
  ler_start_index :: u64
  ler_end_index :: u64

record SnapshotInfoResponse =
  si_last_included_index :: u64
  si_last_included_term :: u64
  si_size_bytes :: u64
  si_created_at :: system_time

record BackupOperationResponse =
  bo_success :: bool
  bo_backup_id :: "string option"
  bo_size_bytes :: "u64 option"
  bo_error :: "string option"

record BackupInfo =
  bi_backup_id :: string
  bi_description :: string
  bi_created_at :: system_time
  bi_size_bytes :: u64
  bi_cluster_state :: RaftState

record BackupListResponse =
  bl_backups :: "BackupInfo list"

datatype ManagementResponse =
    RespClusterStatus ClusterStatusResponse
  | RespMemberOperation MemberOperationResponse
  | RespLeadership LeadershipResponse
  | RespConfiguration ConfigurationResponse
  | RespMetrics MetricsResponse
  | RespHealth HealthResponse
  | RespLogInfo LogInfoResponse
  | RespLogEntries LogEntriesResponse
  | RespSnapshotInfo SnapshotInfoResponse
  | RespBackupOperation BackupOperationResponse
  | RespBackupList BackupListResponse
  | RespSuccess
  | RespError string

record ManagementRequest =
  mr_operation :: ManagementOperation
  mr_timeout :: "duration option"
  mr_authorization :: "string option"

record ManagementPermissions =
  mp_node_id :: u64
  mp_role :: ManagementRole
  mp_allowed_operations :: "ManagementOperation list"

section \<open>Messages\<close>

datatype ManagementMessageType = MgmtRequest | MgmtResponse | MgmtEvent | MgmtHealthCheck | MgmtError

definition mgmt_type_to_u8 :: "ManagementMessageType \<Rightarrow> u8" where
  "mgmt_type_to_u8 t = (case t of MgmtRequest \<Rightarrow> 0 | MgmtResponse \<Rightarrow> 1 | MgmtEvent \<Rightarrow> 2 | MgmtHealthCheck \<Rightarrow> 3 | MgmtError \<Rightarrow> 4)"

definition mgmt_type_from_u8 :: "u8 \<Rightarrow> ManagementMessageType" where
  "mgmt_type_from_u8 b = (if b = 0 then MgmtRequest else if b = 1 then MgmtResponse else if b = 2 then MgmtEvent
     else if b = 3 then MgmtHealthCheck else MgmtError)"

record ManagementMessageHeader =
  mmh_base :: MessageHeader
  mmh_operation_type :: "string option"
  mmh_authorization :: "string option"

record ZeroCopyManagementMessage =
  zmm_type :: ManagementMessageType
  zmm_request_id :: "bytes option"
  zmm_operation :: "ManagementOperation option"
  zmm_payload :: bytes
  zmm_total_size :: u32
  zmm_authorization :: "string option"

definition mgmt_calculate_size :: "nat \<Rightarrow> u32" where
  "mgmt_calculate_size n = 4 + 64 + of_nat n"

definition mgmt_message :: "ManagementMessageType \<Rightarrow> bytes option \<Rightarrow> bytes \<Rightarrow> string option \<Rightarrow> ZeroCopyManagementMessage" where
  "mgmt_message ty request_id payload authorization = \<lparr>zmm_type = ty, zmm_request_id = request_id, zmm_operation = None,
     zmm_payload = payload, zmm_total_size = mgmt_calculate_size (length payload), zmm_authorization = authorization\<rparr>"

definition mgmt_new_request :: "ManagementRequest bincode \<Rightarrow> ManagementOperation \<Rightarrow> bytes option \<Rightarrow> string option
    \<Rightarrow> RaftError + ZeroCopyManagementMessage" where
  "mgmt_new_request B operation request_id authorization =
     and_then (serialize_payload B \<lparr>mr_operation = operation, mr_timeout = Some (from_secs 30),
         mr_authorization = authorization\<rparr>) (\<lambda>payload.
       Inr \<lparr>zmm_type = MgmtRequest, zmm_request_id = request_id, zmm_operation = Some operation, zmm_payload = payload,
         zmm_total_size = mgmt_calculate_size (length payload), zmm_authorization = authorization\<rparr>)"

definition mgmt_is_large_message :: "ZeroCopyManagementMessage \<Rightarrow> bool" where
  "mgmt_is_large_message msg \<longleftrightarrow> length (zmm_payload msg) > LARGE_MESSAGE_THRESHOLD"

record ZeroCopyManagementRequest =
  zmr_operation :: ManagementOperation
  zmr_payload :: bytes
  zmr_timeout :: "duration option"
  zmr_authorization :: "string option"

definition to_standard :: "ZeroCopyManagementRequest \<Rightarrow> ManagementRequest" where
  "to_standard r = \<lparr>mr_operation = zmr_operation r, mr_timeout = zmr_timeout r, mr_authorization = zmr_authorization r\<rparr>"

text \<open>The request id is fresh for each message.\<close>

definition create_management_request :: "ManagementRequest bincode \<Rightarrow> bytes \<Rightarrow> ManagementOperation \<Rightarrow> string option
    \<Rightarrow> RaftError + ZeroCopyManagementMessage" where
  "create_management_request B fresh_id operation authorization = mgmt_new_request B operation (Some fresh_id) authorization"

definition create_health_check_message :: "bytes \<Rightarrow> ZeroCopyManagementMessage" where
  "create_health_check_message fresh_id = mgmt_message MgmtHealthCheck (Some fresh_id) [] None"

section \<open>The handler\<close>

text \<open>What a handler calls, and its state: the stream, the requests handed to the manager, the tables it shares.\<close>

record ('w, 'r) mgmt_deps =
  md_writer :: "'w byte_writer"
  md_reader :: "'r byte_reader"
  md_header :: "MessageHeader bincode"
  md_request :: "ManagementRequest bincode"
  md_response :: "ManagementResponse bincode"
  md_answer :: "ManagementRequest list \<Rightarrow> ManagementResponse option"

record ('w, 'r, 'j) mgmt_handler =
  mh_send :: 'w
  mh_recv :: 'r
  management_rx :: "ManagementRequest list"
  management_open :: bool
  event_subscribers :: "'j event_world"
  permissions :: "u64 \<rightharpoonup> ManagementPermissions"

definition mgmt_handler_new :: "'w \<Rightarrow> 'r \<Rightarrow> ('w, 'r, 'j) mgmt_handler" where
  "mgmt_handler_new send recv = \<lparr>mh_send = send, mh_recv = recv, management_rx = [], management_open = True,
     event_subscribers = broadcaster_new, permissions = Map.empty\<rparr>"

definition add_permissions :: "ManagementPermissions \<Rightarrow> ('w, 'r, 'j) mgmt_handler \<Rightarrow> ('w, 'r, 'j) mgmt_handler" where
  "add_permissions p s = s\<lparr>permissions := (permissions s)(mp_node_id p \<mapsto> p)\<rparr>"

definition check_permission :: "u64 \<Rightarrow> ManagementOperation \<Rightarrow> ('w, 'r, 'j) mgmt_handler \<Rightarrow> bool" where
  "check_permission node_id operation s = (case permissions s node_id of
     Some p \<Rightarrow> (case mp_role p of
         Admin \<Rightarrow> True
       | Observer \<Rightarrow> is_read_only operation
       | MemberManager \<Rightarrow> is_read_only operation \<or> (case operation of
             AddMember _ _ _ \<Rightarrow> True | RemoveMember _ \<Rightarrow> True | UpdateMemberRole _ _ \<Rightarrow> True | _ \<Rightarrow> False)
       | Monitor \<Rightarrow> (case operation of
             GetClusterStatus \<Rightarrow> True | GetHealthStatus \<Rightarrow> True | GetMetrics _ \<Rightarrow> True | _ \<Rightarrow> False))
   | None \<Rightarrow> is_read_only operation)"

definition mgmt_send :: "('w, unit) action \<Rightarrow> (('w, 'r, 'j) mgmt_handler, unit) action" where
  "mgmt_send f = (\<lambda>s. case f (mh_send s) of (r, w) \<Rightarrow> (r, s\<lparr>mh_send := w\<rparr>))"

definition send_management_response :: "('w, 'r) mgmt_deps \<Rightarrow> ManagementResponse \<Rightarrow> bytes option
    \<Rightarrow> (('w, 'r, 'j) mgmt_handler, unit) action" where
  "send_management_response D response request_id = (case serialize_payload_zero_copy (md_response D) response [] of
     Inl e \<Rightarrow> act_fail e
   | Inr response_buf \<Rightarrow> mgmt_send (write_message_zero_copy (md_writer D) (md_header D)
       (zero_copy_message Response request_id response_buf)))"

text \<open>The permissions are an argument that is not looked at.\<close>

definition handle_management_request :: "('w, 'r) mgmt_deps \<Rightarrow> ZeroCopyManagementMessage \<Rightarrow> (u64 \<rightharpoonup> ManagementPermissions)
    \<Rightarrow> (('w, 'r, 'j) mgmt_handler, unit) action" where
  "handle_management_request D message perms = (case deserialize_payload (md_request D) (zmm_payload message) of
     Inl e \<Rightarrow> act_fail e
   | Inr request \<Rightarrow> act_with management_open (\<lambda>alive.
       if \<not> alive then send_management_response D (RespError ''Cluster manager unavailable'') (zmm_request_id message)
       else act_then (act_update (\<lambda>s. s\<lparr>management_rx := management_rx s @ [request]\<rparr>)) (\<lambda>_.
         act_with management_rx (\<lambda>requests. case md_answer D requests of
           Some response \<Rightarrow> send_management_response D response (zmm_request_id message)
         | None \<Rightarrow> send_management_response D (RespError ''Response channel closed'') (zmm_request_id message)))))"

text \<open>The insertion of the channel is commented out in the source.\<close>

definition handle_event_subscription :: "ZeroCopyManagementMessage \<Rightarrow> (('w, 'r, 'j) mgmt_handler, unit) action" where
  "handle_event_subscription message = act_return ()"

definition handle_health_check :: "('w, 'r) mgmt_deps \<Rightarrow> ZeroCopyManagementMessage \<Rightarrow> (('w, 'r, 'j) mgmt_handler, unit) action" where
  "handle_health_check D message = send_management_response D RespSuccess (zmm_request_id message)"

definition process_management_message :: "('w, 'r) mgmt_deps \<Rightarrow> ZeroCopyManagementMessage \<Rightarrow> (('w, 'r, 'j) mgmt_handler, unit) action" where
  "process_management_message D message = (case zmm_type message of
     MgmtRequest \<Rightarrow> act_with permissions (handle_management_request D message)
   | MgmtEvent \<Rightarrow> handle_event_subscription message
   | MgmtHealthCheck \<Rightarrow> handle_health_check D message
   | _ \<Rightarrow> act_return ())"

definition mgmt_type_of :: "MessageType \<Rightarrow> ManagementMessageType" where
  "mgmt_type_of t = (case t of Request \<Rightarrow> MgmtRequest | Response \<Rightarrow> MgmtResponse | ErrorMessage \<Rightarrow> MgmtError
     | Protocol.Heartbeat \<Rightarrow> MgmtHealthCheck | _ \<Rightarrow> MgmtError)"

definition mgmt_stream_work :: "('w, 'r) mgmt_deps \<Rightarrow> (('w, 'r, 'j) mgmt_handler, unit) action" where
  "mgmt_stream_work D = act_then (\<lambda>s. case read_message_zero_copy (md_reader D) (md_header D) (mh_recv s) of
       (r, x) \<Rightarrow> (r, s\<lparr>mh_recv := x\<rparr>)) (\<lambda>(header, payload_bytes).
     process_management_message D \<lparr>zmm_type = mgmt_type_of (mh_type header), zmm_request_id = mh_request_id header,
       zmm_operation = None, zmm_payload = payload_bytes, zmm_total_size = payload_len header + 4, zmm_authorization = None\<rparr>)"

definition handle_management_stream :: "((('w, 'r, 'j) mgmt_handler, unit) action \<Rightarrow> ('w, 'r, 'j) mgmt_handler
      \<Rightarrow> (RaftError + unit) option \<times> ('w, 'r, 'j) mgmt_handler)
    \<Rightarrow> ('w, 'r) mgmt_deps \<Rightarrow> (('w, 'r, 'j) mgmt_handler, unit) action" where
  "handle_management_stream timeout D = (\<lambda>s. case timeout (mgmt_stream_work D) s of (result, s') \<Rightarrow> (case result of
     Some (Inr _) \<Rightarrow> (Inr (), s'\<lparr>mh_send := snd (w_flush (md_writer D) (mh_send s'))\<rparr>)
   | Some (Inl e) \<Rightarrow> (Inl e, s')
   | None \<Rightarrow> (Inl (Internal ''Management stream timeout''), s')))"

definition subscribe_to_events :: "bytes \<Rightarrow> ('w, 'r, 'j) mgmt_handler \<Rightarrow> nat \<times> ('w, 'r, 'j) mgmt_handler" where
  "subscribe_to_events subscription_id s = (case subscribe subscription_id (event_subscribers s) of (c, w) \<Rightarrow>
     (c, s\<lparr>event_subscribers := w\<rparr>))"

definition publish_event :: "'j ClusterEvent \<Rightarrow> ('w, 'r, 'j) mgmt_handler \<Rightarrow> ('w, 'r, 'j) mgmt_handler" where
  "publish_event event s = s\<lparr>event_subscribers :=
     (case send_to_all event (subscribers (event_subscribers s)) [] (event_subscribers s) of (closed_subscriptions, w) \<Rightarrow>
       fold unsubscribe closed_subscriptions w)\<rparr>"


section \<open>Properties\<close>

lemma mgmt_type_roundtrip: "mgmt_type_from_u8 (mgmt_type_to_u8 t) = t"
  by (cases t) (simp_all add: mgmt_type_from_u8_def mgmt_type_to_u8_def)

lemma send_response_ok:
  assumes W: "writer_ok (md_writer D) wrote" and H: "header_ok (md_header D)" and B: "\<forall>r. is_ok (bin_serialize (md_response D) r)"
    and i: "id_ok i"
  obtains w body where "send_management_response D r i s = (Inr (), s\<lparr>mh_send := w\<rparr>)"
    and "wrote w = wrote (mh_send s) @ frame (md_header D) (zero_copy_message Response i body)"
    and "bin_serialize (md_response D) r = Inr body"
proof -
  obtain body where body: "bin_serialize (md_response D) r = Inr body"
    using B by (auto simp: is_ok_iff)
  obtain w where w: "write_message_zero_copy (md_writer D) (md_header D) (zero_copy_message Response i body) (mh_send s) = (Inr (), w)"
    "wrote w = wrote (mh_send s) @ frame (md_header D) (zero_copy_message Response i body)"
    using write_frame[OF W H, of "zero_copy_message Response i body" "mh_send s"] i by (auto simp: zero_copy_message_def)
  have "send_management_response D r i s = (Inr (), s\<lparr>mh_send := w\<rparr>)"
    by (simp add: send_management_response_def serialize_payload_zero_copy_def body mgmt_send_def w(1))
  with w(2) body show thesis by (rule that[rotated 1])
qed

text \<open>A frame on the stream is handled as the management message it stands for.\<close>

definition served_message :: "ZeroCopyMessage \<Rightarrow> ZeroCopyManagementMessage" where
  "served_message message = \<lparr>zmm_type = mgmt_type_of (zm_type message), zmm_request_id = zm_request_id message, zmm_operation = None,
     zmm_payload = zm_payload message, zmm_total_size = of_nat (length (zm_payload message)) + 4, zmm_authorization = None\<rparr>"

lemma stream_frame_handled:
  assumes "reader_ok (md_reader D) unread" and "header_ok (md_header D)" and "message_fits message"
    and "unread (mh_recv s) = frame (md_header D) message @ tail"
  shows "\<exists>r'. unread r' = tail \<and> mgmt_stream_work D s = process_management_message D (served_message message) (s\<lparr>mh_recv := r'\<rparr>)"
proof -
  let ?n = "length (zm_payload message)"
  from assms(3) have id: "id_ok (zm_request_id message)" and n: "?n \<le> unat MAX_PAYLOAD" by (auto simp: message_fits_def)
  have "?n = ?n mod 2 ^ 32" using n by (simp add: max_payload)
  from read_frame[OF assms(1,2) id assms(4) this] n obtain r' where
    r': "read_message_zero_copy (md_reader D) (md_header D) (mh_recv s) = (Inr (message_header message, zm_payload message), r')"
    "unread r' = tail" by auto
  then show ?thesis
    by (intro exI[of _ r']) (simp add: mgmt_stream_work_def act_then_apply message_header_def served_message_def)
qed

text \<open>
  C31: a management request frame on a stream is handed to the cluster manager as it stands, once, and one
  response with its id is written: the manager's answer, or an error if the manager drops it. Who sends
  the request and what the permission table says about it make no difference.
\<close>

theorem management_request_served:
  assumes "writer_ok (md_writer D) wrote" and "reader_ok (md_reader D) unread" and "header_ok (md_header D)"
    and "\<forall>r. is_ok (bin_serialize (md_response D) r)" and "message_fits message" and "zm_type message = Request"
    and "unread (mh_recv s) = frame (md_header D) message @ tail" and "management_open s"
    and "bin_deserialize (md_request D) (zm_payload message) = Inr request"
  shows "\<exists>s' body. mgmt_stream_work D s = (Inr (), s') \<and> management_rx s' = management_rx s @ [request]
     \<and> wrote (mh_send s') = wrote (mh_send s) @ frame (md_header D) (zero_copy_message Response (zm_request_id message) body)
     \<and> bin_serialize (md_response D) (case md_answer D (management_rx s @ [request]) of Some r \<Rightarrow> r
          | None \<Rightarrow> RespError ''Response channel closed'') = Inr body
     \<and> unread (mh_recv s') = tail"
proof -
  obtain r' where r': "unread r' = tail" and work: "mgmt_stream_work D s = process_management_message D (served_message message) (s\<lparr>mh_recv := r'\<rparr>)"
    using stream_frame_handled[OF assms(2,3,5,7)] by blast
  from assms(5) have id: "id_ok (zm_request_id message)" by (simp add: message_fits_def)
  let ?s = "s\<lparr>mh_recv := r', management_rx := management_rx s @ [request]\<rparr>"
  let ?resp = "case md_answer D (management_rx s @ [request]) of Some r \<Rightarrow> r | None \<Rightarrow> RespError ''Response channel closed''"
  obtain w body where w: "send_management_response D ?resp (zm_request_id message) ?s = (Inr (), ?s\<lparr>mh_send := w\<rparr>)"
    "wrote w = wrote (mh_send ?s) @ frame (md_header D) (zero_copy_message Response (zm_request_id message) body)"
    "bin_serialize (md_response D) ?resp = Inr body"
    by (rule send_response_ok[OF assms(1,3,4) id, where r = ?resp and s = ?s])
  have "mgmt_stream_work D s = (Inr (), ?s\<lparr>mh_send := w\<rparr>)"
    using assms(6,8,9) w(1)
    by (auto simp: work act_then_apply process_management_message_def served_message_def
        mgmt_type_of_def handle_management_request_def deserialize_payload_def split: option.splits)
  with w(2,3) r' show ?thesis by (intro exI[of _ "?s\<lparr>mh_send := w\<rparr>"] exI[of _ body]) simp
qed

text \<open>
  No message that comes over a stream registers an event subscriber or changes a permission: the type
  byte of a stream message is never read as an event, and the handler of subscriptions registers nothing.
\<close>

theorem streams_never_subscribe:
  "event_subscribers (snd (mgmt_stream_work D s)) = event_subscribers s
   \<and> permissions (snd (mgmt_stream_work D s)) = permissions s \<and> mgmt_type_of t \<noteq> MgmtEvent
   \<and> handle_event_subscription message s = (Inr (), s)"
proof -
  let ?I = "\<lambda>u. event_subscribers u = event_subscribers s \<and> permissions u = permissions s"
  have send: "keeps ?I (mgmt_send f)" for f
    by (auto simp: keeps_def mgmt_send_def split: prod.splits)
  have resp: "keeps ?I (send_management_response D r i)" for r i
    unfolding send_management_response_def by (intro keeps_rules send)
  have req: "keeps ?I (handle_management_request D m p)" for m p
    unfolding handle_management_request_def by (intro keeps_rules resp keeps_update) auto
  have proc: "keeps ?I (process_management_message D m)" for m
    by (cases "zmm_type m")
      (auto simp: process_management_message_def handle_event_subscription_def handle_health_check_def
        intro!: keeps_rules resp req)
  have "keeps ?I (mgmt_stream_work D)"
    unfolding mgmt_stream_work_def
  proof (intro keeps_rules)
    show "keeps ?I (\<lambda>s. case read_message_zero_copy (md_reader D) (md_header D) (mh_recv s) of (r, x) \<Rightarrow> (r, s\<lparr>mh_recv := x\<rparr>))"
      by (auto simp: keeps_def split: prod.splits)
  qed (auto intro: proc split: prod.splits)
  then have "?I (snd (mgmt_stream_work D s))" by (simp add: keeps_def)
  moreover have "mgmt_type_of t \<noteq> MgmtEvent" by (cases t) (simp_all add: mgmt_type_of_def)
  ultimately show ?thesis by (simp add: handle_event_subscription_def)
qed

text \<open>
  The two permission checks of the management code agree on every role and operation, but for the member
  manager: the handler lets it read metrics, the log, snapshots and backups, the default permissions do not.
\<close>

theorem permission_checks_agree:
  assumes "permissions s node = Some p" and "tk_role token = mp_role p"
    and "role_permissions m = role_permissions auth_manager_new" and "validate_token now token m = Inr ()"
  shows "Auth.check_permission now token op m = Inr () \<longleftrightarrow> check_permission node op s
     \<and> \<not> (mp_role p = MemberManager \<and> (case op of GetMetrics _ \<Rightarrow> True | GetLogInfo \<Rightarrow> True | GetLogEntries _ _ \<Rightarrow> True
          | GetSnapshotInfo \<Rightarrow> True | ListBackups \<Rightarrow> True | _ \<Rightarrow> False))"
proof -
  have "role_permissions m (tk_role token) = role_permissions auth_manager_new (mp_role p)" using assms(2,3) by simp
  then have "Auth.check_permission now token op m = Inr () \<longleftrightarrow>
      (mp_role p = Admin \<or> operation_to_string op \<in> set (case mp_role p of
     Admin \<Rightarrow> [''*'']
   | Observer \<Rightarrow> [''get_cluster_status'', ''get_configuration'', ''get_metrics'', ''get_health_status'',
       ''get_log_info'', ''get_log_entries'', ''get_snapshot_info'', ''list_backups'']
   | MemberManager \<Rightarrow> [''get_cluster_status'', ''get_configuration'', ''get_health_status'',
       ''add_member'', ''remove_member'', ''update_member_role'']
   | Monitor \<Rightarrow> [''get_cluster_status'', ''get_metrics'', ''get_health_status'']))"
    using assms(4) default_permissions[of "mp_role p"]
    by (cases "mp_role p") (auto simp: check_permission_ok unrestricted_def time_allowed_def node_allowed_def)
  then show ?thesis using assms(1)
    by (cases "mp_role p"; cases op) (simp_all add: check_permission_def operation_to_string_def is_read_only_def)
qed


section \<open>Examples\<close>

text \<open>A manager that answers success, on streams in memory; the request decodes to a step down.\<close>

definition sample_mgmt :: "(bytes, bytes) mgmt_deps" where
  "sample_mgmt = \<lparr>md_writer = mem_writer, md_reader = mem_reader, md_header = header_wire,
     md_request = \<lparr>bin_serialize = \<lambda>r. Inr [7], bin_deserialize = \<lambda>bs. Inr \<lparr>mr_operation = StepDown, mr_timeout = None, mr_authorization = None\<rparr>\<rparr>,
     md_response = \<lparr>bin_serialize = \<lambda>r. Inr (string_bytes (case r of RespError e \<Rightarrow> ''E'' @ e | _ \<Rightarrow> ''ok'')), bin_deserialize = \<lambda>bs. Inl ''unused''\<rparr>,
     md_answer = \<lambda>rs. if length rs < 2 then Some RespSuccess else None\<rparr>"


text \<open>An observer may not make the leader step down, and yet a request to do so is handed to the manager and answered.\<close>

definition sample_handler :: "(bytes, bytes, nat) mgmt_handler" where
  "sample_handler = add_permissions \<lparr>mp_node_id = 9, mp_role = Observer, mp_allowed_operations = []\<rparr>
     (mgmt_handler_new [] (frame header_wire (zero_copy_message Request None [7])))"

theorem management_request_served_witness:
  "\<not> check_permission 9 StepDown sample_handler \<and> (\<exists>s'. mgmt_stream_work sample_mgmt sample_handler = (Inr (), s')
     \<and> management_rx s' = [\<lparr>mr_operation = StepDown, mr_timeout = None, mr_authorization = None\<rparr>]
     \<and> mh_send s' = frame header_wire (zero_copy_message Response None (string_bytes ''ok'')))"
proof -
  let ?m = "zero_copy_message Request None [7]"
  have ok: "writer_ok (md_writer sample_mgmt) id" "reader_ok (md_reader sample_mgmt) id" "header_ok (md_header sample_mgmt)"
    "\<forall>r. is_ok (bin_serialize (md_response sample_mgmt) r)"
    by (simp_all add: sample_mgmt_def mem_stream_ok header_wire_ok)
  have m: "message_fits ?m" "zm_type ?m = Request" by (simp_all add: message_fits_def zero_copy_message_def id_ok_def max_payload)
  have s: "id (mh_recv sample_handler) = frame (md_header sample_mgmt) ?m @ []" "management_open sample_handler"
    "bin_deserialize (md_request sample_mgmt) (zm_payload ?m) = Inr \<lparr>mr_operation = StepDown, mr_timeout = None, mr_authorization = None\<rparr>"
    by (simp_all add: sample_handler_def add_permissions_def mgmt_handler_new_def sample_mgmt_def)
  from management_request_served[OF ok m s] show ?thesis
    by (auto simp: sample_handler_def add_permissions_def mgmt_handler_new_def sample_mgmt_def zero_copy_message_def
        check_permission_def is_read_only_def)
qed

theorem permission_checks_agree_witness:
  "\<exists>token m. issue_token 5 9 ''peer'' Observer 1 None (add_trusted_issuer 1 auth_manager_new) = (Inr token, m)
     \<and> Auth.check_permission 6 token GetLogInfo m = Inr () \<and> check_permission 9 GetLogInfo sample_handler"
proof -
  let ?trusting = "add_trusted_issuer 1 auth_manager_new"
  let ?m = "snd (issue_token 5 9 ''peer'' Observer 1 None ?trusting)"
  have trusted: "trusted_issuers ?trusting = [1]"
    by (simp add: add_trusted_issuer_def auth_manager_new_def setup_default_permissions_def)
  obtain token where token: "issue_token 5 9 ''peer'' Observer 1 None ?trusting = (Inr token, ?m)" "tk_role token = Observer"
    "validate_token 6 token ?m = Inr ()"
    by (simp add: issue_token_def trusted Let_def validate_token_ok)
      (simp add: auth_manager_new_def setup_default_permissions_def add_trusted_issuer_def from_secs_def)
  have m: "role_permissions ?m = role_permissions auth_manager_new"
    by (simp add: issue_token_def trusted add_trusted_issuer_def Let_def)
  have p: "permissions sample_handler 9 = Some \<lparr>mp_node_id = 9, mp_role = Observer, mp_allowed_operations = []\<rparr>"
    by (simp add: sample_handler_def add_permissions_def)
  have c: "check_permission 9 GetLogInfo sample_handler" by (simp add: check_permission_def p is_read_only_def)
  from permission_checks_agree[OF p _ m token(3), of GetLogInfo] token(2) c have "Auth.check_permission 6 token GetLogInfo ?m = Inr ()"
    by simp
  with token c show ?thesis by blast
qed

end
