(* ===== verification/Discovery.thy ===== *)
theory Discovery
  imports MgmtProtocol
begin

text \<open>
  \<open>src/src/management/discovery.rs\<close>: what a node knows of clusters and their members, and how discovery
  messages change it. The hash map of clusters is a partial map. Each operation reads the clock once;
  \<open>SystemTime::elapsed\<close> fails for a time in the future. Nothing is sent by this module: the
  announcement, the bootstrap request and the heartbeat task build a message and drop it.
\<close>

section \<open>Data\<close>

record ClusterInfo =
  ci_cluster_id :: string
  ci_members :: "ClusterMember list"
  ci_leader :: "u64 option"
  ci_version :: string
  discovered_at :: system_time

record BootstrapResponse =
  br_success :: bool
  br_initial_members :: "ClusterMember list option"
  br_leader :: "u64 option"
  br_error :: "string option"

datatype DiscoveryMessage =
    Announce u64 string MemberRole string "string list" HealthStatus "RaftState option"
  | QueryCluster string u64
  | ClusterInfoMessage string "ClusterMember list" "u64 option" u64
  | BootstrapRequest u64 string "string list" string
  | BootstrapResponseMessage bool "ClusterMember list option" "u64 option" "string option"
  | Heartbeat u64 string HealthStatus system_time
  | Departure u64 string string

record ClusterDiscovery =
  clusters :: "string \<rightharpoonup> ClusterInfo"
  discovery_timeout :: duration
  cd_heartbeat_interval :: duration
  local_node_id :: "u64 option"
  local_cluster_id :: "string option"

record DiscoveryConfig =
  dc_enabled :: bool
  dc_discovery_timeout :: duration
  dc_heartbeat_interval :: duration
  bootstrap_nodes :: "string list"
  member_cache_ttl :: duration

definition default_discovery_config :: DiscoveryConfig where
  "default_discovery_config = \<lparr>dc_enabled = True, dc_discovery_timeout = from_secs 30, dc_heartbeat_interval = from_secs 10,
     bootstrap_nodes = [], member_cache_ttl = from_secs 300\<rparr>"

definition discovery_new :: ClusterDiscovery where
  "discovery_new = \<lparr>clusters = Map.empty, discovery_timeout = from_secs 30, cd_heartbeat_interval = from_secs 10,
     local_node_id = None, local_cluster_id = None\<rparr>"

definition discovery_new_for_node :: "u64 \<Rightarrow> string \<Rightarrow> ClusterDiscovery" where
  "discovery_new_for_node node_id cluster_id = discovery_new\<lparr>local_node_id := Some node_id, local_cluster_id := Some cluster_id\<rparr>"

definition with_timeouts :: "duration \<Rightarrow> duration \<Rightarrow> ClusterDiscovery \<Rightarrow> ClusterDiscovery" where
  "with_timeouts timeout interval s = s\<lparr>discovery_timeout := timeout, cd_heartbeat_interval := interval\<rparr>"

section \<open>Discovery\<close>

definition elapsed :: "system_time \<Rightarrow> system_time \<Rightarrow> duration option" where
  "elapsed now t = (if t \<le> now then Some (nat (now - t)) else None)"

definition DURATION_MAX :: duration where
  "DURATION_MAX = from_secs (2 ^ 64 - 1) + 999999999"

definition placeholder_member :: "system_time \<Rightarrow> u64 \<Rightarrow> string \<Rightarrow> ClusterMember" where
  "placeholder_member now n address = \<lparr>cm_node_id = n, cm_address = address, cm_role = Voter, cm_health = Healthy,
     cm_last_seen = now, cm_version = ''0.1.0''\<rparr>"

definition placeholder_cluster :: "system_time \<Rightarrow> string \<Rightarrow> ClusterInfo" where
  "placeholder_cluster now cluster_id = \<lparr>ci_cluster_id = cluster_id, ci_members =
       [placeholder_member now 1 ''127.0.0.1:8080'', placeholder_member now 2 ''127.0.0.1:8081'', placeholder_member now 3 ''127.0.0.1:8082''],
     ci_leader = Some 1, ci_version = ''0.1.0'', discovered_at = now\<rparr>"

definition perform_cluster_discovery :: "system_time \<Rightarrow> string \<Rightarrow> (ClusterDiscovery, ClusterInfo) action" where
  "perform_cluster_discovery now cluster_id = (let cluster_info = placeholder_cluster now cluster_id in
     act_then (act_update (\<lambda>s. s\<lparr>clusters := (clusters s)(cluster_id \<mapsto> cluster_info)\<rparr>)) (\<lambda>_. act_return cluster_info))"

definition discover_cluster :: "system_time \<Rightarrow> string \<Rightarrow> (ClusterDiscovery, ClusterInfo) action" where
  "discover_cluster now cluster_id = act_with (\<lambda>s. clusters s cluster_id) (\<lambda>cached. case cached of
     Some info \<Rightarrow> (if (case elapsed now (discovered_at info) of Some d \<Rightarrow> d | None \<Rightarrow> DURATION_MAX) < from_secs 60
         then act_return info else perform_cluster_discovery now cluster_id)
   | None \<Rightarrow> perform_cluster_discovery now cluster_id)"

definition announce_presence :: "u64 \<Rightarrow> string \<Rightarrow> MemberRole \<Rightarrow> string list \<Rightarrow> HealthStatus \<Rightarrow> RaftState option
    \<Rightarrow> (ClusterDiscovery, unit) action" where
  "announce_presence node_id cluster_id role endpoints health raft_state =
     (let announcement = Announce node_id cluster_id role ''0.1.0'' endpoints health raft_state in act_return ())"

definition request_bootstrap :: "u64 \<Rightarrow> string \<Rightarrow> string list \<Rightarrow> (ClusterDiscovery, BootstrapResponse) action" where
  "request_bootstrap node_id cluster_id endpoints =
     (let request = BootstrapRequest node_id cluster_id endpoints ''0.1.0'' in
      act_return \<lparr>br_success = True, br_initial_members = None, br_leader = None, br_error = None\<rparr>)"

section \<open>Members\<close>

text \<open>\<open>iter_mut().find(p)\<close> and a change of what it finds.\<close>

fun update_first :: "('a \<Rightarrow> bool) \<Rightarrow> ('a \<Rightarrow> 'a) \<Rightarrow> 'a list \<Rightarrow> 'a list" where
  "update_first p g [] = []"
| "update_first p g (x # xs) = (if p x then g x # xs else x # update_first p g xs)"

definition first_endpoint :: "string list \<Rightarrow> string \<Rightarrow> string" where
  "first_endpoint endpoints fallback = (case endpoints of [] \<Rightarrow> fallback | e # _ \<Rightarrow> e)"

definition update_member_info :: "system_time \<Rightarrow> string \<Rightarrow> u64 \<Rightarrow> string list \<Rightarrow> MemberRole \<Rightarrow> HealthStatus
    \<Rightarrow> ClusterDiscovery \<Rightarrow> ClusterDiscovery" where
  "update_member_info now cluster_id node_id endpoints role health s =
    (let info = (case clusters s cluster_id of Some info \<Rightarrow> info | None \<Rightarrow>
           \<lparr>ci_cluster_id = cluster_id, ci_members = [], ci_leader = None, ci_version = ''0.1.0'', discovered_at = now\<rparr>);
         members = (if \<exists>m \<in> set (ci_members info). cm_node_id m = node_id
           then update_first (\<lambda>m. cm_node_id m = node_id) (\<lambda>m. m\<lparr>cm_address := first_endpoint endpoints (cm_address m),
             cm_role := role, cm_health := health, cm_last_seen := now\<rparr>) (ci_members info)
           else ci_members info @ [\<lparr>cm_node_id = node_id, cm_address = first_endpoint endpoints ''unknown'', cm_role = role,
             cm_health = health, cm_last_seen = now, cm_version = ''0.1.0''\<rparr>])
     in s\<lparr>clusters := (clusters s)(cluster_id \<mapsto> info\<lparr>ci_members := members\<rparr>)\<rparr>)"

text \<open>\<open>get_mut(cluster_id)\<close> and a change of the members.\<close>

definition change_members :: "string \<Rightarrow> (ClusterMember list \<Rightarrow> ClusterMember list) \<Rightarrow> ClusterDiscovery \<Rightarrow> ClusterDiscovery" where
  "change_members cluster_id g s = (case clusters s cluster_id of None \<Rightarrow> s
     | Some info \<Rightarrow> s\<lparr>clusters := (clusters s)(cluster_id \<mapsto> info\<lparr>ci_members := g (ci_members info)\<rparr>)\<rparr>)"

definition update_member_health :: "system_time \<Rightarrow> string \<Rightarrow> u64 \<Rightarrow> HealthStatus \<Rightarrow> ClusterDiscovery \<Rightarrow> ClusterDiscovery" where
  "update_member_health now cluster_id node_id health = change_members cluster_id
     (update_first (\<lambda>m. cm_node_id m = node_id) (\<lambda>m. m\<lparr>cm_health := health, cm_last_seen := now\<rparr>))"

definition remove_member :: "string \<Rightarrow> u64 \<Rightarrow> ClusterDiscovery \<Rightarrow> ClusterDiscovery" where
  "remove_member cluster_id node_id = change_members cluster_id (filter (\<lambda>m. cm_node_id m \<noteq> node_id))"

definition process_discovery_message :: "system_time \<Rightarrow> DiscoveryMessage \<Rightarrow> (ClusterDiscovery, DiscoveryMessage option) action" where
  "process_discovery_message now message = (case message of
     QueryCluster cluster_id requesting_node \<Rightarrow> act_with id (\<lambda>s. case clusters s cluster_id of
         Some info \<Rightarrow> act_return (Some (ClusterInfoMessage cluster_id (ci_members info) (ci_leader info)
           (case local_node_id s of Some n \<Rightarrow> n | None \<Rightarrow> 0)))
       | None \<Rightarrow> act_return None)
   | ClusterInfoMessage cluster_id members leader _ \<Rightarrow> act_then (act_update (\<lambda>s. s\<lparr>clusters := (clusters s)(cluster_id \<mapsto>
         \<lparr>ci_cluster_id = cluster_id, ci_members = members, ci_leader = leader, ci_version = ''0.1.0'', discovered_at = now\<rparr>)\<rparr>)) (\<lambda>_.
       act_return None)
   | Announce node_id cluster_id role _ endpoints health _ \<Rightarrow>
       act_then (act_update (update_member_info now cluster_id node_id endpoints role health)) (\<lambda>_. act_return None)
   | BootstrapRequest node_id cluster_id _ _ \<Rightarrow> act_with id (\<lambda>s. if Some cluster_id = local_cluster_id s
       then (case clusters s cluster_id of
           Some info \<Rightarrow> act_return (Some (BootstrapResponseMessage True (Some (ci_members info)) (ci_leader info) None))
         | None \<Rightarrow> act_return None)
       else act_return None)
   | Heartbeat node_id cluster_id health _ \<Rightarrow>
       act_then (act_update (update_member_health now cluster_id node_id health)) (\<lambda>_. act_return None)
   | Departure node_id cluster_id _ \<Rightarrow> act_then (act_update (remove_member cluster_id node_id)) (\<lambda>_. act_return None)
   | _ \<Rightarrow> act_return None)"

definition get_known_clusters :: "ClusterDiscovery \<Rightarrow> string \<rightharpoonup> ClusterInfo" where
  "get_known_clusters s = clusters s"

definition clear_cache :: "ClusterDiscovery \<Rightarrow> ClusterDiscovery" where
  "clear_cache s = s\<lparr>clusters := Map.empty\<rparr>"

definition cleanup_stale_members :: "system_time \<Rightarrow> duration \<Rightarrow> ClusterDiscovery \<Rightarrow> ClusterDiscovery" where
  "cleanup_stale_members now max_age s = s\<lparr>clusters := \<lambda>c. map_option (\<lambda>info. info\<lparr>ci_members := filter (\<lambda>m.
     (case elapsed now (cm_last_seen m) of Some d \<Rightarrow> d | None \<Rightarrow> 0) < max_age) (ci_members info)\<rparr>) (clusters s c)\<rparr>"

section \<open>The table of members\<close>

text \<open>The specification: each cluster has a table of members by node id.\<close>

definition member_table :: "ClusterDiscovery \<Rightarrow> string \<Rightarrow> (u64 \<rightharpoonup> ClusterMember)" where
  "member_table s c = (case clusters s c of None \<Rightarrow> Map.empty | Some info \<Rightarrow> map_of (map (\<lambda>m. (cm_node_id m, m)) (ci_members info)))"

definition table_step :: "system_time \<Rightarrow> DiscoveryMessage \<Rightarrow> (string \<Rightarrow> (u64 \<rightharpoonup> ClusterMember)) \<Rightarrow> (string \<Rightarrow> (u64 \<rightharpoonup> ClusterMember))" where
  "table_step now message T = (case message of
     Announce n c role _ endpoints health _ \<Rightarrow> T(c := (T c)(n \<mapsto> (case T c n of
         Some m \<Rightarrow> m\<lparr>cm_address := first_endpoint endpoints (cm_address m), cm_role := role, cm_health := health, cm_last_seen := now\<rparr>
       | None \<Rightarrow> \<lparr>cm_node_id = n, cm_address = first_endpoint endpoints ''unknown'', cm_role = role, cm_health = health,
           cm_last_seen = now, cm_version = ''0.1.0''\<rparr>)))
   | Heartbeat n c health _ \<Rightarrow> T(c := (T c)(n := map_option (\<lambda>m. m\<lparr>cm_health := health, cm_last_seen := now\<rparr>) (T c n)))
   | Departure n c _ \<Rightarrow> T(c := (T c)(n := None))
   | ClusterInfoMessage c members _ _ \<Rightarrow> T(c := map_of (map (\<lambda>m. (cm_node_id m, m)) members))
   | _ \<Rightarrow> T)"

abbreviation by_node :: "ClusterMember list \<Rightarrow> (u64 \<rightharpoonup> ClusterMember)" where
  "by_node ms \<equiv> map_of (map (\<lambda>m. (cm_node_id m, m)) ms)"

lemma by_node_absent: "\<forall>m \<in> set ms. cm_node_id m \<noteq> n \<Longrightarrow> by_node ms n = None"
  by (induction ms) auto

lemma by_node_present: "\<exists>m \<in> set ms. cm_node_id m = n \<Longrightarrow> \<exists>m. by_node ms n = Some m"
  by (induction ms) auto

lemma by_node_update_first:
  assumes "\<And>m. cm_node_id (g m) = cm_node_id m"
  shows "by_node (update_first (\<lambda>m. cm_node_id m = n) g ms) = (by_node ms)(n := map_option g (by_node ms n))"
  by (induction ms) (auto simp: assms fun_eq_iff)

lemma by_node_append: "by_node ms (cm_node_id m) = None \<Longrightarrow> by_node (ms @ [m]) = (by_node ms)(cm_node_id m \<mapsto> m)"
  by (induction ms) (auto simp: fun_eq_iff split: if_splits)

lemma by_node_remove: "by_node (filter (\<lambda>m. cm_node_id m \<noteq> n) ms) = (by_node ms)(n := None)"
  by (induction ms) (auto simp: fun_eq_iff)

lemma member_table_set: "member_table (s\<lparr>clusters := (clusters s)(c \<mapsto> info)\<rparr>) = (member_table s)(c := by_node (ci_members info))"
  by (auto simp: member_table_def fun_eq_iff)

lemma member_table_change:
  assumes "\<And>ms. by_node (g ms) = (by_node ms)(n := u (by_node ms n))" and "u None = None"
  shows "member_table (change_members c g s) = (member_table s)(c := (member_table s c)(n := u (member_table s c n)))"
proof (cases "clusters s c")
  case None
  with assms(2) show ?thesis by (auto simp: change_members_def member_table_def fun_eq_iff)
next
  case (Some info)
  then have "member_table s c = by_node (ci_members info)" by (simp add: member_table_def)
  with Some show ?thesis by (simp add: change_members_def member_table_set assms(1))
qed

lemma member_table_announce:
  "member_table (update_member_info now c n endpoints role health s)
    = table_step now (Announce n c role v endpoints health r) (member_table s)"
proof -
  define ms where "ms = (case clusters s c of Some info \<Rightarrow> ci_members info | None \<Rightarrow> [])"
  have t: "member_table s c = by_node ms" by (simp add: member_table_def ms_def split: option.split)
  let ?upd = "\<lambda>m. m\<lparr>cm_address := first_endpoint endpoints (cm_address m), cm_role := role, cm_health := health, cm_last_seen := now\<rparr>"
  let ?new = "\<lparr>cm_node_id = n, cm_address = first_endpoint endpoints ''unknown'', cm_role = role, cm_health = health,
     cm_last_seen = now, cm_version = ''0.1.0''\<rparr>"
  have "member_table (update_member_info now c n endpoints role health s) = (member_table s)(c :=
     by_node (if \<exists>m \<in> set ms. cm_node_id m = n then update_first (\<lambda>m. cm_node_id m = n) ?upd ms else ms @ [?new]))"
    unfolding update_member_info_def Let_def member_table_set
    by (cases "clusters s c") (simp_all add: ms_def)
  also have "by_node (if \<exists>m \<in> set ms. cm_node_id m = n then update_first (\<lambda>m. cm_node_id m = n) ?upd ms else ms @ [?new])
     = (by_node ms)(n \<mapsto> (case by_node ms n of Some m \<Rightarrow> ?upd m | None \<Rightarrow> ?new))"
  proof (cases "\<exists>m \<in> set ms. cm_node_id m = n")
    case True
    then obtain m where "by_node ms n = Some m" using by_node_present by blast
    with True by_node_update_first[of ?upd n ms] show ?thesis by simp
  next
    case False
    then have "by_node ms n = None" by (intro by_node_absent) blast
    with False by_node_append[of ms ?new] show ?thesis by simp
  qed
  finally show ?thesis by (simp only: table_step_def t DiscoveryMessage.case)
qed

text \<open>
  C18: the lists of members implement tables by node id: every discovery message changes what is known exactly
  as it changes the tables, each cluster apart. An announcement adds a member or updates its address, role
  and health, a heartbeat updates the health of a known member only, a departure removes it.
\<close>

theorem discovery_refines_table:
  "member_table (snd (process_discovery_message now message s)) = table_step now message (member_table s)"
proof (cases message)
  case (Announce n c role v endpoints health r)
  with member_table_announce show ?thesis by (simp add: process_discovery_message_def)
next
  case (Heartbeat n c health t)
  have "by_node (update_first (\<lambda>m. cm_node_id m = n) (\<lambda>m. m\<lparr>cm_health := health, cm_last_seen := now\<rparr>) ms)
      = (by_node ms)(n := map_option (\<lambda>m. m\<lparr>cm_health := health, cm_last_seen := now\<rparr>) (by_node ms n))" for ms
    by (rule by_node_update_first) simp
  with Heartbeat show ?thesis
    by (simp add: process_discovery_message_def update_member_health_def table_step_def
        member_table_change[where u = "map_option (\<lambda>m. m\<lparr>cm_health := health, cm_last_seen := now\<rparr>)"])
next
  case (Departure n c reason)
  then show ?thesis
    by (simp add: process_discovery_message_def remove_member_def table_step_def
        member_table_change[where u = "\<lambda>_. None", OF by_node_remove])
next
  case (ClusterInfoMessage c members leader n)
  then show ?thesis by (simp add: process_discovery_message_def table_step_def member_table_set)
qed (auto simp: process_discovery_message_def table_step_def split: option.split)


section \<open>How long knowledge lasts\<close>

definition receive_all :: "(system_time \<times> DiscoveryMessage) list \<Rightarrow> ClusterDiscovery \<Rightarrow> ClusterDiscovery" where
  "receive_all msgs s = fold (\<lambda>(t, m) s. snd (process_discovery_message t m s)) msgs s"

definition tells_cluster :: "string \<Rightarrow> DiscoveryMessage \<Rightarrow> bool" where
  "tells_cluster c m \<longleftrightarrow> (case m of ClusterInfoMessage k _ _ _ \<Rightarrow> k = c | _ \<Rightarrow> False)"

lemma keeps_discovery_time:
  assumes "clusters s c = Some info" and "\<not> tells_cluster c m"
  shows "\<exists>info'. clusters (snd (process_discovery_message t m s)) c = Some info' \<and> discovered_at info' = discovered_at info"
proof (cases m)
  case (Announce n k role v endpoints health r)
  with assms show ?thesis by (auto simp: process_discovery_message_def update_member_info_def Let_def split: option.splits)
next
  case (Heartbeat n k health t)
  with assms show ?thesis
    by (auto simp: process_discovery_message_def update_member_health_def change_members_def split: option.splits)
next
  case (Departure n k reason)
  with assms show ?thesis by (auto simp: process_discovery_message_def remove_member_def change_members_def split: option.splits)
qed (use assms in \<open>auto simp: process_discovery_message_def tells_cluster_def split: option.splits\<close>)

lemma keeps_discovery_time_all:
  "clusters s c = Some info \<Longrightarrow> \<forall>(t, m) \<in> set msgs. \<not> tells_cluster c m \<Longrightarrow>
   \<exists>info'. clusters (receive_all msgs s) c = Some info' \<and> discovered_at info' = discovered_at info"
proof (induction msgs arbitrary: s info)
  case Nil
  then show ?case by (simp add: receive_all_def)
next
  case (Cons tm msgs)
  obtain t m where tm: "tm = (t, m)" by (cases tm)
  with Cons.prems obtain info1 where "clusters (snd (process_discovery_message t m s)) c = Some info1"
    "discovered_at info1 = discovered_at info" using keeps_discovery_time[of s c info m t] by auto
  with Cons.IH[of "snd (process_discovery_message t m s)" info1] Cons.prems(2) tm show ?case
    by (simp add: receive_all_def)
qed

text \<open>
  What the members say of themselves does not keep a cluster known. Sixty seconds after the last message
  about the whole cluster, whatever announcements and heartbeats came since, a discovery gives up all
  its members for three made-up ones on the local host, of which the first is the leader, and
  these are what the node tells others from then on. Before that it gives the members it has.
\<close>

theorem discovered_members_expire:
  assumes "clusters s c = Some info" and "\<forall>(t, m) \<in> set msgs. \<not> tells_cluster c m" and "discovered_at info \<le> now"
  shows "if now - discovered_at info < 60000000000
    then \<exists>known. discover_cluster now c (receive_all msgs s) = (Inr known, receive_all msgs s)
      \<and> by_node (ci_members known) = member_table (receive_all msgs s) c
    else \<exists>u. discover_cluster now c (receive_all msgs s) = (Inr (placeholder_cluster now c), u)
      \<and> dom (member_table u c) = {1, 2, 3} \<and> (\<forall>k. k \<noteq> c \<longrightarrow> member_table u k = member_table (receive_all msgs s) k)
      \<and> (\<exists>me. fst (process_discovery_message now (QueryCluster c asker) u)
          = Inr (Some (ClusterInfoMessage c (ci_members (placeholder_cluster now c)) (Some 1) me)))"
proof -
  let ?s = "receive_all msgs s"
  obtain info' where i: "clusters ?s c = Some info'" "discovered_at info' = discovered_at info"
    using keeps_discovery_time_all[OF assms(1,2)] by blast
  have fresh: "(case elapsed now (discovered_at info') of Some d \<Rightarrow> d | None \<Rightarrow> DURATION_MAX) < from_secs 60
      \<longleftrightarrow> now - discovered_at info < 60000000000"
    using assms(3) by (auto simp: elapsed_def i(2) from_secs_def)
  show ?thesis
  proof (cases "now - discovered_at info < 60000000000")
    case True
    with fresh i(1) show ?thesis by (simp add: discover_cluster_def member_table_def)
  next
    case False
    let ?u = "?s\<lparr>clusters := (clusters ?s)(c \<mapsto> placeholder_cluster now c)\<rparr>"
    have "discover_cluster now c ?s = (Inr (placeholder_cluster now c), ?u)"
      using False fresh i(1) by (simp add: discover_cluster_def perform_cluster_discovery_def Let_def)
    moreover have "member_table ?u c = by_node (ci_members (placeholder_cluster now c))" by (simp add: member_table_set)
    then have "dom (member_table ?u c) = {1, 2, 3}"
      by (auto simp: placeholder_cluster_def placeholder_member_def split: if_splits)
    moreover have "\<forall>k. k \<noteq> c \<longrightarrow> member_table ?u k = member_table ?s k" by (simp add: member_table_set)
    moreover have "\<exists>me. fst (process_discovery_message now (QueryCluster c asker) ?u)
          = Inr (Some (ClusterInfoMessage c (ci_members (placeholder_cluster now c)) (Some 1) me))"
      by (simp add: process_discovery_message_def placeholder_cluster_def)
    ultimately show ?thesis using False by (intro if_splits(2)[THEN iffD2]) blast
  qed
qed


theorem discovered_members_expire_witness:
  "\<exists>s u. discover_cluster 60000000000 ''a'' s = (Inr (placeholder_cluster 60000000000 ''a''), u)
     \<and> 8 \<in> dom (member_table s ''a'') \<and> dom (member_table u ''a'') = {1, 2, 3}"
proof -
  define s where "s = snd (process_discovery_message 0 (ClusterInfoMessage ''a'' [] None 7) discovery_new)"
  define info where "info = \<lparr>ci_cluster_id = ''a'', ci_members = [], ci_leader = None, ci_version = ''0.1.0'', discovered_at = 0\<rparr>"
  define msgs where "msgs = [(59000000000 :: system_time, Announce 8 ''a'' Voter ''0.1.0'' [] Healthy None)]"
  have s: "clusters s ''a'' = Some info" by (simp add: s_def info_def process_discovery_message_def)
  have m: "\<forall>(t, m) \<in> set msgs. \<not> tells_cluster ''a'' m" by (simp add: msgs_def tells_cluster_def)
  have t: "discovered_at info \<le> 60000000000" by (simp add: info_def)
  have "\<not> (60000000000 - discovered_at info < 60000000000)" by (simp add: info_def)
  with discovered_members_expire[OF s m t, where asker = 0] obtain u where
    "discover_cluster 60000000000 ''a'' (receive_all msgs s) = (Inr (placeholder_cluster 60000000000 ''a''), u)"
    "dom (member_table u ''a'') = {1, 2, 3}" by auto
  moreover have "8 \<in> dom (member_table (receive_all msgs s) ''a'')"
    by (simp add: receive_all_def msgs_def process_discovery_message_def table_step_def
        member_table_announce[where v = "''0.1.0''" and r = None])
  ultimately show ?thesis by blast
qed

end
