(* ===== verification/ClusterApi.thy ===== *)
theory ClusterApi
  imports Config Actions Steps
begin

text \<open>
  \<open>src/src/cluster_api.rs\<close>: the builder, the cluster handle and the handlers of its HTTP interface. The
  state machine of the user is a record of its methods; a fresh identifier and the clock are arguments.
  A JSON body is what the handlers ask it for, with the parsing of addresses; the body of a metrics
  answer is text. The registry of the optional metrics feature is left out. The locks of
  the handle are taken one at a time and for one operation, so that operations follow each other.
\<close>

section \<open>Data\<close>

type_synonym system_time = int

text \<open>The trait \<open>StateMachine\<close> of this file, for a machine \<open>'t\<close> with commands \<open>'c\<close> and states \<open>'s\<close>.\<close>

record ('t, 'c, 's) machine_trait =
  sm_apply :: "'c \<Rightarrow> 't \<Rightarrow> (error_text + unit) \<times> 't"
  sm_snapshot :: "'t \<Rightarrow> error_text + 's"
  sm_restore :: "'s \<Rightarrow> 't \<Rightarrow> (error_text + unit) \<times> 't"
  sm_query :: "'t \<Rightarrow> 's"

datatype NodeRole = Leader | Follower | Candidate | Learner
datatype NodeStatus = Online | Offline | UnknownStatus
datatype NodeState = StateLeader | StateFollower | StateCandidate | StatePreCandidate | StateLearner
datatype HealthStatus = Healthy | Degraded | Unhealthy
datatype CheckStatus = Pass | Warn | Fail

record NodeInfo =
  ni_id :: u64
  ni_address :: string
  ni_role :: NodeRole
  ni_status :: NodeStatus
  ni_last_contact :: "system_time option"
  ni_metadata :: "string \<rightharpoonup> string"

record ClusterStatus =
  cs_cluster_id :: string
  cs_leader_id :: "u64 option"
  cs_term :: u64
  cs_commit_index :: u64
  cs_applied_index :: u64
  cs_nodes :: "NodeInfo list"
  cs_state :: NodeState
  cs_last_updated :: system_time

record HealthCheck =
  hc_name :: string
  hc_status :: CheckStatus
  hc_message :: string
  hc_duration :: duration

record ClusterHealth =
  ch_status :: HealthStatus
  ch_checks :: "HealthCheck list"
  ch_summary :: string
  ch_timestamp :: system_time

record OperationResult =
  or_success :: bool
  or_message :: string
  or_operation_id :: string
  or_timestamp :: system_time

text \<open>\<open>tokio::sync::Notify\<close>, of which only \<open>notify_waiters\<close> is used: who waits, and who has been woken.\<close>

record notify =
  nt_waiting :: "nat list"
  nt_woken :: "nat list"

record 't ClusterInner =
  ci_node_id :: u64
  ci_config :: Config
  ci_state_machine :: 't
  ci_status :: ClusterStatus
  ci_health :: ClusterHealth
  ci_shutdown_tx :: "unit option"
  ci_shutdown_complete :: notify

record ClusterBuilder =
  cb_node_id :: u64
  cb_config :: Config
  cb_management_api_addr :: "string option"

section \<open>The builder\<close>

definition builder_new :: "u64 \<Rightarrow> ClusterBuilder" where
  "builder_new n = \<lparr>cb_node_id = n, cb_config = set_node (\<lambda>c. c\<lparr>node_id := Some n\<rparr>) default_config,
     cb_management_api_addr = None\<rparr>"

definition configure :: "(Config \<Rightarrow> Config) \<Rightarrow> ClusterBuilder \<Rightarrow> ClusterBuilder" where
  "configure f b = b\<lparr>cb_config := f (cb_config b)\<rparr>"

definition bind_address :: "string \<Rightarrow> ClusterBuilder \<Rightarrow> ClusterBuilder" where
  "bind_address addr = configure (set_transport (\<lambda>c. c\<lparr>Config.bind_address := addr\<rparr>))"

definition join_cluster :: "string list \<Rightarrow> ClusterBuilder \<Rightarrow> ClusterBuilder" where
  "join_cluster peers = configure (set_transport (\<lambda>c. c\<lparr>transport_peers := peers\<rparr>))"

definition data_dir :: "string \<Rightarrow> ClusterBuilder \<Rightarrow> ClusterBuilder" where
  "data_dir path = configure (set_node (\<lambda>c. c\<lparr>Config.data_dir := path\<rparr>))"

definition election_timeout :: "duration \<Rightarrow> ClusterBuilder \<Rightarrow> ClusterBuilder" where
  "election_timeout timeout = configure (set_raft (\<lambda>c. c\<lparr>election_timeout_min := timeout,
     election_timeout_max := timeout + from_millis 2000\<rparr>))"

definition heartbeat_interval :: "duration \<Rightarrow> ClusterBuilder \<Rightarrow> ClusterBuilder" where
  "heartbeat_interval interval = configure (set_raft (\<lambda>c. c\<lparr>Config.heartbeat_interval := interval\<rparr>))"

definition max_log_entries :: "u64 \<Rightarrow> ClusterBuilder \<Rightarrow> ClusterBuilder" where
  "max_log_entries n = configure (set_raft (\<lambda>c. c\<lparr>max_uncommitted_entries := n\<rparr>))"

definition enable_management_api :: "string \<Rightarrow> ClusterBuilder \<Rightarrow> ClusterBuilder" where
  "enable_management_api addr b = b\<lparr>cb_management_api_addr := Some addr\<rparr>"

definition enable_tracing :: "string \<Rightarrow> ClusterBuilder \<Rightarrow> ClusterBuilder" where
  "enable_tracing endpoint = configure (set_tracing (\<lambda>c. c\<lparr>tracing_enabled := True, otlp_endpoint := Some endpoint\<rparr>))"

definition tracing_sample_rate :: "f64_value \<Rightarrow> ClusterBuilder \<Rightarrow> ClusterBuilder" where
  "tracing_sample_rate rate = configure (set_tracing (\<lambda>c. c\<lparr>sample_rate := rate\<rparr>))"

definition debug :: "bool \<Rightarrow> ClusterBuilder \<Rightarrow> ClusterBuilder" where
  "debug enabled = configure (set_node (\<lambda>c. c\<lparr>node_debug := enabled\<rparr>))"

definition log_level :: "string \<Rightarrow> ClusterBuilder \<Rightarrow> ClusterBuilder" where
  "log_level level = configure (set_logging (\<lambda>c. c\<lparr>Config.log_level := level\<rparr>))"

definition build :: "(ConfigError \<Rightarrow> string) \<Rightarrow> string \<Rightarrow> system_time \<Rightarrow> 't \<Rightarrow> ClusterBuilder \<Rightarrow> RaftError + 't ClusterInner" where
  "build show_error uuid now state_machine b =
     and_then (map_err (\<lambda>e. InvalidConfiguration ''cluster_builder'' (''Configuration validation failed: '' @ show_error e))
         (validate (cb_config b))) (\<lambda>_.
       Inr \<lparr>ci_node_id = cb_node_id b, ci_config = cb_config b, ci_state_machine = state_machine,
         ci_status = \<lparr>cs_cluster_id = uuid, cs_leader_id = None, cs_term = 0, cs_commit_index = 0, cs_applied_index = 0,
           cs_nodes = [\<lparr>ni_id = cb_node_id b, ni_address = Config.bind_address (cfg_transport (cb_config b)),
             ni_role = Follower, ni_status = Online, ni_last_contact = Some now, ni_metadata = Map.empty\<rparr>],
           cs_state = StateFollower, cs_last_updated = now\<rparr>,
         ci_health = \<lparr>ch_status = Healthy, ch_checks = [], ch_summary = ''Cluster starting up'', ch_timestamp = now\<rparr>,
         ci_shutdown_tx = Some (), ci_shutdown_complete = \<lparr>nt_waiting = [], nt_woken = []\<rparr>\<rparr>)"

section \<open>The cluster handle\<close>

definition propose :: "('t, 'c, 's) machine_trait \<Rightarrow> 'c \<Rightarrow> ('t ClusterInner, unit) action" where
  "propose M command = (\<lambda>c. case sm_apply M command (ci_state_machine c) of (r, t) \<Rightarrow>
     (map_err (\<lambda>e. Internal (''State machine error: '' @ e)) r, c\<lparr>ci_state_machine := t\<rparr>))"

definition query :: "('t, 'c, 's) machine_trait \<Rightarrow> 't ClusterInner \<Rightarrow> 's" where
  "query M c = sm_query M (ci_state_machine c)"

definition change_status :: "(ClusterStatus \<Rightarrow> ClusterStatus) \<Rightarrow> 't ClusterInner \<Rightarrow> 't ClusterInner" where
  "change_status f c = c\<lparr>ci_status := f (ci_status c)\<rparr>"

definition add_node :: "string \<Rightarrow> system_time \<Rightarrow> u64 \<Rightarrow> string \<Rightarrow> ('t ClusterInner, OperationResult) action" where
  "add_node uuid now n address =
     act_then (act_update (change_status (\<lambda>st. st\<lparr>cs_nodes := cs_nodes st @ [\<lparr>ni_id = n, ni_address = address,
         ni_role = Learner, ni_status = UnknownStatus, ni_last_contact = None, ni_metadata = Map.empty\<rparr>],
         cs_last_updated := now\<rparr>))) (\<lambda>_.
       act_return \<lparr>or_success = True, or_message = ''Node '' @ show_nat (unat n) @ '' added successfully'',
         or_operation_id = uuid, or_timestamp = now\<rparr>)"

definition remove_node :: "string \<Rightarrow> system_time \<Rightarrow> u64 \<Rightarrow> ('t ClusterInner, OperationResult) action" where
  "remove_node uuid now n =
     act_then (act_update (change_status (\<lambda>st. st\<lparr>cs_nodes := filter (\<lambda>node. ni_id node \<noteq> n) (cs_nodes st),
         cs_last_updated := now\<rparr>))) (\<lambda>_.
       act_return \<lparr>or_success = True, or_message = ''Node '' @ show_nat (unat n) @ '' removed successfully'',
         or_operation_id = uuid, or_timestamp = now\<rparr>)"

definition transfer_leadership :: "string \<Rightarrow> system_time \<Rightarrow> u64 \<Rightarrow> ('t ClusterInner, OperationResult) action" where
  "transfer_leadership uuid now n = act_return \<lparr>or_success = True,
     or_message = ''Leadership transfer to node '' @ show_nat (unat n) @ '' initiated'', or_operation_id = uuid, or_timestamp = now\<rparr>"

definition health_now :: "system_time \<Rightarrow> ClusterHealth" where
  "health_now now = \<lparr>ch_status = Healthy, ch_checks = [
       \<lparr>hc_name = ''consensus'', hc_status = Pass, hc_message = ''Consensus algorithm functioning normally'', hc_duration = from_millis 1\<rparr>,
       \<lparr>hc_name = ''storage'', hc_status = Pass, hc_message = ''Storage backend operational'', hc_duration = from_millis 2\<rparr>,
       \<lparr>hc_name = ''network'', hc_status = Pass, hc_message = ''Network connectivity good'', hc_duration = from_millis 5\<rparr>],
     ch_summary = ''All systems operational'', ch_timestamp = now\<rparr>"

definition health :: "system_time \<Rightarrow> 't ClusterInner \<Rightarrow> ClusterHealth \<times> 't ClusterInner" where
  "health now c = (health_now now, c\<lparr>ci_health := health_now now\<rparr>)"

definition status :: "'t ClusterInner \<Rightarrow> ClusterStatus" where
  "status c = ci_status c"

definition notify_waiters :: "notify \<Rightarrow> notify" where
  "notify_waiters nt = \<lparr>nt_waiting = [], nt_woken = nt_woken nt @ nt_waiting nt\<rparr>"

definition shutdown :: "('t ClusterInner, unit) action" where
  "shutdown = act_then (act_update (\<lambda>c. c\<lparr>ci_shutdown_tx := None\<rparr>)) (\<lambda>_.
     act_then (act_update (\<lambda>c. c\<lparr>ci_shutdown_complete := notify_waiters (ci_shutdown_complete c)\<rparr>)) (\<lambda>_. act_return ()))"

text \<open>A task that waits: it is registered, and goes on once it is woken.\<close>

definition wait_for_shutdown :: "nat \<Rightarrow> 't ClusterInner \<Rightarrow> 't ClusterInner" where
  "wait_for_shutdown task c = c\<lparr>ci_shutdown_complete := (ci_shutdown_complete c)\<lparr>
     nt_waiting := nt_waiting (ci_shutdown_complete c) @ [task]\<rparr>\<rparr>"

section \<open>The HTTP interface\<close>

datatype StatusCode = BAD_REQUEST | NOT_FOUND | INTERNAL_SERVER_ERROR

record json_body =
  json_u64 :: "string \<Rightarrow> u64 option"
  json_str :: "string \<Rightarrow> string option"

definition ok_or :: "'a option \<Rightarrow> StatusCode \<Rightarrow> StatusCode + 'a" where
  "ok_or x code = (case x of Some a \<Rightarrow> Inr a | None \<Rightarrow> Inl code)"

text \<open>A call of the handle whose error becomes a status code.\<close>

definition respond :: "('t ClusterInner, 'a) action \<Rightarrow> 't ClusterInner \<Rightarrow> (StatusCode + 'a) \<times> 't ClusterInner" where
  "respond f c = (case f c of (r, c') \<Rightarrow> (map_err (\<lambda>_. INTERNAL_SERVER_ERROR) r, c'))"

definition http_get_cluster_status :: "'t ClusterInner \<Rightarrow> (StatusCode + ClusterStatus) \<times> 't ClusterInner" where
  "http_get_cluster_status c = (Inr (status c), c)"

definition http_get_cluster_health :: "system_time \<Rightarrow> 't ClusterInner \<Rightarrow> (StatusCode + ClusterHealth) \<times> 't ClusterInner" where
  "http_get_cluster_health now c = (case health now c of (h, c') \<Rightarrow> (Inr h, c'))"

definition http_transfer_leadership :: "string \<Rightarrow> system_time \<Rightarrow> json_body \<Rightarrow> 't ClusterInner \<Rightarrow> (StatusCode + OperationResult) \<times> 't ClusterInner" where
  "http_transfer_leadership uuid now payload c = (case ok_or (json_u64 payload ''target_node_id'') BAD_REQUEST of
     Inl code \<Rightarrow> (Inl code, c)
   | Inr target_node_id \<Rightarrow> respond (transfer_leadership uuid now target_node_id) c)"

definition http_list_nodes :: "'t ClusterInner \<Rightarrow> (StatusCode + NodeInfo list) \<times> 't ClusterInner" where
  "http_list_nodes c = (Inr (cs_nodes (status c)), c)"

definition http_add_node :: "(string \<Rightarrow> error_text + string) \<Rightarrow> string \<Rightarrow> system_time \<Rightarrow> json_body \<Rightarrow> 't ClusterInner
    \<Rightarrow> (StatusCode + OperationResult) \<times> 't ClusterInner" where
  "http_add_node parse uuid now payload c = (case ok_or (json_u64 payload ''node_id'') BAD_REQUEST of
     Inl code \<Rightarrow> (Inl code, c)
   | Inr n \<Rightarrow> (case ok_or (json_str payload ''address'') BAD_REQUEST of
       Inl code \<Rightarrow> (Inl code, c)
     | Inr address_str \<Rightarrow> (case map_err (\<lambda>_. BAD_REQUEST) (parse address_str) of
         Inl code \<Rightarrow> (Inl code, c)
       | Inr address \<Rightarrow> respond (add_node uuid now n address) c)))"

definition http_get_node :: "u64 \<Rightarrow> 't ClusterInner \<Rightarrow> (StatusCode + NodeInfo) \<times> 't ClusterInner" where
  "http_get_node n c = (ok_or (find (\<lambda>node. ni_id node = n) (cs_nodes (status c))) NOT_FOUND, c)"

definition http_remove_node :: "string \<Rightarrow> system_time \<Rightarrow> u64 \<Rightarrow> 't ClusterInner \<Rightarrow> (StatusCode + OperationResult) \<times> 't ClusterInner" where
  "http_remove_node uuid now n c = respond (remove_node uuid now n) c"

definition http_query_state :: "('t, 'c, 's) machine_trait \<Rightarrow> 't ClusterInner \<Rightarrow> (StatusCode + 's) \<times> 't ClusterInner" where
  "http_query_state M c = (Inr (query M c), c)"

text \<open>The answer says that a snapshot was made; the state machine is not asked for one. The third part is the time in seconds.\<close>

definition http_create_snapshot :: "nat \<Rightarrow> 't ClusterInner \<Rightarrow> (StatusCode + bool \<times> string \<times> nat) \<times> 't ClusterInner" where
  "http_create_snapshot now c = (Inr (True, ''Snapshot created successfully'', now div 1000000000), c)"

definition http_get_metrics :: "'t ClusterInner \<Rightarrow> (StatusCode + string) \<times> 't ClusterInner" where
  "http_get_metrics c = (Inr (''# Placeholder metrics'' @ [CHR 0x0A] @ ''iroh_raft_up 1'' @ [CHR 0x0A]), c)"


section \<open>Properties\<close>

lemmas built_configs = validate_def set_defs default_config_def default_node_def default_transport_def
  default_observability_def default_logging_def default_tracing_def log_levels_def rate_ok_def from_millis_def
  election_timeout_def heartbeat_interval_def configure_def builder_new_def

text \<open>
  With the default settings a cluster can be built exactly when its heartbeat interval is below the
  election timeout asked for; the default heartbeat interval rules out election timeouts of a second or less.
\<close>

theorem builder_timing:
  "(is_ok (build show_error uuid now machine (election_timeout t (heartbeat_interval h (builder_new n)))) \<longleftrightarrow> h < t)
   \<and> (is_ok (build show_error uuid now machine (election_timeout t (builder_new n))) \<longleftrightarrow> from_secs 1 < t)"
proof -
  have b: "is_ok (build show_error uuid now machine b) \<longleftrightarrow> validate (cb_config b) = Inr ()" for b
    by (cases "validate (cb_config b)") (simp_all add: build_def)
  show ?thesis unfolding b by (auto simp: built_configs default_raft_def from_secs_def)
qed

text \<open>The calls of a handle.\<close>

datatype 'c api_call = Propose 'c | AddNode u64 string | RemoveNode u64 | TransferLeadership u64 | Health
  | Shutdown | Wait nat

inductive api_step :: "('t, 'c, 's) machine_trait \<Rightarrow> 't ClusterInner \<Rightarrow> 'c api_call \<Rightarrow> 't ClusterInner \<Rightarrow> bool" for M where
  "propose M x c = (r, c') \<Longrightarrow> api_step M c (Propose x) c'"
| "add_node uuid now n address c = (r, c') \<Longrightarrow> api_step M c (AddNode n address) c'"
| "remove_node uuid now n c = (r, c') \<Longrightarrow> api_step M c (RemoveNode n) c'"
| "transfer_leadership uuid now n c = (r, c') \<Longrightarrow> api_step M c (TransferLeadership n) c'"
| "health now c = (h, c') \<Longrightarrow> api_step M c Health c'"
| "shutdown c = (r, c') \<Longrightarrow> api_step M c Shutdown c'"
| "api_step M c (Wait task) (wait_for_shutdown task c)"

definition apply_call :: "('t, 'c, 's) machine_trait \<Rightarrow> 'c api_call \<Rightarrow> 't \<Rightarrow> 't" where
  "apply_call M call t = (case call of Propose x \<Rightarrow> snd (sm_apply M x t) | _ \<Rightarrow> t)"

definition listed_after :: "'c api_call \<Rightarrow> u64 list \<Rightarrow> u64 list" where
  "listed_after call ns = (case call of AddNode n _ \<Rightarrow> ns @ [n] | RemoveNode n \<Rightarrow> filter (\<lambda>k. k \<noteq> n) ns | _ \<Rightarrow> ns)"

text \<open>What a status shows of the consensus.\<close>

definition consensus_view :: "ClusterStatus \<Rightarrow> u64 option \<times> u64 \<times> u64 \<times> u64 \<times> NodeState" where
  "consensus_view st = (cs_leader_id st, cs_term st, cs_commit_index st, cs_applied_index st, cs_state st)"

lemma map_ni_id_filter: "map ni_id (filter (\<lambda>node. ni_id node \<noteq> n) nodes) = filter (\<lambda>k. k \<noteq> n) (map ni_id nodes)"
  by (induction nodes) auto

lemma api_step_effect:
  assumes "api_step M c call c'"
  shows "consensus_view (ci_status c') = consensus_view (ci_status c)"
    and "ci_state_machine c' = apply_call M call (ci_state_machine c)"
    and "map ni_id (cs_nodes (ci_status c')) = listed_after call (map ni_id (cs_nodes (ci_status c)))"
  using assms
  by (auto simp: propose_def add_node_def remove_node_def transfer_leadership_def health_def shutdown_def wait_for_shutdown_def
      change_status_def consensus_view_def apply_call_def listed_after_def map_ni_id_filter elim!: api_step.cases split: prod.splits)

lemma api_run_effect:
  assumes "run (api_step M) c calls c'"
  shows "consensus_view (ci_status c') = consensus_view (ci_status c)
    \<and> ci_state_machine c' = fold (apply_call M) calls (ci_state_machine c)
    \<and> map ni_id (cs_nodes (ci_status c')) = fold listed_after calls (map ni_id (cs_nodes (ci_status c)))"
  using assms
proof (induction rule: run.induct)
  case (run_step c call c1 calls c')
  with api_step_effect[OF run_step.hyps(1)] show ?case by simp
qed simp

text \<open>
  C32: a cluster handle works alone. Whatever is called, it is a follower of no leader in term 0 with nothing
  committed or applied, and yet its state is that of its own machine after all proposals so far, in
  order, and its nodes are those the calls added and did not remove, with the node itself.
\<close>

theorem cluster_answers_alone:
  assumes "build show_error uuid now machine b = Inr c0" and "run (api_step M) c0 calls c"
  shows "consensus_view (status c) = (None, 0, 0, 0, StateFollower)
    \<and> query M c = sm_query M (fold (apply_call M) calls machine)
    \<and> fst (http_list_nodes c) = Inr (cs_nodes (status c))
    \<and> map ni_id (cs_nodes (status c)) = fold listed_after calls [cb_node_id b]"
proof -
  have "consensus_view (ci_status c0) = (None, 0, 0, 0, StateFollower)" "ci_state_machine c0 = machine"
    "map ni_id (cs_nodes (ci_status c0)) = [cb_node_id b]"
    using assms(1) by (auto simp: build_def and_then_Inr_iff consensus_view_def)
  with api_run_effect[OF assms(2)] show ?thesis by (simp add: status_def query_def http_list_nodes_def)
qed

lemma woken_step:
  assumes "api_step M c call c'" and "call \<noteq> Shutdown"
  shows "nt_woken (ci_shutdown_complete c') = nt_woken (ci_shutdown_complete c)
    \<and> set (nt_waiting (ci_shutdown_complete c)) \<subseteq> set (nt_waiting (ci_shutdown_complete c'))"
  using assms
  by (auto simp: propose_def add_node_def remove_node_def transfer_leadership_def health_def wait_for_shutdown_def
      change_status_def elim!: api_step.cases split: prod.splits)

text \<open>
  Only those who already wait learn of a shutdown. A task that starts to wait after the cluster was shut
  down waits for good, unless somebody shuts it down again.
\<close>

theorem late_waiter_hangs:
  assumes "shutdown c = (r, c1)" and "run (api_step M) (wait_for_shutdown task c1) calls c2"
    and "Shutdown \<notin> set calls" and "task \<notin> set (nt_woken (ci_shutdown_complete c1))"
  shows "r = Inr () \<and> task \<notin> set (nt_woken (ci_shutdown_complete c2)) \<and> task \<in> set (nt_waiting (ci_shutdown_complete c2))
    \<and> set (nt_waiting (ci_shutdown_complete c)) \<subseteq> set (nt_woken (ci_shutdown_complete c1))"
proof -
  have "run (api_step M) u calls c2 \<Longrightarrow> Shutdown \<notin> set calls \<Longrightarrow> nt_woken (ci_shutdown_complete c2) = nt_woken (ci_shutdown_complete u)
     \<and> set (nt_waiting (ci_shutdown_complete u)) \<subseteq> set (nt_waiting (ci_shutdown_complete c2))" for u
  proof (induction rule: run.induct)
    case (run_step u call v calls w)
    with woken_step[OF run_step.hyps(1)] show ?case by auto
  qed simp
  from this[OF assms(2,3)] show ?thesis using assms(1,4)
    by (auto simp: wait_for_shutdown_def shutdown_def notify_waiters_def)
qed

text \<open>
  Adding a node that is listed already succeeds, lists it twice, and a request for the node still
  shows the former address; removing it takes both away.
\<close>

theorem readded_node_shadowed:
  assumes "http_get_node n c = (Inr node, c)" and "http_add_node parse uuid now payload c = (Inr result, c')"
    and "json_u64 payload ''node_id'' = Some n"
  shows "or_success result \<and> http_get_node n c' = (Inr node, c')
    \<and> count_list (map ni_id (cs_nodes (status c'))) n = Suc (count_list (map ni_id (cs_nodes (status c))) n)
    \<and> fst (http_get_node n (snd (http_remove_node uuid now n c'))) = Inl NOT_FOUND"
proof -
  have f: "find (\<lambda>node. ni_id node = n) (cs_nodes (ci_status c)) = Some node"
    using assms(1) by (simp add: http_get_node_def ok_or_def status_def split: option.splits)
  then have "find (\<lambda>node. ni_id node = n) (cs_nodes (ci_status c) @ xs) = Some node" for xs
    by (induction "cs_nodes (ci_status c)" rule: list.induct) (auto simp: find_Some_iff nth_append)
  moreover have "find (\<lambda>node. ni_id node = n) (filter (\<lambda>node. ni_id node \<noteq> n) xs) = None" for xs :: "NodeInfo list"
    by (auto simp: find_None_iff)
  ultimately show ?thesis using assms(2,3)
    by (auto simp: http_add_node_def ok_or_def respond_def add_node_def change_status_def http_get_node_def http_remove_node_def
        remove_node_def status_def split: option.splits sum.splits)
qed


section \<open>Examples\<close>

text \<open>A counter as the state machine, in a cluster of node 1.\<close>

definition counter :: "(nat, nat, nat) machine_trait" where
  "counter = \<lparr>sm_apply = \<lambda>x t. if x = 0 then (Inl ''nothing to add'', t) else (Inr (), t + x),
     sm_snapshot = Inr, sm_restore = \<lambda>s t. (Inr (), s), sm_query = id\<rparr>"

definition sample_cluster :: "nat ClusterInner" where
  "sample_cluster = projr (build (\<lambda>_. '''') ''id'' 0 0 (builder_new 1))"

lemma sample_built: "build (\<lambda>_. '''') ''id'' 0 0 (builder_new 1) = Inr sample_cluster"
  by (simp add: sample_cluster_def build_def built_configs default_raft_def)

theorem cluster_answers_alone_witness:
  "\<exists>c. run (api_step counter) sample_cluster [Propose 3, Propose 0, AddNode 2 ''b'', Propose 4] c
     \<and> query counter c = 7 \<and> consensus_view (status c) = (None, 0, 0, 0, StateFollower)
     \<and> map ni_id (cs_nodes (status c)) = [1, 2]"
proof -
  define c1 where "c1 = snd (propose counter 3 sample_cluster)"
  define c2 where "c2 = snd (propose counter 0 c1)"
  define c3 where "c3 = snd (add_node ''x'' 0 2 ''b'' c2)"
  define c where "c = snd (propose counter 4 c3)"
  have "api_step counter sample_cluster (Propose 3) c1"
    by (rule api_step.intros(1)[where r = "fst (propose counter 3 sample_cluster)"]) (simp add: c1_def)
  moreover have "api_step counter c1 (Propose 0) c2"
    by (rule api_step.intros(1)[where r = "fst (propose counter 0 c1)"]) (simp add: c2_def)
  moreover have "api_step counter c2 (AddNode 2 ''b'') c3"
    by (rule api_step.intros(2)[where r = "fst (add_node ''x'' 0 2 ''b'' c2)" and uuid = "''x''" and now = 0]) (simp add: c3_def)
  moreover have "api_step counter c3 (Propose 4) c"
    by (rule api_step.intros(1)[where r = "fst (propose counter 4 c3)"]) (simp add: c_def)
  ultimately have r: "run (api_step counter) sample_cluster [Propose 3, Propose 0, AddNode 2 ''b'', Propose 4] c"
    by (simp add: run_Cons) blast
  from cluster_answers_alone[OF sample_built r] r show ?thesis
    by (auto simp: apply_call_def listed_after_def counter_def builder_new_def)
qed

theorem late_waiter_hangs_witness:
  "\<exists>r c1 c2. shutdown sample_cluster = (r, c1) \<and> run (api_step counter) (wait_for_shutdown 5 c1) [Propose 1] c2
     \<and> 5 \<notin> set (nt_woken (ci_shutdown_complete c2))"
proof -
  obtain r c1 where s: "shutdown sample_cluster = (r, c1)" by fastforce
  obtain x c2 where p: "propose counter 1 (wait_for_shutdown 5 c1) = (x, c2)" by fastforce
  have run: "run (api_step counter) (wait_for_shutdown 5 c1) [Propose 1] c2"
    using api_step.intros(1)[OF p] by (simp add: run_Cons)
  have "5 \<notin> set (nt_woken (ci_shutdown_complete c1))"
    using s by (auto simp: shutdown_def notify_waiters_def sample_cluster_def build_def built_configs default_raft_def)
  from late_waiter_hangs[OF s run _ this] s run show ?thesis by auto
qed

theorem readded_node_shadowed_witness:
  "\<exists>result c'. http_add_node Inr ''x'' 0 \<lparr>json_u64 = \<lambda>_. Some 1, json_str = \<lambda>_. Some ''elsewhere''\<rparr> sample_cluster = (Inr result, c')
     \<and> fst (http_get_node 1 c') = fst (http_get_node 1 sample_cluster)
     \<and> count_list (map ni_id (cs_nodes (status c'))) 1 = 2"
proof -
  let ?payload = "\<lparr>json_u64 = \<lambda>_. Some 1, json_str = \<lambda>_. Some ''elsewhere''\<rparr>"
  obtain result c' where a: "http_add_node Inr ''x'' 0 ?payload sample_cluster = (Inr result, c')"
    by (simp add: http_add_node_def ok_or_def respond_def add_node_def)
  obtain node where g: "http_get_node 1 sample_cluster = (Inr node, sample_cluster)"
    by (simp add: http_get_node_def ok_or_def status_def sample_cluster_def build_def built_configs default_raft_def)
  have "count_list (map ni_id (cs_nodes (status sample_cluster))) 1 = 1"
    by (simp add: status_def sample_cluster_def build_def built_configs default_raft_def)
  with readded_node_shadowed[OF g a] a g show ?thesis by auto
qed

end
