(* ===== verification/Actors.thy ===== *)
theory Actors
  imports Proposals Errors Steps "HOL-Library.Finite_Map"
begin

text \<open>
  \<open>src/src/actor_patterns.rs\<close>: the actor that owns the status of a node, and the one that owns the
  connections to the peers. Both are tasks that take commands from a bounded channel and answer each through a
  one-shot channel, for which the caller waits 100 milliseconds; that system is modelled once, for the
  handler of an actor. A connection is of type \<open>'c\<close>; the clock is an argument of the handler.
\<close>

section \<open>An actor and its callers\<close>

text \<open>
  A call is sending until there is room in the channel, and then waits. What was put into the channel and what the
  actor has done is kept, with the time, for the statements; the actor does not see it.
\<close>

datatype 'k call_phase = Sending 'k | Awaiting 'k
datatype 'k work = Did nat 'k instant | Kept instant

record ('k, 'r, 's) actor_system =
  ac_state :: 's
  ac_queue :: "(nat \<times> 'k) list"
  ac_running :: bool
  ac_calls :: "nat \<rightharpoonup> 'k call_phase"
  ac_replies :: "nat \<rightharpoonup> 'r"
  ac_returned :: "(nat \<times> 'k \<times> (RaftError + 'r)) list"
  ac_sent :: "(nat \<times> 'k) list"
  ac_log :: "'k work list"

definition ACTOR_CHANNEL_SIZE :: nat where "ACTOR_CHANNEL_SIZE = 1000"

text \<open>The texts of the methods: the closed channel, the operation of the timeout, and the closed response channel.\<close>

record 'k call_texts =
  ct_closed :: string
  ct_operation :: "'k \<Rightarrow> string"
  ct_response_closed :: "'k \<Rightarrow> string"

definition actor_init :: "'s \<Rightarrow> ('k, 'r, 's) actor_system" where
  "actor_init s = \<lparr>ac_state = s, ac_queue = [], ac_running = True, ac_calls = Map.empty, ac_replies = Map.empty, ac_returned = [],
     ac_sent = [], ac_log = []\<rparr>"

definition call_return :: "nat \<Rightarrow> 'k \<Rightarrow> RaftError + 'r \<Rightarrow> ('k, 'r, 's) actor_system \<Rightarrow> ('k, 'r, 's) actor_system" where
  "call_return ch k r a = a\<lparr>ac_calls := (ac_calls a)(ch := None), ac_replies := (ac_replies a)(ch := None),
     ac_returned := ac_returned a @ [(ch, k, r)]\<rparr>"

text \<open>\<open>sender.send(command).await\<close>: the error of a closed channel, or the command in the channel.\<close>

definition call_send :: "'k call_texts \<Rightarrow> nat \<Rightarrow> 'k \<Rightarrow> ('k, 'r, 's) actor_system \<Rightarrow> ('k, 'r, 's) actor_system option" where
  "call_send X ch k a =
    (if \<not> ac_running a then Some (call_return ch k (Inl (Internal (ct_closed X))) a)
     else if length (ac_queue a) < ACTOR_CHANNEL_SIZE
     then Some (a\<lparr>ac_queue := ac_queue a @ [(ch, k)], ac_calls := (ac_calls a)(ch \<mapsto> Awaiting k), ac_sent := ac_sent a @ [(ch, k)]\<rparr>)
     else None)"

text \<open>
  \<open>timeout(100 ms, response_rx).await\<close>: a reply that is there wins over the timeout; a one-shot sender that was dropped,
  with the actor or with its queue, is an error at once.
\<close>

definition call_wait :: "'k call_texts \<Rightarrow> bool \<Rightarrow> nat \<Rightarrow> 'k \<Rightarrow> ('k, 'r, 's) actor_system \<Rightarrow> ('k, 'r, 's) actor_system option" where
  "call_wait X elapsed ch k a = (case ac_replies a ch of
     Some r \<Rightarrow> Some (call_return ch k (Inr r) a)
   | None \<Rightarrow> if ch \<notin> fst ` set (ac_queue a) then Some (call_return ch k (Inl (Internal (ct_response_closed X k))) a)
             else if elapsed then Some (call_return ch k (Inl (Timeout (ct_operation X k) (from_millis 100))) a)
             else None)"

text \<open>The actor takes one command; the reply goes nowhere when the caller has gone.\<close>

definition actor_handle :: "(instant \<Rightarrow> 'k \<Rightarrow> 's \<Rightarrow> 'r \<times> 's) \<Rightarrow> instant \<Rightarrow> ('k, 'r, 's) actor_system \<Rightarrow> ('k, 'r, 's) actor_system" where
  "actor_handle h now a = (case ac_queue a of
     [] \<Rightarrow> a
   | (ch, k) # rest \<Rightarrow> (case h now k (ac_state a) of (r, s) \<Rightarrow>
       a\<lparr>ac_queue := rest, ac_state := s, ac_replies := (if ac_calls a ch = None then ac_replies a else (ac_replies a)(ch \<mapsto> r)),
         ac_log := ac_log a @ [Did ch k now]\<rparr>))"

datatype 'k actor_event = Call nat 'k | Send nat | Wait nat bool | Abandon nat | Handle instant | Upkeep instant | Stop

text \<open>The steps, for a handler \<open>h\<close> and the upkeep \<open>u\<close> the actor does by a timer.\<close>

inductive actor_step :: "'k call_texts \<Rightarrow> (instant \<Rightarrow> 'k \<Rightarrow> 's \<Rightarrow> 'r \<times> 's) \<Rightarrow> (instant \<Rightarrow> 's \<Rightarrow> 's)
    \<Rightarrow> ('k, 'r, 's) actor_system \<Rightarrow> 'k actor_event \<Rightarrow> ('k, 'r, 's) actor_system \<Rightarrow> bool" for X h u where
  call: "ac_calls a ch = None \<Longrightarrow> ch \<notin> fst ` set (ac_returned a) \<Longrightarrow> ch \<notin> fst ` set (ac_sent a) \<Longrightarrow>
    actor_step X h u a (Call ch k) (a\<lparr>ac_calls := (ac_calls a)(ch \<mapsto> Sending k)\<rparr>)"
| send: "ac_calls a ch = Some (Sending k) \<Longrightarrow> call_send X ch k a = Some a' \<Longrightarrow> actor_step X h u a (Send ch) a'"
| wait: "ac_calls a ch = Some (Awaiting k) \<Longrightarrow> call_wait X elapsed ch k a = Some a' \<Longrightarrow> actor_step X h u a (Wait ch elapsed) a'"
| abandon: "actor_step X h u a (Abandon ch) (a\<lparr>ac_calls := (ac_calls a)(ch := None), ac_replies := (ac_replies a)(ch := None)\<rparr>)"
| handle: "ac_running a \<Longrightarrow> actor_step X h u a (Handle now) (actor_handle h now a)"
| upkeep: "ac_running a \<Longrightarrow> actor_step X h u a (Upkeep now) (a\<lparr>ac_state := u now (ac_state a), ac_log := ac_log a @ [Kept now]\<rparr>)"
| stop: "actor_step X h u a Stop (a\<lparr>ac_running := False, ac_queue := []\<rparr>)"

section \<open>The status of a node\<close>

datatype NodeStatusCommand = GetStatus | UpdateStatus NodeStatus | UpdateRole NodeRole u64 "u64 option" | UpdateIndexes u64 u64 u64

text \<open>The answer: a status, or the unit of the updates.\<close>

fun run_status :: "instant \<Rightarrow> NodeStatusCommand \<Rightarrow> NodeStatus \<Rightarrow> NodeStatus option \<times> NodeStatus" where
  "run_status now GetStatus s = (Some s, s)"
| "run_status now (UpdateStatus status) s = (None, status)"
| "run_status now (UpdateRole r t l) s = (None, s\<lparr>ns_role := r, ns_term := t, ns_leader_id := l\<rparr>)"
| "run_status now (UpdateIndexes l c a) s = (None, s\<lparr>ns_last_log_index := l, ns_committed_index := c, ns_applied_index := a\<rparr>)"

definition status_texts :: "NodeStatusCommand call_texts" where
  "status_texts = \<lparr>ct_closed = ''Node status actor is closed'',
     ct_operation = (\<lambda>k. case k of GetStatus \<Rightarrow> ''get node status'' | UpdateStatus _ \<Rightarrow> ''update node status''
       | UpdateRole _ _ _ \<Rightarrow> ''update node role'' | UpdateIndexes _ _ _ \<Rightarrow> ''update node indexes''),
     ct_response_closed = (\<lambda>k. case k of GetStatus \<Rightarrow> ''Node status response channel closed''
       | UpdateStatus _ \<Rightarrow> ''Node status response channel closed'' | UpdateRole _ _ _ \<Rightarrow> ''Node role response channel closed''
       | UpdateIndexes _ _ _ \<Rightarrow> ''Node indexes response channel closed'')\<rparr>"

definition status_step :: "(NodeStatusCommand, NodeStatus option, NodeStatus) actor_system \<Rightarrow> NodeStatusCommand actor_event
    \<Rightarrow> (NodeStatusCommand, NodeStatus option, NodeStatus) actor_system \<Rightarrow> bool" where
  "status_step = actor_step status_texts run_status (\<lambda>_ s. s)"

section \<open>The connections\<close>

datatype 'c ConnectionPoolCommand = GetConnection u64 | AddConnection u64 'c | RemoveConnection u64 | HealthCheck | GetMetrics

record ConnectionPoolMetrics =
  active_connections :: u64
  total_created :: u64
  total_removed :: u64
  health_check_failures :: u64

datatype 'c pool_reply = Connection "'c option" | Stored | StaleIds "u64 list" | Metrics ConnectionPoolMetrics

record 'c ConnectionPool =
  pool_connections :: "(u64, 'c \<times> instant) fmap"
  pool_metrics :: ConnectionPoolMetrics

definition pool_new :: "'c ConnectionPool" where
  "pool_new = \<lparr>pool_connections = fmempty, pool_metrics = \<lparr>active_connections = 0, total_created = 0, total_removed = 0,
     health_check_failures = 0\<rparr>\<rparr>"

definition count_active :: "'c ConnectionPool \<Rightarrow> 'c ConnectionPool" where
  "count_active p = p\<lparr>pool_metrics := (pool_metrics p)\<lparr>active_connections := of_nat (fcard (fmdom (pool_connections p)))\<rparr>\<rparr>"

definition stale_timeout :: duration where "stale_timeout = from_secs 300"

definition is_stale :: "instant \<Rightarrow> 'c ConnectionPool \<Rightarrow> u64 \<Rightarrow> bool" where
  "is_stale now p peer = (case fmlookup (pool_connections p) peer of
     None \<Rightarrow> False | Some (_, last_activity) \<Rightarrow> duration_since now last_activity > stale_timeout)"

text \<open>The ids in the order \<open>order\<close> in which the map is iterated.\<close>

definition get_stale_connections :: "((u64, 'c \<times> instant) fmap \<Rightarrow> u64 list) \<Rightarrow> instant \<Rightarrow> 'c ConnectionPool \<Rightarrow> u64 list" where
  "get_stale_connections order now p = filter (is_stale now p) (order (pool_connections p))"

definition drop_stale :: "'c ConnectionPool \<Rightarrow> u64 \<Rightarrow> 'c ConnectionPool" where
  "drop_stale p peer = p\<lparr>pool_connections := fmdrop peer (pool_connections p),
     pool_metrics := (pool_metrics p)\<lparr>health_check_failures := health_check_failures (pool_metrics p) + 1\<rparr>\<rparr>"

definition perform_health_check :: "((u64, 'c \<times> instant) fmap \<Rightarrow> u64 list) \<Rightarrow> instant \<Rightarrow> 'c ConnectionPool \<Rightarrow> 'c ConnectionPool" where
  "perform_health_check order now p = count_active (foldl drop_stale p (get_stale_connections order now p))"

fun handle_command :: "((u64, 'c \<times> instant) fmap \<Rightarrow> u64 list) \<Rightarrow> instant \<Rightarrow> 'c ConnectionPoolCommand \<Rightarrow> 'c ConnectionPool
    \<Rightarrow> 'c pool_reply \<times> 'c ConnectionPool" where
  "handle_command order now (GetConnection peer) p = (Connection (map_option fst (fmlookup (pool_connections p) peer)), p)"
| "handle_command order now (AddConnection peer c) p = (let p = count_active (p\<lparr>pool_connections := fmupd peer (c, now) (pool_connections p)\<rparr>)
     in (Stored, p\<lparr>pool_metrics := (pool_metrics p)\<lparr>total_created := total_created (pool_metrics p) + 1\<rparr>\<rparr>))"
| "handle_command order now (RemoveConnection peer) p = (case fmlookup (pool_connections p) peer of
     None \<Rightarrow> (Connection None, p)
   | Some (c, _) \<Rightarrow> let p = count_active (p\<lparr>pool_connections := fmdrop peer (pool_connections p)\<rparr>)
       in (Connection (Some c), p\<lparr>pool_metrics := (pool_metrics p)\<lparr>total_removed := total_removed (pool_metrics p) + 1\<rparr>\<rparr>))"
| "handle_command order now HealthCheck p = (StaleIds (get_stale_connections order now p), p)"
| "handle_command order now GetMetrics p = (let p = count_active p in (Metrics (pool_metrics p), p))"

text \<open>No method of the handle sends \<open>HealthCheck\<close>, which therefore has no texts.\<close>

definition pool_texts :: "'c ConnectionPoolCommand call_texts" where
  "pool_texts = \<lparr>ct_closed = ''Connection pool actor is closed'',
     ct_operation = (\<lambda>k. case k of GetConnection _ \<Rightarrow> ''get connection'' | AddConnection _ _ \<Rightarrow> ''add connection''
       | RemoveConnection _ \<Rightarrow> ''remove connection'' | HealthCheck \<Rightarrow> '''' | GetMetrics \<Rightarrow> ''get connection metrics''),
     ct_response_closed = (\<lambda>k. case k of GetConnection _ \<Rightarrow> ''Get connection response channel closed''
       | AddConnection _ _ \<Rightarrow> ''Add connection response channel closed'' | RemoveConnection _ \<Rightarrow> ''Remove connection response channel closed''
       | HealthCheck \<Rightarrow> '''' | GetMetrics \<Rightarrow> ''Get metrics response channel closed'')\<rparr>"

definition pool_step :: "((u64, 'c \<times> instant) fmap \<Rightarrow> u64 list) \<Rightarrow> ('c ConnectionPoolCommand, 'c pool_reply, 'c ConnectionPool) actor_system
    \<Rightarrow> 'c ConnectionPoolCommand actor_event \<Rightarrow> ('c ConnectionPoolCommand, 'c pool_reply, 'c ConnectionPool) actor_system \<Rightarrow> bool" where
  "pool_step order = actor_step pool_texts (handle_command order) (perform_health_check order)"


section \<open>Serial service\<close>

text \<open>What a piece of work does to the state, and the commands among the work, with their callers.\<close>

fun work_effect :: "(instant \<Rightarrow> 'k \<Rightarrow> 's \<Rightarrow> 'r \<times> 's) \<Rightarrow> (instant \<Rightarrow> 's \<Rightarrow> 's) \<Rightarrow> 'k work \<Rightarrow> 's \<Rightarrow> 's" where
  "work_effect h u (Did ch k now) s = snd (h now k s)"
| "work_effect h u (Kept now) s = u now s"

fun did :: "'k work list \<Rightarrow> (nat \<times> 'k) list" where
  "did [] = []"
| "did (Did ch k now # ws) = (ch, k) # did ws"
| "did (Kept now # ws) = did ws"

lemma did_append [simp]: "did (xs @ ys) = did xs @ did ys"
  by (induction xs rule: did.induct) simp_all

text \<open>The reply to a command is that of the handler on the state left by the work before it.\<close>

definition answered :: "(instant \<Rightarrow> 'k \<Rightarrow> 's \<Rightarrow> 'r \<times> 's) \<Rightarrow> (instant \<Rightarrow> 's \<Rightarrow> 's) \<Rightarrow> 's \<Rightarrow> 'k work list \<Rightarrow> nat \<Rightarrow> 'k \<Rightarrow> 'r \<Rightarrow> bool" where
  "answered h u s0 ws ch k r \<longleftrightarrow> (\<exists>xs ys now. ws = xs @ Did ch k now # ys \<and> r = fst (h now k (fold (work_effect h u) xs s0)))"

lemma answered_more: "answered h u s0 ws ch k r \<Longrightarrow> answered h u s0 (ws @ vs) ch k r"
  by (fastforce simp: answered_def)

text \<open>
  The invariant of the system: the state is that of the work so far, the commands are done in the order they came, replies are
  those of the handler, and \<open>lost\<close> is what was in the channel when the actor was stopped.
\<close>

definition actor_inv :: "'k call_texts \<Rightarrow> (instant \<Rightarrow> 'k \<Rightarrow> 's \<Rightarrow> 'r \<times> 's) \<Rightarrow> (instant \<Rightarrow> 's \<Rightarrow> 's) \<Rightarrow> 's \<Rightarrow> (nat \<times> 'k) list
    \<Rightarrow> ('k, 'r, 's) actor_system \<Rightarrow> bool" where
  "actor_inv X h u s0 lost a \<longleftrightarrow> ac_state a = fold (work_effect h u) (ac_log a) s0
     \<and> ac_sent a = did (ac_log a) @ ac_queue a @ lost
     \<and> (ac_running a \<longrightarrow> lost = []) \<and> (ac_running a \<or> ac_queue a = []) \<and> distinct (map fst (ac_sent a))
     \<and> (\<forall>ch k. ac_calls a ch = Some (Sending k) \<longrightarrow> ch \<notin> fst ` set (ac_sent a))
     \<and> (\<forall>ch k. ac_calls a ch = Some (Awaiting k) \<longrightarrow> (ch, k) \<in> set (ac_sent a))
     \<and> distinct (map fst (ac_returned a)) \<and> (\<forall>ch. ch \<in> fst ` set (ac_returned a) \<longrightarrow> ac_calls a ch = None)
     \<and> (\<forall>ch r. ac_replies a ch = Some r \<longrightarrow> (\<exists>k. ac_calls a ch = Some (Awaiting k) \<and> answered h u s0 (ac_log a) ch k r))
     \<and> (\<forall>ch k. ac_calls a ch = Some (Awaiting k) \<longrightarrow> ac_running a \<and> ac_replies a ch = None \<longrightarrow> ch \<in> fst ` set (ac_queue a))
     \<and> (\<forall>ch k r. (ch, k, Inr r) \<in> set (ac_returned a) \<longrightarrow> answered h u s0 (ac_log a) ch k r)
     \<and> (\<forall>ch k e. (ch, k, Inl e) \<in> set (ac_returned a) \<longrightarrow> (ch, k) \<in> set (ac_sent a)
          \<and> (e = Timeout (ct_operation X k) (from_millis 100) \<or> \<not> ac_running a)
        \<or> e = Internal (ct_closed X) \<and> \<not> ac_running a)"

lemma actor_invD:
  assumes "actor_inv X h u s0 lost a"
  shows "ac_state a = fold (work_effect h u) (ac_log a) s0"
    and "ac_sent a = did (ac_log a) @ ac_queue a @ lost" and "ac_running a \<longrightarrow> lost = []"
    and "ac_running a \<or> ac_queue a = []" and "distinct (map fst (ac_sent a))"
    and "ac_calls a ch = Some (Sending k) \<Longrightarrow> ch \<notin> fst ` set (ac_sent a)"
    and "ac_calls a ch = Some (Awaiting k) \<Longrightarrow> (ch, k) \<in> set (ac_sent a)"
    and "distinct (map fst (ac_returned a))" and "ch \<in> fst ` set (ac_returned a) \<Longrightarrow> ac_calls a ch = None"
    and "ac_replies a ch = Some r \<Longrightarrow> (\<exists>k. ac_calls a ch = Some (Awaiting k) \<and> answered h u s0 (ac_log a) ch k r)"
    and "ac_calls a ch = Some (Awaiting k) \<Longrightarrow> ac_running a \<and> ac_replies a ch = None \<longrightarrow> ch \<in> fst ` set (ac_queue a)"
    and "(ch, k, Inr r) \<in> set (ac_returned a) \<Longrightarrow> answered h u s0 (ac_log a) ch k r"
    and "(ch, k, Inl e) \<in> set (ac_returned a) \<Longrightarrow> (ch, k) \<in> set (ac_sent a)
          \<and> (e = Timeout (ct_operation X k) (from_millis 100) \<or> \<not> ac_running a)
        \<or> e = Internal (ct_closed X) \<and> \<not> ac_running a"
  using assms unfolding actor_inv_def by - (elim conjE, (assumption | (drule spec)+, drule (1) mp, assumption))+

lemma actor_invI:
  assumes "ac_state a = fold (work_effect h u) (ac_log a) s0"
    and "ac_sent a = did (ac_log a) @ ac_queue a @ lost" and "ac_running a \<longrightarrow> lost = []"
    and "ac_running a \<or> ac_queue a = []" and "distinct (map fst (ac_sent a))"
    and "\<And>ch k. ac_calls a ch = Some (Sending k) \<Longrightarrow> ch \<notin> fst ` set (ac_sent a)"
    and "\<And>ch k. ac_calls a ch = Some (Awaiting k) \<Longrightarrow> (ch, k) \<in> set (ac_sent a)"
    and "distinct (map fst (ac_returned a))" and "\<And>ch. ch \<in> fst ` set (ac_returned a) \<Longrightarrow> ac_calls a ch = None"
    and "\<And>ch r. ac_replies a ch = Some r \<Longrightarrow> (\<exists>k. ac_calls a ch = Some (Awaiting k) \<and> answered h u s0 (ac_log a) ch k r)"
    and "\<And>ch k. ac_calls a ch = Some (Awaiting k) \<Longrightarrow> ac_running a \<and> ac_replies a ch = None \<longrightarrow> ch \<in> fst ` set (ac_queue a)"
    and "\<And>ch k r. (ch, k, Inr r) \<in> set (ac_returned a) \<Longrightarrow> answered h u s0 (ac_log a) ch k r"
    and "\<And>ch k e. (ch, k, Inl e) \<in> set (ac_returned a) \<Longrightarrow> (ch, k) \<in> set (ac_sent a)
          \<and> (e = Timeout (ct_operation X k) (from_millis 100) \<or> \<not> ac_running a)
        \<or> e = Internal (ct_closed X) \<and> \<not> ac_running a"
  shows "actor_inv X h u s0 lost a"
  unfolding actor_inv_def by (intro conjI; (fact assms | intro allI, rule impI, erule assms))

lemma call_return_simps [simp]:
  "ac_state (call_return ch k r a) = ac_state a" "ac_log (call_return ch k r a) = ac_log a" "ac_queue (call_return ch k r a) = ac_queue a"
  "ac_sent (call_return ch k r a) = ac_sent a" "ac_running (call_return ch k r a) = ac_running a"
  "ac_calls (call_return ch k r a) = (ac_calls a)(ch := None)" "ac_replies (call_return ch k r a) = (ac_replies a)(ch := None)"
  "ac_returned (call_return ch k r a) = ac_returned a @ [(ch, k, r)]"
  by (simp_all add: call_return_def)

lemma inv_return:
  assumes inv: "actor_inv X h u s0 lost a" and c: "ac_calls a ch = Some c"
    and good: "\<And>v. r = Inr v \<Longrightarrow> answered h u s0 (ac_log a) ch k v"
    and bad: "\<And>e. r = Inl e \<Longrightarrow> (ch, k) \<in> set (ac_sent a)
          \<and> (e = Timeout (ct_operation X k) (from_millis 100) \<or> \<not> ac_running a) \<or> e = Internal (ct_closed X) \<and> \<not> ac_running a"
  shows "actor_inv X h u s0 lost (call_return ch k r a)"
proof (rule actor_invI)
  note D = actor_invD[OF inv]
  have n: "ch \<notin> fst ` set (ac_returned a)" using D(9)[of ch] c by auto
  then show "distinct (map fst (ac_returned (call_return ch k r a)))" using D(8) by simp
  fix i x
  show "ac_calls (call_return ch k r a) i = Some (Sending x) \<Longrightarrow> i \<notin> fst ` set (ac_sent (call_return ch k r a))"
    using D(6)[of i x] by (simp split: if_splits)
  show "ac_calls (call_return ch k r a) i = Some (Awaiting x) \<Longrightarrow> (i, x) \<in> set (ac_sent (call_return ch k r a))"
    using D(7)[of i x] by (simp split: if_splits)
  show "ac_calls (call_return ch k r a) i = Some (Awaiting x) \<Longrightarrow>
      ac_running (call_return ch k r a) \<and> ac_replies (call_return ch k r a) i = None \<longrightarrow> i \<in> fst ` set (ac_queue (call_return ch k r a))"
    using D(11)[of i x] by (simp split: if_splits)
  show "i \<in> fst ` set (ac_returned (call_return ch k r a)) \<Longrightarrow> ac_calls (call_return ch k r a) i = None"
    using D(9)[of i] by auto
  show "ac_replies (call_return ch k r a) i = Some y \<Longrightarrow>
      \<exists>x. ac_calls (call_return ch k r a) i = Some (Awaiting x) \<and> answered h u s0 (ac_log (call_return ch k r a)) i x y" for y
    using D(10)[of i y] by (simp split: if_splits)
  show "(i, x, Inr y) \<in> set (ac_returned (call_return ch k r a)) \<Longrightarrow> answered h u s0 (ac_log (call_return ch k r a)) i x y" for y
    using D(12)[of i x y] good by auto
  show "(i, x, Inl e) \<in> set (ac_returned (call_return ch k r a)) \<Longrightarrow> (i, x) \<in> set (ac_sent (call_return ch k r a))
          \<and> (e = Timeout (ct_operation X x) (from_millis 100) \<or> \<not> ac_running (call_return ch k r a))
        \<or> e = Internal (ct_closed X) \<and> \<not> ac_running (call_return ch k r a)" for e
    using D(13)[of i x e] bad by auto
qed (use actor_invD(1-4,5)[OF inv] in simp_all)


lemma inv_start:
  assumes inv: "actor_inv X h u s0 lost a" and "ac_calls a ch = None" and "ch \<notin> fst ` set (ac_returned a)" and "ch \<notin> fst ` set (ac_sent a)"
  shows "actor_inv X h u s0 lost (a\<lparr>ac_calls := (ac_calls a)(ch \<mapsto> Sending k)\<rparr>)"
proof (rule actor_invI)
  let ?a = "a\<lparr>ac_calls := (ac_calls a)(ch \<mapsto> Sending k)\<rparr>"
  note D = actor_invD[OF inv]
  fix i x
  show "ac_calls ?a i = Some (Sending x) \<Longrightarrow> i \<notin> fst ` set (ac_sent ?a)" using D(6)[of i x] assms(4) by (simp split: if_splits)
  show "ac_calls ?a i = Some (Awaiting x) \<Longrightarrow> (i, x) \<in> set (ac_sent ?a)" using D(7)[of i x] by (simp split: if_splits)
  show "ac_calls ?a i = Some (Awaiting x) \<Longrightarrow> ac_running ?a \<and> ac_replies ?a i = None \<longrightarrow> i \<in> fst ` set (ac_queue ?a)"
    using D(11)[of i x] by (simp split: if_splits)
  show "i \<in> fst ` set (ac_returned ?a) \<Longrightarrow> ac_calls ?a i = None" using D(9)[of i] assms(3) by auto
  show "ac_replies ?a i = Some y \<Longrightarrow> \<exists>x. ac_calls ?a i = Some (Awaiting x) \<and> answered h u s0 (ac_log ?a) i x y" for y
    using D(10)[of i y] assms(2) by (cases "i = ch") auto
  show "(i, x, Inr y) \<in> set (ac_returned ?a) \<Longrightarrow> answered h u s0 (ac_log ?a) i x y" for y using D(12)[of i x y] by simp
  show "(i, x, Inl e) \<in> set (ac_returned ?a) \<Longrightarrow> (i, x) \<in> set (ac_sent ?a)
          \<and> (e = Timeout (ct_operation X x) (from_millis 100) \<or> \<not> ac_running ?a) \<or> e = Internal (ct_closed X) \<and> \<not> ac_running ?a" for e
    using D(13)[of i x e] by simp
qed (use actor_invD(1-4,5,8)[OF inv] in simp_all)

lemma inv_abandon:
  assumes inv: "actor_inv X h u s0 lost a"
  shows "actor_inv X h u s0 lost (a\<lparr>ac_calls := (ac_calls a)(ch := None), ac_replies := (ac_replies a)(ch := None)\<rparr>)"
proof (rule actor_invI)
  let ?a = "a\<lparr>ac_calls := (ac_calls a)(ch := None), ac_replies := (ac_replies a)(ch := None)\<rparr>"
  note D = actor_invD[OF inv]
  fix i x
  show "ac_calls ?a i = Some (Sending x) \<Longrightarrow> i \<notin> fst ` set (ac_sent ?a)" using D(6)[of i x] by (simp split: if_splits)
  show "ac_calls ?a i = Some (Awaiting x) \<Longrightarrow> (i, x) \<in> set (ac_sent ?a)" using D(7)[of i x] by (simp split: if_splits)
  show "ac_calls ?a i = Some (Awaiting x) \<Longrightarrow> ac_running ?a \<and> ac_replies ?a i = None \<longrightarrow> i \<in> fst ` set (ac_queue ?a)"
    using D(11)[of i x] by (simp split: if_splits)
  show "i \<in> fst ` set (ac_returned ?a) \<Longrightarrow> ac_calls ?a i = None" using D(9)[of i] by auto
  show "ac_replies ?a i = Some y \<Longrightarrow> \<exists>x. ac_calls ?a i = Some (Awaiting x) \<and> answered h u s0 (ac_log ?a) i x y" for y
    using D(10)[of i y] by (simp split: if_splits)
  show "(i, x, Inr y) \<in> set (ac_returned ?a) \<Longrightarrow> answered h u s0 (ac_log ?a) i x y" for y using D(12)[of i x y] by simp
  show "(i, x, Inl e) \<in> set (ac_returned ?a) \<Longrightarrow> (i, x) \<in> set (ac_sent ?a)
          \<and> (e = Timeout (ct_operation X x) (from_millis 100) \<or> \<not> ac_running ?a) \<or> e = Internal (ct_closed X) \<and> \<not> ac_running ?a" for e
    using D(13)[of i x e] by simp
qed (use actor_invD(1-4,5,8)[OF inv] in simp_all)

lemma inv_send:
  assumes inv: "actor_inv X h u s0 lost a" and c: "ac_calls a ch = Some (Sending k)" and s: "call_send X ch k a = Some a'"
  shows "actor_inv X h u s0 lost a'"
proof (cases "ac_running a")
  case False
  with s have a': "a' = call_return ch k (Inl (Internal (ct_closed X))) a" by (simp add: call_send_def)
  show ?thesis unfolding a' by (rule inv_return[OF inv c]) (use False in auto)
next
  case True
  note D = actor_invD[OF inv]
  have a': "a' = a\<lparr>ac_queue := ac_queue a @ [(ch, k)], ac_calls := (ac_calls a)(ch \<mapsto> Awaiting k), ac_sent := ac_sent a @ [(ch, k)]\<rparr>"
    using s True by (simp add: call_send_def split: if_splits)
  have f: "ch \<notin> fst ` set (ac_sent a)" using D(6)[OF c] .
  show ?thesis
  proof (rule actor_invI)
    fix i x
    show "ac_calls a' i = Some (Sending x) \<Longrightarrow> i \<notin> fst ` set (ac_sent a')" using D(6)[of i x] by (simp add: a' split: if_splits)
    show "ac_calls a' i = Some (Awaiting x) \<Longrightarrow> (i, x) \<in> set (ac_sent a')" using D(7)[of i x] by (simp add: a' split: if_splits)
    show "ac_calls a' i = Some (Awaiting x) \<Longrightarrow> ac_running a' \<and> ac_replies a' i = None \<longrightarrow> i \<in> fst ` set (ac_queue a')"
      using D(11)[of i x] by (simp add: a' split: if_splits)
    show "i \<in> fst ` set (ac_returned a') \<Longrightarrow> ac_calls a' i = None" using D(9)[of i] c by (cases "i = ch") (auto simp: a')
    show "ac_replies a' i = Some y \<Longrightarrow> \<exists>x. ac_calls a' i = Some (Awaiting x) \<and> answered h u s0 (ac_log a') i x y" for y
      using D(10)[of i y] c by (cases "i = ch") (auto simp: a')
    show "(i, x, Inr y) \<in> set (ac_returned a') \<Longrightarrow> answered h u s0 (ac_log a') i x y" for y using D(12)[of i x y] by (simp add: a')
    show "(i, x, Inl e) \<in> set (ac_returned a') \<Longrightarrow> (i, x) \<in> set (ac_sent a')
          \<and> (e = Timeout (ct_operation X x) (from_millis 100) \<or> \<not> ac_running a') \<or> e = Internal (ct_closed X) \<and> \<not> ac_running a'" for e
      using D(13)[of i x e] by (auto simp: a')
    show "distinct (map fst (ac_sent a'))" using D(5) f by (simp add: a')
    show "ac_sent a' = did (ac_log a') @ ac_queue a' @ lost" using D(2,3) True by (simp add: a')
  qed (use actor_invD(1,3,4,8)[OF inv] True in \<open>simp_all add: a'\<close>)
qed

lemma inv_wait:
  assumes inv: "actor_inv X h u s0 lost a" and c: "ac_calls a ch = Some (Awaiting k)" and s: "call_wait X elapsed ch k a = Some a'"
  shows "actor_inv X h u s0 lost a'"
proof (cases "ac_replies a ch")
  case (Some v)
  with s have a': "a' = call_return ch k (Inr v) a" by (simp add: call_wait_def)
  show ?thesis using inv_return[OF inv c, of "Inr v" k] actor_invD(10)[OF inv Some] c unfolding a' by auto
next
  case None
  note D = actor_invD[OF inv]
  obtain e where a': "a' = call_return ch k (Inl e) a" and e: "ch \<in> fst ` set (ac_queue a) \<Longrightarrow> e = Timeout (ct_operation X k) (from_millis 100)"
    using s None by (auto simp: call_wait_def split: if_splits)
  have "e = Timeout (ct_operation X k) (from_millis 100) \<or> \<not> ac_running a" using D(11)[OF c] None e by blast
  with D(7)[OF c] show ?thesis unfolding a' by (intro inv_return[OF inv c]) simp_all
qed

lemma inv_handle:
  assumes inv: "actor_inv X h u s0 lost a" and run: "ac_running a"
  shows "actor_inv X h u s0 lost (actor_handle h now a)"
proof (cases "ac_queue a")
  case (Cons q rest)
  obtain ch k where q: "q = (ch, k)" by (cases q)
  obtain r s where r: "h now k (ac_state a) = (r, s)" by fastforce
  note D = actor_invD[OF inv]
  let ?a = "a\<lparr>ac_queue := rest, ac_state := s, ac_replies := (if ac_calls a ch = None then ac_replies a else (ac_replies a)(ch \<mapsto> r)),
         ac_log := ac_log a @ [Did ch k now]\<rparr>"
  have new: "answered h u s0 (ac_log ?a) ch k r" unfolding answered_def
    by (intro exI[of _ "ac_log a"] exI[of _ "[]"] exI[of _ now]) (use r D(1) in simp)
  have old: "answered h u s0 (ac_log a) i x y \<Longrightarrow> answered h u s0 (ac_log ?a) i x y" for i x y by (simp add: answered_more)
  have in_sent: "(ch, k) \<in> set (ac_sent a)" using D(2) Cons q by simp
  have only: "(ch, x) \<in> set (ac_sent a) \<Longrightarrow> x = k" for x using in_sent eq_key_imp_eq_value[OF D(5)] by blast
  have known: "ch \<in> fst ` set (ac_sent a)" using imageI[OF in_sent, of fst] by simp
  have call: "x = Awaiting k" if x: "ac_calls a ch = Some x" for x
  proof (cases x)
    case (Sending z)
    with D(6)[of ch z] x known show ?thesis by simp
  next
    case (Awaiting z)
    with only D(7)[of ch z] x show ?thesis by simp
  qed
  have "actor_inv X h u s0 lost ?a"
  proof (rule actor_invI)
    fix i x
    show "ac_calls ?a i = Some (Awaiting x) \<Longrightarrow> ac_running ?a \<and> ac_replies ?a i = None \<longrightarrow> i \<in> fst ` set (ac_queue ?a)"
      using D(11)[of i x] Cons q by (auto split: if_splits)
    show "ac_replies ?a i = Some y \<Longrightarrow> \<exists>x. ac_calls ?a i = Some (Awaiting x) \<and> answered h u s0 (ac_log ?a) i x y" for y
      using D(10)[of i y] new old call by (cases "i = ch") (auto split: if_splits)
    show "(i, x, Inr y) \<in> set (ac_returned ?a) \<Longrightarrow> answered h u s0 (ac_log ?a) i x y" for y using D(12)[of i x y] old by simp
    show "(i, x, Inl e) \<in> set (ac_returned ?a) \<Longrightarrow> (i, x) \<in> set (ac_sent ?a)
          \<and> (e = Timeout (ct_operation X x) (from_millis 100) \<or> \<not> ac_running ?a) \<or> e = Internal (ct_closed X) \<and> \<not> ac_running ?a" for e
      using D(13)[of i x e] by simp
    show "i \<in> fst ` set (ac_returned ?a) \<Longrightarrow> ac_calls ?a i = None" using D(9)[of i] by simp
    show "ac_calls ?a i = Some (Sending x) \<Longrightarrow> i \<notin> fst ` set (ac_sent ?a)" using D(6)[of i x] by simp
    show "ac_calls ?a i = Some (Awaiting x) \<Longrightarrow> (i, x) \<in> set (ac_sent ?a)" using D(7)[of i x] by simp
    show "ac_state ?a = fold (work_effect h u) (ac_log ?a) s0" using D(1) r by simp
    show "ac_sent ?a = did (ac_log ?a) @ ac_queue ?a @ lost" using D(2) Cons q by simp
  qed (use actor_invD(3,5,8)[OF inv] run in simp_all)
  then show ?thesis by (simp add: actor_handle_def Cons q r)
qed (simp add: actor_handle_def inv)

lemma inv_upkeep:
  assumes inv: "actor_inv X h u s0 lost a"
  shows "actor_inv X h u s0 lost (a\<lparr>ac_state := u now (ac_state a), ac_log := ac_log a @ [Kept now]\<rparr>)"
proof (rule actor_invI)
  let ?a = "a\<lparr>ac_state := u now (ac_state a), ac_log := ac_log a @ [Kept now]\<rparr>"
  note D = actor_invD[OF inv]
  fix i x
  show "ac_replies ?a i = Some y \<Longrightarrow> \<exists>x. ac_calls ?a i = Some (Awaiting x) \<and> answered h u s0 (ac_log ?a) i x y" for y
    using D(10)[of i y] answered_more by fastforce
  show "(i, x, Inr y) \<in> set (ac_returned ?a) \<Longrightarrow> answered h u s0 (ac_log ?a) i x y" for y
    using D(12)[of i x y] by (simp add: answered_more)
  show "ac_calls ?a i = Some (Awaiting x) \<Longrightarrow> ac_running ?a \<and> ac_replies ?a i = None \<longrightarrow> i \<in> fst ` set (ac_queue ?a)"
    using D(11)[of i x] by simp
  show "(i, x, Inl e) \<in> set (ac_returned ?a) \<Longrightarrow> (i, x) \<in> set (ac_sent ?a)
          \<and> (e = Timeout (ct_operation X x) (from_millis 100) \<or> \<not> ac_running ?a) \<or> e = Internal (ct_closed X) \<and> \<not> ac_running ?a" for e
    using D(13)[of i x e] by simp
  show "i \<in> fst ` set (ac_returned ?a) \<Longrightarrow> ac_calls ?a i = None" using D(9)[of i] by simp
  show "ac_calls ?a i = Some (Sending x) \<Longrightarrow> i \<notin> fst ` set (ac_sent ?a)" using D(6)[of i x] by simp
  show "ac_calls ?a i = Some (Awaiting x) \<Longrightarrow> (i, x) \<in> set (ac_sent ?a)" using D(7)[of i x] by simp
qed (use actor_invD(1-4,5,8)[OF inv] in simp_all)


lemma inv_stop:
  assumes inv: "actor_inv X h u s0 lost a"
  shows "actor_inv X h u s0 (ac_queue a @ lost) (a\<lparr>ac_running := False, ac_queue := []\<rparr>)"
proof (rule actor_invI)
  let ?a = "a\<lparr>ac_running := False, ac_queue := []\<rparr>"
  note D = actor_invD[OF inv]
  fix i x
  show "ac_replies ?a i = Some y \<Longrightarrow> \<exists>x. ac_calls ?a i = Some (Awaiting x) \<and> answered h u s0 (ac_log ?a) i x y" for y
    using D(10)[of i y] by simp
  show "(i, x, Inr y) \<in> set (ac_returned ?a) \<Longrightarrow> answered h u s0 (ac_log ?a) i x y" for y using D(12)[of i x y] by simp
  show "(i, x, Inl e) \<in> set (ac_returned ?a) \<Longrightarrow> (i, x) \<in> set (ac_sent ?a)
          \<and> (e = Timeout (ct_operation X x) (from_millis 100) \<or> \<not> ac_running ?a) \<or> e = Internal (ct_closed X) \<and> \<not> ac_running ?a" for e
    using D(13)[of i x e] by auto
  show "i \<in> fst ` set (ac_returned ?a) \<Longrightarrow> ac_calls ?a i = None" using D(9)[of i] by simp
  show "ac_calls ?a i = Some (Sending x) \<Longrightarrow> i \<notin> fst ` set (ac_sent ?a)" using D(6)[of i x] by simp
  show "ac_calls ?a i = Some (Awaiting x) \<Longrightarrow> (i, x) \<in> set (ac_sent ?a)" using D(7)[of i x] by simp
qed (use actor_invD(1,2,5,8)[OF inv] in simp_all)

definition actor_ok :: "'k call_texts \<Rightarrow> (instant \<Rightarrow> 'k \<Rightarrow> 's \<Rightarrow> 'r \<times> 's) \<Rightarrow> (instant \<Rightarrow> 's \<Rightarrow> 's) \<Rightarrow> 's \<Rightarrow> ('k, 'r, 's) actor_system \<Rightarrow> bool" where
  "actor_ok X h u s0 a \<longleftrightarrow> (\<exists>lost. actor_inv X h u s0 lost a)"

lemma actor_init_ok: "actor_ok X h u s0 (actor_init s0)"
  unfolding actor_ok_def by (rule exI[of _ "[]"]) (rule actor_invI; simp add: actor_init_def)

lemma actor_step_ok:
  assumes "actor_ok X h u s0 a" and "actor_step X h u a ev a'"
  shows "actor_ok X h u s0 a'"
proof -
  obtain lost where inv: "actor_inv X h u s0 lost a" using assms(1) unfolding actor_ok_def by blast
  from assms(2) show ?thesis unfolding actor_ok_def
  proof (cases rule: actor_step.cases)
    case stop
    with inv_stop[OF inv] show "\<exists>lost. actor_inv X h u s0 lost a'" by blast
  qed (use inv in \<open>auto intro: inv_start inv_send inv_wait inv_abandon inv_handle inv_upkeep\<close>)
qed

text \<open>
  The interface the two actors provide: some commands only read, and the upkeep touches nothing a reader sees. What a
  reader sees is then the work of the writers before it, in the order the commands were sent.
\<close>

locale read_write_actor =
  fixes X :: "'k call_texts" and h :: "instant \<Rightarrow> 'k \<Rightarrow> 's \<Rightarrow> 'r \<times> 's" and u :: "instant \<Rightarrow> 's \<Rightarrow> 's"
    and view :: "'s \<Rightarrow> 'v" and spec :: "'k \<Rightarrow> 'v \<Rightarrow> 'v"
  assumes handler_writes: "view (snd (h now k s)) = spec k (view s)" and upkeep_hidden: "view (u now s) = view s"
begin

lemma view_log: "view (fold (work_effect h u) ws s) = fold spec (map snd (did ws)) (view s)"
  by (induction ws arbitrary: s rule: did.induct) (simp_all add: handler_writes upkeep_hidden)

lemma reachable_ok: "reachable (\<lambda>a. a = actor_init s0) (actor_step X h u) a \<Longrightarrow> actor_ok X h u s0 a"
  unfolding reachable_def
proof (elim exE conjE)
  fix a0 evs assume "a0 = actor_init s0" and r: "run (actor_step X h u) a0 evs a"
  then have "actor_ok X h u s0 a0" by (simp add: actor_init_ok)
  with r show ?thesis by (induction rule: run.induct) (auto intro: actor_step_ok)
qed

text \<open>A reply is that of the handler in some state with the view of the commands sent before.\<close>

lemma replies_serial:
  assumes "reachable (\<lambda>a. a = actor_init s0) (actor_step X h u) a" and "(ch, k, Inr r) \<in> set (ac_returned a)"
  shows "\<exists>i now s. i < length (ac_sent a) \<and> ac_sent a ! i = (ch, k) \<and> r = fst (h now k s)
    \<and> view s = fold spec (map snd (take i (ac_sent a))) (view s0)"
proof -
  obtain lost where inv: "actor_inv X h u s0 lost a" using reachable_ok[OF assms(1)] unfolding actor_ok_def by blast
  from actor_invD(12)[OF inv assms(2)] obtain xs ys now where log: "ac_log a = xs @ Did ch k now # ys"
    and r: "r = fst (h now k (fold (work_effect h u) xs s0))" unfolding answered_def by blast
  have sent: "ac_sent a = did xs @ (ch, k) # did ys @ ac_queue a @ lost" using actor_invD(2)[OF inv] log by simp
  show ?thesis
    by (intro exI[of _ "length (did xs)"] exI[of _ now] exI[of _ "fold (work_effect h u) xs s0"])
      (use sent r view_log in simp)
qed

lemma state_serial:
  assumes "reachable (\<lambda>a. a = actor_init s0) (actor_step X h u) a"
  shows "\<exists>lost. view (ac_state a) = fold spec (map snd (did (ac_log a))) (view s0)
    \<and> ac_sent a = did (ac_log a) @ ac_queue a @ lost \<and> (ac_running a \<longrightarrow> lost = [])"
proof -
  obtain lost where inv: "actor_inv X h u s0 lost a" using reachable_ok[OF assms(1)] unfolding actor_ok_def by blast
  from actor_invD(1-3)[OF inv] show ?thesis by (intro exI[of _ lost]) (simp add: view_log)
qed

lemma calls_serial:
  assumes "reachable (\<lambda>a. a = actor_init s0) (actor_step X h u) a"
  shows "distinct (map fst (ac_returned a)) \<and> distinct (map fst (ac_sent a))
    \<and> (ac_running a \<longrightarrow> (\<forall>(ch, k, r) \<in> set (ac_returned a). (ch, k) \<in> set (ac_sent a) \<and> (\<forall>e. r = Inl e \<longrightarrow> e = Timeout (ct_operation X k) (from_millis 100))))"
proof -
  obtain lost where inv: "actor_inv X h u s0 lost a" using reachable_ok[OF assms(1)] unfolding actor_ok_def by blast
  have "(ch, k) \<in> set (ac_sent a) \<and> (\<forall>e. r = Inl e \<longrightarrow> e = Timeout (ct_operation X k) (from_millis 100))"
    if "ac_running a" "(ch, k, r) \<in> set (ac_returned a)" for ch k r
  proof (cases r)
    case (Inl e)
    with actor_invD(13)[OF inv, of ch k e] that show ?thesis by auto
  next
    case (Inr v)
    with replies_serial[OF assms, of ch k v] that show ?thesis by (auto dest!: nth_mem)
  qed
  with actor_invD(5,8)[OF inv] show ?thesis by auto
qed

end


section \<open>The status actor\<close>

interpretation node_status: read_write_actor status_texts run_status "\<lambda>_ s. s" "\<lambda>s. s" "\<lambda>k s. snd (run_status 0 k s)"
proof
  show "snd (run_status now k s) = snd (run_status 0 k s)" for now k s by (cases k) simp_all
qed simp

text \<open>
  C16: the status actor is a register without races. However many handles call it and whatever they give up, the status is that of the
  updates it took, in the order they came; a status that is returned is that of exactly the updates sent before the question; while the actor
  runs, a call fails only by its timeout, and even then its update is in the channel or done, so that it still takes effect.
\<close>

theorem status_actor_serial:
  assumes "reachable (\<lambda>a. a = actor_init s0) status_step a"
  shows "ac_state a = fold (\<lambda>k s. snd (run_status 0 k s)) (map snd (did (ac_log a))) s0
    \<and> (ac_running a \<longrightarrow> ac_sent a = did (ac_log a) @ ac_queue a)
    \<and> (\<forall>ch k st. (ch, k, Inr (Some st)) \<in> set (ac_returned a) \<longrightarrow> k = GetStatus \<and> (\<exists>i < length (ac_sent a). ac_sent a ! i = (ch, k)
         \<and> st = fold (\<lambda>k s. snd (run_status 0 k s)) (map snd (take i (ac_sent a))) s0))
    \<and> (ac_running a \<longrightarrow> (\<forall>(ch, k, r) \<in> set (ac_returned a). (ch, k) \<in> set (ac_sent a)
         \<and> (\<forall>e. r = Inl e \<longrightarrow> e = Timeout (ct_operation status_texts k) (from_millis 100))))
    \<and> distinct (map fst (ac_returned a))"
proof -
  note r = assms[unfolded status_step_def]
  obtain lost where l: "ac_state a = fold (\<lambda>k s. snd (run_status 0 k s)) (map snd (did (ac_log a))) s0"
    "ac_sent a = did (ac_log a) @ ac_queue a @ lost" "ac_running a \<longrightarrow> lost = []"
    using node_status.state_serial[OF r] by auto
  have "k = GetStatus \<and> (\<exists>i < length (ac_sent a). ac_sent a ! i = (ch, k)
         \<and> st = fold (\<lambda>k s. snd (run_status 0 k s)) (map snd (take i (ac_sent a))) s0)"
    if answer: "(ch, k, Inr (Some st)) \<in> set (ac_returned a)" for ch k st
  proof -
    obtain i now s where "i < length (ac_sent a)" "ac_sent a ! i = (ch, k)" "Some st = fst (run_status now k s)"
      "s = fold (\<lambda>k s. snd (run_status 0 k s)) (map snd (take i (ac_sent a))) s0"
      using node_status.replies_serial[OF r answer] by blast
    then show ?thesis by (cases k) auto
  qed
  with l node_status.calls_serial[OF r] show ?thesis by auto
qed

section \<open>The connections actor\<close>

text \<open>The iteration of a map lists its keys, each once.\<close>

definition order_ok :: "((u64, 'c \<times> instant) fmap \<Rightarrow> u64 list) \<Rightarrow> bool" where
  "order_ok order \<longleftrightarrow> (\<forall>m. distinct (order m) \<and> set (order m) = fmdom' m)"

fun adds :: "'c ConnectionPoolCommand \<Rightarrow> u64" where
  "adds (AddConnection _ _) = 1"
| "adds _ = 0"

lemma drop_all_stale:
  "total_created (pool_metrics (foldl drop_stale p peers)) = total_created (pool_metrics p)"
  "total_removed (pool_metrics (foldl drop_stale p peers)) = total_removed (pool_metrics p)"
  "health_check_failures (pool_metrics (foldl drop_stale p peers)) = health_check_failures (pool_metrics p) + of_nat (length peers)"
  "fmlookup (pool_connections (foldl drop_stale p peers)) i = (if i \<in> set peers then None else fmlookup (pool_connections p) i)"
  by (induction peers arbitrary: p) (auto simp: drop_stale_def)

interpretation pool: read_write_actor pool_texts "handle_command order" "perform_health_check order"
    "\<lambda>p. total_created (pool_metrics p)" "\<lambda>k n. n + adds k" for order :: "(u64, 'c \<times> instant) fmap \<Rightarrow> u64 list"
proof
  show "total_created (pool_metrics (snd (handle_command order now k p))) = total_created (pool_metrics p) + adds k" for now k p
    by (cases k) (auto simp: count_active_def Let_def split: option.split)
  show "total_created (pool_metrics (perform_health_check order now p)) = total_created (pool_metrics p)" for now p
    by (simp add: perform_health_check_def count_active_def drop_all_stale)
qed


text \<open>The connections that were replaced by a new one to the same peer, over the work of the actor.\<close>

fun replaced :: "((u64, 'c \<times> instant) fmap \<Rightarrow> u64 list) \<Rightarrow> 'c ConnectionPoolCommand work list \<Rightarrow> 'c ConnectionPool \<Rightarrow> u64" where
  "replaced order [] p = 0"
| "replaced order (Did ch k now # ws) p = (case k of
     AddConnection peer _ \<Rightarrow> if fmlookup (pool_connections p) peer = None then 0 else 1 | _ \<Rightarrow> 0)
     + replaced order ws (snd (handle_command order now k p))"
| "replaced order (Kept now # ws) p = replaced order ws (perform_health_check order now p)"

definition pool_balance :: "'c ConnectionPool \<Rightarrow> u64" where
  "pool_balance p = of_nat (fcard (fmdom (pool_connections p))) + total_removed (pool_metrics p) + health_check_failures (pool_metrics p)
     - total_created (pool_metrics p)"

lemma card_upd: "fcard (finsert k (fmdom m)) = (if fmlookup m k = None then Suc (fcard (fmdom m)) else fcard (fmdom m))"
  by (auto simp: fcard_finsert_disjoint finsert_absorb fmdom_notI fmdomI)

lemma card_drop: "fmlookup m k \<noteq> None \<Longrightarrow> fcard (fmdom m) = Suc (fcard (fmdom (fmdrop k m)))"
  by (metis fcard_Suc_fminus1 fmdom_drop fmdom_notD)

lemma card_drop_all:
  assumes "distinct peers" and "set peers \<subseteq> fmdom' (pool_connections p)"
  shows "fcard (fmdom (pool_connections p)) = length peers + fcard (fmdom (pool_connections (foldl drop_stale p peers)))"
  using assms
proof (induction peers arbitrary: p)
  case (Cons x xs)
  have "fmlookup (pool_connections p) x \<noteq> None" using Cons.prems(2) by (auto simp: fmlookup_dom'_iff)
  from card_drop[OF this] have "fcard (fmdom (pool_connections p)) = Suc (fcard (fmdom (pool_connections (drop_stale p x))))"
    by (simp add: drop_stale_def)
  moreover have "set xs \<subseteq> fmdom' (pool_connections (drop_stale p x))" using Cons.prems by (auto simp: drop_stale_def)
  ultimately show ?case using Cons by simp
qed simp

lemma balance_command:
  "pool_balance (snd (handle_command order now k p)) = pool_balance p
     - (case k of AddConnection peer _ \<Rightarrow> if fmlookup (pool_connections p) peer = None then 0 else 1 | _ \<Rightarrow> 0)"
proof (cases k)
  case (RemoveConnection peer)
  then show ?thesis using card_drop[of "pool_connections p" peer]
    by (auto simp: pool_balance_def count_active_def Let_def split: option.split)
qed (simp_all add: pool_balance_def count_active_def Let_def card_upd)

lemma balance_upkeep:
  assumes "order_ok order"
  shows "pool_balance (perform_health_check order now p) = pool_balance p"
proof -
  let ?peers = "get_stale_connections order now p"
  have "distinct ?peers" "set ?peers \<subseteq> fmdom' (pool_connections p)"
    using assms unfolding order_ok_def get_stale_connections_def by auto
  from card_drop_all[OF this] show ?thesis
    by (simp add: perform_health_check_def count_active_def pool_balance_def drop_all_stale)
qed

lemma active_kept:
  assumes "active_connections (pool_metrics p) = of_nat (fcard (fmdom (pool_connections p)))"
  shows "active_connections (pool_metrics (work_effect (handle_command order) (perform_health_check order) w p))
    = of_nat (fcard (fmdom (pool_connections (work_effect (handle_command order) (perform_health_check order) w p))))"
proof (cases w)
  case (Did ch k now)
  then show ?thesis using assms by (cases k) (auto simp: count_active_def Let_def split: option.split)
qed (simp add: perform_health_check_def count_active_def)

lemma fold_adds: "fold (\<lambda>k n. n + adds k) ks n = n + sum_list (map adds ks)"
  by (induction ks arbitrary: n) (simp_all add: add.assoc)

text \<open>
  The counters of the connections actor. The number of active connections is that of the connections it holds; every connection it was
  given is held, was removed, was dropped by a health check or was replaced by a later one to the same peer, which no counter
  shows; so that created minus removed is more than what is left.
\<close>

theorem pool_accounts:
  assumes "order_ok order" and "reachable (\<lambda>a. a = actor_init pool_new) (pool_step order) a"
  shows "active_connections (pool_metrics (ac_state a)) = of_nat (fcard (fmdom (pool_connections (ac_state a))))
    \<and> total_created (pool_metrics (ac_state a)) = active_connections (pool_metrics (ac_state a)) + total_removed (pool_metrics (ac_state a))
        + health_check_failures (pool_metrics (ac_state a)) + replaced order (ac_log a) pool_new
    \<and> total_created (pool_metrics (ac_state a)) = sum_list (map (adds \<circ> snd) (did (ac_log a)))"
proof -
  note r = assms(2)[unfolded pool_step_def]
  obtain lost where inv: "actor_inv pool_texts (handle_command order) (perform_health_check order) pool_new lost a"
    using pool.reachable_ok[OF r] unfolding actor_ok_def by blast
  let ?f = "fold (work_effect (handle_command order) (perform_health_check order))"
  have "pool_balance (?f ws p) = pool_balance p - replaced order ws p" for ws p
    by (induction ws arbitrary: p rule: did.induct) (simp_all add: balance_command balance_upkeep[OF assms(1)])
  moreover have "pool_balance pool_new = 0" by (simp add: pool_balance_def pool_new_def fcard_fempty)
  ultimately have b: "pool_balance (ac_state a) = - replaced order (ac_log a) pool_new"
    using actor_invD(1)[OF inv] by simp
  have "active_connections (pool_metrics p) = of_nat (fcard (fmdom (pool_connections p))) \<Longrightarrow>
      active_connections (pool_metrics (?f ws p)) = of_nat (fcard (fmdom (pool_connections (?f ws p))))" for ws p
    by (induction ws arbitrary: p) (simp_all add: active_kept)
  then have act: "active_connections (pool_metrics (ac_state a)) = of_nat (fcard (fmdom (pool_connections (ac_state a))))"
    using actor_invD(1)[OF inv] by (simp add: pool_new_def fcard_fempty)
  have "total_created (pool_metrics (ac_state a)) = sum_list (map (adds \<circ> snd) (did (ac_log a)))"
    using pool.state_serial[OF r] by (auto simp: pool_new_def fold_adds)
  with act b show ?thesis by (simp add: pool_balance_def algebra_simps)
qed

text \<open>
  Using a connection does not keep it. However often a connection is asked for, the first health check later than five minutes
  after it was stored drops it, although each of these requests returned it.
\<close>

theorem used_connection_expires:
  assumes "order_ok order" and stored: "fmlookup (pool_connections p) peer = Some (c, t)" and late: "int stale_timeout < now - t"
    and uses: "\<forall>w \<in> set ws. \<exists>ch i. w = Did ch (GetConnection peer) i"
  shows "(\<forall>i. fst (handle_command order i (GetConnection peer) (fold (work_effect (handle_command order) u) ws p)) = Connection (Some c))
    \<and> fmlookup (pool_connections (perform_health_check order now (fold (work_effect (handle_command order) u) ws p))) peer = None"
proof -
  have "fold (work_effect (handle_command order) u) ws p = p"
    using uses by (induction ws) auto
  moreover have "peer \<in> set (get_stale_connections order now p)"
    using assms(1) stored late by (auto simp: get_stale_connections_def is_stale_def order_ok_def fmdom'I)
  ultimately show ?thesis using stored by (simp add: perform_health_check_def count_active_def drop_all_stale)
qed


section \<open>Examples\<close>

text \<open>An update that times out in the channel, and a question after it.\<close>

definition sample_status_calls :: "NodeStatusCommand actor_event list" where
  "sample_status_calls = [Call 1 (UpdateIndexes 5 4 3), Send 1, Call 2 GetStatus, Send 2, Wait 1 True, Handle 0, Handle 0, Wait 2 False]"

definition sample_status :: NodeStatus where
  "sample_status = (node_status_new 1)\<lparr>ns_last_log_index := 5, ns_committed_index := 4, ns_applied_index := 3\<rparr>"

definition sample_status_end :: "(NodeStatusCommand, NodeStatus option, NodeStatus) actor_system" where
  "sample_status_end = \<lparr>ac_state = sample_status, ac_queue = [], ac_running = True, ac_calls = Map.empty, ac_replies = Map.empty,
     ac_returned = [(1, UpdateIndexes 5 4 3, Inl (Timeout ''update node indexes'' (from_millis 100))), (2, GetStatus, Inr (Some sample_status))],
     ac_sent = [(1, UpdateIndexes 5 4 3), (2, GetStatus)], ac_log = [Did 1 (UpdateIndexes 5 4 3) 0, Did 2 GetStatus 0]\<rparr>"

lemmas actor_calls = actor_init_def call_send_def call_wait_def call_return_def actor_handle_def ACTOR_CHANNEL_SIZE_def

lemma sample_status_run: "run status_step (actor_init (node_status_new 1)) sample_status_calls sample_status_end"
proof -
  note rules = status_step_def
  let ?s0 = "actor_init (node_status_new 1) :: (NodeStatusCommand, NodeStatus option, NodeStatus) actor_system"
  let ?k = "UpdateIndexes 5 4 3"
  define s1 where "s1 = ?s0\<lparr>ac_calls := (ac_calls ?s0)(1 \<mapsto> Sending ?k)\<rparr>"
  define s2 where "s2 = the (call_send status_texts 1 ?k s1)"
  define s3 where "s3 = s2\<lparr>ac_calls := (ac_calls s2)(2 \<mapsto> Sending GetStatus)\<rparr>"
  define s4 where "s4 = the (call_send status_texts 2 GetStatus s3)"
  define s5 where "s5 = the (call_wait status_texts True 1 ?k s4)"
  define s6 where "s6 = actor_handle run_status 0 s5"
  define s7 where "s7 = actor_handle run_status 0 s6"
  note defs = s1_def s2_def s3_def s4_def s5_def s6_def s7_def actor_calls status_texts_def
  have "status_step ?s0 (Call 1 ?k) s1" unfolding rules s1_def by (rule call) (simp_all add: defs)
  moreover have "status_step s1 (Send 1) s2" unfolding rules by (rule send[where k = ?k]) (simp_all add: defs)
  moreover have "status_step s2 (Call 2 GetStatus) s3" unfolding rules s3_def by (rule call) (simp_all add: defs)
  moreover have "status_step s3 (Send 2) s4" unfolding rules by (rule send[where k = GetStatus]) (simp_all add: defs)
  moreover have "status_step s4 (Wait 1 True) s5" unfolding rules by (rule wait[where k = ?k]) (simp_all add: defs)
  moreover have "status_step s5 (Handle 0) s6" unfolding rules s6_def by (rule handle) (simp add: defs)
  moreover have "status_step s6 (Handle 0) s7" unfolding rules s7_def by (rule handle) (simp add: defs)
  moreover have "status_step s7 (Wait 2 False) sample_status_end" unfolding rules
    by (rule wait[where k = GetStatus]) (simp_all add: defs sample_status_end_def sample_status_def fun_eq_iff)
  ultimately show ?thesis unfolding sample_status_calls_def by (blast intro: run.intros)
qed

theorem status_actor_serial_witness:
  "reachable (\<lambda>a. a = actor_init (node_status_new 1)) status_step sample_status_end \<and> ac_state sample_status_end = sample_status
    \<and> sample_status = fold (\<lambda>k s. snd (run_status 0 k s)) [UpdateIndexes 5 4 3, GetStatus] (node_status_new 1)"
proof -
  have r: "reachable (\<lambda>a. a = actor_init (node_status_new 1)) status_step sample_status_end"
    unfolding reachable_def using sample_status_run by blast
  with status_actor_serial[OF r] show ?thesis by (simp add: sample_status_end_def)
qed

text \<open>A connection to peer 7 that is replaced.\<close>

definition sample_order :: "(u64, nat \<times> instant) fmap \<Rightarrow> u64 list" where
  "sample_order m = sorted_list_of_fset (fmdom m)"

lemma sample_order_ok: "order_ok sample_order"
  by (simp add: order_ok_def sample_order_def fmdom'_alt_def sorted_list_of_fset.rep_eq)

definition sample_pool_end :: "(nat ConnectionPoolCommand, nat pool_reply, nat ConnectionPool) actor_system" where
  "sample_pool_end = actor_handle (handle_command sample_order) 5 (actor_handle (handle_command sample_order) 0
     \<lparr>ac_state = pool_new, ac_queue = [(1, AddConnection 7 1), (2, AddConnection 7 2)], ac_running = True, ac_calls = [2 \<mapsto> Awaiting (AddConnection 7 2), 1 \<mapsto> Awaiting (AddConnection 7 1)],
      ac_replies = Map.empty, ac_returned = [], ac_sent = [(1, AddConnection 7 1), (2, AddConnection 7 2)], ac_log = []\<rparr>)"

theorem pool_accounts_witness:
  "reachable (\<lambda>a. a = actor_init pool_new) (pool_step sample_order) sample_pool_end
    \<and> active_connections (pool_metrics (ac_state sample_pool_end)) = 1 \<and> total_created (pool_metrics (ac_state sample_pool_end)) = 2
    \<and> replaced sample_order (ac_log sample_pool_end) pool_new = 1"
proof -
  note rules = pool_step_def
  let ?s0 = "actor_init pool_new :: (nat ConnectionPoolCommand, nat pool_reply, nat ConnectionPool) actor_system"
  let ?k = "AddConnection 7 1" and ?l = "AddConnection 7 2"
  define s1 where "s1 = ?s0\<lparr>ac_calls := (ac_calls ?s0)(1 \<mapsto> Sending ?k)\<rparr>"
  define s2 where "s2 = the (call_send pool_texts 1 ?k s1)"
  define s3 where "s3 = s2\<lparr>ac_calls := (ac_calls s2)(2 \<mapsto> Sending ?l)\<rparr>"
  define s4 where "s4 = the (call_send pool_texts 2 ?l s3)"
  define s5 where "s5 = actor_handle (handle_command sample_order) 0 s4"
  note defs = s1_def s2_def s3_def s4_def actor_calls
  have s4: "s4 = \<lparr>ac_state = pool_new, ac_queue = [(1, ?k), (2, ?l)], ac_running = True, ac_calls = [2 \<mapsto> Awaiting ?l, 1 \<mapsto> Awaiting ?k],
      ac_replies = Map.empty, ac_returned = [], ac_sent = [(1, ?k), (2, ?l)], ac_log = []\<rparr>"
    by (simp add: defs fun_eq_iff)
  have "pool_step sample_order ?s0 (Call 1 ?k) s1" unfolding rules s1_def by (rule call) (simp_all add: defs)
  moreover have "pool_step sample_order s1 (Send 1) s2" unfolding rules by (rule send[where k = ?k]) (simp_all add: defs)
  moreover have "pool_step sample_order s2 (Call 2 ?l) s3" unfolding rules s3_def by (rule call) (simp_all add: defs)
  moreover have "pool_step sample_order s3 (Send 2) s4" unfolding rules by (rule send[where k = ?l]) (simp_all add: defs)
  moreover have "pool_step sample_order s4 (Handle 0) s5" unfolding rules s5_def by (rule handle) (simp add: s4)
  moreover have "pool_step sample_order s5 (Handle 5) sample_pool_end" unfolding rules sample_pool_end_def s4[symmetric] s5_def[symmetric]
    by (rule handle) (simp add: s5_def s4 actor_handle_def Let_def)
  ultimately have "run (pool_step sample_order) ?s0 [Call 1 ?k, Send 1, Call 2 ?l, Send 2, Handle 0, Handle 5] sample_pool_end"
    by (blast intro: run.intros)
  then have r: "reachable (\<lambda>a. a = actor_init pool_new) (pool_step sample_order) sample_pool_end" unfolding reachable_def by blast
  have "replaced sample_order (ac_log sample_pool_end) pool_new = 1" "active_connections (pool_metrics (ac_state sample_pool_end)) = 1"
    "total_removed (pool_metrics (ac_state sample_pool_end)) = 0" "health_check_failures (pool_metrics (ac_state sample_pool_end)) = 0"
    by (simp_all add: sample_pool_end_def actor_handle_def Let_def count_active_def pool_new_def fcard.rep_eq)
  with r pool_accounts[OF sample_order_ok r] show ?thesis by simp
qed

theorem used_connection_expires_witness:
  "fmlookup (pool_connections (perform_health_check sample_order 301000000000
     (fold (work_effect (handle_command sample_order) (\<lambda>_ p. p)) [Did 1 (GetConnection 7) 299000000000]
       (pool_new\<lparr>pool_connections := fmupd 7 (1, 0) fmempty\<rparr>)))) 7 = None"
  using used_connection_expires[OF sample_order_ok, of "pool_new\<lparr>pool_connections := fmupd 7 (1, 0) fmempty\<rparr>" 7 1 0 301000000000
      "[Did 1 (GetConnection 7) 299000000000]" "\<lambda>_ p. p"]
  by (simp add: stale_timeout_def from_secs_def)

end
