(* ===== verification/Cluster.thy ===== *)
theory Cluster
  imports Config Errors Steps
begin

text \<open>
  \<open>src/src/cluster.rs\<close> and \<open>src/src/admin.rs\<close>: the cluster handle, whose calls are commands to a task, and the
  health and maintenance helpers. The types of a state machine's commands, queries and answers are
  type variables. The unbounded channel is a list, a one-shot channel a number that names its state, and the
  interleavings of the callers with the task are a step relation; a call can be given up while
  it waits. The handle is consumed by its shutdown, so that none of its calls is waiting then: they borrow it.
\<close>

section \<open>Data\<close>

type_synonym system_time = int

datatype NodeRole = Follower | Candidate | Leader
datatype Health = Healthy | Degraded | Unhealthy

record MemberConfig =
  mc_node_id :: u64
  mc_address :: string
  mc_metadata :: "(string \<rightharpoonup> string) option"

record HealthStatus =
  hs_overall :: Health
  hs_components :: "string \<rightharpoonup> Health"
  hs_last_check :: system_time

record ClusterMetrics =
  total_proposals :: u64
  successful_proposals :: u64
  failed_proposals :: u64
  total_queries :: u64
  avg_proposal_latency_ms :: f64_value
  avg_query_latency_ms :: f64_value
  memory_usage_bytes :: u64
  storage_size_bytes :: u64

record ClusterStatus =
  st_node_id :: u64
  st_role :: NodeRole
  st_term :: u64
  st_commit_index :: u64
  st_applied_index :: u64
  st_members :: "u64 list"
  st_leader_id :: "u64 option"
  st_health :: HealthStatus
  st_metrics :: ClusterMetrics

record ClusterConfig =
  cc_name :: "string option"
  cc_node_count :: u64
  cc_replication_factor :: u64
  cc_election_timeout_ms :: "u64 \<times> u64"
  cc_heartbeat_interval_ms :: u64

record MemberInfo =
  mi_node_id :: u64
  mi_address :: string
  mi_role :: NodeRole
  mi_reachable :: bool
  mi_last_seen :: system_time
  mi_metadata :: "string \<rightharpoonup> string"

record ClusterMembership =
  cm_members :: "MemberInfo list"
  cm_leader :: "MemberInfo option"
  cm_joining :: "MemberInfo list"
  cm_leaving :: "MemberInfo list"

record ClusterStatistics =
  uptime_seconds :: u64
  total_operations :: u64
  ops_per_second :: f64_value
  avg_latency_ms :: f64_value
  error_rate_percent :: f64_value

record ClusterInfo =
  info_config :: ClusterConfig
  info_membership :: ClusterMembership
  info_statistics :: ClusterStatistics

text \<open>A command without its response channel, and what goes through that channel.\<close>

datatype ('c, 'q) ClusterCommand = Propose 'c | Query 'q | AddMember MemberConfig | RemoveMember u64
  | TransferLeadership u64 | GetStatus | HealthCheck | GetClusterInfo | TakeSnapshot | CompactLog u64

datatype ('r, 'a) reply = Response "RaftError + 'r" | QueryResponse "RaftError + 'a" | Done "RaftError + unit"
  | Status ClusterStatus | HealthReport HealthStatus | Info ClusterInfo | SnapshotTaken "RaftError + string"

section \<open>Default values\<close>

definition default_metrics :: ClusterMetrics where
  "default_metrics = \<lparr>total_proposals = 0, successful_proposals = 0, failed_proposals = 0, total_queries = 0,
     avg_proposal_latency_ms = Finite 0, avg_query_latency_ms = Finite 0, memory_usage_bytes = 0, storage_size_bytes = 0\<rparr>"

definition default_info :: ClusterInfo where
  "default_info = \<lparr>
     info_config = \<lparr>cc_name = None, cc_node_count = 0, cc_replication_factor = 0, cc_election_timeout_ms = (0, 0),
       cc_heartbeat_interval_ms = 0\<rparr>,
     info_membership = \<lparr>cm_members = [], cm_leader = None, cm_joining = [], cm_leaving = []\<rparr>,
     info_statistics = \<lparr>uptime_seconds = 0, total_operations = 0, ops_per_second = Finite 0, avg_latency_ms = Finite 0,
       error_rate_percent = Finite 0\<rparr>\<rparr>"

definition health_now :: "Health \<Rightarrow> system_time \<Rightarrow> HealthStatus" where
  "health_now h now = \<lparr>hs_overall = h, hs_components = Map.empty, hs_last_check = now\<rparr>"

definition idle_status :: "u64 \<Rightarrow> HealthStatus \<Rightarrow> ClusterStatus" where
  "idle_status n h = \<lparr>st_node_id = n, st_role = Follower, st_term = 0, st_commit_index = 0, st_applied_index = 0,
     st_members = [], st_leader_id = None, st_health = h, st_metrics = default_metrics\<rparr>"

section \<open>The task\<close>

text \<open>What the task sends for a command; the clock is read for the two answers that carry a time.\<close>

definition handle_cluster_command :: "system_time \<Rightarrow> ('c, 'q) ClusterCommand \<Rightarrow> ('r, 'a) reply" where
  "handle_cluster_command now command = (case command of
     Propose _ \<Rightarrow> Response (Inl (NotImplemented ''cluster proposals''))
   | Query _ \<Rightarrow> QueryResponse (Inl (NotImplemented ''cluster queries''))
   | AddMember _ \<Rightarrow> Done (Inl (NotImplemented ''add member''))
   | RemoveMember _ \<Rightarrow> Done (Inl (NotImplemented ''remove member''))
   | TransferLeadership _ \<Rightarrow> Done (Inl (NotImplemented ''transfer leadership''))
   | GetStatus \<Rightarrow> Status (idle_status 0 (health_now Healthy now))
   | HealthCheck \<Rightarrow> HealthReport (health_now Healthy now)
   | GetClusterInfo \<Rightarrow> Info default_info
   | TakeSnapshot \<Rightarrow> SnapshotTaken (Inl (NotImplemented ''take snapshot''))
   | CompactLog _ \<Rightarrow> Done (Inl (NotImplemented ''compact log'')))"

text \<open>What a method returns when the command cannot be sent, and when its response channel is dropped.\<close>

definition error_reply :: "RaftError \<Rightarrow> (ClusterStatus \<times> HealthStatus) \<Rightarrow> ('c, 'q) ClusterCommand \<Rightarrow> ('r, 'a) reply" where
  "error_reply e fallback command = (case command of
     Propose _ \<Rightarrow> Response (Inl e) | Query _ \<Rightarrow> QueryResponse (Inl e) | GetStatus \<Rightarrow> Status (fst fallback)
   | HealthCheck \<Rightarrow> HealthReport (snd fallback) | GetClusterInfo \<Rightarrow> Info default_info
   | TakeSnapshot \<Rightarrow> SnapshotTaken (Inl e) | _ \<Rightarrow> Done (Inl e))"

definition degraded :: "u64 \<Rightarrow> system_time \<Rightarrow> ClusterStatus \<times> HealthStatus" where
  "degraded n now = (idle_status n (health_now Unhealthy now), health_now Unhealthy now)"

definition call_name :: "('c, 'q) ClusterCommand \<Rightarrow> string" where
  "call_name command = (case command of Propose _ \<Rightarrow> ''proposal'' | Query _ \<Rightarrow> ''query'' | AddMember _ \<Rightarrow> ''add member''
     | RemoveMember _ \<Rightarrow> ''remove member'' | TransferLeadership _ \<Rightarrow> ''transfer leadership''
     | TakeSnapshot \<Rightarrow> ''take snapshot'' | CompactLog _ \<Rightarrow> ''compact log'' | _ \<Rightarrow> '''')"

definition unavailable_reply :: "u64 \<Rightarrow> system_time \<Rightarrow> ('c, 'q) ClusterCommand \<Rightarrow> ('r, 'a) reply" where
  "unavailable_reply n now command =
     error_reply (ServiceUnavailable ''cluster'' ''cluster command channel closed'') (degraded n now) command"

definition dropped_reply :: "u64 \<Rightarrow> system_time \<Rightarrow> ('c, 'q) ClusterCommand \<Rightarrow> ('r, 'a) reply" where
  "dropped_reply n now command =
     error_reply (Internal (call_name command @ '' response channel closed'')) (degraded n now) command"

section \<open>The handle\<close>

datatype 'x oneshot = Pending | Sent 'x | Dropped

text \<open>
  The handle and its task: what waits in the command channel, whether the task runs, the sender and the arrival of the
  shutdown signal, the one-shot channels by their numbers, the calls that wait, and what the calls
  returned so far.
\<close>

record ('c, 'q, 'r, 'a) RaftCluster =
  rc_node_id :: u64
  rc_config :: Config
  rc_commands :: "(nat \<times> ('c, 'q) ClusterCommand) list"
  rc_task :: bool
  rc_shutdown_tx :: "unit option"
  rc_signalled :: bool
  rc_channels :: "nat \<rightharpoonup> ('r, 'a) reply oneshot"
  rc_waiting :: "(nat \<times> ('c, 'q) ClusterCommand) list"
  rc_returned :: "(nat \<times> ('c, 'q) ClusterCommand \<times> ('r, 'a) reply) list"

definition cluster_new :: "Config \<Rightarrow> RaftError + ('c, 'q, 'r, 'a) RaftCluster" where
  "cluster_new config = (case node_id (cfg_node config) of
     None \<Rightarrow> Inl (MissingConfiguration ''node_id'' ''cluster'')
   | Some n \<Rightarrow> Inr \<lparr>rc_node_id = n, rc_config = config, rc_commands = [], rc_task = True, rc_shutdown_tx = Some (),
       rc_signalled = False, rc_channels = Map.empty, rc_waiting = [], rc_returned = []\<rparr>)"

text \<open>The first half of a method: a fresh response channel \<open>ch\<close>, and the command goes into the channel if the task still receives.\<close>

definition cluster_call :: "system_time \<Rightarrow> nat \<Rightarrow> ('c, 'q) ClusterCommand \<Rightarrow> ('c, 'q, 'r, 'a) RaftCluster \<Rightarrow> ('c, 'q, 'r, 'a) RaftCluster" where
  "cluster_call now ch command c =
    (if rc_task c
     then c\<lparr>rc_commands := rc_commands c @ [(ch, command)], rc_channels := (rc_channels c)(ch \<mapsto> Pending),
            rc_waiting := rc_waiting c @ [(ch, command)]\<rparr>
     else c\<lparr>rc_channels := (rc_channels c)(ch \<mapsto> Dropped),
            rc_returned := rc_returned c @ [(ch, command, unavailable_reply (rc_node_id c) now command)]\<rparr>)"

text \<open>The second half: nothing while the channel is empty.\<close>

definition received :: "u64 \<Rightarrow> system_time \<Rightarrow> ('c, 'q) ClusterCommand \<Rightarrow> ('r, 'a) reply oneshot \<Rightarrow> ('r, 'a) reply option" where
  "received n now command ch = (case ch of Pending \<Rightarrow> None | Sent r \<Rightarrow> Some r | Dropped \<Rightarrow> Some (dropped_reply n now command))"

definition cluster_return :: "system_time \<Rightarrow> nat \<Rightarrow> ('c, 'q) ClusterCommand \<Rightarrow> ('c, 'q, 'r, 'a) RaftCluster \<Rightarrow> ('c, 'q, 'r, 'a) RaftCluster option" where
  "cluster_return now ch command c = map_option (\<lambda>r. c\<lparr>rc_waiting := filter (\<lambda>w. fst w \<noteq> ch) (rc_waiting c),
       rc_returned := rc_returned c @ [(ch, command, r)]\<rparr>)
     (Option.bind (rc_channels c ch) (received (rc_node_id c) now command))"

text \<open>One command by the task.\<close>

definition handle_next :: "system_time \<Rightarrow> ('c, 'q, 'r, 'a) RaftCluster \<Rightarrow> ('c, 'q, 'r, 'a) RaftCluster" where
  "handle_next now c = (case rc_commands c of
     [] \<Rightarrow> c
   | (ch, command) # rest \<Rightarrow> c\<lparr>rc_commands := rest,
       rc_channels := (rc_channels c)(ch \<mapsto> Sent (handle_cluster_command now command))\<rparr>)"

text \<open>The end of the task: the receiver goes, and with it the commands that were not handled.\<close>

definition end_task :: "('c, 'q, 'r, 'a) RaftCluster \<Rightarrow> ('c, 'q, 'r, 'a) RaftCluster" where
  "end_task c = c\<lparr>rc_task := False, rc_commands := [],
     rc_channels := fold (\<lambda>(ch, _) m. m(ch \<mapsto> Dropped)) (rc_commands c) (rc_channels c)\<rparr>"

definition cluster_shutdown :: "('c, 'q, 'r, 'a) RaftCluster \<Rightarrow> ('c, 'q, 'r, 'a) RaftCluster" where
  "cluster_shutdown c = c\<lparr>rc_shutdown_tx := None, rc_signalled := True\<rparr>"

text \<open>
  The steps. The handle is there until it is shut down or dropped, which both end the one-shot
  channel the task looks at; of several branches that are ready the task takes any.
\<close>

datatype ('c, 'q) cluster_event = Called nat "('c, 'q) ClusterCommand" | Returned nat | GivenUp nat | Handled system_time
  | ShutDown | TaskEnded

inductive cluster_step :: "('c, 'q, 'r, 'a) RaftCluster \<Rightarrow> ('c, 'q) cluster_event \<Rightarrow> ('c, 'q, 'r, 'a) RaftCluster \<Rightarrow> bool" where
  called: "rc_shutdown_tx c = Some () \<Longrightarrow> rc_channels c ch = None \<Longrightarrow> cluster_step c (Called ch command) (cluster_call now ch command c)"
| returned: "(ch, command) \<in> set (rc_waiting c) \<Longrightarrow> cluster_return now ch command c = Some c' \<Longrightarrow> cluster_step c (Returned ch) c'"
| given_up: "cluster_step c (GivenUp ch) (c\<lparr>rc_waiting := filter (\<lambda>w. fst w \<noteq> ch) (rc_waiting c)\<rparr>)"
| handled: "rc_task c \<Longrightarrow> rc_commands c \<noteq> [] \<Longrightarrow> cluster_step c (Handled now) (handle_next now c)"
| shut_down: "rc_shutdown_tx c = Some () \<Longrightarrow> rc_waiting c = [] \<Longrightarrow> cluster_step c ShutDown (cluster_shutdown c)"
| task_ended: "rc_task c \<Longrightarrow> rc_signalled c \<Longrightarrow> cluster_step c TaskEnded (end_task c)"

section \<open>Health checks\<close>

record HealthChecker =
  check_timeout :: duration
  check_interval :: duration

definition health_checker_new :: HealthChecker where
  "health_checker_new = \<lparr>check_timeout = from_secs 5, check_interval = from_secs 30\<rparr>"

definition with_timeouts :: "duration \<Rightarrow> duration \<Rightarrow> HealthChecker" where
  "with_timeouts t i = \<lparr>check_timeout = t, check_interval = i\<rparr>"

text \<open>\<open>duration_since\<close> is an error for a time to come.\<close>

definition is_timestamp_fresh :: "system_time \<Rightarrow> system_time \<Rightarrow> duration \<Rightarrow> bool" where
  "is_timestamp_fresh now timestamp max_age \<longleftrightarrow> timestamp \<le> now \<and> nat (now - timestamp) \<le> max_age"

definition aggregate_health :: "(string \<times> Health) list \<Rightarrow> Health" where
  "aggregate_health components =
    (if components = [] then Unhealthy
     else let unhealthy_count = length (filter (\<lambda>(_, health). health = Unhealthy) components);
              degraded_count = length (filter (\<lambda>(_, health). health = Degraded) components)
          in if unhealthy_count > 0 then Unhealthy else if degraded_count > 0 then Degraded else Healthy)"

section \<open>Maintenance\<close>

record MaintenanceOps =
  auto_compact :: bool
  compact_threshold_entries :: u64
  compact_threshold_bytes :: u64
  auto_snapshot :: bool
  snapshot_threshold_entries :: u64

definition with_thresholds :: "u64 \<Rightarrow> u64 \<Rightarrow> u64 \<Rightarrow> MaintenanceOps" where
  "with_thresholds entries size_bytes snapshot_entries = \<lparr>auto_compact = True, compact_threshold_entries = entries,
     compact_threshold_bytes = size_bytes, auto_snapshot = True, snapshot_threshold_entries = snapshot_entries\<rparr>"

definition maintenance_new :: MaintenanceOps where
  "maintenance_new = \<lparr>auto_compact = True, compact_threshold_entries = 10000,
     compact_threshold_bytes = 100 * 1024 * 1024, auto_snapshot = True, snapshot_threshold_entries = 50000\<rparr>"

definition disable_auto_maintenance :: "MaintenanceOps \<Rightarrow> MaintenanceOps" where
  "disable_auto_maintenance m = m\<lparr>auto_compact := False, auto_snapshot := False\<rparr>"

definition should_compact :: "MaintenanceOps \<Rightarrow> u64 \<Rightarrow> u64 \<Rightarrow> bool" where
  "should_compact m current_entries current_size_bytes \<longleftrightarrow> auto_compact m \<and>
     (current_entries \<ge> compact_threshold_entries m \<or> current_size_bytes \<ge> compact_threshold_bytes m)"

definition should_snapshot :: "MaintenanceOps \<Rightarrow> u64 \<Rightarrow> bool" where
  "should_snapshot m entries_since_snapshot \<longleftrightarrow> auto_snapshot m \<and> entries_since_snapshot \<ge> snapshot_threshold_entries m"

record ClusterMonitor =
  health_checker :: HealthChecker
  maintenance :: MaintenanceOps

definition monitor_new :: ClusterMonitor where
  "monitor_new = \<lparr>health_checker = health_checker_new, maintenance = maintenance_new\<rparr>"

definition with_components :: "HealthChecker \<Rightarrow> MaintenanceOps \<Rightarrow> ClusterMonitor" where
  "with_components h m = \<lparr>health_checker = h, maintenance = m\<rparr>"

record MaintenanceNeeded =
  compact_log :: bool
  take_snapshot :: bool

definition needs_maintenance :: "ClusterMonitor \<Rightarrow> u64 \<Rightarrow> u64 \<Rightarrow> u64 \<Rightarrow> MaintenanceNeeded" where
  "needs_maintenance m entries size_bytes entries_since_snapshot =
     \<lparr>compact_log = should_compact (maintenance m) entries size_bytes,
      take_snapshot = should_snapshot (maintenance m) entries_since_snapshot\<rparr>"

definition any_needed :: "MaintenanceNeeded \<Rightarrow> bool" where
  "any_needed n \<longleftrightarrow> compact_log n \<or> take_snapshot n"


section \<open>Calls of a handle\<close>

definition stub_answer :: "('c, 'q) ClusterCommand \<Rightarrow> ('r, 'a) reply \<Rightarrow> bool" where
  "stub_answer command r \<longleftrightarrow> (\<exists>now. r = handle_cluster_command now command)"

text \<open>Each waiting call is queued or answered, and no call is refused.\<close>

definition calls_ok :: "('c, 'q, 'r, 'a) RaftCluster \<Rightarrow> bool" where
  "calls_ok c \<longleftrightarrow> (rc_shutdown_tx c = Some () \<longleftrightarrow> \<not> rc_signalled c)
     \<and> (rc_signalled c \<or> rc_task c) \<and> (rc_signalled c \<longrightarrow> rc_waiting c = [])
     \<and> distinct (map fst (rc_commands c))
     \<and> (\<forall>ch command. (ch, command) \<in> set (rc_commands c) \<longrightarrow> rc_channels c ch = Some Pending)
     \<and> distinct (map fst (rc_waiting c))
     \<and> (\<forall>ch command. (ch, command) \<in> set (rc_waiting c) \<longrightarrow> (ch, command) \<in> set (rc_commands c)
          \<or> (\<exists>r. rc_channels c ch = Some (Sent r) \<and> stub_answer command r))
     \<and> distinct (map fst (rc_returned c)) \<and> fst ` set (rc_returned c) \<subseteq> dom (rc_channels c)
     \<and> fst ` set (rc_returned c) \<inter> fst ` set (rc_waiting c) = {}
     \<and> (\<forall>ch command r. (ch, command, r) \<in> set (rc_returned c) \<longrightarrow> stub_answer command r)"

lemma calls_okD:
  assumes "calls_ok c"
  shows "rc_shutdown_tx c = Some () \<longleftrightarrow> \<not> rc_signalled c" and "rc_signalled c \<or> rc_task c"
    and "rc_signalled c \<Longrightarrow> rc_waiting c = []" and "distinct (map fst (rc_commands c))"
    and "(ch, command) \<in> set (rc_commands c) \<Longrightarrow> rc_channels c ch = Some Pending"
    and "distinct (map fst (rc_waiting c))"
    and "(ch, command) \<in> set (rc_waiting c) \<Longrightarrow> (ch, command) \<in> set (rc_commands c)
          \<or> (\<exists>r. rc_channels c ch = Some (Sent r) \<and> stub_answer command r)"
    and "distinct (map fst (rc_returned c))" and "fst ` set (rc_returned c) \<subseteq> dom (rc_channels c)"
    and "fst ` set (rc_returned c) \<inter> fst ` set (rc_waiting c) = {}"
    and "(ch, command, r) \<in> set (rc_returned c) \<Longrightarrow> stub_answer command r"
  using assms unfolding calls_ok_def by - (elim conjE, (assumption | erule mp | (drule spec)+, erule mp), assumption?)+

lemma calls_okI:
  assumes "rc_shutdown_tx c = Some () \<longleftrightarrow> \<not> rc_signalled c" and "rc_signalled c \<or> rc_task c"
    and "rc_signalled c \<Longrightarrow> rc_waiting c = []" and "distinct (map fst (rc_commands c))"
    and "\<And>ch command. (ch, command) \<in> set (rc_commands c) \<Longrightarrow> rc_channels c ch = Some Pending"
    and "distinct (map fst (rc_waiting c))"
    and "\<And>ch command. (ch, command) \<in> set (rc_waiting c) \<Longrightarrow> (ch, command) \<in> set (rc_commands c)
          \<or> (\<exists>r. rc_channels c ch = Some (Sent r) \<and> stub_answer command r)"
    and "distinct (map fst (rc_returned c))" and "fst ` set (rc_returned c) \<subseteq> dom (rc_channels c)"
    and "fst ` set (rc_returned c) \<inter> fst ` set (rc_waiting c) = {}"
    and "\<And>ch command r. (ch, command, r) \<in> set (rc_returned c) \<Longrightarrow> stub_answer command r"
  shows "calls_ok c"
  unfolding calls_ok_def using assms by (intro conjI allI impI) blast+

lemma stub_answer_handled [simp]: "stub_answer command (handle_cluster_command now command)"
  by (auto simp: stub_answer_def)

lemma fresh_call:
  assumes "calls_ok c" and "rc_channels c ch = None"
  shows "ch \<notin> fst ` set (rc_commands c)" and "ch \<notin> fst ` set (rc_waiting c)" and "ch \<notin> fst ` set (rc_returned c)"
  using calls_okD(5,7,9)[OF assms(1)] assms(2) by fastforce+

lemma call_keeps:
  assumes ok: "calls_ok c" and live: "rc_shutdown_tx c = Some ()" and new: "rc_channels c ch = None"
  shows "calls_ok (cluster_call now ch command c)"
proof -
  note d = calls_okD[OF ok] and f = fresh_call[OF ok new]
  have a: "rc_task c" "\<not> rc_signalled c" using d(1,2) live by auto
  have p: "k \<noteq> ch" if "(k, x) \<in> set (rc_commands c) \<or> (k, x) \<in> set (rc_waiting c)" for k x using f(1,2) that by force
  show ?thesis
  proof (rule calls_okI)
    fix k x assume "(k, x) \<in> set (rc_commands (cluster_call now ch command c))"
    with d(5) a show "rc_channels (cluster_call now ch command c) k = Some Pending" by (auto simp: cluster_call_def)
  next
    fix k x assume "(k, x) \<in> set (rc_waiting (cluster_call now ch command c))"
    then show "(k, x) \<in> set (rc_commands (cluster_call now ch command c))
      \<or> (\<exists>r. rc_channels (cluster_call now ch command c) k = Some (Sent r) \<and> stub_answer x r)"
      using d(7)[of k x] p[of k x] a by (auto simp: cluster_call_def)
  qed (use a d(4,6,8,9,10,11) f live in \<open>auto simp: cluster_call_def\<close>)
qed

lemma return_keeps:
  assumes ok: "calls_ok c" and w: "(ch, command) \<in> set (rc_waiting c)" and r: "cluster_return now ch command c = Some c'"
  shows "calls_ok c'"
proof -
  note d = calls_okD[OF ok]
  from r d(5)[of ch command] d(7)[OF w] obtain r where r: "stub_answer command r" "rc_channels c ch = Some (Sent r)"
    and c': "c' = c\<lparr>rc_waiting := filter (\<lambda>w. fst w \<noteq> ch) (rc_waiting c), rc_returned := rc_returned c @ [(ch, command, r)]\<rparr>"
    by (auto simp: cluster_return_def received_def)
  have n: "rc_waiting c \<noteq> []" using w by auto
  have f: "ch \<notin> fst ` set (rc_returned c)" using d(10) w by force
  show ?thesis
  proof (rule calls_okI)
    show "rc_shutdown_tx c' = Some () \<longleftrightarrow> \<not> rc_signalled c'" using d(1) c' by simp
    show "rc_signalled c' \<Longrightarrow> rc_waiting c' = []" using d(3) n c' by simp
    show "fst ` set (rc_returned c') \<inter> fst ` set (rc_waiting c') = {}" using d(10) c' by auto
    show "stub_answer x y" if "(k, x, y) \<in> set (rc_returned c')" for k x y using that d(11)[of k x y] r c' by auto
  qed (use d(2,4-9) f r in \<open>auto simp: c' distinct_map_filter\<close>)
qed

lemma handle_keeps:
  assumes ok: "calls_ok c"
  shows "calls_ok (handle_next now c)"
proof (cases "rc_commands c")
  case (Cons w rest)
  obtain ch command where w: "w = (ch, command)" by (cases w)
  note d = calls_okD[OF ok]
  let ?c = "c\<lparr>rc_commands := rest, rc_channels := (rc_channels c)(ch \<mapsto> Sent (handle_cluster_command now command))\<rparr>"
  have q: "k \<noteq> ch" if "(k, x) \<in> set rest" for k x using d(4) Cons w that by force
  have p: "x = command" if "(ch, x) \<in> set (rc_commands c)" for x using d(4) Cons w that by force
  have "calls_ok ?c"
  proof (rule calls_okI)
    fix k x assume "(k, x) \<in> set (rc_waiting ?c)"
    with d(7)[of k x] d(5)[of ch command] p[of x] Cons w
    show "(k, x) \<in> set (rc_commands ?c) \<or> (\<exists>r. rc_channels ?c k = Some (Sent r) \<and> stub_answer x r)" by auto
  next
    fix k x assume "(k, x) \<in> set (rc_commands ?c)"
    with d(5)[of k x] q Cons show "rc_channels ?c k = Some Pending" by simp
  qed (use d(1-4,6,8-11) Cons in auto)
  then show ?thesis by (simp add: handle_next_def Cons w)
qed (simp add: handle_next_def ok)

lemma fold_dropped_dom: "dom m \<subseteq> dom (fold (\<lambda>(ch, _) m. m(ch \<mapsto> Dropped)) xs m)"
proof (induction xs arbitrary: m)
  case (Cons x xs)
  from Cons[of "m(fst x \<mapsto> Dropped)"] show ?case by (cases x) (simp del: fun_upd_apply)
qed simp

lemma end_keeps:
  assumes ok: "calls_ok c" and s: "rc_signalled c"
  shows "calls_ok (end_task c)"
proof (rule calls_okI)
  show "fst ` set (rc_returned (end_task c)) \<subseteq> dom (rc_channels (end_task c))"
    using calls_okD(9)[OF ok] fold_dropped_dom[of "rc_channels c" "rc_commands c"] by (auto simp: end_task_def)
qed (use calls_okD[OF ok] s in \<open>auto simp: end_task_def\<close>)

interpretation calls: invariant_of "\<lambda>c :: ('c, 'q, 'r, 'a) RaftCluster. cluster_new config = Inr c" cluster_step calls_ok for config
proof
  show "cluster_new config = Inr c \<Longrightarrow> calls_ok c" for c :: "('c, 'q, 'r, 'a) RaftCluster"
    by (auto simp: cluster_new_def split: option.splits intro!: calls_okI)
  show "calls_ok c'" if ok: "calls_ok c" and "cluster_step c ev c'" for c c' :: "('c, 'q, 'r, 'a) RaftCluster" and ev
    using that(2)
  proof (cases rule: cluster_step.cases)
    case (given_up ch)
    then show ?thesis using calls_okD[OF ok] by (intro calls_okI) (auto simp: distinct_map_filter)
  next
    case shut_down
    then show ?thesis using calls_okD[OF ok] by (intro calls_okI) (auto simp: cluster_shutdown_def)
  qed (use ok in \<open>simp_all add: call_keeps return_keeps handle_keeps end_keeps\<close>)
qed


definition drain :: "system_time \<Rightarrow> ('c, 'q, 'r, 'a) RaftCluster \<Rightarrow> ('c, 'q, 'r, 'a) RaftCluster" where
  "drain now c = (handle_next now ^^ length (rc_commands c)) c"

lemma handle_next_simps [simp]:
  "rc_commands (handle_next now c) = tl (rc_commands c)" "rc_task (handle_next now c) = rc_task c"
  "rc_waiting (handle_next now c) = rc_waiting c"
  by (simp_all add: handle_next_def split: list.split)

lemma drain_step: "rc_commands c \<noteq> [] \<Longrightarrow> drain now c = drain now (handle_next now c)"
  by (cases "rc_commands c") (simp_all add: drain_def funpow_swap1)

lemma drain_run: "rc_task c \<Longrightarrow> run cluster_step c (replicate (length (rc_commands c)) (Handled now)) (drain now c)"
proof (induction "length (rc_commands c)" arbitrary: c)
  case (Suc k)
  then have ne: "rc_commands c \<noteq> []" by auto
  have k: "length (rc_commands (handle_next now c)) = k" using Suc.hyps(2) by simp
  from Suc.hyps(1)[of "handle_next now c"] k Suc.prems
  have "run cluster_step (handle_next now c) (replicate k (Handled now)) (drain now c)"
    by (simp add: drain_step[OF ne])
  with handled[OF Suc.prems ne] Suc.hyps(2)[symmetric] show ?case by (auto intro: run.intros)
qed (simp add: drain_def)

lemma drain_answers:
  assumes "calls_ok c" and "(ch, command) \<in> set (rc_waiting c)"
  shows "\<exists>r. rc_channels (drain now c) ch = Some (Sent r) \<and> stub_answer command r"
  using assms
proof (induction "length (rc_commands c)" arbitrary: c)
  case 0
  with calls_okD(7)[OF 0(2,3)] show ?case by (simp add: drain_def)
next
  case (Suc k)
  then have "rc_commands c \<noteq> []" by auto
  with Suc drain_step[OF this, of now] handle_keeps[OF Suc.prems(1), of now] show ?case by simp
qed

text \<open>
  The calls of a cluster handle. Whatever is called and given up, in whatever order the task comes to it, each call returns
  at most once and then with the fixed answer of the task, never with the error for a stopped task; and every
  call that waits has its answer once the task has gone through the channel. A status shows node 0 without members,
  whoever the node is.
\<close>

theorem calls_answered_by_stub:
  assumes "cluster_new config = Inr c0" and "run cluster_step c0 evs c"
  shows "distinct (map fst (rc_returned c)) \<and> (\<forall>(ch, command, r) \<in> set (rc_returned c). stub_answer command r)
    \<and> (\<forall>(ch, command) \<in> set (rc_waiting c). \<exists>r. rc_channels (drain now c) ch = Some (Sent r) \<and> stub_answer command r)
    \<and> (rc_waiting c \<noteq> [] \<longrightarrow> run cluster_step c (replicate (length (rc_commands c)) (Handled now)) (drain now c))
    \<and> (\<forall>ch r. (ch, GetStatus, r) \<in> set (rc_returned c) \<longrightarrow> (\<exists>t. r = Status (idle_status 0 (health_now Healthy t))))"
proof -
  have "calls_ok c0" using calls.base[OF assms(1)] .
  with calls.run_keeps[OF assms(2)] have ok: "calls_ok c" by blast
  note d = calls_okD[OF ok]
  have "\<exists>t. r = Status (idle_status 0 (health_now Healthy t))" if "(ch, GetStatus, r) \<in> set (rc_returned c)" for ch r
    using d(11)[OF that] by (auto simp: stub_answer_def handle_cluster_command_def)
  moreover have "rc_waiting c \<noteq> [] \<Longrightarrow> rc_task c" using d(2,3) by blast
  ultimately show ?thesis using d(8,11) drain_answers[OF ok, of _ _ now] drain_run[of c now] by auto
qed

section \<open>Health\<close>

text \<open>The states of health by severity.\<close>

fun severity :: "Health \<Rightarrow> nat" where
  "severity Healthy = 0"
| "severity Degraded = 1"
| "severity Unhealthy = 2"

lemma severity_eq [simp]: "severity h = severity k \<longleftrightarrow> h = k"
  by (cases h; cases k) simp_all

instantiation Health :: linorder
begin

definition less_eq_Health :: "Health \<Rightarrow> Health \<Rightarrow> bool" where
  "h \<le> k \<longleftrightarrow> severity h \<le> severity k"

definition less_Health :: "Health \<Rightarrow> Health \<Rightarrow> bool" where
  "h < k \<longleftrightarrow> severity h < severity k"

instance
  by standard (auto simp: less_eq_Health_def less_Health_def)

end

lemma health_bounds [simp]: "Healthy \<le> h" "h \<le> Unhealthy" "h \<le> Degraded \<longleftrightarrow> h \<noteq> Unhealthy" "h \<le> Healthy \<longleftrightarrow> h = Healthy"
  by (cases h; simp add: less_eq_Health_def)+

text \<open>
  The health of a cluster is the worst health of its components, whatever their names, order and number, and without
  components it is unhealthy; so adding a component never improves it.
\<close>

theorem aggregate_is_worst:
  "aggregate_health components = (if components = [] then Unhealthy else Max (snd ` set components))
   \<and> (components \<noteq> [] \<longrightarrow> aggregate_health components \<le> aggregate_health (components @ others))"
proof -
  have worst: "aggregate_health xs = Max (snd ` set xs)" if "xs \<noteq> []" for xs
  proof (rule Max_eqI[symmetric])
    show "aggregate_health xs \<in> snd ` set xs"
    proof (cases "filter (\<lambda>(_, h). h = Unhealthy) xs = [] \<and> filter (\<lambda>(_, h). h = Degraded) xs = []")
      case True
      then have "h = Healthy" if "(n, h) \<in> set xs" for n h using that by (cases h) (force simp: filter_empty_conv)+
      moreover obtain n h where "(n, h) \<in> set xs" using \<open>xs \<noteq> []\<close> by (cases xs) auto
      ultimately show ?thesis using True that by (force simp: aggregate_health_def image_iff)
    qed (use that in \<open>force simp: aggregate_health_def filter_empty_conv image_iff\<close>)
    show "h \<le> aggregate_health xs" if "h \<in> snd ` set xs" for h
      using that by (cases h) (force simp: aggregate_health_def filter_empty_conv)+
  qed simp
  then show ?thesis by (auto simp: image_Un intro!: Max_mono)
    (simp add: aggregate_health_def)
qed

text \<open>
  What maintenance is due only grows with the log, and none is once automatic maintenance is off; the
  freshness of a time is lost as time goes on, and a time to come is never fresh.
\<close>

theorem maintenance_monotone:
  assumes "entries \<le> entries'" and "size_bytes \<le> size_bytes'" and "since \<le> since'"
  shows "(any_needed (needs_maintenance m entries size_bytes since) \<longrightarrow> any_needed (needs_maintenance m entries' size_bytes' since'))
    \<and> \<not> any_needed (needs_maintenance (m\<lparr>maintenance := disable_auto_maintenance (maintenance m)\<rparr>) entries' size_bytes' since')"
  using assms by (auto simp: any_needed_def needs_maintenance_def should_compact_def should_snapshot_def disable_auto_maintenance_def)

section \<open>Examples\<close>

definition sample_cluster_config :: Config where
  "sample_cluster_config = set_node (\<lambda>c. c\<lparr>node_id := Some 7\<rparr>) default_config"

definition sample_handle :: "(nat, nat, nat, nat) RaftCluster" where
  "sample_handle = \<lparr>rc_node_id = 7, rc_config = sample_cluster_config, rc_commands = [], rc_task = True,
     rc_shutdown_tx = Some (), rc_signalled = False, rc_channels = Map.empty, rc_waiting = [], rc_returned = []\<rparr>"

theorem calls_answered_by_stub_witness:
  "\<exists>c :: (nat, nat, nat, nat) RaftCluster. run cluster_step sample_handle [Called 1 (Propose 5), Called 2 GetStatus, Handled 0, Returned 1] c
    \<and> rc_returned c = [(1, Propose 5, Response (Inl (NotImplemented ''cluster proposals'')))]
    \<and> rc_channels (drain 9 c) 2 = Some (Sent (Status (idle_status 0 (health_now Healthy 9))))"
proof -
  have n: "cluster_new sample_cluster_config = Inr sample_handle"
    by (simp add: cluster_new_def sample_handle_def sample_cluster_config_def set_node_def)
  let ?c1 = "cluster_call 0 1 (Propose 5) sample_handle"
  let ?c2 = "cluster_call 0 2 GetStatus ?c1"
  let ?c3 = "handle_next 0 ?c2"
  define c where "c = the (cluster_return 0 1 (Propose 5) ?c3)"
  have r: "cluster_return 0 1 (Propose 5) ?c3 = Some c"
    by (simp add: c_def cluster_return_def handle_next_def cluster_call_def sample_handle_def received_def)
  have "cluster_step sample_handle (Called 1 (Propose 5)) ?c1" and "cluster_step ?c1 (Called 2 GetStatus) ?c2"
    by (intro called; simp add: sample_handle_def cluster_call_def)+
  moreover have "cluster_step ?c2 (Handled 0) ?c3" by (intro handled) (simp_all add: sample_handle_def cluster_call_def)
  moreover have "cluster_step ?c3 (Returned 1) c"
    by (rule returned[OF _ r]) (simp add: sample_handle_def cluster_call_def handle_next_def)
  ultimately have "run cluster_step sample_handle [Called 1 (Propose 5), Called 2 GetStatus, Handled 0, Returned 1] c"
    by (blast intro: run.intros)
  moreover from r have "rc_waiting c = [(2, GetStatus)]" "rc_commands c = [(2, GetStatus)]"
    and c: "rc_returned c = [(1, Propose 5, Response (Inl (NotImplemented ''cluster proposals'')))]"
    by (auto simp: cluster_return_def handle_next_def cluster_call_def sample_handle_def received_def handle_cluster_command_def)
  ultimately show ?thesis
    using calls_answered_by_stub[OF n, of _ c 9] by (auto intro!: exI[of _ c] simp: drain_def handle_next_def handle_cluster_command_def)
qed

theorem maintenance_monotone_witness:
  "any_needed (needs_maintenance monitor_new 10001 0 0)"
  using maintenance_monotone[of 10000 10001 0 0 0 0 monitor_new]
  by (simp add: any_needed_def needs_maintenance_def should_compact_def monitor_new_def maintenance_new_def)

theorem aggregate_is_worst_witness:
  "aggregate_health [(''storage'', Degraded)] \<le> aggregate_health [(''storage'', Degraded), (''network'', Healthy)]"
  using aggregate_is_worst[of "[(''storage'', Degraded)]" "[(''network'', Healthy)]", THEN conjunct2] by simp

end
