(* ===== verification/Node.thy ===== *)
theory Node
  imports SimpleStorage RawNode Steps "HOL-Library.Finite_Map" "HOL-Library.Sublist"
begin

text \<open>
  \<open>src/src/node.rs\<close>: the node of the library, which joins the consensus of the raft crate, the store of
  \<open>SimpleStorage\<close> and a state machine, and its key-value machine. The file is not part of the crate at
  this commit: its settings and errors are those of an earlier version, and it names the store of
  \<open>simple.rs\<close>. What it calls outside the repository is a parameter: the raft crate with its log, the transport, of which
  it looks at the results of \<open>new\<close>, \<open>start\<close> and \<open>stop\<close> only, the serde formats, and the check of the settings.
\<close>

section \<open>The key-value machine\<close>

record KeyValueStateMachine =
  machine_data :: "(string, string) fmap"

definition machine_new :: KeyValueStateMachine where
  "machine_new = \<lparr>machine_data = fmempty\<rparr>"

definition machine_get :: "string \<Rightarrow> KeyValueStateMachine \<Rightarrow> string option" where
  "machine_get key m = fmlookup (machine_data m) key"

text \<open>The keys in the order \<open>hash_order\<close> in which the map is iterated.\<close>

definition machine_list :: "((string, string) fmap \<Rightarrow> string list) \<Rightarrow> string option \<Rightarrow> KeyValueStateMachine \<Rightarrow> string list" where
  "machine_list hash_order pre m = (case pre of
     Some pre \<Rightarrow> filter (prefix pre) (hash_order (machine_data m))
   | None \<Rightarrow> hash_order (machine_data m))"

definition machine_len :: "KeyValueStateMachine \<Rightarrow> nat" where
  "machine_len m = fcard (fmdom (machine_data m))"

definition machine_is_empty :: "KeyValueStateMachine \<Rightarrow> bool" where
  "machine_is_empty m \<longleftrightarrow> fmdom (machine_data m) = {||}"

fun join_lines :: "string list \<Rightarrow> string" where
  "join_lines [] = ''''"
| "join_lines [k] = k"
| "join_lines (k # ks) = k @ [CHR 0x0A] @ join_lines ks"

definition machine_apply :: "((string, string) fmap \<Rightarrow> string list) \<Rightarrow> u64 \<Rightarrow> ProposalData \<Rightarrow> KeyValueStateMachine
    \<Rightarrow> (RaftError + bytes) \<times> KeyValueStateMachine" where
  "machine_apply hash_order index d m = (case d of
     KeyValue op \<Rightarrow> (case op of
         OpSet key v \<Rightarrow> (Inr (string_bytes ''ok''), m\<lparr>machine_data := fmupd key v (machine_data m)\<rparr>)
       | OpDelete key \<Rightarrow> (Inr (string_bytes (if fmlookup (machine_data m) key \<noteq> None then ''deleted'' else ''not_found'')),
           m\<lparr>machine_data := fmdrop key (machine_data m)\<rparr>)
       | OpGet key \<Rightarrow> (Inr (string_bytes (case fmlookup (machine_data m) key of Some v \<Rightarrow> v | None \<Rightarrow> '''')), m)
       | OpList pre \<Rightarrow> (Inr (string_bytes (join_lines (machine_list hash_order pre m))), m))
   | _ \<Rightarrow> (Inr (string_bytes ''ack''), m))"

definition machine_snapshot :: "(string, string) fmap bincode \<Rightarrow> KeyValueStateMachine \<Rightarrow> RaftError + bytes" where
  "machine_snapshot B m = map_err (Serialization ''snapshot state machine'') (bin_serialize B (machine_data m))"

definition machine_restore :: "(string, string) fmap bincode \<Rightarrow> bytes \<Rightarrow> KeyValueStateMachine \<Rightarrow> (RaftError + unit) \<times> KeyValueStateMachine" where
  "machine_restore B bs m = (case map_err (Serialization ''restore state machine'') (bin_deserialize B bs) of
     Inl e \<Rightarrow> (Inl e, m)
   | Inr restored \<Rightarrow> (Inr (), m\<lparr>machine_data := restored\<rparr>))"

section \<open>The node\<close>

text \<open>The trait \<open>NodeStateMachine\<close>.\<close>

record 't NodeStateMachine =
  nm_apply :: "u64 \<Rightarrow> ProposalData \<Rightarrow> 't \<Rightarrow> (RaftError + bytes) \<times> 't"
  nm_snapshot :: "'t \<Rightarrow> RaftError + bytes"
  nm_restore :: "bytes \<Rightarrow> 't \<Rightarrow> (RaftError + unit) \<times> 't"

definition machine_ops :: "((string, string) fmap \<Rightarrow> string list) \<Rightarrow> (string, string) fmap bincode \<Rightarrow> KeyValueStateMachine NodeStateMachine" where
  "machine_ops hash_order B = \<lparr>nm_apply = machine_apply hash_order, nm_snapshot = machine_snapshot B, nm_restore = machine_restore B\<rparr>"

text \<open>The settings the node reads.\<close>

record NodeSettings =
  ns_id :: u64
  ns_bootstrap :: bool
  ns_join_address :: "string option"
  ns_election_timeout_ms :: u64
  ns_heartbeat_interval_ms :: u64
  ns_max_bytes_per_msg :: u64
  ns_max_entries_per_msg :: u64
  ns_request_timeout_ms :: u64

text \<open>The configuration of the raft crate, as far as the node sets it.\<close>

record RaftConfig =
  rcf_id :: u64
  rcf_election_tick :: u64
  rcf_heartbeat_tick :: u64
  rcf_applied :: u64
  rcf_max_size_per_msg :: u64
  rcf_max_inflight_msgs :: u64

record ('n, 'db, 'tx, 't) node_deps =
  nd_redb :: "('db, 'tx) redb"
  nd_prost :: "RaftSnapshot prost"
  nd_proposal :: "ProposalData bincode"
  nd_raft :: "('n, 'db) raw_node"
  nd_last_index :: "'db \<Rightarrow> 'n \<Rightarrow> u64"
  nd_new_raft :: "RaftConfig \<Rightarrow> 'db \<Rightarrow> error_text + 'n"
  nd_machine :: "'t NodeStateMachine"
  nd_validate :: "NodeSettings \<Rightarrow> RaftError + unit"
  nd_show :: "RaftError \<Rightarrow> error_text"

text \<open>
  A call of \<open>propose\<close> by its response channel: registered with its identifier and data, or waiting for its answer.
  The map \<open>node_results\<close> holds what was sent through a response channel and not received yet.
\<close>

datatype call_state = Registered bytes bytes | Awaiting

record ('n, 'db, 't) RaftNode =
  node_config :: NodeSettings
  node_raft :: 'n
  node_db :: 'db
  node_machine :: 't
  node_status :: NodeStatus
  node_inbox :: "Message list"
  node_pending :: "bytes \<rightharpoonup> channel"
  node_shutdown_tx :: bool
  node_shutdown :: bool
  node_counter :: u64
  node_calls :: "channel \<rightharpoonup> call_state"
  node_results :: "channel \<rightharpoonup> RaftError + bytes"
  node_returned :: "(channel \<times> (RaftError + bytes)) list"
  node_sent :: "Message list"

section \<open>Creating a node\<close>

definition raft_config :: "NodeSettings \<Rightarrow> u64 \<Rightarrow> RaftConfig" where
  "raft_config c applied = \<lparr>rcf_id = ns_id c, rcf_election_tick = ns_election_timeout_ms c div ns_heartbeat_interval_ms c,
     rcf_heartbeat_tick = 1, rcf_applied = applied, rcf_max_size_per_msg = ns_max_bytes_per_msg c,
     rcf_max_inflight_msgs = ns_max_entries_per_msg c\<rparr>"

text \<open>
  \<open>RaftNode::new\<close>; \<open>None\<close> is the panic of a division by a heartbeat interval of zero. The directory, the database file and
  the transport are created by others, and what that gave are arguments.
\<close>

definition node_new :: "('n, 'db, 'tx, 't) node_deps \<Rightarrow> error_text + unit \<Rightarrow> error_text + 'db \<Rightarrow> error_text + unit \<Rightarrow> u64
    \<Rightarrow> NodeSettings \<Rightarrow> 't \<Rightarrow> (RaftError + ('n, 'db, 't) RaftNode) option" where
  "node_new D created_dir created_db created_transport counter config machine =
    (case nd_validate D config of Inl e \<Rightarrow> Some (Inl e) | Inr _ \<Rightarrow>
     (case storage_new (nd_redb D) created_dir created_db of Inl e \<Rightarrow> Some (Inl (storage_error ''create storage'' (nd_show D e))) | Inr db \<Rightarrow>
     (case created_transport of Inl e \<Rightarrow> Some (Inl (transport_error (''create transport: '' @ e))) | Inr _ \<Rightarrow>
      if ns_heartbeat_interval_ms config = 0 then None else
     (case applied_index (nd_redb D) db of Inl e \<Rightarrow> Some (Inl e) | Inr applied \<Rightarrow>
     (case nd_new_raft D (raft_config config applied) db of Inl e \<Rightarrow> Some (Inl (raft_failure ''create raft node'' e)) | Inr n \<Rightarrow>
       Some (Inr \<lparr>node_config = config, node_raft = n, node_db = db, node_machine = machine,
         node_status = node_status_new (ns_id config), node_inbox = [], node_pending = Map.empty,
         node_shutdown_tx = True, node_shutdown = False, node_counter = counter, node_calls = Map.empty,
         node_results = Map.empty, node_returned = [], node_sent = []\<rparr>))))))"

text \<open>The builder: its state machine, or the default one.\<close>

record 't RaftNodeBuilder =
  nb_config :: NodeSettings
  nb_state_machine :: "'t option"

definition node_builder_new :: "NodeSettings \<Rightarrow> KeyValueStateMachine RaftNodeBuilder" where
  "node_builder_new config = \<lparr>nb_config = config, nb_state_machine = None\<rparr>"

definition with_state_machine :: "NodeSettings \<Rightarrow> 't \<Rightarrow> 't RaftNodeBuilder" where
  "with_state_machine config machine = \<lparr>nb_config = config, nb_state_machine = Some machine\<rparr>"

definition node_build :: "('n, 'db, 'tx, 't) node_deps \<Rightarrow> error_text + unit \<Rightarrow> error_text + 'db \<Rightarrow> error_text + unit \<Rightarrow> u64
    \<Rightarrow> 't \<Rightarrow> 't RaftNodeBuilder \<Rightarrow> (RaftError + ('n, 'db, 't) RaftNode) option" where
  "node_build D created_dir created_db created_transport counter default_machine b =
     node_new D created_dir created_db created_transport counter (nb_config b)
       (case nb_state_machine b of Some machine \<Rightarrow> machine | None \<Rightarrow> default_machine)"

section \<open>The consensus\<close>

definition raft_call :: "('db \<Rightarrow> 'n \<Rightarrow> 'a \<times> 'n) \<Rightarrow> (('n, 'db, 't) RaftNode, 'a) action" where
  "raft_call f = (\<lambda>m. case f (node_db m) (node_raft m) of (a, n) \<Rightarrow> (Inr a, m\<lparr>node_raft := n\<rparr>))"

definition raft_try :: "(error_text \<Rightarrow> RaftError) \<Rightarrow> ('db \<Rightarrow> 'n \<Rightarrow> (error_text + 'a) \<times> 'n) \<Rightarrow> (('n, 'db, 't) RaftNode, 'a) action" where
  "raft_try conv f = act_then (raft_call f) (\<lambda>r. case r of Inl e \<Rightarrow> act_fail (conv e) | Inr a \<Rightarrow> act_return a)"

definition store_call :: "(RaftError \<Rightarrow> RaftError) \<Rightarrow> ('db \<Rightarrow> (RaftError + unit) \<times> 'db) \<Rightarrow> (('n, 'db, 't) RaftNode, unit) action" where
  "store_call conv f = (\<lambda>m. case f (node_db m) of (r, db) \<Rightarrow> (map_err conv r, m\<lparr>node_db := db\<rparr>))"

text \<open>The result of sending is only logged.\<close>

definition send_message :: "Message \<Rightarrow> (('n, 'db, 't) RaftNode, unit) action" where
  "send_message msg = act_update (\<lambda>m. m\<lparr>node_sent := node_sent m @ [msg]\<rparr>)"

text \<open>Removing the sender of a context, and sending the result through it.\<close>

definition answer_context :: "bytes \<Rightarrow> RaftError + bytes \<Rightarrow> (('n, 'db, 't) RaftNode, unit) action" where
  "answer_context context r = act_with (\<lambda>m. node_pending m context) (\<lambda>tx. case tx of
     None \<Rightarrow> act_return ()
   | Some ch \<Rightarrow> act_update (\<lambda>m. m\<lparr>node_pending := (node_pending m)(context := None),
       node_results := (if node_calls m ch = None then node_results m else (node_results m)(ch \<mapsto> r))\<rparr>))"

definition node_apply_entry :: "('n, 'db, 'tx, 't) node_deps \<Rightarrow> Entry \<Rightarrow> (('n, 'db, 't) RaftNode, unit) action" where
  "node_apply_entry D entry =
    (if entry_data entry = [] then act_return ()
     else (case bin_deserialize (nd_proposal D) (entry_data entry) of
       Inl e \<Rightarrow> act_fail (Serialization ''deserialize entry data'' e)
     | Inr proposal \<Rightarrow> (\<lambda>m. case nm_apply (nd_machine D) (entry_index entry) proposal (node_machine m) of (result, t) \<Rightarrow>
         (if entry_context entry \<noteq> [] then answer_context (entry_context entry) result else act_return ())
           (m\<lparr>node_machine := t\<rparr>))))"

definition node_apply_snapshot :: "('n, 'db, 'tx, 't) node_deps \<Rightarrow> RaftSnapshot \<Rightarrow> (('n, 'db, 't) RaftNode, unit) action" where
  "node_apply_snapshot D snapshot =
     act_then (\<lambda>m. case nm_restore (nd_machine D) (snap_data snapshot) (node_machine m) of (r, t) \<Rightarrow> (r, m\<lparr>node_machine := t\<rparr>)) (\<lambda>_.
       store_call (\<lambda>e. storage_error ''apply snapshot'' (nd_show D e)) (apply_snapshot (nd_redb D) (nd_prost D) snapshot))"

fun role_of :: "StateRole \<Rightarrow> NodeRole" where
  "role_of RoleFollower = Follower"
| "role_of RoleCandidate = Candidate"
| "role_of RoleLeader = Leader"
| "role_of RolePreCandidate = Candidate"

definition update_status :: "('n, 'db, 'tx, 't) node_deps \<Rightarrow> (('n, 'db, 't) RaftNode, unit) action" where
  "update_status D = act_update (\<lambda>m. let n = node_raft m; R = nd_raft D in m\<lparr>node_status := (node_status m)\<lparr>
     ns_role := role_of (rn_state R n), ns_term := rn_term R n, ns_leader_id := leader_option (rn_leader_id R n),
     ns_last_log_index := nd_last_index D (node_db m) n, ns_committed_index := rn_committed R n,
     ns_applied_index := rn_applied R n\<rparr>\<rparr>)"

definition save_ready :: "('n, 'db, 'tx, 't) node_deps \<Rightarrow> Ready \<Rightarrow> (('n, 'db, 't) RaftNode, unit) action" where
  "save_ready D ready =
     act_then (case rd_hs ready of None \<Rightarrow> act_return ()
       | Some hs \<Rightarrow> store_call (\<lambda>e. storage_error ''save hard state'' (nd_show D e)) (save_hard_state (nd_redb D) hs)) (\<lambda>_.
     if rd_entries ready \<noteq> [] then store_call (\<lambda>e. storage_error ''append entries'' (nd_show D e)) (append_entries (nd_redb D) (rd_entries ready))
     else act_return ())"

text \<open>The messages and the committed entries are taken out of the ready state before it goes back to \<open>advance\<close>.\<close>

definition node_handle_ready :: "('n, 'db, 'tx, 't) node_deps \<Rightarrow> (('n, 'db, 't) RaftNode, unit) action" where
  "node_handle_ready D =
     act_then (raft_call (rn_ready (nd_raft D))) (\<lambda>ready.
     act_then (save_ready D ready) (\<lambda>_.
     act_then (act_each send_message (rd_messages ready)) (\<lambda>_.
     act_then (act_each (node_apply_entry D) (rd_committed_entries ready)) (\<lambda>_.
     act_then (if \<not> snapshot_is_empty (rd_snapshot ready) then node_apply_snapshot D (rd_snapshot ready) else act_return ()) (\<lambda>_.
     act_then (raft_call (rn_advance (nd_raft D) (ready\<lparr>rd_messages := [], rd_committed_entries := []\<rparr>))) (\<lambda>light_ready.
     act_then (act_each send_message (lr_messages light_ready)) (\<lambda>_.
       update_status D)))))))"

definition when_ready :: "('n, 'db, 'tx, 't) node_deps \<Rightarrow> (('n, 'db, 't) RaftNode, unit) action" where
  "when_ready D = act_with node_raft (\<lambda>n. if rn_has_ready (nd_raft D) n then node_handle_ready D else act_return ())"

definition node_tick :: "('n, 'db, 'tx, 't) node_deps \<Rightarrow> (('n, 'db, 't) RaftNode, unit) action" where
  "node_tick D = act_then (raft_call (\<lambda>db n. ((), rn_tick (nd_raft D) db n))) (\<lambda>_. when_ready D)"

definition node_message :: "('n, 'db, 'tx, 't) node_deps \<Rightarrow> Message \<Rightarrow> (('n, 'db, 't) RaftNode, unit) action" where
  "node_message D msg = act_then (raft_try (raft_failure ''step message'') (rn_step (nd_raft D) msg)) (\<lambda>_. when_ready D)"

section \<open>Proposals and membership\<close>

definition not_leader :: "('n, 'db, 'tx, 't) node_deps \<Rightarrow> string \<Rightarrow> (('n, 'db, 't) RaftNode, 'a) action" where
  "not_leader D operation = act_with (\<lambda>m. leader_option (rn_leader_id (nd_raft D) (node_raft m))) (\<lambda>l. act_fail (NotLeader operation l))"

definition is_raft_leader :: "('n, 'db, 'tx, 't) node_deps \<Rightarrow> ('n, 'db, 't) RaftNode \<Rightarrow> bool" where
  "is_raft_leader D m \<longleftrightarrow> rn_state (nd_raft D) (node_raft m) = RoleLeader"

text \<open>\<open>generate_proposal_id\<close>; the counter is one of the process, and starts at zero with it.\<close>

definition proposal_id_of :: "u64 \<Rightarrow> u64 \<Rightarrow> bytes" where
  "proposal_id_of n counter = string_bytes (show_nat (unat n) @ ''_'' @ show_nat (unat counter))"

definition finish_call :: "channel \<Rightarrow> RaftError + bytes \<Rightarrow> ('n, 'db, 't) RaftNode \<Rightarrow> ('n, 'db, 't) RaftNode" where
  "finish_call ch r m = m\<lparr>node_calls := (node_calls m)(ch := None), node_results := (node_results m)(ch := None),
     node_returned := node_returned m @ [(ch, r)]\<rparr>"

text \<open>A call up to the lock of the node: the proposal is registered under a new identifier.\<close>

definition propose_register :: "('n, 'db, 'tx, 't) node_deps \<Rightarrow> channel \<Rightarrow> ProposalData \<Rightarrow> ('n, 'db, 't) RaftNode \<Rightarrow> ('n, 'db, 't) RaftNode" where
  "propose_register D ch d m = (let pid = proposal_id_of (ns_id (node_config m)) (node_counter m);
       m = m\<lparr>node_counter := node_counter m + 1\<rparr>
     in case bin_serialize (nd_proposal D) d of
       Inl e \<Rightarrow> finish_call ch (Inl (Serialization ''serialize proposal'' e)) m
     | Inr serialized \<Rightarrow> m\<lparr>node_pending := (node_pending m)(pid \<mapsto> ch), node_calls := (node_calls m)(ch \<mapsto> Registered pid serialized)\<rparr>)"

text \<open>Under the lock. A node that does not lead takes the registration back; when the consensus refuses, it stays.\<close>

definition propose_submit :: "('n, 'db, 'tx, 't) node_deps \<Rightarrow> channel \<Rightarrow> bytes \<Rightarrow> bytes \<Rightarrow> ('n, 'db, 't) RaftNode \<Rightarrow> ('n, 'db, 't) RaftNode" where
  "propose_submit D ch pid serialized m = (case
      act_with (is_raft_leader D) (\<lambda>leader. if \<not> leader
        then act_then (act_update (\<lambda>m. m\<lparr>node_pending := (node_pending m)(pid := None)\<rparr>)) (\<lambda>_. not_leader D ''propose'')
        else raft_try (raft_failure ''propose data'') (rn_propose (nd_raft D) pid serialized)) m of
     (Inl e, m) \<Rightarrow> finish_call ch (Inl e) m
   | (Inr _, m) \<Rightarrow> m\<lparr>node_calls := (node_calls m)(ch \<mapsto> Awaiting)\<rparr>)"

text \<open>
  The wait: an answer that is there is taken even at the timeout; without one and with the sender gone, the channel
  is closed.
\<close>

definition propose_wait :: "bool \<Rightarrow> channel \<Rightarrow> ('n, 'db, 't) RaftNode \<Rightarrow> ('n, 'db, 't) RaftNode option" where
  "propose_wait timed_out ch m = (case node_results m ch of
     Some r \<Rightarrow> Some (finish_call ch r m)
   | None \<Rightarrow> if ch \<notin> ran (node_pending m) then Some (finish_call ch (Inl (Internal ''proposal channel closed'')) m)
             else if timed_out then Some (finish_call ch (Inl (Timeout ''proposal'' (from_millis (unat (ns_request_timeout_ms (node_config m)))))) m)
             else None)"

definition propose_change :: "('n, 'db, 'tx, 't) node_deps \<Rightarrow> string \<Rightarrow> ConfChange \<Rightarrow> (('n, 'db, 't) RaftNode, unit) action" where
  "propose_change D operation cc = act_with (is_raft_leader D) (\<lambda>leader.
     if \<not> leader then not_leader D operation
     else raft_try (raft_failure ''propose conf change'') (rn_propose_conf_change (nd_raft D) [] cc))"

definition node_add_peer :: "('n, 'db, 'tx, 't) node_deps \<Rightarrow> u64 \<Rightarrow> string \<Rightarrow> (('n, 'db, 't) RaftNode, unit) action" where
  "node_add_peer D peer address = propose_change D ''add peer'' \<lparr>conf_change_id = 0, conf_change_type = CC_AddNode,
     conf_change_node = peer, conf_change_context = string_bytes address\<rparr>"

definition node_remove_peer :: "('n, 'db, 'tx, 't) node_deps \<Rightarrow> u64 \<Rightarrow> (('n, 'db, 't) RaftNode, unit) action" where
  "node_remove_peer D peer = propose_change D ''remove peer'' \<lparr>conf_change_id = 0, conf_change_type = CC_RemoveNode,
     conf_change_node = peer, conf_change_context = []\<rparr>"

section \<open>Life cycle\<close>

definition node_bootstrap :: "('n, 'db, 'tx, 't) node_deps \<Rightarrow> (('n, 'db, 't) RaftNode, unit) action" where
  "node_bootstrap D = raft_try (raft_failure ''campaign for leadership'') (rn_campaign (nd_raft D))"

definition node_join_cluster :: "string \<Rightarrow> (('n, 'db, 't) RaftNode, unit) action" where
  "node_join_cluster addr = act_return ()"

definition node_start :: "('n, 'db, 'tx, 't) node_deps \<Rightarrow> RaftError + unit \<Rightarrow> (('n, 'db, 't) RaftNode, unit) action" where
  "node_start D started = act_then (\<lambda>m. (started, m)) (\<lambda>_. act_with node_config (\<lambda>c.
     if ns_bootstrap c then node_bootstrap D
     else (case ns_join_address c of Some addr \<Rightarrow> node_join_cluster addr | None \<Rightarrow> act_return ())))"

definition node_stop :: "RaftError + unit \<Rightarrow> (('n, 'db, 't) RaftNode, unit) action" where
  "node_stop stopped = act_then (act_update (\<lambda>m. if node_shutdown_tx m then m\<lparr>node_shutdown_tx := False, node_shutdown := True\<rparr> else m))
     (\<lambda>_ m. (stopped, m))"

definition node_status_now :: "nat \<Rightarrow> ('n, 'db, 't) RaftNode \<Rightarrow> NodeStatus" where
  "node_status_now uptime m = (node_status m)\<lparr>ns_uptime_seconds := of_nat (uptime div 1000000000)\<rparr>"

definition node_is_leader :: "('n, 'db, 't) RaftNode \<Rightarrow> bool" where
  "node_is_leader m \<longleftrightarrow> ns_role (node_status m) = Leader"

definition node_leader_id :: "('n, 'db, 't) RaftNode \<Rightarrow> u64 option" where
  "node_leader_id m = ns_leader_id (node_status m)"

text \<open>
  The main loop with the calls beside it. An error of a handler is logged, and the loop goes on;
  other nodes of the process advance the counter.
\<close>

datatype node_event = Register channel ProposalData | Submit channel | Return channel bool | GiveUp channel | Ticked | Received
  | AddPeer u64 string | RemovePeer u64 | OtherProposal | Stopped

inductive node_step :: "('n, 'db, 'tx, 't) node_deps \<Rightarrow> ('n, 'db, 't) RaftNode \<Rightarrow> node_event \<Rightarrow> ('n, 'db, 't) RaftNode \<Rightarrow> bool" for D where
  register: "node_calls m ch = None \<Longrightarrow> ch \<notin> fst ` set (node_returned m) \<Longrightarrow> ch \<notin> ran (node_pending m) \<Longrightarrow>
    node_step D m (Register ch d) (propose_register D ch d m)"
| submit: "node_calls m ch = Some (Registered pid serialized) \<Longrightarrow> node_step D m (Submit ch) (propose_submit D ch pid serialized m)"
| return: "node_calls m ch = Some Awaiting \<Longrightarrow> propose_wait timed_out ch m = Some m' \<Longrightarrow> node_step D m (Return ch timed_out) m'"
| give_up: "node_calls m ch \<noteq> None \<Longrightarrow> node_step D m (GiveUp ch) (m\<lparr>node_calls := (node_calls m)(ch := None), node_results := (node_results m)(ch := None)\<rparr>)"
| ticked: "\<not> node_shutdown m \<Longrightarrow> node_step D m Ticked (snd (node_tick D m))"
| received: "\<not> node_shutdown m \<Longrightarrow> node_inbox m = msg # rest \<Longrightarrow> node_step D m Received (snd (node_message D msg (m\<lparr>node_inbox := rest\<rparr>)))"
| add_peer: "node_step D m (AddPeer p a) (snd (node_add_peer D p a m))"
| remove_peer: "node_step D m (RemovePeer p) (snd (node_remove_peer D p m))"
| other: "node_step D m OtherProposal (m\<lparr>node_counter := node_counter m + 1\<rparr>)"
| stopped: "node_step D m Stopped (snd (node_stop r m))"


section \<open>A ready state\<close>

text \<open>What saving a ready state does to the tables.\<close>

definition ready_tables :: "Ready \<Rightarrow> tables \<Rightarrow> tables" where
  "ready_tables ready t = foldl put_entry (case rd_hs ready of None \<Rightarrow> t
     | Some hs \<Rightarrow> put HARD_STATE_TABLE (KS HARD_STATE_KEY) (projr (serialize_hard_state hs)) t) (rd_entries ready)"

text \<open>Everything of a node but its consensus and its store.\<close>

definition rest_of :: "('n, 'db, 't) RaftNode \<Rightarrow> _" where
  "rest_of m = (node_machine m, node_pending m, node_results m, node_sent m)"

lemma raft_call_apply: "f (node_db m) (node_raft m) = (a, n) \<Longrightarrow> raft_call f m = (Inr a, m\<lparr>node_raft := n\<rparr>)"
  by (simp add: raft_call_def)

lemma save_ready_frame:
  assumes "save_ready D ready m = (r, m1)"
  shows "rest_of m1 = rest_of m" and "node_raft m1 = node_raft m"
  using assms by (auto simp: save_ready_def store_call_def act_then_def rest_of_def split: option.splits prod.splits sum.splits if_splits)

lemma store_call_InrD:
  assumes "store_call conv f m = (Inr (), m1)"
  shows "f (node_db m) = (Inr (), node_db m1)"
  using assms by (auto simp: store_call_def map_err_def split: prod.splits sum.splits)

lemma save_ready_InrD:
  assumes ok: "redb_ok (nd_redb D) dbv view" and "save_ready D ready m = (Inr (), m1)"
  shows "dbv (node_db m1) = ready_tables ready (dbv (node_db m))"
proof -
  obtain m0 where hs: "(case rd_hs ready of None \<Rightarrow> act_return ()
       | Some hs \<Rightarrow> store_call (\<lambda>e. storage_error ''save hard state'' (nd_show D e)) (save_hard_state (nd_redb D) hs)) m = (Inr (), m0)"
    and es: "(if rd_entries ready \<noteq> [] then store_call (\<lambda>e. storage_error ''append entries'' (nd_show D e)) (append_entries (nd_redb D) (rd_entries ready))
     else act_return ()) m0 = (Inr (), m1)"
    using assms(2) unfolding save_ready_def by (elim act_then_InrE) auto
  have "dbv (node_db m0) = (case rd_hs ready of None \<Rightarrow> dbv (node_db m)
     | Some hs \<Rightarrow> put HARD_STATE_TABLE (KS HARD_STATE_KEY) (projr (serialize_hard_state hs)) (dbv (node_db m)))"
    using hs save_hard_state_InrD[OF ok store_call_InrD] by (cases "rd_hs ready") auto
  moreover have "dbv (node_db m1) = foldl put_entry (dbv (node_db m0)) (rd_entries ready)"
    using es append_entries_InrD[OF ok store_call_InrD] by (cases "rd_entries ready = []") auto
  ultimately show ?thesis by (simp add: ready_tables_def)
qed

lemma send_all: "act_each send_message msgs m = (Inr (), m\<lparr>node_sent := node_sent m @ msgs\<rparr>)"
  by (induction msgs arbitrary: m) (simp_all add: send_message_def act_then_def)

text \<open>Actions that neither send nor touch the consensus.\<close>

definition quiet :: "('n, 'db, 't) RaftNode \<Rightarrow> _" where
  "quiet m = (node_raft m, node_sent m)"

lemma quiet_apply_entry: "keeps (\<lambda>m. quiet m = x) (node_apply_entry D e)"
  by (auto simp: node_apply_entry_def answer_context_def keeps_def quiet_def act_with_def split: sum.split prod.split option.split)

lemma quiet_apply_snapshot: "keeps (\<lambda>m. quiet m = x) (node_apply_snapshot D s)"
  by (auto simp: node_apply_snapshot_def store_call_def keeps_def quiet_def act_then_def split: sum.split prod.split)

text \<open>The part of \<open>handle_ready\<close> between sending and \<open>advance\<close>.\<close>

definition apply_ready :: "('n, 'db, 'tx, 't) node_deps \<Rightarrow> Ready \<Rightarrow> (('n, 'db, 't) RaftNode, unit) action" where
  "apply_ready D ready = act_then (act_each (node_apply_entry D) (rd_committed_entries ready)) (\<lambda>_.
     if \<not> snapshot_is_empty (rd_snapshot ready) then node_apply_snapshot D (rd_snapshot ready) else act_return ())"

lemma quiet_apply_ready: "keeps (\<lambda>m. quiet m = x) (apply_ready D ready)"
  unfolding apply_ready_def by (intro keeps_rules quiet_apply_entry quiet_apply_snapshot)

definition finish_ready :: "('n, 'db, 'tx, 't) node_deps \<Rightarrow> Ready \<Rightarrow> (('n, 'db, 't) RaftNode, unit) action" where
  "finish_ready D ready =
     act_then (raft_call (rn_advance (nd_raft D) (ready\<lparr>rd_messages := [], rd_committed_entries := []\<rparr>))) (\<lambda>light_ready.
     act_then (act_each send_message (lr_messages light_ready)) (\<lambda>_. update_status D))"

lemma act_then_assoc_all: "act_then (act_then f h) g = act_then f (\<lambda>a. act_then (h a) g)"
  by (simp add: fun_eq_iff)

lemma handle_ready_parts:
  assumes "rn_ready (nd_raft D) (node_db m) (node_raft m) = (ready, n)"
  shows "node_handle_ready D m = act_then (save_ready D ready) (\<lambda>_. act_then (act_each send_message (rd_messages ready)) (\<lambda>_.
     act_then (apply_ready D ready) (\<lambda>_. finish_ready D ready))) (m\<lparr>node_raft := n\<rparr>)"
  unfolding node_handle_ready_def apply_ready_def finish_ready_def act_then_assoc_all
  by (rule act_then_ok, rule raft_call_apply, rule assms)

lemma finish_ready_apply:
  assumes "rn_advance (nd_raft D) (ready\<lparr>rd_messages := [], rd_committed_entries := []\<rparr>) (node_db m) (node_raft m) = (light, n)"
  shows "\<exists>st. finish_ready D ready m = (Inr (), m\<lparr>node_raft := n, node_sent := node_sent m @ lr_messages light, node_status := st\<rparr>)"
proof -
  have "finish_ready D ready m = act_then (act_each send_message (lr_messages light)) (\<lambda>_. update_status D) (m\<lparr>node_raft := n\<rparr>)"
    unfolding finish_ready_def
    by (rule act_then_ok, rule raft_call_apply, rule assms)
  also have "\<dots> = update_status D (m\<lparr>node_raft := n, node_sent := node_sent m @ lr_messages light\<rparr>)"
    by (simp add: act_then_ok[OF send_all])
  finally show ?thesis by (auto simp: update_status_def Let_def)
qed

text \<open>
  C7: the order of a ready state in the node. When its hard state and its entries cannot be saved, nothing is sent, applied or
  answered; otherwise the tables hold both before its messages go out, in order. When a committed entry or the
  snapshot then fails, the consensus is never told to advance; on success it is, and only the messages of the light ready follow.
\<close>

theorem node_saves_then_sends:
  assumes "redb_ok (nd_redb D) dbv view" and ready: "rn_ready (nd_raft D) (node_db m) (node_raft m) = (ready, n)"
    and "node_handle_ready D m = (r, m')" and "save_ready D ready (m\<lparr>node_raft := n\<rparr>) = (saved, m1)"
  shows "case saved of
      Inl e \<Rightarrow> r = Inl e \<and> rest_of m' = rest_of m \<and> node_raft m' = n
    | Inr _ \<Rightarrow> dbv (node_db m1) = ready_tables ready (dbv (node_db m)) \<and>
       (case r of
          Inl _ \<Rightarrow> node_sent m' = node_sent m @ rd_messages ready \<and> node_raft m' = n
        | Inr _ \<Rightarrow> \<exists>light. rn_advance (nd_raft D) (ready\<lparr>rd_messages := [], rd_committed_entries := []\<rparr>) (node_db m') n = (light, node_raft m')
            \<and> node_sent m' = node_sent m @ rd_messages ready @ lr_messages light)"
proof (cases saved)
  case (Inl e)
  with assms(4) have s: "save_ready D ready (m\<lparr>node_raft := n\<rparr>) = (Inl e, m1)" by simp
  with assms(3) have "r = Inl e \<and> m' = m1" by (simp add: handle_ready_parts[OF ready] act_then_apply)
  with save_ready_frame[OF assms(4)] Inl show ?thesis by (simp add: rest_of_def)
next
  case (Inr u)
  then have s: "save_ready D ready (m\<lparr>node_raft := n\<rparr>) = (Inr (), m1)" using assms(4) by simp
  let ?m2 = "m1\<lparr>node_sent := node_sent m1 @ rd_messages ready\<rparr>"
  have q2: "quiet ?m2 = (n, node_sent m @ rd_messages ready)"
    using save_ready_frame[OF s] by (simp add: quiet_def rest_of_def)
  obtain a m3 where a: "apply_ready D ready ?m2 = (a, m3)" by fastforce
  have q3: "quiet m3 = (n, node_sent m @ rd_messages ready)"
    using keepsD[where I = "\<lambda>m. quiet m = quiet ?m2", OF quiet_apply_ready refl a] q2 by simp
  have h: "act_then (apply_ready D ready) (\<lambda>_. finish_ready D ready) ?m2 = (r, m')"
    using assms(3) by (simp add: handle_ready_parts[OF ready] act_then_ok[of "save_ready D ready", OF s]
        act_then_ok[of "act_each send_message (rd_messages ready)", OF send_all])
  have "case r of Inl _ \<Rightarrow> node_sent m' = node_sent m @ rd_messages ready \<and> node_raft m' = n
     | Inr _ \<Rightarrow> \<exists>light. rn_advance (nd_raft D) (ready\<lparr>rd_messages := [], rd_committed_entries := []\<rparr>) (node_db m') n = (light, node_raft m')
            \<and> node_sent m' = node_sent m @ rd_messages ready @ lr_messages light"
  proof (cases a)
    case (Inl e)
    with h q3 show ?thesis by (auto simp: act_then_apply a quiet_def)
  next
    case (Inr v)
    then have f: "finish_ready D ready m3 = (r, m')" using h a by (simp add: act_then_ok)
    obtain light n' where l: "rn_advance (nd_raft D) (ready\<lparr>rd_messages := [], rd_committed_entries := []\<rparr>) (node_db m3) (node_raft m3) = (light, n')"
      by fastforce
    from finish_ready_apply[OF l] f q3 l show ?thesis by (auto simp: quiet_def)
  qed
  with save_ready_InrD[OF assms(1) s] Inr show ?thesis by simp
qed


section \<open>What a node does not do\<close>

text \<open>A consensus whose light ready states commit \<open>es\<close> up to \<open>i\<close>, and that applies membership changes as \<open>f\<close> says.\<close>

definition other_light :: "u64 option \<Rightarrow> Entry list \<Rightarrow> (ConfChange \<Rightarrow> 'db \<Rightarrow> 'n \<Rightarrow> (error_text + ConfState) \<times> 'n) \<Rightarrow> ('n, 'db) raw_node \<Rightarrow> ('n, 'db) raw_node" where
  "other_light i es f R = R\<lparr>rn_apply_conf_change := f, rn_advance := \<lambda>rd db n. case rn_advance R rd db n of
     (light, n') \<Rightarrow> (light\<lparr>lr_commit_index := i, lr_committed_entries := es\<rparr>, n')\<rparr>"

text \<open>Applying an entry goes by its data; its type is not looked at.\<close>

lemma entry_type_ignored: "node_apply_entry D (entry\<lparr>entry_type := t\<rparr>) = node_apply_entry D entry"
  by (simp add: node_apply_entry_def cong: sum.case_cong if_cong)

lemma other_light_fields:
  "node_apply_entry (D\<lparr>nd_raft := R\<rparr>) = node_apply_entry D" "node_apply_snapshot (D\<lparr>nd_raft := R\<rparr>) = node_apply_snapshot D"
  "save_ready (D\<lparr>nd_raft := R\<rparr>) = save_ready D"
  "update_status (D\<lparr>nd_raft := other_light i es f (nd_raft D)\<rparr>) = update_status D"
  by (simp_all add: fun_eq_iff node_apply_entry_def node_apply_snapshot_def save_ready_def update_status_def other_light_def Let_def
      cong: if_cong sum.case_cong option.case_cong)

lemma apply_ready_light: "apply_ready (D\<lparr>nd_raft := R\<rparr>) = apply_ready D"
  by (simp add: fun_eq_iff apply_ready_def other_light_fields)

lemma finish_other_light: "finish_ready (D\<lparr>nd_raft := other_light i es f (nd_raft D)\<rparr>) ready = finish_ready D ready"
  unfolding finish_ready_def other_light_fields
  by (simp add: fun_eq_iff act_then_apply raft_call_def other_light_def split: prod.split)

text \<open>
  C10: entries that a light ready state commits are lost. Whatever \<open>advance\<close> reports as committed, a node does the same with a
  ready state and applies nothing of it, nor does it ever apply a change of the members to the consensus.
\<close>

theorem light_commits_ignored:
  fixes D :: "('n, 'db, 'tx, 't) node_deps"
  shows "node_handle_ready (D\<lparr>nd_raft := other_light i es f (nd_raft D)\<rparr>) = node_handle_ready D
   \<and> node_tick (D\<lparr>nd_raft := other_light i es f (nd_raft D)\<rparr>) = node_tick D
   \<and> node_message (D\<lparr>nd_raft := other_light i es f (nd_raft D)\<rparr>) = node_message D"
proof -
  let ?D = "D\<lparr>nd_raft := other_light i es f (nd_raft D)\<rparr>"
  have h: "node_handle_ready ?D = node_handle_ready D"
  proof
    fix m :: "('n, 'db, 't) RaftNode"
    obtain ready n where r: "rn_ready (nd_raft D) (node_db m) (node_raft m) = (ready, n)" by fastforce
    then have "rn_ready (nd_raft ?D) (node_db m) (node_raft m) = (ready, n)" by (simp add: other_light_def)
    from handle_ready_parts[OF this] handle_ready_parts[OF r] show "node_handle_ready ?D m = node_handle_ready D m"
      by (simp only: other_light_fields apply_ready_light finish_other_light)
  qed
  then have w: "when_ready ?D = when_ready D" unfolding when_ready_def h by (simp add: other_light_def)
  have "rn_tick (nd_raft ?D) = rn_tick (nd_raft D)" "rn_step (nd_raft ?D) = rn_step (nd_raft D)" by (simp_all add: other_light_def)
  then have "node_tick ?D = node_tick D" and "\<And>msg. node_message ?D msg = node_message D msg"
    by (simp_all only: node_tick_def node_message_def w)
  with h show ?thesis by blast
qed

section \<open>Calls of \<open>propose\<close>\<close>

text \<open>Each call has at most one sender, which is gone once its result is there; a call returns once.\<close>

definition node_ok :: "('n, 'db, 't) RaftNode \<Rightarrow> bool" where
  "node_ok m \<longleftrightarrow> node_inbox m = [] \<and> distinct (map fst (node_returned m))
     \<and> (\<forall>ch \<in> fst ` set (node_returned m). node_calls m ch = None)
     \<and> (\<forall>ch r. node_results m ch = Some r \<longrightarrow> node_calls m ch \<noteq> None \<and> ch \<notin> ran (node_pending m))
     \<and> (\<forall>k k' ch. node_pending m k = Some ch \<longrightarrow> node_pending m k' = Some ch \<longrightarrow> k = k')"

lemma node_ok_update [simp]:
  "node_ok (m\<lparr>node_raft := n\<rparr>) = node_ok m" "node_ok (m\<lparr>node_db := db\<rparr>) = node_ok m"
  "node_ok (m\<lparr>node_machine := t\<rparr>) = node_ok m" "node_ok (m\<lparr>node_status := st\<rparr>) = node_ok m"
  "node_ok (m\<lparr>node_sent := s\<rparr>) = node_ok m" "node_ok (m\<lparr>node_counter := i\<rparr>) = node_ok m"
  "node_ok (m\<lparr>node_shutdown_tx := b, node_shutdown := b'\<rparr>) = node_ok m"
  by (simp_all add: node_ok_def)

lemma ok_drop_sender: "node_ok m \<Longrightarrow> node_ok (m\<lparr>node_pending := (node_pending m)(k := None)\<rparr>)"
  unfolding node_ok_def by (auto simp: ran_def split: if_splits)

lemma node_okD:
  assumes "node_ok m"
  shows "node_inbox m = []" and "distinct (map fst (node_returned m))"
    and "ch \<in> fst ` set (node_returned m) \<Longrightarrow> node_calls m ch = None"
    and "node_results m ch = Some r \<Longrightarrow> node_calls m ch \<noteq> None" and "node_results m ch = Some r \<Longrightarrow> ch \<notin> ran (node_pending m)"
    and "node_pending m k = Some ch \<Longrightarrow> node_pending m k' = Some ch \<Longrightarrow> k = k'"
  using assms unfolding node_ok_def by (elim conjE, metis)+

lemma node_okI:
  assumes "node_inbox m = []" and "distinct (map fst (node_returned m))"
    and "\<And>ch. ch \<in> fst ` set (node_returned m) \<Longrightarrow> node_calls m ch = None"
    and "\<And>ch r. node_results m ch = Some r \<Longrightarrow> node_calls m ch \<noteq> None \<and> ch \<notin> ran (node_pending m)"
    and "\<And>k k' ch. node_pending m k = Some ch \<Longrightarrow> node_pending m k' = Some ch \<Longrightarrow> k = k'"
  shows "node_ok m"
proof -
  have "\<forall>ch \<in> fst ` set (node_returned m). node_calls m ch = None" using assms(3) by (intro ballI)
  moreover have "\<forall>ch r. node_results m ch = Some r \<longrightarrow> node_calls m ch \<noteq> None \<and> ch \<notin> ran (node_pending m)"
    using assms(4) by (intro allI impI)
  moreover have "\<forall>k k' ch. node_pending m k = Some ch \<longrightarrow> node_pending m k' = Some ch \<longrightarrow> k = k'"
    using assms(5) by (intro allI impI)
  ultimately show ?thesis unfolding node_ok_def using assms(1,2) by (intro conjI)
qed

lemma ok_answer: "keeps node_ok (answer_context k r)"
  unfolding keeps_def
proof (intro allI impI)
  fix m :: "('a, 'b, 'c) RaftNode"
  assume ok: "node_ok m"
  show "node_ok (snd (answer_context k r m))"
  proof (cases "node_pending m k")
    case (Some ch)
    let ?p = "(node_pending m)(k := None)"
    let ?m = "m\<lparr>node_pending := ?p, node_results := (if node_calls m ch = None then node_results m else (node_results m)(ch \<mapsto> r))\<rparr>"
    have gone: "ch \<notin> ran ?p" using node_okD(6)[OF ok Some] by (auto simp: ran_def)
    have sub: "ran ?p \<subseteq> ran (node_pending m)" by (auto simp: ran_def)
    have "node_ok ?m"
    proof (rule node_okI)
      fix c x assume "node_results ?m c = Some x"
      then show "node_calls ?m c \<noteq> None \<and> c \<notin> ran (node_pending ?m)"
        using gone sub node_okD(4,5)[OF ok, of c] by (cases "c = ch") (auto split: if_splits)
    qed (use node_okD(1,2,3,6)[OF ok] in \<open>auto split: if_splits\<close>)
    with Some show ?thesis by (simp add: answer_context_def)
  qed (simp add: answer_context_def ok)
qed

lemma ok_raft_call [keeps_rules]: "keeps node_ok (raft_call f)"
  by (simp add: keeps_def raft_call_def split: prod.split)

lemma ok_raft_try [keeps_rules]: "keeps node_ok (raft_try conv f)"
  unfolding raft_try_def by (intro keeps_rules)

lemma ok_store_call [keeps_rules]: "keeps node_ok (store_call conv f)"
  by (simp add: keeps_def store_call_def split: prod.split)

lemma ok_send [keeps_rules]: "keeps node_ok (send_message msg)"
  by (simp add: keeps_def send_message_def)

lemma ok_update_status [keeps_rules]: "keeps node_ok (update_status D)"
  by (simp add: keeps_def update_status_def Let_def)

lemma ok_apply_entry [keeps_rules]: "keeps node_ok (node_apply_entry D e)"
  by (auto simp: node_apply_entry_def keeps_def split: sum.split prod.split intro!: ok_answer[unfolded keeps_def, rule_format])

lemma ok_apply_snapshot [keeps_rules]: "keeps node_ok (node_apply_snapshot D s)"
  unfolding node_apply_snapshot_def by (intro keeps_rules) (simp add: keeps_def split: prod.split)

lemma ok_when_ready [keeps_rules]: "keeps node_ok (when_ready D)"
  unfolding when_ready_def node_handle_ready_def save_ready_def by (intro keeps_rules)

lemma ok_propose_change: "keeps node_ok (propose_change D operation cc)"
  unfolding propose_change_def not_leader_def by (intro keeps_rules)

lemma ok_finish: "node_ok m \<Longrightarrow> ch \<notin> fst ` set (node_returned m) \<Longrightarrow> node_ok (finish_call ch r m)"
  unfolding node_ok_def finish_call_def by (auto split: if_splits)

lemma ok_register:
  assumes ok: "node_ok m" and new: "node_calls m ch = None" "ch \<notin> fst ` set (node_returned m)" "ch \<notin> ran (node_pending m)"
  shows "node_ok (propose_register D ch d m)"
proof (cases "bin_serialize (nd_proposal D) d")
  case (Inl e)
  with ok_finish[of "m\<lparr>node_counter := node_counter m + 1\<rparr>" ch] ok new show ?thesis by (simp add: propose_register_def Let_def)
next
  case (Inr serialized)
  let ?pid = "proposal_id_of (ns_id (node_config m)) (node_counter m)"
  let ?m = "m\<lparr>node_counter := node_counter m + 1, node_pending := (node_pending m)(?pid \<mapsto> ch),
    node_calls := (node_calls m)(ch \<mapsto> Registered ?pid serialized)\<rparr>"
  have no: "node_pending m k \<noteq> Some ch" for k using new(3) by (auto simp: ran_def)
  have sub: "ran ((node_pending m)(?pid \<mapsto> ch)) \<subseteq> insert ch (ran (node_pending m))" by (auto simp: ran_def)
  have "node_ok ?m"
  proof (rule node_okI)
    fix c x assume "node_results ?m c = Some x"
    then show "node_calls ?m c \<noteq> None \<and> c \<notin> ran (node_pending ?m)"
      using sub new(1) node_okD(4,5)[OF ok, of c] by (cases "c = ch") auto
  next
    fix k k' c assume "node_pending ?m k = Some c" "node_pending ?m k' = Some c"
    then show "k = k'" using no node_okD(6)[OF ok, of k c k'] by (auto split: if_splits)
  next
    fix c assume "c \<in> fst ` set (node_returned ?m)"
    then show "node_calls ?m c = None" using new(2) node_okD(3)[OF ok, of c] by auto
  qed (use node_okD(1,2)[OF ok] in simp_all)
  with Inr show ?thesis by (simp add: propose_register_def Let_def)
qed

lemma ok_set_call:
  assumes ok: "node_ok m" and "node_calls m ch = Some c"
  shows "node_ok (m\<lparr>node_calls := (node_calls m)(ch \<mapsto> c')\<rparr>)"
proof (rule node_okI)
  let ?m = "m\<lparr>node_calls := (node_calls m)(ch \<mapsto> c')\<rparr>"
  fix k assume "k \<in> fst ` set (node_returned ?m)"
  with node_okD(3)[OF ok, of k] assms(2) show "node_calls ?m k = None" by auto
qed (use node_okD[OF ok] in auto)

lemma ok_submit:
  assumes "node_ok m" and "node_calls m ch = Some c"
  shows "node_ok (propose_submit D ch pid serialized m)"
proof -
  let ?f = "act_with (is_raft_leader D) (\<lambda>leader. if \<not> leader
        then act_then (act_update (\<lambda>m. m\<lparr>node_pending := (node_pending m)(pid := None)\<rparr>)) (\<lambda>_. not_leader D ''propose'')
        else raft_try (raft_failure ''propose data'') (rn_propose (nd_raft D) pid serialized))"
  obtain r m' where r: "?f m = (r, m')" by fastforce
  have "keeps (\<lambda>m. node_ok m \<and> node_calls m ch = Some c) ?f"
    unfolding not_leader_def raft_try_def by (intro keeps_rules keeps_update) (auto simp: ok_drop_sender keeps_def raft_call_def split: prod.split)
  from keepsD[OF this _ r] assms have m': "node_ok m'" "node_calls m' ch = Some c" by auto
  then have "ch \<notin> fst ` set (node_returned m')" unfolding node_ok_def by auto
  with ok_finish[OF m'(1) this] ok_set_call[OF m'] show ?thesis
    unfolding propose_submit_def r by (simp split: sum.split)
qed

definition node_init :: "('n, 'db, 'tx, 't) node_deps \<Rightarrow> ('n, 'db, 't) RaftNode \<Rightarrow> bool" where
  "node_init D m \<longleftrightarrow> (\<exists>dir db transport counter config machine. node_new D dir db transport counter config machine = Some (Inr m))"

lemma node_new_InrD:
  assumes "node_new D dir db transport counter config machine = Some (Inr m)"
  shows "node_inbox m = []" and "node_returned m = []" and "node_results m = Map.empty" and "node_pending m = Map.empty"
  using assms by (auto simp: node_new_def split: sum.splits if_splits)

lemma node_init_ok: "node_init D m \<Longrightarrow> node_ok m"
  unfolding node_init_def by (elim exE) (frule node_new_InrD(1), frule node_new_InrD(2), frule node_new_InrD(3), drule node_new_InrD(4), simp add: node_ok_def)

lemma node_step_ok:
  assumes "node_ok m" and "node_step D m ev m'"
  shows "node_ok m'"
  using assms(2)
proof (cases rule: node_step.cases)
  case (submit ch pid serialized)
  with ok_submit[OF assms(1)] show ?thesis by blast
next
  case (return ch timed_out)
  then have "ch \<notin> fst ` set (node_returned m)" using assms(1) unfolding node_ok_def by auto
  with return ok_finish[OF assms(1)] show ?thesis by (auto simp: propose_wait_def split: option.splits if_splits)
next
  case (give_up ch)
  with assms(1) show ?thesis unfolding node_ok_def by (auto split: if_splits)
next
  case ticked
  have "keeps node_ok (node_tick D)" unfolding node_tick_def by (intro keeps_rules)
  with ticked assms(1) show ?thesis by (auto simp: keeps_def)
next
  case received
  with assms(1) show ?thesis by (simp add: node_ok_def)
next
  case stopped
  with assms(1) show ?thesis by (simp add: node_stop_def)
qed (use assms(1) ok_propose_change in \<open>auto simp: ok_register node_add_peer_def node_remove_peer_def keeps_def\<close>)

interpretation node: invariant_of "node_init D" "node_step D" node_ok for D
  by unfold_locales (fact node_init_ok, fact node_step_ok)


lemma wait_times_out: "\<exists>m'. propose_wait True ch m = Some m' \<and> node_pending m' = node_pending m \<and> ch \<in> fst ` set (node_returned m')"
  by (auto simp: propose_wait_def finish_call_def split: option.split)

text \<open>Only the steps of calls touch the calls and what they returned.\<close>

definition calling :: "('n, 'db, 't) RaftNode \<Rightarrow> (channel \<rightharpoonup> call_state) \<times> (channel \<times> (RaftError + bytes)) list" where
  "calling m = (node_calls m, node_returned m)"

lemma calling_basic [keeps_rules]:
  "keeps (\<lambda>m. calling m = x) (raft_call f)" "keeps (\<lambda>m. calling m = x) (store_call conv g)" "keeps (\<lambda>m. calling m = x) (send_message msg)"
  "keeps (\<lambda>m. calling m = x) (update_status D)" "keeps (\<lambda>m. calling m = x) (answer_context k r)"
  by (simp_all add: keeps_def calling_def raft_call_def store_call_def send_message_def update_status_def answer_context_def Let_def
      split: prod.split option.split)

lemma calling_answer: "node_calls (snd (answer_context k r m)) = node_calls m" "node_returned (snd (answer_context k r m)) = node_returned m"
  by (simp_all add: answer_context_def split: option.split)

lemma calling_apply [keeps_rules]: "keeps (\<lambda>m. calling m = x) (node_apply_entry D e)" "keeps (\<lambda>m. calling m = x) (node_apply_snapshot D s)"
proof -
  show "keeps (\<lambda>m. calling m = x) (node_apply_entry D e)"
    by (auto simp: calling_answer node_apply_entry_def keeps_def calling_def split: sum.split prod.split)
  show "keeps (\<lambda>m. calling m = x) (node_apply_snapshot D s)"
    unfolding node_apply_snapshot_def by (intro keeps_rules) (simp add: keeps_def calling_def split: prod.split)
qed

lemma calling_tick: "keeps (\<lambda>m. calling m = x) (node_tick D)" "keeps (\<lambda>m. calling m = x) (node_message D msg)"
    "keeps (\<lambda>m. calling m = x) (propose_change D operation cc)"
  unfolding node_tick_def node_message_def when_ready_def node_handle_ready_def save_ready_def propose_change_def not_leader_def raft_try_def
  by (intro keeps_rules)+

text \<open>A call that was given up stays so until its channel is registered again.\<close>

definition given_up :: "channel \<Rightarrow> ('n, 'db, 't) RaftNode \<Rightarrow> bool" where
  "given_up ch m \<longleftrightarrow> node_calls m ch = None \<and> ch \<notin> fst ` set (node_returned m)"

lemma given_up_same: "given_up ch m \<Longrightarrow> calling m' = calling m \<Longrightarrow> given_up ch m'"
  by (simp add: given_up_def calling_def)

lemma given_up_finish: "given_up ch m \<Longrightarrow> ch' \<noteq> ch \<Longrightarrow> given_up ch (finish_call ch' r m)"
  by (auto simp: given_up_def finish_call_def)

lemma given_up_step:
  assumes "given_up ch m" and "node_step D m ev m'" and "\<forall>d. ev \<noteq> Register ch d"
  shows "given_up ch m'"
  using assms(2)
proof (cases rule: node_step.cases)
  case (register c d)
  let ?m = "m\<lparr>node_counter := node_counter m + 1\<rparr>"
  have "given_up ch ?m" "c \<noteq> ch" using assms register(1) by (auto simp: given_up_def)
  with register show ?thesis
    by (auto simp: propose_register_def Let_def given_up_finish split: sum.split) (simp add: given_up_def)
next
  case (submit c pid serialized)
  let ?f = "act_with (is_raft_leader D) (\<lambda>leader. if \<not> leader
        then act_then (act_update (\<lambda>m. m\<lparr>node_pending := (node_pending m)(pid := None)\<rparr>)) (\<lambda>_. not_leader D ''propose'')
        else raft_try (raft_failure ''propose data'') (rn_propose (nd_raft D) pid serialized))"
  obtain r m1 where r: "?f m = (r, m1)" by fastforce
  have "keeps (\<lambda>x. calling x = calling m) ?f"
    unfolding not_leader_def raft_try_def by (intro keeps_rules keeps_update) (simp add: calling_def)
  from keepsD[OF this refl r] have "given_up ch m1" by (rule given_up_same[OF assms(1)])
  moreover have "c \<noteq> ch" using submit(3) assms(1) by (auto simp: given_up_def)
  ultimately show ?thesis unfolding submit(2) propose_submit_def r
    by (auto simp: given_up_finish split: sum.split) (simp add: given_up_def)
next
  case (return c timed_out)
  have "c \<noteq> ch" using return(2) assms(1) by (auto simp: given_up_def)
  with return(3) assms(1) show ?thesis by (auto simp: propose_wait_def given_up_finish split: option.splits if_splits)
next
  case (give_up c)
  with assms(1) show ?thesis by (auto simp: given_up_def)
next
  case ticked
  then have "calling m' = calling m" using calling_tick(1)[of "calling m" D] by (simp add: keeps_def)
  then show ?thesis by (rule given_up_same[OF assms(1)])
next
  case (received msg rest)
  then have "calling m' = calling m" using calling_tick(2)[of "calling m" D msg] by (simp add: keeps_def calling_def)
  then show ?thesis by (rule given_up_same[OF assms(1)])
next
  case (add_peer p a)
  then have "calling m' = calling m" using calling_tick(3)[of "calling m" D] by (simp add: keeps_def node_add_peer_def)
  then show ?thesis by (rule given_up_same[OF assms(1)])
next
  case (remove_peer p)
  then have "calling m' = calling m" using calling_tick(3)[of "calling m" D] by (simp add: keeps_def node_remove_peer_def)
  then show ?thesis by (rule given_up_same[OF assms(1)])
qed (use assms(1) in \<open>simp_all add: given_up_def node_stop_def\<close>)

lemma given_up_run:
  "run (node_step D) m es m' \<Longrightarrow> given_up ch m \<Longrightarrow> \<forall>d. Register ch d \<notin> set es \<Longrightarrow> given_up ch m'"
  by (induction rule: run.induct) (auto dest: given_up_step)

lemma run_splitE:
  assumes "run step s (xs @ ys) t"
  obtains u where "run step s xs u" and "run step u ys t"
  using assms
proof (induction xs arbitrary: s thesis)
  case (Cons x xs)
  then obtain v where "step s x v" "run step v (xs @ ys) t" by (auto simp: run_Cons)
  with Cons.IH[OF _ this(2)] Cons.prems(1) show thesis by (metis run_step)
qed simp

text \<open>
  C9: the calls of \<open>propose\<close>, in whatever order calls, ticks and the rest come. A call returns at most once and then is over; one
  that was given up does not return afterwards, unless a new call is made on its channel; only a call that is not over holds
  a result. A call that waits can return at its timeout, and then leaves its entry among the pending proposals.
  No message from another node ever reaches the loop.
\<close>

theorem node_calls_return_once:
  assumes "node_init D m0" and "run (node_step D) m0 es m"
  shows "distinct (map fst (node_returned m)) \<and> (\<forall>ch \<in> fst ` set (node_returned m). node_calls m ch = None)
    \<and> (\<forall>es1 ch es2. es = es1 @ GiveUp ch # es2 \<and> (\<forall>d. Register ch d \<notin> set es2) \<longrightarrow> ch \<notin> fst ` set (node_returned m))
    \<and> (\<forall>ch r. node_results m ch = Some r \<longrightarrow> node_calls m ch \<noteq> None)
    \<and> (\<forall>ch. node_calls m ch = Some Awaiting \<longrightarrow> (\<exists>m'. node_step D m (Return ch True) m'
         \<and> ch \<in> fst ` set (node_returned m') \<and> node_pending m' = node_pending m))
    \<and> node_inbox m = [] \<and> (\<forall>m'. \<not> node_step D m Received m')"
proof -
  have reach: "reachable (node_init D) (node_step D) x" if "run (node_step D) m0 xs x" for xs x
    using assms(1) that unfolding reachable_def by blast
  from node.always[OF reach[OF assms(2)]] have ok: "node_ok m" .
  have gone: "ch \<notin> fst ` set (node_returned m)" if es: "es = es1 @ GiveUp ch # es2" and new: "\<forall>d. Register ch d \<notin> set es2" for es1 ch es2
  proof -
    obtain x y where x: "run (node_step D) m0 es1 x" "node_step D x (GiveUp ch) y" "run (node_step D) y es2 m"
      using assms(2) unfolding es by (auto elim!: run_splitE simp: run_Cons)
    from x(2) have "given_up ch y"
      using node_okD(3)[OF node.always[OF reach[OF x(1)]], of ch] by cases (auto simp: given_up_def)
    from given_up_run[OF x(3) this new] show ?thesis by (simp add: given_up_def)
  qed
  have received: "\<not> node_step D m Received m'" for m' using node_okD(1)[OF ok] by (auto elim!: node_step.cases)
  have wait: "\<exists>m'. node_step D m (Return ch True) m' \<and> ch \<in> fst ` set (node_returned m') \<and> node_pending m' = node_pending m"
    if "node_calls m ch = Some Awaiting" for ch using wait_times_out[of ch m] return[OF that] by blast
  show ?thesis using node_okD(1,2,3,4)[OF ok] gone received wait by (intro conjI allI ballI impI) auto
qed

section \<open>Committed entries\<close>

definition entry_result :: "('n, 'db, 'tx, 't) node_deps \<Rightarrow> Entry \<Rightarrow> 't \<Rightarrow> (RaftError + bytes) \<times> 't" where
  "entry_result D e t = nm_apply (nd_machine D) (entry_index e) (projr (bin_deserialize (nd_proposal D) (entry_data e))) t"

definition apply_log :: "('n, 'db, 'tx, 't) node_deps \<Rightarrow> Entry list \<Rightarrow> 't \<Rightarrow> 't" where
  "apply_log D es t = fold (\<lambda>e t. if entry_data e = [] then t else snd (entry_result D e t)) es t"

lemma apply_log_simps [simp]:
  "apply_log D [] t = t" "apply_log D (xs @ ys) t = apply_log D ys (apply_log D xs t)"
  "apply_log D (e # es) t = apply_log D es (if entry_data e = [] then t else snd (entry_result D e t))"
  by (simp_all add: apply_log_def)

text \<open>The contexts an applied entry looks up.\<close>

definition asks :: "Entry \<Rightarrow> bytes \<Rightarrow> bool" where
  "asks e k \<longleftrightarrow> entry_data e \<noteq> [] \<and> entry_context e \<noteq> [] \<and> entry_context e = k"

lemma apply_entry_result:
  assumes "node_apply_entry D e m = (Inr (), m')"
  shows "node_machine m' = apply_log D [e] (node_machine m)" and "node_calls m' = node_calls m"
    and "node_pending m' k = (if asks e k then None else node_pending m k)"
    and "asks e k \<Longrightarrow> node_pending m k = Some ch \<Longrightarrow> node_calls m ch \<noteq> None \<Longrightarrow>
      node_results m' ch = Some (fst (entry_result D e (node_machine m)))"
    and "(\<And>k. asks e k \<Longrightarrow> node_pending m k \<noteq> Some ch) \<Longrightarrow> node_results m' ch = node_results m ch"
  using assms by (auto simp: node_apply_entry_def answer_context_def entry_result_def asks_def split: if_splits sum.splits prod.splits option.splits)

lemma apply_entries_result:
  assumes "act_each (node_apply_entry D) es m = (Inr (), m')"
  shows "node_machine m' = apply_log D es (node_machine m) \<and> node_calls m' = node_calls m
    \<and> (\<forall>k. node_pending m' k = (if \<exists>e \<in> set es. asks e k then None else node_pending m k))"
  using assms
proof (induction es arbitrary: m)
  case (Cons e es)
  then obtain m1 where e: "node_apply_entry D e m = (Inr (), m1)" and es: "act_each (node_apply_entry D) es m1 = (Inr (), m')"
    by (auto elim: act_then_InrE)
  from Cons.IH[OF es] apply_entry_result(1-3)[OF e] show ?case by simp
qed simp

lemma unasked_result:
  assumes "act_each (node_apply_entry D) es m = (Inr (), m')" and "ch \<notin> ran (node_pending m)"
  shows "node_results m' ch = node_results m ch"
  using assms
proof (induction es arbitrary: m)
  case (Cons e es)
  then obtain m1 where e: "node_apply_entry D e m = (Inr (), m1)" and es: "act_each (node_apply_entry D) es m1 = (Inr (), m')"
    by (auto elim: act_then_InrE)
  have "ch \<notin> ran (node_pending m1)" using apply_entry_result(3)[OF e] Cons.prems(2) by (auto simp: ran_def split: if_splits)
  moreover have "node_results m1 ch = node_results m ch"
    using Cons.prems(2) by (intro apply_entry_result(5)[OF e]) (auto simp: ranI)
  ultimately show ?case using Cons.IH[OF es] by simp
qed simp

lemma act_each_append: "act_each f (xs @ ys) = act_then (act_each f xs) (\<lambda>_. act_each f ys)"
proof (induction xs)
  case Nil
  show ?case by (rule ext) (simp add: act_then_apply)
qed (simp add: act_then_assoc_all)

text \<open>What \<open>advance\<close> and the status leave alone.\<close>

lemma finish_ready_frame:
  assumes "finish_ready D ready m = (r, m')"
  shows "r = Inr () \<and> node_machine m' = node_machine m \<and> node_pending m' = node_pending m \<and> node_results m' = node_results m"
proof -
  obtain light n where "rn_advance (nd_raft D) (ready\<lparr>rd_messages := [], rd_committed_entries := []\<rparr>) (node_db m) (node_raft m) = (light, n)"
    by fastforce
  from finish_ready_apply[OF this] assms show ?thesis by auto
qed

text \<open>
  C8: what a proposal is answered. When a ready state without a snapshot is handled, the machine has applied its committed entries in order, and
  the call that waits under the context of an entry has the result of that entry on the state left by the entries before. It is the context
  alone that counts, so an entry of an earlier run with the same identifier answers the call of another proposal.
\<close>

theorem proposals_answered_by_context:
  assumes "node_ok m" and ready: "rn_ready (nd_raft D) (node_db m) (node_raft m) = (ready, n)"
    and "node_handle_ready D m = (Inr (), m')" and "snapshot_is_empty (rd_snapshot ready)"
    and split: "rd_committed_entries ready = xs @ e # ys"
    and "asks e k" and "node_pending m k = Some ch" and "node_calls m ch \<noteq> None" and "\<forall>x \<in> set xs. \<not> asks x k"
  shows "node_machine m' = apply_log D (xs @ e # ys) (node_machine m) \<and> node_pending m' k = None
    \<and> node_results m' ch = Some (fst (entry_result D e (apply_log D xs (node_machine m))))"
proof -
  obtain saved m1 where s: "save_ready D ready (m\<lparr>node_raft := n\<rparr>) = (saved, m1)" by fastforce
  have "saved = Inr ()" using assms(3) by (cases saved) (auto simp: handle_ready_parts[OF ready] act_then_apply s)
  with s have s: "save_ready D ready (m\<lparr>node_raft := n\<rparr>) = (Inr (), m1)" by simp
  have "keeps (\<lambda>x. node_ok x \<and> node_calls x = node_calls m) (save_ready D ready)"
    unfolding save_ready_def by (intro keeps_rules) (auto simp: keeps_def store_call_def split: prod.split)
  from keepsD[OF this _ s] assms(1) have m1: "node_ok m1" "node_calls m1 = node_calls m" by auto
  have f1: "node_machine m1 = node_machine m" "node_pending m1 = node_pending m" using save_ready_frame(1)[OF s] by (simp_all add: rest_of_def)
  let ?m2 = "m1\<lparr>node_sent := node_sent m1 @ rd_messages ready\<rparr>"
  have "act_then (apply_ready D ready) (\<lambda>_. finish_ready D ready) ?m2 = (Inr (), m')"
    using assms(3) by (simp add: handle_ready_parts[OF ready] act_then_ok[of "save_ready D ready", OF s]
        act_then_ok[of "act_each send_message (rd_messages ready)", OF send_all])
  then obtain m3 where a: "act_each (node_apply_entry D) (xs @ e # ys) ?m2 = (Inr (), m3)" and f: "finish_ready D ready m3 = (Inr (), m')"
    using assms(4) by (auto simp: apply_ready_def split act_then_return_right elim: act_then_InrE)
  obtain m4 m5 where x: "act_each (node_apply_entry D) xs ?m2 = (Inr (), m4)" and e: "node_apply_entry D e m4 = (Inr (), m5)"
    and y: "act_each (node_apply_entry D) ys m5 = (Inr (), m3)"
    using a unfolding act_each_append by (auto elim!: act_then_InrE)
  note rx = apply_entries_result[OF x] and ra = apply_entries_result[OF a]
  have p4: "node_pending m4 k = Some ch" "node_calls m4 ch \<noteq> None" using rx assms(7,8,9) f1 m1 by auto
  have "keeps node_ok (act_each (node_apply_entry D) xs)" by (intro keeps_rules)
  from keepsD[OF this _ x] m1 have ok4: "node_ok m4" by simp
  have "ch \<notin> ran (node_pending m5)"
    using apply_entry_result(3)[OF e] node_okD(6)[OF ok4 p4(1)] assms(6) by (auto simp: ran_def split: if_splits)
  from unasked_result[OF y this] apply_entry_result(4)[OF e assms(6) p4] finish_ready_frame[OF f] rx ra f1 assms(6)
  show ?thesis by auto
qed

text \<open>
  An entry whose data is not a proposal, as that of a membership change, stops the handling: the entries
  before it are applied, those after it are not, and the error of the format is returned.
\<close>

theorem undecodable_entry_stops:
  assumes "act_each (node_apply_entry D) xs m = (Inr (), m1)" and "entry_data e \<noteq> []"
    and "bin_deserialize (nd_proposal D) (entry_data e) = Inl err"
  shows "act_each (node_apply_entry D) (xs @ e # ys) m = (Inl (Serialization ''deserialize entry data'' err), m1)
    \<and> node_machine m1 = apply_log D xs (node_machine m)"
  using assms apply_entries_result[OF assms(1)]
  by (simp add: act_each_append act_then_ok[of "act_each (node_apply_entry D) xs", OF assms(1)] node_apply_entry_def)


section \<open>The key-value machine as a map\<close>

fun proposal_effect :: "ProposalData \<Rightarrow> (string \<rightharpoonup> string) \<Rightarrow> (string \<rightharpoonup> string)" where
  "proposal_effect (KeyValue (OpSet key v)) f = f(key \<mapsto> v)"
| "proposal_effect (KeyValue (OpDelete key)) f = f(key := None)"
| "proposal_effect _ f = f"

lemma machine_apply_effect: "fmlookup (machine_data (snd (machine_apply hash_order i d t))) = proposal_effect d (fmlookup (machine_data t))"
  by (cases "(d, fmlookup (machine_data t))" rule: proposal_effect.cases) (auto simp: machine_apply_def fun_eq_iff)

definition log_proposals :: "('n, 'db, 'tx, 't) node_deps \<Rightarrow> Entry list \<Rightarrow> ProposalData list" where
  "log_proposals D es = map (\<lambda>e. projr (bin_deserialize (nd_proposal D) (entry_data e))) (filter (\<lambda>e. entry_data e \<noteq> []) es)"

text \<open>
  The key-value machine of the node. The committed entries act on it as their proposals act on a map, in order, a
  reading proposal is answered from that map, and a snapshot restores a machine to the state it was taken of, whatever
  that machine held.
\<close>

theorem node_machine_is_map:
  assumes "nd_machine D = machine_ops hash_order B" and "bincode_ok B"
  shows "fmlookup (machine_data (apply_log D es t)) = fold proposal_effect (log_proposals D es) (fmlookup (machine_data t))
    \<and> fst (machine_apply hash_order i (KeyValue (OpGet key)) (apply_log D es t))
        = Inr (string_bytes (case fold proposal_effect (log_proposals D es) (fmlookup (machine_data t)) key of Some v \<Rightarrow> v | None \<Rightarrow> ''''))
    \<and> (\<exists>bs. nm_snapshot (nd_machine D) t = Inr bs \<and> nm_restore (nd_machine D) bs t' = (Inr (), t))"
proof -
  have step: "nm_apply (nd_machine D) = machine_apply hash_order" by (simp add: assms(1) machine_ops_def)
  have log: "fmlookup (machine_data (apply_log D es t)) = fold proposal_effect (log_proposals D es) (fmlookup (machine_data t))"
    by (induction es arbitrary: t) (simp_all add: log_proposals_def entry_result_def step machine_apply_effect)
  moreover obtain bs where "bin_serialize B (machine_data t) = Inr bs" "bin_deserialize B bs = Inr (machine_data t)"
    using codec.enc_total[OF assms(2)[unfolded bincode_ok_def]] codec.dec_enc[OF assms(2)[unfolded bincode_ok_def]] by blast
  ultimately show ?thesis
    by (auto simp: machine_apply_def assms(1) machine_ops_def machine_snapshot_def machine_restore_def)
qed

section \<open>Examples\<close>

text \<open>A node on the in-memory database and a scripted consensus; the data \<open>[2]\<close> deletes a key, \<open>[9]\<close> is no proposal.\<close>

definition pairs_wire :: "(string, string) fmap bincode" where
  "pairs_wire = \<lparr>bin_serialize = \<lambda>m. Inr (put_rows string_bytes (map (\<lambda>(k, v). (k, string_bytes v)) (sorted_list_of_fmap m))),
     bin_deserialize = \<lambda>bs. Inr (fmap_of_list (map (\<lambda>(k, v). (k, bytes_string v)) (fst (get_rows bytes_string bs))))\<rparr>"

lemma pairs_wire_ok: "bincode_ok pairs_wire"
proof -
  have id: "(\<lambda>(k, v). (k, bytes_string v)) \<circ> (\<lambda>(k, v). (k, string_bytes v)) = (\<lambda>row. row :: string \<times> string)"
    by (auto simp: bytes_string_bytes)
  have "fst (get_rows bytes_string (put_rows string_bytes rows)) = rows" for rows :: "(string \<times> bytes) list"
    using get_rows_put[of bytes_string string_bytes rows "[]"] by (simp add: bytes_string_bytes)
  then show ?thesis unfolding bincode_ok_def
    by unfold_locales (auto simp: pairs_wire_def id intro!: fmap_ext simp: fmlookup_of_list)
qed

definition node_script :: "(script_node, mem_tx, mem_tx, KeyValueStateMachine) node_deps" where
  "node_script = \<lparr>nd_redb = mem_redb, nd_prost = wire,
     nd_proposal = \<lparr>bin_serialize = \<lambda>_. Inr [1], bin_deserialize = \<lambda>bs. if bs = [9] then Inl ''no proposal''
       else Inr (if bs = [2] then KeyValue (OpDelete ''a'') else Noop)\<rparr>,
     nd_raft = script_raft, nd_last_index = \<lambda>_ _. 0,
     nd_new_raft = \<lambda>_ _. Inr \<lparr>script = [], script_role = RoleLeader, script_committed = 1, script_applied = 1\<rparr>,
     nd_machine = machine_ops (\<lambda>_. []) pairs_wire, nd_validate = \<lambda>_. Inr (), nd_show = \<lambda>_. ''error''\<rparr>"

definition node_settings :: NodeSettings where
  "node_settings = \<lparr>ns_id = 1, ns_bootstrap = True, ns_join_address = None, ns_election_timeout_ms = 3000, ns_heartbeat_interval_ms = 500,
     ns_max_bytes_per_msg = 1024, ns_max_entries_per_msg = 100, ns_request_timeout_ms = 5000\<rparr>"

text \<open>A call with the text of a proposal waits under the first identifier of the process.\<close>

definition node_sample :: "Ready list \<Rightarrow> (script_node, mem_tx, KeyValueStateMachine) RaftNode" where
  "node_sample readies = \<lparr>node_config = node_settings,
     node_raft = \<lparr>script = readies, script_role = RoleLeader, script_committed = 1, script_applied = 1\<rparr>,
     node_db = mem_empty, node_machine = machine_new, node_status = node_status_new 1, node_inbox = [],
     node_pending = [proposal_id_of 1 0 \<mapsto> 5], node_shutdown_tx = True, node_shutdown = False, node_counter = 1,
     node_calls = [5 \<mapsto> Awaiting], node_results = Map.empty, node_returned = [], node_sent = []\<rparr>"

text \<open>A ready state with an entry of an earlier run, which has the same identifier.\<close>

definition old_entry :: Entry where
  "old_entry = (sample_entry 1 [2])\<lparr>entry_context := proposal_id_of 1 0\<rparr>"

definition old_ready :: Ready where
  "old_ready = empty_ready\<lparr>rd_entries := [sample_entry 2 [1]], rd_committed_entries := [old_entry]\<rparr>"

lemma node_script_simps [simp]:
  "nd_redb node_script = mem_redb" "nd_raft node_script = script_raft" "nd_machine node_script = machine_ops (\<lambda>_. []) pairs_wire"
  "nd_validate node_script c = Inr ()" "nd_last_index node_script db n = 0"
  "bin_serialize (nd_proposal node_script) d = Inr [1]"
  "bin_deserialize (nd_proposal node_script) bs = (if bs = [9] then Inl ''no proposal'' else Inr (if bs = [2] then KeyValue (OpDelete ''a'') else Noop))"
  by (simp_all add: node_script_def)

lemma identifier_nonempty [simp]: "proposal_id_of n i \<noteq> []"
  by (simp add: proposal_id_of_def string_bytes_def)

lemma node_sample_ok: "node_ok (node_sample readies)"
  by (auto simp: node_ok_def node_sample_def split: if_splits)

lemma old_ready_saved: "\<exists>m1. save_ready node_script old_ready (node_sample rs) = (Inr (), m1)"
proof -
  obtain db where "append_entries mem_redb [sample_entry 2 [1]] mem_empty = (Inr (), db)"
    using writes_total(2)[OF mem_redb_total] by blast
  then show ?thesis by (simp add: save_ready_def old_ready_def empty_ready_def store_call_def node_sample_def act_then_apply)
qed

lemma old_ready_handled: "\<exists>m'. node_handle_ready node_script (node_sample [old_ready]) = (Inr (), m')"
proof -
  have ready: "rn_ready (nd_raft node_script) (node_db (node_sample [old_ready])) (node_raft (node_sample [old_ready]))
      = (old_ready, node_raft (node_sample [old_ready]))"
    by (simp add: script_raft_simps node_sample_def)
  have same: "node_sample [old_ready]\<lparr>node_raft := node_raft (node_sample [old_ready])\<rparr> = node_sample [old_ready]" by simp
  obtain m1 where s: "save_ready node_script old_ready (node_sample [old_ready]) = (Inr (), m1)" using old_ready_saved by blast
  have "\<exists>m3. apply_ready node_script old_ready m2 = (Inr (), m3)" for m2
    by (simp add: apply_ready_def old_ready_def empty_ready_def old_entry_def sample_entry_def snapshot_is_empty_def get_metadata_def
        node_apply_entry_def answer_context_def machine_ops_def machine_apply_def act_then_apply split: option.split)
  then obtain m3 where a: "apply_ready node_script old_ready (m1\<lparr>node_sent := node_sent m1 @ rd_messages old_ready\<rparr>) = (Inr (), m3)" by blast
  have "fst (finish_ready node_script old_ready m3) = Inr ()"
    using finish_ready_frame[of node_script old_ready m3] by (cases "finish_ready node_script old_ready m3") simp
  then show ?thesis
    by (cases "finish_ready node_script old_ready m3") (simp add: handle_ready_parts[OF ready] act_then_apply s send_all a)
qed

theorem node_saves_then_sends_witness:
  "\<exists>m' m1. node_handle_ready node_script (node_sample [old_ready]) = (Inr (), m')
    \<and> save_ready node_script old_ready (node_sample [old_ready]) = (Inr (), m1)
    \<and> mem_view (node_db m1) = ready_tables old_ready (\<lambda>_ _. None) \<and> node_sent m' = []"
proof -
  obtain m' m1 where "node_handle_ready node_script (node_sample [old_ready]) = (Inr (), m')"
    and "save_ready node_script old_ready (node_sample [old_ready]) = (Inr (), m1)"
    using old_ready_handled old_ready_saved by blast
  moreover from node_saves_then_sends[of node_script mem_view mem_view "node_sample [old_ready]" old_ready "node_raft (node_sample [old_ready])", OF _ _ this(1)] this(2)
  have "mem_view (node_db m1) = ready_tables old_ready (\<lambda>_ _. None) \<and> node_sent m' = []"
    by (auto simp: mem_redb_ok script_raft_simps node_sample_def old_ready_def empty_ready_def)
  ultimately show ?thesis by blast
qed

theorem proposals_answered_by_context_witness:
  "\<exists>m'. node_handle_ready node_script (node_sample [old_ready]) = (Inr (), m')
    \<and> node_results m' 5 = Some (Inr (string_bytes ''not_found''))"
proof -
  obtain m' where m': "node_handle_ready node_script (node_sample [old_ready]) = (Inr (), m')" using old_ready_handled by blast
  have "node_results m' 5 = Some (fst (entry_result node_script old_entry (apply_log node_script [] (node_machine (node_sample [old_ready])))))"
    using proposals_answered_by_context[OF node_sample_ok _ m', of old_ready "node_raft (node_sample [old_ready])" "[]" old_entry "[]" "proposal_id_of 1 0" 5]
    by (simp add: script_raft_simps node_sample_def old_ready_def empty_ready_def snapshot_is_empty_def get_metadata_def asks_def old_entry_def sample_entry_def)
  with m' show ?thesis by (auto simp: entry_result_def old_entry_def sample_entry_def machine_ops_def machine_apply_def node_sample_def machine_new_def)
qed

theorem undecodable_entry_stops_witness:
  "\<exists>m1. act_each (node_apply_entry node_script) [sample_entry 1 [9], old_entry] (node_sample []) = (Inl (Serialization ''deserialize entry data'' ''no proposal''), m1)"
  using undecodable_entry_stops[of node_script "[]" "node_sample []" "node_sample []" "sample_entry 1 [9]" "''no proposal''" "[old_entry]"]
  by (simp add: sample_entry_def)

text \<open>A node as it is created, with the tables of its store.\<close>

definition node_first :: "(script_node, mem_tx, KeyValueStateMachine) RaftNode" where
  "node_first = (node_sample [])\<lparr>node_pending := Map.empty, node_calls := Map.empty, node_counter := 0\<rparr>"

lemma node_first_init: "node_init node_script node_first"
proof -
  have "storage_new mem_redb (Inr ()) (Inr mem_empty) = Inr mem_empty"
    by (simp add: storage_new_def with_write_def init_tables_def mem_redb_def)
  moreover have "applied_index mem_redb mem_empty = Inr 0"
    by (simp add: applied_index_def mem_redb_def mem_ops_def mem_empty_def)
  ultimately have "node_new node_script (Inr ()) (Inr mem_empty) (Inr ()) 0 node_settings machine_new = Some (Inr node_first)"
    by (simp add: node_new_def node_first_def node_sample_def) (simp add: node_script_def node_settings_def)
  then show ?thesis unfolding node_init_def by blast
qed

theorem node_calls_return_once_witness:
  "\<exists>m0 es m m'. run (node_step node_script) m0 es m \<and> node_calls m 5 = Some Awaiting
    \<and> node_step node_script m (Return 5 True) m' \<and> node_pending m' (proposal_id_of 1 0) = Some 5"
proof -
  let ?m1 = "propose_register node_script 5 Noop node_first"
  let ?m = "propose_submit node_script 5 (proposal_id_of 1 0) [1] ?m1"
  have "node_step node_script node_first (Register 5 Noop) ?m1"
    by (rule register) (simp_all add: node_first_def node_sample_def)
  moreover have "node_step node_script ?m1 (Submit 5) ?m"
    by (rule submit) (simp add: propose_register_def Let_def node_first_def node_sample_def node_settings_def)
  ultimately have r: "run (node_step node_script) node_first [Register 5 Noop, Submit 5] ?m" by (blast intro: run.intros)
  have "node_calls ?m 5 = Some Awaiting \<and> node_pending ?m (proposal_id_of 1 0) = Some 5"
    by (simp add: propose_submit_def propose_register_def Let_def node_first_def node_sample_def node_settings_def is_raft_leader_def script_raft_def
        raft_try_def raft_call_def act_then_apply)
  with r node_calls_return_once[OF node_first_init r] show ?thesis by metis
qed

theorem node_machine_is_map_witness:
  "fmlookup (machine_data (apply_log node_script [sample_entry 1 [2]] \<lparr>machine_data = fmupd ''a'' ''x'' fmempty\<rparr>)) ''a'' = None"
  using node_machine_is_map[of node_script "\<lambda>_. []" pairs_wire "[sample_entry 1 [2]]" "\<lparr>machine_data = fmupd ''a'' ''x'' fmempty\<rparr>"]
  by (simp add: pairs_wire_ok log_proposals_def sample_entry_def)

end
