(* ===== verification/Client.thy ===== *)
theory Client
  imports Discovery Steps "HOL-Library.Finite_Map"
begin

text \<open>
  \<open>src/src/management/client.rs\<close>: the management client, with its pool of connections and its cached leader. The iroh
  endpoint with its connections and streams is a network of type \<open>'n\<close>, which also gives the request ids, the clock and the timeout;
  its operations are parameters. Calls of a client that several tasks share are a step relation: a request to one node is a single step, as the locks of the
  two tables of the pool are held for one access each; the lock of the cached leader, which is held longer, is modelled.
\<close>

section \<open>The pool of connections\<close>

text \<open>
  What the client calls. A node address has the type \<open>'a\<close>, a connection \<open>'c\<close>, a stream in both directions \<open>'s\<close>.
  The timeout gives \<open>None\<close> when it elapses, and drops the exchange where it stands; \<open>cx_order\<close> is the order in which the map is iterated.
\<close>

record ('c, 'a, 's, 'n) client_deps =
  cx_connect :: "'a \<Rightarrow> 'n \<Rightarrow> (error_text + 'c) \<times> 'n"
  cx_open_bi :: "'c \<Rightarrow> 'n \<Rightarrow> (error_text + 's) \<times> 'n"
  cx_writer :: "'s \<Rightarrow> 'n byte_writer"
  cx_finish :: "'s \<Rightarrow> 'n \<Rightarrow> (error_text + unit) \<times> 'n"
  cx_reader :: "'s \<Rightarrow> 'n byte_reader"
  cx_timeout :: "duration \<Rightarrow> ('n, ManagementResponse) action \<Rightarrow> 'n \<Rightarrow> (RaftError + ManagementResponse) option \<times> 'n"
  cx_request_id :: "'n \<Rightarrow> bytes \<times> 'n"
  cx_now :: "'n \<Rightarrow> instant"
  cx_header :: "MessageHeader bincode"
  cx_request :: "ManagementRequest bincode"
  cx_response :: "ManagementResponse bincode"
  cx_order :: "(u64, 'a) fmap \<Rightarrow> u64 list"

record ('c, 'a, 'n) IrohRaftManagementClient =
  cl_connections :: "u64 \<rightharpoonup> 'c"
  cl_endpoints :: "(u64, 'a) fmap"
  cl_discovery :: "ClusterDiscovery option"
  cl_default_timeout :: duration
  cl_leader :: "u64 option"
  cl_net :: 'n

definition client_new :: "'n \<Rightarrow> ('c, 'a, 'n) IrohRaftManagementClient" where
  "client_new n = \<lparr>cl_connections = Map.empty, cl_endpoints = fmempty, cl_discovery = None, cl_default_timeout = from_secs 30,
     cl_leader = None, cl_net = n\<rparr>"

definition add_member :: "u64 \<Rightarrow> 'a \<Rightarrow> ('c, 'a, 'n) IrohRaftManagementClient \<Rightarrow> ('c, 'a, 'n) IrohRaftManagementClient" where
  "add_member node_id node_addr cl = cl\<lparr>cl_endpoints := fmupd node_id node_addr (cl_endpoints cl)\<rparr>"

definition remove_connection :: "u64 \<Rightarrow> ('c, 'a, 'n) IrohRaftManagementClient \<Rightarrow> ('c, 'a, 'n) IrohRaftManagementClient" where
  "remove_connection node_id cl = cl\<lparr>cl_connections := (cl_connections cl)(node_id := None)\<rparr>"

definition get_available_nodes :: "('c, 'a, 's, 'n) client_deps \<Rightarrow> ('c, 'a, 'n) IrohRaftManagementClient \<Rightarrow> u64 list" where
  "get_available_nodes D cl = cx_order D (cl_endpoints cl)"

text \<open>An operation of the network, and one whose error is a text.\<close>

definition on_net :: "('n, 'x) action \<Rightarrow> (('c, 'a, 'n) IrohRaftManagementClient, 'x) action" where
  "on_net f = (\<lambda>cl. case f (cl_net cl) of (r, n) \<Rightarrow> (r, cl\<lparr>cl_net := n\<rparr>))"

definition net_try :: "(error_text \<Rightarrow> RaftError) \<Rightarrow> ('n \<Rightarrow> (error_text + 'x) \<times> 'n) \<Rightarrow> ('n, 'x) action" where
  "net_try conv f = (\<lambda>n. case f n of (r, n) \<Rightarrow> (map_err conv r, n))"

definition get_connection :: "('c, 'a, 's, 'n) client_deps \<Rightarrow> u64 \<Rightarrow> (('c, 'a, 'n) IrohRaftManagementClient, 'c) action" where
  "get_connection D node_id = act_with (\<lambda>cl. cl_connections cl node_id) (\<lambda>known. case known of
     Some connection \<Rightarrow> act_return connection
   | None \<Rightarrow> act_with (\<lambda>cl. fmlookup (cl_endpoints cl) node_id) (\<lambda>endpoint. case endpoint of
       None \<Rightarrow> act_fail (Internal (''No endpoint found for node '' @ show_nat (unat node_id)))
     | Some node_addr \<Rightarrow>
         act_then (on_net (net_try (\<lambda>e. Internal (''Failed to connect to node '' @ show_nat (unat node_id) @ '': '' @ e)) (cx_connect D node_addr))) (\<lambda>connection.
         act_then (act_update (\<lambda>cl. cl\<lparr>cl_connections := (cl_connections cl)(node_id \<mapsto> connection)\<rparr>)) (\<lambda>_.
           act_return connection))))"

section \<open>A request to a node\<close>

text \<open>Writing the request, closing the sending side, and reading the response, of which the header is not looked at.\<close>

definition send_frame :: "('c, 'a, 's, 'n) client_deps \<Rightarrow> 's \<Rightarrow> bytes option \<Rightarrow> bytes \<Rightarrow> ('n, bytes) action" where
  "send_frame D s request_id payload =
     act_then (write_message_zero_copy (cx_writer D s) (cx_header D) (zero_copy_message Request request_id payload)) (\<lambda>_.
     act_then (net_try (ConnectionFailed ''remote'') (cx_finish D s)) (\<lambda>_.
     act_then (read_message_zero_copy (cx_reader D s) (cx_header D)) (\<lambda>(header, payload).
       act_return payload)))"

definition exchange :: "('c, 'a, 's, 'n) client_deps \<Rightarrow> 's \<Rightarrow> bytes option \<Rightarrow> bytes \<Rightarrow> ('n, ManagementResponse) action" where
  "exchange D s request_id payload = act_then (send_frame D s request_id payload) (\<lambda>payload n.
     (deserialize_payload (cx_response D) payload, n))"

definition fresh_request_id :: "('c, 'a, 's, 'n) client_deps \<Rightarrow> ('n, bytes) action" where
  "fresh_request_id D = (\<lambda>n. case cx_request_id D n of (i, n) \<Rightarrow> (Inr i, n))"

definition send_request_to_node :: "('c, 'a, 's, 'n) client_deps \<Rightarrow> u64 \<Rightarrow> ManagementOperation \<Rightarrow> duration
    \<Rightarrow> (('c, 'a, 'n) IrohRaftManagementClient, ManagementResponse) action" where
  "send_request_to_node D node_id operation timeout =
     act_then (get_connection D node_id) (\<lambda>connection.
     act_then (on_net (net_try (\<lambda>e. Internal (''Failed to open stream to node '' @ show_nat (unat node_id) @ '': '' @ e)) (cx_open_bi D connection))) (\<lambda>s.
     act_then (on_net (fresh_request_id D)) (\<lambda>i.
     case create_management_request (cx_request D) i operation None of
       Inl e \<Rightarrow> act_fail e
     | Inr request_msg \<Rightarrow> on_net (\<lambda>n. case cx_timeout D timeout (exchange D s (zmm_request_id request_msg) (zmm_payload request_msg)) n of
           (Some r, n) \<Rightarrow> (r, n)
         | (None, n) \<Rightarrow> (Inl (Internal (''Request to node '' @ show_nat (unat node_id) @ '' timed out'')), n)))))"

definition ping_node :: "('c, 'a, 's, 'n) client_deps \<Rightarrow> u64 \<Rightarrow> (('c, 'a, 'n) IrohRaftManagementClient, duration) action" where
  "ping_node D node_id = act_with (\<lambda>cl. cx_now D (cl_net cl)) (\<lambda>start.
     act_then (get_connection D node_id) (\<lambda>connection.
     act_then (on_net (net_try (\<lambda>e. Internal (''Failed to open ping stream: '' @ e)) (cx_open_bi D connection))) (\<lambda>s.
     act_then (on_net (fresh_request_id D)) (\<lambda>i.
     act_then (on_net (send_frame D s (zmm_request_id (create_health_check_message i)) (zmm_payload (create_health_check_message i)))) (\<lambda>_.
       act_with (\<lambda>cl. cx_now D (cl_net cl)) (\<lambda>now. act_return (duration_since now start)))))))"


section \<open>Connecting to a cluster\<close>

text \<open>
  Parsing a socket address, making an id of the endpoint from 32 bytes, which can fail, and an address of both, are of other libraries.
  What binding an endpoint gave is an argument.
\<close>

record ('i, 'sa, 'a) address_deps =
  ad_parse :: "string \<Rightarrow> 'sa option"
  ad_node_id :: "bytes \<Rightarrow> error_text + 'i"
  ad_direct :: "'i \<Rightarrow> 'sa \<Rightarrow> 'a"

definition node_id_bytes :: "u64 \<Rightarrow> bytes" where
  "node_id_bytes node_id = rev (u64_le node_id) @ replicate 24 0"

text \<open>Members whose address does not parse are passed over.\<close>

fun add_members :: "('i, 'sa, 'a) address_deps \<Rightarrow> ClusterMember list \<Rightarrow> ('c, 'a, 'n) IrohRaftManagementClient
    \<Rightarrow> RaftError + ('c, 'a, 'n) IrohRaftManagementClient" where
  "add_members A [] cl = Inr cl"
| "add_members A (member # members) cl = (case ad_parse A (cm_address member) of
     None \<Rightarrow> add_members A members cl
   | Some socket_addr \<Rightarrow> (case ad_node_id A (node_id_bytes (cm_node_id member)) of
       Inl e \<Rightarrow> Inl (ConnectionFailed (show_u64 (cm_node_id member)) (''Invalid node ID: '' @ e))
     | Inr node_id \<Rightarrow> add_members A members (add_member (cm_node_id member) (ad_direct A node_id socket_addr) cl)))"

definition bind_endpoint :: "error_text + 'n \<Rightarrow> RaftError + 'n" where
  "bind_endpoint bound = map_err (\<lambda>e. Internal (''Failed to create Iroh endpoint: '' @ e)) bound"

definition connect_to_cluster :: "('i, 'sa, 'a) address_deps \<Rightarrow> system_time \<Rightarrow> error_text + 'n \<Rightarrow> string
    \<Rightarrow> RaftError + ('c, 'a, 'n) IrohRaftManagementClient" where
  "connect_to_cluster A now bound cluster_id = (case discover_cluster now cluster_id discovery_new of
     (Inl e, _) \<Rightarrow> Inl e
   | (Inr cluster_info, discovery) \<Rightarrow>
       and_then (bind_endpoint bound) (\<lambda>n.
       and_then (add_members A (ci_members cluster_info) ((client_new n)\<lparr>cl_discovery := Some discovery\<rparr>)) (\<lambda>cl.
         Inr (case ci_leader cluster_info of Some leader_id \<Rightarrow> cl\<lparr>cl_leader := Some leader_id\<rparr> | None \<Rightarrow> cl))))"

definition connect_to_members :: "error_text + 'n \<Rightarrow> (u64 \<times> 'a) list \<Rightarrow> RaftError + ('c, 'a, 'n) IrohRaftManagementClient" where
  "connect_to_members bound members = and_then (bind_endpoint bound) (\<lambda>n.
     Inr (foldl (\<lambda>cl (node_id, node_addr). add_member node_id node_addr cl) (client_new n) members))"

definition with_timeout :: "duration \<Rightarrow> ('c, 'a, 'n) IrohRaftManagementClient \<Rightarrow> ('c, 'a, 'n) IrohRaftManagementClient" where
  "with_timeout t cl = cl\<lparr>cl_default_timeout := t\<rparr>"

section \<open>Calls of a shared client\<close>

text \<open>
  The phases of \<open>send_request\<close>: waiting for the read guard of the leader; asking the leader; waiting for the write guard
  after that failed; asking the nodes that are left; waiting for the write guard to note the leader a response tells. The guard read
  in the condition of \<open>if let\<close> lives to the end of its body, so it is held in the second and third phase.
\<close>

datatype call_phase = ReadingLeader | AskingLeader u64 | ClearingLeader | AskingNodes "u64 list" | NotingLeader u64 ManagementResponse

text \<open>
  The client, the tasks that hold a read guard of its leader and those that wait for the lock in their order, the calls under way, the requests to nodes with
  what came of them, and what the calls returned.
\<close>

record ('c, 'a, 'n) client_system =
  cs_client :: "('c, 'a, 'n) IrohRaftManagementClient"
  cs_readers :: "nat list"
  cs_queue :: "nat list"
  cs_calls :: "nat \<rightharpoonup> ManagementOperation \<times> duration \<times> call_phase"
  cs_attempts :: "(nat \<times> u64 \<times> (RaftError + ManagementResponse)) list"
  cs_returned :: "(nat \<times> (RaftError + ManagementResponse)) list"

definition system_of :: "('c, 'a, 'n) IrohRaftManagementClient \<Rightarrow> ('c, 'a, 'n) client_system" where
  "system_of cl = \<lparr>cs_client = cl, cs_readers = [], cs_queue = [], cs_calls = Map.empty, cs_attempts = [], cs_returned = []\<rparr>"

definition set_phase :: "nat \<Rightarrow> call_phase \<Rightarrow> ('c, 'a, 'n) client_system \<Rightarrow> ('c, 'a, 'n) client_system" where
  "set_phase ch ph s = s\<lparr>cs_calls := (cs_calls s)(ch := map_option (\<lambda>(op, t, _). (op, t, ph)) (cs_calls s ch))\<rparr>"

definition finish_call :: "nat \<Rightarrow> RaftError + ManagementResponse \<Rightarrow> ('c, 'a, 'n) client_system \<Rightarrow> ('c, 'a, 'n) client_system" where
  "finish_call ch r s = s\<lparr>cs_readers := filter (\<lambda>c. c \<noteq> ch) (cs_readers s), cs_calls := (cs_calls s)(ch := None), cs_returned := cs_returned s @ [(ch, r)]\<rparr>"

text \<open>The read guard is there: the cached leader is asked, or with none the guard goes and the nodes are asked.\<close>

definition read_leader :: "('c, 'a, 's, 'n) client_deps \<Rightarrow> nat \<Rightarrow> ('c, 'a, 'n) client_system \<Rightarrow> ('c, 'a, 'n) client_system" where
  "read_leader D ch s = (case cl_leader (cs_client s) of
     Some leader_id \<Rightarrow> set_phase ch (AskingLeader leader_id) (s\<lparr>cs_readers := cs_readers s @ [ch]\<rparr>)
   | None \<Rightarrow> set_phase ch (AskingNodes (get_available_nodes D (cs_client s))) s)"

text \<open>The lock is fair: a reader waits as well when somebody waits already.\<close>

definition start_call :: "('c, 'a, 's, 'n) client_deps \<Rightarrow> nat \<Rightarrow> ManagementOperation \<Rightarrow> duration option
    \<Rightarrow> ('c, 'a, 'n) client_system \<Rightarrow> ('c, 'a, 'n) client_system" where
  "start_call D ch operation timeout s = (let t = (case timeout of Some t \<Rightarrow> t | None \<Rightarrow> cl_default_timeout (cs_client s));
       s = s\<lparr>cs_calls := (cs_calls s)(ch \<mapsto> (operation, t, ReadingLeader))\<rparr>
     in if cs_queue s = [] then read_leader D ch s else s\<lparr>cs_queue := cs_queue s @ [ch]\<rparr>)"

definition ask :: "('c, 'a, 's, 'n) client_deps \<Rightarrow> nat \<Rightarrow> u64 \<Rightarrow> ManagementOperation \<Rightarrow> duration \<Rightarrow> ('c, 'a, 'n) client_system
    \<Rightarrow> (RaftError + ManagementResponse) \<times> ('c, 'a, 'n) client_system" where
  "ask D ch node_id operation t s = (case send_request_to_node D node_id operation t (cs_client s) of (r, cl) \<Rightarrow>
     (r, s\<lparr>cs_client := cl, cs_attempts := cs_attempts s @ [(ch, node_id, r)]\<rparr>))"

definition wait_to_write :: "nat \<Rightarrow> call_phase \<Rightarrow> ('c, 'a, 'n) client_system \<Rightarrow> ('c, 'a, 'n) client_system" where
  "wait_to_write ch ph s = set_phase ch ph (s\<lparr>cs_queue := cs_queue s @ [ch]\<rparr>)"

definition ask_leader :: "('c, 'a, 's, 'n) client_deps \<Rightarrow> nat \<Rightarrow> u64 \<Rightarrow> ManagementOperation \<Rightarrow> duration
    \<Rightarrow> ('c, 'a, 'n) client_system \<Rightarrow> ('c, 'a, 'n) client_system" where
  "ask_leader D ch leader_id operation t s = (case ask D ch leader_id operation t s of
     (Inr response, s) \<Rightarrow> finish_call ch (Inr response) s
   | (Inl e, s) \<Rightarrow> wait_to_write ch ClearingLeader s)"

definition ask_node :: "('c, 'a, 's, 'n) client_deps \<Rightarrow> nat \<Rightarrow> u64 \<Rightarrow> u64 list \<Rightarrow> ManagementOperation \<Rightarrow> duration
    \<Rightarrow> ('c, 'a, 'n) client_system \<Rightarrow> ('c, 'a, 'n) client_system" where
  "ask_node D ch node_id nodes operation t s = (case ask D ch node_id operation t s of
     (Inr response, s) \<Rightarrow> (case response of
         RespClusterStatus status \<Rightarrow> (case csr_leader status of
             Some leader_id \<Rightarrow> wait_to_write ch (NotingLeader leader_id response) s
           | None \<Rightarrow> finish_call ch (Inr response) s)
       | _ \<Rightarrow> finish_call ch (Inr response) s)
   | (Inl e, s) \<Rightarrow> set_phase ch (AskingNodes nodes) (s\<lparr>cs_client := remove_connection node_id (cs_client s)\<rparr>))"

definition set_leader :: "u64 option \<Rightarrow> ('c, 'a, 'n) client_system \<Rightarrow> ('c, 'a, 'n) client_system" where
  "set_leader leader s = s\<lparr>cs_client := (cs_client s)\<lparr>cl_leader := leader\<rparr>\<rparr>"

datatype client_event = Call nat ManagementOperation "duration option" | Grant nat | Ask nat | GiveUp nat | Network

text \<open>
  The steps. The first of those that wait for the lock gets it: a reader at once, as writers have it for an assignment only, a writer when
  nobody has a read guard. The guard goes with the body of the condition, when the call returns, and when it is given up.
\<close>

inductive client_step :: "('c, 'a, 's, 'n) client_deps \<Rightarrow> ('c, 'a, 'n) client_system \<Rightarrow> client_event \<Rightarrow> ('c, 'a, 'n) client_system \<Rightarrow> bool" for D where
  call: "cs_calls s ch = None \<Longrightarrow> ch \<notin> fst ` set (cs_returned s) \<Longrightarrow> ch \<notin> fst ` set (cs_attempts s) \<Longrightarrow>
    client_step D s (Call ch operation timeout) (start_call D ch operation timeout s)"
| read_granted: "cs_queue s = ch # q \<Longrightarrow> cs_calls s ch = Some (operation, t, ReadingLeader) \<Longrightarrow>
    client_step D s (Grant ch) (read_leader D ch (s\<lparr>cs_queue := q\<rparr>))"
| leader_asked: "cs_calls s ch = Some (operation, t, AskingLeader leader_id) \<Longrightarrow>
    client_step D s (Ask ch) (ask_leader D ch leader_id operation t s)"
| clear_granted: "cs_queue s = ch # q \<Longrightarrow> cs_readers s = [] \<Longrightarrow> cs_calls s ch = Some (operation, t, ClearingLeader) \<Longrightarrow>
    client_step D s (Grant ch) (set_phase ch (AskingNodes (get_available_nodes D (cs_client s))) (set_leader None (s\<lparr>cs_queue := q, cs_readers := filter (\<lambda>c. c \<noteq> ch) (cs_readers s)\<rparr>)))"
| node_asked: "cs_calls s ch = Some (operation, t, AskingNodes (node_id # nodes)) \<Longrightarrow>
    client_step D s (Ask ch) (ask_node D ch node_id nodes operation t s)"
| none_left: "cs_calls s ch = Some (operation, t, AskingNodes []) \<Longrightarrow>
    client_step D s (Ask ch) (finish_call ch (Inl (Internal ''No available cluster members'')) s)"
| note_granted: "cs_queue s = ch # q \<Longrightarrow> cs_readers s = [] \<Longrightarrow> cs_calls s ch = Some (operation, t, NotingLeader leader_id response) \<Longrightarrow>
    client_step D s (Grant ch) (finish_call ch (Inr response) (set_leader (Some leader_id) (s\<lparr>cs_queue := q\<rparr>)))"
| given_up: "client_step D s (GiveUp ch) (s\<lparr>cs_calls := (cs_calls s)(ch := None), cs_queue := filter (\<lambda>c. c \<noteq> ch) (cs_queue s),
    cs_readers := filter (\<lambda>c. c \<noteq> ch) (cs_readers s)\<rparr>)"
| network: "client_step D s Network (s\<lparr>cs_client := (cs_client s)\<lparr>cl_net := n\<rparr>\<rparr>)"

section \<open>The methods\<close>

text \<open>A method: the operation it sends, its own timeout if it has one, and which response it takes.\<close>

record 'x client_method =
  cm_operation :: ManagementOperation
  cm_timeout :: "duration option"
  cm_expects :: "ManagementResponse \<Rightarrow> 'x option"

definition method_result :: "'x client_method \<Rightarrow> RaftError + ManagementResponse \<Rightarrow> RaftError + 'x" where
  "method_result m r = and_then r (\<lambda>response. case cm_expects m response of
     Some x \<Rightarrow> Inr x
   | None \<Rightarrow> (case response of RespError message \<Rightarrow> Inl (Internal message) | _ \<Rightarrow> Inl (Internal ''Unexpected response type'')))"

definition expect_member :: "ManagementResponse \<Rightarrow> MemberOperationResponse option" where
  "expect_member response = (case response of RespMemberOperation result \<Rightarrow> Some result | _ \<Rightarrow> None)"

definition expect_success :: "ManagementResponse \<Rightarrow> unit option" where
  "expect_success response = (case response of RespSuccess \<Rightarrow> Some () | _ \<Rightarrow> None)"

definition get_cluster_status :: "ClusterStatusResponse client_method" where
  "get_cluster_status = \<lparr>cm_operation = GetClusterStatus, cm_timeout = None,
     cm_expects = (\<lambda>response. case response of RespClusterStatus status \<Rightarrow> Some status | _ \<Rightarrow> None)\<rparr>"

definition client_add_member :: "u64 \<Rightarrow> string \<Rightarrow> MemberRole \<Rightarrow> MemberOperationResponse client_method" where
  "client_add_member node_id address r = \<lparr>cm_operation = AddMember node_id address r, cm_timeout = None, cm_expects = expect_member\<rparr>"

definition client_remove_member :: "u64 \<Rightarrow> MemberOperationResponse client_method" where
  "client_remove_member node_id = \<lparr>cm_operation = RemoveMember node_id, cm_timeout = None, cm_expects = expect_member\<rparr>"

definition client_transfer_leadership :: "u64 option \<Rightarrow> LeadershipResponse client_method" where
  "client_transfer_leadership target_node = \<lparr>cm_operation = TransferLeadership target_node, cm_timeout = Some (from_secs 60),
     cm_expects = (\<lambda>response. case response of RespLeadership result \<Rightarrow> Some result | _ \<Rightarrow> None)\<rparr>"

definition client_get_configuration :: "ConfigurationResponse client_method" where
  "client_get_configuration = \<lparr>cm_operation = GetConfiguration, cm_timeout = None,
     cm_expects = (\<lambda>response. case response of RespConfiguration config \<Rightarrow> Some config | _ \<Rightarrow> None)\<rparr>"

definition client_update_configuration :: "Auth.ClusterConfig \<Rightarrow> unit client_method" where
  "client_update_configuration config = \<lparr>cm_operation = UpdateConfiguration config, cm_timeout = None, cm_expects = expect_success\<rparr>"

definition client_get_metrics :: "MetricCategory list \<Rightarrow> MetricsResponse client_method" where
  "client_get_metrics categories = \<lparr>cm_operation = GetMetrics categories, cm_timeout = None,
     cm_expects = (\<lambda>response. case response of RespMetrics metrics \<Rightarrow> Some metrics | _ \<Rightarrow> None)\<rparr>"

definition client_get_health_status :: "HealthResponse client_method" where
  "client_get_health_status = \<lparr>cm_operation = GetHealthStatus, cm_timeout = None,
     cm_expects = (\<lambda>response. case response of RespHealth health \<Rightarrow> Some health | _ \<Rightarrow> None)\<rparr>"

definition client_trigger_snapshot :: "unit client_method" where
  "client_trigger_snapshot = \<lparr>cm_operation = TriggerSnapshot, cm_timeout = None, cm_expects = expect_success\<rparr>"

definition client_create_backup :: "BackupMetadata \<Rightarrow> BackupOperationResponse client_method" where
  "client_create_backup metadata = \<lparr>cm_operation = CreateBackup metadata, cm_timeout = Some (from_secs 300),
     cm_expects = (\<lambda>response. case response of RespBackupOperation result \<Rightarrow> Some result | _ \<Rightarrow> None)\<rparr>"

definition client_list_backups :: "BackupListResponse client_method" where
  "client_list_backups = \<lparr>cm_operation = ListBackups, cm_timeout = None,
     cm_expects = (\<lambda>response. case response of RespBackupList backups \<Rightarrow> Some backups | _ \<Rightarrow> None)\<rparr>"

text \<open>The sender of the new channel is dropped at the end of the method: nobody has it among the subscribers.\<close>

definition client_subscribe_to_events :: "bytes \<Rightarrow> 'j event_world \<Rightarrow> EventStream \<times> 'j event_world" where
  "client_subscribe_to_events fresh_id w = (stream_new (next_channel w) fresh_id,
     w\<lparr>channels := (channels w)(next_channel w := \<lparr>ec_queue = [], ec_open = True\<rparr>), next_channel := Suc (next_channel w)\<rparr>)"



section \<open>The lock of the leader\<close>

text \<open>What a request to a node, and with it a pool operation, leaves alone.\<close>

definition pool_rest :: "('c, 'a, 'n) IrohRaftManagementClient \<Rightarrow> _" where
  "pool_rest cl = (cl_endpoints cl, cl_discovery cl, cl_default_timeout cl, cl_leader cl)"

lemma rest_on_net [keeps_rules]: "keeps (\<lambda>cl. pool_rest cl = x) (on_net f)"
  by (auto simp: keeps_def on_net_def pool_rest_def split: prod.split)

lemma rest_connection [keeps_rules]: "keeps (\<lambda>cl. pool_rest cl = x) (get_connection D node)"
  unfolding get_connection_def by (intro keeps_rules keeps_update) (auto simp: pool_rest_def)

lemma rest_request: "keeps (\<lambda>cl. pool_rest cl = x) (send_request_to_node D node operation t)"
  unfolding send_request_to_node_def by (intro keeps_rules)

lemma ask_result:
  assumes "ask D ch node operation t s = (r, s')"
  obtains cl where "s' = s\<lparr>cs_client := cl, cs_attempts := cs_attempts s @ [(ch, node, r)]\<rparr>"
    and "pool_rest cl = pool_rest (cs_client s)" and "r = fst (send_request_to_node D node operation t (cs_client s))"
proof -
  obtain r' cl where c: "send_request_to_node D node operation t (cs_client s) = (r', cl)" by fastforce
  have "pool_rest cl = pool_rest (cs_client s)" by (rule keepsD[OF rest_request _ c]) simp
  with c assms show thesis by (auto simp: ask_def intro!: that[of cl])
qed

lemma pool_rest_iff [simp]: "pool_rest cl = pool_rest cl' \<longleftrightarrow> cl_endpoints cl = cl_endpoints cl' \<and> cl_discovery cl = cl_discovery cl'
    \<and> cl_default_timeout cl = cl_default_timeout cl' \<and> cl_leader cl = cl_leader cl'"
  by (simp add: pool_rest_def)

lemmas system_ops = set_phase_def finish_call_def read_leader_def start_call_def wait_to_write_def set_leader_def
  remove_connection_def Let_def


text \<open>
  The requests of a call and what came of them. A call in each phase has asked what it should have, for the nodes \<open>ns\<close> of the client: the
  leader first, and without one the nodes in their order.
\<close>

definition asked :: "nat \<Rightarrow> ('c, 'a, 'n) client_system \<Rightarrow> (u64 \<times> (RaftError + ManagementResponse)) list" where
  "asked ch s = map snd (filter (\<lambda>a. fst a = ch) (cs_attempts s))"

definition all_failed :: "(u64 \<times> (RaftError + ManagementResponse)) list \<Rightarrow> bool" where
  "all_failed tries \<longleftrightarrow> (\<forall>(n, r) \<in> set tries. \<not> is_ok r)"

definition last_answered :: "(u64 \<times> (RaftError + ManagementResponse)) list \<Rightarrow> ManagementResponse \<Rightarrow> bool" where
  "last_answered tries response \<longleftrightarrow> (\<exists>failed n. tries = failed @ [(n, Inr response)] \<and> all_failed failed)"

fun phase_ok :: "u64 list \<Rightarrow> u64 option \<Rightarrow> (u64 \<times> (RaftError + ManagementResponse)) list \<Rightarrow> call_phase \<Rightarrow> bool" where
  "phase_ok ns leader tries ReadingLeader \<longleftrightarrow> tries = []"
| "phase_ok ns leader tries (AskingLeader l) \<longleftrightarrow> tries = [] \<and> leader = Some l"
| "phase_ok ns leader tries ClearingLeader \<longleftrightarrow> (\<exists>l e. tries = [(l, Inl e)] \<and> leader = Some l)"
| "phase_ok ns leader tries (AskingNodes rest) \<longleftrightarrow> all_failed tries \<and> map fst tries @ rest = ns"
| "phase_ok ns leader tries (NotingLeader l response) \<longleftrightarrow> last_answered tries response"

definition answer_ok :: "u64 list \<Rightarrow> (u64 \<times> (RaftError + ManagementResponse)) list \<Rightarrow> RaftError + ManagementResponse \<Rightarrow> bool" where
  "answer_ok ns tries r \<longleftrightarrow> (case r of
     Inr response \<Rightarrow> last_answered tries response
   | Inl e \<Rightarrow> e = Internal ''No available cluster members'' \<and> all_failed tries \<and> map fst tries = ns)"

fun guarded :: "call_phase \<Rightarrow> bool" where
  "guarded (AskingLeader _) = True"
| "guarded ClearingLeader = True"
| "guarded _ = False"

fun waiting :: "call_phase \<Rightarrow> bool" where
  "waiting (AskingLeader _) = False"
| "waiting (AskingNodes _) = False"
| "waiting _ = True"

definition in_phase :: "('c, 'a, 'n) client_system \<Rightarrow> nat \<Rightarrow> (call_phase \<Rightarrow> bool) \<Rightarrow> bool" where
  "in_phase s ch P \<longleftrightarrow> (case cs_calls s ch of Some (op, t, ph) \<Rightarrow> P ph | None \<Rightarrow> False)"

definition system_ok :: "('c, 'a, 's, 'n) client_deps \<Rightarrow> (u64, 'a) fmap \<Rightarrow> ('c, 'a, 'n) client_system \<Rightarrow> bool" where
  "system_ok D E s \<longleftrightarrow> cl_endpoints (cs_client s) = E
     \<and> distinct (cs_queue s) \<and> (\<forall>ch \<in> set (cs_queue s). in_phase s ch waiting)
     \<and> (\<forall>ch op t ph. cs_calls s ch = Some (op, t, ph) \<longrightarrow> phase_ok (cx_order D E) (cl_leader (cs_client s)) (asked ch s) ph)
     \<and> (\<forall>ch op t ph. cs_calls s ch = Some (op, t, ph) \<longrightarrow> guarded ph \<longrightarrow> ch \<in> set (cs_readers s))
     \<and> (\<forall>ch r. (ch, r) \<in> set (cs_returned s) \<longrightarrow> cs_calls s ch = None)
     \<and> (\<forall>ch r. (ch, r) \<in> set (cs_returned s) \<longrightarrow> answer_ok (cx_order D E) (asked ch s) r)
     \<and> distinct (map fst (cs_returned s))"

lemma system_okD:
  assumes "system_ok D E s"
  shows "cl_endpoints (cs_client s) = E" and "distinct (cs_queue s)"
    and "ch \<in> set (cs_queue s) \<Longrightarrow> in_phase s ch waiting"
    and "cs_calls s ch = Some (op, t, ph) \<Longrightarrow> phase_ok (cx_order D E) (cl_leader (cs_client s)) (asked ch s) ph"
    and "cs_calls s ch = Some (op, t, ph) \<Longrightarrow> guarded ph \<Longrightarrow> ch \<in> set (cs_readers s)"
    and "(ch, r) \<in> set (cs_returned s) \<Longrightarrow> cs_calls s ch = None"
    and "(ch, r) \<in> set (cs_returned s) \<Longrightarrow> answer_ok (cx_order D E) (asked ch s) r"
    and "distinct (map fst (cs_returned s))"
  using assms[unfolded system_ok_def] by blast+

lemma system_okI:
  assumes "cl_endpoints (cs_client s) = E" and "distinct (cs_queue s)"
    and "\<And>ch. ch \<in> set (cs_queue s) \<Longrightarrow> in_phase s ch waiting"
    and "\<And>ch op t ph. cs_calls s ch = Some (op, t, ph) \<Longrightarrow> phase_ok (cx_order D E) (cl_leader (cs_client s)) (asked ch s) ph"
    and "\<And>ch op t ph. cs_calls s ch = Some (op, t, ph) \<Longrightarrow> guarded ph \<Longrightarrow> ch \<in> set (cs_readers s)"
    and "\<And>ch r. (ch, r) \<in> set (cs_returned s) \<Longrightarrow> cs_calls s ch = None"
    and "\<And>ch r. (ch, r) \<in> set (cs_returned s) \<Longrightarrow> answer_ok (cx_order D E) (asked ch s) r"
    and "distinct (map fst (cs_returned s))"
  shows "system_ok D E s"
  unfolding system_ok_def using assms by blast

lemma phase_leader: "\<not> guarded ph \<Longrightarrow> phase_ok ns l tries ph = phase_ok ns l' tries ph"
  by (cases ph) auto

text \<open>A step of one call \<open>ch\<close>: what it has to do right for the invariant to hold afterwards.\<close>

lemma ok_update:
  assumes ok: "system_ok D E s"
    and calls: "cs_calls s' = (cs_calls s)(ch := x)" and ends: "cl_endpoints (cs_client s') = E"
    and leader: "cl_leader (cs_client s') = cl_leader (cs_client s) \<or> cs_readers s = []"
    and others: "\<And>c. c \<noteq> ch \<Longrightarrow> asked c s' = asked c s"
    and readers: "set (cs_readers s) - {ch} \<subseteq> set (cs_readers s')"
    and queue: "distinct (cs_queue s')" "set (cs_queue s') \<subseteq> set (cs_queue s) \<union> {ch}"
    and queued: "ch \<in> set (cs_queue s') \<Longrightarrow> in_phase s' ch waiting"
    and phase: "\<And>op t ph. x = Some (op, t, ph) \<Longrightarrow> phase_ok (cx_order D E) (cl_leader (cs_client s')) (asked ch s') ph
      \<and> (guarded ph \<longrightarrow> ch \<in> set (cs_readers s'))"
    and fresh: "ch \<in> fst ` set (cs_returned s) \<Longrightarrow> x = None \<and> asked ch s' = asked ch s \<and> cs_returned s' = cs_returned s"
    and ret: "cs_returned s' = cs_returned s \<or> (\<exists>r. x = None \<and> cs_returned s' = cs_returned s @ [(ch, r)] \<and> answer_ok (cx_order D E) (asked ch s') r)"
  shows "system_ok D E s'"
proof (rule system_okI)
  note d = system_okD[OF ok]
  show "cl_endpoints (cs_client s') = E" "distinct (cs_queue s')" by fact+
  show "in_phase s' c waiting" if "c \<in> set (cs_queue s')" for c
    using that queued d(3)[of c] queue(2) by (cases "c = ch") (auto simp: in_phase_def calls)
  fix c op t ph assume c: "cs_calls s' c = Some (op, t, ph)"
  show "phase_ok (cx_order D E) (cl_leader (cs_client s')) (asked c s') ph"
  proof (cases "c = ch")
    case False
    with c calls have old: "cs_calls s c = Some (op, t, ph)" by simp
    show ?thesis
    proof (cases "guarded ph")
      case True
      with d(5)[OF old] leader have "cl_leader (cs_client s') = cl_leader (cs_client s)" by auto
      with d(4)[OF old] show ?thesis by (simp add: others[OF False])
    next
      case unguarded: False
      with d(4)[OF old] have "phase_ok (cx_order D E) (cl_leader (cs_client s')) (asked c s) ph" using phase_leader by blast
      then show ?thesis by (simp add: others[OF False])
    qed
  qed (use c calls phase in auto)
  show "c \<in> set (cs_readers s')" if "guarded ph"
    using that c calls phase d(5)[of c op t ph] readers by (cases "c = ch") auto
next
  note d = system_okD[OF ok]
  fix c r assume "(c, r) \<in> set (cs_returned s')"
  with ret consider "(c, r) \<in> set (cs_returned s)"
    | "c = ch" "x = None" "answer_ok (cx_order D E) (asked ch s') r" by auto
  then have "cs_calls s' c = None \<and> answer_ok (cx_order D E) (asked c s') r"
  proof cases
    case 1
    show ?thesis
    proof (cases "c = ch")
      case True
      with 1 fresh have "x = None" "asked ch s' = asked ch s" by force+
      with d(7)[OF 1] True calls show ?thesis by simp
    qed (use d(6,7)[OF 1] others[of c] calls in simp)
  qed (use calls in simp)
  then show "cs_calls s' c = None" and "answer_ok (cx_order D E) (asked c s') r" by blast+
next
  show "distinct (map fst (cs_returned s'))"
    using ret fresh system_okD(8)[OF ok] by (fastforce simp: distinct_map)
qed

lemma in_phase_queue: "system_ok D E s \<Longrightarrow> \<not> in_phase s ch waiting \<Longrightarrow> ch \<notin> set (cs_queue s)"
  using system_okD(3) by blast

lemma asked_more [simp]: "asked c (s\<lparr>cs_attempts := cs_attempts s @ [(ch, n, r)]\<rparr>) = (if c = ch then asked c s @ [(n, r)] else asked c s)"
  "asked c (s\<lparr>cs_client := cl, cs_attempts := cs_attempts s @ [(ch, n, r)]\<rparr>) = (if c = ch then asked c s @ [(n, r)] else asked c s)"
  by (simp_all add: asked_def)

lemma all_failed_simps [simp]: "all_failed []" "all_failed (xs @ [(n, Inl e)])  \<longleftrightarrow> all_failed xs"
  by (auto simp: all_failed_def is_ok_def)


lemma asked_same [simp]: "asked c (s\<lparr>cs_client := cl\<rparr>) = asked c s" "asked c (s\<lparr>cs_readers := q\<rparr>) = asked c s"
  "asked c (s\<lparr>cs_queue := q\<rparr>) = asked c s" "asked c (s\<lparr>cs_calls := m\<rparr>) = asked c s" "asked c (s\<lparr>cs_returned := x\<rparr>) = asked c s"
  by (simp_all add: asked_def)

lemma not_returned: "system_ok D E s \<Longrightarrow> cs_calls s ch \<noteq> None \<Longrightarrow> ch \<notin> fst ` set (cs_returned s)"
  using system_okD(6) by fastforce

lemma ok_read_leader:
  assumes ok: "system_ok D E s" and c: "cs_calls s ch = Some (op, t, ReadingLeader)" and "ch \<notin> set (cs_queue s)"
  shows "system_ok D E (read_leader D ch s)"
proof -
  note d = system_okD[OF ok]
  have tries: "asked ch s = []" using d(4)[OF c] by simp
  note n = not_returned[OF ok, of ch, simplified c, simplified]
  show ?thesis
  proof (cases "cl_leader (cs_client s)")
    case None
    then show ?thesis
      by (intro ok_update[OF ok, where ch = ch and x = "Some (op, t, AskingNodes (get_available_nodes D (cs_client s)))"])
        (simp_all add: system_ops get_available_nodes_def n c tries d(1,2) assms(3) subset_iff)
  next
    case (Some l)
    then show ?thesis
      by (intro ok_update[OF ok, where ch = ch and x = "Some (op, t, AskingLeader l)"])
        (simp_all add: system_ops n c tries d(1,2) assms(3) subset_iff)
  qed
qed

text \<open>The end of a call, and its joining the queue.\<close>

lemma finish_keeps:
  assumes ok: "system_ok D E s" and c: "cs_calls s ch = Some (op, t, ph)" and q: "ch \<notin> set (cs_queue s)"
    and s': "s' = s\<lparr>cs_client := cl, cs_attempts := cs_attempts s @ xs\<rparr>" "\<forall>x \<in> set xs. fst x = ch"
    and cl: "pool_rest cl = pool_rest (cs_client s)" and "answer_ok (cx_order D E) (asked ch s') r"
  shows "system_ok D E (finish_call ch r s')"
proof -
  have others: "asked k s' = asked k s" if "k \<noteq> ch" for k using s' that by (auto simp: asked_def filter_empty_conv)
  note n = not_returned[OF ok, of ch, simplified c, simplified]
  have same: "cs_calls s' = cs_calls s" "cs_queue s' = cs_queue s" "cs_readers s' = cs_readers s" "cs_returned s' = cs_returned s"
    "cs_client s' = cl" using s'(1) by simp_all
  have cl_same: "cl_endpoints cl = E" "cl_leader cl = cl_leader (cs_client s)" using cl system_okD(1)[OF ok] by simp_all
  show ?thesis
    by (intro ok_update[OF ok, where ch = ch and x = None])
      (simp_all add: finish_call_def same cl_same others n system_okD(2)[OF ok] q assms(7) subset_iff)
qed

lemma ok_wait_to_write:
  assumes ok: "system_ok D E s" and c: "cs_calls s ch = Some (op, t, ph)" and q: "ch \<notin> set (cs_queue s)"
    and s': "s' = s\<lparr>cs_client := cl, cs_attempts := cs_attempts s @ xs\<rparr>" "\<forall>x \<in> set xs. fst x = ch"
    and cl: "pool_rest cl = pool_rest (cs_client s)"
    and ph': "waiting ph'" "phase_ok (cx_order D E) (cl_leader cl) (asked ch s') ph'" "guarded ph' \<longrightarrow> ch \<in> set (cs_readers s)"
  shows "system_ok D E (wait_to_write ch ph' s')"
proof -
  have others: "asked k s' = asked k s" if "k \<noteq> ch" for k using s' that by (auto simp: asked_def filter_empty_conv)
  note n = not_returned[OF ok, of ch, simplified c, simplified]
  have same: "cs_calls s' = cs_calls s" "cs_queue s' = cs_queue s" "cs_readers s' = cs_readers s" "cs_returned s' = cs_returned s"
    "cs_client s' = cl" using s'(1) by simp_all
  have cl_same: "cl_endpoints cl = E" "cl_leader cl = cl_leader (cs_client s)" using cl system_okD(1)[OF ok] by simp_all
  show ?thesis
    by (intro ok_update[OF ok, where ch = ch and x = "Some (op, t, ph')"])
      (simp_all add: system_ops same cl_same others n system_okD(2)[OF ok] q c ph'(1,3) ph'(2)[unfolded cl_same] in_phase_def subset_iff)
qed

lemma ok_ask_leader:
  assumes ok: "system_ok D E s" and c: "cs_calls s ch = Some (op, t, AskingLeader l)"
  shows "system_ok D E (ask_leader D ch l op t s)"
proof -
  obtain r s' where a: "ask D ch l op t s = (r, s')" by fastforce
  from ask_result[OF a] obtain cl where s': "s' = s\<lparr>cs_client := cl, cs_attempts := cs_attempts s @ [(ch, l, r)]\<rparr>"
    and cl: "pool_rest cl = pool_rest (cs_client s)" by blast
  note d = system_okD[OF ok]
  have q: "ch \<notin> set (cs_queue s)" using in_phase_queue[OF ok] c by (simp add: in_phase_def)
  have tries: "asked ch s' = [(l, r)]" using d(4)[OF c] by (simp add: s')
  show ?thesis
  proof (cases r)
    case (Inl e)
    with ok_wait_to_write[OF ok c q s' _ cl, of ClearingLeader] d(4,5)[OF c] cl tries show ?thesis
      by (simp add: ask_leader_def a)
  next
    case (Inr response)
    with finish_keeps[OF ok c q s' _ cl, of r] tries show ?thesis
      by (simp add: ask_leader_def a answer_ok_def last_answered_def)
  qed
qed

lemma ok_ask_node:
  assumes ok: "system_ok D E s" and c: "cs_calls s ch = Some (op, t, AskingNodes (n # ns))"
  shows "system_ok D E (ask_node D ch n ns op t s)"
proof -
  obtain r s' where a: "ask D ch n op t s = (r, s')" by fastforce
  from ask_result[OF a] obtain cl where s': "s' = s\<lparr>cs_client := cl, cs_attempts := cs_attempts s @ [(ch, n, r)]\<rparr>"
    and cl: "pool_rest cl = pool_rest (cs_client s)" by blast
  note d = system_okD[OF ok]
  have q: "ch \<notin> set (cs_queue s)" using in_phase_queue[OF ok] c by (simp add: in_phase_def)
  have tries: "asked ch s' = asked ch s @ [(n, r)]" by (simp add: s')
  note n = not_returned[OF ok, of ch, simplified c, simplified]
  have before: "all_failed (asked ch s)" "map fst (asked ch s) @ n # ns = cx_order D E" using d(4)[OF c] by auto
  show ?thesis
  proof (cases r)
    case (Inl e)
    have "system_ok D E (set_phase ch (AskingNodes ns) (s'\<lparr>cs_client := remove_connection n (cs_client s')\<rparr>))"
      by (intro ok_update[OF ok, where ch = ch and x = "Some (op, t, AskingNodes ns)"])
        (simp_all add: system_ops s' cl[simplified] n d(1,2) q c before Inl subset_iff)
    with Inl show ?thesis by (simp add: ask_node_def a)
  next
    case (Inr response)
    have last: "last_answered (asked ch s') response" using before tries Inr unfolding last_answered_def by blast
    have f: "system_ok D E (finish_call ch (Inr response) s')"
      using finish_keeps[OF ok c q s' _ cl, of "Inr response"] last by (simp add: answer_ok_def)
    have "system_ok D E (wait_to_write ch (NotingLeader l response) s')" for l
      using ok_wait_to_write[OF ok c q s' _ cl, of "NotingLeader l response"] last by simp
    with f Inr show ?thesis by (cases response) (auto simp: ask_node_def a split: option.split)
  qed
qed


lemma ok_start:
  assumes ok: "system_ok D E s" and "cs_calls s ch = None" and n: "ch \<notin> fst ` set (cs_returned s)" and "ch \<notin> fst ` set (cs_attempts s)"
  shows "system_ok D E (start_call D ch op timeout s)"
proof -
  note d = system_okD[OF ok]
  let ?t = "case timeout of Some t \<Rightarrow> t | None \<Rightarrow> cl_default_timeout (cs_client s)"
  let ?s = "s\<lparr>cs_calls := (cs_calls s)(ch \<mapsto> (op, ?t, ReadingLeader))\<rparr>"
  have tries: "asked ch s = []" using assms(4) by (force simp: asked_def filter_empty_conv)
  have q: "ch \<notin> set (cs_queue s)" using in_phase_queue[OF ok] assms(2) by (simp add: in_phase_def)
  have begun: "system_ok D E ?s"
    by (intro ok_update[OF ok, where ch = ch and x = "Some (op, ?t, ReadingLeader)"])
      (simp_all add: d(1,2) q n tries subset_iff)
  moreover have "system_ok D E (?s\<lparr>cs_queue := cs_queue ?s @ [ch]\<rparr>)"
    by (intro ok_update[OF ok, where ch = ch and x = "Some (op, ?t, ReadingLeader)"])
      (simp_all add: d(1,2) q n tries subset_iff in_phase_def)
  ultimately show ?thesis
    using ok_read_leader[OF begun, of ch op ?t] q by (simp add: start_call_def Let_def)
qed

lemma ok_dequeue:
  assumes ok: "system_ok D E s" and q: "cs_queue s = ch # q"
  shows "system_ok D E (s\<lparr>cs_queue := q\<rparr>) \<and> ch \<notin> set q"
proof
  show "ch \<notin> set q" using system_okD(2)[OF ok] q by simp
  show "system_ok D E (s\<lparr>cs_queue := q\<rparr>)"
    using system_okD[OF ok] q by (intro system_okI) (auto simp: in_phase_def)
qed

lemma client_step_ok:
  assumes ok: "system_ok D E s" and "client_step D s ev s'"
  shows "system_ok D E s'"
  using assms(2)
proof cases
  case (call ch operation timeout)
  with ok_start[OF ok] show ?thesis by simp
next
  case (read_granted ch q operation t)
  with ok_dequeue[OF ok] ok_read_leader[of D E "s\<lparr>cs_queue := q\<rparr>" ch operation t] show ?thesis by simp
next
  case (leader_asked ch operation t l)
  with ok_ask_leader[OF ok] show ?thesis by simp
next
  case (clear_granted ch q operation t)
  with system_okD(5)[OF ok clear_granted(5)] show ?thesis by simp
next
  case (node_asked ch operation t n ns)
  with ok_ask_node[OF ok] show ?thesis by simp
next
  case (none_left ch operation t)
  have q: "ch \<notin> set (cs_queue s)" using in_phase_queue[OF ok] none_left(3) by (simp add: in_phase_def)
  have "system_ok D E (finish_call ch (Inl (Internal ''No available cluster members'')) s)"
    by (rule finish_keeps[OF ok none_left(3) q, where cl = "cs_client s" and xs = "[]"]) (use system_okD(4)[OF ok none_left(3)] in \<open>simp_all add: answer_ok_def\<close>)
  then show ?thesis using none_left(2) by simp
next
  case (note_granted ch q operation t l response)
  note n = not_returned[OF ok, of ch, simplified note_granted(5), simplified]
  have "last_answered (asked ch s) response" using system_okD(4)[OF ok note_granted(5)] by simp
  then have "system_ok D E (finish_call ch (Inr response) (set_leader (Some l) (s\<lparr>cs_queue := q\<rparr>)))"
    by (intro ok_update[OF ok, where ch = ch and x = None])
      (use ok_dequeue[OF ok note_granted(3)] system_okD(2)[OF ok]
        in \<open>simp_all add: system_ops system_okD(1)[OF ok] note_granted(3,4) n answer_ok_def subset_iff\<close>)
  then show ?thesis using note_granted(2) by simp
next
  case (given_up ch)
  have "system_ok D E (s\<lparr>cs_calls := (cs_calls s)(ch := None), cs_queue := filter (\<lambda>c. c \<noteq> ch) (cs_queue s),
      cs_readers := filter (\<lambda>c. c \<noteq> ch) (cs_readers s)\<rparr>)"
    by (intro ok_update[OF ok, where ch = ch and x = None]) (simp_all add: system_okD(1,2)[OF ok] subset_iff)
  then show ?thesis using given_up by simp
next
  case (network n)
  with system_okD[OF ok] show ?thesis by (intro system_okI) (simp_all add: in_phase_def)
qed

interpretation client: invariant_of "\<lambda>s. s = system_of cl" "client_step D" "system_ok D (cl_endpoints cl)" for cl D
  by unfold_locales (simp add: system_ok_def system_of_def, fact client_step_ok)

text \<open>
  C13: what a call of the client returns. However many tasks share it and whatever they give up, a call returns at most once; a response
  it returns is that of the last node it asked, and the ones asked before failed; when it returns an error, every node was asked once, in order, and
  failed, or was thought to: an operation whose answer was late has been sent to the next node all the same.
\<close>

theorem client_answers_accounted:
  assumes "reachable (\<lambda>s. s = system_of cl) (client_step D) s"
  shows "distinct (map fst (cs_returned s)) \<and> (\<forall>(ch, r) \<in> set (cs_returned s). case r of
      Inr response \<Rightarrow> (\<exists>failed n. asked ch s = failed @ [(n, Inr response)] \<and> all_failed failed)
    | Inl e \<Rightarrow> e = Internal ''No available cluster members'' \<and> all_failed (asked ch s) \<and> map fst (asked ch s) = get_available_nodes D cl)"
proof -
  have ok: "system_ok D (cl_endpoints cl) s" using client.always[OF assms] .
  have "answer_ok (get_available_nodes D cl) (asked ch s) r" if "(ch, r) \<in> set (cs_returned s)" for ch r
    using system_okD(7)[OF ok that] by (simp add: get_available_nodes_def)
  with system_okD(8)[OF ok] show ?thesis by (fastforce simp: answer_ok_def last_answered_def split: sum.splits)
qed


section \<open>A leader that fails\<close>

text \<open>Who waits before a call in the queue.\<close>

abbreviation ahead :: "nat \<Rightarrow> nat list \<Rightarrow> nat set" where
  "ahead ch q \<equiv> set (takeWhile (\<lambda>c. c \<noteq> ch) q)"

text \<open>The call \<open>ch\<close> waits for the write guard and keeps its read guard; calls that are not among \<open>old\<close> wait behind it.\<close>

definition wedged :: "nat \<Rightarrow> ManagementOperation \<times> duration \<Rightarrow> u64 option \<Rightarrow> nat set \<Rightarrow> ('c, 'a, 'n) client_system \<Rightarrow> bool" where
  "wedged ch job l old s \<longleftrightarrow> cs_calls s ch = Some (fst job, snd job, ClearingLeader) \<and> ch \<in> set (cs_readers s) \<and> ch \<in> set (cs_queue s)
     \<and> cl_leader (cs_client s) = l
     \<and> (\<forall>c. c \<notin> old \<longrightarrow> c \<notin> ahead ch (cs_queue s) \<and> c \<notin> fst ` set (cs_returned s)
          \<and> (\<forall>op t ph. cs_calls s c = Some (op, t, ph) \<longrightarrow> ph = ReadingLeader))"

lemma wedgedD:
  assumes "wedged ch job l old s"
  shows "cs_calls s ch = Some (fst job, snd job, ClearingLeader)" and "ch \<in> set (cs_readers s)" and "ch \<in> set (cs_queue s)"
    and "cl_leader (cs_client s) = l" and "c \<notin> old \<Longrightarrow> c \<notin> ahead ch (cs_queue s)" and "c \<notin> old \<Longrightarrow> c \<notin> fst ` set (cs_returned s)"
    and "c \<notin> old \<Longrightarrow> cs_calls s c = Some (op, t, ph) \<Longrightarrow> ph = ReadingLeader"
  using assms unfolding wedged_def by blast+

lemma wedgedI:
  assumes "cs_calls s ch = Some (fst job, snd job, ClearingLeader)" and "ch \<in> set (cs_readers s)" and "ch \<in> set (cs_queue s)"
    and "cl_leader (cs_client s) = l" and "\<And>c. c \<notin> old \<Longrightarrow> c \<notin> ahead ch (cs_queue s)" and "\<And>c. c \<notin> old \<Longrightarrow> c \<notin> fst ` set (cs_returned s)"
    and "\<And>c op t ph. c \<notin> old \<Longrightarrow> cs_calls s c = Some (op, t, ph) \<Longrightarrow> ph = ReadingLeader"
  shows "wedged ch job l old s"
  using assms unfolding wedged_def by blast

lemma ahead_append: "ch \<in> set q \<Longrightarrow> ahead ch (q @ r) = ahead ch q"
  by (simp add: takeWhile_append1)

lemma ahead_absent: "ch \<notin> set q \<Longrightarrow> ahead ch (q @ [ch]) = set q"
  by (induction q) auto

lemma ahead_filter: "c \<noteq> ch \<Longrightarrow> ahead ch (filter (\<lambda>x. x \<noteq> c) q) \<subseteq> ahead ch q"
  by (induction q) auto

text \<open>A step of another call \<open>c\<close>: it may leave or join the queue, and when it is new it does not move.\<close>

lemma wedged_other:
  assumes w: "wedged ch job l old s" and "c \<noteq> ch" and calls: "\<And>k. k \<noteq> c \<Longrightarrow> cs_calls s' k = cs_calls s k"
    and "ch \<in> set (cs_readers s')" and "ch \<in> set (cs_queue s')" and "cl_leader (cs_client s') = l"
    and "ahead ch (cs_queue s') \<subseteq> ahead ch (cs_queue s)"
    and "fst ` set (cs_returned s') \<subseteq> insert c (fst ` set (cs_returned s))"
    and new: "c \<notin> old \<Longrightarrow> c \<notin> fst ` set (cs_returned s') \<and> (\<forall>op t ph. cs_calls s' c = Some (op, t, ph) \<longrightarrow> ph = ReadingLeader)"
  shows "wedged ch job l old s'"
proof (rule wedgedI)
  note d = wedgedD[OF w]
  show "cs_calls s' ch = Some (fst job, snd job, ClearingLeader)" using d(1) calls assms(2) by simp
  show "k \<notin> ahead ch (cs_queue s')" if "k \<notin> old" for k using d(5)[OF that] assms(7) by blast
  show "k \<notin> fst ` set (cs_returned s')" if "k \<notin> old" for k using d(6)[OF that] assms(8) new that by blast
  show "ph = ReadingLeader" if "k \<notin> old" "cs_calls s' k = Some (op, t, ph)" for k op t ph
    using d(7)[OF that(1)] calls new that by (cases "k = c") auto
qed fact+

lemma ask_leader_simp:
  "ask D ch l op t s = (r, s') \<Longrightarrow> ask_leader D ch l op t s = (case r of Inr response \<Rightarrow> finish_call ch r s' | Inl e \<Rightarrow> wait_to_write ch ClearingLeader s')"
  by (simp add: ask_leader_def split: sum.split)

lemma wedged_by_step:
  assumes w: "wedged ch job l old s" and "client_step D s ev s'" and "ev \<noteq> GiveUp ch"
  shows "wedged ch job l old s'"
proof -
  note d = wedgedD[OF w]
  have guard: "cs_readers s \<noteq> []" using d(2) by auto
  from assms(2) show ?thesis
  proof cases
    case (call c operation timeout)
    have "c \<noteq> ch" using call(3) d(1) by auto
    have "cs_queue s \<noteq> []" using d(3) by auto
    then show ?thesis unfolding call(2)
      by (intro wedged_other[OF w \<open>c \<noteq> ch\<close>])
        (use d call(4) in \<open>auto simp: start_call_def Let_def ahead_append\<close>)
  next
    case (read_granted c q operation t)
    have "c \<noteq> ch" using read_granted(4) d(1) by auto
    with d(5)[of c] read_granted(3) have "c \<in> old" by auto
    with \<open>c \<noteq> ch\<close> show ?thesis unfolding read_granted(2)
      by (intro wedged_other[OF w \<open>c \<noteq> ch\<close>])
        (use d read_granted(3) in \<open>auto simp: system_ops split: option.split\<close>)
  next
    case (leader_asked c operation t k)
    have c: "c \<noteq> ch" "c \<in> old" using leader_asked(3) d(1) d(7)[of c] by auto
    obtain r s1 where a: "ask D c k operation t s = (r, s1)" by fastforce
    from ask_result[OF a] obtain cl where "s1 = s\<lparr>cs_client := cl, cs_attempts := cs_attempts s @ [(c, k, r)]\<rparr>"
      "pool_rest cl = pool_rest (cs_client s)" by blast
    with c show ?thesis unfolding leader_asked(2) ask_leader_simp[OF a]
      by (intro wedged_other[OF w c(1)]) (use d in \<open>auto simp: system_ops ahead_append split: sum.split\<close>)
  next
    case (node_asked c operation t n ns)
    have c: "c \<noteq> ch" "c \<in> old" using node_asked(3) d(1) d(7)[of c] by auto
    obtain r s1 where a: "ask D c n operation t s = (r, s1)" by fastforce
    from ask_result[OF a] obtain cl where "s1 = s\<lparr>cs_client := cl, cs_attempts := cs_attempts s @ [(c, n, r)]\<rparr>"
      "pool_rest cl = pool_rest (cs_client s)" by blast
    with c show ?thesis unfolding node_asked(2) ask_node_def a
      by (intro wedged_other[OF w c(1)])
        (use d in \<open>auto simp: system_ops ahead_append split: sum.split ManagementResponse.split option.split\<close>)
  next
    case (none_left c operation t)
    have c: "c \<noteq> ch" "c \<in> old" using none_left(3) d(1) d(7)[of c] by auto
    then show ?thesis unfolding none_left(2)
      by (intro wedged_other[OF w c(1)]) (use d in \<open>auto simp: system_ops\<close>)
  next
    case (given_up c)
    with assms(3) have c: "c \<noteq> ch" by auto
    then show ?thesis unfolding given_up(2)
      by (intro wedged_other[OF w c]) (use d ahead_filter[OF c] in \<open>auto simp: subset_iff\<close>)
  next
    case (network n)
    with d show ?thesis by (intro wedgedI) auto
  qed (use guard in auto)
qed


lemma wedged_run: "run (client_step D) s evs s' \<Longrightarrow> GiveUp ch \<notin> set evs \<Longrightarrow> wedged ch job l old s \<Longrightarrow> wedged ch job l old s'"
  by (induction rule: run.induct) (auto intro: wedged_by_step)

lemma ask_leader_wedges:
  assumes ok: "system_ok D E s" and c: "cs_calls s ch = Some (op, t, AskingLeader l)"
    and "fst (send_request_to_node D l op t (cs_client s)) = Inl e"
  shows "wedged ch (op, t) (Some l) (dom (cs_calls s) \<union> fst ` set (cs_returned s)) (ask_leader D ch l op t s)"
proof -
  obtain r s1 where a: "ask D ch l op t s = (r, s1)" by fastforce
  from ask_result[OF a] assms(3) obtain cl where s1: "s1 = s\<lparr>cs_client := cl, cs_attempts := cs_attempts s @ [(ch, l, Inl e)]\<rparr>"
    and cl: "pool_rest cl = pool_rest (cs_client s)" and r: "r = Inl e" by metis
  note d = system_okD[OF ok]
  have leader: "cl_leader (cs_client s) = Some l" using d(4)[OF c] by simp
  have reader: "ch \<in> set (cs_readers s)" using d(5)[OF c] by simp
  have q: "ch \<notin> set (cs_queue s)" using in_phase_queue[OF ok] c by (simp add: in_phase_def)
  have queued: "k \<in> dom (cs_calls s)" if "k \<in> set (cs_queue s)" for k using d(3)[OF that] by (auto simp: in_phase_def split: option.splits)
  have "ask_leader D ch l op t s = wait_to_write ch ClearingLeader s1" by (simp add: ask_leader_def a r)
  moreover have "ahead ch (cs_queue s @ [ch]) = set (cs_queue s)" using q by (rule ahead_absent)
  ultimately show ?thesis
    by (intro wedgedI) (use queued reader leader cl c in \<open>auto simp: s1 system_ops split: if_splits\<close>)
qed

text \<open>
  C12: a leader that cannot be reached blocks the client for good. When a call asked the cached leader and got an error, it does not return
  unless it is given up: it waits for the write guard of the leader with its own read guard in hand. The leader stays cached, and
  no call that starts from then on returns either, whatever the others do.
\<close>

theorem failed_leader_call_hangs:
  assumes "reachable (\<lambda>s. s = system_of cl) (client_step D) s" and "cs_calls s ch = Some (operation, t, AskingLeader l)"
    and "fst (send_request_to_node D l operation t (cs_client s)) = Inl e" and "client_step D s (Ask ch) s1"
    and "run (client_step D) s1 evs s2" and "GiveUp ch \<notin> set evs"
  shows "cs_calls s2 ch = Some (operation, t, ClearingLeader) \<and> cl_leader (cs_client s2) = Some l
    \<and> fst ` set (cs_returned s2) \<subseteq> fst ` set (cs_returned s) \<union> dom (cs_calls s)"
proof -
  have ok: "system_ok D (cl_endpoints cl) s" using client.always[OF assms(1)] .
  from assms(4) have "s1 = ask_leader D ch l operation t s" by cases (use assms(2) in auto)
  with wedged_run[OF assms(5,6)] ask_leader_wedges[OF ok assms(2,3)]
  have w: "wedged ch (operation, t) (Some l) (dom (cs_calls s) \<union> fst ` set (cs_returned s)) s2" by blast
  have "fst ` set (cs_returned s2) \<subseteq> dom (cs_calls s) \<union> fst ` set (cs_returned s)" using wedgedD(6)[OF w] by blast
  with wedgedD(1,4)[OF w] show ?thesis by (simp add: Un_commute)
qed

section \<open>A connected client\<close>

lemma add_members_leader: "add_members A ms cl = Inr cl' \<Longrightarrow> cl_leader cl' = cl_leader cl \<and> cl_net cl' = cl_net cl"
  by (induction A ms cl rule: add_members.induct) (auto simp: add_member_def split: option.splits sum.splits)

text \<open>Whatever the cluster, a client that connects to it takes node 1 for the leader, which nobody told.\<close>

lemma connected_leader:
  assumes "connect_to_cluster A now bound cluster_id = Inr cl"
  shows "cl_leader cl = Some 1"
  using assms add_members_leader
  by (auto simp: connect_to_cluster_def discover_cluster_def discovery_new_def perform_cluster_discovery_def Let_def
      placeholder_cluster_def and_then_Inr_iff)

text \<open>The stream of events of a client has ended before its first event.\<close>

lemma client_stream_ended:
  assumes "client_subscribe_to_events i w = (stream, w')" and "next_channel w \<notin> snd ` set (subscribers w)"
  shows "fst (poll_next stream w') = Ready None"
  using assms unfolding client_subscribe_to_events_def by (elim Pair_inject, hypsubst) (simp add: stream_new_def poll_next_def channel_ended_def)


section \<open>The client and the server\<close>

text \<open>
  A stream \<open>s\<close> of the client \<open>D\<close> to a server with the handler \<open>M\<close>: what is written is in \<open>wrote\<close>, and when the client closes
  its side the server works on it from its state \<open>peer\<close>; what that wrote is then there to read, and a read behind the end is an error.
\<close>

definition linked :: "('c, 'a, 's, 'n) client_deps \<Rightarrow> 's \<Rightarrow> (bytes, bytes) mgmt_deps \<Rightarrow> ('n \<Rightarrow> bytes) \<Rightarrow> ('n \<Rightarrow> bytes)
    \<Rightarrow> ('n \<Rightarrow> (bytes, bytes, 'j) mgmt_handler) \<Rightarrow> bool" where
  "linked D s M wrote unread peer \<longleftrightarrow> writer_ok (cx_writer D s) wrote \<and> reader_ok (cx_reader D s) unread
     \<and> (\<forall>bs n. peer (snd (w_write_all (cx_writer D s) bs n)) = peer n) \<and> (\<forall>n. peer (snd (w_flush (cx_writer D s) n)) = peer n)
     \<and> (\<forall>k n. peer (snd (r_read_exact (cx_reader D s) k n)) = peer n)
     \<and> (\<forall>k n. length (unread n) < k \<longrightarrow> (\<exists>e n'. r_read_exact (cx_reader D s) k n = (Inl e, n')))
     \<and> (\<forall>n. \<exists>n'. cx_finish D s n = (Inr (), n') \<and> unread n' = mh_send (peer n')
          \<and> peer n' = snd (mgmt_stream_work M ((peer n)\<lparr>mh_recv := wrote n, mh_send := []\<rparr>)))
     \<and> cx_header D = md_header M \<and> cx_request D = md_request M \<and> cx_response D = md_response M
     \<and> header_ok (md_header M) \<and> md_writer M = mem_writer \<and> md_reader M = mem_reader"

lemma linkedD:
  assumes "linked D s M wrote unread peer"
  shows "writer_ok (cx_writer D s) wrote" and "reader_ok (cx_reader D s) unread"
    and "peer (snd (w_write_all (cx_writer D s) bs n)) = peer n" and "peer (snd (w_flush (cx_writer D s) n)) = peer n"
    and "peer (snd (r_read_exact (cx_reader D s) k n)) = peer n"
    and "length (unread n) < k \<Longrightarrow> \<exists>e n'. r_read_exact (cx_reader D s) k n = (Inl e, n')"
    and "\<exists>n'. cx_finish D s n = (Inr (), n') \<and> unread n' = mh_send (peer n')
          \<and> peer n' = snd (mgmt_stream_work M ((peer n)\<lparr>mh_recv := wrote n, mh_send := []\<rparr>))"
    and "cx_header D = md_header M" and "cx_request D = md_request M" and "cx_response D = md_response M"
    and "header_ok (md_header M)" and "md_writer M = mem_writer" and "md_reader M = mem_reader"
  using assms unfolding linked_def by blast+

lemma keeps_stream_try: "(\<And>n. peer (snd (f n)) = peer n) \<Longrightarrow> keeps (\<lambda>n. peer n = p) (stream_try what f)"
  by (auto simp: keeps_def stream_try_def split: prod.splits) (metis snd_conv)

lemma writing_keeps_peer:
  assumes "linked D s M wrote unread peer"
  shows "keeps (\<lambda>n. peer n = p) (write_message_zero_copy (cx_writer D s) H message)"
  unfolding write_message_zero_copy_def write_large_message_streaming_def
  by (intro keeps_rules keeps_stream_try) (simp_all add: linkedD(3,4)[OF assms])

text \<open>What the server does with a frame, and what is there to read after it.\<close>

lemma frame_handled:
  assumes L: "linked D s M wrote unread peer" and "wrote n = []" and fits: "message_fits (zero_copy_message Request i payload)"
  obtains n' where "send_frame D s i payload n = (case read_message_zero_copy (cx_reader D s) (md_header M) n' of
      (Inl e, n) \<Rightarrow> (Inl e, n) | (Inr (header, payload), n) \<Rightarrow> (Inr payload, n))"
    and "unread n' = mh_send (peer n')"
    and "peer n' = snd (process_management_message M (served_message (zero_copy_message Request i payload))
      ((peer n)\<lparr>mh_send := [], mh_recv := []\<rparr>))"
proof -
  let ?m = "zero_copy_message Request i payload"
  note l = linkedD[OF L]
  have id: "id_ok (zm_request_id ?m)" using fits by (simp add: message_fits_def)
  obtain n1 where n1: "write_message_zero_copy (cx_writer D s) (md_header M) ?m n = (Inr (), n1)" "wrote n1 = frame (md_header M) ?m"
    using write_frame[OF l(1,11) id, of n] assms(2) by auto
  have p1: "peer n1 = peer n" using keepsD[OF writing_keeps_peer[OF L] _ n1(1)] by simp
  obtain n2 where n2: "cx_finish D s n1 = (Inr (), n2)" "unread n2 = mh_send (peer n2)"
    "peer n2 = snd (mgmt_stream_work M ((peer n1)\<lparr>mh_recv := wrote n1, mh_send := []\<rparr>))" using l(7) by blast
  have "reader_ok (md_reader M) id" using mem_stream_ok(2) by (simp add: l(13))
  from stream_frame_handled[OF this l(11) fits, of "(peer n)\<lparr>mh_recv := wrote n1, mh_send := []\<rparr>" "[]"]
  have "mgmt_stream_work M ((peer n1)\<lparr>mh_recv := wrote n1, mh_send := []\<rparr>)
      = process_management_message M (served_message ?m) ((peer n)\<lparr>mh_send := [], mh_recv := []\<rparr>)"
    by (simp add: n1(2) p1)
  moreover have "send_frame D s i payload n = (case read_message_zero_copy (cx_reader D s) (md_header M) n2 of
      (Inl e, n) \<Rightarrow> (Inl e, n) | (Inr (header, payload), n) \<Rightarrow> (Inr payload, n))"
    using n1(1) n2(1) by (simp add: send_frame_def act_then_apply net_try_def l(8) split: prod.split sum.split)
  ultimately show thesis using that n2(2,3) by simp
qed


lemma reading_keeps_peer:
  assumes "linked D s M wrote unread peer"
  shows "keeps (\<lambda>n. peer n = p) (read_message_zero_copy (cx_reader D s) H)"
proof -
  have part: "keeps (\<lambda>n. peer n = p) (stream_try what (r_read_exact (cx_reader D s) k))" for what k
    by (rule keeps_stream_try) (simp add: linkedD(5)[OF assms])
  have chunks: "keeps (\<lambda>n. peer n = p) (read_chunks (cx_reader D s) k buf)" for k buf
  proof (induction "cx_reader D s" k buf rule: read_chunks.induct)
    case (1 k buf)
    then show ?case by (subst read_chunks.simps) (auto simp: Let_def intro!: keeps_rules part)
  qed
  show ?thesis
    unfolding read_message_zero_copy_def read_large_payload_streaming_def read_small_payload_direct_def Let_def
    by (intro keeps_rules part chunks)
qed

text \<open>
  Up to the exchange: the pool has a connection or makes one, a stream is opened on it, and the request gets an id. What the timeout
  does with an exchange that ends in time is nothing.
\<close>

definition ready_to_send :: "('c, 'a, 's, 'n) client_deps \<Rightarrow> u64 \<Rightarrow> ('n \<Rightarrow> bytes) \<Rightarrow> ('c, 'a, 'n) IrohRaftManagementClient \<Rightarrow> 's \<Rightarrow> bytes \<Rightarrow> 'n
    \<Rightarrow> ('c, 'a, 'n) IrohRaftManagementClient \<Rightarrow> bool" where
  "ready_to_send D node wrote cl s i n cl' \<longleftrightarrow> (\<exists>connection cl1 n1. get_connection D node cl = (Inr connection, cl1)
     \<and> cx_open_bi D connection (cl_net cl1) = (Inr s, n1) \<and> cx_request_id D n1 = (i, n) \<and> wrote n = [] \<and> length i = 16
     \<and> cl' = cl1\<lparr>cl_net := n\<rparr>)"

definition in_time :: "('c, 'a, 's, 'n) client_deps \<Rightarrow> duration \<Rightarrow> bool" where
  "in_time D t \<longleftrightarrow> (\<forall>f n. cx_timeout D t f n = (case f n of (r, n) \<Rightarrow> (Some r, n)))"

text \<open>
  C14: a request of the client is carried out and answered. The server hands the operation to its manager once, with a timeout of
  30 seconds whatever that of the client, and the client gets what the manager answered, or the error the server makes when the
  manager drops the request.
\<close>

theorem request_reaches_manager:
  assumes "linked D s M wrote unread peer" and "ready_to_send D node wrote cl s i n cl'" and "in_time D t"
    and "management_open (peer n)"
    and "request = \<lparr>mr_operation = operation, mr_timeout = Some (from_secs 30), mr_authorization = None\<rparr>"
    and "bin_serialize (md_request M) request = Inr body" and "bin_deserialize (md_request M) body = Inr request"
    and "length body \<le> unat MAX_PAYLOAD"
    and "answer = (case md_answer M (management_rx (peer n) @ [request]) of Some r \<Rightarrow> r | None \<Rightarrow> RespError ''Response channel closed'')"
    and "bin_serialize (md_response M) answer = Inr body'" and "bin_deserialize (md_response M) body' = Inr answer"
    and "length body' \<le> unat MAX_PAYLOAD"
  shows "\<exists>n'. send_request_to_node D node operation t cl = (Inr answer, cl'\<lparr>cl_net := n'\<rparr>)
    \<and> management_rx (peer n') = management_rx (peer n) @ [request]"
proof -
  note l = linkedD[OF assms(1)]
  obtain connection cl1 n1 where r: "get_connection D node cl = (Inr connection, cl1)" "cx_open_bi D connection (cl_net cl1) = (Inr s, n1)"
    "cx_request_id D n1 = (i, n)" "wrote n = []" "length i = 16" "cl' = cl1\<lparr>cl_net := n\<rparr>"
    using assms(2) unfolding ready_to_send_def by blast
  let ?m = "zero_copy_message Request (Some i) body" and ?a = "zero_copy_message Response (Some i) body'"
  let ?p = "(peer n)\<lparr>mh_send := [], mh_recv := [], management_rx := management_rx (peer n) @ [request]\<rparr>"
  have fits: "message_fits ?m" using r(5) assms(8) by (simp add: message_fits_def zero_copy_message_def id_ok_def)
  have id: "id_ok (zm_request_id ?a)" using r(5) by (simp add: zero_copy_message_def id_ok_def)
  obtain n2 where n2: "send_frame D s (Some i) body n = (case read_message_zero_copy (cx_reader D s) (md_header M) n2 of
      (Inl e, n) \<Rightarrow> (Inl e, n) | (Inr (header, payload), n) \<Rightarrow> (Inr payload, n))" "unread n2 = mh_send (peer n2)"
    "peer n2 = snd (process_management_message M (served_message ?m) ((peer n)\<lparr>mh_send := [], mh_recv := []\<rparr>))"
    using frame_handled[OF assms(1) r(4) fits] by blast
  have "writer_ok (md_writer M) id" using mem_stream_ok(1) by (simp add: l(12))
  from write_frame[OF this l(11) id, of "[]"] obtain w where
    w: "write_message_zero_copy (md_writer M) (md_header M) ?a [] = (Inr (), w)" "w = frame (md_header M) ?a" by auto
  have "process_management_message M (served_message ?m) ((peer n)\<lparr>mh_send := [], mh_recv := []\<rparr>)
      = send_management_response M answer (Some i) ?p"
    using assms(4,7,9) by (simp add: process_management_message_def served_message_def mgmt_type_of_def zero_copy_message_def
        handle_management_request_def deserialize_payload_def split: option.split)
  also have "\<dots> = (Inr (), ?p\<lparr>mh_send := w\<rparr>)"
    by (simp add: send_management_response_def serialize_payload_zero_copy_def assms(10) mgmt_send_def w(1))
  finally have p2: "peer n2 = ?p\<lparr>mh_send := w\<rparr>" by (simp add: n2(3))
  have "length body' = length body' mod 2 ^ 32" using assms(12) by (simp add: max_payload)
  then have len: "length body' = length (zm_payload ?a) mod 2 ^ 32" by (simp add: zero_copy_message_def)
  have "unread n2 = frame (md_header M) ?a @ []" using n2(2) p2 w(2) by simp
  from read_frame[OF l(2,11) id this len] assms(12)
  obtain n3 where n3: "read_message_zero_copy (cx_reader D s) (md_header M) n2 = (Inr (message_header ?a, body'), n3)"
    by (auto simp: zero_copy_message_def)
  have p3: "peer n3 = peer n2" using keepsD[OF reading_keeps_peer[OF assms(1)] _ n3] by simp
  have "exchange D s (Some i) body n = (Inr answer, n3)"
    by (simp add: exchange_def act_then_apply n2(1) n3 l(10) deserialize_payload_def assms(11))
  then have "send_request_to_node D node operation t cl = (Inr answer, cl'\<lparr>cl_net := n3\<rparr>)"
    using assms(3) by (simp add: send_request_to_node_def act_then_apply r(1) on_net_def net_try_def r(2,3) fresh_request_id_def
        create_management_request_def mgmt_new_request_def serialize_payload_def l(9) assms(5)[symmetric] assms(6) in_time_def r(6))
  then show ?thesis using p3 p2 by (intro exI[of _ n3]) simp
qed

text \<open>
  C15: a ping is never answered. The client sends an empty request instead of the heartbeat that the server would take for a health check; the server
  fails to read a request in it and writes nothing, so the ping of a node that works is an error.
\<close>

theorem ping_always_fails:
  assumes "linked D s M wrote unread peer" and "ready_to_send D node wrote cl s i n cl'" and "bin_deserialize (md_request M) [] = Inl e"
  shows "\<exists>reason n'. ping_node D node cl = (Inl (Internal (''Failed to read header length: '' @ reason)), cl'\<lparr>cl_net := n'\<rparr>)
    \<and> management_rx (peer n') = management_rx (peer n)
    \<and> mgmt_type_of Protocol.Heartbeat = zmm_type (create_health_check_message i)"
proof -
  note l = linkedD[OF assms(1)]
  obtain connection cl1 n1 where r: "get_connection D node cl = (Inr connection, cl1)" "cx_open_bi D connection (cl_net cl1) = (Inr s, n1)"
    "cx_request_id D n1 = (i, n)" "wrote n = []" "length i = 16" "cl' = cl1\<lparr>cl_net := n\<rparr>"
    using assms(2) unfolding ready_to_send_def by blast
  let ?m = "zero_copy_message Request (Some i) []"
  have fits: "message_fits ?m" using r(5) by (simp add: message_fits_def zero_copy_message_def id_ok_def)
  obtain n2 where n2: "send_frame D s (Some i) [] n = (case read_message_zero_copy (cx_reader D s) (md_header M) n2 of
      (Inl e, n) \<Rightarrow> (Inl e, n) | (Inr (header, payload), n) \<Rightarrow> (Inr payload, n))" "unread n2 = mh_send (peer n2)"
    "peer n2 = snd (process_management_message M (served_message ?m) ((peer n)\<lparr>mh_send := [], mh_recv := []\<rparr>))"
    using frame_handled[OF assms(1) r(4) fits] by blast
  have p2: "peer n2 = (peer n)\<lparr>mh_send := [], mh_recv := []\<rparr>"
    using assms(3) by (simp add: n2(3) process_management_message_def served_message_def mgmt_type_of_def zero_copy_message_def
        handle_management_request_def deserialize_payload_def)
  then have "length (unread n2) < 4" using n2(2) by simp
  with l(6)[of n2 4] obtain reason n3 where n3: "r_read_exact (cx_reader D s) 4 n2 = (Inl reason, n3)" by blast
  have p3: "peer n3 = peer n2" using l(5)[of 4 n2] n3 by simp
  have "send_frame D s (Some i) [] n = (Inl (Internal (''Failed to read header length: '' @ reason)), n3)"
    by (simp add: n2(1) read_message_zero_copy_def act_then_apply stream_try_def n3)
  then have "ping_node D node cl = (Inl (Internal (''Failed to read header length: '' @ reason)), cl'\<lparr>cl_net := n3\<rparr>)"
    by (simp add: ping_node_def act_then_apply r(1) on_net_def net_try_def r(2,3,6) fresh_request_id_def
        create_health_check_message_def mgmt_message_def)
  then show ?thesis using p2 p3 by (intro exI[of _ reason] exI[of _ n3])
    (simp add: mgmt_type_of_def create_health_check_message_def mgmt_message_def)
qed



section \<open>Examples\<close>

text \<open>A network in which an address \<open>down\<close> cannot be reached and every other node answers success.\<close>

definition sample_deps :: "(unit, string, unit, unit) client_deps" where
  "sample_deps = \<lparr>cx_connect = (\<lambda>a n. (if a = ''down'' then Inl ''unreachable'' else Inr (), n)), cx_open_bi = (\<lambda>c n. (Inr (), n)),
     cx_writer = (\<lambda>s. \<lparr>w_write_all = (\<lambda>bs n. (Inr (), n)), w_flush = (\<lambda>n. (Inr (), n))\<rparr>), cx_finish = (\<lambda>s n. (Inr (), n)),
     cx_reader = (\<lambda>s. \<lparr>r_read_exact = (\<lambda>k n. (Inl ''eof'', n))\<rparr>), cx_timeout = (\<lambda>t f n. (Some (Inr RespSuccess), n)),
     cx_request_id = (\<lambda>n. (replicate 16 0, n)), cx_now = (\<lambda>n. 0), cx_header = header_wire,
     cx_request = \<lparr>bin_serialize = (\<lambda>r. Inr [7]), bin_deserialize = (\<lambda>bs. Inl ''unused'')\<rparr>,
     cx_response = \<lparr>bin_serialize = (\<lambda>r. Inr [1]), bin_deserialize = (\<lambda>bs. Inr RespSuccess)\<rparr>,
     cx_order = (\<lambda>E. filter (\<lambda>n. fmlookup E n \<noteq> None) [1, 2, 3])\<rparr>"

lemma sample_request: "send_request_to_node sample_deps node StepDown t cl =
    (case cl_connections cl node of Some c \<Rightarrow> (Inr RespSuccess, cl)
     | None \<Rightarrow> (case fmlookup (cl_endpoints cl) node of
         None \<Rightarrow> (Inl (Internal (''No endpoint found for node '' @ show_nat (unat node))), cl)
       | Some a \<Rightarrow> if a = ''down'' then (Inl (Internal (''Failed to connect to node '' @ show_nat (unat node) @ '': unreachable'')), cl)
           else (Inr RespSuccess, cl\<lparr>cl_connections := (cl_connections cl)(node \<mapsto> ())\<rparr>)))"
  by (simp add: send_request_to_node_def get_connection_def act_then_apply on_net_def net_try_def fresh_request_id_def
      create_management_request_def mgmt_new_request_def serialize_payload_def sample_deps_def split: option.split)

definition two_nodes :: "(unit, string, unit) IrohRaftManagementClient" where
  "two_nodes = add_member 2 ''up'' (add_member 1 ''down'' (client_new ()))"

theorem client_answers_accounted_witness:
  "\<exists>s. run (client_step sample_deps) (system_of two_nodes) [Call 0 StepDown None, Ask 0, Ask 0] s
     \<and> cs_returned s = [(0, Inr RespSuccess)] \<and> (\<exists>failed n. asked 0 s = failed @ [(n, Inr RespSuccess)] \<and> all_failed failed)"
proof -
  let ?job = "(StepDown, from_secs 30)"
  define s1 where "s1 = (system_of two_nodes)\<lparr>cs_calls := [0 \<mapsto> (StepDown, from_secs 30, AskingNodes [1, 2])]\<rparr>"
  define s2 where "s2 = ask_node sample_deps 0 1 [2] StepDown (from_secs 30) s1"
  define s3 where "s3 = ask_node sample_deps 0 2 [] StepDown (from_secs 30) s2"
  have "start_call sample_deps 0 StepDown None (system_of two_nodes) = s1"
    by (simp add: s1_def start_call_def Let_def read_leader_def set_phase_def system_of_def two_nodes_def add_member_def client_new_def
        get_available_nodes_def sample_deps_def)
  then have "client_step sample_deps (system_of two_nodes) (Call 0 StepDown None) s1"
    using client_step.call[of "system_of two_nodes" 0 sample_deps StepDown None] by (simp add: system_of_def)
  moreover have "client_step sample_deps s1 (Ask 0) s2"
    unfolding s2_def by (rule node_asked) (simp add: s1_def)
  moreover have c2: "cs_calls s2 0 = Some (StepDown, from_secs 30, AskingNodes [2])"
    by (simp add: s2_def ask_node_def ask_def s1_def sample_request system_of_def two_nodes_def add_member_def client_new_def
        set_phase_def remove_connection_def)
  then have "client_step sample_deps s2 (Ask 0) s3" unfolding s3_def by (rule node_asked)
  ultimately have r: "run (client_step sample_deps) (system_of two_nodes) [Call 0 StepDown None, Ask 0, Ask 0] s3" by (blast intro: run.intros)
  have ret: "cs_returned s3 = [(0, Inr RespSuccess)]"
    by (simp add: s3_def s2_def ask_node_def ask_def s1_def sample_request system_of_def two_nodes_def add_member_def client_new_def
        set_phase_def remove_connection_def finish_call_def)
  have "reachable (\<lambda>s. s = system_of two_nodes) (client_step sample_deps) s3" unfolding reachable_def using r by blast
  from client_answers_accounted[OF this] ret r show ?thesis by auto
qed

text \<open>A client that connects to a cluster none of whose members can be reached.\<close>

definition no_address :: "(bytes, string, string) address_deps" where
  "no_address = \<lparr>ad_parse = Some, ad_node_id = Inr, ad_direct = (\<lambda>i a. ''down'')\<rparr>"

theorem failed_leader_call_hangs_witness:
  "\<exists>cl s s2. connect_to_cluster no_address 0 (Inr ()) ''c'' = Inr cl
     \<and> run (client_step sample_deps) (system_of cl) [Call 0 StepDown None] s
     \<and> run (client_step sample_deps) s [Ask 0, Call 1 StepDown None] s2
     \<and> cl_leader (cs_client s2) = Some 1 \<and> cs_returned s2 = [] \<and> cs_queue s2 = [0, 1]"
proof -
  obtain cl where cl: "connect_to_cluster no_address 0 (Inr ()) ''c'' = Inr (cl :: (unit, string, unit) IrohRaftManagementClient)"
    "fmlookup (cl_endpoints cl) 1 = Some ''down''" "cl_connections cl = Map.empty" "cl_default_timeout cl = from_secs 30"
    by (simp add: connect_to_cluster_def discover_cluster_def discovery_new_def perform_cluster_discovery_def Let_def
        placeholder_cluster_def placeholder_member_def bind_endpoint_def no_address_def add_member_def client_new_def)
  note leader = connected_leader[OF cl(1)]
  define s where "s = (system_of cl)\<lparr>cs_calls := [0 \<mapsto> (StepDown, from_secs 30, AskingLeader 1)], cs_readers := [0]\<rparr>"
  define s1 where "s1 = ask_leader sample_deps 0 1 StepDown (from_secs 30) s"
  define s2 where "s2 = start_call sample_deps 1 StepDown None s1"
  have "start_call sample_deps 0 StepDown None (system_of cl) = s"
    by (simp add: s_def start_call_def Let_def read_leader_def set_phase_def system_of_def cl(4) leader)
  then have "client_step sample_deps (system_of cl) (Call 0 StepDown None) s"
    using client_step.call[of "system_of cl" 0 sample_deps StepDown None] by (simp add: system_of_def)
  then have r: "run (client_step sample_deps) (system_of cl) [Call 0 StepDown None] s" by (blast intro: run.intros)
  have c: "cs_calls s 0 = Some (StepDown, from_secs 30, AskingLeader 1)" by (simp add: s_def)
  obtain e where f: "fst (send_request_to_node sample_deps 1 StepDown (from_secs 30) (cs_client s)) = Inl e"
    by (simp add: sample_request s_def system_of_def cl(2,3))
  have step1: "client_step sample_deps s (Ask 0) s1" unfolding s1_def by (rule leader_asked) (rule c)
  have s1: "cs_calls s1 1 = None" "cs_returned s1 = []" "cs_queue s1 = [0]" "fst ` set (cs_attempts s1) = {0}"
    by (simp_all add: s1_def ask_leader_def ask_def s_def system_of_def sample_request cl(2,3) wait_to_write_def set_phase_def)
  have step2: "client_step sample_deps s1 (Call 1 StepDown None) s2"
    unfolding s2_def by (rule client_step.call) (simp_all add: s1 del: One_nat_def)
  have q: "cs_queue s2 = [0, 1]" "cs_returned s2 = []" by (simp_all add: s2_def start_call_def Let_def s1)
  have "reachable (\<lambda>s. s = system_of cl) (client_step sample_deps) s" unfolding reachable_def using r by blast
  from failed_leader_call_hangs[OF this c f step1, of "[Call 1 StepDown None]" s2] step2
  have "cl_leader (cs_client s2) = Some 1" by (auto intro: run.intros)
  then show ?thesis using cl(1) r q step1 step2 by (intro exI[of _ cl] exI[of _ s] exI[of _ s2]) (auto intro: run.intros)
qed


text \<open>A network with one server, whose manager answers success; its streams are in memory.\<close>

record loop_net =
  ln_out :: bytes
  ln_in :: bytes
  ln_peer :: "(bytes, bytes, nat) mgmt_handler"

definition step_down :: ManagementRequest where
  "step_down = \<lparr>mr_operation = StepDown, mr_timeout = Some (from_secs 30), mr_authorization = None\<rparr>"

definition loop_server :: "(bytes, bytes) mgmt_deps" where
  "loop_server = \<lparr>md_writer = mem_writer, md_reader = mem_reader, md_header = header_wire,
     md_request = \<lparr>bin_serialize = (\<lambda>r. Inr [7]), bin_deserialize = (\<lambda>bs. if bs = [7] then Inr step_down else Inl ''unexpected end'')\<rparr>,
     md_response = \<lparr>bin_serialize = (\<lambda>r. Inr [1]), bin_deserialize = (\<lambda>bs. Inr RespSuccess)\<rparr>,
     md_answer = (\<lambda>requests. Some RespSuccess)\<rparr>"

definition loop_deps :: "(unit, string, unit, loop_net) client_deps" where
  "loop_deps = \<lparr>cx_connect = (\<lambda>a n. (Inr (), n)), cx_open_bi = (\<lambda>c n. (Inr (), n\<lparr>ln_out := [], ln_in := []\<rparr>)),
     cx_writer = (\<lambda>s. \<lparr>w_write_all = (\<lambda>bs n. (Inr (), n\<lparr>ln_out := ln_out n @ bs\<rparr>)), w_flush = (\<lambda>n. (Inr (), n))\<rparr>),
     cx_finish = (\<lambda>s n. (Inr (), let p = snd (mgmt_stream_work loop_server ((ln_peer n)\<lparr>mh_recv := ln_out n, mh_send := []\<rparr>))
       in n\<lparr>ln_in := mh_send p, ln_peer := p\<rparr>)),
     cx_reader = (\<lambda>s. \<lparr>r_read_exact = (\<lambda>k n. if k \<le> length (ln_in n) then (Inr (take k (ln_in n)), n\<lparr>ln_in := drop k (ln_in n)\<rparr>)
       else (Inl ''early eof'', n))\<rparr>),
     cx_timeout = (\<lambda>t f n. case f n of (r, n) \<Rightarrow> (Some r, n)), cx_request_id = (\<lambda>n. (replicate 16 0, n)), cx_now = (\<lambda>n. 0),
     cx_header = header_wire, cx_request = md_request loop_server, cx_response = md_response loop_server,
     cx_order = (\<lambda>E. filter (\<lambda>n. fmlookup E n \<noteq> None) [1, 2, 3])\<rparr>"

lemma loop_linked: "linked loop_deps () loop_server ln_out ln_in ln_peer"
  unfolding linked_def
  by (simp add: loop_deps_def loop_server_def writer_ok_def reader_ok_def header_wire_ok Let_def)

definition loop_client :: "(unit, string, loop_net) IrohRaftManagementClient" where
  "loop_client = add_member 2 ''up'' (client_new \<lparr>ln_out = [], ln_in = [], ln_peer = mgmt_handler_new [] []\<rparr>)"

lemma loop_ready: "ready_to_send loop_deps 2 ln_out loop_client () (replicate 16 0) (cl_net loop_client) (loop_client\<lparr>cl_connections := [2 \<mapsto> ()]\<rparr>)"
  unfolding ready_to_send_def
  by (simp add: get_connection_def act_then_apply on_net_def net_try_def loop_deps_def loop_client_def add_member_def client_new_def)

theorem request_reaches_manager_witness:
  "\<exists>cl'. send_request_to_node loop_deps 2 StepDown (from_secs 5) loop_client = (Inr RespSuccess, cl')
     \<and> management_rx (ln_peer (cl_net cl')) = [step_down]"
proof -
  have t: "in_time loop_deps (from_secs 5)" by (simp add: in_time_def loop_deps_def)
  have m: "management_open (ln_peer (cl_net loop_client))" "management_rx (ln_peer (cl_net loop_client)) = []"
    by (simp_all add: loop_client_def add_member_def client_new_def mgmt_handler_new_def)
  from request_reaches_manager[OF loop_linked loop_ready t m(1), of step_down StepDown "[7]" RespSuccess "[1]"] m(2)
  obtain n' where "send_request_to_node loop_deps 2 StepDown (from_secs 5) loop_client = (Inr RespSuccess, loop_client\<lparr>cl_connections := [2 \<mapsto> ()], cl_net := n'\<rparr>)"
    "management_rx (ln_peer n') = [step_down]"
    by (auto simp: step_down_def loop_server_def max_payload)
  then show ?thesis by (intro exI[of _ "loop_client\<lparr>cl_connections := [2 \<mapsto> ()], cl_net := n'\<rparr>"]) simp
qed

theorem ping_always_fails_witness:
  "\<exists>e cl'. ping_node loop_deps 2 loop_client = (Inl e, cl')"
  using ping_always_fails[OF loop_linked loop_ready] by (auto simp: loop_server_def)

end
