(* ===== verification/TestCluster.thy ===== *)
theory TestCluster
  imports Actions Proposals "HOL-Library.Multiset" "HOL-Library.List_Lexorder" "HOL-Library.Char_ord"
begin

text \<open>
  \<open>src/src/test_helpers.rs\<close>: the cluster of simulated nodes that the feature \<open>test-helpers\<close> offers
  for tests of consensus: nodes with a log of their own, partitions, stops and restarts, the wait for
  consensus, the status summary, the temporary directories and the assertions. The file system and
  the crate \<open>tempfile\<close> are parameters. A lock that may be poisoned carries a flag. The
  generators of \<open>proptest\<close> are not modelled, except for the set of partitions one of them yields.
\<close>

section \<open>Nodes\<close>

record 'a rwlock =
  lk_value :: 'a
  lk_poisoned :: bool

definition rwlock_new :: "'a \<Rightarrow> 'a rwlock" where
  "rwlock_new a = \<lparr>lk_value = a, lk_poisoned = False\<rparr>"

type_synonym path = string

record TestNode =
  tn_id :: u64
  tn_data_dir :: path
  tn_is_running :: bool
  tn_is_isolated :: bool
  tn_committed_entries :: "ProposalData list rwlock"
  tn_current_term :: u64
  tn_is_leader :: "bool rwlock"

definition test_node_new :: "u64 \<Rightarrow> path \<Rightarrow> RaftError + TestNode" where
  "test_node_new i data_dir = Inr \<lparr>tn_id = i, tn_data_dir = data_dir, tn_is_running = True, tn_is_isolated = False,
     tn_committed_entries = rwlock_new [], tn_current_term = 0, tn_is_leader = rwlock_new False\<rparr>"

definition node_propose :: "ProposalData \<Rightarrow> (TestNode, unit) action" where
  "node_propose data = act_with id (\<lambda>n.
     if \<not> tn_is_running n then act_fail (NotReady (tn_id n) ''propose'' ''node is not running'')
     else if tn_is_isolated n then act_fail (NetworkPartition ''node is network isolated'')
     else if lk_poisoned (tn_committed_entries n)
     then act_fail (LockPoisoned ''propose'' ''committed_entries lock poisoned'')
     else act_update (\<lambda>n. n\<lparr>tn_committed_entries :=
       (tn_committed_entries n)\<lparr>lk_value := lk_value (tn_committed_entries n) @ [data]\<rparr>\<rparr>))"

definition get_committed_state :: "TestNode \<Rightarrow> RaftError + ProposalData list" where
  "get_committed_state n = (if lk_poisoned (tn_committed_entries n)
     then Inl (LockPoisoned ''get_committed_state'' ''committed_entries lock poisoned'')
     else Inr (lk_value (tn_committed_entries n)))"

definition set_network_isolation :: "bool \<Rightarrow> (TestNode, unit) action" where
  "set_network_isolation isolated = act_update (\<lambda>n. n\<lparr>tn_is_isolated := isolated\<rparr>)"

definition set_leader :: "string \<Rightarrow> bool \<Rightarrow> (TestNode, unit) action" where
  "set_leader operation b = act_with id (\<lambda>n.
     if lk_poisoned (tn_is_leader n) then act_fail (LockPoisoned operation ''is_leader lock poisoned'')
     else act_update (\<lambda>n. n\<lparr>tn_is_leader := (tn_is_leader n)\<lparr>lk_value := b\<rparr>\<rparr>))"

definition node_stop :: "(TestNode, unit) action" where
  "node_stop = act_then (act_update (\<lambda>n. n\<lparr>tn_is_running := False\<rparr>)) (\<lambda>_. set_leader ''stop'' False)"

definition node_restart :: "(TestNode, unit) action" where
  "node_restart = act_update (\<lambda>n. n\<lparr>tn_is_running := True, tn_is_isolated := False\<rparr>)"

definition become_leader :: "(TestNode, unit) action" where
  "become_leader = set_leader ''become_leader'' True"

definition step_down :: "(TestNode, unit) action" where
  "step_down = set_leader ''step_down'' False"

record TestNodeStatus =
  ts_node_id :: u64
  ts_is_running :: bool
  ts_is_leader :: bool
  ts_is_isolated :: bool
  ts_current_term :: u64
  ts_committed_entries_count :: nat

text \<open>Reading the status of a node clears the poison of its leader flag.\<close>

definition get_status :: "TestNode \<Rightarrow> TestNodeStatus \<times> TestNode" where
  "get_status n =
     (\<lparr>ts_node_id = tn_id n, ts_is_running = tn_is_running n, ts_is_leader = lk_value (tn_is_leader n),
       ts_is_isolated = tn_is_isolated n, ts_current_term = tn_current_term n,
       ts_committed_entries_count = (if lk_poisoned (tn_committed_entries n) then 0
         else length (lk_value (tn_committed_entries n)))\<rparr>,
      n\<lparr>tn_is_leader := (tn_is_leader n)\<lparr>lk_poisoned := False\<rparr>\<rparr>)"

lemmas node_defs = test_node_new_def rwlock_new_def node_propose_def get_committed_state_def set_network_isolation_def
  set_leader_def node_stop_def node_restart_def become_leader_def step_down_def get_status_def

section \<open>Temporary directories\<close>

text \<open>
  \<open>tempdir_new\<close> and \<open>tempdir_drop\<close> are \<open>tempfile::tempdir\<close> and the destructor of its value; the rest is
  \<open>std::fs\<close>.
\<close>

record 'fs fs_ops =
  tempdir_new :: "'fs \<Rightarrow> (error_text + path) \<times> 'fs"
  tempdir_drop :: "path \<Rightarrow> 'fs \<Rightarrow> 'fs"
  fs_create_dir_all :: "path \<Rightarrow> 'fs \<Rightarrow> (error_text + unit) \<times> 'fs"
  fs_remove_dir_all :: "path \<Rightarrow> 'fs \<Rightarrow> (error_text + unit) \<times> 'fs"
  fs_exists :: "path \<Rightarrow> 'fs \<Rightarrow> bool"

text \<open>\<open>Path::join\<close> on Unix: an absolute path replaces the whole.\<close>

definition path_join :: "path \<Rightarrow> path \<Rightarrow> path" where
  "path_join p s = (if s \<noteq> [] \<and> hd s = CHR ''/'' then s
     else if p = [] \<or> last p = CHR ''/'' then p @ s else p @ ''/'' @ s)"

definition io_step :: "string \<Rightarrow> ('fs \<Rightarrow> (error_text + 'a) \<times> 'fs) \<Rightarrow> ('fs, 'a) action" where
  "io_step operation f = (\<lambda>fs. case f fs of (r, fs') \<Rightarrow> (map_err (Io operation) r, fs'))"

record TempDir =
  td_path :: path
  td_tempdir :: path

definition drop_tempdir :: "'fs fs_ops \<Rightarrow> TempDir \<Rightarrow> 'fs \<Rightarrow> 'fs" where
  "drop_tempdir E d = tempdir_drop E (td_tempdir d)"

text \<open>When the subdirectory cannot be made, the temporary directory is dropped on the way out.\<close>

definition temp_dir_new :: "'fs fs_ops \<Rightarrow> string \<Rightarrow> ('fs, TempDir) action" where
  "temp_dir_new E prefix = act_then (io_step ''create_temp_dir'' (tempdir_new E)) (\<lambda>dir.
     (\<lambda>fs. let path = path_join dir prefix in
       case io_step ''create_temp_subdir'' (fs_create_dir_all E path) fs of
         (Inl e, fs') \<Rightarrow> (Inl e, tempdir_drop E dir fs')
       | (Inr _, fs') \<Rightarrow> (Inr \<lparr>td_path = path, td_tempdir = dir\<rparr>, fs')))"

definition create_subdir :: "'fs fs_ops \<Rightarrow> TempDir \<Rightarrow> string \<Rightarrow> ('fs, path) action" where
  "create_subdir E d name = (let subdir = path_join (td_path d) name in
     act_then (io_step ''create_subdir'' (fs_create_dir_all E subdir)) (\<lambda>_. act_return subdir))"

text \<open>The value made by \<open>TempDir::new\<close> lives only as long as this function.\<close>

definition create_temp_dir :: "'fs fs_ops \<Rightarrow> string \<Rightarrow> ('fs, path) action" where
  "create_temp_dir E prefix = act_then (temp_dir_new E prefix) (\<lambda>d.
     act_then (act_update (drop_tempdir E d)) (\<lambda>_. act_return (td_path d)))"

lemmas temp_defs = io_step_def drop_tempdir_def temp_dir_new_def create_subdir_def create_temp_dir_def

section \<open>The cluster\<close>

record TestCluster =
  tc_nodes :: "TestNode list"
  tc_cluster_size :: nat
  tc_next_node_id :: u64
  tc_test_name :: string
  tc_temp_dirs :: "path list"

definition node_prefix :: "string \<Rightarrow> u64 \<Rightarrow> string" where
  "node_prefix name i = name @ ''-node-'' @ show_nat (unat i)"

definition make_node :: "'fs fs_ops \<Rightarrow> string \<Rightarrow> u64 \<Rightarrow> ('fs, path \<times> TestNode) action" where
  "make_node E name i = act_then (create_temp_dir E (node_prefix name i)) (\<lambda>dir.
     case test_node_new i dir of Inl e \<Rightarrow> act_fail e | Inr n \<Rightarrow> act_return (dir, n))"

fun make_nodes :: "'fs fs_ops \<Rightarrow> string \<Rightarrow> nat list \<Rightarrow> ('fs, (path \<times> TestNode) list) action" where
  "make_nodes E name [] = act_return []"
| "make_nodes E name (i # is) = act_then (make_node E name (of_nat i + 1)) (\<lambda>n.
     act_then (make_nodes E name is) (\<lambda>ns. act_return (n # ns)))"

definition cluster_with_name :: "'fs fs_ops \<Rightarrow> nat \<Rightarrow> string \<Rightarrow> ('fs, TestCluster) action" where
  "cluster_with_name E n_nodes name =
     (if n_nodes = 0 then act_fail (InvalidInput ''cluster_size'' ''cluster n_nodes must be at least 1'')
      else act_then (make_nodes E name [0..<n_nodes]) (\<lambda>ns.
        act_return \<lparr>tc_nodes = map snd ns, tc_cluster_size = n_nodes, tc_next_node_id = of_nat n_nodes + 1,
          tc_test_name = name, tc_temp_dirs = map fst ns\<rparr>))"

definition cluster_new :: "'fs fs_ops \<Rightarrow> nat \<Rightarrow> ('fs, TestCluster) action" where
  "cluster_new E n_nodes = cluster_with_name E n_nodes ''test-cluster''"

definition cluster_node :: "nat \<Rightarrow> TestCluster \<Rightarrow> TestNode option" where
  "cluster_node index c = (if index < length (tc_nodes c) then Some (tc_nodes c ! index) else None)"

definition node_ids :: "TestCluster \<Rightarrow> u64 list" where
  "node_ids c = map tn_id (tc_nodes c)"

text \<open>The loop over the nodes stops at the first that accepts.\<close>

fun propose_first :: "ProposalData \<Rightarrow> TestNode list \<Rightarrow> bool \<times> TestNode list" where
  "propose_first data [] = (False, [])"
| "propose_first data (n # ns) = (case node_propose data n of
     (Inr _, n') \<Rightarrow> (True, n' # ns)
   | (Inl _, n') \<Rightarrow> (case propose_first data ns of (b, ns') \<Rightarrow> (b, n' # ns')))"

definition cluster_propose :: "bytes \<Rightarrow> (TestCluster, unit) action" where
  "cluster_propose data = (\<lambda>c. case propose_first (Raw data) (tc_nodes c) of (b, ns) \<Rightarrow>
     (if b then Inr () else Inl (ProposalRejected ''cluster_propose'' ''no node could accept the proposal''),
      c\<lparr>tc_nodes := ns\<rparr>))"

definition check_consensus :: "TestCluster \<Rightarrow> bool" where
  "check_consensus c = (case tc_nodes c of [] \<Rightarrow> True
   | n # ns \<Rightarrow> (case get_committed_state n of Inl _ \<Rightarrow> False
       | Inr reference_state \<Rightarrow> list_all (\<lambda>m. case get_committed_state m of
           Inr state \<Rightarrow> state = reference_state | Inl _ \<Rightarrow> False) ns))"

text \<open>
  \<open>clock n\<close> is the reading of \<open>start.elapsed()\<close> at the n-th turn. The cluster is borrowed for the whole
  wait and nobody else holds its nodes, so each turn checks the same cluster.
\<close>

partial_function (option) wait_loop :: "(nat \<Rightarrow> duration) \<Rightarrow> duration \<Rightarrow> TestCluster \<Rightarrow> nat \<Rightarrow> (RaftError + unit) option" where
  "wait_loop clock limit c n =
     (if clock n < limit
      then if check_consensus c then Some (Inr ()) else wait_loop clock limit c (Suc n)
      else Some (Inl (Timeout ''wait_for_consensus'' limit)))"

definition wait_for_consensus_with_timeout :: "(nat \<Rightarrow> duration) \<Rightarrow> duration \<Rightarrow> TestCluster \<Rightarrow> (RaftError + unit) option" where
  "wait_for_consensus_with_timeout clock limit c = wait_loop clock limit c 0"

definition wait_for_consensus :: "(nat \<Rightarrow> duration) \<Rightarrow> TestCluster \<Rightarrow> (RaftError + unit) option" where
  "wait_for_consensus clock = wait_for_consensus_with_timeout clock (from_secs 30)"

text \<open>\<open>assert_all_nodes_agree\<close> panics with None.\<close>

definition assert_all_nodes_agree :: "TestCluster \<Rightarrow> unit option" where
  "assert_all_nodes_agree c = (if check_consensus c then Some () else None)"

text \<open>A method of one node, run on the node at a position.\<close>

definition on_node :: "nat \<Rightarrow> (TestNode, 'a) action \<Rightarrow> (TestCluster, 'a) action" where
  "on_node index f = (\<lambda>c. case f (tc_nodes c ! index) of
     (r, n) \<Rightarrow> (r, c\<lparr>tc_nodes := (tc_nodes c)[index := n]\<rparr>))"

definition create_network_partition :: "nat list \<Rightarrow> (TestCluster, unit) action" where
  "create_network_partition isolated_nodes = act_each (\<lambda>index. act_with tc_nodes (\<lambda>ns.
     if index < length ns then on_node index (set_network_isolation True) else act_return ())) isolated_nodes"

definition heal_network_partition :: "(TestCluster, unit) action" where
  "heal_network_partition = act_with tc_nodes (\<lambda>ns.
     act_each (\<lambda>index. on_node index (set_network_isolation False)) [0..<length ns])"

definition invalid_index :: "nat \<Rightarrow> RaftError" where
  "invalid_index index = InvalidInput ''node_index'' (''invalid node index: '' @ show_nat index)"

definition stop_node :: "nat \<Rightarrow> (TestCluster, unit) action" where
  "stop_node index = act_with tc_nodes (\<lambda>ns.
     if index < length ns then on_node index node_stop else act_fail (invalid_index index))"

definition restart_node :: "nat \<Rightarrow> (TestCluster, unit) action" where
  "restart_node index = act_with tc_nodes (\<lambda>ns.
     if index < length ns then on_node index node_restart else act_fail (invalid_index index))"

text \<open>Adding a node works on the cluster and the file system.\<close>

definition on_cluster :: "(TestCluster \<Rightarrow> TestCluster) \<Rightarrow> (TestCluster \<times> 'fs, unit) action" where
  "on_cluster f = act_update (\<lambda>(c, fs). (f c, fs))"

definition on_fs :: "('fs, 'a) action \<Rightarrow> (TestCluster \<times> 'fs, 'a) action" where
  "on_fs f = (\<lambda>(c, fs). case f fs of (r, fs') \<Rightarrow> (r, (c, fs')))"

definition add_node :: "'fs fs_ops \<Rightarrow> (TestCluster \<times> 'fs, u64) action" where
  "add_node E = act_with fst (\<lambda>c. let node_id = tc_next_node_id c in
     act_then (on_cluster (\<lambda>c. c\<lparr>tc_next_node_id := tc_next_node_id c + 1\<rparr>)) (\<lambda>_.
     act_then (on_fs (create_temp_dir E (node_prefix (tc_test_name c) node_id))) (\<lambda>dir.
     act_then (on_cluster (\<lambda>c. c\<lparr>tc_temp_dirs := tc_temp_dirs c @ [dir]\<rparr>)) (\<lambda>_.
     case test_node_new node_id dir of
       Inl e \<Rightarrow> act_fail e
     | Inr n \<Rightarrow> act_then (on_cluster (\<lambda>c. c\<lparr>tc_nodes := tc_nodes c @ [n], tc_cluster_size := tc_cluster_size c + 1\<rparr>)) (\<lambda>_.
         act_return node_id)))))"

fun position_of :: "u64 \<Rightarrow> TestNode list \<Rightarrow> nat option" where
  "position_of i [] = None"
| "position_of i (n # ns) = (if tn_id n = i then Some 0 else map_option Suc (position_of i ns))"

text \<open>The node is taken out of the list before it is stopped; \<open>cluster_size\<close> comes last.\<close>

definition remove_node :: "u64 \<Rightarrow> (TestCluster, unit) action" where
  "remove_node node_id = act_with tc_nodes (\<lambda>ns. case position_of node_id ns of
     None \<Rightarrow> act_fail (NodeNotFound node_id)
   | Some p \<Rightarrow> act_then (act_update (\<lambda>c. c\<lparr>tc_nodes := take p ns @ drop (Suc p) ns\<rparr>)) (\<lambda>_.
       case fst (node_stop (ns ! p)) of
         Inl e \<Rightarrow> act_fail e
       | Inr _ \<Rightarrow> act_update (\<lambda>c. c\<lparr>tc_cluster_size := tc_cluster_size c - 1\<rparr>)))"

definition drop_cluster :: "'fs fs_ops \<Rightarrow> TestCluster \<Rightarrow> 'fs \<Rightarrow> 'fs" where
  "drop_cluster E c fs = fold (\<lambda>dir fs. if fs_exists E dir fs then snd (fs_remove_dir_all E dir fs) else fs) (tc_temp_dirs c) fs"

section \<open>Status\<close>

record TestClusterStatus =
  cs_total_nodes :: nat
  cs_active_nodes :: nat
  cs_leader_id :: "u64 option"
  cs_nodes :: "u64 \<rightharpoonup> TestNodeStatus"

definition status_add :: "TestNodeStatus \<Rightarrow> u64 \<Rightarrow> TestClusterStatus \<Rightarrow> TestClusterStatus" where
  "status_add s i st = st\<lparr>
     cs_leader_id := (if ts_is_leader s then Some i else cs_leader_id st),
     cs_active_nodes := (if ts_is_running s then cs_active_nodes st + 1 else cs_active_nodes st),
     cs_nodes := (cs_nodes st)(i \<mapsto> s)\<rparr>"

definition get_cluster_status :: "TestCluster \<Rightarrow> TestClusterStatus \<times> TestCluster" where
  "get_cluster_status c =
     ((fold (\<lambda>n. status_add (fst (get_status n)) (tn_id n)) (tc_nodes c)
        \<lparr>cs_total_nodes = 0, cs_active_nodes = 0, cs_leader_id = None, cs_nodes = Map.empty\<rparr>)
        \<lparr>cs_total_nodes := length (tc_nodes c)\<rparr>,
      c\<lparr>tc_nodes := map (\<lambda>n. snd (get_status n)) (tc_nodes c)\<rparr>)"

definition has_leader :: "TestClusterStatus \<Rightarrow> bool" where
  "has_leader st \<longleftrightarrow> cs_leader_id st \<noteq> None"

definition has_majority :: "TestClusterStatus \<Rightarrow> bool" where
  "has_majority st \<longleftrightarrow> cs_active_nodes st > cs_total_nodes st div 2"

definition leader_status :: "TestClusterStatus \<Rightarrow> TestNodeStatus option" where
  "leader_status st = Option.bind (cs_leader_id st) (cs_nodes st)"

section \<open>Assertions, partitions and test runs\<close>

text \<open>
  Two collections of proposals are equivalent when their sorted renderings are equal; \<open>to_json\<close>
  is what \<open>serde_json::to_string\<close> renders. A failed assertion is None.
\<close>

definition assert_proposals_equivalent :: "(ProposalData \<Rightarrow> string) \<Rightarrow> ProposalData list \<Rightarrow> ProposalData list \<Rightarrow> unit option" where
  "assert_proposals_equivalent to_json expected actual =
     (if length expected \<noteq> length actual then None
      else if sort (map to_json expected) = sort (map to_json actual) then Some () else None)"

definition assert_cluster_has_leader :: "TestCluster \<Rightarrow> unit option" where
  "assert_cluster_has_leader c = (if has_leader (fst (get_cluster_status c)) then Some () else None)"

definition assert_cluster_majority_available :: "TestCluster \<Rightarrow> unit option" where
  "assert_cluster_majority_available c = (if has_majority (fst (get_cluster_status c)) then Some () else None)"

text \<open>What \<open>partition_strategy\<close> may generate for a cluster of a size.\<close>

definition partition_generated :: "nat \<Rightarrow> nat list \<Rightarrow> bool" where
  "partition_generated cluster_size xs \<longleftrightarrow>
     length xs \<le> min (cluster_size div 2) (cluster_size - 1) \<and> list_all (\<lambda>i. i < cluster_size) xs"

text \<open>How a spawned test ends: with its result, or as a task that panicked.\<close>

datatype 'a joined = Joined "RaftError + 'a" | JoinError error_text

fun collect_joined :: "string \<Rightarrow> nat \<Rightarrow> 'a joined list \<Rightarrow> RaftError + 'a list" where
  "collect_joined test_name i [] = Inr []"
| "collect_joined test_name i (h # hs) = (case h of
     Joined (Inr result) \<Rightarrow> and_then (collect_joined test_name (Suc i) hs) (\<lambda>results. Inr (result # results))
   | Joined (Inl e) \<Rightarrow> Inl e
   | JoinError text \<Rightarrow> Inl (System (''concurrent_test_'' @ test_name @ ''_'' @ show_nat i) (''task join error: '' @ text)))"

definition run_concurrent_tests :: "string \<Rightarrow> 'a joined list \<Rightarrow> RaftError + 'a list" where
  "run_concurrent_tests test_name handles = collect_joined test_name 0 handles"

definition run_test_with_timeout :: "(RaftError + 'a) option \<Rightarrow> duration \<Rightarrow> string \<Rightarrow> RaftError + 'a" where
  "run_test_with_timeout outcome limit test_name = (case outcome of
     Some result \<Rightarrow> result
   | None \<Rightarrow> Inl (Timeout (''test_'' @ test_name) limit))"


section \<open>Proposing and consensus\<close>

definition accepts :: "TestNode \<Rightarrow> bool" where
  "accepts n \<longleftrightarrow> tn_is_running n \<and> \<not> tn_is_isolated n \<and> \<not> lk_poisoned (tn_committed_entries n)"

definition pushed :: "ProposalData \<Rightarrow> TestNode \<Rightarrow> TestNode" where
  "pushed data n = n\<lparr>tn_committed_entries :=
     (tn_committed_entries n)\<lparr>lk_value := lk_value (tn_committed_entries n) @ [data]\<rparr>\<rparr>"

lemma node_propose_accepts: "accepts n \<Longrightarrow> node_propose data n = (Inr (), pushed data n)"
  by (simp add: accepts_def pushed_def node_propose_def)

lemma node_propose_refuses: "\<not> accepts n \<Longrightarrow> \<exists>e. node_propose data n = (Inl e, n)"
  by (auto simp: accepts_def node_propose_def)

lemma propose_first_none: "list_all (Not \<circ> accepts) ns \<Longrightarrow> propose_first data ns = (False, ns)"
proof (induction ns)
  case (Cons n ns)
  then obtain e where "node_propose data n = (Inl e, n)" using node_propose_refuses[of n data] by auto
  with Cons show ?case by simp
qed simp

lemma propose_first_some:
  "list_all (Not \<circ> accepts) xs \<Longrightarrow> accepts n \<Longrightarrow>
   propose_first data (xs @ n # ys) = (True, xs @ pushed data n # ys)"
proof (induction xs)
  case Nil
  then show ?case by (simp add: node_propose_accepts)
next
  case (Cons x xs)
  then obtain e where "node_propose data x = (Inl e, x)" using node_propose_refuses[of x data] by auto
  with Cons show ?case by simp
qed

lemma propose_first_iff: "fst (propose_first data ns) \<longleftrightarrow> list_ex accepts ns"
proof (cases "list_ex accepts ns")
  case True
  then obtain xs n ys where "ns = xs @ n # ys" "accepts n" "\<forall>x\<in>set xs. \<not> accepts x"
    using split_list_first_prop[of ns accepts] by (auto simp: list_ex_iff)
  then show ?thesis using propose_first_some[of xs n data ys] True by (auto simp: list_all_iff)
next
  case False
  then have "list_all (Not \<circ> accepts) ns" by (auto simp: list_all_iff list_ex_iff)
  then show ?thesis using False by (simp add: propose_first_none)
qed

lemma cluster_propose_okE:
  assumes "cluster_propose data c = (Inr (), c')"
  obtains xs n ys where "tc_nodes c = xs @ n # ys" and "list_all (Not \<circ> accepts) xs" and "accepts n"
    and "c' = c\<lparr>tc_nodes := xs @ pushed (Raw data) n # ys\<rparr>"
proof -
  have "list_ex accepts (tc_nodes c)" using assms propose_first_iff[of "Raw data" "tc_nodes c"]
    by (cases "propose_first (Raw data) (tc_nodes c)") (auto simp: cluster_propose_def split: if_splits)
  then obtain xs n ys where s: "tc_nodes c = xs @ n # ys" "accepts n" "\<forall>x\<in>set xs. \<not> accepts x"
    using split_list_first_prop[of "tc_nodes c" accepts] by (auto simp: list_ex_iff)
  moreover from s have "list_all (Not \<circ> accepts) xs" by (simp add: list_all_iff)
  ultimately show ?thesis using that propose_first_some[of xs n "Raw data" ys] assms
    by (auto simp: cluster_propose_def)
qed

lemma check_consensus_iff:
  "check_consensus c \<longleftrightarrow> (\<exists>state. \<forall>n\<in>set (tc_nodes c). get_committed_state n = Inr state)"
proof (cases "tc_nodes c")
  case Nil
  then show ?thesis by (simp add: check_consensus_def)
next
  case (Cons n ns)
  show ?thesis
  proof (cases "get_committed_state n")
    case (Inl e)
    then show ?thesis using Cons by (auto simp: check_consensus_def)
  next
    case (Inr state)
    have "(case get_committed_state m of Inr s \<Rightarrow> s = state | Inl _ \<Rightarrow> False) \<longleftrightarrow> get_committed_state m = Inr state" for m
      by (simp split: sum.split)
    with Cons Inr show ?thesis by (auto simp: check_consensus_def list_all_iff)
  qed
qed

lemma pushed_state: "accepts n \<Longrightarrow> get_committed_state n = Inr s \<Longrightarrow> get_committed_state (pushed d n) = Inr (s @ [d])"
  by (auto simp: get_committed_state_def pushed_def accepts_def)

lemma proposed_no_consensus:
  assumes agree: "check_consensus c" and p: "cluster_propose data c = (Inr (), c')" and two: "2 \<le> length (tc_nodes c)"
  shows "\<not> check_consensus c'"
proof -
  from p obtain xs n ys where s: "tc_nodes c = xs @ n # ys" "accepts n" "c' = c\<lparr>tc_nodes := xs @ pushed (Raw data) n # ys\<rparr>"
    by (rule cluster_propose_okE)
  from agree obtain st where st: "\<And>m. m \<in> set (tc_nodes c) \<Longrightarrow> get_committed_state m = Inr st"
    by (auto simp: check_consensus_iff)
  with s have new: "get_committed_state (pushed (Raw data) n) = Inr (st @ [Raw data])" by (simp add: pushed_state)
  from two s obtain m where m: "m \<in> set (xs @ ys)" by (cases xs; cases ys) auto
  with st s have old: "get_committed_state m = Inr st" by auto
  show ?thesis
  proof
    assume "check_consensus c'"
    then obtain st' where "\<And>k. k \<in> set (tc_nodes c') \<Longrightarrow> get_committed_state k = Inr st'"
      by (auto simp: check_consensus_iff)
    from this[of m] this[of "pushed (Raw data) n"] old new m s show False by auto
  qed
qed

text \<open>Each turn but the last sleeps for 100 ms, so the wait is over after ten turns a second.\<close>

definition sleeps :: "(nat \<Rightarrow> duration) \<Rightarrow> bool" where
  "sleeps clock \<longleftrightarrow> (\<forall>n. clock n + from_millis 100 \<le> clock (Suc n))"

lemma sleeps_grows: "sleeps clock \<Longrightarrow> clock m + n * from_millis 100 \<le> clock (m + n)"
proof (induction n)
  case (Suc n)
  then have "clock (m + n) + from_millis 100 \<le> clock (Suc (m + n))" by (simp add: sleeps_def)
  with Suc show ?case by simp
qed simp

lemma wait_loop_agreed: "clock n < limit \<Longrightarrow> check_consensus c \<Longrightarrow> wait_loop clock limit c n = Some (Inr ())"
  by (simp add: wait_loop.simps)

lemma wait_loop_late: "limit \<le> clock n \<Longrightarrow> wait_loop clock limit c n = Some (Inl (Timeout ''wait_for_consensus'' limit))"
  by (simp add: wait_loop.simps)

lemma wait_loop_disagreed:
  assumes clock: "sleeps clock" and no: "\<not> check_consensus c"
  shows "wait_loop clock limit c n = Some (Inl (Timeout ''wait_for_consensus'' limit))"
proof (induction "limit - clock n" arbitrary: n rule: less_induct)
  case less
  show ?case
  proof (cases "clock n < limit")
    case True
    have "clock n < clock (Suc n)" using clock by (auto simp: sleeps_def from_millis_def dest: spec[of _ n])
    with True have "limit - clock (Suc n) < limit - clock n" by simp
    then show ?thesis using less[of "Suc n"] no True by (simp add: wait_loop.simps[of _ _ _ n])
  qed (simp add: wait_loop_late)
qed

lemma wait_decides:
  assumes "sleeps clock"
  shows "wait_for_consensus_with_timeout clock limit c =
    Some (if clock 0 < limit \<and> check_consensus c then Inr () else Inl (Timeout ''wait_for_consensus'' limit))"
  using assms wait_loop_agreed[of clock 0 limit c] wait_loop_late[of limit clock 0 c] wait_loop_disagreed[of clock c limit 0]
  by (auto simp: wait_for_consensus_with_timeout_def)

text \<open>
  C27: The wait for consensus always returns, and a successful proposal is what it never
  survives: on two or more nodes that agree, the proposal is stored by the first node that accepts it
  and by no other, so the nodes no longer agree, the wait of the documented example runs into its
  timeout of 30 seconds whatever the clock does, and the assertion that all agree panics.
\<close>

theorem propose_breaks_consensus:
  assumes "check_consensus c" and "cluster_propose data c = (Inr (), c')" and "2 \<le> length (tc_nodes c)" and "sleeps clock"
  shows "wait_for_consensus clock c' = Some (Inl (Timeout ''wait_for_consensus'' (from_secs 30))) \<and>
    assert_all_nodes_agree c' = None"
  using proposed_no_consensus[OF assms(1-3)] assms(4)
  by (simp add: wait_for_consensus_def wait_decides assert_all_nodes_agree_def)


section \<open>What every operation keeps\<close>

text \<open>The operations a test may call on a cluster, those on one of its nodes included.\<close>

datatype cluster_op = Propose bytes | Partition "nat list" | Heal | StopNode nat | RestartNode nat | AddNodeOp
  | RemoveNodeOp u64 | ReadStatus | NodeProposes nat ProposalData | Isolate nat bool | BecomeLeader nat | StepDown nat

text \<open>\<open>node_mut\<close> gives the node at an index, if there is one.\<close>

definition node_mut :: "nat \<Rightarrow> (TestNode, unit) action \<Rightarrow> (TestCluster, unit) action" where
  "node_mut index f = act_with tc_nodes (\<lambda>ns. if index < length ns then on_node index f else act_return ())"

definition run_op :: "'fs fs_ops \<Rightarrow> cluster_op \<Rightarrow> TestCluster \<times> 'fs \<Rightarrow> TestCluster \<times> 'fs" where
  "run_op E x = (\<lambda>(c, fs). case x of
     Propose data \<Rightarrow> (snd (cluster_propose data c), fs)
   | Partition is \<Rightarrow> (snd (create_network_partition is c), fs)
   | Heal \<Rightarrow> (snd (heal_network_partition c), fs)
   | StopNode i \<Rightarrow> (snd (stop_node i c), fs)
   | RestartNode i \<Rightarrow> (snd (restart_node i c), fs)
   | AddNodeOp \<Rightarrow> snd (add_node E (c, fs))
   | RemoveNodeOp i \<Rightarrow> (snd (remove_node i c), fs)
   | ReadStatus \<Rightarrow> (snd (get_cluster_status c), fs)
   | NodeProposes i data \<Rightarrow> (snd (node_mut i (node_propose data) c), fs)
   | Isolate i b \<Rightarrow> (snd (node_mut i (set_network_isolation b) c), fs)
   | BecomeLeader i \<Rightarrow> (snd (node_mut i become_leader c), fs)
   | StepDown i \<Rightarrow> (snd (node_mut i step_down c), fs))"

text \<open>No node panics while it holds a lock, so none is ever poisoned.\<close>

definition healthy :: "TestNode \<Rightarrow> bool" where
  "healthy n \<longleftrightarrow> \<not> lk_poisoned (tn_committed_entries n) \<and> \<not> lk_poisoned (tn_is_leader n)"

definition cluster_inv :: "TestCluster \<Rightarrow> bool" where
  "cluster_inv c \<longleftrightarrow> tc_cluster_size c = length (tc_nodes c) \<and> list_all healthy (tc_nodes c) \<and>
     distinct (node_ids c) \<and> 0 < tc_next_node_id c \<and> list_all (\<lambda>i. 0 < i \<and> i < tc_next_node_id c) (node_ids c)"

definition keeps_node :: "(TestNode, unit) action \<Rightarrow> bool" where
  "keeps_node f \<longleftrightarrow> (\<forall>n. healthy n \<longrightarrow> tn_id (snd (f n)) = tn_id n \<and> healthy (snd (f n)))"

lemma keeps_node_set_leader [simp]: "keeps_node (set_leader operation b)"
  by (simp add: keeps_node_def set_leader_def healthy_def)

lemma keeps_node_methods [simp]:
  "keeps_node (node_propose data)" "keeps_node (set_network_isolation b)" "keeps_node node_stop" "keeps_node node_restart"
  "keeps_node become_leader" "keeps_node step_down"
  using keeps_node_set_leader[unfolded keeps_node_def]
  by (simp_all add: keeps_node_def node_propose_def set_network_isolation_def node_stop_def node_restart_def
      become_leader_def step_down_def healthy_def)

lemma keeps_nodeD: "keeps_node f \<Longrightarrow> healthy n \<Longrightarrow> tn_id (snd (f n)) = tn_id n \<and> healthy (snd (f n))"
  by (simp add: keeps_node_def)

lemma cluster_inv_same_ids:
  "cluster_inv c \<Longrightarrow> map tn_id ns = map tn_id (tc_nodes c) \<Longrightarrow> list_all healthy ns \<Longrightarrow> cluster_inv (c\<lparr>tc_nodes := ns\<rparr>)"
  by (auto simp: cluster_inv_def node_ids_def dest: map_eq_imp_length_eq)

lemma on_node_keeps:
  assumes "keeps_node f" and "cluster_inv c" and "i < length (tc_nodes c)"
  shows "cluster_inv (snd (on_node i f c))"
proof -
  let ?n = "tc_nodes c ! i"
  obtain r n' where r: "f ?n = (r, n')" by fastforce
  have "healthy ?n" using assms(2,3) by (simp add: cluster_inv_def list_all_length)
  then have n': "tn_id n' = tn_id ?n" "healthy n'" using keeps_nodeD[OF assms(1), of ?n] r by auto
  have "map tn_id ((tc_nodes c)[i := n']) = map tn_id (tc_nodes c)"
    using n' assms(3) by (simp add: map_update nth_equalityI list_update_same_conv)
  moreover have "list_all healthy ((tc_nodes c)[i := n'])"
    using assms(2) n' by (auto simp: cluster_inv_def list_all_iff dest: set_update_subset_insert[THEN subsetD])
  ultimately show ?thesis using assms(2) r by (simp add: on_node_def cluster_inv_same_ids)
qed

lemma node_mut_keeps: "keeps_node f \<Longrightarrow> keeps cluster_inv (node_mut i f)"
  unfolding keeps_def node_mut_def using on_node_keeps[of f _ i] by auto

lemma propose_first_ids:
  "list_all healthy ns \<Longrightarrow> map tn_id (snd (propose_first data ns)) = map tn_id ns \<and> list_all healthy (snd (propose_first data ns))"
proof (induction ns)
  case (Cons n ns)
  obtain r n' where r: "node_propose data n = (r, n')" by fastforce
  have "tn_id n' = tn_id n \<and> healthy n'" using Cons.prems r keeps_nodeD[of "node_propose data" n] by simp
  with Cons r show ?case by (cases r) (auto split: prod.split)
qed simp

lemma propose_keeps: "cluster_inv c \<Longrightarrow> cluster_inv (snd (cluster_propose data c))"
  using propose_first_ids[of "tc_nodes c" "Raw data"]
  by (auto simp: cluster_propose_def cluster_inv_same_ids cluster_inv_def[of c] split: prod.split)


lemma keeps_at [simp]: "keeps I (act_with f g) \<Longrightarrow> I c \<Longrightarrow> I (snd (g (f c) c))"
  by (simp add: keeps_def)

lemma on_existing_node_keeps: "keeps_node f \<Longrightarrow> keeps cluster_inv (act_with tc_nodes (\<lambda>ns.
    if i < length ns then on_node i f else act_fail e))"
  unfolding keeps_def using on_node_keeps[of f _ i] by auto

lemma partition_keeps: "keeps cluster_inv (create_network_partition is)"
  unfolding create_network_partition_def
  using node_mut_keeps[of "set_network_isolation True"] by (intro keeps_each) (simp add: node_mut_def)

lemma stop_restart_keeps: "keeps cluster_inv (stop_node i)" "keeps cluster_inv (restart_node i)"
  unfolding stop_node_def restart_node_def by (simp_all add: on_existing_node_keeps)

lemma isolated_ids: "snd (on_node i (set_network_isolation b) c) = c\<lparr>tc_nodes := (tc_nodes c)[i := (tc_nodes c ! i)\<lparr>tn_is_isolated := b\<rparr>]\<rparr>"
  by (simp add: on_node_def set_network_isolation_def)

lemma heal_loop:
  "\<forall>i\<in>set is. i < length (tc_nodes c) \<Longrightarrow> cluster_inv c \<Longrightarrow>
   cluster_inv (snd (act_each (\<lambda>index. on_node index (set_network_isolation False)) is c))"
proof (induction "is" arbitrary: c)
  case (Cons i "is")
  obtain c' where r: "on_node i (set_network_isolation False) c = (Inr (), c')"
    by (simp add: on_node_def set_network_isolation_def)
  then have c': "c' = c\<lparr>tc_nodes := (tc_nodes c)[i := (tc_nodes c ! i)\<lparr>tn_is_isolated := False\<rparr>]\<rparr>"
    using isolated_ids[of i False c] by simp
  have "cluster_inv c'" using on_node_keeps[of "set_network_isolation False" c i] Cons.prems r by simp
  then have "cluster_inv (snd (act_each (\<lambda>index. on_node index (set_network_isolation False)) is c'))"
    using Cons.IH[of c'] Cons.prems c' by simp
  with r show ?case by (simp add: act_then_apply)
qed simp

lemma heal_keeps: "cluster_inv c \<Longrightarrow> cluster_inv (snd (heal_network_partition c))"
  by (simp add: heal_network_partition_def heal_loop)

lemma position_of_bound: "position_of i ns = Some p \<Longrightarrow> p < length ns \<and> tn_id (ns ! p) = i"
  by (induction ns arbitrary: p) (auto split: if_splits)

lemma position_of_none: "position_of i ns = None \<longleftrightarrow> i \<notin> tn_id ` set ns"
  by (induction ns) auto

lemma node_stop_ok: "healthy n \<Longrightarrow> \<exists>n'. node_stop n = (Inr (), n')"
  by (simp add: node_stop_def set_leader_def healthy_def)

lemma remove_node_result:
  assumes "cluster_inv c"
  shows "remove_node i c = (case position_of i (tc_nodes c) of None \<Rightarrow> (Inl (NodeNotFound i), c)
    | Some p \<Rightarrow> (Inr (), c\<lparr>tc_nodes := take p (tc_nodes c) @ drop (Suc p) (tc_nodes c), tc_cluster_size := tc_cluster_size c - 1\<rparr>))"
proof (cases "position_of i (tc_nodes c)")
  case (Some p)
  then have "healthy (tc_nodes c ! p)" using assms position_of_bound[OF Some] by (simp add: cluster_inv_def list_all_length)
  then obtain n' where "node_stop (tc_nodes c ! p) = (Inr (), n')" using node_stop_ok by blast
  with Some show ?thesis by (simp add: remove_node_def)
qed (simp add: remove_node_def)

lemma remove_keeps: "cluster_inv c \<Longrightarrow> cluster_inv (snd (remove_node i c))"
proof (cases "position_of i (tc_nodes c)")
  case (Some p)
  assume inv: "cluster_inv c"
  have p: "p < length (tc_nodes c)" using position_of_bound[OF Some] by simp
  let ?ns = "take p (tc_nodes c) @ drop (Suc p) (tc_nodes c)"
  have sub: "set ?ns \<subseteq> set (tc_nodes c)" using set_take_subset[of p "tc_nodes c"] set_drop_subset[of "Suc p" "tc_nodes c"] by auto
  have d: "distinct (map tn_id (take p (tc_nodes c) @ (tc_nodes c ! p) # drop (Suc p) (tc_nodes c)))"
    using inv p by (simp add: cluster_inv_def node_ids_def id_take_nth_drop[symmetric])
  then have "distinct (map tn_id ?ns)" by auto
  with inv p sub show ?thesis
    unfolding remove_node_result[OF inv] by (auto simp: Some cluster_inv_def node_ids_def list_all_iff)
qed (simp add: remove_node_result)

lemma status_keeps: "cluster_inv c \<Longrightarrow> cluster_inv (snd (get_cluster_status c))"
proof -
  assume inv: "cluster_inv c"
  have "map tn_id (map (\<lambda>n. snd (get_status n)) (tc_nodes c)) = map tn_id (tc_nodes c)" by (simp add: get_status_def)
  moreover have "list_all healthy (map (\<lambda>n. snd (get_status n)) (tc_nodes c))"
    using inv by (auto simp: cluster_inv_def list_all_iff get_status_def healthy_def)
  ultimately show ?thesis using inv unfolding get_cluster_status_def by (simp add: cluster_inv_same_ids del: map_map)
qed


text \<open>Adding a node uses the next id up; the id is spent even when no directory could be made.\<close>

lemma add_keeps:
  assumes inv: "cluster_inv c" and small: "Suc (unat (tc_next_node_id c)) < 2 ^ 64"
  shows "cluster_inv (fst (snd (add_node E (c, fs))))
    \<and> tc_next_node_id (fst (snd (add_node E (c, fs)))) = tc_next_node_id c + 1"
proof -
  let ?i = "tc_next_node_id c"
  have less: "i < ?i + 1 \<longleftrightarrow> i < ?i \<or> i = ?i" for i
    using small by (auto simp: word_less_nat_alt unat_word_ariths word_unat_eq_iff)
  have pos: "0 < ?i + 1" using small by (simp add: word_less_nat_alt unat_word_ariths)
  have spent: "cluster_inv (c\<lparr>tc_next_node_id := ?i + 1\<rparr>)"
    using inv by (auto simp: cluster_inv_def node_ids_def list_all_iff less pos)
  obtain r fs' where d: "create_temp_dir E (node_prefix (tc_test_name c) ?i) fs = (r, fs')" by fastforce
  show ?thesis
  proof (cases r)
    case (Inl e)
    then show ?thesis using d spent by (simp add: add_node_def on_cluster_def on_fs_def act_then_apply Let_def)
  next
    case (Inr dir)
    with d inv pos show ?thesis
      by (auto simp: add_node_def on_cluster_def on_fs_def act_then_apply Let_def test_node_new_def cluster_inv_def
          node_ids_def list_all_iff less healthy_def rwlock_new_def)
  qed
qed


lemma keeps_next [simp]:
  "tc_next_node_id (snd (create_network_partition is c)) = tc_next_node_id c"
  "tc_next_node_id (snd (heal_network_partition c)) = tc_next_node_id c"
  "tc_next_node_id (snd (cluster_propose data c)) = tc_next_node_id c"
  "tc_next_node_id (snd (stop_node i c)) = tc_next_node_id c"
  "tc_next_node_id (snd (restart_node i c)) = tc_next_node_id c"
  "tc_next_node_id (snd (node_mut i f c)) = tc_next_node_id c"
proof -
  show "tc_next_node_id (snd (create_network_partition is c)) = tc_next_node_id c"
    unfolding create_network_partition_def
    by (rule keepsD[of "\<lambda>d. tc_next_node_id d = tc_next_node_id c", OF keeps_each _ surjective_pairing])
      (auto simp: keeps_def on_node_def set_network_isolation_def)
  show "tc_next_node_id (snd (heal_network_partition c)) = tc_next_node_id c"
    unfolding heal_network_partition_def
    by (simp, rule keepsD[of "\<lambda>d. tc_next_node_id d = tc_next_node_id c", OF keeps_each _ surjective_pairing])
      (auto simp: keeps_def on_node_def set_network_isolation_def)
qed (simp_all add: cluster_propose_def stop_node_def restart_node_def node_mut_def on_node_def split: prod.split)

lemma remove_next: "cluster_inv c \<Longrightarrow> tc_next_node_id (snd (remove_node i c)) = tc_next_node_id c"
  by (simp add: remove_node_result split: option.split)

lemma op_keeps:
  assumes inv: "cluster_inv c" and small: "Suc (unat (tc_next_node_id c)) < 2 ^ 64"
  shows "cluster_inv (fst (run_op E x (c, fs))) \<and> unat (tc_next_node_id (fst (run_op E x (c, fs)))) \<le> Suc (unat (tc_next_node_id c))"
proof -
  have kept: "cluster_inv (snd (f c))" if "keeps cluster_inv f" for f :: "(TestCluster, unit) action"
    using that inv by (simp add: keeps_def)
  have ad: "unat (tc_next_node_id c + 1) = Suc (unat (tc_next_node_id c))" using small by (simp add: unat_word_ariths)
  show ?thesis
  proof (cases x)
    case AddNodeOp
    then show ?thesis using add_keeps[OF inv small, of E fs] ad by (simp add: run_op_def)
  next
    case ReadStatus
    then show ?thesis using status_keeps[OF inv] by (simp add: run_op_def get_cluster_status_def)
  next
    case (RemoveNodeOp i)
    then show ?thesis using remove_keeps[OF inv] remove_next[OF inv] by (simp add: run_op_def)
  qed (simp_all add: run_op_def kept partition_keeps stop_restart_keeps node_mut_keeps propose_keeps[OF inv] heal_keeps[OF inv])
qed

lemma ops_keep:
  "cluster_inv c \<Longrightarrow> unat (tc_next_node_id c) + length ops < 2 ^ 64 \<Longrightarrow> cluster_inv (fst (fold (run_op E) ops (c, fs)))"
proof (induction ops arbitrary: c fs)
  case (Cons x ops)
  obtain c' fs' where r: "run_op E x (c, fs) = (c', fs')" by fastforce
  with Cons.prems op_keeps[of c E x fs] show ?case using Cons.IH[of c' fs'] by simp
qed simp

text \<open>A new cluster numbers its nodes from 1 and leaves the next number in the counter.\<close>

lemma make_node_okE:
  assumes "make_node E name i fs = (Inr n, fs')"
  obtains "test_node_new i (fst n) = Inr (snd n)"
  using assms that by (auto simp: make_node_def test_node_new_def elim!: act_then_InrE)

lemma make_nodes_ids:
  "make_nodes E name is fs = (Inr ns, fs') \<Longrightarrow>
   map (tn_id \<circ> snd) ns = map (\<lambda>i. of_nat i + 1) is \<and> list_all (healthy \<circ> snd) ns \<and>
   list_all (\<lambda>n. get_committed_state (snd n) = Inr []) ns \<and> list_all (accepts \<circ> snd) ns"
proof (induction "is" arbitrary: ns fs)
  case (Cons i "is")
  from Cons.prems obtain n fs1 ns' where n: "make_node E name (of_nat i + 1) fs = (Inr n, fs1)"
    and ns: "make_nodes E name is fs1 = (Inr ns', fs')" "ns = n # ns'"
    by (auto elim!: act_then_InrE)
  from n have "test_node_new (of_nat i + 1) (fst n) = Inr (snd n)" by (rule make_node_okE)
  then have "snd n = projr (test_node_new (of_nat i + 1) (fst n))" by simp
  then have "tn_id (snd n) = of_nat i + 1 \<and> healthy (snd n) \<and> get_committed_state (snd n) = Inr [] \<and> accepts (snd n)"
    by (simp add: test_node_new_def healthy_def rwlock_new_def get_committed_state_def accepts_def)
  with Cons.IH[OF ns(1)] ns(2) show ?case by simp
qed simp

lemma cluster_with_name_ok:
  assumes "cluster_with_name E n name fs = (Inr c, fs')"
  shows "0 < n \<and> node_ids c = map (\<lambda>i. of_nat i + 1) [0..<n] \<and> tc_cluster_size c = n \<and> tc_next_node_id c = of_nat n + 1 \<and>
    list_all healthy (tc_nodes c) \<and> list_all accepts (tc_nodes c) \<and> check_consensus c"
proof -
  have n: "0 < n" using assms by (auto simp: cluster_with_name_def split: if_splits)
  with assms obtain ns where ns: "make_nodes E name [0..<n] fs = (Inr ns, fs')"
    and c: "c = \<lparr>tc_nodes = map snd ns, tc_cluster_size = n, tc_next_node_id = of_nat n + 1, tc_test_name = name, tc_temp_dirs = map fst ns\<rparr>"
    by (auto simp: cluster_with_name_def elim!: act_then_InrE)
  from make_nodes_ids[OF ns] c n show ?thesis
    by (auto simp: node_ids_def list_all_iff check_consensus_iff)
qed

lemma new_cluster_inv:
  assumes c: "cluster_with_name E n name fs = (Inr c, fs')" and small: "Suc n < 2 ^ 64"
  shows "cluster_inv c \<and> unat (tc_next_node_id c) = Suc n"
proof -
  have u: "unat (of_nat i + 1 :: u64) = Suc i" if "i \<le> n" for i
    using that small by (simp add: unat_word_ariths unat_of_nat)
  have ids: "node_ids c = map (\<lambda>i. of_nat i + 1) [0..<n]" using cluster_with_name_ok[OF c] by simp
  have "0 < (of_nat i + 1 :: u64) \<and> of_nat i + 1 < (of_nat n + 1 :: u64)" if "i < n" for i
    using u[of i] u[of n] that unfolding word_less_nat_alt by simp
  then have inside: "list_all (\<lambda>i. 0 < i \<and> i < (of_nat n + 1 :: u64)) (node_ids c)" by (simp add: ids list_all_iff)
  have "inj_on (\<lambda>i. of_nat i + 1 :: u64) {0..<n}"
  proof (rule inj_onI)
    fix i j assume le: "i \<in> {0..<n}" "j \<in> {0..<n}" and eq: "of_nat i + 1 = (of_nat j + 1 :: u64)"
    have "Suc i = Suc j" using u[of i] u[of j] le unfolding eq by simp
    then show "i = j" by simp
  qed
  then have "distinct (node_ids c)" by (simp add: ids distinct_map)
  moreover have "length (tc_nodes c) = n" using arg_cong[OF ids, of length] by (simp add: node_ids_def)
  moreover have "0 < (of_nat n + 1 :: u64)" using u[of n] unfolding word_less_nat_alt by simp
  moreover have "unat (of_nat n + 1 :: u64) = Suc n" using u by blast
  ultimately show ?thesis using inside cluster_with_name_ok[OF c] unfolding cluster_inv_def by simp
qed


text \<open>
  From a new cluster on, whatever operations a test runs and whatever the file system
  answers, \<open>cluster_size\<close> is the number of nodes, no two nodes share an id, the committed state of
  every node can be read, and removing a node fails only for an id that no node has (short of
  2^64 ids spent).
\<close>

theorem test_cluster_accounted:
  assumes new: "cluster_with_name E n name fs = (Inr c0, fs0)" and small: "Suc n + length ops < 2 ^ 64"
    and run: "fold (run_op E) ops (c0, fs0) = (c, fs')"
  shows "tc_cluster_size c = length (tc_nodes c) \<and> distinct (node_ids c) \<and>
    (\<forall>m \<in> set (tc_nodes c). is_ok (get_committed_state m)) \<and>
    (fst (remove_node i c) = Inr () \<longleftrightarrow> i \<in> set (node_ids c))"
proof -
  have "cluster_inv c0 \<and> unat (tc_next_node_id c0) = Suc n" using new_cluster_inv[OF new] small by simp
  then have inv: "cluster_inv c" using ops_keep[of c0 ops E fs0] small run by simp
  have "fst (remove_node i c) = Inr () \<longleftrightarrow> i \<in> set (node_ids c)"
    using position_of_none[of i "tc_nodes c"] by (auto simp: remove_node_result[OF inv] node_ids_def split: option.split)
  with inv show ?thesis
    by (auto simp: cluster_inv_def list_all_iff healthy_def get_committed_state_def)
qed

section \<open>Status\<close>

lemma status_fold:
  fixes ns defines "F \<equiv> fold (\<lambda>n. status_add (fst (get_status n)) (tn_id n)) ns"
  shows "cs_active_nodes (F st) = cs_active_nodes st + length (filter tn_is_running ns) \<and>
    cs_leader_id (F st) = (case filter (\<lambda>n. lk_value (tn_is_leader n)) ns of [] \<Rightarrow> cs_leader_id st
      | ls \<Rightarrow> Some (tn_id (last ls))) \<and>
    cs_nodes (F st) = cs_nodes st ++ map_of (rev (map (\<lambda>n. (tn_id n, fst (get_status n))) ns))"
  unfolding F_def
  by (induction ns arbitrary: st) (auto simp: status_add_def get_status_def map_add_def fun_eq_iff split: option.split list.split)

text \<open>The summary counts what runs and names the last leader of the list.\<close>

lemma cluster_status_counts:
  fixes c defines "st \<equiv> fst (get_cluster_status c)"
  shows "cs_total_nodes st = length (tc_nodes c) \<and> cs_active_nodes st = length (filter tn_is_running (tc_nodes c)) \<and>
    cs_leader_id st = (case filter (\<lambda>n. lk_value (tn_is_leader n)) (tc_nodes c) of [] \<Rightarrow> None | ls \<Rightarrow> Some (tn_id (last ls))) \<and>
    cs_nodes st = map_of (rev (map (\<lambda>n. (tn_id n, fst (get_status n))) (tc_nodes c)))"
  unfolding st_def get_cluster_status_def by (simp add: status_fold split: list.split)

lemma majority_of_running:
  "has_majority (fst (get_cluster_status c)) \<longleftrightarrow> length (tc_nodes c) < 2 * length (filter tn_is_running (tc_nodes c))"
  by (simp add: has_majority_def cluster_status_counts) linarith

section \<open>Generated partitions\<close>

lemma on_node_isolates: "on_node i (set_network_isolation b) c =
    (Inr (), c\<lparr>tc_nodes := (tc_nodes c)[i := (tc_nodes c ! i)\<lparr>tn_is_isolated := b\<rparr>]\<rparr>)"
  by (simp add: on_node_def set_network_isolation_def)

lemma partition_nodes:
  "length (tc_nodes (snd (create_network_partition is c))) = length (tc_nodes c) \<and>
   (j < length (tc_nodes c) \<longrightarrow> tc_nodes (snd (create_network_partition is c)) ! j =
     (if j \<in> set is then (tc_nodes c ! j)\<lparr>tn_is_isolated := True\<rparr> else tc_nodes c ! j))"
proof (induction "is" arbitrary: c)
  case Nil
  then show ?case by (simp add: create_network_partition_def)
next
  case (Cons i "is")
  let ?c = "if i < length (tc_nodes c) then c\<lparr>tc_nodes := (tc_nodes c)[i := (tc_nodes c ! i)\<lparr>tn_is_isolated := True\<rparr>]\<rparr> else c"
  have "create_network_partition (i # is) c = create_network_partition is ?c"
    by (simp add: create_network_partition_def act_then_apply on_node_isolates)
  with Cons[of ?c] show ?case by (auto simp: nth_list_update)
qed

text \<open>A node outside the generated list is left, since the list is shorter than the cluster.\<close>

lemma generated_spares:
  assumes "partition_generated n is" and "0 < n"
  obtains j where "j < n" and "j \<notin> set is"
proof -
  have "length is < n" using assms by (auto simp: partition_generated_def)
  then have "card (set is) < card {..<n}" using card_length[of "is"] by simp
  then have "\<not> {..<n} \<subseteq> set is" by (metis card_mono finite_set linorder_not_less)
  then show ?thesis using that by auto
qed

lemma partition_leaves_an_acceptor:
  assumes gen: "partition_generated (length (tc_nodes c)) is" and ne: "tc_nodes c \<noteq> []"
    and ok: "list_all accepts (tc_nodes c)"
  shows "fst (cluster_propose data (snd (create_network_partition is c))) = Inr ()"
proof -
  let ?c = "snd (create_network_partition is c)"
  from gen ne obtain j where j: "j < length (tc_nodes c)" "j \<notin> set is" using generated_spares by (metis length_greater_0_conv)
  then have "tc_nodes ?c ! j = tc_nodes c ! j" using partition_nodes[of "is" c j] by simp
  then have "accepts (tc_nodes ?c ! j)" using ok j by (simp add: list_all_length)
  then have "list_ex accepts (tc_nodes ?c)" using j partition_nodes[of "is" c j] by (auto simp: list_ex_length)
  then show ?thesis using propose_first_iff[of "Raw data" "tc_nodes ?c"] by (simp add: cluster_propose_def case_prod_beta)
qed

section \<open>Assertions and test runs\<close>

lemma sort_eq_iff_mset: "sort xs = sort ys \<longleftrightarrow> mset xs = mset ys"
  by (metis mset_sort properties_for_sort sorted_sort)

lemma equivalent_iff_mset:
  assumes "inj to_json"
  shows "assert_proposals_equivalent to_json expected actual = Some () \<longleftrightarrow> mset expected = mset actual"
proof -
  have "mset (map to_json expected) = mset (map to_json actual) \<longleftrightarrow> mset expected = mset actual"
    using multiset.inj_map[OF assms] by (simp add: inj_eq)
  then show ?thesis
    by (auto simp: assert_proposals_equivalent_def sort_eq_iff_mset dest: mset_eq_length)
qed

lemma concurrent_ok_iff: "run_concurrent_tests name hs = Inr rs \<longleftrightarrow> hs = map (\<lambda>r. Joined (Inr r)) rs"
proof -
  have "collect_joined name i hs = Inr rs \<longleftrightarrow> hs = map (\<lambda>r. Joined (Inr r)) rs" for i
    by (induction hs arbitrary: i rs) (auto simp: and_then_Inr_iff Cons_eq_map_conv split: joined.splits sum.splits)
  then show ?thesis by (simp add: run_concurrent_tests_def)
qed

text \<open>The first handle in the order of the list decides the error, whichever task failed first.\<close>

lemma concurrent_first_error:
  "collect_joined name i (map (\<lambda>r. Joined (Inr r)) rs @ Joined (Inl e) # hs) = Inl e"
  by (induction rs arbitrary: i) auto

section \<open>The directory of a node\<close>

text \<open>
  \<open>tempfile\<close> removes the directory with all it holds when the value is dropped. So the path that
  \<open>create_temp_dir\<close> returns, and that every test node keeps as its data directory, names nothing.
\<close>

lemma temp_dir_is_gone:
  assumes drops: "\<And>d s fs. CHR ''/'' \<notin> set s \<Longrightarrow> s \<noteq> ''..'' \<Longrightarrow> \<not> fs_exists E (path_join d s) (tempdir_drop E d fs)"
    and p: "CHR ''/'' \<notin> set prefix" "prefix \<noteq> ''..''" and r: "create_temp_dir E prefix fs = (Inr dir, fs')"
  shows "\<not> fs_exists E dir fs'"
proof -
  from r obtain d fs1 where d: "temp_dir_new E prefix fs = (Inr d, fs1)" "dir = td_path d" "fs' = drop_tempdir E d fs1"
    by (auto simp: create_temp_dir_def elim!: act_then_InrE)
  from d(1) have "td_path d = path_join (td_tempdir d) prefix"
    by (auto simp: temp_dir_new_def Let_def elim!: act_then_InrE split: prod.splits sum.splits)
  with d drops[OF p] show ?thesis by (simp add: drop_tempdir_def)
qed


section \<open>A cluster of three nodes\<close>

definition no_fs :: "nat fs_ops" where
  "no_fs = \<lparr>tempdir_new = (\<lambda>k. (Inr (''/tmp/'' @ show_nat k), k + 1)), tempdir_drop = (\<lambda>_ k. k),
     fs_create_dir_all = (\<lambda>_ k. (Inr (), k)), fs_remove_dir_all = (\<lambda>_ k. (Inr (), k)), fs_exists = (\<lambda>_ _. False)\<rparr>"

definition three_nodes :: TestCluster where
  "three_nodes = projr (fst (cluster_new no_fs 3 0))"

lemma three_nodes_made: "cluster_with_name no_fs 3 ''test-cluster'' 0 = (Inr three_nodes, 3)"
  by (simp add: three_nodes_def cluster_new_def cluster_with_name_def make_node_def temp_defs no_fs_def act_then_apply
      test_node_new_def upt_rec Let_def)

lemma three_nodes_agree: "check_consensus three_nodes" "length (tc_nodes three_nodes) = 3" "list_all accepts (tc_nodes three_nodes)"
proof -
  have ok: "node_ids three_nodes = map (\<lambda>i. of_nat i + 1) [0..<3] \<and> list_all accepts (tc_nodes three_nodes) \<and> check_consensus three_nodes"
    using cluster_with_name_ok[OF three_nodes_made] by simp
  then show "check_consensus three_nodes" "list_all accepts (tc_nodes three_nodes)" by simp_all
  have "length (node_ids three_nodes) = 3" using ok by simp
  then show "length (tc_nodes three_nodes) = 3" by (simp add: node_ids_def)
qed

lemma three_nodes_propose: "cluster_propose data three_nodes = (Inr (), snd (cluster_propose data three_nodes))"
proof -
  have "list_ex accepts (tc_nodes three_nodes)" using three_nodes_agree
    by (cases "tc_nodes three_nodes") (auto simp: list_all_iff list_ex_iff)
  then show ?thesis using propose_first_iff[of "Raw data" "tc_nodes three_nodes"] by (simp add: cluster_propose_def case_prod_beta)
qed

lemma propose_breaks_consensus_witness:
  "wait_for_consensus (\<lambda>n. n * from_millis 100) (snd (cluster_propose [104, 105] three_nodes)) =
    Some (Inl (Timeout ''wait_for_consensus'' (from_secs 30))) \<and>
   assert_all_nodes_agree (snd (cluster_propose [104, 105] three_nodes)) = None"
  by (rule propose_breaks_consensus[OF three_nodes_agree(1) three_nodes_propose])
    (simp_all add: three_nodes_agree sleeps_def)

lemma test_cluster_accounted_witness:
  "tc_cluster_size (fst (fold (run_op no_fs) [AddNodeOp, RemoveNodeOp 1, StopNode 0] (three_nodes, 3))) =
    length (tc_nodes (fst (fold (run_op no_fs) [AddNodeOp, RemoveNodeOp 1, StopNode 0] (three_nodes, 3))))"
  by (rule test_cluster_accounted[OF three_nodes_made _ surjective_pairing, THEN conjunct1]) simp

end
