(* ===== verification/MetricsExport.thy ===== *)
theory MetricsExport
  imports Errors F64
begin

text \<open>
  \<open>src/src/metrics.rs\<close>, as it is compiled (\<open>lib.rs\<close> declares it only with the feature \<open>metrics-otel\<close>): the
  registry with its instruments, the recorders of each subsystem, the custom counters, the Prometheus text
  and the latency timer. The instruments of OpenTelemetry are outside: what the
  recorders do is the list of calls they make on instruments, in order.
\<close>

section \<open>Instruments\<close>

datatype attribute = IntAttr string int | TextAttr string string

datatype otel_call = CounterAdd string u64 "attribute list" | HistogramRecord string f64 "attribute list"

fun instrument :: "otel_call \<Rightarrow> string" where
  "instrument (CounterAdd name _ _) = name"
| "instrument (HistogramRecord name _ _) = name"

datatype instrument_kind = U64Counter | F64Histogram

record Instrument =
  in_name :: string
  in_kind :: instrument_kind
  in_description :: string

definition u64_counter :: "string \<Rightarrow> string \<Rightarrow> Instrument" where
  "u64_counter name description = \<lparr>in_name = name, in_kind = U64Counter, in_description = description\<rparr>"

definition f64_histogram :: "string \<Rightarrow> string \<Rightarrow> Instrument" where
  "f64_histogram name description = \<lparr>in_name = name, in_kind = F64Histogram, in_description = description\<rparr>"

record RaftMetrics =
  leader_elections_total :: Instrument
  log_entries_total :: Instrument
  consensus_errors_total :: Instrument
  append_entries_latency :: Instrument

definition raft_metrics_new :: RaftMetrics where
  "raft_metrics_new = \<lparr>leader_elections_total = u64_counter ''raft_leader_elections_total'' ''Total number of leader elections'',
     log_entries_total = u64_counter ''raft_log_entries_total'' ''Total number of log entries'',
     consensus_errors_total = u64_counter ''raft_consensus_errors_total'' ''Total consensus protocol errors'',
     append_entries_latency = f64_histogram ''raft_append_entries_latency_seconds'' ''Latency of append entries operations''\<rparr>"

record StorageMetrics =
  read_operations_total :: Instrument
  write_operations_total :: Instrument
  storage_latency :: Instrument

definition storage_metrics_new :: StorageMetrics where
  "storage_metrics_new = \<lparr>read_operations_total = u64_counter ''storage_read_operations_total'' ''Total storage read operations'',
     write_operations_total = u64_counter ''storage_write_operations_total'' ''Total storage write operations'',
     storage_latency = f64_histogram ''storage_operation_latency_seconds'' ''Storage operation latency''\<rparr>"

record TransportMetrics =
  messages_sent_total :: Instrument
  messages_received_total :: Instrument
  network_errors_total :: Instrument
  connections_active :: Instrument
  message_latency :: Instrument
  connection_duration :: Instrument

definition transport_metrics_new :: TransportMetrics where
  "transport_metrics_new = \<lparr>messages_sent_total = u64_counter ''transport_messages_sent_total'' ''Total P2P messages sent'',
     messages_received_total = u64_counter ''transport_messages_received_total'' ''Total P2P messages received'',
     network_errors_total = u64_counter ''transport_network_errors_total'' ''Total network transport errors'',
     connections_active = u64_counter ''transport_connections_active_total'' ''Total active connections created'',
     message_latency = f64_histogram ''transport_message_latency_seconds'' ''Message round-trip latency'',
     connection_duration = f64_histogram ''transport_connection_duration_seconds'' ''Connection duration''\<rparr>"

lemmas instrument_defs = u64_counter_def f64_histogram_def raft_metrics_new_def storage_metrics_new_def transport_metrics_new_def

section \<open>The registry\<close>

record CustomMetric =
  cu_name :: string
  cu_description :: string
  cu_metric_type :: Instrument

text \<open>\<open>emitted\<close> is every call made on an instrument so far.\<close>

record MetricsRegistry =
  service_name :: string
  raft_metrics :: RaftMetrics
  storage_metrics :: StorageMetrics
  transport_metrics :: TransportMetrics
  custom_metrics :: "string \<rightharpoonup> CustomMetric"
  custom_poisoned :: bool
  emitted :: "otel_call list"

definition registry_new :: "string \<Rightarrow> RaftError + MetricsRegistry" where
  "registry_new name = Inr \<lparr>service_name = name, raft_metrics = raft_metrics_new, storage_metrics = storage_metrics_new,
     transport_metrics = transport_metrics_new, custom_metrics = Map.empty, custom_poisoned = False, emitted = []\<rparr>"

definition emit :: "otel_call list \<Rightarrow> MetricsRegistry \<Rightarrow> MetricsRegistry" where
  "emit calls R = R\<lparr>emitted := emitted R @ calls\<rparr>"

definition counter_add :: "Instrument \<Rightarrow> u64 \<Rightarrow> attribute list \<Rightarrow> otel_call" where
  "counter_add i n attrs = CounterAdd (in_name i) n attrs"

definition histogram_record :: "Instrument \<Rightarrow> f64 \<Rightarrow> attribute list \<Rightarrow> otel_call" where
  "histogram_record i x attrs = HistogramRecord (in_name i) x attrs"

text \<open>The node id is cast to a signed integer.\<close>

definition record_leader_election :: "u64 \<Rightarrow> u64 \<Rightarrow> MetricsRegistry \<Rightarrow> MetricsRegistry" where
  "record_leader_election node_id term R =
     emit [counter_add (leader_elections_total (raft_metrics R)) 1 [IntAttr ''node_id'' (sint node_id)]] R"

definition record_log_append :: "u64 \<Rightarrow> f64 \<Rightarrow> MetricsRegistry \<Rightarrow> MetricsRegistry" where
  "record_log_append entries_count latency_ms R =
     emit [counter_add (log_entries_total (raft_metrics R)) entries_count [],
           histogram_record (append_entries_latency (raft_metrics R)) (f64_div latency_ms 1000) []] R"

definition increment_consensus_errors :: "string \<Rightarrow> MetricsRegistry \<Rightarrow> MetricsRegistry" where
  "increment_consensus_errors error_type R =
     emit [counter_add (consensus_errors_total (raft_metrics R)) 1 [TextAttr ''error_type'' error_type]] R"

definition record_operation :: "string \<Rightarrow> duration \<Rightarrow> MetricsRegistry \<Rightarrow> MetricsRegistry" where
  "record_operation operation_type latency R = (let attrs = [TextAttr ''operation'' operation_type] in
     emit ((if operation_type = ''read'' then [counter_add (read_operations_total (storage_metrics R)) 1 attrs]
            else if operation_type = ''write'' then [counter_add (write_operations_total (storage_metrics R)) 1 attrs]
            else []) @
           [histogram_record (storage_latency (storage_metrics R)) (as_secs_f64 latency) attrs]) R)"

definition update_disk_usage :: "u64 \<Rightarrow> MetricsRegistry \<Rightarrow> MetricsRegistry" where
  "update_disk_usage bytes R = R"

definition record_connection_established :: "string \<Rightarrow> MetricsRegistry \<Rightarrow> MetricsRegistry" where
  "record_connection_established peer_id R = emit [counter_add (connections_active (transport_metrics R)) 1
     [TextAttr ''peer_id'' peer_id, TextAttr ''status'' ''established'']] R"

definition record_connection_closed :: "string \<Rightarrow> duration \<Rightarrow> MetricsRegistry \<Rightarrow> MetricsRegistry" where
  "record_connection_closed peer_id lasted R = emit [histogram_record (connection_duration (transport_metrics R)) (as_secs_f64 lasted)
     [TextAttr ''peer_id'' peer_id, TextAttr ''status'' ''closed'']] R"

definition record_message_sent :: "string \<Rightarrow> string \<Rightarrow> MetricsRegistry \<Rightarrow> MetricsRegistry" where
  "record_message_sent message_type peer_id R = emit [counter_add (messages_sent_total (transport_metrics R)) 1
     [TextAttr ''message_type'' message_type, TextAttr ''peer_id'' peer_id]] R"

definition record_message_latency :: "string \<Rightarrow> duration \<Rightarrow> MetricsRegistry \<Rightarrow> MetricsRegistry" where
  "record_message_latency message_type latency R = emit [histogram_record (message_latency (transport_metrics R)) (as_secs_f64 latency)
     [TextAttr ''message_type'' message_type]] R"

definition record_message_received :: "string \<Rightarrow> string \<Rightarrow> MetricsRegistry \<Rightarrow> MetricsRegistry" where
  "record_message_received message_type peer_id R = emit [counter_add (messages_received_total (transport_metrics R)) 1
     [TextAttr ''message_type'' message_type, TextAttr ''peer_id'' peer_id]] R"

definition record_network_error :: "string \<Rightarrow> MetricsRegistry \<Rightarrow> MetricsRegistry" where
  "record_network_error error_type R =
     emit [counter_add (network_errors_total (transport_metrics R)) 1 [TextAttr ''error_type'' error_type]] R"

definition update_node_status :: "u64 \<Rightarrow> bool \<Rightarrow> MetricsRegistry \<Rightarrow> MetricsRegistry" where
  "update_node_status node_id up R = R"

definition update_resource_usage :: "u64 \<Rightarrow> f64 \<Rightarrow> MetricsRegistry \<Rightarrow> MetricsRegistry" where
  "update_resource_usage memory_bytes cpu_percent R = R"

definition update_uptime :: "duration \<Rightarrow> MetricsRegistry \<Rightarrow> MetricsRegistry" where
  "update_uptime uptime R = R"

text \<open>Registering replaces a counter of the same name. No method hands the counter out again.\<close>

definition register_custom_counter :: "string \<Rightarrow> string \<Rightarrow> MetricsRegistry \<Rightarrow> (RaftError + unit) \<times> MetricsRegistry" where
  "register_custom_counter name description R =
     (if custom_poisoned R then (Inl (LockPoisoned ''register_custom_counter'' ''custom metrics lock poisoned''), R)
      else (Inr (), R\<lparr>custom_metrics := (custom_metrics R)(name \<mapsto>
        \<lparr>cu_name = name, cu_description = description, cu_metric_type = u64_counter name description\<rparr>)\<rparr>))"

definition newline :: string where
  "newline = [CHR 0x0A]"

definition export_prometheus :: "MetricsRegistry \<Rightarrow> RaftError + string" where
  "export_prometheus R = Inr (''# HELP iroh_raft_info Service information'' @ newline @
     ''# TYPE iroh_raft_info gauge'' @ newline @
     ''iroh_raft_info{service='' @ [CHR 0x22] @ service_name R @ [CHR 0x22] @ ''} 1'' @ newline)"

section \<open>The latency timer\<close>

record LatencyTimer =
  lt_start :: instant
  lt_operation :: string

definition timer_start :: "instant \<Rightarrow> string \<Rightarrow> LatencyTimer" where
  "timer_start now operation = \<lparr>lt_start = now, lt_operation = operation\<rparr>"

definition timer_elapsed :: "instant \<Rightarrow> LatencyTimer \<Rightarrow> duration" where
  "timer_elapsed now t = duration_since now (lt_start t)"

definition timer_elapsed_ms :: "instant \<Rightarrow> LatencyTimer \<Rightarrow> f64" where
  "timer_elapsed_ms now t = f64_mul (as_secs_f64 (timer_elapsed now t)) 1000"

section \<open>What the instruments and the scrape see\<close>

datatype metric_event = LeaderElection u64 u64 | LogAppend u64 f64 | ConsensusError string | StorageOperation string duration
  | DiskUsage u64 | Established string | Closed string duration | Sent string string | Latency string duration
  | Received string string | NetworkError string | NodeUp u64 bool | Resources u64 f64 | Uptime duration
  | CustomCounter string string

fun record_event :: "metric_event \<Rightarrow> MetricsRegistry \<Rightarrow> MetricsRegistry" where
  "record_event (LeaderElection i t) = record_leader_election i t"
| "record_event (LogAppend n ms) = record_log_append n ms"
| "record_event (ConsensusError e) = increment_consensus_errors e"
| "record_event (StorageOperation x d) = record_operation x d"
| "record_event (DiskUsage n) = update_disk_usage n"
| "record_event (Established p) = record_connection_established p"
| "record_event (Closed p d) = record_connection_closed p d"
| "record_event (Sent m p) = record_message_sent m p"
| "record_event (Latency m d) = record_message_latency m d"
| "record_event (Received m p) = record_message_received m p"
| "record_event (NetworkError e) = record_network_error e"
| "record_event (NodeUp i b) = update_node_status i b"
| "record_event (Resources m c) = update_resource_usage m c"
| "record_event (Uptime d) = update_uptime d"
| "record_event (CustomCounter n d) = (\<lambda>R. snd (register_custom_counter n d R))"

lemmas recorder_defs = record_leader_election_def record_log_append_def increment_consensus_errors_def record_operation_def
  update_disk_usage_def record_connection_established_def record_connection_closed_def record_message_sent_def
  record_message_latency_def record_message_received_def record_network_error_def update_node_status_def
  update_resource_usage_def update_uptime_def register_custom_counter_def emit_def counter_add_def histogram_record_def Let_def

text \<open>What a counter has counted: the sum of what was added to it, whatever the attributes.\<close>

fun counted :: "string \<Rightarrow> otel_call list \<Rightarrow> nat" where
  "counted name [] = 0"
| "counted name (CounterAdd i n _ # cs) = (if i = name then unat n else 0) + counted name cs"
| "counted name (HistogramRecord _ _ _ # cs) = counted name cs"

fun recorded :: "string \<Rightarrow> otel_call list \<Rightarrow> f64 list" where
  "recorded name [] = []"
| "recorded name (CounterAdd _ _ _ # cs) = recorded name cs"
| "recorded name (HistogramRecord i x _ # cs) = (if i = name then [x] else []) @ recorded name cs"

lemma counted_append [simp]: "counted name (xs @ ys) = counted name xs + counted name ys"
  by (induction name xs rule: counted.induct) auto

lemma recorded_append [simp]: "recorded name (xs @ ys) = recorded name xs @ recorded name ys"
  by (induction name xs rule: recorded.induct) auto

definition well_wired :: "MetricsRegistry \<Rightarrow> bool" where
  "well_wired R \<longleftrightarrow> raft_metrics R = raft_metrics_new \<and> storage_metrics R = storage_metrics_new \<and>
     transport_metrics R = transport_metrics_new"

lemma record_event_wired: "well_wired R \<Longrightarrow> well_wired (record_event e R)"
  by (cases e) (auto simp: recorder_defs well_wired_def)

lemma fold_wired: "well_wired R \<Longrightarrow> well_wired (fold record_event es R)"
  by (induction es arbitrary: R) (auto simp: record_event_wired)

lemma record_event_service [simp]: "service_name (record_event e R) = service_name R"
  by (cases e) (auto simp: recorder_defs)

lemma fold_service [simp]: "service_name (fold record_event es R) = service_name R"
  by (induction es arbitrary: R) auto

fun established :: "metric_event \<Rightarrow> bool" where
  "established (Established _) = True"
| "established _ = False"

fun consensus_error :: "metric_event \<Rightarrow> bool" where
  "consensus_error (ConsensusError _) = True"
| "consensus_error _ = False"

fun appended :: "metric_event \<Rightarrow> nat" where
  "appended (LogAppend n _) = unat n"
| "appended _ = 0"

text \<open>One event adds its own measurements and nothing else.\<close>

lemma event_counts:
  assumes "well_wired R"
  shows "counted ''transport_connections_active_total'' (emitted (record_event e R)) =
      counted ''transport_connections_active_total'' (emitted R) + (if established e then 1 else 0) \<and>
    counted ''raft_consensus_errors_total'' (emitted (record_event e R)) =
      counted ''raft_consensus_errors_total'' (emitted R) + (if consensus_error e then 1 else 0) \<and>
    counted ''raft_log_entries_total'' (emitted (record_event e R)) =
      counted ''raft_log_entries_total'' (emitted R) + appended e"
  using assms by (cases e) (simp_all add: recorder_defs well_wired_def instrument_defs)

lemma events_count:
  assumes "well_wired R"
  shows "counted ''transport_connections_active_total'' (emitted (fold record_event es R)) =
      counted ''transport_connections_active_total'' (emitted R) + length (filter established es) \<and>
    counted ''raft_consensus_errors_total'' (emitted (fold record_event es R)) =
      counted ''raft_consensus_errors_total'' (emitted R) + length (filter consensus_error es) \<and>
    counted ''raft_log_entries_total'' (emitted (fold record_event es R)) =
      counted ''raft_log_entries_total'' (emitted R) + sum_list (map appended es)"
  using assms
proof (induction es arbitrary: R)
  case (Cons e es)
  then show ?case using event_counts[OF Cons.prems, of e] Cons.IH[OF record_event_wired[OF Cons.prems, of e]] by simp
qed simp

text \<open>
  Whatever a program records on a registry, the text it exports for a scrape is that of
  the fresh registry, which names the service and holds no measurement, though the
  instruments counted everything: the log entries by their number, each consensus error and each
  established connection once. The counter of active connections never goes down when one closes.
\<close>

theorem scrape_ignores_measurements:
  assumes "registry_new name = Inr R0" and "fold record_event es R0 = R"
  shows "export_prometheus R = export_prometheus R0 \<and>
    counted ''raft_log_entries_total'' (emitted R) = sum_list (map appended es) \<and>
    counted ''raft_consensus_errors_total'' (emitted R) = length (filter consensus_error es) \<and>
    counted ''transport_connections_active_total'' (emitted R) = length (filter established es)"
proof -
  have "well_wired R0" "emitted R0 = []" using assms(1) by (auto simp: registry_new_def well_wired_def)
  with events_count[of R0 es] assms(2) fold_service[of es R0] show ?thesis by (simp add: export_prometheus_def)
qed

text \<open>No event ever reaches a custom counter: every call goes to an instrument of a subsystem.\<close>

definition subsystem_instruments :: "string set" where
  "subsystem_instruments = {''raft_leader_elections_total'', ''raft_log_entries_total'', ''raft_consensus_errors_total'',
     ''raft_append_entries_latency_seconds'', ''storage_read_operations_total'', ''storage_write_operations_total'',
     ''storage_operation_latency_seconds'', ''transport_messages_sent_total'', ''transport_messages_received_total'',
     ''transport_network_errors_total'', ''transport_connections_active_total'', ''transport_message_latency_seconds'',
     ''transport_connection_duration_seconds''}"

lemma subsystem_names:
  "''raft_leader_elections_total'' \<in> subsystem_instruments"
  "''raft_log_entries_total'' \<in> subsystem_instruments"
  "''raft_consensus_errors_total'' \<in> subsystem_instruments"
  "''raft_append_entries_latency_seconds'' \<in> subsystem_instruments"
  "''storage_read_operations_total'' \<in> subsystem_instruments"
  "''storage_write_operations_total'' \<in> subsystem_instruments"
  "''storage_operation_latency_seconds'' \<in> subsystem_instruments"
  "''transport_messages_sent_total'' \<in> subsystem_instruments"
  "''transport_messages_received_total'' \<in> subsystem_instruments"
  "''transport_network_errors_total'' \<in> subsystem_instruments"
  "''transport_connections_active_total'' \<in> subsystem_instruments"
  "''transport_message_latency_seconds'' \<in> subsystem_instruments"
  "''transport_connection_duration_seconds'' \<in> subsystem_instruments"
  by (simp_all add: subsystem_instruments_def)

lemma event_instruments:
  "well_wired R \<Longrightarrow> instrument ` set (emitted R) \<subseteq> subsystem_instruments \<Longrightarrow>
   instrument ` set (emitted (record_event e R)) \<subseteq> subsystem_instruments"
  by (cases e)
    (simp_all add: recorder_defs well_wired_def instrument_defs subsystem_names image_Un image_subset_iff)

lemma events_instruments:
  "well_wired R \<Longrightarrow> instrument ` set (emitted R) \<subseteq> subsystem_instruments \<Longrightarrow>
   instrument ` set (emitted (fold record_event es R)) \<subseteq> subsystem_instruments"
proof (induction es arbitrary: R)
  case (Cons e es)
  then show ?case using event_instruments[OF Cons.prems, of e] record_event_wired[OF Cons.prems(1), of e] by simp
qed simp

lemma storage_operation_measured:
  assumes "well_wired R"
  shows "recorded ''storage_operation_latency_seconds'' (emitted (record_operation x d R)) =
    recorded ''storage_operation_latency_seconds'' (emitted R) @ [as_secs_f64 d]"
  using assms by (simp add: recorder_defs well_wired_def instrument_defs)

lemma scrape_ignores_measurements_witness:
  "export_prometheus (fold record_event [LogAppend 5 150, Established ''p'', Closed ''p'' 1, ConsensusError ''t'']
     (projr (registry_new ''svc''))) = export_prometheus (projr (registry_new ''svc''))"
  by (rule scrape_ignores_measurements[OF _ refl, of "''svc''", THEN conjunct1]) (simp add: registry_new_def)

end
