(* ===== verification/ErrorText.thy ===== *)
theory ErrorText
  imports Errors "HOL-Library.Sublist"
begin

text \<open>
  \<open>src/src/error.rs\<close>: the text every error displays, and the detailed message of an aggregate. Texts are
  the bytes of their UTF-8 encoding. The formatting of integers, options and durations is that of
  the standard library, written out.
\<close>

section \<open>Numbers and durations\<close>

definition show_word :: "u64 \<Rightarrow> string" where
  "show_word n = show_nat (unat n)"

definition debug_option :: "u64 option \<Rightarrow> string" where
  "debug_option x = (case x of None \<Rightarrow> ''None'' | Some n \<Rightarrow> ''Some('' @ show_word n @ '')'')"

text \<open>A fraction of some digits, without the zeros at its end and without a point when nothing is left.\<close>

definition show_fraction :: "nat \<Rightarrow> nat \<Rightarrow> string" where
  "show_fraction digits f = (if f = 0 then '''' else
     CHR ''.'' # rev (dropWhile (\<lambda>c. c = CHR ''0'') (rev (replicate (digits - length (show_nat f)) (CHR ''0'') @ show_nat f))))"

text \<open>\<open>{:?}\<close> of a \<open>Duration\<close>: in the largest unit of s, ms, us and ns that fits.\<close>

definition micro_seconds :: string where
  "micro_seconds = [CHR 0xC2, CHR 0xB5] @ ''s''"

definition debug_duration :: "duration \<Rightarrow> string" where
  "debug_duration d = (let secs = d div 1000000000; nanos = d mod 1000000000 in
     if 0 < secs then show_nat secs @ show_fraction 9 nanos @ ''s''
     else if 1000000 \<le> nanos then show_nat (nanos div 1000000) @ show_fraction 6 (nanos mod 1000000) @ ''ms''
     else if 1000 \<le> nanos then show_nat (nanos div 1000) @ show_fraction 3 (nanos mod 1000) @ micro_seconds
     else show_nat nanos @ ''ns'')"

definition quoted :: "string \<Rightarrow> string" where
  "quoted s = [CHR 0x27] @ s @ [CHR 0x27]"

section \<open>Display\<close>

definition show_database_error :: "DatabaseError \<Rightarrow> string" where
  "show_database_error e = ''Database error in '' @ quoted (db_operation e) @ '': '' @ db_source e"

definition show_storage_error :: "StorageError \<Rightarrow> string" where
  "show_storage_error e = ''Storage operation '' @ quoted (st_operation e) @ '' failed''"

definition show_transport_error :: "TransportError \<Rightarrow> string" where
  "show_transport_error e = ''P2P transport error: '' @ tr_details e"

definition show_consensus_error :: "ConsensusError \<Rightarrow> string" where
  "show_consensus_error e = ''Raft consensus error in '' @ quoted (co_operation e) @ '': '' @ co_source e"

definition show_error :: "RaftError \<Rightarrow> string" where
  "show_error e = (case e of
     NotLeader operation current_leader \<Rightarrow>
       ''Not leader for operation '' @ quoted operation @ '', current leader: '' @ debug_option current_leader
   | NodeNotFound node_id \<Rightarrow> ''Node '' @ show_word node_id @ '' not found in cluster configuration''
   | Consensus inner \<Rightarrow> show_consensus_error inner
   | Database inner \<Rightarrow> show_database_error inner
   | Storage inner \<Rightarrow> show_storage_error inner
   | Transport inner \<Rightarrow> show_transport_error inner
   | NotReady node_id operation reason \<Rightarrow>
       ''Node '' @ show_word node_id @ '' not ready for operation '' @ quoted operation @ '': '' @ reason
   | ProposalRejected operation reason \<Rightarrow> ''Proposal rejected for operation '' @ quoted operation @ '': '' @ reason
   | ConfigurationChange operation reason \<Rightarrow> ''Configuration change failed: '' @ operation @ '' - '' @ reason
   | Snapshot operation details \<Rightarrow> ''Snapshot '' @ operation @ '' failed: '' @ details
   | Timeout operation d \<Rightarrow> ''Operation '' @ quoted operation @ '' timed out after '' @ debug_duration d
   | CircuitBreakerOpen message \<Rightarrow> ''Circuit breaker open: '' @ message
   | Backpressure operation reason \<Rightarrow> ''Backpressure applied: '' @ operation @ '' - '' @ reason
   | ResourceExhausted resource details \<Rightarrow> ''Resource exhausted: '' @ resource @ '' - '' @ details
   | Transaction operation reason \<Rightarrow> ''Transaction '' @ quoted operation @ '' failed: '' @ reason
   | StorageCorruption component details \<Rightarrow> ''Storage corruption detected in '' @ component @ '': '' @ details
   | InsufficientSpace operation needed available \<Rightarrow>
       ''Insufficient storage space for operation '' @ quoted operation @ '': need '' @ show_word needed @
       '' bytes, available '' @ show_word available @ '' bytes''
   | ConnectionFailed peer_id reason \<Rightarrow> ''Connection failed to peer '' @ peer_id @ '': '' @ reason
   | NetworkPartition details \<Rightarrow> ''Network partition detected: '' @ details
   | Serialization message_type src \<Rightarrow> ''Serialization error for '' @ message_type @ '': '' @ src
   | ProtocolMismatch peer_id local_version remote_version \<Rightarrow>
       ''Protocol version mismatch with peer '' @ peer_id @ '': local='' @ local_version @ '', remote='' @ remote_version
   | NetworkTimeout operation peer_id d \<Rightarrow>
       ''Network timeout for operation '' @ quoted operation @ '' with peer '' @ peer_id @ '' after '' @ debug_duration d
   | InvalidConfiguration component message \<Rightarrow> ''Invalid configuration for '' @ component @ '': '' @ message
   | MissingConfiguration parameter component \<Rightarrow> ''Missing required configuration: '' @ parameter @ '' in '' @ component
   | ConfigurationValidation component details \<Rightarrow> ''Configuration validation failed for '' @ component @ '': '' @ details
   | ServiceUnavailable service reason \<Rightarrow> ''Service unavailable: '' @ service @ '' - '' @ reason
   | AuthenticationFailed peer_id reason \<Rightarrow> ''Authentication failed for peer '' @ peer_id @ '': '' @ reason
   | AuthorizationDenied operation peer_id \<Rightarrow> ''Authorization denied for operation '' @ quoted operation @ '' by peer '' @ peer_id
   | Cryptographic operation details \<Rightarrow> ''Cryptographic error in '' @ operation @ '': '' @ details
   | InvariantViolation details \<Rightarrow> ''Internal invariant violated: '' @ details
   | NotImplemented feature \<Rightarrow> ''Feature not implemented: '' @ feature
   | InvalidState from_state to_state component \<Rightarrow>
       ''Invalid state transition: from '' @ from_state @ '' to '' @ to_state @ '' in '' @ component
   | LockPoisoned operation details \<Rightarrow> ''Lock poisoned during operation '' @ quoted operation @ '': '' @ details
   | InvalidInput parameter message \<Rightarrow> ''Invalid input for '' @ parameter @ '': '' @ message
   | Validation field reason \<Rightarrow> ''Validation failed for '' @ field @ '': '' @ reason
   | ConstraintViolation operation constraint details \<Rightarrow>
       ''Constraint violation in '' @ operation @ '': '' @ constraint @ '' - '' @ details
   | Io operation src \<Rightarrow> ''I/O error during '' @ operation @ '': '' @ src
   | System operation details \<Rightarrow> ''System error during '' @ operation @ '': '' @ details
   | Internal message \<Rightarrow> ''Internal error: '' @ message
   | ClusterError message \<Rightarrow> ''Cluster error: '' @ message
   | Multiple ctx errors \<Rightarrow> ''Multiple errors in '' @ ctx)"

text \<open>\<open>iter.join(sep)\<close>.\<close>

fun join_with :: "string \<Rightarrow> string list \<Rightarrow> string" where
  "join_with sep [] = ''''"
| "join_with sep [s] = s"
| "join_with sep (s # ss) = s @ sep @ join_with sep ss"

definition format_error_list :: "RaftError list \<Rightarrow> string" where
  "format_error_list errors = join_with ''; '' (map (\<lambda>(i, e). show_nat (i + 1) @ ''. '' @ show_error e) (enumerate 0 errors))"

definition detailed_message :: "RaftError \<Rightarrow> string" where
  "detailed_message e = (case e of
     Multiple ctx errors \<Rightarrow> ''Multiple errors in '' @ ctx @ '': '' @ format_error_list errors
   | _ \<Rightarrow> show_error e)"

section \<open>What a text contains\<close>

text \<open>\<open>str::contains\<close>.\<close>

definition contains :: "string \<Rightarrow> string \<Rightarrow> bool" where
  "contains s pat \<longleftrightarrow> sublist pat s"

text \<open>A pattern without the separating character lies on one side of it.\<close>

lemma contains_across: "q \<notin> set pat \<Longrightarrow> contains (xs @ q # ys) pat \<longleftrightarrow> contains xs pat \<or> contains ys pat"
proof
  assume q: "q \<notin> set pat" and "contains (xs @ q # ys) pat"
  then obtain ps ss where e: "xs @ q # ys = ps @ pat @ ss" by (auto simp: contains_def sublist_def)
  then consider us where "xs @ us = ps" "q # ys = us @ pat @ ss"
    | us where "xs = ps @ us" "us @ q # ys = pat @ ss" by (auto simp: append_eq_append_conv2)
  then show "contains xs pat \<or> contains ys pat"
  proof cases
    case 1
    show ?thesis
    proof (cases us)
      case Nil
      with 1 have "pat = []" using q by (cases pat) auto
      then show ?thesis by (simp add: contains_def)
    next
      case (Cons u us')
      with 1 have "ys = us' @ pat @ ss" by simp
      then show ?thesis by (auto simp: contains_def sublist_def)
    qed
  next
    case 2
    then consider vs where "us = pat @ vs" | v vs where "pat = us @ v # vs" "q # ys = (v # vs) @ ss"
      by (auto simp: append_eq_append_conv2 Cons_eq_append_conv)
    then show ?thesis
    proof cases
      case 1
      with 2(1) show ?thesis by (auto simp: contains_def sublist_def)
    next
      case 2
      with q show ?thesis by auto
    qed
  qed
qed (auto simp: contains_def sublist_append sublist_Cons_right)

lemma show_nat_digits: "set (show_nat n) \<subseteq> set ''0123456789''"
proof (induction n rule: show_nat.induct)
  case (1 n)
  have digit: "char_of (48 + k) \<in> set ''0123456789''" if "k < 10" for k :: nat
  proof -
    from that have "k \<in> {0, 1, 2, 3, 4, 5, 6, 7, 8, 9}" by auto
    then show ?thesis by (elim insertE emptyE) (simp_all add: char_of_def bit_Suc_0_iff)
  qed
  show ?case using 1 digit[of n] digit[of "n mod 10"] by (subst show_nat.simps) auto
qed

text \<open>
  What the text of a refusal for want of leadership contains: a pattern of lower-case letters and
  blanks that starts with \<open>n\<close> can only come from the name of the operation.
\<close>

lemma not_leader_text:
  "contains (show_error (NotLeader operation current_leader)) ''not leader'' \<longleftrightarrow> contains operation ''not leader''"
proof -
  have digits: "\<not> contains (show_word n @ '')'') ''not leader''" for n
  proof
    assume "contains (show_word n @ '')'') ''not leader''"
    then have "set ''not leader'' \<subseteq> set (show_word n @ '')'')" by (simp only: contains_def set_mono_sublist)
    then show False using show_nat_digits[of "unat n"] by (auto simp: show_word_def)
  qed
  have front: "\<not> contains ''Not leader for operation '' ''not leader''"
    by (simp add: contains_def sublist_Cons_right)
  have rear: "\<not> contains ('', current leader: '' @ debug_option current_leader) ''not leader''"
  proof (cases current_leader)
    case None
    then show ?thesis by (simp add: debug_option_def contains_def sublist_Cons_right)
  next
    case (Some n)
    have "'', current leader: '' @ debug_option current_leader = '', current leader: Some'' @ CHR ''('' # (show_word n @ '')'')"
      by (simp add: Some debug_option_def)
    moreover have "\<not> contains '', current leader: Some'' ''not leader''" by (simp add: contains_def sublist_Cons_right)
    moreover have "CHR ''('' \<notin> set ''not leader''" by simp
    ultimately show ?thesis using digits[of n] contains_across by metis
  qed
  have q: "CHR 0x27 \<notin> set ''not leader''" by simp
  have "show_error (NotLeader operation current_leader) =
    ''Not leader for operation '' @ CHR 0x27 # (operation @ CHR 0x27 # ('', current leader: '' @ debug_option current_leader))"
    by (simp add: show_error_def quoted_def)
  then show ?thesis using contains_across[OF q] front rear by metis
qed

text \<open>The detailed message lists the errors of one level: an aggregate within it shows only its context.\<close>

lemma nested_details_lost:
  "detailed_message (Multiple ctx (es @ Multiple inner errors # es')) = detailed_message (Multiple ctx (es @ Multiple inner errors' # es'))"
  by (simp add: detailed_message_def format_error_list_def enumerate_append_eq show_error_def)

end
