(* ===== verification/ManagementHttp.thy ===== *)
theory ManagementHttp
  imports ErrorText F64
begin

text \<open>
  The management API over HTTP: \<open>src/src/management/config.rs\<close> (its configuration), \<open>schemas.rs\<close> (what
  requests and responses hold), \<open>handlers.rs\<close> (one function per endpoint and the mapping of errors)
  and \<open>server.rs\<close> (routes, middleware and the life of the server). No module declares these files, so
  the crate is built without them. The web framework is a parameter: its router, its layers, its
  extractors and its rendering. Paths are
  compared as text, times are readings of the clock.
\<close>

section \<open>Configuration\<close>

type_synonym system_time = int

record RateLimitConfig =
  rl_enabled :: bool
  rl_requests_per_minute :: u32
  rl_max_connections_per_ip :: u32

record SecurityConfig =
  sec_require_auth :: bool
  sec_api_key :: "string option"
  sec_enable_tls :: bool
  sec_tls_cert_path :: "string option"
  sec_tls_key_path :: "string option"

record WebSocketConfig =
  ws_enabled :: bool
  ws_max_connections :: u32
  ws_max_message_size :: nat
  ws_ping_interval :: duration
  ws_connection_timeout :: duration

text \<open>A socket address is the text it was parsed from.\<close>

record ManagementConfig =
  mc_bind_address :: string
  mc_enable_swagger_ui :: bool
  mc_enable_cors :: bool
  mc_max_request_size :: nat
  mc_request_timeout :: duration
  mc_detailed_errors :: bool
  mc_rate_limit :: RateLimitConfig
  mc_security :: SecurityConfig
  mc_websocket :: WebSocketConfig

definition default_rate_limit :: RateLimitConfig where
  "default_rate_limit = \<lparr>rl_enabled = False, rl_requests_per_minute = 60, rl_max_connections_per_ip = 10\<rparr>"

definition default_security :: SecurityConfig where
  "default_security = \<lparr>sec_require_auth = False, sec_api_key = None, sec_enable_tls = False,
     sec_tls_cert_path = None, sec_tls_key_path = None\<rparr>"

definition default_websocket :: WebSocketConfig where
  "default_websocket = \<lparr>ws_enabled = True, ws_max_connections = 100, ws_max_message_size = 64 * 1024,
     ws_ping_interval = from_secs 30, ws_connection_timeout = from_secs 60\<rparr>"

definition default_config :: ManagementConfig where
  "default_config = \<lparr>mc_bind_address = ''127.0.0.1:8080'', mc_enable_swagger_ui = True, mc_enable_cors = True,
     mc_max_request_size = 1024 * 1024, mc_request_timeout = from_secs 30, mc_detailed_errors = True,
     mc_rate_limit = default_rate_limit, mc_security = default_security, mc_websocket = default_websocket\<rparr>"

text \<open>The builder is the configuration it holds; each method sets what its name says.\<close>

datatype builder_call = BindAddress string | EnableSwaggerUi bool | EnableCors bool | MaxRequestSize nat | RequestTimeout duration
  | DetailedErrors bool | RateLimit RateLimitConfig | Security SecurityConfig | Websocket WebSocketConfig
  | EnableRateLimiting | ApiKey string | EnableTls string string

fun builder_apply :: "builder_call \<Rightarrow> ManagementConfig \<Rightarrow> ManagementConfig" where
  "builder_apply (BindAddress a) c = c\<lparr>mc_bind_address := a\<rparr>"
| "builder_apply (EnableSwaggerUi b) c = c\<lparr>mc_enable_swagger_ui := b\<rparr>"
| "builder_apply (EnableCors b) c = c\<lparr>mc_enable_cors := b\<rparr>"
| "builder_apply (MaxRequestSize n) c = c\<lparr>mc_max_request_size := n\<rparr>"
| "builder_apply (RequestTimeout d) c = c\<lparr>mc_request_timeout := d\<rparr>"
| "builder_apply (DetailedErrors b) c = c\<lparr>mc_detailed_errors := b\<rparr>"
| "builder_apply (RateLimit r) c = c\<lparr>mc_rate_limit := r\<rparr>"
| "builder_apply (Security s) c = c\<lparr>mc_security := s\<rparr>"
| "builder_apply (Websocket w) c = c\<lparr>mc_websocket := w\<rparr>"
| "builder_apply EnableRateLimiting c = c\<lparr>mc_rate_limit := (mc_rate_limit c)\<lparr>rl_enabled := True\<rparr>\<rparr>"
| "builder_apply (ApiKey k) c = c\<lparr>mc_security := (mc_security c)\<lparr>sec_api_key := Some k, sec_require_auth := True\<rparr>\<rparr>"
| "builder_apply (EnableTls cert key) c = c\<lparr>mc_security := (mc_security c)\<lparr>sec_enable_tls := True,
     sec_tls_cert_path := Some cert, sec_tls_key_path := Some key\<rparr>\<rparr>"

definition build :: "builder_call list \<Rightarrow> ManagementConfig" where
  "build calls = fold builder_apply calls default_config"

definition management_invalid :: "string \<Rightarrow> RaftError + unit" where
  "management_invalid message = Inl (InvalidConfiguration ''management'' message)"

definition validate :: "ManagementConfig \<Rightarrow> RaftError + unit" where
  "validate c =
     (if sec_enable_tls (mc_security c) \<and> sec_tls_cert_path (mc_security c) = None
      then management_invalid ''TLS enabled but no certificate path provided''
      else if sec_enable_tls (mc_security c) \<and> sec_tls_key_path (mc_security c) = None
      then management_invalid ''TLS enabled but no private key path provided''
      else if rl_enabled (mc_rate_limit c) \<and> rl_requests_per_minute (mc_rate_limit c) = 0
      then management_invalid ''Rate limiting enabled but requests_per_minute is 0''
      else if ws_enabled (mc_websocket c) \<and> ws_max_connections (mc_websocket c) = 0
      then management_invalid ''WebSocket enabled but max_connections is 0''
      else Inr ())"

section \<open>Requests and responses\<close>

datatype NodeState = Follower | Candidate | Leader | Learner | Offline
datatype NodeRole = Voter | LearnerRole
datatype ClusterHealth = ClusterHealthy | ClusterDegraded | ClusterUnhealthy | ClusterUnknown

record ClusterMember =
  hm_id :: u64
  hm_address :: string
  hm_online :: bool
  hm_last_seen :: "system_time option"
  hm_match_index :: "u64 option"
  hm_next_index :: "u64 option"
  hm_role :: NodeRole
  hm_metadata :: "string \<rightharpoonup> string"

definition member_new :: "u64 \<Rightarrow> string \<Rightarrow> NodeRole \<Rightarrow> ClusterMember" where
  "member_new i address role = \<lparr>hm_id = i, hm_address = address, hm_online = False, hm_last_seen = None,
     hm_match_index = None, hm_next_index = None, hm_role = role, hm_metadata = Map.empty\<rparr>"

record ClusterStatus =
  hs_leader_id :: "u64 option"
  hs_term :: u64
  hs_cluster_size :: nat
  hs_members :: "ClusterMember list"
  hs_state :: NodeState
  hs_last_log_index :: u64
  hs_last_log_term :: u64
  hs_commit_index :: u64
  hs_applied_index :: u64
  hs_health :: ClusterHealth
  hs_timestamp :: system_time

definition status_new :: "system_time \<Rightarrow> u64 option \<Rightarrow> u64 \<Rightarrow> ClusterMember list \<Rightarrow> NodeState \<Rightarrow> ClusterStatus" where
  "status_new now leader_id term members state = \<lparr>hs_leader_id = leader_id, hs_term = term, hs_cluster_size = length members,
     hs_members = members, hs_state = state, hs_last_log_index = 0, hs_last_log_term = 0, hs_commit_index = 0,
     hs_applied_index = 0, hs_health = ClusterUnknown, hs_timestamp = now\<rparr>"

record AddMemberRequest =
  ad_node_id :: u64
  ad_address :: string
  ad_role :: NodeRole
  ad_metadata :: "string \<rightharpoonup> string"

definition default_voter_role :: NodeRole where
  "default_voter_role = Voter"

record RemoveMemberRequest =
  rm_node_id :: u64
  rm_force :: bool

record TransferLeadershipRequest =
  tl_target_node_id :: u64
  tl_timeout :: duration

definition default_leadership_timeout :: duration where
  "default_leadership_timeout = from_secs 10"

record ClusterConfiguration =
  cf_config_index :: u64
  cf_members :: "ClusterMember list"
  cf_committed :: bool

record MemberOperationResponse =
  mo_success :: bool
  mo_message :: string
  mo_cluster_config :: "ClusterConfiguration option"

datatype HealthStatus = Healthy | Degraded | Unhealthy

record HealthCheck =
  hc_name :: string
  hc_status :: HealthStatus
  hc_message :: "string option"
  hc_duration :: duration

record HealthResponse =
  hr_status :: HealthStatus
  hr_timestamp :: system_time
  hr_checks :: "HealthCheck list"
  hr_uptime :: duration

definition health_healthy :: "system_time \<Rightarrow> duration \<Rightarrow> HealthResponse" where
  "health_healthy now uptime = \<lparr>hr_status = Healthy, hr_timestamp = now, hr_checks = [], hr_uptime = uptime\<rparr>"

definition with_check :: "HealthCheck \<Rightarrow> HealthResponse \<Rightarrow> HealthResponse" where
  "with_check c r = (let checks = hr_checks r @ [c] in r\<lparr>hr_checks := checks,
     hr_status := (if list_ex (\<lambda>c. hc_status c = Unhealthy) checks then Unhealthy
       else if list_ex (\<lambda>c. hc_status c = Degraded) checks then Degraded else hr_status r)\<rparr>)"

record ReadinessCheck =
  rc_name :: string
  rc_ready :: bool
  rc_message :: "string option"

record ReadinessResponse =
  rr_ready :: bool
  rr_timestamp :: system_time
  rr_checks :: "ReadinessCheck list"

definition readiness_new :: "system_time \<Rightarrow> ReadinessCheck list \<Rightarrow> ReadinessResponse" where
  "readiness_new now checks = \<lparr>rr_ready = list_all rc_ready checks, rr_timestamp = now, rr_checks = checks\<rparr>"

record MetricsResponse =
  mx_metrics :: string
  mx_content_type :: string
  mx_timestamp :: system_time

record ErrorResponse =
  er_error :: string
  er_message :: string
  er_details :: "string option"
  er_request_id :: "string option"
  er_timestamp :: system_time

definition error_response_new :: "system_time \<Rightarrow> string \<Rightarrow> string \<Rightarrow> ErrorResponse" where
  "error_response_new now err message = \<lparr>er_error = err, er_message = message, er_details = None, er_request_id = None,
     er_timestamp = now\<rparr>"

definition error_response_with_details :: "system_time \<Rightarrow> string \<Rightarrow> string \<Rightarrow> string \<Rightarrow> ErrorResponse" where
  "error_response_with_details now err message details = \<lparr>er_error = err, er_message = message, er_details = Some details,
     er_request_id = None, er_timestamp = now\<rparr>"

datatype HttpEvent =
    LeadershipChange "u64 option" "u64 option" u64 system_time
  | HttpMemberAdded ClusterMember system_time
  | HttpMemberRemoved u64 system_time
  | HealthChange ClusterHealth ClusterHealth system_time
  | LogCommitted u64 u64 system_time

text \<open>
  The timeout of a transfer is a number of seconds in the request. \<open>Duration::from_secs_f64\<close> panics, here
  None, when it is negative or does not fit in a duration.
\<close>

definition duration_serialize :: "duration \<Rightarrow> f64" where
  "duration_serialize d = as_secs_f64 d"

definition duration_deserialize :: "f64 \<Rightarrow> duration option" where
  "duration_deserialize secs = (if secs < 0 \<or> 2 ^ 64 * 1000000000 \<le> from_secs_f64 secs then None else Some (from_secs_f64 secs))"

definition transfer_request :: "u64 \<Rightarrow> f64 option \<Rightarrow> TransferLeadershipRequest option" where
  "transfer_request target timeout = map_option (\<lambda>t. \<lparr>tl_target_node_id = target, tl_timeout = t\<rparr>)
     (case timeout of None \<Rightarrow> Some default_leadership_timeout | Some secs \<Rightarrow> duration_deserialize secs)"

section \<open>Errors\<close>

datatype ApiError = ValidationError string | NotFound string | Conflict string | InternalError string
  | Unavailable string | FromRaft RaftError

definition api_error_status :: "ApiError \<Rightarrow> nat \<times> string \<times> string" where
  "api_error_status e = (case e of
     ValidationError msg \<Rightarrow> (400, ''validation_error'', msg)
   | NotFound msg \<Rightarrow> (404, ''not_found'', msg)
   | Conflict msg \<Rightarrow> (409, ''conflict'', msg)
   | InternalError msg \<Rightarrow> (500, ''internal_error'', msg)
   | Unavailable msg \<Rightarrow> (503, ''service_unavailable'', msg)
   | FromRaft err \<Rightarrow>
       (if category err = ''validation'' then 400
        else if category err = ''raft'' \<and> contains (show_error err) ''not leader'' then 409
        else if category err = ''transport'' \<or> category err = ''storage'' then 503
        else 500, category err, show_error err))"

definition from_raft_error :: "RaftError \<Rightarrow> ApiError" where
  "from_raft_error err = FromRaft err"

section \<open>Handlers\<close>

text \<open>
  The state of the application is the start of the service and the events published on the bus so
  far; the handle of the cluster is empty. None means that the server has no event bus.
\<close>

record AppState =
  as_start_time :: system_time
  as_event_bus :: "HttpEvent list option"

type_synonym 'a handler = "AppState \<Rightarrow> (ApiError + 'a) \<times> AppState"

definition publish :: "HttpEvent \<Rightarrow> AppState \<Rightarrow> AppState" where
  "publish e s = s\<lparr>as_event_bus := map_option (\<lambda>es. es @ [e]) (as_event_bus s)\<rparr>"

record ClusterStatusQuery =
  cq_detailed :: bool
  cq_include_health :: bool

definition get_cluster_status :: "system_time \<Rightarrow> ClusterStatusQuery \<Rightarrow> ClusterStatus handler" where
  "get_cluster_status now query = (\<lambda>s.
     let members = [member_new 1 ''127.0.0.1:8080'' Voter, member_new 2 ''127.0.0.1:8081'' Voter, member_new 3 ''127.0.0.1:8082'' Voter];
         status = status_new now (Some 1) 42 members Leader;
         status = (if cq_include_health query then status\<lparr>hs_health := ClusterHealthy\<rparr> else status)
     in (Inr (status\<lparr>hs_last_log_index := 1000, hs_commit_index := 1000, hs_applied_index := 1000\<rparr>), s))"

definition operation_done :: "string \<Rightarrow> MemberOperationResponse" where
  "operation_done message = \<lparr>mo_success = True, mo_message = message, mo_cluster_config = None\<rparr>"

definition add_member :: "system_time \<Rightarrow> AddMemberRequest \<Rightarrow> MemberOperationResponse handler" where
  "add_member now request = (\<lambda>s.
     if ad_node_id request = 0 then (Inl (ValidationError ''Node ID must be greater than 0''), s)
     else if ad_address request = '''' then (Inl (ValidationError ''Address cannot be empty''), s)
     else (Inr (operation_done (''Member '' @ show_word (ad_node_id request) @ '' added successfully'')),
           publish (HttpMemberAdded (member_new (ad_node_id request) (ad_address request) (ad_role request)) now) s))"

definition remove_member :: "system_time \<Rightarrow> u64 \<Rightarrow> RemoveMemberRequest option \<Rightarrow> MemberOperationResponse handler" where
  "remove_member now node_id request = (\<lambda>s.
     if node_id = 0 then (Inl (ValidationError ''Invalid node ID''), s)
     else (Inr (operation_done (''Member '' @ show_word node_id @ '' removed successfully'')),
           publish (HttpMemberRemoved node_id now) s))"

definition transfer_leadership :: "TransferLeadershipRequest \<Rightarrow> MemberOperationResponse handler" where
  "transfer_leadership request = (\<lambda>s.
     if tl_target_node_id request = 0 then (Inl (ValidationError ''Target node ID must be greater than 0''), s)
     else (Inr (operation_done (''Leadership transfer to node '' @ show_word (tl_target_node_id request) @ '' initiated'')), s))"

definition health_status_code :: "HealthStatus \<Rightarrow> nat" where
  "health_status_code h = (case h of Healthy \<Rightarrow> 200 | Degraded \<Rightarrow> 200 | Unhealthy \<Rightarrow> 503)"

definition standing_checks :: "HealthCheck list" where
  "standing_checks =
     [\<lparr>hc_name = ''storage'', hc_status = Healthy, hc_message = Some ''Storage is accessible'', hc_duration = from_millis 5\<rparr>,
      \<lparr>hc_name = ''raft'', hc_status = Healthy, hc_message = Some ''Raft consensus is operational'', hc_duration = from_millis 2\<rparr>,
      \<lparr>hc_name = ''transport'', hc_status = Healthy, hc_message = Some ''P2P transport is operational'', hc_duration = from_millis 3\<rparr>]"

definition health_check :: "system_time \<Rightarrow> (nat \<times> HealthResponse) handler" where
  "health_check now = (\<lambda>s.
     let uptime = (if as_start_time s \<le> now then nat (now - as_start_time s) else 0);
         response = fold with_check standing_checks (health_healthy now uptime)
     in (Inr (health_status_code (hr_status response), response), s))"

definition readiness_check :: "system_time \<Rightarrow> (nat \<times> ReadinessResponse) handler" where
  "readiness_check now = (\<lambda>s.
     let checks =
       [\<lparr>rc_name = ''raft_initialized'', rc_ready = True, rc_message = Some ''Raft node is initialized and ready''\<rparr>,
        \<lparr>rc_name = ''storage_ready'', rc_ready = True, rc_message = Some ''Storage backend is ready''\<rparr>,
        \<lparr>rc_name = ''transport_ready'', rc_ready = True, rc_message = Some ''Transport layer is ready''\<rparr>];
         response = readiness_new now checks
     in (Inr (if rr_ready response then 200 else 503, response), s))"

definition metric_lines :: "string list" where
  "metric_lines =
     [''# HELP raft_term Current Raft term'', ''# TYPE raft_term gauge'', ''raft_term 42'', '''',
      ''# HELP raft_log_index Current log index'', ''# TYPE raft_log_index gauge'', ''raft_log_index 1000'', '''',
      ''# HELP raft_commit_index Current commit index'', ''# TYPE raft_commit_index gauge'', ''raft_commit_index 1000'', '''',
      ''# HELP cluster_members Number of cluster members'', ''# TYPE cluster_members gauge'', ''cluster_members 3'', '''',
      ''# HELP management_api_requests_total Total number of API requests'',
      ''# TYPE management_api_requests_total counter'',
      ''management_api_requests_total{method='' @ [CHR 0x22] @ ''GET'' @ [CHR 0x22] @ '',path='' @ [CHR 0x22] @ ''/v1/metrics'' @
        [CHR 0x22] @ ''} 1'']"

definition get_metrics :: "system_time \<Rightarrow> MetricsResponse handler" where
  "get_metrics now = (\<lambda>s. (Inr \<lparr>mx_metrics = concat (map (\<lambda>l. l @ [CHR 0x0A]) metric_lines),
     mx_content_type = ''text/plain; version=0.0.4'', mx_timestamp = now\<rparr>, s))"

section \<open>Routes, middleware and the server\<close>

record 'b HttpRequest =
  rq_method :: string
  rq_path :: string
  rq_headers :: "(string \<times> string) list"
  rq_body :: 'b

record 'b HttpResponse =
  rs_status :: nat
  rs_body :: 'b

type_synonym 'b service = "'b HttpRequest \<Rightarrow> AppState \<Rightarrow> 'b HttpResponse \<times> AppState"

datatype reply = StatusReply ClusterStatus | MemberReply MemberOperationResponse | HealthReply HealthResponse
  | ReadyReply ReadinessResponse | ErrorReply ErrorResponse | TextReply string

text \<open>
  What axum and tower provide: the router of a table of routes, the layers, the merge of the API
  browser, the extractors of a handler's arguments (which may answer by themselves) and the rendering.
\<close>

record 'b axum =
  ax_router :: "(string \<times> string \<times> 'b service) list \<Rightarrow> 'b service"
  ax_swagger :: "'b service \<Rightarrow> 'b service"
  ax_body_limit :: "nat \<Rightarrow> 'b service \<Rightarrow> 'b service"
  ax_cors :: "'b service \<Rightarrow> 'b service"
  ax_trace :: "'b service \<Rightarrow> 'b service"
  ax_render :: "reply \<Rightarrow> 'b"
  ax_empty :: 'b
  ax_query :: "'b HttpRequest \<Rightarrow> 'b HttpResponse + ClusterStatusQuery"
  ax_add :: "'b HttpRequest \<Rightarrow> 'b HttpResponse + AddMemberRequest"
  ax_remove :: "'b HttpRequest \<Rightarrow> 'b HttpResponse + (u64 \<times> RemoveMemberRequest option)"
  ax_transfer :: "'b HttpRequest \<Rightarrow> 'b HttpResponse + TransferLeadershipRequest"

definition error_into_response :: "'b axum \<Rightarrow> system_time \<Rightarrow> ApiError \<Rightarrow> 'b HttpResponse" where
  "error_into_response X now e = (case api_error_status e of (status, error_type, message) \<Rightarrow>
     \<lparr>rs_status = status, rs_body = ax_render X (ErrorReply (error_response_new now error_type message))\<rparr>)"

definition endpoint :: "'b axum \<Rightarrow> system_time \<Rightarrow> ('b HttpRequest \<Rightarrow> 'b HttpResponse + 'i) \<Rightarrow> ('i \<Rightarrow> 'o handler) \<Rightarrow>
    ('o \<Rightarrow> nat \<times> reply) \<Rightarrow> 'b service" where
  "endpoint X now extract handler reply = (\<lambda>request s. case extract request of
     Inl rejection \<Rightarrow> (rejection, s)
   | Inr i \<Rightarrow> (case handler i s of
       (Inl e, s') \<Rightarrow> (error_into_response X now e, s')
     | (Inr out, s') \<Rightarrow> (\<lparr>rs_status = fst (reply out), rs_body = ax_render X (snd (reply out))\<rparr>, s')))"

definition routes :: "'b axum \<Rightarrow> system_time \<Rightarrow> (string \<times> string \<times> 'b service) list" where
  "routes X now =
     [(''/v1/health'', ''GET'', endpoint X now (\<lambda>_. Inr ()) (\<lambda>_. health_check now) (\<lambda>(code, r). (code, HealthReply r))),
      (''/v1/ready'', ''GET'', endpoint X now (\<lambda>_. Inr ()) (\<lambda>_. readiness_check now) (\<lambda>(code, r). (code, ReadyReply r))),
      (''/v1/cluster/status'', ''GET'', endpoint X now (ax_query X) (get_cluster_status now) (\<lambda>r. (200, StatusReply r))),
      (''/v1/cluster/members'', ''POST'', endpoint X now (ax_add X) (add_member now) (\<lambda>r. (200, MemberReply r))),
      (''/v1/cluster/members/:node_id'', ''DELETE'',
        endpoint X now (ax_remove X) (\<lambda>(node_id, request). remove_member now node_id request) (\<lambda>r. (200, MemberReply r))),
      (''/v1/leadership/transfer'', ''POST'', endpoint X now (ax_transfer X) transfer_leadership (\<lambda>r. (200, MemberReply r))),
      (''/v1/metrics'', ''GET'', endpoint X now (\<lambda>_. Inr ()) (\<lambda>_. get_metrics now) (\<lambda>r. (200, TextReply (mx_metrics r))))]"

text \<open>\<open>HeaderValue::to_str\<close>: visible ASCII and tabs only.\<close>

definition to_str :: "string \<Rightarrow> string option" where
  "to_str v = (if list_all (\<lambda>c. let n = of_char c in (32 \<le> n \<and> n < 127) \<or> n = (9 :: nat)) v then Some v else None)"

definition strip_prefix :: "string \<Rightarrow> string \<Rightarrow> string option" where
  "strip_prefix pre s = (if take (length pre) s = pre then Some (drop (length pre) s) else None)"

definition unauthorized :: "'b axum \<Rightarrow> 'b HttpResponse" where
  "unauthorized X = \<lparr>rs_status = 401, rs_body = ax_empty X\<rparr>"

definition auth_middleware :: "'b axum \<Rightarrow> ManagementConfig \<Rightarrow> 'b service \<Rightarrow> 'b service" where
  "auth_middleware X config next_service = (\<lambda>request s.
     if \<not> sec_require_auth (mc_security config) then next_service request s
     else if rq_path request = ''/v1/health'' \<or> rq_path request = ''/v1/ready'' then next_service request s
     else (case sec_api_key (mc_security config) of
         None \<Rightarrow> (unauthorized X, s)
       | Some expected_key \<Rightarrow> (case map_of (rq_headers request) ''authorization'' of
           None \<Rightarrow> (unauthorized X, s)
         | Some auth_header \<Rightarrow> (case Option.bind (to_str auth_header) (strip_prefix ''Bearer '') of
             None \<Rightarrow> (unauthorized X, s)
           | Some key \<Rightarrow> if key = expected_key then next_service request s else (unauthorized X, s)))))"

text \<open>The metrics of a request are only logged.\<close>

definition request_metrics_middleware :: "'b service \<Rightarrow> 'b service" where
  "request_metrics_middleware next_service = next_service"

text \<open>Each \<open>layer\<close> wraps what is there, so the last one sees a request first.\<close>

definition build_router :: "'b axum \<Rightarrow> system_time \<Rightarrow> ManagementConfig \<Rightarrow> 'b service" where
  "build_router X now config =
     (let router = ax_router X (routes X now);
          router = (if mc_enable_swagger_ui config then ax_swagger X router else router);
          router = ax_body_limit X (mc_max_request_size config) router;
          router = (if mc_enable_cors config then ax_cors X router else router);
          router = request_metrics_middleware (ax_trace X router)
      in if sec_require_auth (mc_security config) then auth_middleware X config router else router)"

text \<open>
  Of the three events the running server waits for, the shutdown signal never comes: its only
  sender is the server itself, which sends it in \<open>shutdown\<close>, after the wait.
\<close>

datatype serve_event = ServerEnded "error_text + unit" | ShutdownSignal | CtrlC

record ServerState =
  sv_running :: bool
  sv_cleanup_started :: bool

definition serve :: "ManagementConfig \<Rightarrow> (error_text + unit) \<Rightarrow> serve_event \<Rightarrow> (RaftError + unit) \<times> ServerState" where
  "serve config bound ev =
     (let idle = \<lparr>sv_running = False, sv_cleanup_started = False\<rparr>;
          up = \<lparr>sv_running = True, sv_cleanup_started = ws_enabled (mc_websocket config)\<rparr> in
      case validate config of Inl e \<Rightarrow> (Inl e, idle)
      | Inr _ \<Rightarrow> (case bound of Inl e \<Rightarrow> (Inl (Io ''bind_address'' e), idle)
        | Inr _ \<Rightarrow> (case ev of
            ServerEnded (Inl e) \<Rightarrow> (Inl (Internal (''HTTP server error: '' @ e)), up)
          | _ \<Rightarrow> (Inr (), up\<lparr>sv_running := False\<rparr>))))"

record ServerInfo =
  si_version :: string
  si_uptime :: duration
  si_bind_address :: string
  si_swagger_ui_enabled :: bool
  si_cors_enabled :: bool
  si_websocket_enabled :: bool
  si_auth_required :: bool
  si_total_requests :: u64
  si_active_websocket_connections :: nat
  si_avg_request_duration_ms :: f64

definition server_info :: "string \<Rightarrow> system_time \<Rightarrow> AppState \<Rightarrow> ServerInfo" where
  "server_info version now s = \<lparr>si_version = version,
     si_uptime = (if as_start_time s \<le> now then nat (now - as_start_time s) else 0),
     si_bind_address = ''unknown'', si_swagger_ui_enabled = True, si_cors_enabled = True, si_websocket_enabled = True,
     si_auth_required = False, si_total_requests = 0, si_active_websocket_connections = 0, si_avg_request_duration_ms = 0\<rparr>"


section \<open>What validation checks\<close>

lemma http_config_valid_iff:
  "validate c = Inr () \<longleftrightarrow>
    (sec_enable_tls (mc_security c) \<longrightarrow> sec_tls_cert_path (mc_security c) \<noteq> None \<and> sec_tls_key_path (mc_security c) \<noteq> None) \<and>
    (rl_enabled (mc_rate_limit c) \<longrightarrow> 0 < rl_requests_per_minute (mc_rate_limit c)) \<and>
    (ws_enabled (mc_websocket c) \<longrightarrow> 0 < ws_max_connections (mc_websocket c))"
  by (auto simp: validate_def management_invalid_def word_neq_0_conv)

lemma default_validates: "validate default_config = Inr ()"
  by (simp add: http_config_valid_iff default_config_def default_security_def default_rate_limit_def default_websocket_def)

text \<open>The calls that set one thing at a time keep a valid configuration valid.\<close>

fun single_setting :: "builder_call \<Rightarrow> bool" where
  "single_setting (RateLimit _) = False"
| "single_setting (Security _) = False"
| "single_setting (Websocket _) = False"
| "single_setting _ = True"

lemma built_validates: "list_all single_setting calls \<Longrightarrow> validate (build calls) = Inr ()"
proof -
  assume calls: "list_all single_setting calls"
  have "rl_requests_per_minute (mc_rate_limit (fold builder_apply calls c)) = rl_requests_per_minute (mc_rate_limit c) \<and>
      mc_websocket (fold builder_apply calls c) = mc_websocket c \<and>
      (sec_enable_tls (mc_security (fold builder_apply calls c)) \<longrightarrow>
        sec_tls_cert_path (mc_security (fold builder_apply calls c)) \<noteq> None \<and> sec_tls_key_path (mc_security (fold builder_apply calls c)) \<noteq> None)"
    if "sec_enable_tls (mc_security c) \<longrightarrow> sec_tls_cert_path (mc_security c) \<noteq> None \<and> sec_tls_key_path (mc_security c) \<noteq> None" for c
    using calls that
  proof (induction calls arbitrary: c)
    case (Cons x xs)
    then show ?case using Cons.IH[of "builder_apply x c"] by (cases x) auto
  qed simp
  from this[of default_config] show ?thesis
    by (simp add: http_config_valid_iff build_def) (simp add: default_config_def default_security_def default_rate_limit_def default_websocket_def)
qed

section \<open>Health and readiness\<close>

fun worse :: "HealthStatus \<Rightarrow> HealthStatus \<Rightarrow> HealthStatus" where
  "worse Unhealthy _ = Unhealthy"
| "worse _ Unhealthy = Unhealthy"
| "worse Degraded _ = Degraded"
| "worse _ Degraded = Degraded"
| "worse Healthy Healthy = Healthy"

definition worst :: "HealthStatus list \<Rightarrow> HealthStatus" where
  "worst hs = foldr worse hs Healthy"

lemma worst_iff:
  "worst hs = (if Unhealthy \<in> set hs then Unhealthy else if Degraded \<in> set hs then Degraded else Healthy)"
proof (induction hs)
  case (Cons h hs)
  then show ?case by (cases h) (auto simp: worst_def)
qed (simp add: worst_def)

lemma ex_status:
  "list_ex (\<lambda>c. hc_status c = h) cs \<longleftrightarrow> h \<in> hc_status ` set cs"
  "(\<exists>c\<in>set cs. hc_status c = h) \<longleftrightarrow> h \<in> hc_status ` set cs"
  by (auto simp: list_ex_iff image_iff)

lemma with_check_worst:
  "hr_status r = worst (map hc_status (hr_checks r)) \<Longrightarrow>
   hr_status (with_check c r) = worst (map hc_status (hr_checks (with_check c r)))"
  by (simp add: with_check_def worst_iff ex_status Let_def)

lemma checks_worst:
  "hr_status r = worst (map hc_status (hr_checks r)) \<Longrightarrow>
   hr_checks (fold with_check cs r) = hr_checks r @ cs \<and>
   hr_status (fold with_check cs r) = worst (map hc_status (hr_checks r @ cs))"
proof (induction cs arbitrary: r)
  case (Cons c cs)
  from Cons.IH[OF with_check_worst[OF Cons.prems, of c]] show ?case by (simp add: with_check_def Let_def)
qed simp

text \<open>
  Built check by check, the response of a health check reports every check in order and
  its overall status is the worst of theirs, so the answer is 503 exactly when some check is unhealthy;
  the endpoint itself runs no check and always answers 200.
\<close>

lemma health_is_worst:
  "hr_status (fold with_check cs (health_healthy now uptime)) = worst (map hc_status cs)"
  "health_status_code (hr_status (fold with_check cs (health_healthy now uptime))) = 503 \<longleftrightarrow> (\<exists>c\<in>set cs. hc_status c = Unhealthy)"
  using checks_worst[of "health_healthy now uptime" cs]
  by (simp_all add: health_healthy_def worst_iff health_status_code_def ex_status)

lemma standing_health: "\<exists>r. health_check now s = (Inr (200, r), s) \<and> hr_checks r = standing_checks"
  using health_is_worst(1)[of standing_checks now] checks_worst[of "health_healthy now _" standing_checks]
  by (auto simp: health_check_def Let_def health_status_code_def worst_iff standing_checks_def health_healthy_def with_check_def)

lemma readiness_iff: "rr_ready (readiness_new now cs) \<longleftrightarrow> (\<forall>c\<in>set cs. rc_ready c)"
  by (simp add: readiness_new_def list_all_iff)

section \<open>Errors\<close>

text \<open>
  The status of an error is decided by its category, except for the refusal of a node that
  is not the leader: the handlers look for the words \<open>not leader\<close> in its text, which begins with
  \<open>Not leader\<close>, so the refusal is answered with 500, as an internal error, and with 409 only
  when the name of the operation itself holds those words.
\<close>

theorem not_leader_status:
  "fst (api_error_status (from_raft_error (NotLeader operation current_leader))) =
    (if contains operation ''not leader'' then 409 else 500)"
  by (simp add: api_error_status_def from_raft_error_def not_leader_text category_def)

lemma raft_error_status:
  "fst (api_error_status (from_raft_error e)) \<in> {400, 409, 500, 503}"
  "category e \<noteq> ''raft'' \<Longrightarrow> fst (api_error_status (from_raft_error e)) =
    (if category e = ''validation'' then 400 else if category e \<in> {''transport'', ''storage''} then 503 else 500)"
  by (auto simp: api_error_status_def from_raft_error_def)

text \<open>An aggregate is an internal error whatever it holds.\<close>

lemma multiple_is_internal: "fst (api_error_status (from_raft_error (Multiple ctx errors))) = 500"
  by (simp add: api_error_status_def from_raft_error_def category_def)

lemma negative_timeout_panics: "secs < 0 \<Longrightarrow> transfer_request target (Some secs) = None"
  by (simp add: transfer_request_def duration_deserialize_def)

section \<open>Authentication\<close>

definition presents_key :: "ManagementConfig \<Rightarrow> 'b HttpRequest \<Rightarrow> bool" where
  "presents_key config request \<longleftrightarrow> (case sec_api_key (mc_security config) of None \<Rightarrow> False
     | Some k \<Rightarrow> map_of (rq_headers request) ''authorization'' = Some (''Bearer '' @ k) \<and> to_str k = Some k)"

definition without_auth :: "ManagementConfig \<Rightarrow> ManagementConfig" where
  "without_auth config = config\<lparr>mc_security := (mc_security config)\<lparr>sec_require_auth := False\<rparr>\<rparr>"

lemma bearer_iff:
  "Option.bind (to_str h) (strip_prefix ''Bearer '') = Some k \<longleftrightarrow> h = ''Bearer '' @ k \<and> to_str k = Some k"
proof -
  have "strip_prefix p s = Some k \<longleftrightarrow> s = p @ k" for p s
    by (auto simp: strip_prefix_def) (metis append_take_drop_id)
  moreover have "to_str (''Bearer '' @ k) = Some (''Bearer '' @ k) \<longleftrightarrow> to_str k = Some k"
    by (simp add: to_str_def Let_def)
  moreover have "to_str h = Some s \<Longrightarrow> s = h" for s by (simp add: to_str_def split: if_splits)
  ultimately show ?thesis by (cases "to_str h") (auto simp: to_str_def split: if_splits)
qed

text \<open>
  C11: A server that requires authentication answers every request to a path other than the two
  health paths with 401, before any other layer or route has seen it, unless its first
  authorization header is \<open>Bearer\<close> with the configured key; then it behaves as the same server without
  authentication. So a preflight of a browser, which carries no such header, gets 401 even
  with CORS enabled, and with no key configured nobody gets in.
\<close>

theorem auth_guards_every_route:
  assumes "sec_require_auth (mc_security config)" and "rq_path request \<notin> {''/v1/health'', ''/v1/ready''}"
  shows "build_router X now config request s =
    (if presents_key config request then build_router X now (without_auth config) request s else (unauthorized X, s))"
proof -
  let ?inner = "build_router X now (without_auth config)"
  have b: "build_router X now config = auth_middleware X config ?inner"
    using assms(1) by (simp add: build_router_def without_auth_def Let_def)
  show ?thesis
  proof (cases "\<exists>k h. sec_api_key (mc_security config) = Some k \<and> map_of (rq_headers request) ''authorization'' = Some h")
    case True
    then obtain k h where k: "sec_api_key (mc_security config) = Some k" and h: "map_of (rq_headers request) ''authorization'' = Some h" by blast
    show ?thesis
    proof (cases "Option.bind (to_str h) (strip_prefix ''Bearer '')")
      case None
      then show ?thesis using k h assms bearer_iff[of h k] unfolding b by (auto simp: auth_middleware_def presents_key_def)
    next
      case (Some k')
      have "k' = k \<longleftrightarrow> presents_key config request" using Some bearer_iff[of h k'] bearer_iff[of h k] k h by (auto simp: presents_key_def)
      then show ?thesis using Some k h assms unfolding b by (simp add: auth_middleware_def)
    qed
  next
    case False
    then show ?thesis using assms unfolding b by (auto simp: auth_middleware_def presents_key_def split: option.splits)
  qed
qed

section \<open>The cluster behind the handlers\<close>

datatype http_call = AskStatus ClusterStatusQuery | AskAdd AddMemberRequest | AskRemove u64 "RemoveMemberRequest option"
  | AskTransfer TransferLeadershipRequest

definition call_state :: "system_time \<Rightarrow> http_call \<Rightarrow> AppState \<Rightarrow> AppState" where
  "call_state now c s = (case c of AskStatus q \<Rightarrow> snd (get_cluster_status now q s) | AskAdd r \<Rightarrow> snd (add_member now r s)
     | AskRemove i r \<Rightarrow> snd (remove_member now i r s) | AskTransfer r \<Rightarrow> snd (transfer_leadership r s))"

definition call_events :: "system_time \<Rightarrow> http_call \<Rightarrow> HttpEvent list" where
  "call_events now c = (case c of
     AskAdd r \<Rightarrow> if ad_node_id r \<noteq> 0 \<and> ad_address r \<noteq> '''' then [HttpMemberAdded (member_new (ad_node_id r) (ad_address r) (ad_role r)) now] else []
   | AskRemove i r \<Rightarrow> if i \<noteq> 0 then [HttpMemberRemoved i now] else []
   | _ \<Rightarrow> [])"

lemma call_state_events: "call_state now c s = s\<lparr>as_event_bus := map_option (\<lambda>es. es @ call_events now c) (as_event_bus s)\<rparr>"
  by (cases c; cases "as_event_bus s")
    (simp_all add: call_state_def call_events_def get_cluster_status_def add_member_def remove_member_def transfer_leadership_def publish_def Let_def)

text \<open>
  Whatever requests the handlers have served, the status they report has the same three
  members, leader 1 in term 42 and the same indices, while each request to add a member with an id
  and an address is answered with success, members of the cluster and members removed before
  included; all that is left of the requests is their events on the bus.
\<close>

theorem http_cluster_is_constant:
  fixes calls and s0 and now defines "s \<equiv> fold (\<lambda>(t, c). call_state t c) calls s0"
  assumes "as_event_bus s0 = Some es"
  shows "as_event_bus s = Some (es @ concat (map (\<lambda>(t, c). call_events t c) calls)) \<and>
    (\<exists>st. get_cluster_status now q s = (Inr st, s) \<and> map hm_id (hs_members st) = [1, 2, 3] \<and> hs_leader_id st = Some 1 \<and>
      hs_term st = 42 \<and> hs_commit_index st = 1000) \<and>
    (is_ok (fst (add_member now r s)) \<longleftrightarrow> ad_node_id r \<noteq> 0 \<and> ad_address r \<noteq> '''')"
proof -
  have "as_event_bus s = Some (es @ concat (map (\<lambda>(t, c). call_events t c) calls))"
    using assms(2) unfolding s_def
    by (induction calls arbitrary: s0 es) (auto simp: call_state_events)
  then show ?thesis by (auto simp: get_cluster_status_def Let_def status_new_def member_new_def add_member_def)
qed

section \<open>The server\<close>

text \<open>
  The server validates the certificate paths of a configuration with TLS and then
  binds and serves as it does without.
\<close>

lemma tls_makes_no_difference:
  assumes "validate config = Inr ()"
  shows "serve config bound ev = serve (config\<lparr>mc_security := (mc_security config)\<lparr>sec_enable_tls := False\<rparr>\<rparr>) bound ev"
  using assms by (auto simp: serve_def validate_def management_invalid_def split: if_splits)

lemma rate_limit_makes_no_difference:
  "build_router X now (config\<lparr>mc_rate_limit := r\<rparr>) = build_router X now config"
  by (simp add: build_router_def auth_middleware_def fun_eq_iff Let_def)

lemma request_timeout_makes_no_difference:
  "build_router X now (config\<lparr>mc_request_timeout := d\<rparr>) = build_router X now config"
  by (simp add: build_router_def auth_middleware_def fun_eq_iff Let_def)

section \<open>Witnesses\<close>

definition plain_axum :: "string axum" where
  "plain_axum = \<lparr>ax_router = (\<lambda>table request s. case map_of (map (\<lambda>(p, m, f). ((p, m), f)) table) (rq_path request, rq_method request) of
        Some f \<Rightarrow> f request s | None \<Rightarrow> (\<lparr>rs_status = 404, rs_body = ''''\<rparr>, s)),
     ax_swagger = id, ax_body_limit = (\<lambda>_. id), ax_cors = (\<lambda>inner request s. if rq_method request = ''OPTIONS''
        then (\<lparr>rs_status = 200, rs_body = ''''\<rparr>, s) else inner request s),
     ax_trace = id, ax_render = (\<lambda>_. ''json''), ax_empty = '''',
     ax_query = (\<lambda>_. Inr \<lparr>cq_detailed = False, cq_include_health = False\<rparr>), ax_add = (\<lambda>_. Inl \<lparr>rs_status = 422, rs_body = ''''\<rparr>),
     ax_remove = (\<lambda>_. Inl \<lparr>rs_status = 422, rs_body = ''''\<rparr>), ax_transfer = (\<lambda>_. Inl \<lparr>rs_status = 422, rs_body = ''''\<rparr>)\<rparr>"

definition preflight :: "string HttpRequest" where
  "preflight = \<lparr>rq_method = ''OPTIONS'', rq_path = ''/v1/cluster/members'', rq_headers = [(''origin'', ''https://ui'')], rq_body = ''''\<rparr>"

lemma auth_guards_every_route_witness:
  "build_router plain_axum 0 (build [ApiKey ''k'', EnableCors True]) preflight \<lparr>as_start_time = 0, as_event_bus = None\<rparr> = (\<lparr>rs_status = 401, rs_body = ''''\<rparr>, \<lparr>as_start_time = 0, as_event_bus = None\<rparr>)"
proof -
  have "\<not> presents_key (build [ApiKey ''k'', EnableCors True]) preflight"
    by (simp add: presents_key_def build_def preflight_def)
  then show ?thesis
    using auth_guards_every_route[of "build [ApiKey ''k'', EnableCors True]" preflight plain_axum 0]
    by (simp add: build_def preflight_def unauthorized_def plain_axum_def)
qed

lemma http_cluster_is_constant_witness:
  "is_ok (fst (add_member 5 \<lparr>ad_node_id = 2, ad_address = ''a'', ad_role = Voter, ad_metadata = Map.empty\<rparr>
     (fold (\<lambda>(t, c). call_state t c) [(1, AskRemove 1 None)] \<lparr>as_start_time = 0, as_event_bus = Some []\<rparr>)))"
  using http_cluster_is_constant[of "\<lparr>as_start_time = 0, as_event_bus = Some []\<rparr>" "[]" "[(1, AskRemove 1 None)]" 5 _
    "\<lparr>ad_node_id = 2, ad_address = ''a'', ad_role = Voter, ad_metadata = Map.empty\<rparr>"] by simp

end
