(* ===== verification/SimpleTransport.thy ===== *)
theory SimpleTransport
  imports Actions Config Steps
begin

text \<open>
  \<open>src/src/transport/simple.rs\<close>: the transport that \<open>transport/mod.rs\<close> exports and \<open>node.rs\<close> uses, with its
  peers and its running flag, and the mock for tests; and \<open>src/src/discovery/registry.rs\<close>, the map from
  cluster ids to addresses. The endpoint of iroh and the messages of the raft crate are parameters:
  \<open>recipient\<close> reads the field \<open>to\<close>.
\<close>

section \<open>The transport\<close>

text \<open>
  The endpoint is a field nobody sets, the queue of outgoing messages one nobody fills or reads.
\<close>

record ('peer, 'ep, 'm) IrohTransport =
  it_config :: NodeConfig
  it_endpoint :: "'ep option"
  it_peers :: "u64 \<rightharpoonup> 'peer"
  it_outgoing :: "(u64 \<times> 'm) list"
  it_running :: bool

definition transport_new :: "NodeConfig \<Rightarrow> RaftError + ('peer, 'ep, 'm) IrohTransport" where
  "transport_new config = Inr \<lparr>it_config = config, it_endpoint = None, it_peers = Map.empty, it_outgoing = [], it_running = False\<rparr>"

text \<open>\<open>bound\<close> is what binding an endpoint with a fresh key gives; the endpoint is dropped.\<close>

definition transport_start :: "error_text + 'ep \<Rightarrow> (('peer, 'ep, 'm) IrohTransport, unit) action" where
  "transport_start bound = (case bound of
     Inl e \<Rightarrow> act_fail (transport_error (''create iroh endpoint: '' @ e))
   | Inr endpoint \<Rightarrow> act_update (\<lambda>t. t\<lparr>it_running := True\<rparr>))"

definition transport_stop :: "(('peer, 'ep, 'm) IrohTransport, unit) action" where
  "transport_stop = act_update (\<lambda>t. t\<lparr>it_running := False\<rparr>)"

definition send_message :: "('m \<Rightarrow> u64) \<Rightarrow> 'm \<Rightarrow> (('peer, 'ep, 'm) IrohTransport, unit) action" where
  "send_message recipient message = act_with id (\<lambda>t. let to = recipient message in
     if \<not> it_running t then act_return ()
     else if it_peers t to = None then act_return ()
     else act_return ())"

definition add_peer :: "u64 \<Rightarrow> 'peer \<Rightarrow> (('peer, 'ep, 'm) IrohTransport, unit) action" where
  "add_peer peer_id iroh_id = act_update (\<lambda>t. t\<lparr>it_peers := (it_peers t)(peer_id \<mapsto> iroh_id)\<rparr>)"

definition remove_peer :: "u64 \<Rightarrow> (('peer, 'ep, 'm) IrohTransport, unit) action" where
  "remove_peer peer_id = act_update (\<lambda>t. t\<lparr>it_peers := (it_peers t)(peer_id := None)\<rparr>)"

definition connected_peers :: "('peer, 'ep, 'm) IrohTransport \<Rightarrow> u64 set" where
  "connected_peers t = dom (it_peers t)"

section \<open>The mock\<close>

record 'm MockTransport =
  mk_node_id :: u64
  mk_sent_messages :: "'m list"
  mk_message_handler :: "('m \<Rightarrow> RaftError + unit) option"

definition mock_new :: "u64 \<Rightarrow> 'm MockTransport" where
  "mock_new i = \<lparr>mk_node_id = i, mk_sent_messages = [], mk_message_handler = None\<rparr>"

definition with_message_handler :: "('m \<Rightarrow> RaftError + unit) \<Rightarrow> 'm MockTransport \<Rightarrow> 'm MockTransport" where
  "with_message_handler handler t = t\<lparr>mk_message_handler := Some handler\<rparr>"

definition mock_send :: "'m \<Rightarrow> ('m MockTransport, unit) action" where
  "mock_send message = act_update (\<lambda>t. t\<lparr>mk_sent_messages := mk_sent_messages t @ [message]\<rparr>)"

definition clear_sent_messages :: "'m MockTransport \<Rightarrow> 'm MockTransport" where
  "clear_sent_messages t = t\<lparr>mk_sent_messages := []\<rparr>"

definition receive_message :: "'m \<Rightarrow> 'm MockTransport \<Rightarrow> RaftError + unit" where
  "receive_message message t = (case mk_message_handler t of None \<Rightarrow> Inr () | Some handler \<Rightarrow> handler message)"

section \<open>The registry\<close>

record ('id, 'addr) NodeRegistryEntry =
  ne_cluster_node_id :: u64
  ne_iroh_node_id :: 'id
  ne_node_addr :: 'addr
  ne_bind_address :: "string option"

type_synonym ('id, 'addr) registry = "u64 \<rightharpoonup> ('id, 'addr) NodeRegistryEntry"

definition register_node :: "u64 \<Rightarrow> 'id \<Rightarrow> 'addr \<Rightarrow> string option \<Rightarrow> (('id, 'addr) registry, unit) action" where
  "register_node cluster_node_id iroh_node_id node_addr bound_to = act_update (\<lambda>entries. entries(cluster_node_id \<mapsto>
     \<lparr>ne_cluster_node_id = cluster_node_id, ne_iroh_node_id = iroh_node_id, ne_node_addr = node_addr, ne_bind_address = bound_to\<rparr>))"

text \<open>The error \<open>NotFound\<close> that this module returns is not a variant of the error type; it is the resource it names.\<close>

definition get_node_addr :: "u64 \<Rightarrow> ('id, 'addr) registry \<Rightarrow> string + 'addr" where
  "get_node_addr cluster_node_id entries = (case entries cluster_node_id of
     None \<Rightarrow> Inl (''Node '' @ show_nat (unat cluster_node_id) @ '' in registry'')
   | Some e \<Rightarrow> Inr (ne_node_addr e))"

definition list_nodes :: "('id, 'addr) registry \<Rightarrow> ('id, 'addr) NodeRegistryEntry set" where
  "list_nodes entries = ran entries"

lemma registry_lookup:
  "get_node_addr i (snd (register_node j k a b entries)) = (if i = j then Inr a else get_node_addr i entries)"
  by (simp add: register_node_def get_node_addr_def)

lemma registry_entry_ids:
  "(\<And>i e. entries i = Some e \<Longrightarrow> ne_cluster_node_id e = i) \<Longrightarrow>
   snd (register_node j k a b entries) i = Some e \<Longrightarrow> ne_cluster_node_id e = i"
  by (auto simp: register_node_def split: if_splits)

section \<open>What the transport does with messages\<close>

datatype ('peer, 'ep, 'm) transport_call = Start "error_text + 'ep" | Stop | Send 'm | AddPeer u64 'peer | RemovePeer u64

definition call_transport :: "('m \<Rightarrow> u64) \<Rightarrow> ('peer, 'ep, 'm) transport_call \<Rightarrow> (('peer, 'ep, 'm) IrohTransport, unit) action" where
  "call_transport recipient c = (case c of Start bound \<Rightarrow> transport_start bound | Stop \<Rightarrow> transport_stop
     | Send m \<Rightarrow> send_message recipient m | AddPeer i p \<Rightarrow> add_peer i p | RemovePeer i \<Rightarrow> remove_peer i)"

inductive transport_step :: "('m \<Rightarrow> u64) \<Rightarrow> ('peer, 'ep, 'm) IrohTransport \<Rightarrow> ('peer, 'ep, 'm) transport_call \<times> (RaftError + unit) \<Rightarrow>
    ('peer, 'ep, 'm) IrohTransport \<Rightarrow> bool" for recipient where
  called: "call_transport recipient c t = (r, t') \<Longrightarrow> transport_step recipient t (c, r) t'"

inductive_cases transport_stepE: "transport_step recipient t e t'"

definition transport_fresh :: "('peer, 'ep, 'm) IrohTransport \<Rightarrow> bool" where
  "transport_fresh t \<longleftrightarrow> (\<exists>config. transport_new config = Inr t)"

definition silent :: "('peer, 'ep, 'm) IrohTransport \<Rightarrow> bool" where
  "silent t \<longleftrightarrow> it_outgoing t = [] \<and> it_endpoint t = None"

lemma send_does_nothing [simp]: "send_message recipient m t = (Inr (), t)"
  by (simp add: send_message_def Let_def)

lemmas transport_defs = call_transport_def transport_start_def transport_stop_def add_peer_def remove_peer_def

lemma transport_fresh_silent: "transport_fresh t \<Longrightarrow> silent t"
  by (auto simp: transport_fresh_def transport_new_def silent_def)

lemma transport_step_silent: "transport_step recipient t e t' \<Longrightarrow> silent t \<Longrightarrow> silent t'"
  by (elim transport_stepE) (auto simp: transport_defs silent_def split: transport_call.splits sum.splits)

interpretation transport: invariant_of transport_fresh "transport_step recipient" silent
  by unfold_locales (auto intro: transport_fresh_silent transport_step_silent)

text \<open>The running flag is that of the last start that bound an endpoint or the last stop.\<close>

fun runs_after :: "bool \<Rightarrow> ('peer, 'ep, 'm) transport_call list \<Rightarrow> bool" where
  "runs_after b [] = b"
| "runs_after b (Start (Inr _) # cs) = runs_after True cs"
| "runs_after b (Stop # cs) = runs_after False cs"
| "runs_after b (_ # cs) = runs_after b cs"

lemma running_after: "run (transport_step recipient) t es t' \<Longrightarrow> it_running t' = runs_after (it_running t) (map fst es)"
proof (induction rule: run.induct)
  case (run_step t e t' es u)
  from run_step.hyps(1) obtain c r where "e = (c, r)" "call_transport recipient c t = (r, t')" by (auto elim: transport_stepE)
  with run_step.IH show ?case
    by (cases c; simp add: transport_defs split: sum.splits) (auto)
qed simp

text \<open>
  Nothing that is handed to the transport is ever sent. After any calls, started or not,
  with the peer known or not, a message is accepted with success, the state is as before, no
  message waits to go out and there is no endpoint it could go out on.
\<close>

theorem transport_drops_every_message:
  assumes "reachable transport_fresh (transport_step recipient) t"
  shows "send_message recipient m t = (Inr (), t) \<and> it_outgoing t = [] \<and> it_endpoint t = None"
  using transport.always[OF assms] by (simp add: silent_def)

lemma transport_drops_every_message_witness:
  fixes t :: "(nat, unit, u64) IrohTransport"
  defines "t \<equiv> snd (add_peer 2 7 (snd (transport_start (Inr ()) (projr (transport_new default_node)))))"
  shows "send_message id 2 t = (Inr (), t) \<and> it_outgoing t = [] \<and> it_endpoint t = None"
proof (rule transport_drops_every_message)
  let ?t0 = "projr (transport_new default_node) :: (nat, unit, u64) IrohTransport"
  let ?t1 = "snd (transport_start (Inr ()) ?t0)"
  have "transport_fresh ?t0" by (auto simp: transport_fresh_def transport_new_def)
  moreover have "transport_step id ?t0 (Start (Inr ()), Inr ()) ?t1"
    by (rule called) (simp add: call_transport_def transport_start_def)
  moreover have "transport_step id ?t1 (AddPeer 2 7, Inr ()) t"
    unfolding t_def by (rule called) (simp add: call_transport_def add_peer_def)
  ultimately show "reachable transport_fresh (transport_step id) t"
    by (blast intro: reachable_init reachable_step)
qed

end
