(* ===== verification/ManagerStart.thy ===== *)
theory ManagerStart
  imports Handlers
begin

text \<open>
  \<open>src/src/raft/core.rs\<close>, the two ends of the life of a manager: \<open>RaftManager::new\<close> with the batch
  processor it may put in front of its proposals, and \<open>run\<close>, from the bootstrap to the first error of the
  loop, with the experimental run on the event loop; and \<open>init_raft\<close> of \<open>storage/redb.rs\<close>. The creation of the raft node, the global
  configuration and the application's machine are arguments.
\<close>

section \<open>Creating a manager\<close>

text \<open>The settings the raft crate is given.\<close>

record RaftCrateConfig =
  rcc_id :: u64
  rcc_election_tick :: nat
  rcc_heartbeat_tick :: nat
  rcc_applied :: u64
  rcc_max_size_per_msg :: u64
  rcc_max_inflight_msgs :: nat

definition raft_crate_config :: "u64 \<Rightarrow> RaftCrateConfig" where
  "raft_crate_config i = \<lparr>rcc_id = i, rcc_election_tick = 10, rcc_heartbeat_tick = 3, rcc_applied = 0,
     rcc_max_size_per_msg = 1024 * 1024, rcc_max_inflight_msgs = 256\<rparr>"

text \<open>
  \<open>init_raft\<close> of \<open>storage/redb.rs\<close> makes a node from the same ticks and takes the rest from the defaults
  of the raft crate.
\<close>

definition init_raft :: "(RaftCrateConfig \<Rightarrow> 'db \<Rightarrow> error_text + 'n) \<Rightarrow> RaftCrateConfig \<Rightarrow> u64 \<Rightarrow> 'db \<Rightarrow> RaftError + 'n" where
  "init_raft raw_node_new default_config i db = map_err (raft_failure ''initialize raft node'')
     (raw_node_new (default_config\<lparr>rcc_id := i, rcc_election_tick := 10, rcc_heartbeat_tick := 3\<rparr>) db)"

text \<open>
  \<open>enabled\<close> is what the global configuration says of batch processing, or that it cannot be read. The
  result tells whether proposals go through a batch processor; without the shared state it is
  never asked for.
\<close>

definition setup_batch_processing :: "error_text + bool \<Rightarrow> SharedNodeState option \<Rightarrow> RaftError + bool" where
  "setup_batch_processing enabled shared = (case shared of
     None \<Rightarrow> Inr False
   | Some _ \<Rightarrow> (case enabled of
       Inl e \<Rightarrow> Inl (Internal (''Failed to get config: '' @ e))
     | Inr b \<Rightarrow> Inr b))"

definition manager_new :: "(RaftCrateConfig \<Rightarrow> 'db \<Rightarrow> error_text + 'n) \<Rightarrow> error_text + bool \<Rightarrow> 's \<Rightarrow>
    u64 \<Rightarrow> 'db \<Rightarrow> (u64 \<times> string) list \<Rightarrow> SharedNodeState option \<Rightarrow> RaftError + (('n, 'db, 's) RaftManager \<times> bool)" where
  "manager_new raw_node_new enabled machine i db peers shared =
     and_then (map_err (raft_failure ''create raft node'') (raw_node_new (raft_crate_config i) db)) (\<lambda>node.
     and_then (setup_batch_processing enabled shared) (\<lambda>batched.
       Inr (\<lparr>manager_id = i, raft_node = node, manager_db = db, machine_state = machine,
         manager_peers = map_of (rev peers), needs_replication = False, last_compaction_index = None,
         pending_proposals = Map.empty, answers = [], outgoing = [], outgoing_open = True, shared_state = shared\<rparr>, batched)))"

section \<open>Running it\<close>

text \<open>The experimental run: the handlers and the loop of \<open>event_loop.rs\<close>, without a bootstrap.\<close>

definition run_with_event_loop :: "('n, 'db, 'tx, 'e, 's) deps \<Rightarrow> (('n, 'db, 's) RaftManager, unit) action
    \<Rightarrow> event list \<Rightarrow> ('n, 'db, 's) RaftManager \<Rightarrow> loop_end \<times> ('n, 'db, 's) RaftManager" where
  "run_with_event_loop D on_ready_fn evs = create_standard D on_ready_fn evs"

definition manager_report_snapshot :: "('n, 'db, 'tx, 'e, 's) deps \<Rightarrow> u64 \<Rightarrow> bool \<Rightarrow> (('n, 'db, 's) RaftManager, unit) action" where
  "manager_report_snapshot D to status = report_snapshot D to status"

section \<open>A manager from its creation to its end\<close>

lemma manager_new_init: "manager_new rn enabled machine i db peers shared = Inr (m, batched) \<Longrightarrow> manager_init m"
  by (auto simp: manager_new_def and_then_Inr_iff manager_init_def)

lemma manager_new_fails:
  "manager_new rn enabled machine i db peers shared = Inl e \<Longrightarrow>
   (\<exists>x. rn (raft_crate_config i) db = Inl x \<and> e = raft_failure ''create raft node'' x) \<or>
   (\<exists>x. enabled = Inl x \<and> shared \<noteq> None \<and> e = Internal (''Failed to get config: '' @ x))"
  by (cases "rn (raft_crate_config i) db")
    (auto simp: manager_new_def and_then_Inl_iff setup_batch_processing_def split: option.splits sum.splits)

lemma run_start_answers: "keeps answers_ok (run_start D)"
  unfolding run_start_def bootstrap_single_node_def on_node_try_def
  by (intro keeps_rules answers_frame.basic answers_frame.ready)

lemma run_start_known: "keeps (\<lambda>m. known_channels m \<subseteq> C) (run_start D)"
  unfolding run_start_def bootstrap_single_node_def on_node_try_def
  by (intro keeps_rules known_frame.basic known_frame.ready)

text \<open>The response channels of the events, in order; each request brings one of its own.\<close>

definition reply_channels :: "event list \<Rightarrow> channel list" where
  "reply_channels evs = concat (map (\<lambda>ev. case event_channel ev of None \<Rightarrow> [] | Some ch \<Rightarrow> [ch]) evs)"

lemma reply_channels_Cons: "reply_channels (ev # evs) = (case event_channel ev of None \<Rightarrow> [] | Some ch \<Rightarrow> [ch]) @ reply_channels evs"
  by (simp add: reply_channels_def)

lemma main_loop_answers:
  assumes "answers_ok m" and "known_channels m \<subseteq> C" and "distinct (reply_channels evs)" and "C \<inter> set (reply_channels evs) = {}"
  shows "answers_ok (snd (run_main_loop D evs m)) \<and> known_channels (snd (run_main_loop D evs m)) \<subseteq> C \<union> set (reply_channels evs)"
  using assms
proof (induction evs arbitrary: m C)
  case Nil
  then show ?case by (simp add: run_main_loop_def reply_channels_def)
next
  case (Cons ev evs)
  let ?C = "C \<union> set_option (event_channel ev)"
  obtain r m1 where ev: "handle_event D ev m = (r, m1)" by fastforce
  have "unused (event_channel ev) m"
    using Cons.prems(2,4) by (auto simp: unused_def known_channels_def reply_channels_Cons split: option.splits)
  then have ok: "answers_ok m1" using manager_step_ok[OF Cons.prems(1) handled] ev by blast
  have "keeps (\<lambda>m. known_channels m \<subseteq> ?C) (handle_event D ev)" by (rule handle_event_known) simp
  then have known: "known_channels m1 \<subseteq> ?C" using Cons.prems(2) ev by (auto dest: keepsD)
  have fresh: "distinct (reply_channels evs)" "?C \<inter> set (reply_channels evs) = {}"
    using Cons.prems(3,4) by (auto simp: reply_channels_Cons split: option.splits)
  have set_eq: "?C \<union> set (reply_channels evs) = C \<union> set (reply_channels (ev # evs))"
    by (auto simp: reply_channels_Cons split: option.splits)
  show ?case
  proof (cases r)
    case (Inl e)
    then have "snd (run_main_loop D (ev # evs) m) = m1" by (simp add: run_main_loop_def act_then_apply ev)
    with ok known set_eq show ?thesis by auto
  next
    case (Inr u)
    then have "snd (run_main_loop D (ev # evs) m) = snd (run_main_loop D evs m1)" by (simp add: run_main_loop_def act_then_apply ev)
    with Cons.IH[OF ok known fresh] set_eq show ?thesis by simp
  qed
qed

text \<open>
  A manager that was created and runs, through the bootstrap and whatever events follow
  up to the first error, answers no request twice, holds no answered request, and answers or holds only
  requests of those events, provided each request brings a response channel of its own.
\<close>

theorem running_manager_answers_once:
  assumes new: "manager_new rn enabled machine i db peers shared = Inr (m0, batched)"
    and own: "distinct (reply_channels evs)" and run: "manager_run D evs m0 = (r, m)"
  shows "distinct (map fst (answers m)) \<and> fst ` set (answers m) \<inter> ran (pending_proposals m) = {} \<and>
    known_channels m \<subseteq> set (reply_channels evs)"
proof -
  have init: "answers_ok m0" "known_channels m0 \<subseteq> {}"
    using manager_new_init[OF new] by (auto simp: manager_init_def answers_ok_def known_channels_def)
  obtain r1 m1 where s: "run_start D m0 = (r1, m1)" by fastforce
  have m1: "answers_ok m1" "known_channels m1 \<subseteq> {}"
    using keepsD[OF run_start_answers init(1) s] keepsD[OF run_start_known init(2) s] by auto
  have "answers_ok m \<and> known_channels m \<subseteq> set (reply_channels evs)"
  proof (cases r1)
    case (Inl e)
    with s run m1 show ?thesis by (auto simp: manager_run_def act_then_apply)
  next
    case (Inr u)
    with s run have "run_main_loop D evs m1 = (r, m)" by (simp add: manager_run_def act_then_apply)
    with main_loop_answers[OF m1 own, of D] show ?thesis by simp
  qed
  then show ?thesis by (auto simp: answers_ok_def ran_def)
qed


text \<open>A node with a peer, so without a bootstrap, that is no leader and is asked to propose twice.\<close>

definition second_proposal :: RaftProposal where
  "second_proposal = raft_proposal_with_response ''second'' 8 Noop"

definition started_manager :: "(script_node, mem_tx, bytes) RaftManager" where
  "started_manager = (script_manager RoleFollower [])\<lparr>manager_peers := [2 \<mapsto> ''10.0.0.2:7000'']\<rparr>"

lemma started_manager_new:
  "manager_new (\<lambda>cfg db. Inr (raft_node (script_manager RoleFollower []))) (Inr False) [] 1 mem_empty [(2, ''10.0.0.2:7000'')]
     (shared_state (script_manager RoleFollower [])) = Inr (started_manager, False)"
  by (simp add: manager_new_def setup_batch_processing_def started_manager_def script_manager_def)

lemma running_manager_answers_once_witness:
  "\<exists>r m. manager_run script_deps [ProposalEvent sample_proposal, Tick, ProposalEvent second_proposal] started_manager = (r, m)
    \<and> distinct (map fst (answers m)) \<and> known_channels m \<subseteq> {7, 8}"
proof -
  let ?evs = "[ProposalEvent sample_proposal, Tick, ProposalEvent second_proposal]"
  obtain r m where run: "manager_run script_deps ?evs started_manager = (r, m)" by fastforce
  have ch: "reply_channels ?evs = [7, 8]"
    by (simp add: reply_channels_def event_channel_def sample_proposal_def second_proposal_def raft_proposal_with_response_def)
  then have "distinct (reply_channels ?evs)" by simp
  from running_manager_answers_once[OF started_manager_new this run] run ch show ?thesis by auto
qed

end
