(* ===== verification/Spec2Isabelle.thy ===== *)
theory Spec2Isabelle
  imports Prelude Errors Actions Redb Codec Wire SimpleStorage RedbStorage Steps F64
    CircuitBreaker Backpressure Timeouts LockFree StateMachine
    Proposals RawNode ConfigManager RaftSnapshots Manager Handlers
    Protocol Config Auth BatchProcessor Transport
    OptProcessing Events MgmtProtocol Discovery ClusterApi
    Actors Cluster Node Client
    TestCluster MetricsExport ErrorText ManagementHttp SimpleTransport ManagerStart
begin

text \<open>
  A model of iroh-raft, a library that runs replicated state machines over the Raft
  protocol: a node keeps its log and its Raft state in a redb database, drives the consensus
  of the \<open>raft\<close> crate, applies what was agreed to a state machine, and protects its peers with circuit breakers, bounded channels and
  adaptive timeouts. The consensus algorithm itself is a dependency and is not modelled; what
  is modelled is the code of the repository that the dependency relies on (storage and codec),
  the manager that drives it, and the code around it.

  \<^bold>\<open>Theories and files.\<close>
  \<^item> \<open>Prelude\<close>: machine integers, bytes, \<open>Result\<close> as a sum with \<open>and_then\<close> for the \<open>?\<close> operator,
    little-endian conversions, ranges, time in nanoseconds; the lemmas all components share.
  \<^item> \<open>Errors\<close> (\<open>src/src/error.rs\<close>): \<open>RaftError\<close>, its constructors, conversions and classification.
  \<^item> \<open>Actions\<close>: fallible steps on a state, composed as the code composes calls with the \<open>?\<close> operator.
  \<^item> \<open>Redb\<close>: the database interface (a record of the calls the code makes), its documented laws
    \<open>redb_ok\<close>, and an in-memory instance \<open>mem_redb\<close> that keeps them.
  \<^item> \<open>Codec\<close> (\<open>src/src/storage/codec.rs\<close>): \<open>serialize_*\<close> and \<open>deserialize_*\<close>, with the locales \<open>codec\<close>,
    \<open>prefixed_codec\<close> and \<open>exact_codec\<close> for what a byte format may promise, interpreted on the three
    formats of the code. \<open>Wire\<close> is an instance of the protobuf parameter.
  \<^item> \<open>SimpleStorage\<close> (\<open>src/src/storage/simple.rs\<close>): \<open>RaftStorage\<close>, the backend of the crate.
  \<^item> \<open>RedbStorage\<close> (\<open>src/src/storage/redb.rs\<close>): \<open>RedbRaftStorage\<close>, with state machine tables, snapshots
    that carry them, initialization and quotas.
  \<^item> \<open>Steps\<close>: runs and reachability for a step relation, and the locale \<open>invariant_of\<close>.
  \<^item> \<open>F64\<close>: binary64 rounding on rationals, for the floating-point arithmetic of the code.
  \<^item> \<open>CircuitBreaker\<close> (\<open>src/src/circuit_breaker.rs\<close>), \<open>Backpressure\<close> (\<open>src/src/backpressure.rs\<close>):
    state and methods, and a step relation of concurrent callers; calls of a breaker interleave at every access
    to one of its shared cells.
  \<^item> \<open>Timeouts\<close> (\<open>src/src/timeout_manager.rs\<close>), \<open>LockFree\<close> (\<open>src/src/lock_free.rs\<close>).

  \<^item> \<open>StateMachine\<close> (\<open>src/src/raft/generic_state_machine.rs\<close>, \<open>kv_example.rs\<close>, \<open>state_machine.rs\<close>): the
    trait as a record of operations with the locale \<open>state_machine\<close> as its contract, the wrapper
    that decodes log entries, and the key-value store.
  \<^item> \<open>Proposals\<close> (\<open>src/src/types.rs\<close>, \<open>src/src/raft/proposals.rs\<close>, \<open>messages.rs\<close>): proposals, batches,
    messages and status.
  \<^item> \<open>RawNode\<close>: the interface of the raft crate, the state of the Raft manager and its
    own actions; \<open>ConfigManager\<close> (\<open>raft/config_manager.rs\<close>), \<open>RaftSnapshots\<close>
    (\<open>raft/snapshot.rs\<close>), \<open>Manager\<close> (\<open>raft/core.rs\<close>) and \<open>Handlers\<close> (\<open>raft/event_loop.rs\<close>, \<open>handlers.rs\<close>,
    \<open>bootstrap.rs\<close>): the parts of the manager, its handlers, and the two loops around them;
    \<open>ManagerStart\<close>: its creation and its run as a whole.
  \<^item> \<open>Protocol\<close> (\<open>src/src/transport/protocol.rs\<close>): frames of messages on a byte stream, and the handler
    that serves one stream and hands Raft messages to the manager.
  \<^item> \<open>Config\<close> (\<open>src/src/config.rs\<close>): the configuration, its defaults, validation, overrides and builder.
  \<^item> \<open>Transport\<close> (\<open>src/src/transport/iroh.rs\<close>, \<open>shared.rs\<close>): connections to the peers, the buffers of
    messages by urgency, and the tasks that send them.
  \<^item> \<open>BatchProcessor\<close> (\<open>src/src/raft/optimized_batch_processor.rs\<close>): batches of proposals in front of
    the manager, with a step relation for what it does in traditional mode, the closing of the
    manager among its events, and the streaming loop as a partial function.
  \<^item> \<open>Auth\<close> (\<open>src/src/management/auth.rs\<close>, \<open>mod.rs\<close>): tokens, roles and the operations they authorize.
  \<^item> \<open>OptProcessing\<close> (\<open>src/src/raft/optimized_processing.rs\<close>): queues of messages by class with the locale
    \<open>batched_fifo\<close> as their contract, the reused buffers, and the cache that recognizes duplicates.
  \<^item> \<open>Events\<close> (\<open>src/src/management/events.rs\<close>): cluster events, filters, streams, the broadcaster and the
    history; \<open>MgmtProtocol\<close> (\<open>protocol.rs\<close>, \<open>mod.rs\<close>): management requests over a stream, on the frames of
    \<open>Protocol\<close>; \<open>Discovery\<close> (\<open>discovery.rs\<close>): what is known of clusters and their members.
  \<^item> \<open>ClusterApi\<close> (\<open>src/src/cluster_api.rs\<close>): the cluster builder on \<open>Config\<close>, the handle, its HTTP handlers.
  \<^item> \<open>Cluster\<close> (\<open>src/src/cluster.rs\<close>, \<open>admin.rs\<close>): the cluster handle whose calls are commands to a task, and
    the health and maintenance helpers.
  \<^item> \<open>Node\<close> (\<open>src/src/node.rs\<close>): the node that joins the raft crate, the store of \<open>SimpleStorage\<close> and a state
    machine, with its main loop and the calls beside it.
  \<^item> \<open>Client\<close> (\<open>src/src/management/client.rs\<close>): the management client on \<open>Discovery\<close> and the messages of \<open>MgmtProtocol\<close>; the
    calls of tasks that share it are a step relation with the lock of its cached leader.
  \<^item> \<open>Actors\<close> (\<open>src/src/actor_patterns.rs\<close>): an actor and its callers as one system, with the locale
    \<open>read_write_actor\<close> as its contract, interpreted on the status actor and the connections actor.

  \<^item> \<open>ManagementHttp\<close> (\<open>src/src/management/config.rs\<close>, \<open>schemas.rs\<close>, \<open>handlers.rs\<close>, \<open>server.rs\<close>): the management API
    over HTTP, its handlers, error statuses, and the layers around its routes; \<open>ErrorText\<close>
    (\<open>src/src/error.rs\<close>): what every error displays, which the statuses depend on.
  \<^item> \<open>SimpleTransport\<close> (\<open>src/src/transport/simple.rs\<close>, \<open>src/src/discovery/registry.rs\<close>): the transport
    \<open>node.rs\<close> is written for, its mock, and the registry of addresses.
  \<^item> \<open>MetricsExport\<close> (\<open>src/src/metrics.rs\<close>): instruments, recorders and the exported text; \<open>TestCluster\<close>
    (\<open>src/src/test_helpers.rs\<close>): the simulated cluster offered to tests.

  \<^bold>\<open>How the parts meet.\<close> The loop of \<open>Manager\<close> takes one event at a time. A handler changes the node
  of the raft crate and then processes what that wants done: entries and hard state go through
  \<open>RedbStorage\<close> and \<open>Codec\<close> into the database, messages into the channel of the transport, committed
  entries to the state machine, whose result answers the proposal that is waiting for it, and
  committed membership changes to \<open>ConfigManager\<close>. The record \<open>deps\<close> holds everything a handler calls
  that is not in the repository. \<open>Node\<close> is the same composition in the earlier version of the library, on \<open>SimpleStorage\<close>.

  \<^bold>\<open>Conventions.\<close> A method with a mutable receiver takes the state and returns it afterwards.
  An \<open>Arc\<close> of atomics or of a lock is a field of the state; a method that awaits between two
  accesses is split there, and the interleavings are those of a step relation (the whole methods of the breaker are
  shown to be its accesses with nothing between them). A Rust \<open>panic\<close>
  that can happen is a value of its own. Third-party code (redb, prost, bincode, tokio, dashmap,
  crossbeam, raft, iroh, the absent modules \<open>raft_codec\<close> and \<open>node_shared\<close>) is a parameter with named laws. For each there is
  an instance that keeps the laws, and the witnesses use it.

  \<^bold>\<open>What the lemmas show.\<close> The codec lemmas are round trips and exactness of the formats. The
  storage lemmas say what a read returns after a write, that failed transactions leave no
  trace, and where the code departs from the contract of \<open>raft::Storage\<close>. The breaker,
  channel and pool lemmas are invariants of step relations, and two races of breaker calls are
  run to the states they lead to, one of which is never left; the others bound results
  (percentiles, retries, timeouts). For the manager, three locales (\<open>manager_frame\<close>, \<open>answering_frame\<close>,
  \<open>sending_frame\<close>) carry a property of the state through all actions; their interpretations give the
  invariant that requests are answered at most once, and what processing a ready state sends,
  saves and applies, for any raft crate, database and application. The state machine lemmas
  are a refinement of a plain map. Frames are read back as they were written on any stream
  that keeps its bytes; a configuration is accepted exactly when it is valid; an authorized operation is one
  of the role of its token; batches lose nothing but what is too old while the manager is there, message buffers
  nothing but what is too old, and the places where they block or reorder are stated. Queued messages and broadcast events are
  conserved and ordered; what discovery knows refines a table of members; the two
  permission checks of the management code are compared; a cluster handle is shown to work alone. For the node, what is saved comes before
  what is sent, a proposal is answered by the entry with its context, and what a light ready state commits is
  shown to be lost; an actor serves its callers one at a time, in the order of its channel. Client and handler of the management protocol are composed
  over a stream; a call of the client that cannot reach its leader is shown to block it for good.
  Over HTTP, the authentication guards every route but the health paths, before all other layers; the simulated
  cluster keeps its accounts, and a proposal to it is shown to end the agreement of its nodes.

  \<^bold>\<open>Bounds.\<close> No definition uses fuel: loops are recursions over ranges and lists, or \<open>partial_function (option)\<close> where the loop of the code may not end, with the
  value \<open>None\<close> for that: the streaming loops, and the retries, which \<open>retries_bounded\<close> shows to end for every limit but the largest. Integers are kept at their width; where a sum could wrap the word
  arithmetic wraps as the release build does; the retry loop also models the checks of the debug build.

  \<^bold>\<open>Not modelled.\<close> Logging and backtraces; the start of network endpoints (\<open>transport/adapter.rs\<close>,
  \<open>endpoint_manager.rs\<close>, \<open>service.rs\<close>) and \<open>optimized_proposals.rs\<close>, whose types are not in the repository. Most files under \<open>src/src/raft\<close> are not
  declared as modules of the crate and belong to an earlier version of its error type; they
  are modelled as they stand.
\<close>

end
